(* ===== verification/Prelude.thy ===== *)
theory Prelude
  imports Main "HOL-Library.Word"
begin

text \<open>
  Shared ground of the development: the machine integers of the Rust code, results that may be an
  error or a panic, the string operations of the Rust standard library that the code uses
  (decimal printing and parsing, splitting at a character, prefix tests), and the generic lemmas
  on strings and lists that the component theories share.

  Conventions: a Rust \<open>u64\<close> is a \<open>64 word\<close> read by \<open>unat\<close>, an \<open>i64\<close> is a \<open>64 word\<close> read
  by \<open>sint\<close>; \<open>x as i64\<close> and \<open>x as u64\<close> between them are then the identity on the bits, as in
  Rust. A \<open>panic!\<close>, a failed \<open>unwrap\<close> or \<open>expect\<close> is the value \<open>Panic\<close>.
\<close>

named_theorems coin_format_simps \<open>printing and parsing of coins and numbers\<close>
named_theorems redis_simps \<open>how the keyspace commands act on well-typed keys\<close>
named_theorems script_simps \<open>sequencing of script commands\<close>
named_theorems step_simps \<open>one-step equations of the storage operations\<close>
named_theorems exec_simps \<open>equations that evaluate the model on closed terms\<close>

type_synonym u64 = "64 word"
type_synonym i64 = "64 word"

lemma unat_word_of_int_small: "n < 2 ^ 64 \<Longrightarrow> unat (word_of_int (int n) :: u64) = n"
  by (simp add: unsigned_of_nat take_bit_nat_eq_self)

lemma sint_plus_bounded:
  "- (2 ^ 63) \<le> sint (a :: i64) + sint b \<Longrightarrow> sint a + sint b < 2 ^ 63 \<Longrightarrow> sint (a + b) = sint a + sint b"
  by (simp add: sint_word_ariths(1) signed_take_bit_int_eq_self)

lemma sint_nonneg: "0 \<le> sint (w :: i64) \<Longrightarrow> sint w = uint w"
proof -
  assume "0 \<le> sint w"
  moreover have "sint w < 2 ^ 63" using sint_lt [of w] by simp
  ultimately have "take_bit 64 (sint w) = sint w" by (simp add: take_bit_int_eq_self)
  then show ?thesis by (simp add: uint_sint)
qed

section \<open>Results\<close>

text \<open>
  An \<open>anyhow::Error\<close> is the message it was built from, or a context message wrapped around an
  inner error, or an error value handed over by a library or a service; \<open>to_string\<close> shows the
  outermost message.
\<close>

datatype error = Anyhow string | Context string error | Foreign string

fun error_to_string :: "error \<Rightarrow> string" where
  "error_to_string (Anyhow m) = m"
| "error_to_string (Context m e) = m"
| "error_to_string (Foreign m) = m"

text \<open>
  The outcome of a computation. \<open>Hang\<close> is the outcome of code that never returns, such as a retry
  loop on a service that never answers.
\<close>

datatype 'a result = Ok 'a | Err error | Panic string | Hang

fun rbind :: "'a result \<Rightarrow> ('a \<Rightarrow> 'b result) \<Rightarrow> 'b result" where
  "rbind (Ok a) f = f a"
| "rbind (Err e) f = Err e"
| "rbind (Panic m) f = Panic m"
| "rbind Hang f = Hang"

fun with_context :: "string \<Rightarrow> 'a result \<Rightarrow> 'a result" where
  "with_context c (Err e) = Err (Context c e)"
| "with_context c r = r"

fun is_ok :: "'a result \<Rightarrow> bool" where
  "is_ok (Ok a) = True"
| "is_ok r = False"

fun unwrap_opt :: "'a option \<Rightarrow> 'a result" where
  "unwrap_opt (Some a) = Ok a"
| "unwrap_opt None = Panic ''called `Option::unwrap()` on a `None` value''"

fun map_result :: "('a \<Rightarrow> 'b result) \<Rightarrow> 'a list \<Rightarrow> 'b list result" where
  "map_result f [] = Ok []"
| "map_result f (x # xs) = rbind (f x) (\<lambda>y. rbind (map_result f xs) (\<lambda>ys. Ok (y # ys)))"

lemma rbind_eq_Ok [simp]: "rbind r f = Ok b \<longleftrightarrow> (\<exists>a. r = Ok a \<and> f a = Ok b)"
  by (cases r) auto

lemma is_ok_iff: "is_ok r \<longleftrightarrow> (\<exists>a. r = Ok a)"
  by (cases r) auto

lemma map_result_map: "(\<And>x. x \<in> set xs \<Longrightarrow> f (g x) = Ok (h x)) \<Longrightarrow>
    map_result f (map g xs) = Ok (map h xs)"
  by (induction xs) auto

section \<open>Decimal numbers\<close>

definition is_digit :: "char \<Rightarrow> bool" where
  "is_digit c \<longleftrightarrow> c \<in> set ''0123456789''"

definition digit_char :: "nat \<Rightarrow> char" where
  "digit_char d = ''0123456789'' ! d"

definition digit_val :: "char \<Rightarrow> nat" where
  "digit_val c = of_char c - 48"

text \<open>\<open>Display\<close> of an unsigned integer, and of a signed one.\<close>

fun show_nat :: "nat \<Rightarrow> string" where
  "show_nat n = (if n < 10 then [digit_char n] else show_nat (n div 10) @ [digit_char (n mod 10)])"

definition show_int :: "int \<Rightarrow> string" where
  "show_int i = (if i < 0 then CHR ''-'' # show_nat (nat (- i)) else show_nat (nat i))"

text \<open>Reading a digit string: the value so far is the accumulator.\<close>

fun read_digits :: "nat \<Rightarrow> string \<Rightarrow> nat option" where
  "read_digits acc [] = Some acc"
| "read_digits acc (c # cs) =
     (if is_digit c then read_digits (10 * acc + digit_val c) cs else None)"

definition read_nat :: "string \<Rightarrow> nat option" where
  "read_nat s = (if s = [] then None else read_digits 0 s)"

fun read_int :: "string \<Rightarrow> int option" where
  "read_int [] = None"
| "read_int (c # cs) =
     (if c = CHR ''-'' then map_option (\<lambda>n. - int n) (read_nat cs)
      else map_option int (read_nat (c # cs)))"

text \<open>
  \<open>str::parse::<u64>()\<close>: an optional plus sign, at least one digit, only digits, no overflow.
\<close>

definition parse_u64 :: "string \<Rightarrow> u64 option" where
  "parse_u64 s =
     (let body = (case s of [] \<Rightarrow> [] | c # cs \<Rightarrow> if c = CHR ''+'' then cs else s)
      in case read_nat body of
           None \<Rightarrow> None
         | Some n \<Rightarrow> if n < 2 ^ 64 then Some (of_nat n) else None)"

declare show_nat.simps [simp del]

lemma less_10_cases: "(n::nat) < 10 \<Longrightarrow>
    n = 0 \<or> n = 1 \<or> n = 2 \<or> n = 3 \<or> n = 4 \<or> n = 5 \<or> n = 6 \<or> n = 7 \<or> n = 8 \<or> n = 9"
  by arith

lemma digit_char_digit: "n < 10 \<Longrightarrow> is_digit (digit_char n)"
  by (drule less_10_cases) (auto simp: digit_char_def is_digit_def)

lemma digit_val_digit_char: "n < 10 \<Longrightarrow> digit_val (digit_char n) = n"
  by (drule less_10_cases) (auto simp: digit_char_def digit_val_def)

lemma show_nat_less [exec_simps]: "n < 10 \<Longrightarrow> show_nat n = [digit_char n]"
  by (simp add: show_nat.simps)

lemma show_nat_more [exec_simps]:
  "\<not> n < 10 \<Longrightarrow> show_nat n = show_nat (n div 10) @ [digit_char (n mod 10)]"
  by (simp add: show_nat.simps)

lemma show_nat_digits: "c \<in> set (show_nat n) \<Longrightarrow> is_digit c"
proof (induction n rule: show_nat.induct)
  case (1 n)
  then show ?case
    by (subst (asm) show_nat.simps) (auto simp: digit_char_digit split: if_splits)
qed

lemma show_nat_not_Nil [simp]: "show_nat n \<noteq> []"
  by (subst show_nat.simps) simp

lemma read_digits_append:
  "read_digits acc (s @ t) = (case read_digits acc s of None \<Rightarrow> None | Some a \<Rightarrow> read_digits a t)"
  by (induction s arbitrary: acc) auto

lemma read_digits_show_nat [simp]: "read_digits 0 (show_nat n) = Some n"
proof (induction n rule: show_nat.induct)
  case (1 n)
  show ?case
  proof (cases "n < 10")
    case True
    then show ?thesis
      by (subst show_nat.simps) (simp add: digit_char_digit digit_val_digit_char)
  next
    case False
    with 1 have "read_digits 0 (show_nat (n div 10)) = Some (n div 10)" by simp
    with False show ?thesis
      by (subst show_nat.simps)
        (simp add: read_digits_append digit_char_digit digit_val_digit_char)
  qed
qed

lemma read_nat_show_nat [simp, coin_format_simps]: "read_nat (show_nat n) = Some n"
  by (simp add: read_nat_def)

lemma show_nat_inject [simp]: "show_nat m = show_nat n \<longleftrightarrow> m = n"
  by (metis option.inject read_nat_show_nat)

text \<open>A decimal number is not a word: this separates reservation keys from the named keys.\<close>

lemma show_nat_neq_Cons [simp]: "\<not> is_digit c \<Longrightarrow> show_nat n \<noteq> c # cs"
  by (metis list.set_intros(1) show_nat_digits)

lemma show_nat_neq_Cons' [simp]: "\<not> is_digit c \<Longrightarrow> c # cs \<noteq> show_nat n"
  by (metis show_nat_neq_Cons)

lemma not_digit_notin_show_nat: "\<not> is_digit c \<Longrightarrow> c \<notin> set (show_nat n)"
  using show_nat_digits by blast

lemma read_int_show_int [simp, coin_format_simps]: "read_int (show_int i) = Some i"
proof (cases "i < 0")
  case True
  then show ?thesis by (simp add: show_int_def)
next
  case False
  obtain c cs where s: "show_nat (nat i) = c # cs"
    by (cases "show_nat (nat i)") auto
  have "c \<noteq> CHR ''-''"
    using show_nat_digits [of c "nat i"] s by (auto simp: is_digit_def)
  with False s read_nat_show_nat [of "nat i"] show ?thesis
    by (simp add: show_int_def)
qed

lemma show_int_inject [simp]: "show_int i = show_int j \<longleftrightarrow> i = j"
  by (metis option.inject read_int_show_int)

lemma show_int_of_nat [simp]: "show_int (int n) = show_nat n"
  by (simp add: show_int_def)

lemma read_int_show_nat [simp, coin_format_simps]: "read_int (show_nat n) = Some (int n)"
  using read_int_show_int [of "int n"] unfolding show_int_of_nat .

lemma parse_u64_show_nat [simp, coin_format_simps]:
  "parse_u64 (show_nat (unat (w :: u64))) = Some w"
proof -
  obtain c cs where s: "show_nat (unat w) = c # cs"
    by (cases "show_nat (unat w)") auto
  have "c \<noteq> CHR ''+''"
    using show_nat_digits [of c "unat w"] s by (auto simp: is_digit_def)
  moreover have "unat w < 2 ^ 64"
    using unsigned_less [of w] by simp
  ultimately show ?thesis
    using s read_nat_show_nat [of "unat w"] by (simp add: parse_u64_def)
qed

section \<open>Strings\<close>

text \<open>\<open>str::split\<close> at one character: always at least one piece.\<close>

fun split_on :: "char \<Rightarrow> string \<Rightarrow> string list" where
  "split_on d [] = [[]]"
| "split_on d (c # cs) =
     (if c = d then [] # split_on d cs
      else (case split_on d cs of [] \<Rightarrow> [[c]] | p # ps \<Rightarrow> (c # p) # ps))"

text \<open>Pieces joined by a separator: \<open>join\<close> in Rust, \<open>table.concat\<close> in Lua.\<close>

fun join_with :: "string \<Rightarrow> string list \<Rightarrow> string" where
  "join_with sep [] = []"
| "join_with sep [s] = s"
| "join_with sep (s # t # ts) = s @ sep @ join_with sep (t # ts)"

fun starts_with :: "string \<Rightarrow> string \<Rightarrow> bool" where
  "starts_with [] s = True"
| "starts_with (p # ps) [] = False"
| "starts_with (p # ps) (c # cs) = (p = c \<and> starts_with ps cs)"

text \<open>\<open>str::contains\<close> of a substring.\<close>

fun str_contains :: "string \<Rightarrow> string \<Rightarrow> bool" where
  "str_contains p [] = starts_with p []"
| "str_contains p (c # cs) = (starts_with p (c # cs) \<or> str_contains p cs)"

lemma split_on_not_Nil [simp]: "split_on d s \<noteq> []"
  by (induction s) (auto split: list.splits)

lemma split_on_no_sep: "d \<notin> set s \<Longrightarrow> split_on d s = [s]"
  by (induction s) auto

lemma split_on_append_sep: "d \<notin> set s \<Longrightarrow> split_on d (s @ d # t) = s # split_on d t"
  by (induction s) auto

lemma split_on_join:
  "xs \<noteq> [] \<Longrightarrow> (\<And>x. x \<in> set xs \<Longrightarrow> d \<notin> set x) \<Longrightarrow> split_on d (join_with [d] xs) = xs"
  by (induction "[d]" xs rule: join_with.induct) (auto simp: split_on_no_sep split_on_append_sep)

lemma starts_with_append [simp]: "starts_with p (p @ s)"
  by (induction p) auto

lemma starts_with_iff: "starts_with p s \<longleftrightarrow> (\<exists>t. s = p @ t)"
  by (induction p s rule: starts_with.induct) auto

lemma str_contains_append: "str_contains p (a @ p @ b)"
proof (induction a)
  case Nil
  have "starts_with p (p @ b)" by simp
  then show ?case by (cases "p @ b") simp_all
next
  case (Cons c a)
  then show ?case by simp
qed

section \<open>Lists\<close>

lemma sum_list_take_drop: "sum_list (take n xs) + sum_list (drop n xs) = sum_list (xs :: int list)"
  by (metis append_take_drop_id sum_list_append)

lemma sum_list_nonneg_take: "(\<And>x. x \<in> set xs \<Longrightarrow> 0 \<le> (x :: int)) \<Longrightarrow>
    sum_list (take n xs) \<le> sum_list xs"
  by (metis add_increasing2 in_set_dropD order_refl sum_list_nonneg sum_list_take_drop)

end
