(* ===== verification/Json.thy ===== *)
theory Json
  imports Prelude
begin

text \<open>
  JSON values and the contract of a pair of \<open>Serialize\<close> and \<open>Deserialize\<close> implementations. The
  configuration of the access controller is read and written through serde; a serializer is a
  function to \<open>json\<close>, a deserializer a function from it to a result. An object is a list of fields
  with distinct names.
\<close>

datatype json =
    JNull
  | JBool bool
  | JNumber int
  | JString string
  | JArray "json list"
  | JObject "(string \<times> json) list"

text \<open>The error a deserializer builds, \<open>serde::de::Error::custom\<close>, and the one for a wrong type.\<close>

abbreviation de_error :: "string \<Rightarrow> 'a result" where
  "de_error m \<equiv> Err (Foreign m)"

fun de_string :: "json \<Rightarrow> string result" where
  "de_string (JString s) = Ok s"
| "de_string j = de_error ''invalid type: expected a string''"

fun de_list :: "(json \<Rightarrow> 'a result) \<Rightarrow> json \<Rightarrow> 'a list result" where
  "de_list de (JArray js) = map_result de js"
| "de_list de j = de_error ''invalid type: expected a sequence''"

text \<open>Fields of an object: required, with a default, and optional, where \<open>null\<close> is \<open>None\<close>.\<close>

definition de_field :: "(json \<Rightarrow> 'a result) \<Rightarrow> string \<Rightarrow> (string \<times> json) list \<Rightarrow> 'a result" where
  "de_field de k fields =
     (case map_of fields k of None \<Rightarrow> de_error (''missing field `'' @ k @ ''`'') | Some j \<Rightarrow> de j)"

definition de_default :: "(json \<Rightarrow> 'a result) \<Rightarrow> 'a \<Rightarrow> string \<Rightarrow> (string \<times> json) list \<Rightarrow> 'a result" where
  "de_default de d k fields = (case map_of fields k of None \<Rightarrow> Ok d | Some j \<Rightarrow> de j)"

definition de_optional :: "(json \<Rightarrow> 'a result) \<Rightarrow> string \<Rightarrow> (string \<times> json) list \<Rightarrow> 'a option result" where
  "de_optional de k fields =
     (case map_of fields k of
        None \<Rightarrow> Ok None
      | Some JNull \<Rightarrow> Ok None
      | Some j \<Rightarrow> rbind (de j) (\<lambda>a. Ok (Some a)))"

text \<open>\<open>skip_serializing_if = "Option::is_none"\<close>\<close>

definition ser_optional :: "('a \<Rightarrow> json) \<Rightarrow> string \<Rightarrow> 'a option \<Rightarrow> (string \<times> json) list" where
  "ser_optional ser k v = (case v of None \<Rightarrow> [] | Some a \<Rightarrow> [(k, ser a)])"

section \<open>The contract\<close>

text \<open>What is written reads back, for the values that \<open>ok\<close> admits.\<close>

locale json_codec =
  fixes ser :: "'a \<Rightarrow> json" and de :: "json \<Rightarrow> 'a result" and ok :: "'a \<Rightarrow> bool"
  assumes roundtrip: "ok v \<Longrightarrow> de (ser v) = Ok v"
    and not_null: "ser v \<noteq> JNull"
begin

lemma injective: "ok v \<Longrightarrow> ok w \<Longrightarrow> ser v = ser w \<Longrightarrow> v = w"
  using roundtrip by (metis result.inject(1))

lemma list_roundtrip: "list_all ok vs \<Longrightarrow> de_list de (JArray (map ser vs)) = Ok vs"
proof -
  assume "list_all ok vs"
  then have "map_result de (map ser vs) = Ok (map (\<lambda>v. v) vs)"
    by (intro map_result_map) (simp add: list_all_iff roundtrip)
  then show ?thesis by simp
qed

lemma optional_roundtrip:
  assumes "\<And>a. v = Some a \<Longrightarrow> ok a" and "map_of rest k = None"
  shows "de_optional de k (ser_optional ser k v @ rest) = Ok v"
proof (cases v)
  case None
  with assms(2) show ?thesis by (simp add: de_optional_def ser_optional_def)
next
  case (Some a)
  then have "de (ser a) = Ok a" using assms(1) roundtrip by blast
  with Some not_null [of a] show ?thesis
    by (cases "ser a") (simp_all add: de_optional_def ser_optional_def)
qed

lemma optional_other:
  "k \<noteq> k' \<Longrightarrow> de_optional de k (ser_optional ser' k' v @ rest) = de_optional de k rest"
  by (simp add: de_optional_def ser_optional_def split: option.splits)

end

end
