(* ===== verification/Access_Predicates.thy ===== *)
theory Access_Predicates
  imports Json
begin

text \<open>
  The predicates of an access rule, \<open>src/src/access_controller/predicates\<close>: comparisons with a number,
  sets of addresses, and the values by which gas usage is counted, with their texts in the
  configuration. Addresses are a type of the \<open>iota_types\<close> crate, durations are written by
  \<open>humantime\<close>; both come in as codecs with what those crates document.
\<close>

section \<open>Numbers\<close>

datatype 'n value_number =
    GreaterThan 'n
  | LessThan 'n
  | Equal 'n
  | NotEqual 'n
  | GreaterThanOrEqual 'n
  | LessThanOrEqual 'n

definition op_ge :: string where "op_ge = ''>=''"
definition op_le :: string where "op_le = ''<=''"
definition op_eq :: string where "op_eq = ''=''"
definition op_ne :: string where "op_ne = ''!=''"
definition op_gt :: string where "op_gt = ''>''"
definition op_lt :: string where "op_lt = ''<''"

lemmas op_defs = op_ge_def op_le_def op_eq_def op_ne_def op_gt_def op_lt_def

fun display_value_number :: "('n \<Rightarrow> string) \<Rightarrow> 'n value_number \<Rightarrow> string" where
  "display_value_number sh (GreaterThan n) = op_gt @ sh n"
| "display_value_number sh (LessThan n) = op_lt @ sh n"
| "display_value_number sh (Equal n) = op_eq @ sh n"
| "display_value_number sh (NotEqual n) = op_ne @ sh n"
| "display_value_number sh (GreaterThanOrEqual n) = op_ge @ sh n"
| "display_value_number sh (LessThanOrEqual n) = op_le @ sh n"

definition value_number_from :: "'n \<Rightarrow> 'n value_number" where
  "value_number_from n = Equal n"

fun get_number :: "'n value_number \<Rightarrow> 'n" where
  "get_number (GreaterThan n) = n"
| "get_number (LessThan n) = n"
| "get_number (Equal n) = n"
| "get_number (NotEqual n) = n"
| "get_number (GreaterThanOrEqual n) = n"
| "get_number (LessThanOrEqual n) = n"

fun number_matches :: "('n::linorder) value_number \<Rightarrow> 'n \<Rightarrow> bool" where
  "number_matches (GreaterThan n) v \<longleftrightarrow> n < v"
| "number_matches (LessThan n) v \<longleftrightarrow> v < n"
| "number_matches (Equal n) v \<longleftrightarrow> v = n"
| "number_matches (NotEqual n) v \<longleftrightarrow> v \<noteq> n"
| "number_matches (GreaterThanOrEqual n) v \<longleftrightarrow> n \<le> v"
| "number_matches (LessThanOrEqual n) v \<longleftrightarrow> v \<le> n"

fun ser_value_number :: "('n \<Rightarrow> string) \<Rightarrow> 'n value_number \<Rightarrow> json" where
  "ser_value_number sh (GreaterThan n) = JString (op_gt @ sh n)"
| "ser_value_number sh (LessThan n) = JString (op_lt @ sh n)"
| "ser_value_number sh (Equal n) = JString (op_eq @ sh n)"
| "ser_value_number sh (NotEqual n) = JString (op_ne @ sh n)"
| "ser_value_number sh (GreaterThanOrEqual n) = JString (op_ge @ sh n)"
| "ser_value_number sh (LessThanOrEqual n) = JString (op_le @ sh n)"

text \<open>The operators are tried in this order, the longer of two with a common prefix first.\<close>

definition operators :: "(string \<times> ('n \<Rightarrow> 'n value_number)) list" where
  "operators = [(op_ge, GreaterThanOrEqual), (op_le, LessThanOrEqual), (op_eq, Equal),
     (op_ne, NotEqual), (op_gt, GreaterThan), (op_lt, LessThan)]"

fun try_operators ::
  "(string \<Rightarrow> 'n option) \<Rightarrow> string \<Rightarrow> (string \<times> ('n \<Rightarrow> 'n value_number)) list \<Rightarrow> 'n value_number result"
where
  "try_operators parse s [] = de_error ''Invalid operator''"
| "try_operators parse s ((op, mk) # ops) =
     (if starts_with op s
      then (case parse (drop (length op) s) of
              None \<Rightarrow> de_error ''invalid digit found in string''
            | Some n \<Rightarrow> Ok (mk n))
      else try_operators parse s ops)"

definition de_value_number :: "(string \<Rightarrow> 'n option) \<Rightarrow> json \<Rightarrow> 'n value_number result" where
  "de_value_number parse j = rbind (de_string j) (\<lambda>s. try_operators parse s operators)"

section \<open>Addresses\<close>

datatype 'addr value_iota_address = All | Single 'addr | List "'addr list"

fun new_value_iota_address :: "'addr list \<Rightarrow> 'addr value_iota_address" where
  "new_value_iota_address [] = All"
| "new_value_iota_address [a] = Single a"
| "new_value_iota_address as = List as"

definition value_iota_address_from :: "'addr list \<Rightarrow> 'addr value_iota_address" where
  "value_iota_address_from k = new_value_iota_address k"

text \<open>What the constructor makes of a list includes its members; of no members it makes all addresses.\<close>

fun addr_includes :: "'addr value_iota_address \<Rightarrow> 'addr \<Rightarrow> bool" where
  "addr_includes All a = True"
| "addr_includes (Single s) a = (s = a)"
| "addr_includes (List l) a = (a \<in> set l)"

lemma new_includes: "as \<noteq> [] \<Longrightarrow> addr_includes (new_value_iota_address as) a \<longleftrightarrow> a \<in> set as"
  by (cases as rule: new_value_iota_address.cases) auto

definition includes_any :: "'addr value_iota_address \<Rightarrow> 'addr list \<Rightarrow> bool" where
  "includes_any v as \<longleftrightarrow> list_ex (addr_includes v) as"

text \<open>
  \<open>Display\<close>, \<open>Debug\<close>, the hexadecimal decoder of the visitor, and serde's own reader of an address. The crate
  documents that both read back what is printed; a printed address is never a star.
\<close>

record 'addr addr_codec =
  show_addr :: "'addr \<Rightarrow> string"
  debug_addr :: "'addr \<Rightarrow> string"
  decode_bytes_hex :: "string \<Rightarrow> 'addr option"
  de_addr :: "json \<Rightarrow> 'addr result"

definition addr_codec_ok :: "'addr addr_codec \<Rightarrow> bool" where
  "addr_codec_ok A \<longleftrightarrow>
     (\<forall>a. decode_bytes_hex A (show_addr A a) = Some a \<and> de_addr A (JString (show_addr A a)) = Ok a \<and>
        show_addr A a \<noteq> ''*'')"

fun ser_value_iota_address :: "'addr addr_codec \<Rightarrow> 'addr value_iota_address \<Rightarrow> json" where
  "ser_value_iota_address A All = JString ''*''"
| "ser_value_iota_address A (Single a) = JString (show_addr A a)"
| "ser_value_iota_address A (List as) = JArray (map (\<lambda>a. JString (show_addr A a)) as)"

fun de_value_iota_address :: "'addr addr_codec \<Rightarrow> json \<Rightarrow> 'addr value_iota_address result" where
  "de_value_iota_address A (JString s) =
     (if s = ''*'' then Ok All
      else (case decode_bytes_hex A s of
              None \<Rightarrow> de_error ''Invalid value was given to the function''
            | Some a \<Rightarrow> Ok (Single a)))"
| "de_value_iota_address A (JArray js) = rbind (map_result (de_addr A) js) (\<lambda>as. Ok (List as))"
| "de_value_iota_address A j =
     de_error ''invalid type: expected a string, a single IotaAddress, or a list of IotaAddresses''"

section \<open>Counting by\<close>

definition http_header_prefix :: string where
  "http_header_prefix = ''http-header::''"

record count_by_http_header =
  header_name :: string

datatype count_by = SenderAddress | HttpHeader count_by_http_header

definition new_http_header :: "string \<Rightarrow> count_by" where
  "new_http_header name = HttpHeader \<lparr>header_name = name\<rparr>"

definition new_sender_address :: count_by where
  "new_sender_address = SenderAddress"

text \<open>\<open>str::split\<close> at a non-empty string: the text before and after its first occurrence.\<close>

fun find_sub :: "string \<Rightarrow> string \<Rightarrow> (string \<times> string) option" where
  "find_sub p [] = (if p = [] then Some ([], []) else None)"
| "find_sub p (c # cs) =
     (if starts_with p (c # cs) then Some ([], drop (length p) (c # cs))
      else map_option (\<lambda>(a, b). (c # a, b)) (find_sub p cs))"

lemma find_sub_shorter: "find_sub p s = Some (a, b) \<Longrightarrow> p \<noteq> [] \<Longrightarrow> length b < length s"
proof (induction s arbitrary: a)
  case Nil
  then show ?case by simp
next
  case (Cons c cs)
  then show ?case by (auto split: if_splits)
qed

function split_str :: "string \<Rightarrow> string \<Rightarrow> string list" where
  "split_str p s =
     (if p = [] then [s]
      else case find_sub p s of None \<Rightarrow> [s] | Some (a, b) \<Rightarrow> a # split_str p b)"
  by pat_completeness auto

termination
  by (relation "measure (\<lambda>(p, s). length s)") (auto simp: find_sub_shorter)

declare split_str.simps [simp del]

definition http_header_to_string :: "count_by_http_header \<Rightarrow> string" where
  "http_header_to_string h = http_header_prefix @ header_name h"

definition http_header_from_str :: "string \<Rightarrow> count_by_http_header result" where
  "http_header_from_str s =
     (let parts = split_str http_header_prefix s
      in if length parts \<noteq> 2 then Err (Anyhow (''Invalid HttpHeader: '' @ s))
         else Ok \<lparr>header_name = parts ! 1\<rparr>)"

definition http_header_try_from :: "string \<Rightarrow> count_by_http_header result" where
  "http_header_try_from s =
     (case http_header_from_str s of
        Err e \<Rightarrow> Err (Anyhow (''Invalid HttpHeader: '' @ error_to_string e))
      | r \<Rightarrow> r)"

fun count_by_to_string :: "count_by \<Rightarrow> string" where
  "count_by_to_string SenderAddress = ''sender-address''"
| "count_by_to_string (HttpHeader h) = http_header_to_string h"

fun ser_count_by :: "count_by \<Rightarrow> json" where
  "ser_count_by SenderAddress = JString ''sender-address''"
| "ser_count_by (HttpHeader h) = JString (http_header_to_string h)"

definition ser_http_header :: "count_by_http_header \<Rightarrow> json" where
  "ser_http_header h = JString (http_header_to_string h)"

text \<open>\<open>CountByHttpHeader::deserialize\<close> unwraps: a text without exactly one prefix is a panic.\<close>

definition de_http_header :: "json \<Rightarrow> count_by_http_header result" where
  "de_http_header j = rbind (de_string j) (\<lambda>s.
     case http_header_from_str s of
       Err e \<Rightarrow> Panic (error_to_string e)
     | r \<Rightarrow> r)"

definition de_count_by :: "json \<Rightarrow> count_by result" where
  "de_count_by j = rbind (de_string j) (\<lambda>s.
     if s = ''sender-address'' then Ok SenderAddress
     else if starts_with http_header_prefix s
     then (case http_header_from_str s of
             Err e \<Rightarrow> de_error (error_to_string e)
           | r \<Rightarrow> rbind r (\<lambda>h. Ok (HttpHeader h)))
     else de_error (''Invalid CountBy: '' @ s))"

section \<open>Aggregates\<close>

text \<open>A \<open>Duration\<close> in nanoseconds; its text is written and read by \<open>humantime\<close>.\<close>

type_synonym duration = nat

definition as_secs :: "duration \<Rightarrow> nat" where
  "as_secs d = d div 1000000000"

record duration_codec =
  format_duration :: "duration \<Rightarrow> string"
  parse_duration :: "string \<Rightarrow> duration option"

definition duration_codec_ok :: "duration_codec \<Rightarrow> bool" where
  "duration_codec_ok D \<longleftrightarrow> (\<forall>d. parse_duration D (format_duration D d) = Some d)"

definition ser_duration :: "duration_codec \<Rightarrow> duration \<Rightarrow> json" where
  "ser_duration D d = JString (format_duration D d)"

definition de_duration :: "duration_codec \<Rightarrow> json \<Rightarrow> duration result" where
  "de_duration D j = rbind (de_string j) (\<lambda>s.
     case parse_duration D s of
       None \<Rightarrow> Panic (''Failed to parse duration: '' @ s)
     | Some d \<Rightarrow> Ok d)"

record value_aggregate =
  window :: duration
  aggr_value :: "u64 value_number"
  count_bys :: "count_by list"

definition value_aggregate_new :: "duration \<Rightarrow> u64 value_number \<Rightarrow> value_aggregate" where
  "value_aggregate_new w limit = \<lparr>window = w, aggr_value = limit, count_bys = []\<rparr>"

definition with_count_by :: "value_aggregate \<Rightarrow> count_by list \<Rightarrow> value_aggregate" where
  "with_count_by v group_by = v\<lparr>count_bys := group_by\<rparr>"

abbreviation show_u64 :: "u64 \<Rightarrow> string" where
  "show_u64 n \<equiv> show_nat (unat n)"

definition ser_value_aggregate :: "duration_codec \<Rightarrow> value_aggregate \<Rightarrow> json" where
  "ser_value_aggregate D v = JObject
     ([(''window'', ser_duration D (window v)),
       (''value'', ser_value_number show_u64 (aggr_value v))] @
      (if count_bys v = [] then [] else [(''count-by'', JArray (map ser_count_by (count_bys v)))]))"

fun de_value_aggregate :: "duration_codec \<Rightarrow> json \<Rightarrow> value_aggregate result" where
  "de_value_aggregate D (JObject fs) =
     rbind (de_field (de_duration D) ''window'' fs) (\<lambda>w.
     rbind (de_field (de_value_number parse_u64) ''value'' fs) (\<lambda>v.
     rbind (de_default (de_list de_count_by) [] ''count-by'' fs) (\<lambda>cs.
     Ok \<lparr>window = w, aggr_value = v, count_bys = cs\<rparr>)))"
| "de_value_aggregate D j = de_error ''invalid type: expected struct ValueAggregate''"

section \<open>Round trips\<close>

text \<open>
  The texts read back as the values they were written from: numbers always, addresses and durations
  as far as the codecs do, and a header to count by unless its name contains the prefix itself.
\<close>

lemma digit_not_equals: "\<not> starts_with op_eq (show_nat n)"
  by (cases "show_nat n") (auto simp: op_eq_def is_digit_def dest: show_nat_digits [of _ n])

lemma try_operators_ser:
  assumes "parse (sh (get_number v)) = Some (get_number v)"
    and "\<not> starts_with op_eq (sh (get_number v))"
  shows "de_value_number parse (ser_value_number sh v) = Ok v"
  using assms by (cases v) (auto simp: de_value_number_def operators_def op_defs)

interpretation number_json: json_codec "ser_value_number show_u64" "de_value_number parse_u64" "\<lambda>v. True"
proof
  show "de_value_number parse_u64 (ser_value_number show_u64 v) = Ok v" for v
    by (rule try_operators_ser) (simp_all add: digit_not_equals)
  show "ser_value_number show_u64 v \<noteq> JNull" for v
    by (cases v) simp_all
qed

interpretation address_json: json_codec
  "\<lambda>a. JString (show_addr A a)" "de_addr A" "\<lambda>a. addr_codec_ok A" for A
  by unfold_locales (simp_all add: addr_codec_ok_def)

interpretation iota_address_json: json_codec
  "ser_value_iota_address A" "de_value_iota_address A" "\<lambda>v. addr_codec_ok A" for A
proof
  show "ser_value_iota_address A v \<noteq> JNull" for v
    by (cases v) simp_all
  show "de_value_iota_address A (ser_value_iota_address A v) = Ok v" if A: "addr_codec_ok A" for v
  proof (cases v)
    case (List as)
    then show ?thesis
      using address_json.list_roundtrip [of A as] A by (simp add: list_all_iff)
  qed (use A in \<open>simp_all add: addr_codec_ok_def\<close>)
qed

definition count_by_ok :: "count_by \<Rightarrow> bool" where
  "count_by_ok c =
     (case c of SenderAddress \<Rightarrow> True | HttpHeader h \<Rightarrow> find_sub http_header_prefix (header_name h) = None)"

lemma find_sub_at_front: "p \<noteq> [] \<Longrightarrow> find_sub p (p @ s) = Some ([], s)"
  by (metis append_eq_conv_conj append_is_Nil_conv find_sub.simps(2) neq_Nil_conv starts_with_append)

lemma http_header_prefix_not_Nil: "http_header_prefix \<noteq> []"
  by (simp add: http_header_prefix_def)

lemma split_header_text:
  "find_sub http_header_prefix name = None \<Longrightarrow>
     split_str http_header_prefix (http_header_prefix @ name) = [[], name]"
  by (simp add: split_str.simps http_header_prefix_not_Nil find_sub_at_front)

lemma http_header_roundtrip:
  "find_sub http_header_prefix (header_name h) = None \<Longrightarrow>
     http_header_from_str (http_header_to_string h) = Ok h"
  by (simp add: http_header_from_str_def http_header_to_string_def split_header_text Let_def)

lemma header_text_not_sender: "http_header_to_string h \<noteq> ''sender-address''"
  by (simp add: http_header_to_string_def http_header_prefix_def)

interpretation count_by_json: json_codec ser_count_by de_count_by count_by_ok
proof
  show "ser_count_by c \<noteq> JNull" for c
    by (cases c) simp_all
  show "de_count_by (ser_count_by c) = Ok c" if "count_by_ok c" for c
  proof (cases c)
    case (HttpHeader h)
    have "starts_with http_header_prefix (http_header_to_string h)"
      by (simp add: http_header_to_string_def)
    with HttpHeader that show ?thesis
      by (simp add: de_count_by_def header_text_not_sender http_header_roundtrip count_by_ok_def)
  qed (simp add: de_count_by_def)
qed

interpretation duration_json: json_codec "ser_duration D" "de_duration D" "\<lambda>d. duration_codec_ok D" for D
  by unfold_locales (simp_all add: ser_duration_def de_duration_def duration_codec_ok_def)

definition value_aggregate_ok :: "duration_codec \<Rightarrow> value_aggregate \<Rightarrow> bool" where
  "value_aggregate_ok D v \<longleftrightarrow> duration_codec_ok D \<and> list_all count_by_ok (count_bys v)"

interpretation value_aggregate_json: json_codec
  "ser_value_aggregate D" "de_value_aggregate D" "value_aggregate_ok D" for D
proof
  show "ser_value_aggregate D v \<noteq> JNull" for v
    by (simp add: ser_value_aggregate_def)
  show "de_value_aggregate D (ser_value_aggregate D v) = Ok v" if ok: "value_aggregate_ok D v" for v
  proof -
    have d: "de_duration D (ser_duration D (window v)) = Ok (window v)"
      using ok duration_json.roundtrip by (simp add: value_aggregate_ok_def)
    have c: "map_result de_count_by (map ser_count_by (count_bys v)) = Ok (count_bys v)"
      using ok count_by_json.list_roundtrip [of "count_bys v"] by (simp add: value_aggregate_ok_def)
    show ?thesis
      using d c number_json.roundtrip [of "aggr_value v"]
      by (simp add: ser_value_aggregate_def de_field_def de_default_def)
  qed
qed

text \<open>A header name that contains the prefix is written but does not read back.\<close>

lemma prefix_in_header_name:
  "de_count_by (ser_count_by (new_http_header ''http-header::x'')) =
     de_error ''Invalid HttpHeader: http-header::http-header::x''"
  by (simp add: new_http_header_def http_header_to_string_def http_header_prefix_def de_count_by_def
      http_header_from_str_def split_str.simps)

end
