(* ===== verification/Lua_Num.thy ===== *)
theory Lua_Num
  imports Prelude
begin

text \<open>
  Numbers of the Lua scripts. Redis embeds Lua 5.1, whose only number type is the IEEE double, so
  every sum the scripts under \<open>src/src/storage/redis/lua_scripts\<close> compute is rounded to 53
  significant bits. All numbers the scripts handle are integers, so a double is modelled by the
  integer it denotes, and \<open>lua_num\<close> rounds an integer to the nearest representable one (ties to
  even). Up to \<open>2 ^ 53\<close> in absolute value it is the identity, which is the bound the accounting
  theorems of the pool carry. The strings the scripts store and read are decimal integers.
\<close>

fun bit_len :: "nat \<Rightarrow> nat" where
  "bit_len n = (if n = 0 then 0 else Suc (bit_len (n div 2)))"

declare bit_len.simps [simp del]

definition round53 :: "nat \<Rightarrow> nat" where
  "round53 n =
     (let k = bit_len n - 53; q = n div 2 ^ k; r = n mod 2 ^ k
      in if k = 0 then n
         else if 2 * r > 2 ^ k \<or> (2 * r = 2 ^ k \<and> odd q) then (q + 1) * 2 ^ k
         else q * 2 ^ k)"

definition lua_num :: "int \<Rightarrow> int" where
  "lua_num i = (if i < 0 then - int (round53 (nat (- i))) else int (round53 (nat i)))"

definition lua_add :: "int \<Rightarrow> int \<Rightarrow> int" where
  "lua_add a b = lua_num (a + b)"

definition lua_sub :: "int \<Rightarrow> int \<Rightarrow> int" where
  "lua_sub a b = lua_num (a - b)"

text \<open>
  \<open>tonumber\<close> on the strings that occur: decimal integers, as the Rust side and the scripts print
  them. On any other string of the model it is \<open>nil\<close>.
\<close>

definition lua_tonumber :: "string \<Rightarrow> int option" where
  "lua_tonumber s = map_option lua_num (read_int s)"

lemma bit_len_le_iff: "bit_len n \<le> k \<longleftrightarrow> n < 2 ^ k"
proof (induction n arbitrary: k rule: bit_len.induct)
  case (1 n)
  show ?case
  proof (cases "n = 0")
    case True
    then show ?thesis by (simp add: bit_len.simps [of 0])
  next
    case False
    show ?thesis
    proof (cases k)
      case 0
      with False show ?thesis by (simp add: bit_len.simps [of n])
    next
      case (Suc j)
      have "bit_len (n div 2) \<le> j \<longleftrightarrow> n div 2 < 2 ^ j"
        using "1.IH" False by simp
      also have "\<dots> \<longleftrightarrow> n < 2 ^ Suc j" by (simp add: div_less_iff_less_mult mult.commute)
      finally show ?thesis
        using False Suc by (simp add: bit_len.simps [of n])
    qed
  qed
qed

lemma round53_small: "n < 2 ^ 53 \<Longrightarrow> round53 n = n"
  using bit_len_le_iff [of n 53] by (simp add: round53_def Let_def)

lemma bit_len_2_53: "bit_len (2 ^ 53) = 54"
proof -
  have "bit_len (2 ^ 53) \<le> 54" and "\<not> bit_len (2 ^ 53) \<le> 53"
    by (simp_all add: bit_len_le_iff)
  then show ?thesis by simp
qed

lemma round53_limit: "round53 (2 ^ 53) = 2 ^ 53"
  unfolding round53_def bit_len_2_53 Let_def by simp

lemma lua_num_exact: "\<bar>i\<bar> \<le> 2 ^ 53 \<Longrightarrow> lua_num i = i"
proof -
  assume b: "\<bar>i\<bar> \<le> 2 ^ 53"
  have "round53 (nat \<bar>i\<bar>) = nat \<bar>i\<bar>"
  proof (cases "nat \<bar>i\<bar> < 2 ^ 53")
    case True
    then show ?thesis by (rule round53_small)
  next
    case False
    with b have "nat \<bar>i\<bar> = 2 ^ 53" by simp
    then show ?thesis using round53_limit by simp
  qed
  then show ?thesis by (cases "i < 0") (simp_all add: lua_num_def)
qed

lemma lua_num_0 [simp]: "lua_num 0 = 0"
  by (simp add: lua_num_exact)

text \<open>The laws the pool's accounting rests on: exact arithmetic below the limit.\<close>

lemma lua_add_exact: "0 \<le> a \<Longrightarrow> 0 \<le> b \<Longrightarrow> a + b \<le> 2 ^ 53 \<Longrightarrow> lua_add a b = a + b"
  unfolding lua_add_def by (rule lua_num_exact) simp

lemma lua_sub_exact: "0 \<le> b \<Longrightarrow> b \<le> a \<Longrightarrow> a \<le> 2 ^ 53 \<Longrightarrow> lua_sub a b = a - b"
  unfolding lua_sub_def by (rule lua_num_exact) simp

lemma lua_num_nat_exact: "n \<le> 2 ^ 53 \<Longrightarrow> lua_num (int n) = int n"
proof -
  assume "n \<le> 2 ^ 53"
  then have "\<bar>int n\<bar> \<le> 2 ^ 53" using of_nat_mono [of n "2 ^ 53"] by simp
  then show ?thesis by (rule lua_num_exact)
qed

lemma lua_tonumber_show_int: "lua_tonumber (show_int i) = Some (lua_num i)"
  by (simp add: lua_tonumber_def)

lemma lua_tonumber_show_nat: "lua_tonumber (show_nat n) = Some (lua_num (int n))"
  using lua_tonumber_show_int [of "int n"] by simp

text \<open>Beyond the limit the accounting really drifts: one unit added to \<open>2 ^ 53\<close> is lost.\<close>

lemma bit_len_2_53_1: "bit_len (2 ^ 53 + 1) = 54"
proof -
  have "bit_len (2 ^ 53 + 1) \<le> 54" and "\<not> bit_len (2 ^ 53 + 1) \<le> 53"
    by (simp_all add: bit_len_le_iff)
  then show ?thesis by simp
qed

lemma lua_add_absorbs: "lua_add (2 ^ 53) 1 = 2 ^ 53"
proof -
  have "round53 (2 ^ 53 + 1) = 2 ^ 53"
    unfolding round53_def bit_len_2_53_1 Let_def by simp
  then show ?thesis by (simp add: lua_add_def lua_num_def)
qed

end
