(* ===== verification/Redis_Store.thy ===== *)
theory Redis_Store
  imports Lua_Num
begin

text \<open>
  What the Lua scripts use of their language: the \<open>redis.call\<close> commands they issue, acting on the
  keyspace, and the sequencing of a script. A script runs atomically, but it is not a transaction:
  when a command or a Lua operation raises an error the script stops and the writes it has already
  made stay. A script is therefore a function from the keyspace to a result (the error or the
  value) and the keyspace as it was left.

  A key holds a string, a list or a sorted set; numbers are stored as their decimal text. A list
  or a sorted set that becomes empty disappears, as in Redis. Reading a key as another type raises
  \<open>WRONGTYPE\<close>. Commands are modelled on the forms the scripts use.
\<close>

datatype rval = RString string | RList "string list" | RZSet "(string \<times> int) list"

type_synonym keyspace = "string \<rightharpoonup> rval"

datatype script_error = WrongType | NotInteger | NilArith | NoSuchKey | Raised string

type_synonym 'a script = "keyspace \<Rightarrow> (script_error + 'a) \<times> keyspace"

section \<open>Sequencing\<close>

definition sret :: "'a \<Rightarrow> 'a script" where
  "sret a db = (Inr a, db)"

definition sfail :: "script_error \<Rightarrow> 'a script" where
  "sfail e db = (Inl e, db)"

definition sbind :: "'a script \<Rightarrow> ('a \<Rightarrow> 'b script) \<Rightarrow> 'b script" where
  "sbind m f db = (case m db of (Inl e, db') \<Rightarrow> (Inl e, db') | (Inr a, db') \<Rightarrow> f a db')"

definition sseq :: "'a script \<Rightarrow> 'b script \<Rightarrow> 'b script" where
  "sseq m n = sbind m (\<lambda>_. n)"

text \<open>A Lua value used in arithmetic: a missing one (\<open>nil\<close> or \<open>false\<close>) raises an error.\<close>

definition sneed :: "'a option \<Rightarrow> 'a script" where
  "sneed x = (case x of None \<Rightarrow> sfail NilArith | Some a \<Rightarrow> sret a)"

fun smap :: "('a \<Rightarrow> unit script) \<Rightarrow> 'a list \<Rightarrow> unit script" where
  "smap f [] = sret ()"
| "smap f (x # xs) = sseq (f x) (smap f xs)"

section \<open>Keys\<close>

text \<open>\<open>namespace .. ':' .. name\<close>\<close>

definition nkey :: "string \<Rightarrow> string \<Rightarrow> string" where
  "nkey ns name = ns @ '':'' @ name"

lemma nkey_inject [simp]: "nkey ns a = nkey ns b \<longleftrightarrow> a = b"
  by (simp add: nkey_def)

section \<open>String commands\<close>

definition redis_get :: "string \<Rightarrow> string option script" where
  "redis_get k db = (case db k of
     None \<Rightarrow> (Inr None, db)
   | Some (RString s) \<Rightarrow> (Inr (Some s), db)
   | Some _ \<Rightarrow> (Inl WrongType, db))"

definition redis_set :: "string \<Rightarrow> string \<Rightarrow> unit script" where
  "redis_set k s db = (Inr (), db(k \<mapsto> RString s))"

definition redis_exists :: "string \<Rightarrow> bool script" where
  "redis_exists k db = (Inr (db k \<noteq> None), db)"

definition redis_del :: "string list \<Rightarrow> unit script" where
  "redis_del ks db = (Inr (), \<lambda>k. if k \<in> set ks then None else db k)"

definition redis_rename :: "string \<Rightarrow> string \<Rightarrow> unit script" where
  "redis_rename k k' db = (case db k of
     None \<Rightarrow> (Inl NoSuchKey, db)
   | Some v \<Rightarrow> (Inr (), if k = k' then db else (db(k := None))(k' \<mapsto> v)))"

text \<open>\<open>INCR\<close>: a missing key counts as 0; the text must be a signed 64-bit integer and stay one.\<close>

definition i64_range :: "int \<Rightarrow> bool" where
  "i64_range i \<longleftrightarrow> - (2 ^ 63) \<le> i \<and> i < 2 ^ 63"

definition redis_incr :: "string \<Rightarrow> int script" where
  "redis_incr k db = (case db k of
     None \<Rightarrow> (Inr 1, db(k \<mapsto> RString (show_int 1)))
   | Some (RString s) \<Rightarrow>
       (case read_int s of
          None \<Rightarrow> (Inl NotInteger, db)
        | Some i \<Rightarrow> if i64_range i \<and> i64_range (i + 1)
                    then (Inr (i + 1), db(k \<mapsto> RString (show_int (i + 1))))
                    else (Inl NotInteger, db))
   | Some _ \<Rightarrow> (Inl WrongType, db))"

section \<open>List commands\<close>

definition list_val :: "string list \<Rightarrow> rval option" where
  "list_val xs = (if xs = [] then None else Some (RList xs))"

definition redis_lpop :: "string \<Rightarrow> string option script" where
  "redis_lpop k db = (case db k of
     None \<Rightarrow> (Inr None, db)
   | Some (RList []) \<Rightarrow> (Inr None, db)
   | Some (RList (x # xs)) \<Rightarrow> (Inr (Some x), db(k := list_val xs))
   | Some _ \<Rightarrow> (Inl WrongType, db))"

definition redis_lpush :: "string \<Rightarrow> string \<Rightarrow> unit script" where
  "redis_lpush k x db = (case db k of
     None \<Rightarrow> (Inr (), db(k \<mapsto> RList [x]))
   | Some (RList xs) \<Rightarrow> (Inr (), db(k \<mapsto> RList (x # xs)))
   | Some _ \<Rightarrow> (Inl WrongType, db))"

definition redis_rpush :: "string \<Rightarrow> string \<Rightarrow> unit script" where
  "redis_rpush k x db = (case db k of
     None \<Rightarrow> (Inr (), db(k \<mapsto> RList [x]))
   | Some (RList xs) \<Rightarrow> (Inr (), db(k \<mapsto> RList (xs @ [x])))
   | Some _ \<Rightarrow> (Inl WrongType, db))"

text \<open>\<open>LRANGE key 0 -1\<close> and \<open>LLEN\<close>.\<close>

definition redis_lall :: "string \<Rightarrow> string list script" where
  "redis_lall k db = (case db k of
     None \<Rightarrow> (Inr [], db)
   | Some (RList xs) \<Rightarrow> (Inr xs, db)
   | Some _ \<Rightarrow> (Inl WrongType, db))"

definition redis_llen :: "string \<Rightarrow> nat script" where
  "redis_llen k = sbind (redis_lall k) (\<lambda>xs. sret (length xs))"

section \<open>Sorted sets\<close>

fun str_less_eq :: "string \<Rightarrow> string \<Rightarrow> bool" where
  "str_less_eq [] t = True"
| "str_less_eq (c # cs) [] = False"
| "str_less_eq (c # cs) (d # ds) =
     ((of_char c :: nat) < of_char d \<or> (c = d \<and> str_less_eq cs ds))"

text \<open>Members are kept in the order of their scores, equal scores in the order of the members.\<close>

fun zinsert :: "string \<Rightarrow> int \<Rightarrow> (string \<times> int) list \<Rightarrow> (string \<times> int) list" where
  "zinsert m s [] = [(m, s)]"
| "zinsert m s ((m', s') # z) =
     (if s < s' \<or> (s = s' \<and> str_less_eq m m') then (m, s) # (m', s') # z
      else (m', s') # zinsert m s z)"

definition zset_val :: "(string \<times> int) list \<Rightarrow> rval option" where
  "zset_val z = (if z = [] then None else Some (RZSet z))"

definition zadd :: "string \<Rightarrow> int \<Rightarrow> (string \<times> int) list \<Rightarrow> (string \<times> int) list" where
  "zadd m s z = zinsert m s (filter (\<lambda>p. fst p \<noteq> m) z)"

definition redis_zadd :: "string \<Rightarrow> int \<Rightarrow> string \<Rightarrow> unit script" where
  "redis_zadd k s m db = (case db k of
     None \<Rightarrow> (Inr (), db(k \<mapsto> RZSet [(m, s)]))
   | Some (RZSet z) \<Rightarrow> (Inr (), db(k \<mapsto> RZSet (zadd m s z)))
   | Some _ \<Rightarrow> (Inl WrongType, db))"

definition in_score :: "int \<Rightarrow> int \<Rightarrow> string \<times> int \<Rightarrow> bool" where
  "in_score lo hi p \<longleftrightarrow> lo \<le> snd p \<and> snd p \<le> hi"

definition redis_zrangebyscore :: "string \<Rightarrow> int \<Rightarrow> int \<Rightarrow> string list script" where
  "redis_zrangebyscore k lo hi db = (case db k of
     None \<Rightarrow> (Inr [], db)
   | Some (RZSet z) \<Rightarrow> (Inr (map fst (filter (in_score lo hi) z)), db)
   | Some _ \<Rightarrow> (Inl WrongType, db))"

definition redis_zremrangebyscore :: "string \<Rightarrow> int \<Rightarrow> int \<Rightarrow> unit script" where
  "redis_zremrangebyscore k lo hi db = (case db k of
     None \<Rightarrow> (Inr (), db)
   | Some (RZSet z) \<Rightarrow> (Inr (), db(k := zset_val (filter (\<lambda>p. \<not> in_score lo hi p) z)))
   | Some _ \<Rightarrow> (Inl WrongType, db))"

text \<open>\<open>ZRANGE key 0 -1\<close>\<close>

definition redis_zall :: "string \<Rightarrow> string list script" where
  "redis_zall k db = (case db k of
     None \<Rightarrow> (Inr [], db)
   | Some (RZSet z) \<Rightarrow> (Inr (map fst z), db)
   | Some _ \<Rightarrow> (Inl WrongType, db))"

section \<open>Laws\<close>

lemma sret_simp [simp, script_simps]: "sret a db = (Inr a, db)"
  by (simp add: sret_def)

lemma sfail_simp [simp, script_simps]: "sfail e db = (Inl e, db)"
  by (simp add: sfail_def)

lemma sbind_apply [simp, script_simps]:
  "sbind m f db = (case m db of (Inl e, db') \<Rightarrow> (Inl e, db') | (Inr a, db') \<Rightarrow> f a db')"
  by (simp add: sbind_def)

lemma sseq_apply [simp, script_simps]:
  "sseq m n db = (case m db of (Inl e, db') \<Rightarrow> (Inl e, db') | (Inr a, db') \<Rightarrow> n db')"
  by (simp add: sseq_def)

lemma sneed_simps [simp, script_simps]: "sneed None = sfail NilArith" "sneed (Some a) = sret a"
  by (simp_all add: sneed_def)

lemma set_zinsert [simp]: "set (zinsert m s z) = insert (m, s) (set z)"
  by (induction m s z rule: zinsert.induct) (auto split: if_splits)

lemma set_zadd: "set (zadd m s z) = insert (m, s) {p \<in> set z. fst p \<noteq> m}"
  by (auto simp: zadd_def)

lemma zinsert_not_Nil [simp]: "zinsert m s z \<noteq> []"
  by (cases "(m, s, z)" rule: zinsert.cases) (auto split: if_splits)

lemma zadd_not_Nil [simp]: "zadd m s z \<noteq> []"
  by (simp add: zadd_def)

lemma distinct_fst_zinsert:
  "distinct (map fst z) \<Longrightarrow> m \<notin> fst ` set z \<Longrightarrow> distinct (map fst (zinsert m s z))"
  by (induction m s z rule: zinsert.induct) (auto split: if_splits)

lemma distinct_fst_zadd: "distinct (map fst z) \<Longrightarrow> distinct (map fst (zadd m s z))"
  unfolding zadd_def by (rule distinct_fst_zinsert) (auto simp: distinct_map_filter)

text \<open>
  A key that holds the list \<open>xs\<close> reads \<open>list_val xs\<close>: nothing when the list is empty. On such keys
  the commands act as follows.
\<close>

lemma list_val_inject [simp]: "list_val xs = list_val ys \<longleftrightarrow> xs = ys"
  by (simp add: list_val_def)

lemma redis_get_Some [redis_simps]: "db k = Some (RString s) \<Longrightarrow> redis_get k db = (Inr (Some s), db)"
  by (simp add: redis_get_def)

lemma redis_get_None [redis_simps]: "db k = None \<Longrightarrow> redis_get k db = (Inr None, db)"
  by (simp add: redis_get_def)

lemma redis_set_simp [redis_simps]: "redis_set k s db = (Inr (), db(k \<mapsto> RString s))"
  by (simp add: redis_set_def)

lemma redis_del_simp: "redis_del [k] db = (Inr (), db(k := None))"
  by (simp add: redis_del_def fun_eq_iff)

lemma redis_lpop_Cons [redis_simps]:
  "db k = list_val (x # xs) \<Longrightarrow> redis_lpop k db = (Inr (Some x), db(k := list_val xs))"
  by (simp add: redis_lpop_def list_val_def)

lemma redis_lpop_Nil [redis_simps]: "db k = list_val [] \<Longrightarrow> redis_lpop k db = (Inr None, db)"
  by (simp add: redis_lpop_def list_val_def)

lemma redis_lpush_simp [redis_simps]:
  "db k = list_val xs \<Longrightarrow> redis_lpush k x db = (Inr (), db(k := list_val (x # xs)))"
  by (simp add: redis_lpush_def list_val_def)

lemma redis_rpush_simp [redis_simps]:
  "db k = list_val xs \<Longrightarrow> redis_rpush k x db = (Inr (), db(k := list_val (xs @ [x])))"
  by (simp add: redis_rpush_def list_val_def)

lemma redis_lall_simp [redis_simps]: "db k = list_val xs \<Longrightarrow> redis_lall k db = (Inr xs, db)"
  by (simp add: redis_lall_def list_val_def split: if_splits)

lemma redis_llen_simp [redis_simps]: "db k = list_val xs \<Longrightarrow> redis_llen k db = (Inr (length xs), db)"
  by (simp add: redis_llen_def redis_lall_simp)

lemma redis_zadd_simp [redis_simps]:
  "db k = zset_val z \<Longrightarrow> redis_zadd k s m db = (Inr (), db(k := zset_val (zadd m s z)))"
  by (auto simp: redis_zadd_def zset_val_def zadd_def split: if_splits)

lemma redis_zall_simp [redis_simps]: "db k = zset_val z \<Longrightarrow> redis_zall k db = (Inr (map fst z), db)"
  by (simp add: redis_zall_def zset_val_def split: if_splits)

lemma redis_zrangebyscore_simp [redis_simps]:
  "db k = zset_val z \<Longrightarrow>
     redis_zrangebyscore k lo hi db = (Inr (map fst (filter (in_score lo hi) z)), db)"
  by (simp add: redis_zrangebyscore_def zset_val_def split: if_splits)

lemma redis_zremrangebyscore_simp [redis_simps]:
  "db k = zset_val z \<Longrightarrow> redis_zremrangebyscore k lo hi db =
     (Inr (), db(k := zset_val (filter (\<lambda>p. \<not> in_score lo hi p) z)))"
  by (auto simp: redis_zremrangebyscore_def zset_val_def fun_upd_idem split: if_splits)

lemma smap_append: "smap f (xs @ ys) db = sseq (smap f xs) (smap f ys) db"
  by (induction xs arbitrary: db) (auto simp: sseq_def sbind_def split: prod.splits sum.splits)

end
