(* ===== verification/Access_Config.thy ===== *)
theory Access_Config
  imports Access_Predicates Redis_Store
begin

text \<open>
  The configuration of the access controller: the sources of Rego policies
  (\<open>predicates/source.rs\<close>, \<open>predicates/rego_expression/mod.rs\<close>), hooks (\<open>hook/hook_action_config.rs\<close>,
  \<open>hook/hook_action.rs\<close>), actions, policies and rules (\<open>predicates/action.rs\<close>, \<open>policy.rs\<close>,
  \<open>rule.rs\<close>), all under \<open>src/src/access_controller\<close>, and how they are written to and read from the
  configuration file. Derived readers of a struct are modelled on maps; the sequence form that serde
  also accepts is left out, as is the map form of a unit variant.

  \<open>access_lib\<close> holds the operations of other crates: texts of addresses and durations, URLs (a URL is
  its normalised text), header names and values of the \<open>http\<close> crate, the Rego engine, the printers
  of JSON and the hash.
\<close>

datatype rego_value = RegoBool bool | RegoOther

record ('addr, 'eng) access_lib =
  addr_lib :: "'addr addr_codec"
  duration_lib :: duration_codec
  parse_url :: "string \<Rightarrow> string option"
  header_name_of :: "string \<Rightarrow> string option"
  header_value_of :: "string \<Rightarrow> string option"
  header_to_str :: "string \<Rightarrow> string option"
  add_policy :: "string \<Rightarrow> string \<Rightarrow> error + 'eng"
  add_extension :: "'eng \<Rightarrow> string \<Rightarrow> nat \<Rightarrow> error + 'eng"
  set_input_json :: "'eng \<Rightarrow> string \<Rightarrow> error + 'eng"
  eval_rule :: "'eng \<Rightarrow> string \<Rightarrow> error + rego_value"
  json_pretty :: "json \<Rightarrow> string"
  canonical_json :: "json \<Rightarrow> string"
  sha256_text :: "string \<Rightarrow> string"

section \<open>Ordered maps\<close>

text \<open>\<open>BTreeMap<String, _>\<close>: an association list in the order of its keys.\<close>

fun bt_insert :: "string \<Rightarrow> 'a \<Rightarrow> (string \<times> 'a) list \<Rightarrow> (string \<times> 'a) list" where
  "bt_insert k v [] = [(k, v)]"
| "bt_insert k v ((k', v') # m) =
     (if k = k' then (k, v) # m
      else if str_less_eq k k' then (k, v) # (k', v') # m
      else (k', v') # bt_insert k v m)"

definition bt_from_list :: "(string \<times> 'a) list \<Rightarrow> (string \<times> 'a) list" where
  "bt_from_list kvs = fold (\<lambda>(k, v). bt_insert k v) kvs []"

definition bt_sorted :: "(string \<times> 'a) list \<Rightarrow> bool" where
  "bt_sorted m \<longleftrightarrow> sorted_wrt (\<lambda>a b. fst a \<noteq> fst b \<and> str_less_eq (fst a) (fst b)) m"

lemma str_less_eq_antisym: "str_less_eq s t \<Longrightarrow> str_less_eq t s \<Longrightarrow> s = t"
  by (induction s t rule: str_less_eq.induct) (auto, metis str_less_eq.elims(2) list.discI)

lemma str_less_eq_total: "str_less_eq s t \<or> str_less_eq t s"
  by (induction s t rule: str_less_eq.induct) auto

lemma str_less_eq_trans: "str_less_eq s t \<Longrightarrow> str_less_eq t u \<Longrightarrow> str_less_eq s u"
proof (induction s t arbitrary: u rule: str_less_eq.induct)
  case (3 a s b t)
  then show ?case by (cases u) (auto split: if_splits)
qed auto

lemma map_of_bt_insert: "map_of (bt_insert k v m) = (map_of m)(k \<mapsto> v)"
  by (induction m) auto

lemma bt_insert_last:
  "\<forall>x \<in> set m. fst x \<noteq> k \<and> str_less_eq (fst x) k \<Longrightarrow> bt_insert k v m = m @ [(k, v)]"
  by (induction m) (auto dest: str_less_eq_antisym)

lemma bt_fold_append:
  "bt_sorted (m @ kvs) \<Longrightarrow> fold (\<lambda>(k, v). bt_insert k v) kvs m = m @ kvs"
proof (induction kvs arbitrary: m)
  case Nil
  then show ?case by simp
next
  case (Cons kv kvs)
  have "bt_insert (fst kv) (snd kv) m = m @ [kv]"
    using Cons.prems bt_insert_last [of m "fst kv" "snd kv"]
    by (simp add: bt_sorted_def sorted_wrt_append)
  with Cons.IH [of "m @ [kv]"] Cons.prems show ?case
    by (simp add: case_prod_beta)
qed

lemma bt_from_list_sorted: "bt_sorted m \<Longrightarrow> bt_from_list m = m"
  using bt_fold_append [of "[]" m] by (simp add: bt_from_list_def)

section \<open>Sources of policies\<close>

record location_path_file = file_path :: string  file_rule_path :: string

record location_path_redis =
  redis_url :: string
  redis_key :: string
  redis_rule_path :: string

record location_path_http = http_url :: string  http_rule_path :: string

datatype location =
    LocationPathFile location_path_file
  | LocationPathRedis location_path_redis
  | LocationPathHttp location_path_http

fun location_to_string :: "location \<Rightarrow> string" where
  "location_to_string (LocationPathFile p) =
     ''path: '' @ file_path p @ '' rule_path: '' @ file_rule_path p"
| "location_to_string (LocationPathRedis p) =
     ''url: '' @ redis_url p @ '', rule_path: '' @ redis_rule_path p @ '', redis_key: '' @ redis_key p"
| "location_to_string (LocationPathHttp p) =
     ''url: '' @ http_url p @ '', rule_path: '' @ http_rule_path p"

definition new_file :: "string \<Rightarrow> string \<Rightarrow> location" where
  "new_file url rule = LocationPathFile \<lparr>file_path = url, file_rule_path = rule\<rparr>"

definition new_redis :: "string \<Rightarrow> string \<Rightarrow> string \<Rightarrow> location" where
  "new_redis url key rule =
     LocationPathRedis \<lparr>redis_url = url, redis_key = key, redis_rule_path = rule\<rparr>"

definition new_http :: "string \<Rightarrow> string \<Rightarrow> location" where
  "new_http url rule = LocationPathHttp \<lparr>http_url = url, http_rule_path = rule\<rparr>"

fun get_rego_rule_path :: "location \<Rightarrow> string" where
  "get_rego_rule_path (LocationPathFile p) = file_rule_path p"
| "get_rego_rule_path (LocationPathRedis p) = redis_rule_path p"
| "get_rego_rule_path (LocationPathHttp p) = http_rule_path p"

text \<open>The tag is written first, then the fields.\<close>

fun ser_location :: "location \<Rightarrow> json" where
  "ser_location (LocationPathFile p) = JObject
     [(''location-type'', JString ''file''), (''path'', JString (file_path p)),
      (''rego-rule-path'', JString (file_rule_path p))]"
| "ser_location (LocationPathRedis p) = JObject
     [(''location-type'', JString ''redis''), (''url'', JString (redis_url p)),
      (''redis-key'', JString (redis_key p)), (''rego-rule-path'', JString (redis_rule_path p))]"
| "ser_location (LocationPathHttp p) = JObject
     [(''location-type'', JString ''http''), (''url'', JString (http_url p)),
      (''rego-rule-path'', JString (http_rule_path p))]"

fun de_location :: "json \<Rightarrow> location result" where
  "de_location (JObject fs) =
     rbind (de_field de_string ''location-type'' fs) (\<lambda>tag.
     if tag = ''file'' then
       rbind (de_field de_string ''path'' fs) (\<lambda>p.
       rbind (de_field de_string ''rego-rule-path'' fs) (\<lambda>r. Ok (new_file p r)))
     else if tag = ''redis'' then
       rbind (de_field de_string ''url'' fs) (\<lambda>u.
       rbind (de_field de_string ''redis-key'' fs) (\<lambda>k.
       rbind (de_field de_string ''rego-rule-path'' fs) (\<lambda>r. Ok (new_redis u k r))))
     else if tag = ''http'' then
       rbind (de_field de_string ''url'' fs) (\<lambda>u.
       rbind (de_field de_string ''rego-rule-path'' fs) (\<lambda>r. Ok (new_http u r)))
     else de_error (''unknown variant `'' @ tag @ ''`''))"
| "de_location j = de_error ''invalid type: expected internally tagged enum Location''"

interpretation location_json: json_codec ser_location de_location "\<lambda>l. True"
proof
  show "de_location (ser_location l) = Ok l" for l
    by (cases l) (simp_all add: de_field_def new_file_def new_redis_def new_http_def)
  show "ser_location l \<noteq> JNull" for l
    by (cases l) simp_all
qed

text \<open>
  What reading a source gives, step by step: opening it (the request for a URL, the client for
  Redis), the connection, a status other than success, and the data.
\<close>

record source_answer =
  open_error :: "error option"
  connect_error :: "error option"
  bad_status :: "string option"
  source_bytes :: "error + string"

text \<open>Errors of a step, with a context message for some of the steps.\<close>

fun step_ok :: "error option \<Rightarrow> unit result" where
  "step_ok None = Ok ()"
| "step_ok (Some e) = Err e"

fun answer_of :: "error + 'a \<Rightarrow> 'a result" where
  "answer_of (Inl e) = Err e"
| "answer_of (Inr a) = Ok a"

fun fetch_bytes :: "location \<Rightarrow> source_answer \<Rightarrow> string result" where
  "fetch_bytes (LocationPathFile p) a =
     with_context (''unable to load data from path: '' @ file_path p) (answer_of (source_bytes a))"
| "fetch_bytes (LocationPathHttp p) a =
     rbind (with_context (''unable to load data from url: '' @ http_url p) (step_ok (open_error a)))
       (\<lambda>_. case bad_status a of
          Some st \<Rightarrow> Err (Anyhow (''Error while getting the data from url '' @ http_url p @
                              '' client error: '' @ st))
        | None \<Rightarrow> answer_of (source_bytes a))"
| "fetch_bytes (LocationPathRedis p) a =
     rbind (with_context (''unable to connect to redis server: '' @ redis_url p)
              (step_ok (open_error a)))
       (\<lambda>_. rbind (step_ok (connect_error a)) (\<lambda>_.
          with_context (''unable to get data from redis key: '' @ redis_key p)
            (answer_of (source_bytes a))))"

text \<open>\<open>fetch_string\<close> reads the same sources as text; \<open>source_bytes\<close> is then what that reading gives.\<close>

fun fetch_string :: "location \<Rightarrow> source_answer \<Rightarrow> string result" where
  "fetch_string (LocationPathFile p) a =
     with_context (''unable to load data from path: '' @ file_path p) (answer_of (source_bytes a))"
| "fetch_string (LocationPathHttp p) a =
     rbind (with_context (''unable to load data from url: '' @ http_url p) (step_ok (open_error a)))
       (\<lambda>_. case bad_status a of
          Some st \<Rightarrow> Err (Anyhow (''Error while getting the data from url '' @ http_url p @
                              '' client error: '' @ st))
        | None \<Rightarrow> answer_of (source_bytes a))"
| "fetch_string (LocationPathRedis p) a =
     rbind (with_context (''unable to connect to redis server: '' @ redis_url p)
              (step_ok (open_error a)))
       (\<lambda>_. rbind (step_ok (connect_error a)) (\<lambda>_.
          with_context (''unable to get data from redis key: '' @ redis_key p)
            (answer_of (source_bytes a))))"

record source_with_data =
  source_location :: location
  source_data :: "string option"

definition source_new :: "location \<Rightarrow> source_with_data" where
  "source_new l = \<lparr>source_location = l, source_data = None\<rparr>"

definition source_fetch :: "source_with_data \<Rightarrow> source_answer \<Rightarrow> source_with_data result" where
  "source_fetch self a =
     rbind (fetch_bytes (source_location self) a) (\<lambda>data. Ok (self\<lparr>source_data := Some data\<rparr>))"

section \<open>Texts that may not be UTF-8\<close>

text \<open>
  \<open>String::from_utf8_lossy\<close>: how many bytes the next character takes and whether they are one. Of an
  ill-formed character the longest part that could begin one is replaced by U+FFFD.
\<close>

definition cont_byte :: "nat \<Rightarrow> nat \<Rightarrow> char list \<Rightarrow> bool" where
  "cont_byte lo hi s = (case s of [] \<Rightarrow> False | c # cs \<Rightarrow> lo \<le> of_char c \<and> (of_char c :: nat) \<le> hi)"

fun second_range :: "nat \<Rightarrow> nat \<times> nat" where
  "second_range b =
     (if b = 224 then (160, 191) else if b = 237 then (128, 159)
      else if b = 240 then (144, 191) else if b = 244 then (128, 143) else (128, 191))"

definition utf8_step :: "nat \<Rightarrow> string \<Rightarrow> nat \<times> bool" where
  "utf8_step b s =
     (let (lo, hi) = second_range b
      in if b < 128 then (1, True)
         else if b < 194 \<or> 244 < b then (1, False)
         else if \<not> cont_byte lo hi s then (1, False)
         else if b < 224 then (2, True)
         else if \<not> cont_byte 128 191 (drop 1 s) then (2, False)
         else if b < 240 then (3, True)
         else if \<not> cont_byte 128 191 (drop 2 s) then (3, False)
         else (4, True))"

definition replacement_char :: string where
  "replacement_char = [CHR 0xEF, CHR 0xBF, CHR 0xBD]"

function utf8_lossy :: "string \<Rightarrow> string" where
  "utf8_lossy [] = []"
| "utf8_lossy (c # cs) =
     (case utf8_step (of_char c) cs of
        (n, valid) \<Rightarrow>
          (if valid then c # take (n - 1) cs else replacement_char) @ utf8_lossy (drop (n - 1) cs))"
  by pat_completeness auto

termination
  by (relation "measure length") auto

declare utf8_lossy.simps [simp del]

lemma utf8_lossy_ascii: "\<forall>c \<in> set s. (of_char c :: nat) < 128 \<Longrightarrow> utf8_lossy s = s"
proof (induction s)
  case Nil
  then show ?case by (simp add: utf8_lossy.simps)
next
  case (Cons c s)
  then have "utf8_step (of_char c) s = (1, True)"
    by (simp add: utf8_step_def del: second_range.simps split: prod.splits)
  with Cons show ?case by (simp add: utf8_lossy.simps)
qed

definition source_get_data :: "source_with_data \<Rightarrow> string option" where
  "source_get_data self = source_data self"

definition get_data_string :: "source_with_data \<Rightarrow> string option" where
  "get_data_string self = map_option utf8_lossy (source_data self)"

section \<open>Rego expressions\<close>

record 'eng rego_expression =
  rego_source :: source_with_data
  rego_engine :: "'eng option"

definition bcs_decode_extension_name :: string where
  "bcs_decode_extension_name = ''bcs.decode_typed''"

definition new_engine ::
  "('addr, 'eng) access_lib \<Rightarrow> string \<Rightarrow> location \<Rightarrow> string \<Rightarrow> 'eng result"
where
  "new_engine L message l data =
     rbind (with_context (message @ location_to_string l)
              (answer_of (add_policy L (location_to_string l) data))) (\<lambda>engine.
     answer_of (add_extension L engine bcs_decode_extension_name 2))"

definition from_source ::
  "('addr, 'eng) access_lib \<Rightarrow> source_with_data \<Rightarrow> 'eng rego_expression result"
where
  "from_source L source =
     (case get_data_string source of
        Some data \<Rightarrow>
          rbind (new_engine L ''failed to add policy '' (source_location source) data) (\<lambda>engine.
          Ok \<lparr>rego_source = source, rego_engine = Some engine\<rparr>)
      | None \<Rightarrow> Ok \<lparr>rego_source = source, rego_engine = None\<rparr>)"

text \<open>\<open>reload_source\<close>: what was fetched stays in the source even when the policy does not load.\<close>

definition reload_source ::
  "('addr, 'eng) access_lib \<Rightarrow> 'eng rego_expression \<Rightarrow> source_answer \<Rightarrow>
     unit result \<times> 'eng rego_expression"
where
  "reload_source L self a =
     (case source_fetch (rego_source self) a of
        Err e \<Rightarrow> (Err e, self)
      | Panic m \<Rightarrow> (Panic m, self)
      | Hang \<Rightarrow> (Hang, self)
      | Ok source \<Rightarrow>
          let self1 = self\<lparr>rego_source := source\<rparr>
          in (case get_data_string source of
                None \<Rightarrow> (Err (Anyhow (''Source data is empty for '' @
                                 location_to_string (source_location source))), self1)
              | Some data \<Rightarrow>
                  (case new_engine L ''error while loading policy '' (source_location source) data of
                     Ok engine \<Rightarrow> (Ok (), self1\<lparr>rego_engine := Some engine\<rparr>)
                   | Err e \<Rightarrow> (Err e, self1)
                   | Panic m \<Rightarrow> (Panic m, self1)
                   | Hang \<Rightarrow> (Hang, self1))))"

definition rego_matches ::
  "('addr, 'eng) access_lib \<Rightarrow> 'eng rego_expression \<Rightarrow> string \<Rightarrow> bool result"
where
  "rego_matches L self input_data =
     (let rego_rule_name = get_rego_rule_path (source_location (rego_source self))
      in case rego_engine self of
           None \<Rightarrow> Err (Anyhow ''Rego expression is not initialized'')
         | Some engine \<Rightarrow>
             rbind (with_context (''error while converting input data to json '' @ input_data)
                      (answer_of (set_input_json L engine input_data))) (\<lambda>engine'.
             rbind (with_context ''error while evaluating rule''
                      (answer_of (eval_rule L engine' rego_rule_name))) (\<lambda>result.
             case result of
               RegoBool b \<Rightarrow> Ok b
             | RegoOther \<Rightarrow> Err (Anyhow ''error while evaluating rule, result is not a bool''))))"

definition ser_rego_expression :: "'eng rego_expression \<Rightarrow> json" where
  "ser_rego_expression self = ser_location (source_location (rego_source self))"

definition de_rego_expression ::
  "('addr, 'eng) access_lib \<Rightarrow> json \<Rightarrow> 'eng rego_expression result"
where
  "de_rego_expression L j =
     rbind (de_location j) (\<lambda>location.
     case from_source L (source_new location) of
       Err e \<Rightarrow> de_error (error_to_string e)
     | r \<Rightarrow> r)"

text \<open>A rule as it comes from the configuration: its source is not fetched yet.\<close>

definition rego_fresh :: "'eng rego_expression \<Rightarrow> bool" where
  "rego_fresh self \<longleftrightarrow> source_data (rego_source self) = None \<and> rego_engine self = None"

interpretation rego_json: json_codec ser_rego_expression "de_rego_expression L" rego_fresh
  for L :: "('addr, 'eng) access_lib"
proof
  show "ser_rego_expression r \<noteq> JNull" for r :: "'eng rego_expression"
    using location_json.not_null by (simp add: ser_rego_expression_def)
  show "de_rego_expression L (ser_rego_expression r) = Ok r" if fresh: "rego_fresh r" for r :: "'eng rego_expression"
  proof -
    obtain l where r: "r = \<lparr>rego_source = \<lparr>source_location = l, source_data = None\<rparr>, rego_engine = None\<rparr>"
      using fresh by (cases r; cases "rego_source r") (auto simp: rego_fresh_def)
    show ?thesis
      using location_json.roundtrip [of l]
      by (simp add: r ser_rego_expression_def de_rego_expression_def from_source_def source_new_def
          get_data_string_def)
  qed
qed

end
