(* ===== verification/Access_Rules.thy ===== *)
theory Access_Rules
  imports Access_Config
begin

text \<open>
  Hooks, actions, policies and access rules as data: \<open>hook/hook_action_config.rs\<close>,
  \<open>hook/hook_action.rs\<close>, \<open>predicates/action.rs\<close>, \<open>policy.rs\<close>, \<open>decision.rs\<close> and the first part of
  \<open>rule.rs\<close> under \<open>src/src/access_controller\<close>, with the builder and what is read and written.
\<close>

section \<open>Hooks\<close>

type_synonym hook_action_headers = "(string \<times> string list) list"
type_synonym header_map = "(string \<times> string) list"

text \<open>
  A \<open>HeaderMap\<close> is the list of its fields in the order they were appended; what the code makes of it
  does not depend on the order of different names.
\<close>

definition hash_map_to_header_map ::
  "('addr, 'eng) access_lib \<Rightarrow> hook_action_headers \<Rightarrow> header_map result"
where
  "hash_map_to_header_map L headers =
     map_result (\<lambda>(key, value).
         rbind (with_context ''failed to parse header name''
                  (case header_name_of L key of None \<Rightarrow> Err (Foreign ''invalid HTTP header name'')
                   | Some k \<Rightarrow> Ok k)) (\<lambda>k.
         rbind (with_context ''failed to parse header value''
                  (case header_value_of L value of None \<Rightarrow> Err (Foreign ''failed to parse header value'')
                   | Some v \<Rightarrow> Ok v)) (\<lambda>v. Ok (k, v))))
       (concat (map (\<lambda>(key, values). map (\<lambda>value. (key, value)) values) headers))"

record hook_action_detailed =
  detailed_url :: string
  detailed_headers :: "hook_action_headers option"
  detailed_header_map :: "header_map option"

datatype hook_action_config = HookActionUrl string | HookActionDetailed hook_action_detailed

definition hook_detailed_new :: "string \<Rightarrow> hook_action_detailed" where
  "hook_detailed_new url =
     \<lparr>detailed_url = url, detailed_headers = None, detailed_header_map = None\<rparr>"

definition hook_with_headers ::
  "hook_action_headers \<Rightarrow> hook_action_detailed \<Rightarrow> hook_action_detailed"
where
  "hook_with_headers headers self = self\<lparr>detailed_headers := Some headers\<rparr>"

definition hook_detailed_initialize ::
  "('addr, 'eng) access_lib \<Rightarrow> hook_action_detailed \<Rightarrow> unit result \<times> hook_action_detailed"
where
  "hook_detailed_initialize L self =
     (case detailed_headers self of
        None \<Rightarrow> (Ok (), self)
      | Some headers \<Rightarrow>
          (case hash_map_to_header_map L headers of
             Ok m \<Rightarrow> (Ok (), self\<lparr>detailed_header_map := Some m\<rparr>)
           | Err e \<Rightarrow> (Err e, self)
           | Panic s \<Rightarrow> (Panic s, self)
           | Hang \<Rightarrow> (Hang, self)))"

definition hook_detailed_header_map ::
  "('addr, 'eng) access_lib \<Rightarrow> hook_action_detailed \<Rightarrow> header_map option result"
where
  "hook_detailed_header_map L self =
     (case detailed_header_map self of
        Some m \<Rightarrow> Ok (Some m)
      | None \<Rightarrow>
          (case detailed_headers self of
             None \<Rightarrow> Ok None
           | Some headers \<Rightarrow> rbind (hash_map_to_header_map L headers) (\<lambda>m. Ok (Some m))))"

text \<open>\<open>PartialEq\<close> compares all three fields.\<close>

definition hook_detailed_eq :: "hook_action_detailed \<Rightarrow> hook_action_detailed \<Rightarrow> bool" where
  "hook_detailed_eq a b \<longleftrightarrow> detailed_url a = detailed_url b \<and> detailed_headers a = detailed_headers b \<and>
     detailed_header_map a = detailed_header_map b"

lemma hook_detailed_eq_iff: "hook_detailed_eq a b \<longleftrightarrow> a = b"
  by (cases a; cases b) (simp add: hook_detailed_eq_def)

fun hook_config_initialize ::
  "('addr, 'eng) access_lib \<Rightarrow> hook_action_config \<Rightarrow> unit result \<times> hook_action_config"
where
  "hook_config_initialize L (HookActionDetailed detailed) =
     (case hook_detailed_initialize L detailed of (r, d) \<Rightarrow> (r, HookActionDetailed d))"
| "hook_config_initialize L (HookActionUrl url) = (Ok (), HookActionUrl url)"

text \<open>
  A hook and its HTTP client, of which only the timeout matters. The client that the deserializer
  makes is the default one, without a timeout; \<open>built\<close> is the outcome of building a client.
\<close>

record hook_action =
  hook_config :: hook_action_config
  hook_timeout_secs :: "u64 option"

definition hook_request_timeout_seconds :: u64 where
  "hook_request_timeout_seconds = 60"

definition new_url :: "unit result \<Rightarrow> string \<Rightarrow> hook_action result" where
  "new_url built url =
     rbind built (\<lambda>_. Ok \<lparr>hook_config = HookActionUrl url,
       hook_timeout_secs = Some hook_request_timeout_seconds\<rparr>)"

definition new_detailed ::
  "unit result \<Rightarrow> string \<Rightarrow> hook_action_headers option \<Rightarrow> hook_action result"
where
  "new_detailed built url headers =
     rbind built (\<lambda>_.
       let detailed = hook_detailed_new url;
           detailed = (case headers of None \<Rightarrow> detailed | Some h \<Rightarrow> hook_with_headers h detailed)
       in Ok \<lparr>hook_config = HookActionDetailed detailed,
            hook_timeout_secs = Some hook_request_timeout_seconds\<rparr>)"

definition hook_initialize ::
  "('addr, 'eng) access_lib \<Rightarrow> hook_action \<Rightarrow> unit result \<times> hook_action"
where
  "hook_initialize L self =
     (case hook_config_initialize L (hook_config self) of (r, c) \<Rightarrow> (r, self\<lparr>hook_config := c\<rparr>))"

definition hook_url :: "hook_action \<Rightarrow> string" where
  "hook_url self =
     (case hook_config self of HookActionUrl url \<Rightarrow> url | HookActionDetailed d \<Rightarrow> detailed_url d)"

definition hook_headers :: "hook_action \<Rightarrow> hook_action_headers option" where
  "hook_headers self =
     (case hook_config self of HookActionDetailed d \<Rightarrow> detailed_headers d | _ \<Rightarrow> None)"

definition hook_header_map ::
  "('addr, 'eng) access_lib \<Rightarrow> hook_action \<Rightarrow> header_map option result"
where
  "hook_header_map L self =
     (case hook_config self of
        HookActionDetailed d \<Rightarrow> hook_detailed_header_map L d
      | HookActionUrl url \<Rightarrow> Ok None)"

text \<open>\<open>PartialEq\<close>: the configurations, not the clients.\<close>

definition hook_action_eq :: "hook_action \<Rightarrow> hook_action \<Rightarrow> bool" where
  "hook_action_eq a b \<longleftrightarrow> hook_config a = hook_config b"

subsection \<open>Reading and writing\<close>

definition ser_headers :: "hook_action_headers \<Rightarrow> json" where
  "ser_headers m = JObject (map (\<lambda>(k, vs). (k, JArray (map JString vs))) m)"

fun de_headers :: "json \<Rightarrow> hook_action_headers result" where
  "de_headers (JObject fs) =
     rbind (map_result (\<lambda>(k, j). rbind (de_list de_string j) (\<lambda>vs. Ok (k, vs))) fs)
       (\<lambda>kvs. Ok (bt_from_list kvs))"
| "de_headers j = de_error ''invalid type: expected a map''"

definition de_url :: "('addr, 'eng) access_lib \<Rightarrow> json \<Rightarrow> string result" where
  "de_url L j = rbind (de_string j) (\<lambda>s.
     case parse_url L s of None \<Rightarrow> de_error ''relative URL without a base'' | Some u \<Rightarrow> Ok u)"

definition ser_hook_detailed :: "hook_action_detailed \<Rightarrow> json" where
  "ser_hook_detailed d =
     JObject ((''url'', JString (detailed_url d)) # ser_optional ser_headers ''headers'' (detailed_headers d))"

fun de_hook_detailed :: "('addr, 'eng) access_lib \<Rightarrow> json \<Rightarrow> hook_action_detailed result" where
  "de_hook_detailed L (JObject fs) =
     rbind (de_field (de_url L) ''url'' fs) (\<lambda>url.
     rbind (de_optional de_headers ''headers'' fs) (\<lambda>headers.
     Ok \<lparr>detailed_url = url, detailed_headers = headers, detailed_header_map = None\<rparr>))"
| "de_hook_detailed L j = de_error ''invalid type: expected struct HookActionDetailed''"

fun ser_hook_config :: "hook_action_config \<Rightarrow> json" where
  "ser_hook_config (HookActionUrl url) = JString url"
| "ser_hook_config (HookActionDetailed d) = ser_hook_detailed d"

text \<open>\<open>untagged\<close>: the variants in order; an error of the first one only leads to the next.\<close>

definition de_hook_config :: "('addr, 'eng) access_lib \<Rightarrow> json \<Rightarrow> hook_action_config result" where
  "de_hook_config L j =
     (case de_url L j of
        Ok url \<Rightarrow> Ok (HookActionUrl url)
      | _ \<Rightarrow>
          (case de_hook_detailed L j of
             Ok d \<Rightarrow> Ok (HookActionDetailed d)
           | _ \<Rightarrow> de_error ''data did not match any variant of untagged enum HookActionConfig''))"

definition ser_hook_action :: "hook_action \<Rightarrow> json" where
  "ser_hook_action self = ser_hook_config (hook_config self)"

definition de_hook_action :: "('addr, 'eng) access_lib \<Rightarrow> json \<Rightarrow> hook_action result" where
  "de_hook_action L j = rbind (de_hook_config L j) (\<lambda>c.
     Ok \<lparr>hook_config = c, hook_timeout_secs = None\<rparr>)"

text \<open>A hook as it comes from a configuration.\<close>

fun hook_config_ok :: "('addr, 'eng) access_lib \<Rightarrow> hook_action_config \<Rightarrow> bool" where
  "hook_config_ok L (HookActionUrl url) \<longleftrightarrow> parse_url L url = Some url"
| "hook_config_ok L (HookActionDetailed d) \<longleftrightarrow>
     parse_url L (detailed_url d) = Some (detailed_url d) \<and> detailed_header_map d = None \<and>
     (\<forall>m. detailed_headers d = Some m \<longrightarrow> bt_sorted m)"

definition hook_ok :: "('addr, 'eng) access_lib \<Rightarrow> hook_action \<Rightarrow> bool" where
  "hook_ok L h \<longleftrightarrow> hook_config_ok L (hook_config h) \<and> hook_timeout_secs h = None"

lemma de_strings: "map_result de_string (map JString vs) = Ok vs"
  using map_result_map [of vs de_string JString "\<lambda>s. s"] by simp

interpretation headers_json: json_codec ser_headers de_headers bt_sorted
proof
  show "ser_headers m \<noteq> JNull" for m
    by (simp add: ser_headers_def)
  show "de_headers (ser_headers m) = Ok m" if "bt_sorted m" for m
  proof -
    have "map_result (\<lambda>(k, j). rbind (de_list de_string j) (\<lambda>vs. Ok (k, vs)))
        (map (\<lambda>(k, vs). (k, JArray (map JString vs))) m) = Ok (map (\<lambda>x. x) m)"
      by (rule map_result_map) (auto simp: de_strings)
    with that show ?thesis by (simp add: ser_headers_def bt_from_list_sorted)
  qed
qed

interpretation hook_json: json_codec ser_hook_action "de_hook_action L" "hook_ok L"
  for L :: "('addr, 'eng) access_lib"
proof
  show "ser_hook_action h \<noteq> JNull" for h
    by (cases "hook_config h") (simp_all add: ser_hook_action_def ser_hook_detailed_def)
  show "de_hook_action L (ser_hook_action h) = Ok h" if "hook_ok L h" for h
  proof (cases "hook_config h")
    case (HookActionUrl url)
    with that show ?thesis
      by (simp add: hook_ok_def ser_hook_action_def de_hook_action_def de_hook_config_def de_url_def)
  next
    case (HookActionDetailed d)
    have hs: "de_optional de_headers ''headers''
        (ser_optional ser_headers ''headers'' (detailed_headers d)) = Ok (detailed_headers d)"
      using headers_json.optional_roundtrip [of "detailed_headers d" "[]" "''headers''"]
        that HookActionDetailed by (simp add: hook_ok_def)
    then have detailed: "de_hook_detailed L (ser_hook_detailed d) = Ok d"
      using that HookActionDetailed
      by (simp add: hook_ok_def ser_hook_detailed_def de_field_def de_url_def de_optional_def)
    have "de_url L (ser_hook_detailed d) = de_error ''invalid type: expected a string''"
      by (simp add: ser_hook_detailed_def de_url_def)
    with detailed have "de_hook_config L (ser_hook_detailed d) = Ok (HookActionDetailed d)"
      by (simp add: de_hook_config_def)
    with HookActionDetailed that show ?thesis
      by (simp add: hook_ok_def ser_hook_action_def de_hook_action_def)
  qed
qed

section \<open>Actions, decisions and policies\<close>

datatype action = Allow | Deny | HookAction hook_action

definition default_action :: action where
  "default_action = action.Allow"

fun action_initialize :: "('addr, 'eng) access_lib \<Rightarrow> action \<Rightarrow> unit result \<times> action" where
  "action_initialize L (HookAction h) = (case hook_initialize L h of (r, h') \<Rightarrow> (r, HookAction h'))"
| "action_initialize L action.Allow = (Ok (), action.Allow)"
| "action_initialize L action.Deny = (Ok (), action.Deny)"

fun display_action :: "action \<Rightarrow> string" where
  "display_action (HookAction h) = hook_url h"
| "display_action action.Allow = ''Allow''"
| "display_action action.Deny = ''Deny''"

fun ser_action :: "action \<Rightarrow> json" where
  "ser_action action.Allow = JString ''allow''"
| "ser_action action.Deny = JString ''deny''"
| "ser_action (HookAction h) = ser_hook_action h"

definition de_action :: "('addr, 'eng) access_lib \<Rightarrow> json \<Rightarrow> action result" where
  "de_action L j =
     (if j = JString ''allow'' then Ok action.Allow
      else if j = JString ''deny'' then Ok action.Deny
      else (case de_hook_action L j of
              Ok h \<Rightarrow> Ok (HookAction h)
            | _ \<Rightarrow> de_error ''data did not match any variant of untagged enum Action''))"

definition action_ok :: "('addr, 'eng) access_lib \<Rightarrow> action \<Rightarrow> bool" where
  "action_ok L a =
     (case a of HookAction h \<Rightarrow>
        hook_ok L h \<and> ser_hook_action h \<notin> {JString ''allow'', JString ''deny''} | _ \<Rightarrow> True)"

interpretation action_json: json_codec ser_action "de_action L" "action_ok L"
  for L :: "('addr, 'eng) access_lib"
proof
  show "ser_action a \<noteq> JNull" for a
    using hook_json.not_null by (cases a) simp_all
  show "de_action L (ser_action a) = Ok a" if "action_ok L a" for a
    using that hook_json.roundtrip [of L] by (cases a) (auto simp: action_ok_def de_action_def)
qed

datatype access_policy = Disabled | DenyAll | AllowAll

definition default_policy :: access_policy where
  "default_policy = Disabled"

fun ser_access_policy :: "access_policy \<Rightarrow> json" where
  "ser_access_policy Disabled = JString ''disabled''"
| "ser_access_policy DenyAll = JString ''deny-all''"
| "ser_access_policy AllowAll = JString ''allow-all''"

definition de_access_policy :: "json \<Rightarrow> access_policy result" where
  "de_access_policy j = rbind (de_string j) (\<lambda>s.
     if s = ''disabled'' then Ok Disabled
     else if s = ''deny-all'' then Ok DenyAll
     else if s = ''allow-all'' then Ok AllowAll
     else de_error (''unknown variant `'' @ s @ ''`''))"

interpretation policy_json: json_codec ser_access_policy de_access_policy "\<lambda>p. True"
proof
  show "de_access_policy (ser_access_policy p) = Ok p" for p
    by (cases p) (simp_all add: de_access_policy_def)
  show "ser_access_policy p \<noteq> JNull" for p
    by (cases p) simp_all
qed

datatype decision = Allow | Deny

fun decision_and :: "decision \<Rightarrow> decision \<Rightarrow> decision" where
  "decision_and decision.Allow decision.Allow = decision.Allow"
| "decision_and a b = decision.Deny"

fun decision_or :: "decision \<Rightarrow> decision \<Rightarrow> decision" where
  "decision_or decision.Deny decision.Deny = decision.Deny"
| "decision_or a b = decision.Allow"

fun decision_of_policy :: "access_policy \<Rightarrow> decision" where
  "decision_of_policy AllowAll = decision.Allow"
| "decision_of_policy DenyAll = decision.Deny"
| "decision_of_policy Disabled = decision.Allow"

section \<open>Rules\<close>

record ('addr, 'eng) access_rule =
  rule_sender_address :: "'addr value_iota_address"
  transaction_gas_budget :: "u64 value_number option"
  rule_move_call_package_address :: "'addr value_iota_address option"
  rule_ptb_command_count :: "u64 value_number option"
  rule_gas_usage :: "value_aggregate option"
  rule_rego_expression :: "'eng rego_expression option"
  rule_action :: action

definition default_rule :: "('addr, 'eng) access_rule" where
  "default_rule = \<lparr>rule_sender_address = All, transaction_gas_budget = None,
     rule_move_call_package_address = None, rule_ptb_command_count = None, rule_gas_usage = None,
     rule_rego_expression = None, rule_action = default_action\<rparr>"

subsection \<open>The builder\<close>

definition builder_new :: "('addr, 'eng) access_rule" where
  "builder_new = default_rule"

definition build :: "('addr, 'eng) access_rule \<Rightarrow> ('addr, 'eng) access_rule" where
  "build b = b"

text \<open>The second address replaces the first one; a list grows.\<close>

fun add_address :: "'addr \<Rightarrow> 'addr value_iota_address \<Rightarrow> 'addr value_iota_address" where
  "add_address a All = Single a"
| "add_address a (Single s) = List [a]"
| "add_address a (List l) = List (l @ [a])"

definition build_sender_address ::
  "'addr \<Rightarrow> ('addr, 'eng) access_rule \<Rightarrow> ('addr, 'eng) access_rule"
where
  "build_sender_address a b = b\<lparr>rule_sender_address := add_address a (rule_sender_address b)\<rparr>"

definition build_allow :: "('addr, 'eng) access_rule \<Rightarrow> ('addr, 'eng) access_rule" where
  "build_allow b = b\<lparr>rule_action := action.Allow\<rparr>"

definition build_deny :: "('addr, 'eng) access_rule \<Rightarrow> ('addr, 'eng) access_rule" where
  "build_deny b = b\<lparr>rule_action := action.Deny\<rparr>"

definition build_hook ::
  "unit result \<Rightarrow> string \<Rightarrow> hook_action_headers option \<Rightarrow> ('addr, 'eng) access_rule \<Rightarrow>
     ('addr, 'eng) access_rule result"
where
  "build_hook built url headers b =
     rbind (case headers of
              Some h \<Rightarrow> new_detailed built url (Some h)
            | None \<Rightarrow> new_url built url) (\<lambda>hook.
     Ok (b\<lparr>rule_action := HookAction hook\<rparr>))"

definition build_gas_budget ::
  "u64 value_number \<Rightarrow> ('addr, 'eng) access_rule \<Rightarrow> ('addr, 'eng) access_rule"
where
  "build_gas_budget n b = b\<lparr>transaction_gas_budget := Some n\<rparr>"

definition build_move_call_package_address ::
  "'addr \<Rightarrow> ('addr, 'eng) access_rule \<Rightarrow> ('addr, 'eng) access_rule"
where
  "build_move_call_package_address a b =
     b\<lparr>rule_move_call_package_address := Some
        (case rule_move_call_package_address b of
           Some v \<Rightarrow> add_address a v
         | None \<Rightarrow> Single a)\<rparr>"

definition build_ptb_command_count ::
  "u64 value_number \<Rightarrow> ('addr, 'eng) access_rule \<Rightarrow> ('addr, 'eng) access_rule"
where
  "build_ptb_command_count n b = b\<lparr>rule_ptb_command_count := Some n\<rparr>"

definition build_gas_limit ::
  "value_aggregate \<Rightarrow> ('addr, 'eng) access_rule \<Rightarrow> ('addr, 'eng) access_rule"
where
  "build_gas_limit v b = b\<lparr>rule_gas_usage := Some v\<rparr>"

definition build_rego_expression ::
  "'eng rego_expression \<Rightarrow> ('addr, 'eng) access_rule \<Rightarrow> ('addr, 'eng) access_rule"
where
  "build_rego_expression r b = b\<lparr>rule_rego_expression := Some r\<rparr>"

subsection \<open>Reading and writing\<close>

definition rule_fields :: "('addr, 'eng) access_lib \<Rightarrow> ('addr, 'eng) access_rule \<Rightarrow> (string \<times> json) list" where
  "rule_fields L r =
     (''sender-address'', ser_value_iota_address (addr_lib L) (rule_sender_address r)) #
     ser_optional (ser_value_number show_u64) ''transaction-gas-budget'' (transaction_gas_budget r) @
     ser_optional (ser_value_iota_address (addr_lib L)) ''move-call-package-address''
       (rule_move_call_package_address r) @
     ser_optional (ser_value_number show_u64) ''ptb-command-count'' (rule_ptb_command_count r) @
     ser_optional (ser_value_aggregate (duration_lib L)) ''gas-usage'' (rule_gas_usage r) @
     ser_optional ser_rego_expression ''rego-expression'' (rule_rego_expression r) @
     [(''action'', ser_action (rule_action r))]"

definition ser_access_rule :: "('addr, 'eng) access_lib \<Rightarrow> ('addr, 'eng) access_rule \<Rightarrow> json" where
  "ser_access_rule L r = JObject (rule_fields L r)"

fun de_access_rule :: "('addr, 'eng) access_lib \<Rightarrow> json \<Rightarrow> ('addr, 'eng) access_rule result" where
  "de_access_rule L (JObject fs) =
     rbind (de_default (de_value_iota_address (addr_lib L)) All ''sender-address'' fs) (\<lambda>sender.
     rbind (de_optional (de_value_number parse_u64) ''transaction-gas-budget'' fs) (\<lambda>budget.
     rbind (de_optional (de_value_iota_address (addr_lib L)) ''move-call-package-address'' fs) (\<lambda>move.
     rbind (de_optional (de_value_number parse_u64) ''ptb-command-count'' fs) (\<lambda>ptb.
     rbind (de_optional (de_value_aggregate (duration_lib L)) ''gas-usage'' fs) (\<lambda>usage.
     rbind (de_optional (de_rego_expression L) ''rego-expression'' fs) (\<lambda>rego.
     rbind (de_field (de_action L) ''action'' fs) (\<lambda>act.
     Ok \<lparr>rule_sender_address = sender, transaction_gas_budget = budget,
       rule_move_call_package_address = move, rule_ptb_command_count = ptb, rule_gas_usage = usage,
       rule_rego_expression = rego, rule_action = act\<rparr>)))))))"
| "de_access_rule L j = de_error ''invalid type: expected struct AccessRule''"

text \<open>A rule that a configuration can hold.\<close>

definition rule_ok :: "('addr, 'eng) access_lib \<Rightarrow> ('addr, 'eng) access_rule \<Rightarrow> bool" where
  "rule_ok L r \<longleftrightarrow> addr_codec_ok (addr_lib L) \<and> action_ok L (rule_action r) \<and>
     (\<forall>v. rule_gas_usage r = Some v \<longrightarrow> value_aggregate_ok (duration_lib L) v) \<and>
     (\<forall>e. rule_rego_expression r = Some e \<longrightarrow> rego_fresh e)"

lemma ser_optional_other: "k \<noteq> k' \<Longrightarrow> map_of (ser_optional ser k' v) k = None"
  by (cases v) (simp_all add: ser_optional_def)

lemma de_optional_skip: "k \<noteq> k' \<Longrightarrow> de_optional de k ((k', j) # fs) = de_optional de k fs"
  by (simp add: de_optional_def)

lemma de_optional_other:
  "k \<noteq> k' \<Longrightarrow> de_optional de k (ser_optional ser' k' v @ rest) = de_optional de k rest"
  by (simp add: de_optional_def ser_optional_other map_add_def)

lemma de_field_other:
  "k \<noteq> k' \<Longrightarrow> de_field de k (ser_optional ser' k' v @ rest) = de_field de k rest"
  by (simp add: de_field_def ser_optional_other map_add_def)

lemma de_field_skip: "k \<noteq> k' \<Longrightarrow> de_field de k ((k', j) # fs) = de_field de k fs"
  by (simp add: de_field_def)

lemmas rule_field_simps = de_optional_skip de_optional_other de_field_other de_field_skip
  ser_optional_other map_add_def

lemma rule_roundtrip:
  assumes "rule_ok L r"
  shows "de_access_rule L (ser_access_rule L r) = Ok r"
proof -
  let ?fs = "rule_fields L r"
  have "de_default (de_value_iota_address (addr_lib L)) All ''sender-address'' ?fs =
      Ok (rule_sender_address r)"
    using assms iota_address_json.roundtrip [of "addr_lib L" "rule_sender_address r"]
    by (simp add: rule_fields_def de_default_def rule_ok_def)
  moreover have "de_optional (de_value_number parse_u64) ''transaction-gas-budget'' ?fs =
      Ok (transaction_gas_budget r)"
    by (simp add: rule_fields_def rule_field_simps number_json.optional_roundtrip)
  moreover have "de_optional (de_value_iota_address (addr_lib L)) ''move-call-package-address'' ?fs =
      Ok (rule_move_call_package_address r)"
    using assms
    by (simp add: rule_fields_def rule_field_simps rule_ok_def iota_address_json.optional_roundtrip)
  moreover have "de_optional (de_value_number parse_u64) ''ptb-command-count'' ?fs =
      Ok (rule_ptb_command_count r)"
    by (simp add: rule_fields_def rule_field_simps number_json.optional_roundtrip)
  moreover have "de_optional (de_value_aggregate (duration_lib L)) ''gas-usage'' ?fs =
      Ok (rule_gas_usage r)"
    using assms
    by (simp add: rule_fields_def rule_field_simps rule_ok_def value_aggregate_json.optional_roundtrip)
  moreover have "de_optional (de_rego_expression L) ''rego-expression'' ?fs =
      Ok (rule_rego_expression r)"
    using assms
    by (simp add: rule_fields_def rule_field_simps rule_ok_def rego_json.optional_roundtrip)
  moreover have "de_field (de_action L) ''action'' ?fs = Ok (rule_action r)"
    using assms action_json.roundtrip [of L "rule_action r"]
    by (simp add: rule_fields_def rule_field_simps rule_ok_def de_field_def)
  ultimately show ?thesis
    by (simp add: ser_access_rule_def)
qed

end
