(* ===== verification/Gas_Types.thy ===== *)
theory Gas_Types
  imports Redis_Store
begin

text \<open>
  The data of \<open>src/src/types.rs\<close> and the text form of a gas coin in Redis, which three pieces of
  code must agree on: \<open>add_new_coins\<close> of \<open>src/src/storage/redis/mod.rs\<close> prints a coin as
  \<open>balance,object_id,version,digest\<close>, the Lua scripts cut the balance and the object id out of that
  text, and \<open>reserve_gas_coins\<close> parses it back.

  Object ids and digests are types of the \<open>iota_types\<close> crate, which is not part of the repository:
  the model takes their types as \<open>'id\<close> and \<open>'dg\<close> and their \<open>Display\<close> and \<open>FromStr\<close> as an argument
  of type \<open>codec\<close>. \<open>codec_ok\<close> states what the crate documents: what is printed parses back, and
  neither text has a comma, an id is never printed as the empty text and the empty text is not an id
  (ids print as hexadecimal, digests as base 58).
\<close>

record ('id, 'dg) codec =
  show_id :: "'id \<Rightarrow> string"
  read_id :: "string \<Rightarrow> 'id option"
  show_digest :: "'dg \<Rightarrow> string"
  read_digest :: "string \<Rightarrow> 'dg option"

definition codec_ok :: "('id, 'dg) codec \<Rightarrow> bool" where
  "codec_ok C \<longleftrightarrow>
     read_id C [] = None \<and>
     (\<forall>i. read_id C (show_id C i) = Some i \<and> CHR '','' \<notin> set (show_id C i) \<and> show_id C i \<noteq> []) \<and>
     (\<forall>d. read_digest C (show_digest C d) = Some d \<and> CHR '','' \<notin> set (show_digest C d))"

section \<open>Gas coins\<close>

type_synonym ('id, 'dg) object_ref = "'id \<times> u64 \<times> 'dg"

record ('id, 'dg) gas_coin =
  object_ref :: "('id, 'dg) object_ref"
  balance :: u64

definition coin_id :: "('id, 'dg) gas_coin \<Rightarrow> 'id" where
  "coin_id c = fst (object_ref c)"

text \<open>The form of a coin in a response: an object reference of the node's JSON interface has named fields.\<close>

record ('id, 'dg) iota_object_ref =
  ior_object_id :: 'id
  ior_version :: u64
  ior_digest :: 'dg

record ('id, 'dg) iota_gas_coin =
  igc_object_ref :: "('id, 'dg) iota_object_ref"
  igc_balance :: u64

definition iota_gas_coin_of :: "('id, 'dg) gas_coin \<Rightarrow> ('id, 'dg) iota_gas_coin" where
  "iota_gas_coin_of c = (case object_ref c of (i, v, d) \<Rightarrow>
     \<lparr>igc_object_ref = \<lparr>ior_object_id = i, ior_version = v, ior_digest = d\<rparr>, igc_balance = balance c\<rparr>)"

definition gas_coin_of :: "('id, 'dg) iota_gas_coin \<Rightarrow> ('id, 'dg) gas_coin" where
  "gas_coin_of c =
     \<lparr>object_ref = (ior_object_id (igc_object_ref c), ior_version (igc_object_ref c),
        ior_digest (igc_object_ref c)), balance = igc_balance c\<rparr>"

lemma gas_coin_forms: "gas_coin_of (iota_gas_coin_of c) = c" "iota_gas_coin_of (gas_coin_of i) = i"
  by (simp_all add: gas_coin_of_def iota_gas_coin_of_def split: prod.splits)

type_synonym reservation_id = u64

text \<open>\<open>UpdatedGasGroup::get_group_key\<close>: the least id of a group without duplicates.\<close>

record ('id, 'dg) updated_gas_group =
  updated_gas_coins :: "('id, 'dg) gas_coin list"
  deleted_gas_coins :: "'id list"

definition updated_gas_group_new ::
  "('id, 'dg) gas_coin list \<Rightarrow> 'id list \<Rightarrow> ('id, 'dg) updated_gas_group"
where
  "updated_gas_group_new updated deleted =
     \<lparr>updated_gas_coins = updated, deleted_gas_coins = deleted\<rparr>"

definition group_ids :: "('id, 'dg) updated_gas_group \<Rightarrow> 'id list" where
  "group_ids g = map coin_id (updated_gas_coins g) @ deleted_gas_coins g"

definition get_group_key :: "('id::linorder, 'dg) updated_gas_group \<Rightarrow> 'id result" where
  "get_group_key g =
     (let all_ids = set (group_ids g)
      in if all_ids = {} then Err (Anyhow ''Gas group is empty'')
         else if card all_ids \<noteq> length (updated_gas_coins g) + length (deleted_gas_coins g)
         then Err (Anyhow ''Gas group contains duplicate ids'')
         else Ok (Min all_ids))"

record 'id reserved_gas_group =
  objects :: "'id set"
  expiration_time :: u64

definition get_key :: "('id::linorder) reserved_gas_group \<Rightarrow> 'id result" where
  "get_key g = (if objects g = {} then Panic ''called `Option::unwrap()` on a `None` value''
                else Ok (Min (objects g)))"

section \<open>The text form of a coin\<close>

definition format_coin :: "('id, 'dg) codec \<Rightarrow> ('id, 'dg) gas_coin \<Rightarrow> string" where
  "format_coin C c = (case object_ref c of (oid, version, digest) \<Rightarrow>
     join_with '','' [show_nat (unat (balance c)), show_id C oid, show_nat (unat version),
                      show_digest C digest])"

text \<open>
  The closure of \<open>reserve_gas_coins\<close> (Rust): the first four comma-separated pieces; a missing or
  unreadable piece is a failed \<open>unwrap\<close>.
\<close>

definition parse_coin :: "('id, 'dg) codec \<Rightarrow> string \<Rightarrow> ('id, 'dg) gas_coin result" where
  "parse_coin C s =
     (case split_on CHR '','' s of
        b # i # v # d # rest \<Rightarrow>
          (case (parse_u64 b, read_id C i, parse_u64 v, read_digest C d) of
             (Some bal, Some oid, Some version, Some digest) \<Rightarrow>
               Ok \<lparr>object_ref = (oid, version, digest), balance = bal\<rparr>
           | _ \<Rightarrow> Panic ''unwrap of a malformed coin'')
      | _ \<Rightarrow> Panic ''unwrap of a malformed coin'')"

text \<open>
  The Lua side: \<open>string.find (coin, ',', i)\<close> and \<open>string.sub\<close>. Without a comma the index is \<open>nil\<close>
  and the arithmetic on it raises an error, here \<open>None\<close>.
\<close>

definition lua_cut :: "string \<Rightarrow> (string \<times> string) option" where
  "lua_cut s = (if CHR '','' \<in> set s
                then Some (takeWhile (\<lambda>c. c \<noteq> CHR '','') s, tl (dropWhile (\<lambda>c. c \<noteq> CHR '','') s))
                else None)"

definition lua_coin_balance :: "string \<Rightarrow> int option" where
  "lua_coin_balance coin = Option.bind (lua_cut coin) (\<lambda>(b, rest). lua_tonumber b)"

definition lua_coin_object_id :: "string \<Rightarrow> string option" where
  "lua_coin_object_id coin =
     Option.bind (lua_cut coin) (\<lambda>(b, rest). map_option fst (lua_cut rest))"

section \<open>Agreement of the three readings\<close>

lemma comma_not_digit [simp]: "\<not> is_digit CHR '',''"
  by (simp add: is_digit_def)

lemma comma_notin_show_nat [simp]: "CHR '','' \<notin> set (show_nat n)"
  by (simp add: not_digit_notin_show_nat)

lemma lua_cut_append: "CHR '','' \<notin> set s \<Longrightarrow> lua_cut (s @ CHR '','' # t) = Some (s, t)"
proof -
  assume "CHR '','' \<notin> set s"
  then have "\<And>c. c \<in> set s \<Longrightarrow> c \<noteq> CHR '',''" by blast
  then have "takeWhile (\<lambda>c. c \<noteq> CHR '','') (s @ CHR '','' # t) = s"
    and "dropWhile (\<lambda>c. c \<noteq> CHR '','') (s @ CHR '','' # t) = CHR '','' # t"
    by (simp_all add: takeWhile_append2 dropWhile_append2)
  then show ?thesis by (simp add: lua_cut_def)
qed

lemma codec_okD:
  "codec_ok C \<Longrightarrow> read_id C (show_id C i) = Some i"
  "codec_ok C \<Longrightarrow> CHR '','' \<notin> set (show_id C i)"
  "codec_ok C \<Longrightarrow> show_id C i \<noteq> []"
  "codec_ok C \<Longrightarrow> read_digest C (show_digest C d) = Some d"
  "codec_ok C \<Longrightarrow> CHR '','' \<notin> set (show_digest C d)"
  by (simp_all add: codec_ok_def)

lemma show_id_inject: "codec_ok C \<Longrightarrow> show_id C i = show_id C j \<longleftrightarrow> i = j"
  by (metis codec_okD(1) option.inject)

lemma parse_format_coin [coin_format_simps]:
  "codec_ok C \<Longrightarrow> parse_coin C (format_coin C c) = Ok c"
  by (cases c) (auto simp: parse_coin_def format_coin_def split_on_append_sep split_on_no_sep
      codec_okD split: prod.splits)

lemma format_coin_inject: "codec_ok C \<Longrightarrow> format_coin C c = format_coin C d \<longleftrightarrow> c = d"
  by (metis parse_format_coin result.inject(1))

lemma lua_balance_format_coin [coin_format_simps]:
  "lua_coin_balance (format_coin C c) = Some (lua_num (uint (balance c)))"
  by (simp add: lua_coin_balance_def format_coin_def lua_cut_append lua_tonumber_show_nat
      split: prod.splits)

lemma lua_object_id_format_coin [coin_format_simps]:
  "codec_ok C \<Longrightarrow> lua_coin_object_id (format_coin C c) = Some (show_id C (coin_id c))"
  by (auto simp: lua_coin_object_id_def format_coin_def lua_cut_append codec_okD coin_id_def
      split: prod.splits)

lemma format_coin_not_Nil [simp]: "format_coin C c \<noteq> []"
  by (simp add: format_coin_def split: prod.splits)

text \<open>\<open>get_group_key\<close> succeeds exactly on non-empty groups without duplicates.\<close>

lemma get_group_key_Ok_iff:
  "get_group_key g = Ok k \<longleftrightarrow>
     group_ids g \<noteq> [] \<and> distinct (group_ids g) \<and> k = Min (set (group_ids g))"
proof -
  have "length (group_ids g) = length (updated_gas_coins g) + length (deleted_gas_coins g)"
    by (simp add: group_ids_def)
  then have "card (set (group_ids g)) = length (updated_gas_coins g) + length (deleted_gas_coins g)
      \<longleftrightarrow> distinct (group_ids g)"
    by (metis card_distinct distinct_card)
  then show ?thesis by (auto simp: get_group_key_def Let_def)
qed

section \<open>A concrete codec\<close>

text \<open>Used by the witnesses: ids and digests are numbers, ids print with the \<open>0x\<close> prefix.\<close>

definition nat_codec :: "(nat, nat) codec" where
  "nat_codec = \<lparr>show_id = (\<lambda>i. ''0x'' @ show_nat i), read_id = (\<lambda>s. read_nat (drop 2 s)),
                show_digest = show_nat, read_digest = read_nat\<rparr>"

lemma nat_codec_ok: "codec_ok nat_codec"
  by (simp add: codec_ok_def nat_codec_def read_nat_def)

end
