(* ===== verification/Pool_Scripts.thy ===== *)
theory Pool_Scripts
  imports Gas_Types
begin

text \<open>
  The Lua scripts under \<open>src/src/storage/redis/lua_scripts\<close> that keep the coin pool, one
  definition per script, command for command. Arguments the Rust side prints as integers arrive
  through \<open>tonumber\<close>, that is rounded by \<open>lua_num\<close>. A script that returns the text of a stored
  number returns the integer the redis client parses from it.
\<close>

abbreviation k_coins :: "string \<Rightarrow> string" where
  "k_coins ns \<equiv> nkey ns ''available_gas_coins''"

abbreviation k_total :: "string \<Rightarrow> string" where
  "k_total ns \<equiv> nkey ns ''available_coin_total_balance''"

abbreviation k_count :: "string \<Rightarrow> string" where
  "k_count ns \<equiv> nkey ns ''available_coin_count''"

abbreviation k_queue :: "string \<Rightarrow> string" where
  "k_queue ns \<equiv> nkey ns ''expiration_queue''"

abbreviation k_next :: "string \<Rightarrow> string" where
  "k_next ns \<equiv> nkey ns ''next_reservation_id''"

abbreviation k_initialized :: "string \<Rightarrow> string" where
  "k_initialized ns \<equiv> nkey ns ''initialized''"

abbreviation k_schema :: "string \<Rightarrow> string" where
  "k_schema ns \<equiv> nkey ns ''schema_version''"

abbreviation k_init_lock :: "string \<Rightarrow> string" where
  "k_init_lock ns \<equiv> nkey ns ''init_lock''"

abbreviation k_maintenance :: "string \<Rightarrow> string" where
  "k_maintenance ns \<equiv> nkey ns ''maintenance_lock''"

section \<open>Locks\<close>

text \<open>
  \<open>tonumber (locked_timestamp)\<close> of a lock key that exists; comparing \<open>nil\<close> raises an error.
\<close>

definition lock_time :: "string \<Rightarrow> int option script" where
  "lock_time k = sbind (redis_get k) (\<lambda>locked_timestamp.
     case locked_timestamp of
       None \<Rightarrow> sret None
     | Some s \<Rightarrow> sbind (sneed (lua_tonumber s)) (\<lambda>t. sret (Some t)))"

definition acquire_lock :: "string \<Rightarrow> int \<Rightarrow> int \<Rightarrow> bool script" where
  "acquire_lock k current_time lock_duration = sbind (lock_time k) (\<lambda>locked.
     if locked = None \<or> the locked < lua_num current_time
     then sseq (redis_set k (show_int (lua_add (lua_num current_time) (lua_num lock_duration))))
               (sret True)
     else sret False)"

definition acquire_init_lock_lua :: "string \<Rightarrow> int \<Rightarrow> int \<Rightarrow> bool script" where
  "acquire_init_lock_lua ns current_time lock_duration =
     acquire_lock (k_init_lock ns) current_time lock_duration"

definition acquire_maintenance_lock_lua :: "string \<Rightarrow> int \<Rightarrow> int \<Rightarrow> bool script" where
  "acquire_maintenance_lock_lua ns current_time lock_duration =
     acquire_lock (k_maintenance ns) current_time lock_duration"

definition release_init_lock_lua :: "string \<Rightarrow> unit script" where
  "release_init_lock_lua ns = redis_set (k_init_lock ns) (show_int 0)"

definition release_maintenance_lock_lua :: "string \<Rightarrow> unit script" where
  "release_maintenance_lock_lua ns = redis_set (k_maintenance ns) (show_int 0)"

definition is_maintenance_mode_lua :: "string \<Rightarrow> int \<Rightarrow> bool script" where
  "is_maintenance_mode_lua ns current_time = sbind (lock_time (k_maintenance ns)) (\<lambda>locked.
     if locked = None \<or> the locked < lua_num current_time then sret False else sret True)"

section \<open>Reserving\<close>

definition max_gas_per_query :: nat where
  "max_gas_per_query = 256"

text \<open>
  The \<open>while\<close> loop of \<open>reserve_gas_coins.lua\<close>: pops coins until the budget is reached, 256 coins
  are taken or the list is empty.
\<close>

function take_coins ::
  "string \<Rightarrow> int \<Rightarrow> int \<Rightarrow> string list \<Rightarrow> string list \<Rightarrow> (int \<times> string list \<times> string list) script"
where
  "take_coins k target tot coins object_ids db =
     (if tot < target \<and> length coins < max_gas_per_query
      then (case redis_lpop k db of
              (Inl e, db') \<Rightarrow> (Inl e, db')
            | (Inr None, db') \<Rightarrow> (Inr (tot, coins, object_ids), db')
            | (Inr (Some coin), db') \<Rightarrow>
                (case (lua_coin_balance coin, lua_coin_object_id coin) of
                   (Some bal, Some object_id) \<Rightarrow>
                     take_coins k target (lua_add tot bal) (coins @ [coin])
                       (object_ids @ [object_id]) db'
                 | _ \<Rightarrow> (Inl NilArith, db')))
      else (Inr (tot, coins, object_ids), db))"
  by pat_completeness auto

termination
  by (relation "measure (\<lambda>(k, target, tot, coins, object_ids, db).
        max_gas_per_query - length coins)") auto

declare take_coins.simps [simp del]

definition reserve_gas_coins_lua ::
  "string \<Rightarrow> int \<Rightarrow> int \<Rightarrow> int \<Rightarrow> (int \<times> string list \<times> int \<times> int) script" where
  "reserve_gas_coins_lua ns budget expiration current_time =
     sbind (lock_time (k_maintenance ns)) (\<lambda>locked.
     if locked \<noteq> None \<and> the locked \<ge> lua_num current_time then sret (- 1, [], 0, 0)
     else
       sbind (take_coins (k_coins ns) (lua_num budget) 0 [] []) (\<lambda>(total_balance, coins, object_ids).
       if total_balance < lua_num budget
       then sseq (smap (redis_lpush (k_coins ns)) (rev coins)) (sret (0, [], 0, 0))
       else
         sbind (redis_get (k_total ns)) (\<lambda>cur_total.
         sbind (sneed (Option.bind cur_total lua_tonumber)) (\<lambda>cur.
         let new_total_balance = lua_sub cur total_balance in
         sseq (redis_set (k_total ns) (show_int new_total_balance)) (
         sbind (redis_get (k_count ns)) (\<lambda>cur_count.
         sbind (sneed (Option.bind cur_count lua_tonumber)) (\<lambda>cnt.
         let new_coin_count = lua_sub cnt (int (length coins)) in
         sseq (redis_set (k_count ns) (show_int new_coin_count)) (
         sbind (redis_incr (k_next ns)) (\<lambda>_.
         sbind (redis_get (k_next ns)) (\<lambda>rid.
         sbind (sneed rid) (\<lambda>reservation_id.
         sseq (redis_set (nkey ns reservation_id) (join_with '','' object_ids)) (
         sseq (redis_zadd (k_queue ns) (lua_num expiration) reservation_id) (
         sbind (sneed (read_int reservation_id)) (\<lambda>i.
         sret (i, coins, new_total_balance, new_coin_count)))))))))))))))"

section \<open>Consuming, releasing and expiring\<close>

definition ready_for_execution_lua :: "string \<Rightarrow> string \<Rightarrow> unit script" where
  "ready_for_execution_lua ns reservation_id =
     (let key = nkey ns reservation_id
      in sbind (redis_exists key) (\<lambda>ex.
           if ex then redis_del [key]
           else sfail (Raised (''Reservation no longer exist: '' @ reservation_id))))"

fun add_loop :: "string \<Rightarrow> int \<Rightarrow> string list \<Rightarrow> int script" where
  "add_loop k tot [] = sret tot"
| "add_loop k tot (coin # coins) =
     sbind (sneed (lua_coin_balance coin)) (\<lambda>bal.
     sseq (redis_rpush k coin) (add_loop k (lua_add tot bal) coins))"

text \<open>\<open>if #new_coins > 0\<close>: the initialised mark, and the schema version where it is missing.\<close>

definition mark_initialized :: "string \<Rightarrow> bool \<Rightarrow> unit script" where
  "mark_initialized ns nonempty =
     (if nonempty
      then sseq (redis_set (k_initialized ns) (show_int 1))
             (sbind (redis_get (k_schema ns)) (\<lambda>schema_version.
                if schema_version = None then redis_set (k_schema ns) (show_int 1) else sret ()))
      else sret ())"

definition add_new_coins_lua :: "string \<Rightarrow> string list \<Rightarrow> (int \<times> int) script" where
  "add_new_coins_lua ns new_coins =
     sbind (add_loop (k_coins ns) 0 new_coins) (\<lambda>total_balance.
     sseq (mark_initialized ns (new_coins \<noteq> [])) (
     sbind (redis_get (k_total ns)) (\<lambda>cur_total.
     sbind (sneed (Option.bind cur_total lua_tonumber)) (\<lambda>cur.
     let new_total_balance = lua_add cur total_balance in
     sseq (redis_set (k_total ns) (show_int new_total_balance)) (
     sbind (redis_get (k_count ns)) (\<lambda>cur_count.
     sbind (sneed (Option.bind cur_count lua_tonumber)) (\<lambda>cnt.
     let new_coin_count = lua_add cnt (int (length new_coins)) in
     sseq (redis_set (k_count ns) (show_int new_coin_count))
       (sret (new_total_balance, new_coin_count)))))))))"

fun expire_loop :: "string \<Rightarrow> string list \<Rightarrow> string list \<Rightarrow> string list script" where
  "expire_loop ns expired [] = sret expired"
| "expire_loop ns expired (reservation_id # rest) =
     (let key = nkey ns reservation_id
      in sbind (redis_get key) (\<lambda>object_ids.
           case object_ids of
             None \<Rightarrow> expire_loop ns expired rest
           | Some ids \<Rightarrow> sseq (redis_del [key]) (expire_loop ns (expired @ [ids]) rest)))"

definition expire_coins_lua :: "string \<Rightarrow> int \<Rightarrow> string list script" where
  "expire_coins_lua ns current_time =
     sbind (redis_zrangebyscore (k_queue ns) 0 (lua_num current_time)) (\<lambda>elements.
     if elements = [] then sret []
     else sbind (expire_loop ns [] elements) (\<lambda>expired.
          sseq (redis_zremrangebyscore (k_queue ns) 0 (lua_num current_time)) (sret expired)))"

section \<open>Statistics and initialisation\<close>

text \<open>A stored number whose text the client parses, or an error where the key is missing.\<close>

definition stored_int :: "string option \<Rightarrow> int script" where
  "stored_int v = sneed (Option.bind v read_int)"

definition get_available_coin_count_lua :: "string \<Rightarrow> int script" where
  "get_available_coin_count_lua ns = sbind (redis_get (k_count ns)) stored_int"

definition get_available_coin_total_balance_lua :: "string \<Rightarrow> int script" where
  "get_available_coin_total_balance_lua ns = sbind (redis_get (k_total ns)) stored_int"

definition get_is_initialized_lua :: "string \<Rightarrow> bool script" where
  "get_is_initialized_lua ns = redis_exists (k_initialized ns)"

fun reserved_count_loop :: "string \<Rightarrow> nat \<Rightarrow> string list \<Rightarrow> nat script" where
  "reserved_count_loop ns tot [] = sret tot"
| "reserved_count_loop ns tot (reservation_id # rest) =
     sbind (redis_get (nkey ns reservation_id)) (\<lambda>object_ids.
       case object_ids of
         None \<Rightarrow> reserved_count_loop ns tot rest
       | Some ids \<Rightarrow> reserved_count_loop ns (tot + length (filter ((=) CHR '','') ids) + 1) rest)"

definition get_reserved_coin_count_lua :: "string \<Rightarrow> nat script" where
  "get_reserved_coin_count_lua ns =
     sbind (redis_zall (k_queue ns)) (reserved_count_loop ns 0)"

fun sum_balances :: "int \<Rightarrow> string list \<Rightarrow> int script" where
  "sum_balances tot [] = sret tot"
| "sum_balances tot (coin # coins) =
     sbind (sneed (lua_coin_balance coin)) (\<lambda>bal. sum_balances (lua_add tot bal) coins)"

definition init_coin_stats_at_startup_lua :: "string \<Rightarrow> (int \<times> int) script" where
  "init_coin_stats_at_startup_lua ns =
     sbind (redis_get (k_count ns)) (\<lambda>cur_count.
     sbind (case cur_count of
              Some s \<Rightarrow> stored_int (Some s)
            | None \<Rightarrow> sbind (redis_llen (k_coins ns)) (\<lambda>n.
                sseq (redis_set (k_count ns) (show_nat n)) (sret (int n)))) (\<lambda>coin_count.
     sbind (redis_get (k_total ns)) (\<lambda>cur_total.
     sbind (case cur_total of
              Some s \<Rightarrow> stored_int (Some s)
            | None \<Rightarrow> sbind (redis_lall (k_coins ns)) (\<lambda>elements.
                sbind (sum_balances 0 elements) (\<lambda>tot.
                sseq (redis_set (k_total ns) (show_int tot)) (sret tot)))) (\<lambda>total_balance.
     sbind (redis_get (k_schema ns)) (\<lambda>schema_version.
     sseq (if schema_version = None then redis_set (k_schema ns) (show_int 1) else sret ())
       (sret (coin_count, total_balance)))))))"

section \<open>Cleaning up\<close>

text \<open>
  The keys one \<open>SCAN\<close> loop returns come in batches and may repeat; which batches Redis forms is
  its own choice, so they are an argument. The script deletes every key of a batch but the locks.
\<close>

definition keys_to_delete :: "string \<Rightarrow> string list \<Rightarrow> string list" where
  "keys_to_delete ns keys =
     filter (\<lambda>key. key \<noteq> k_maintenance ns \<and> key \<noteq> k_init_lock ns) keys"

fun clean_up_loop :: "string \<Rightarrow> nat \<Rightarrow> string list list \<Rightarrow> nat script" where
  "clean_up_loop ns deleted [] = sret deleted"
| "clean_up_loop ns deleted (keys # batches) =
     (let ks = keys_to_delete ns keys
      in if ks \<noteq> [] then sseq (redis_del ks) (clean_up_loop ns (deleted + length ks) batches)
         else clean_up_loop ns deleted batches)"

definition clean_up_coin_registry_lua :: "string \<Rightarrow> string list list \<Rightarrow> nat script" where
  "clean_up_coin_registry_lua ns scan_batches = clean_up_loop ns 0 scan_batches"

end
