(* ===== verification/Pool_Spec.thy ===== *)
theory Pool_Spec
  imports Pool_Scripts
begin

text \<open>
  What the pool scripts promise, without keys and texts. \<open>pool\<close> is the state of one namespace: the
  coins that are free (first in, first out), the two statistics kept beside them, the reservations
  with their coins and expiration times, the last reservation id and the two locks. The operations
  \<open>abs_*\<close> are the contract of the scripts, \<open>pool_rel\<close> says when a keyspace represents a pool, and
  \<open>pool_inv\<close> is the well-formedness of a pool.
\<close>

record ('id, 'dg) pool =
  avail :: "('id, 'dg) gas_coin list"
  total_bal :: int
  coin_count :: int
  reserved :: "nat \<rightharpoonup> 'id list"
  expiry :: "nat \<rightharpoonup> int"
  next_id :: nat
  init_lock :: "int option"
  maintenance :: "int option"

definition bal_sum :: "('id, 'dg) gas_coin list \<Rightarrow> int" where
  "bal_sum cs = sum_list (map (\<lambda>c. uint (balance c)) cs)"

lemma bal_sum_simps [simp]:
  "bal_sum [] = 0" "bal_sum (c # cs) = uint (balance c) + bal_sum cs"
  "bal_sum (cs @ ds) = bal_sum cs + bal_sum ds"
  by (simp_all add: bal_sum_def)

lemma bal_sum_nonneg [simp]: "0 \<le> bal_sum cs"
  by (induction cs) auto

lemma bal_sum_take_drop: "bal_sum (take n cs) + bal_sum (drop n cs) = bal_sum cs"
  by (metis append_take_drop_id bal_sum_simps(3))

lemma bal_sum_take_le: "bal_sum (take n cs) \<le> bal_sum cs"
  using bal_sum_take_drop [of n cs] by (smt (verit) bal_sum_nonneg)

section \<open>How many coins a reservation takes\<close>

text \<open>\<open>taken b m cs\<close>: coins are taken while some of the budget \<open>b\<close> is missing and \<open>m\<close> allows it.\<close>

fun taken :: "int \<Rightarrow> nat \<Rightarrow> ('id, 'dg) gas_coin list \<Rightarrow> nat" where
  "taken b m [] = 0"
| "taken b m (c # cs) =
     (if 0 < b \<and> 0 < m then Suc (taken (b - uint (balance c)) (m - 1) cs) else 0)"

definition cut :: "int \<Rightarrow> ('id, 'dg) gas_coin list \<Rightarrow> nat option" where
  "cut b cs = (let n = taken b max_gas_per_query cs
               in if bal_sum (take n cs) < b then None else Some n)"

lemma taken_le_length: "taken b m cs \<le> length cs"
  by (induction b m cs rule: taken.induct) auto

lemma taken_le_max: "taken b m cs \<le> m"
  by (induction b m cs rule: taken.induct) auto

text \<open>Before the last coin the budget was not reached: no prefix shorter than the one taken will do.\<close>

lemma taken_minimal: "k < taken b m cs \<Longrightarrow> bal_sum (take k cs) < b"
proof (induction b m cs arbitrary: k rule: taken.induct)
  case (1 b m)
  then show ?case by simp
next
  case (2 b m c cs)
  show ?case
  proof (cases k)
    case 0
    with "2.prems" show ?thesis by (simp split: if_splits)
  next
    case (Suc j)
    with 2 show ?thesis by (fastforce split: if_splits)
  qed
qed

text \<open>When the loop stops short of the budget, it stopped at the end of the list or at the limit.\<close>

lemma taken_stuck:
  "bal_sum (take (taken b m cs) cs) < b \<Longrightarrow> taken b m cs = m \<or> taken b m cs = length cs"
proof (induction b m cs rule: taken.induct)
  case (1 b m)
  then show ?case by simp
next
  case (2 b m c cs)
  then show ?case by (cases "0 < b \<and> 0 < m") (auto simp: algebra_simps)
qed

lemma cut_Some:
  assumes "cut b cs = Some n"
  shows "n \<le> max_gas_per_query" "n \<le> length cs" "b \<le> bal_sum (take n cs)"
    "k < n \<Longrightarrow> bal_sum (take k cs) < b"
  using assms taken_le_length [of b max_gas_per_query cs] taken_le_max [of b max_gas_per_query cs]
    taken_minimal [of k b max_gas_per_query cs]
  by (auto simp: cut_def Let_def split: if_splits)

lemma bal_sum_take_mono: "k \<le> n \<Longrightarrow> bal_sum (take k cs) \<le> bal_sum (take n cs)"
  using bal_sum_take_le [of k "take n cs"] by (simp add: min_def)

lemma cut_None:
  assumes "cut b cs = None" and "n \<le> max_gas_per_query"
  shows "bal_sum (take n cs) < b"
proof -
  let ?t = "taken b max_gas_per_query cs"
  have lt: "bal_sum (take ?t cs) < b"
    using assms(1) by (simp add: cut_def Let_def split: if_splits)
  then consider "?t = max_gas_per_query" | "?t = length cs"
    using taken_stuck by blast
  then have "bal_sum (take n cs) \<le> bal_sum (take ?t cs)"
  proof cases
    case 1
    with assms(2) show ?thesis by (simp add: bal_sum_take_mono)
  next
    case 2
    then show ?thesis by (simp add: bal_sum_take_le)
  qed
  with lt show ?thesis by simp
qed

section \<open>Operations\<close>

definition in_maintenance :: "int \<Rightarrow> ('id, 'dg) pool \<Rightarrow> bool" where
  "in_maintenance now p \<longleftrightarrow> (\<exists>t. maintenance p = Some t \<and> now \<le> t)"

definition reserve_pool :: "nat \<Rightarrow> int \<Rightarrow> ('id, 'dg) pool \<Rightarrow> ('id, 'dg) pool" where
  "reserve_pool n exp p =
     p\<lparr>avail := drop n (avail p),
       total_bal := total_bal p - bal_sum (take n (avail p)),
       coin_count := coin_count p - int n,
       next_id := Suc (next_id p),
       reserved := (reserved p)(Suc (next_id p) \<mapsto> map coin_id (take n (avail p))),
       expiry := (expiry p)(Suc (next_id p) \<mapsto> exp)\<rparr>"

definition ready_pool :: "nat \<Rightarrow> ('id, 'dg) pool \<Rightarrow> ('id, 'dg) pool" where
  "ready_pool i p = p\<lparr>reserved := (reserved p)(i := None)\<rparr>"

definition add_pool :: "('id, 'dg) gas_coin list \<Rightarrow> ('id, 'dg) pool \<Rightarrow> ('id, 'dg) pool" where
  "add_pool cs p =
     p\<lparr>avail := avail p @ cs, total_bal := total_bal p + bal_sum cs,
       coin_count := coin_count p + int (length cs)\<rparr>"

definition expired_at :: "int \<Rightarrow> ('id, 'dg) pool \<Rightarrow> nat \<Rightarrow> bool" where
  "expired_at now p i \<longleftrightarrow> (case expiry p i of None \<Rightarrow> False | Some s \<Rightarrow> 0 \<le> s \<and> s \<le> now)"

definition expire_pool :: "int \<Rightarrow> ('id, 'dg) pool \<Rightarrow> ('id, 'dg) pool" where
  "expire_pool now p =
     p\<lparr>reserved := (\<lambda>i. if expired_at now p i then None else reserved p i),
       expiry := (\<lambda>i. if expired_at now p i then None else expiry p i)\<rparr>"

section \<open>Representation\<close>

definition lock_rel :: "keyspace \<Rightarrow> string \<Rightarrow> int option \<Rightarrow> bool" where
  "lock_rel db k l \<longleftrightarrow> db k = map_option (\<lambda>t. RString (show_int t)) l"

definition resv_val :: "('id, 'dg) codec \<Rightarrow> 'id list option \<Rightarrow> rval option" where
  "resv_val C = map_option (\<lambda>ids. RString (join_with '','' (map (show_id C) ids)))"

definition queue_rel :: "keyspace \<Rightarrow> string \<Rightarrow> (nat \<rightharpoonup> int) \<Rightarrow> bool" where
  "queue_rel db k q \<longleftrightarrow> (\<exists>z. db k = zset_val z \<and> distinct (map fst z) \<and>
     set z = {(show_nat i, s) | i s. q i = Some s})"

definition next_rel :: "keyspace \<Rightarrow> string \<Rightarrow> nat \<Rightarrow> bool" where
  "next_rel db k n \<longleftrightarrow> (db k = None \<and> n = 0) \<or> db k = Some (RString (show_nat n))"

text \<open>The schema version is absent or a text.\<close>

definition schema_ok :: "string \<Rightarrow> keyspace \<Rightarrow> bool" where
  "schema_ok ns db \<longleftrightarrow> (case db (k_schema ns) of None \<Rightarrow> True | Some (RString s) \<Rightarrow> True | _ \<Rightarrow> False)"

definition pool_rel :: "('id, 'dg) codec \<Rightarrow> string \<Rightarrow> keyspace \<Rightarrow> ('id, 'dg) pool \<Rightarrow> bool" where
  "pool_rel C ns db p \<longleftrightarrow>
     db (k_coins ns) = list_val (map (format_coin C) (avail p)) \<and>
     db (k_total ns) = Some (RString (show_int (total_bal p))) \<and>
     db (k_count ns) = Some (RString (show_int (coin_count p))) \<and>
     (\<forall>i. db (nkey ns (show_nat i)) = resv_val C (reserved p i)) \<and>
     queue_rel db (k_queue ns) (expiry p) \<and>
     next_rel db (k_next ns) (next_id p) \<and>
     lock_rel db (k_init_lock ns) (init_lock p) \<and>
     lock_rel db (k_maintenance ns) (maintenance p) \<and>
     schema_ok ns db"

text \<open>
  A well-formed pool: the statistics are those of the coins and stay where Lua computes exactly,
  and every open reservation has an id that was given out and an expiration time in the queue, so
  that no reserved coin is forgotten.
\<close>

definition lock_ok :: "int option \<Rightarrow> bool" where
  "lock_ok l \<longleftrightarrow> (case l of None \<Rightarrow> True | Some t \<Rightarrow> \<bar>t\<bar> \<le> 2 ^ 53)"

definition pool_inv :: "('id, 'dg) pool \<Rightarrow> bool" where
  "pool_inv p \<longleftrightarrow>
     total_bal p = bal_sum (avail p) \<and> bal_sum (avail p) \<le> 2 ^ 53 \<and>
     coin_count p = int (length (avail p)) \<and> int (length (avail p)) \<le> 2 ^ 53 \<and>
     (\<forall>i ids. reserved p i = Some ids \<longrightarrow> 0 < i \<and> i \<le> next_id p \<and>
        (\<exists>s. expiry p i = Some s \<and> 0 \<le> s)) \<and>
     (\<forall>i s. expiry p i = Some s \<longrightarrow> 0 < i \<and> i \<le> next_id p) \<and>
     lock_ok (init_lock p) \<and> lock_ok (maintenance p)"

subsection \<open>Every operation keeps the invariant\<close>

lemma pool_inv_reserve:
  assumes "pool_inv p" and "n \<le> length (avail p)" and "0 \<le> exp"
  shows "pool_inv (reserve_pool n exp p)"
proof -
  have "bal_sum (drop n (avail p)) = bal_sum (avail p) - bal_sum (take n (avail p))"
    using bal_sum_take_drop [of n "avail p"] by simp
  moreover have "bal_sum (avail p) - bal_sum (take n (avail p)) \<le> 2 ^ 53"
    using assms(1) bal_sum_nonneg [of "take n (avail p)"] unfolding pool_inv_def by linarith
  ultimately show ?thesis
    using assms by (auto simp: pool_inv_def reserve_pool_def of_nat_diff le_SucI split: if_splits)
qed

lemma pool_inv_ready: "pool_inv p \<Longrightarrow> pool_inv (ready_pool i p)"
  by (auto simp: pool_inv_def ready_pool_def split: if_splits)

lemma pool_inv_add:
  assumes "pool_inv p" and "bal_sum (avail p) + bal_sum cs \<le> 2 ^ 53"
    and "int (length (avail p)) + int (length cs) \<le> 2 ^ 53"
  shows "pool_inv (add_pool cs p)"
  using assms by (simp add: pool_inv_def add_pool_def)

lemma pool_inv_expire: "pool_inv p \<Longrightarrow> pool_inv (expire_pool now p)"
  by (auto simp: pool_inv_def expire_pool_def split: if_splits)

end
