(* ===== verification/Pool_Refine.thy ===== *)
theory Pool_Refine
  imports Pool_Spec
begin

text \<open>
  The scripts implement the contract: run on a keyspace that represents a well-formed pool, each
  script returns what the abstract operation says and leaves a keyspace that represents the pool
  the abstract operation leaves.
\<close>

section \<open>Keys\<close>

lemma not_digit_letters [simp]:
  "\<not> is_digit CHR ''a''" "\<not> is_digit CHR ''e''" "\<not> is_digit CHR ''n''" "\<not> is_digit CHR ''i''"
  "\<not> is_digit CHR ''s''" "\<not> is_digit CHR ''m''"
  by (simp_all add: is_digit_def)

lemma lock_rel_upd_other [simp]: "k \<noteq> k' \<Longrightarrow> lock_rel (db(k' := v)) k l = lock_rel db k l"
  by (simp add: lock_rel_def)

lemma queue_rel_upd_other [simp]: "k \<noteq> k' \<Longrightarrow> queue_rel (db(k' := v)) k q = queue_rel db k q"
  by (simp add: queue_rel_def)

lemma next_rel_upd_other [simp]: "k \<noteq> k' \<Longrightarrow> next_rel (db(k' := v)) k n = next_rel db k n"
  by (simp add: next_rel_def)

lemma schema_ok_upd_other [simp]:
  "k \<noteq> k_schema ns \<Longrightarrow> schema_ok ns (db(k := v)) = schema_ok ns db"
  by (simp add: schema_ok_def)

lemma schema_ok_upd [simp]: "schema_ok ns (db(k_schema ns \<mapsto> RString s))"
  by (simp add: schema_ok_def)

lemma pool_relD:
  assumes "pool_rel C ns db p"
  shows "db (k_coins ns) = list_val (map (format_coin C) (avail p))"
    "db (k_total ns) = Some (RString (show_int (total_bal p)))"
    "db (k_count ns) = Some (RString (show_int (coin_count p)))"
    "db (nkey ns (show_nat i)) = resv_val C (reserved p i)"
    "queue_rel db (k_queue ns) (expiry p)"
    "next_rel db (k_next ns) (next_id p)"
    "lock_rel db (k_init_lock ns) (init_lock p)"
    "lock_rel db (k_maintenance ns) (maintenance p)"
    "schema_ok ns db"
  using assms by (simp_all add: pool_rel_def)

text \<open>Writes to the coin list, the schema mark and the initialised mark do not touch the rest.\<close>

lemma pool_rel_coins:
  "pool_rel C ns db p \<Longrightarrow>
     pool_rel C ns (db(k_coins ns := list_val (map (format_coin C) cs))) (p\<lparr>avail := cs\<rparr>)"
  by (simp add: pool_rel_def)

lemma pool_rel_total:
  "pool_rel C ns db p \<Longrightarrow>
     pool_rel C ns (db(k_total ns \<mapsto> RString (show_int t))) (p\<lparr>total_bal := t\<rparr>)"
  by (simp add: pool_rel_def)

lemma pool_rel_count:
  "pool_rel C ns db p \<Longrightarrow>
     pool_rel C ns (db(k_count ns \<mapsto> RString (show_int n))) (p\<lparr>coin_count := n\<rparr>)"
  by (simp add: pool_rel_def)

lemma pool_rel_marks:
  "pool_rel C ns db p \<Longrightarrow> pool_rel C ns (db(k_initialized ns := v)) p"
  "pool_rel C ns db p \<Longrightarrow> pool_rel C ns (db(k_schema ns \<mapsto> RString s)) p"
  by (simp_all add: pool_rel_def)

lemma pool_rel_next:
  "pool_rel C ns db p \<Longrightarrow>
     pool_rel C ns (db(k_next ns \<mapsto> RString (show_nat n))) (p\<lparr>next_id := n\<rparr>)"
  by (simp add: pool_rel_def next_rel_def)

lemma pool_rel_reserved:
  "pool_rel C ns db p \<Longrightarrow>
     pool_rel C ns (db(nkey ns (show_nat i) := resv_val C r)) (p\<lparr>reserved := (reserved p)(i := r)\<rparr>)"
  by (simp add: pool_rel_def)

lemma pool_rel_init_lock:
  "pool_rel C ns db p \<Longrightarrow>
     pool_rel C ns (db(k_init_lock ns \<mapsto> RString (show_int t))) (p\<lparr>init_lock := Some t\<rparr>)"
  by (simp add: pool_rel_def lock_rel_def)

lemma pool_rel_maintenance:
  "pool_rel C ns db p \<Longrightarrow>
     pool_rel C ns (db(k_maintenance ns \<mapsto> RString (show_int t))) (p\<lparr>maintenance := Some t\<rparr>)"
  by (simp add: pool_rel_def lock_rel_def)

lemma pool_rel_zadd:
  assumes "pool_rel C ns db p" and z: "db (k_queue ns) = zset_val z"
  shows "pool_rel C ns (db(k_queue ns := zset_val (zadd (show_nat i) s z)))
    (p\<lparr>expiry := (expiry p)(i \<mapsto> s)\<rparr>)"
proof -
  from pool_relD(5) [OF assms(1)] z have "distinct (map fst z)"
    and "set z = {(show_nat i, s) | i s. expiry p i = Some s}"
    by (auto simp: queue_rel_def zset_val_def split: if_splits)
  then have "distinct (map fst (zadd (show_nat i) s z))"
    and "set (zadd (show_nat i) s z) = {(show_nat j, t) | j t. ((expiry p)(i \<mapsto> s)) j = Some t}"
    by (auto simp: set_zadd distinct_fst_zadd)
  then have "queue_rel (db(k_queue ns := zset_val (zadd (show_nat i) s z))) (k_queue ns)
      ((expiry p)(i \<mapsto> s))"
    unfolding queue_rel_def by (intro exI [of _ "zadd (show_nat i) s z"]) simp
  with assms(1) show ?thesis by (simp add: pool_rel_def)
qed

section \<open>Locks\<close>

lemma lock_time_rel:
  "lock_rel db k l \<Longrightarrow> lock_time k db = (Inr (map_option lua_num l), db)"
  by (cases l) (auto simp: lock_rel_def lock_time_def redis_simps lua_tonumber_show_int)

lemma lock_ok_exact: "lock_ok l \<Longrightarrow> map_option lua_num l = l"
  by (cases l) (auto simp: lock_ok_def lua_num_exact)

section \<open>Reserving\<close>

text \<open>
  What the loop takes when its sums are rounded: the number of coins and the sum. Within the exact
  range this is \<open>taken\<close> and the true sum.
\<close>

fun lua_taken :: "int \<Rightarrow> nat \<Rightarrow> int \<Rightarrow> ('id, 'dg) gas_coin list \<Rightarrow> nat \<times> int" where
  "lua_taken b m tot [] = (0, tot)"
| "lua_taken b m tot (c # cs) =
     (if tot < b \<and> 0 < m
      then (case lua_taken b (m - 1) (lua_add tot (lua_num (uint (balance c)))) cs of
              (n, t) \<Rightarrow> (Suc n, t))
      else (0, tot))"

lemma lua_taken_le: "lua_taken b m tot cs = (n, t) \<Longrightarrow> n \<le> m \<and> n \<le> length cs"
  by (induction b m tot cs arbitrary: n t rule: lua_taken.induct)
    (fastforce split: prod.splits if_splits)+

lemma lua_taken_exact:
  "0 \<le> tot \<Longrightarrow> tot + bal_sum cs \<le> 2 ^ 53 \<Longrightarrow>
   lua_taken b m tot cs =
     (taken (b - tot) m cs, tot + bal_sum (take (taken (b - tot) m cs) cs))"
proof (induction b m tot cs rule: lua_taken.induct)
  case (1 b m tot)
  then show ?case by simp
next
  case (2 b m tot c cs)
  show ?case
  proof (cases "tot < b \<and> 0 < m")
    case False
    then show ?thesis by auto
  next
    case True
    have limit: "0 \<le> tot + uint (balance c)" "tot + uint (balance c) + bal_sum cs \<le> 2 ^ 53"
      "tot + uint (balance c) \<le> 2 ^ 53" "uint (balance c) \<le> 2 ^ 53"
      using "2.prems" bal_sum_nonneg [of cs] uint_ge_0 [of "balance c"]
      unfolding bal_sum_simps by linarith+
    have "lua_num (uint (balance c)) = uint (balance c)"
      and "lua_add tot (uint (balance c)) = tot + uint (balance c)"
      using limit "2.prems"(1) by (auto intro!: lua_num_exact lua_add_exact)
    with True "2.IH" limit show ?thesis by (simp add: diff_diff_eq)
  qed
qed

lemma take_coins_lua:
  assumes "codec_ok C" and "db k = list_val (map (format_coin C) cs)"
    and "lua_taken target (max_gas_per_query - length coins) tot cs = (n, t)"
  shows "take_coins k target tot coins oids db =
     (Inr (t, coins @ map (format_coin C) (take n cs),
           oids @ map (\<lambda>c. show_id C (coin_id c)) (take n cs)),
      db(k := list_val (map (format_coin C) (drop n cs))))"
  using assms(2-)
proof (induction cs arbitrary: db tot coins oids n)
  case Nil
  then show ?case
    by (subst take_coins.simps) (simp add: redis_simps fun_upd_idem)
next
  case (Cons c cs)
  show ?case
  proof (cases "tot < target \<and> length coins < max_gas_per_query")
    case False
    with Cons.prems show ?thesis
      by (subst take_coins.simps) (auto simp: fun_upd_idem)
  next
    case True
    define db1 where "db1 = db(k := list_val (map (format_coin C) cs))"
    define tot1 where "tot1 = lua_add tot (lua_num (uint (balance c)))"
    have step: "take_coins k target tot coins oids db =
        take_coins k target tot1 (coins @ [format_coin C c]) (oids @ [show_id C (coin_id c)]) db1"
      using True Cons.prems(1) assms(1)
      by (subst take_coins.simps) (simp add: redis_simps coin_format_simps db1_def tot1_def)
    obtain m where m: "lua_taken target (max_gas_per_query - length (coins @ [format_coin C c])) tot1 cs
        = (m, t)" and nm: "n = Suc m"
      using True Cons.prems(2) by (auto simp: tot1_def diff_diff_eq split: prod.splits)
    have "db1 k = list_val (map (format_coin C) cs)" by (simp add: db1_def)
    note Cons.IH [where db = db1 and oids = "oids @ [show_id C (coin_id c)]", OF this m]
    with step nm show ?thesis by (simp add: algebra_simps) (simp add: db1_def fun_eq_iff)
  qed
qed

text \<open>Pushing the popped coins back in reverse order restores the list.\<close>

lemma push_all_rel:
  "db k = list_val ys \<Longrightarrow> smap (redis_lpush k) zs db = (Inr (), db(k := list_val (rev zs @ ys)))"
  by (induction zs arbitrary: db ys) (simp_all add: redis_lpush_simp fun_upd_idem)


lemma pool_inv_bounds:
  assumes "pool_inv p"
  shows "total_bal p = bal_sum (avail p)" "bal_sum (avail p) \<le> 2 ^ 53"
    "coin_count p = int (length (avail p))" "int (length (avail p)) \<le> 2 ^ 53"
    "lock_ok (init_lock p)" "lock_ok (maintenance p)"
  using assms by (simp_all add: pool_inv_def)

definition lua_select :: "int \<Rightarrow> ('id, 'dg) gas_coin list \<Rightarrow> nat \<times> int" where
  "lua_select b cs = lua_taken b max_gas_per_query 0 cs"

definition lua_locked :: "int \<Rightarrow> ('id, 'dg) pool \<Rightarrow> bool" where
  "lua_locked now p \<longleftrightarrow> (\<exists>t. maintenance p = Some t \<and> now \<le> lua_num t)"

lemma maintenance_lock_time:
  "pool_rel C ns db p \<Longrightarrow>
     lock_time (k_maintenance ns) db = (Inr (map_option lua_num (maintenance p)), db)"
  by (rule lock_time_rel [OF pool_relD(8)])

text \<open>Under maintenance, and when the pool cannot cover the budget, the keyspace is untouched.\<close>

lemma reserve_locked_lua:
  assumes "pool_rel C ns db p" and "lua_locked (lua_num now) p"
  shows "reserve_gas_coins_lua ns budget expiration now db = (Inr (- 1, [], 0, 0), db)"
  using assms(2) maintenance_lock_time [OF assms(1)]
  by (auto simp: reserve_gas_coins_lua_def lua_locked_def)

lemma not_lua_locked:
  "\<not> lua_locked now p \<Longrightarrow>
     \<not> (map_option lua_num (maintenance p) \<noteq> None \<and> the (map_option lua_num (maintenance p)) \<ge> now)"
  by (auto simp: lua_locked_def)

lemma take_coins_pool:
  assumes "codec_ok C" and "pool_rel C ns db p" and "lua_select b (avail p) = (n, t)"
  shows "take_coins (k_coins ns) b 0 [] [] db =
     (Inr (t, map (format_coin C) (take n (avail p)),
           map (\<lambda>c. show_id C (coin_id c)) (take n (avail p))),
      db(k_coins ns := list_val (map (format_coin C) (drop n (avail p)))))"
  using take_coins_lua [where coins = "[]" and oids = "[]" and k = "k_coins ns" and db = db
      and target = b and tot = 0 and n = n and t = t and cs = "avail p",
      OF assms(1) pool_relD(1) [OF assms(2)]] assms(3)
  by (simp add: lua_select_def)

lemma reserve_short_lua:
  assumes "codec_ok C" and "pool_rel C ns db p" and "\<not> lua_locked (lua_num now) p"
    and "lua_select (lua_num budget) (avail p) = (n, t)" and "t < lua_num budget"
  shows "reserve_gas_coins_lua ns budget expiration now db = (Inr (0, [], 0, 0), db)"
proof -
  let ?db = "db(k_coins ns := list_val (map (format_coin C) (drop n (avail p))))"
  have pushed: "smap (redis_lpush (k_coins ns)) (rev (map (format_coin C) (take n (avail p)))) ?db =
      (Inr (), db)"
    using push_all_rel [of ?db "k_coins ns" "map (format_coin C) (drop n (avail p))"
        "rev (map (format_coin C) (take n (avail p)))"] pool_relD(1) [OF assms(2)]
    by (simp add: fun_upd_idem flip: map_append)
  show ?thesis
    using not_lua_locked [OF assms(3)] assms(5) pushed
    by (auto simp: reserve_gas_coins_lua_def maintenance_lock_time [OF assms(2)]
        take_coins_pool [OF assms(1,2,4)])
qed

text \<open>Otherwise the first \<open>n\<close> coins move into a new reservation.\<close>

lemma redis_incr_next:
  "next_rel db k n \<Longrightarrow> n < 2 ^ 63 - 1 \<Longrightarrow>
     redis_incr k db = (Inr (int (Suc n)), db(k \<mapsto> RString (show_nat (Suc n))))"
proof -
  assume rel: "next_rel db k n" and n: "n < 2 ^ 63 - 1"
  have r: "i64_range (int n)" "i64_range (int n + 1)"
    using n by (auto simp: i64_range_def)
  have s: "show_int (int n + 1) = show_nat (Suc n)"
    using show_int_of_nat [of "Suc n"] by (simp add: algebra_simps)
  have r1: "read_int (show_nat n) = Some (int n)"
    by (rule read_int_show_nat)
  show ?thesis
  proof (cases "db k")
    case None
    then have "n = 0" using rel by (auto simp: next_rel_def)
    with None s show ?thesis by (simp add: redis_incr_def)
  next
    case (Some v)
    then have "v = RString (show_nat n)" using rel by (auto simp: next_rel_def)
    with Some r r1 s show ?thesis by (simp add: redis_incr_def)
  qed
qed

lemma lua_stored_int: "\<bar>i\<bar> \<le> 2 ^ 53 \<Longrightarrow> lua_tonumber (show_int i) = Some i"
  by (simp add: lua_tonumber_show_int lua_num_exact)

lemma stats_readable:
  assumes "pool_inv p"
  shows "lua_num (total_bal p) = total_bal p" "lua_num (coin_count p) = coin_count p"
  by (rule lua_num_exact; use pool_inv_bounds [OF assms] bal_sum_nonneg [of "avail p"] in simp)+

lemma resv_val_Some: "resv_val C (Some ids) = Some (RString (join_with '','' (map (show_id C) ids)))"
  by (simp add: resv_val_def)

definition reserve_lua_pool :: "nat \<Rightarrow> int \<Rightarrow> int \<Rightarrow> ('id, 'dg) pool \<Rightarrow> ('id, 'dg) pool" where
  "reserve_lua_pool n t exp p =
     p\<lparr>avail := drop n (avail p),
       total_bal := lua_sub (lua_num (total_bal p)) t,
       coin_count := lua_sub (lua_num (coin_count p)) (int n),
       next_id := Suc (next_id p),
       reserved := (reserved p)(Suc (next_id p) \<mapsto> map coin_id (take n (avail p))),
       expiry := (expiry p)(Suc (next_id p) \<mapsto> exp)\<rparr>"

lemma reserve_granted_lua:
  assumes "codec_ok C" and "pool_rel C ns db p" and "\<not> lua_locked (lua_num now) p"
    and "lua_select (lua_num budget) (avail p) = (n, t)" and "\<not> t < lua_num budget"
    and "next_id p < 2 ^ 63 - 1"
  shows "\<exists>db'. reserve_gas_coins_lua ns budget expiration now db =
      (Inr (int (Suc (next_id p)), map (format_coin C) (take n (avail p)),
            lua_sub (lua_num (total_bal p)) t, lua_sub (lua_num (coin_count p)) (int n)), db') \<and>
    pool_rel C ns db' (reserve_lua_pool n t (lua_num expiration) p)"
proof -
  let ?i = "Suc (next_id p)" and ?cs = "take n (avail p)"
  let ?tot = "lua_sub (lua_num (total_bal p)) t" and ?cnt = "lua_sub (lua_num (coin_count p)) (int n)"
  have len: "length ?cs = n"
    using lua_taken_le [of "lua_num budget" max_gas_per_query 0 "avail p" n t] assms(4)
    by (simp add: lua_select_def)
  obtain z where z: "db (k_queue ns) = zset_val z"
    using pool_relD(5) [OF assms(2)] by (auto simp: queue_rel_def)
  define db1 where "db1 = db(k_coins ns := list_val (map (format_coin C) (drop n (avail p))))"
  define db2 where "db2 = db1(k_total ns \<mapsto> RString (show_int ?tot))"
  define db3 where "db3 = db2(k_count ns \<mapsto> RString (show_int ?cnt))"
  define db4 where "db4 = db3(k_next ns \<mapsto> RString (show_nat ?i))"
  define db5 where "db5 = db4(nkey ns (show_nat ?i) := resv_val C (Some (map coin_id ?cs)))"
  define db6 where "db6 = db5(k_queue ns := zset_val (zadd (show_nat ?i) (lua_num expiration) z))"
  have "pool_rel C ns db1 (p\<lparr>avail := drop n (avail p)\<rparr>)"
    unfolding db1_def by (rule pool_rel_coins [OF assms(2)])
  then have "pool_rel C ns db2 (p\<lparr>avail := drop n (avail p), total_bal := ?tot\<rparr>)"
    unfolding db2_def by (rule pool_rel_total)
  then have "pool_rel C ns db3
      (p\<lparr>avail := drop n (avail p), total_bal := ?tot, coin_count := ?cnt\<rparr>)"
    unfolding db3_def by (rule pool_rel_count)
  then have "pool_rel C ns db4
      (p\<lparr>avail := drop n (avail p), total_bal := ?tot, coin_count := ?cnt, next_id := ?i\<rparr>)"
    unfolding db4_def by (rule pool_rel_next)
  note rel5 = pool_rel_reserved [OF this, of ?i "Some (map coin_id ?cs)", folded db5_def]
  have z5: "db5 (k_queue ns) = zset_val z"
    by (simp add: db5_def db4_def db3_def db2_def db1_def z)
  have "pool_rel C ns db6 (reserve_lua_pool n t (lua_num expiration) p)"
    using pool_rel_zadd [OF rel5 z5, of ?i "lua_num expiration"]
    by (simp add: db6_def reserve_lua_pool_def)
  moreover have "reserve_gas_coins_lua ns budget expiration now db =
      (Inr (int ?i, map (format_coin C) ?cs, ?tot, ?cnt), db6)"
  proof -
    have g1: "redis_get (k_total ns) db1 = (Inr (Some (show_int (total_bal p))), db1)"
      and g2: "redis_get (k_count ns) db2 = (Inr (Some (show_int (coin_count p))), db2)"
      using pool_relD(2,3) [OF assms(2)] by (auto simp: db1_def db2_def intro!: redis_get_Some)
    have inc: "redis_incr (k_next ns) db3 = (Inr (int ?i), db4)"
      unfolding db4_def
      by (rule redis_incr_next) (use pool_relD(6) [OF assms(2)] assms(6) in
          \<open>simp_all add: db3_def db2_def db1_def\<close>)
    have g4: "redis_get (k_next ns) db4 = (Inr (Some (show_nat ?i)), db4)"
      by (simp add: db4_def redis_simps)
    have set5: "db4(nkey ns (show_nat ?i) \<mapsto>
        RString (join_with '','' (map (\<lambda>c. show_id C (coin_id c)) ?cs))) = db5"
      by (simp add: db5_def resv_val_Some comp_def)
    have add6: "redis_zadd (k_queue ns) (lua_num expiration) (show_nat ?i) db5 = (Inr (), db6)"
      unfolding db6_def by (rule redis_zadd_simp) (rule z5)
    have ri: "read_int (show_nat ?i) = Some (int ?i)"
      by (rule read_int_show_nat)
    show ?thesis
      using not_lua_locked [OF assms(3)] assms(5)
      by (simp add: reserve_gas_coins_lua_def maintenance_lock_time [OF assms(2)]
          take_coins_pool [OF assms(1,2,4), folded db1_def] g1 lua_tonumber_show_int redis_set_simp
          db2_def [symmetric] g2 len [simplified] db3_def [symmetric] inc g4 set5 add6 ri Let_def)
  qed
  ultimately show ?thesis by blast
qed

subsection \<open>Within the exact range\<close>

lemma lua_locked_exact: "pool_inv p \<Longrightarrow> lua_locked now p = in_maintenance now p"
  using lock_ok_exact [OF pool_inv_bounds(6), of p]
  by (cases "maintenance p") (auto simp: lua_locked_def in_maintenance_def)

lemma lua_select_exact:
  "pool_inv p \<Longrightarrow> lua_select b (avail p) =
     (taken b max_gas_per_query (avail p), bal_sum (take (taken b max_gas_per_query (avail p)) (avail p)))"
  using lua_taken_exact [of 0 "avail p" b max_gas_per_query] pool_inv_bounds(2) [of p]
  by (simp add: lua_select_def)

lemma reserve_lua_pool_exact:
  assumes "pool_inv p" and "n \<le> length (avail p)"
  shows "reserve_lua_pool n (bal_sum (take n (avail p))) exp p = reserve_pool n exp p"
    "lua_sub (lua_num (total_bal p)) (bal_sum (take n (avail p))) =
       total_bal p - bal_sum (take n (avail p))"
    "lua_sub (lua_num (coin_count p)) (int n) = coin_count p - int n"
proof -
  show tot: "lua_sub (lua_num (total_bal p)) (bal_sum (take n (avail p))) =
      total_bal p - bal_sum (take n (avail p))"
    unfolding stats_readable [OF assms(1)]
    by (rule lua_sub_exact) (use pool_inv_bounds [OF assms(1)] bal_sum_take_le in auto)
  show cnt: "lua_sub (lua_num (coin_count p)) (int n) = coin_count p - int n"
    unfolding stats_readable [OF assms(1)]
    by (rule lua_sub_exact) (use pool_inv_bounds [OF assms(1)] assms(2) in auto)
  show "reserve_lua_pool n (bal_sum (take n (avail p))) exp p = reserve_pool n exp p"
    unfolding reserve_lua_pool_def tot cnt by (simp add: reserve_pool_def)
qed

lemma reserve_maintenance_rel:
  "pool_rel C ns db p \<Longrightarrow> pool_inv p \<Longrightarrow> in_maintenance (lua_num now) p \<Longrightarrow>
     reserve_gas_coins_lua ns budget expiration now db = (Inr (- 1, [], 0, 0), db)"
  by (simp add: reserve_locked_lua lua_locked_exact)

lemma reserve_insufficient_rel:
  assumes "codec_ok C" and "pool_rel C ns db p" and "pool_inv p"
    and "\<not> in_maintenance (lua_num now) p" and "cut (lua_num budget) (avail p) = None"
  shows "reserve_gas_coins_lua ns budget expiration now db = (Inr (0, [], 0, 0), db)"
  by (rule reserve_short_lua [OF assms(1,2) _ lua_select_exact [OF assms(3)]])
    (use assms(4,5) in \<open>auto simp: lua_locked_exact [OF assms(3)] cut_def Let_def split: if_splits\<close>)

lemma reserve_granted_rel:
  assumes "codec_ok C" and "pool_rel C ns db p" and "pool_inv p"
    and "\<not> in_maintenance (lua_num now) p" and "cut (lua_num budget) (avail p) = Some n"
    and "next_id p < 2 ^ 63 - 1"
  shows "\<exists>db'. reserve_gas_coins_lua ns budget expiration now db =
      (Inr (int (Suc (next_id p)), map (format_coin C) (take n (avail p)),
            total_bal p - bal_sum (take n (avail p)), coin_count p - int n), db') \<and>
    pool_rel C ns db' (reserve_pool n (lua_num expiration) p)"
proof -
  have n: "n = taken (lua_num budget) max_gas_per_query (avail p)"
    "\<not> bal_sum (take n (avail p)) < lua_num budget"
    using assms(5) by (auto simp: cut_def Let_def split: if_splits)
  have "\<not> lua_locked (lua_num now) p"
    using assms(4) by (simp add: lua_locked_exact [OF assms(3)])
  from reserve_granted_lua [OF assms(1,2) this
      lua_select_exact [OF assms(3), of "lua_num budget", folded n(1)] n(2) assms(6)]
  show ?thesis by (simp add: reserve_lua_pool_exact [OF assms(3) cut_Some(2) [OF assms(5)]])
qed

section \<open>Consuming a reservation\<close>

lemma ready_rel:
  assumes "pool_rel C ns db p" and "reserved p i = Some ids"
  shows "ready_for_execution_lua ns (show_nat i) db =
      (Inr (), db(nkey ns (show_nat i) := None))"
    "pool_rel C ns (db(nkey ns (show_nat i) := None)) (ready_pool i p)"
proof -
  show "ready_for_execution_lua ns (show_nat i) db = (Inr (), db(nkey ns (show_nat i) := None))"
    using pool_relD(4) [OF assms(1), of i] assms(2)
    by (simp add: ready_for_execution_lua_def Let_def redis_exists_def redis_del_simp resv_val_Some)
  show "pool_rel C ns (db(nkey ns (show_nat i) := None)) (ready_pool i p)"
    using pool_rel_reserved [OF assms(1), of i None] by (simp add: ready_pool_def resv_val_def)
qed

lemma ready_missing_rel:
  assumes "pool_rel C ns db p" and "reserved p i = None"
  shows "ready_for_execution_lua ns (show_nat i) db =
    (Inl (Raised (''Reservation no longer exist: '' @ show_nat i)), db)"
  using pool_relD(4) [OF assms(1), of i] assms(2)
  by (simp add: ready_for_execution_lua_def Let_def redis_exists_def resv_val_def)

section \<open>Adding coins\<close>

lemma add_loop_rel:
  "db k = list_val xs \<Longrightarrow> 0 \<le> tot \<Longrightarrow> tot + bal_sum cs \<le> 2 ^ 53 \<Longrightarrow>
   add_loop k tot (map (format_coin C) cs) db =
     (Inr (tot + bal_sum cs), db(k := list_val (xs @ map (format_coin C) cs)))"
proof (induction cs arbitrary: db tot xs)
  case Nil
  then show ?case by (simp add: fun_upd_idem)
next
  case (Cons c cs)
  have limit: "0 \<le> tot + uint (balance c)" "tot + uint (balance c) + bal_sum cs \<le> 2 ^ 53"
    "tot + uint (balance c) \<le> 2 ^ 53" "uint (balance c) \<le> 2 ^ 53"
    using Cons.prems(2,3) bal_sum_nonneg [of cs] uint_ge_0 [of "balance c"]
    unfolding bal_sum_simps by linarith+
  have num: "lua_num (uint (balance c)) = uint (balance c)"
    "lua_add tot (uint (balance c)) = tot + uint (balance c)"
    using limit Cons.prems(2) by (auto intro!: lua_num_exact lua_add_exact)
  define db1 where "db1 = db(k := list_val (xs @ [format_coin C c]))"
  have push: "redis_rpush k (format_coin C c) db = (Inr (), db1)"
    unfolding db1_def by (rule redis_rpush_simp) (rule Cons.prems(1))
  have "db1 k = list_val (xs @ [format_coin C c])" by (simp add: db1_def)
  from Cons.IH [where db = db1 and xs = "xs @ [format_coin C c]", OF this limit(1,2)] push show ?case
    by (simp add: coin_format_simps num algebra_simps) (simp add: db1_def fun_eq_iff)
qed

definition marked :: "string \<Rightarrow> bool \<Rightarrow> keyspace \<Rightarrow> keyspace" where
  "marked ns nonempty db =
     (if nonempty
      then (let db1 = db(k_initialized ns \<mapsto> RString (show_int 1))
            in if db (k_schema ns) = None then db1(k_schema ns \<mapsto> RString (show_int 1)) else db1)
      else db)"

lemma pool_rel_marked: "pool_rel C ns db p \<Longrightarrow> pool_rel C ns (marked ns b db) p"
  by (simp add: marked_def Let_def pool_rel_marks)

lemma mark_initialized_rel:
  "schema_ok ns db \<Longrightarrow> mark_initialized ns b db = (Inr (), marked ns b db)"
  by (auto simp: mark_initialized_def schema_ok_def marked_def Let_def redis_set_def redis_get_def
      split: option.splits rval.splits)

lemma add_new_coins_rel:
  assumes "codec_ok C" and "pool_rel C ns db p" and "pool_inv p"
    and "bal_sum (avail p) + bal_sum cs \<le> 2 ^ 53"
    and "int (length (avail p)) + int (length cs) \<le> 2 ^ 53"
  shows "\<exists>db'. add_new_coins_lua ns (map (format_coin C) cs) db =
      (Inr (total_bal p + bal_sum cs, coin_count p + int (length cs)), db') \<and>
    pool_rel C ns db' (add_pool cs p)"
proof -
  define db1 where "db1 = db(k_coins ns := list_val (map (format_coin C) (avail p @ cs)))"
  define db2 where "db2 = marked ns (cs \<noteq> []) db1"
  define db3 where "db3 = db2(k_total ns \<mapsto> RString (show_int (total_bal p + bal_sum cs)))"
  define db4 where "db4 = db3(k_count ns \<mapsto> RString (show_int (coin_count p + int (length cs))))"
  have rel1: "pool_rel C ns db1 (p\<lparr>avail := avail p @ cs\<rparr>)"
    unfolding db1_def by (rule pool_rel_coins [OF assms(2)])
  have rel2: "pool_rel C ns db2 (p\<lparr>avail := avail p @ cs\<rparr>)"
    unfolding db2_def by (rule pool_rel_marked [OF rel1])
  have rel3: "pool_rel C ns db3 (p\<lparr>avail := avail p @ cs, total_bal := total_bal p + bal_sum cs\<rparr>)"
    unfolding db3_def by (rule pool_rel_total [OF rel2])
  have "pool_rel C ns db4 (add_pool cs p)"
    using pool_rel_count [OF rel3] by (simp add: db4_def add_pool_def)
  moreover have schema: "schema_ok ns db1"
    by (rule pool_relD(9) [OF rel1])
  have "add_new_coins_lua ns (map (format_coin C) cs) db =
      (Inr (total_bal p + bal_sum cs, coin_count p + int (length cs)), db4)"
  proof -
    have sum: "bal_sum cs \<le> 2 ^ 53"
      using assms(4) bal_sum_nonneg [of "avail p"] by linarith
    have loop: "add_loop (k_coins ns) 0 (map (format_coin C) cs) db = (Inr (bal_sum cs), db1)"
      using add_loop_rel [where db = db and k = "k_coins ns" and tot = 0 and cs = cs and C = C,
          OF pool_relD(1) [OF assms(2)]] sum
      by (simp add: db1_def)
    have g1: "redis_get (k_total ns) db2 = (Inr (Some (show_int (total_bal p))), db2)"
      using pool_relD(2) [OF rel2] by (simp add: redis_get_Some)
    have g2: "redis_get (k_count ns) db3 = (Inr (Some (show_int (coin_count p))), db3)"
      using pool_relD(3) [OF rel3] by (simp add: redis_get_Some)
    have tot: "lua_add (total_bal p) (bal_sum cs) = total_bal p + bal_sum cs"
      and cnt: "lua_add (coin_count p) (int (length cs)) = coin_count p + int (length cs)"
      using assms(4,5) pool_inv_bounds [OF assms(3)] by (auto intro!: lua_add_exact)
    show ?thesis
      by (simp add: add_new_coins_lua_def loop mark_initialized_rel [OF schema] db2_def [symmetric]
          g1 g2 lua_tonumber_show_int stats_readable [OF assms(3)] tot cnt redis_set_simp db3_def [symmetric]
          db4_def [symmetric] Let_def)
  qed
  ultimately show ?thesis by blast
qed

section \<open>Expiring\<close>

lemma queue_relE:
  assumes "queue_rel db k q"
  obtains zs where "db k = zset_val (map (\<lambda>(i, s). (show_nat i, s)) zs)" "distinct (map fst zs)"
    "set zs = {(i, s). q i = Some s}"
proof -
  obtain z where z: "db k = zset_val z" "distinct (map fst z)"
    "set z = {(show_nat i, s) | i s. q i = Some s}"
    using assms by (auto simp: queue_rel_def)
  have "\<forall>x \<in> set z. \<exists>y. x = (case y of (i, s) \<Rightarrow> (show_nat i, s))"
    using z(3) by auto
  then obtain zs where zs: "z = map (\<lambda>(i, s). (show_nat i, s)) zs"
    by (metis ex_map_conv)
  have fst: "map fst z = map show_nat (map fst zs)"
    by (simp add: zs split: prod.splits)
  have "set zs = {(i, s). q i = Some s}"
  proof (rule set_eqI)
    fix x :: "nat \<times> int"
    obtain i s where x: "x = (i, s)" by (cases x)
    have "(i, s) \<in> set zs \<longleftrightarrow> (show_nat i, s) \<in> set z" by (auto simp: zs)
    also have "\<dots> \<longleftrightarrow> q i = Some s" by (auto simp: z(3))
    finally show "x \<in> set zs \<longleftrightarrow> x \<in> {(i, s). q i = Some s}" by (simp add: x)
  qed
  moreover have "distinct (map fst zs)"
    using z(2) unfolding fst by (simp only: distinct_map)
  ultimately show ?thesis using that z(1) zs by blast
qed

definition del_resv :: "string \<Rightarrow> nat set \<Rightarrow> keyspace \<Rightarrow> keyspace" where
  "del_resv ns I db = (\<lambda>k. if \<exists>i \<in> I. k = nkey ns (show_nat i) then None else db k)"

lemma expire_loop_rel:
  assumes "\<And>i. i \<in> set is \<Longrightarrow> db (nkey ns (show_nat i)) = resv_val C (R i)" and "distinct is"
  shows "expire_loop ns acc (map show_nat is) db =
    (Inr (acc @ map (\<lambda>i. join_with '','' (map (show_id C) (the (R i)))) (filter (\<lambda>i. R i \<noteq> None) is)),
     del_resv ns (set is) db)"
  using assms
proof (induction "is" arbitrary: acc db)
  case Nil
  then show ?case by (simp add: del_resv_def)
next
  case (Cons i js)
  have hd: "db (nkey ns (show_nat i)) = resv_val C (R i)" using Cons.prems(1) by simp
  show ?case
  proof (cases "R i")
    case None
    then have "del_resv ns (set (i # js)) db = del_resv ns (set js) db"
      using hd by (auto simp: del_resv_def resv_val_def fun_eq_iff)
    with None hd Cons.IH [of db acc] Cons.prems show ?thesis
      by (simp add: redis_get_None resv_val_def Let_def)
  next
    case (Some ids)
    define db1 where "db1 = db(nkey ns (show_nat i) := None)"
    have "\<And>j. j \<in> set js \<Longrightarrow> db1 (nkey ns (show_nat j)) = resv_val C (R j)"
      using Cons.prems by (auto simp: db1_def)
    note IH = Cons.IH [OF this]
    have "del_resv ns (set (i # js)) db = del_resv ns (set js) db1"
      by (auto simp: del_resv_def fun_eq_iff db1_def)
    with Some hd IH Cons.prems(2) show ?thesis
      by (simp add: redis_get_Some resv_val_Some redis_del_simp db1_def [symmetric] Let_def)
  qed
qed


lemma pool_rel_del_resv:
  assumes "pool_rel C ns db p"
  shows "pool_rel C ns (del_resv ns I db) (p\<lparr>reserved := (\<lambda>i. if i \<in> I then None else reserved p i)\<rparr>)"
  using assms by (auto simp: pool_rel_def del_resv_def resv_val_def queue_rel_def next_rel_def
      lock_rel_def schema_ok_def)

lemma pool_rel_queue:
  "pool_rel C ns db p \<Longrightarrow> queue_rel (db(k_queue ns := v)) (k_queue ns) q \<Longrightarrow>
     pool_rel C ns (db(k_queue ns := v)) (p\<lparr>expiry := q\<rparr>)"
  by (simp add: pool_rel_def)

text \<open>
  The reply lists, for the reservations that have expired and are still open, the ids of their
  coins; afterwards neither the reservations nor their expiration times exist.
\<close>

lemma expire_coins_rel:
  assumes "pool_rel C ns db p"
  shows "\<exists>is db'. expire_coins_lua ns now db =
      (Inr (map (\<lambda>i. join_with '','' (map (show_id C) (the (reserved p i)))) is), db') \<and>
    distinct is \<and> set is = {i. expired_at (lua_num now) p i \<and> reserved p i \<noteq> None} \<and>
    pool_rel C ns db' (expire_pool (lua_num now) p)"
proof -
  let ?due = "\<lambda>s. 0 \<le> s \<and> s \<le> lua_num now"
  obtain zs where zs: "db (k_queue ns) = zset_val (map (\<lambda>(i, s). (show_nat i, s)) zs)"
    "distinct (map fst zs)" "set zs = {(i, s). expiry p i = Some s}"
    using queue_relE [OF pool_relD(5) [OF assms]] by metis
  define due where "due = map fst (filter (\<lambda>(i, s). ?due s) zs)"
  have elems: "map fst (filter (in_score 0 (lua_num now)) (map (\<lambda>(i, s). (show_nat i, s)) zs)) =
      map show_nat due"
    by (auto simp: due_def filter_map comp_def in_score_def case_prod_unfold)
  have rest: "filter (\<lambda>p. \<not> in_score 0 (lua_num now) p) (map (\<lambda>(i, s). (show_nat i, s)) zs) =
      map (\<lambda>(i, s). (show_nat i, s)) (filter (\<lambda>(i, s). \<not> ?due s) zs)"
    by (auto simp: filter_map comp_def in_score_def case_prod_unfold)
  have dist: "distinct due"
    unfolding due_def by (rule distinct_map_filter [OF zs(2)])
  have due: "i \<in> set due \<longleftrightarrow> expired_at (lua_num now) p i" for i
    using zs(3) by (force simp: due_def expired_at_def split: option.splits)
  let ?is = "filter (\<lambda>i. reserved p i \<noteq> None) due"
  let ?reply = "map (\<lambda>i. join_with '','' (map (show_id C) (the (reserved p i)))) ?is"
  define db1 where "db1 = del_resv ns (set due) db"
  define q where "q = (\<lambda>i. if expired_at (lua_num now) p i then None else expiry p i)"
  define db2 where "db2 = db1(k_queue ns :=
      zset_val (map (\<lambda>(i, s). (show_nat i, s)) (filter (\<lambda>(i, s). \<not> ?due s) zs)))"
  have k1: "db1 (k_queue ns) = zset_val (map (\<lambda>(i, s). (show_nat i, s)) zs)"
    using zs(1) by (auto simp: db1_def del_resv_def)
  have zr: "redis_zrangebyscore (k_queue ns) 0 (lua_num now) db = (Inr (map show_nat due), db)"
    using redis_zrangebyscore_simp [where db = db and lo = 0 and hi = "lua_num now", OF zs(1)]
    unfolding elems .
  have zd: "redis_zremrangebyscore (k_queue ns) 0 (lua_num now) db1 = (Inr (), db2)"
    using redis_zremrangebyscore_simp [where db = db1 and lo = 0 and hi = "lua_num now", OF k1]
    unfolding rest db2_def .
  have loop: "expire_loop ns [] (map show_nat due) db = (Inr ?reply, db1)"
    using expire_loop_rel [where db = db and R = "reserved p" and C = C and acc = "[]",
        OF pool_relD(4) [OF assms] dist] by (simp add: db1_def)
  have rel1: "pool_rel C ns db1 (p\<lparr>reserved := reserved (expire_pool (lua_num now) p)\<rparr>)"
    using pool_rel_del_resv [OF assms, of "set due"] by (simp add: db1_def due expire_pool_def)
  have "queue_rel db2 (k_queue ns) (expiry (expire_pool (lua_num now) p))"
  proof -
    let ?rest = "filter (\<lambda>(i, s). \<not> ?due s) zs"
    have "distinct (map fst (map (\<lambda>(i, s). (show_nat i, s)) ?rest))"
      using distinct_map_filter [OF zs(2), of "\<lambda>(i, s). \<not> ?due s"]
      by (auto simp: distinct_map inj_on_def case_prod_unfold comp_def)
    moreover have "set (map (\<lambda>(i, s). (show_nat i, s)) ?rest) =
        {(show_nat i, s) | i s. expiry (expire_pool (lua_num now) p) i = Some s}"
      using zs(3) by (auto simp: expire_pool_def expired_at_def split: option.splits if_splits)
    ultimately show ?thesis by (auto simp: queue_rel_def db2_def)
  qed
  from pool_rel_queue [OF rel1 this [unfolded db2_def]]
  have rel2: "pool_rel C ns db2 (expire_pool (lua_num now) p)"
    by (simp add: db2_def expire_pool_def)
  have set_is: "set ?is = {i. expired_at (lua_num now) p i \<and> reserved p i \<noteq> None}"
    using due by auto
  show ?thesis
  proof (cases "due = []")
    case True
    have "expire_pool (lua_num now) p = p"
      using due True by (simp add: expire_pool_def)
    moreover have "expire_coins_lua ns now db = (Inr [], db)"
      using zr True by (simp add: expire_coins_lua_def)
    ultimately show ?thesis
      using assms set_is True by (intro exI [of _ "[]"] exI [of _ db]) simp
  next
    case False
    then have "expire_coins_lua ns now db = (Inr ?reply, db2)"
      using zr loop zd by (simp add: expire_coins_lua_def)
    with rel2 set_is dist show ?thesis
      by (intro exI [of _ ?is] exI [of _ db2]) simp
  qed
qed

end
