(* ===== verification/Pool_Effects.thy ===== *)
theory Pool_Effects
  imports Pool_Refine
begin

text \<open>
  The remaining scripts, and the behaviour of all of them without the bounds of the exact range:
  whatever the sums are rounded to, coins only move from the free list into a new reservation, or
  are appended. The system-wide safety of the pool rests on these facts.
\<close>

section \<open>Reserving when the reservation counter is exhausted\<close>

lemma redis_incr_full:
  "next_rel db k n \<Longrightarrow> \<not> n < 2 ^ 63 - 1 \<Longrightarrow> redis_incr k db = (Inl NotInteger, db)"
proof -
  assume rel: "next_rel db k n" and n: "\<not> n < 2 ^ 63 - 1"
  then have v: "db k = Some (RString (show_nat n))" by (auto simp: next_rel_def)
  have "\<not> i64_range (int n + 1)"
    using n by (simp add: i64_range_def)
  with v show ?thesis by (simp add: redis_incr_def)
qed

lemma reserve_exhausted_lua:
  assumes "codec_ok C" and "pool_rel C ns db p" and "\<not> lua_locked (lua_num now) p"
    and "lua_select (lua_num budget) (avail p) = (n, t)" and "\<not> t < lua_num budget"
    and "\<not> next_id p < 2 ^ 63 - 1"
  shows "\<exists>db' tot cnt. reserve_gas_coins_lua ns budget expiration now db = (Inl NotInteger, db') \<and>
    pool_rel C ns db' (p\<lparr>avail := drop n (avail p), total_bal := tot, coin_count := cnt\<rparr>)"
proof -
  let ?cs = "take n (avail p)"
  let ?tot = "lua_sub (lua_num (total_bal p)) t" and ?cnt = "lua_sub (lua_num (coin_count p)) (int n)"
  have len: "length ?cs = n"
    using lua_taken_le [of "lua_num budget" max_gas_per_query 0 "avail p" n t] assms(4)
    by (simp add: lua_select_def)
  define db1 where "db1 = db(k_coins ns := list_val (map (format_coin C) (drop n (avail p))))"
  define db2 where "db2 = db1(k_total ns \<mapsto> RString (show_int ?tot))"
  define db3 where "db3 = db2(k_count ns \<mapsto> RString (show_int ?cnt))"
  have "pool_rel C ns db1 (p\<lparr>avail := drop n (avail p)\<rparr>)"
    unfolding db1_def by (rule pool_rel_coins [OF assms(2)])
  then have "pool_rel C ns db2 (p\<lparr>avail := drop n (avail p), total_bal := ?tot\<rparr>)"
    unfolding db2_def by (rule pool_rel_total)
  then have rel3: "pool_rel C ns db3
      (p\<lparr>avail := drop n (avail p), total_bal := ?tot, coin_count := ?cnt\<rparr>)"
    unfolding db3_def by (rule pool_rel_count)
  have g1: "redis_get (k_total ns) db1 = (Inr (Some (show_int (total_bal p))), db1)"
    and g2: "redis_get (k_count ns) db2 = (Inr (Some (show_int (coin_count p))), db2)"
    using pool_relD(2,3) [OF assms(2)] by (auto simp: db1_def db2_def intro!: redis_get_Some)
  have inc: "redis_incr (k_next ns) db3 = (Inl NotInteger, db3)"
    using pool_relD(6) [OF rel3] assms(6) by (simp add: redis_incr_full)
  have "reserve_gas_coins_lua ns budget expiration now db = (Inl NotInteger, db3)"
    using not_lua_locked [OF assms(3)] assms(5)
    by (simp add: reserve_gas_coins_lua_def maintenance_lock_time [OF assms(2)]
        take_coins_pool [OF assms(1,2,4), folded db1_def] g1 lua_tonumber_show_int redis_set_simp
        db2_def [symmetric] g2 len [simplified] db3_def [symmetric] inc Let_def)
  with rel3 show ?thesis by blast
qed

section \<open>Adding without bounds\<close>

fun lua_bal_sum :: "int \<Rightarrow> ('id, 'dg) gas_coin list \<Rightarrow> int" where
  "lua_bal_sum tot [] = tot"
| "lua_bal_sum tot (c # cs) = lua_bal_sum (lua_add tot (lua_num (uint (balance c)))) cs"

lemma add_loop_lua:
  "db k = list_val xs \<Longrightarrow>
   add_loop k tot (map (format_coin C) cs) db =
     (Inr (lua_bal_sum tot cs), db(k := list_val (xs @ map (format_coin C) cs)))"
proof (induction cs arbitrary: db tot xs)
  case Nil
  then show ?case by (simp add: fun_upd_idem)
next
  case (Cons c cs)
  define db1 where "db1 = db(k := list_val (xs @ [format_coin C c]))"
  have push: "redis_rpush k (format_coin C c) db = (Inr (), db1)"
    unfolding db1_def by (rule redis_rpush_simp) (rule Cons.prems)
  have "db1 k = list_val (xs @ [format_coin C c])" by (simp add: db1_def)
  from Cons.IH [where db = db1 and xs = "xs @ [format_coin C c]", OF this] push show ?case
    by (simp add: coin_format_simps) (simp add: db1_def fun_eq_iff)
qed

lemma add_new_coins_lua_effect:
  assumes "codec_ok C" and "pool_rel C ns db p"
  shows "\<exists>db' tot cnt. add_new_coins_lua ns (map (format_coin C) cs) db = (Inr (tot, cnt), db') \<and>
    pool_rel C ns db' (p\<lparr>avail := avail p @ cs, total_bal := tot, coin_count := cnt\<rparr>)"
proof -
  let ?tot = "lua_add (lua_num (total_bal p)) (lua_bal_sum 0 cs)"
  let ?cnt = "lua_add (lua_num (coin_count p)) (int (length cs))"
  define db1 where "db1 = db(k_coins ns := list_val (map (format_coin C) (avail p @ cs)))"
  define db2 where "db2 = marked ns (cs \<noteq> []) db1"
  define db3 where "db3 = db2(k_total ns \<mapsto> RString (show_int ?tot))"
  define db4 where "db4 = db3(k_count ns \<mapsto> RString (show_int ?cnt))"
  have rel1: "pool_rel C ns db1 (p\<lparr>avail := avail p @ cs\<rparr>)"
    unfolding db1_def by (rule pool_rel_coins [OF assms(2)])
  have rel2: "pool_rel C ns db2 (p\<lparr>avail := avail p @ cs\<rparr>)"
    unfolding db2_def by (rule pool_rel_marked [OF rel1])
  have rel3: "pool_rel C ns db3 (p\<lparr>avail := avail p @ cs, total_bal := ?tot\<rparr>)"
    unfolding db3_def by (rule pool_rel_total [OF rel2])
  have rel4: "pool_rel C ns db4
      (p\<lparr>avail := avail p @ cs, total_bal := ?tot, coin_count := ?cnt\<rparr>)"
    unfolding db4_def by (rule pool_rel_count [OF rel3])
  have loop: "add_loop (k_coins ns) 0 (map (format_coin C) cs) db = (Inr (lua_bal_sum 0 cs), db1)"
    using add_loop_lua [where db = db and k = "k_coins ns" and tot = 0 and cs = cs and C = C,
        OF pool_relD(1) [OF assms(2)]]
    by (simp add: db1_def)
  have g1: "redis_get (k_total ns) db2 = (Inr (Some (show_int (total_bal p))), db2)"
    using pool_relD(2) [OF rel2] by (simp add: redis_get_Some)
  have g2: "redis_get (k_count ns) db3 = (Inr (Some (show_int (coin_count p))), db3)"
    using pool_relD(3) [OF rel3] by (simp add: redis_get_Some)
  have "add_new_coins_lua ns (map (format_coin C) cs) db = (Inr (?tot, ?cnt), db4)"
    by (simp add: add_new_coins_lua_def loop mark_initialized_rel [OF pool_relD(9) [OF rel1]]
        db2_def [symmetric] g1 g2 lua_tonumber_show_int redis_set_simp db3_def [symmetric]
        db4_def [symmetric] Let_def)
  with rel4 show ?thesis by blast
qed

section \<open>Locks\<close>

text \<open>
  What a lock promises: it is taken exactly when its deadline has passed, and then its deadline
  moves to the end of the new period. Both locks of the pool run the same code.
\<close>

definition lock_free :: "int \<Rightarrow> int option \<Rightarrow> bool" where
  "lock_free now l \<longleftrightarrow> (case l of None \<Rightarrow> True | Some t \<Rightarrow> t < now)"

definition lock_acquire :: "int \<Rightarrow> int \<Rightarrow> int option \<Rightarrow> bool \<times> int option" where
  "lock_acquire now dur l = (if lock_free now l then (True, Some (now + dur)) else (False, l))"

text \<open>
  The interface: a place \<open>k\<close> of a state \<open>'s\<close> holds a lock, \<open>deadline\<close> reads it, and the three
  operations act on it as the abstract lock does.
\<close>

locale timed_lock =
  fixes deadline :: "'s \<Rightarrow> int option \<Rightarrow> bool"
    and acquire :: "int \<Rightarrow> int \<Rightarrow> 's \<Rightarrow> bool \<times> 's"
    and release :: "'s \<Rightarrow> 's"
    and in_range :: "int \<Rightarrow> int \<Rightarrow> bool"
  assumes acquire_law: "deadline s l \<Longrightarrow> lock_ok l \<Longrightarrow> in_range now dur \<Longrightarrow>
      fst (acquire now dur s) = fst (lock_acquire now dur l) \<and>
      deadline (snd (acquire now dur s)) (snd (lock_acquire now dur l))"
    and release_law: "deadline (release s) (Some 0)"
    and range_law: "in_range now dur \<Longrightarrow> 0 < now \<and> 0 \<le> dur \<and> now + dur \<le> 2 ^ 53"
begin

lemma lock_acquire_ok:
  "lock_ok l \<Longrightarrow> in_range now dur \<Longrightarrow> lock_ok (snd (lock_acquire now dur l))"
  using range_law [of now dur] by (auto simp: lock_acquire_def lock_ok_def)

text \<open>Once acquired, nobody acquires the lock again before its period is over.\<close>

lemma exclusive:
  assumes "deadline s l" and "lock_ok l" and "in_range now dur" and "fst (acquire now dur s)"
    and "in_range now' dur'" and "now' \<le> now + dur"
  shows "\<not> fst (acquire now' dur' (snd (acquire now dur s)))"
proof -
  have free: "fst (lock_acquire now dur l)"
    and d: "deadline (snd (acquire now dur s)) (snd (lock_acquire now dur l))"
    using acquire_law [OF assms(1,2,3)] assms(4) by simp_all
  have "snd (lock_acquire now dur l) = Some (now + dur)"
    using free by (auto simp: lock_acquire_def split: if_splits)
  with acquire_law [OF d lock_acquire_ok [OF assms(2,3)] assms(5)] assms(6) show ?thesis
    by (simp add: lock_acquire_def lock_free_def)
qed

text \<open>A crashed holder does not block the others for ever: after the period the lock is free.\<close>

lemma expires:
  assumes "deadline s (Some t)" and "lock_ok (Some t)" and "in_range now dur" and "t < now"
  shows "fst (acquire now dur s)"
  using acquire_law [OF assms(1-3)] assms(4) by (simp add: lock_acquire_def lock_free_def)

lemma released:
  assumes "in_range now dur"
  shows "fst (acquire now dur (release s))"
  by (rule expires [OF release_law _ assms]) (use range_law [OF assms] in \<open>auto simp: lock_ok_def\<close>)

end

text \<open>The reply of a script that cannot fail on a well-formed keyspace.\<close>

definition run_lock :: "bool script \<Rightarrow> keyspace \<Rightarrow> bool \<times> keyspace" where
  "run_lock s db = (case s db of (Inr b, db') \<Rightarrow> (b, db') | (Inl e, db') \<Rightarrow> (False, db'))"

definition lock_range :: "int \<Rightarrow> int \<Rightarrow> bool" where
  "lock_range now dur \<longleftrightarrow> 0 < now \<and> 0 \<le> dur \<and> now + dur \<le> 2 ^ 53"

lemma acquire_lock_rel:
  assumes "lock_rel db k l" and "lock_ok l" and "lock_range now dur"
  shows "acquire_lock k now dur db =
     (Inr (fst (lock_acquire now dur l)),
      if lock_free now l then db(k \<mapsto> RString (show_int (now + dur))) else db)"
proof -
  have "lua_num now = now" "lua_num dur = dur" "lua_add now dur = now + dur"
    using assms(3) by (auto simp: lock_range_def intro!: lua_num_exact lua_add_exact)
  with lock_time_rel [OF assms(1)] lock_ok_exact [OF assms(2)] show ?thesis
    by (cases l) (auto simp: acquire_lock_def lock_acquire_def lock_free_def redis_set_simp)
qed

lemma acquire_lock_law:
  assumes "lock_rel db k l" and "lock_ok l" and "lock_range now dur"
  shows "fst (run_lock (acquire_lock k now dur) db) = fst (lock_acquire now dur l) \<and>
     lock_rel (snd (run_lock (acquire_lock k now dur) db)) k (snd (lock_acquire now dur l))"
  unfolding run_lock_def acquire_lock_rel [OF assms]
  using assms(1) by (auto simp: lock_acquire_def lock_rel_def)

lemma lock_rel_set: "lock_rel (db(k \<mapsto> RString (show_int t))) k (Some t)"
  by (simp add: lock_rel_def)

interpretation init_lock_op: timed_lock "\<lambda>db. lock_rel db (k_init_lock ns)"
  "\<lambda>now dur. run_lock (acquire_init_lock_lua ns now dur)" "\<lambda>db. snd (release_init_lock_lua ns db)"
  lock_range for ns
  by unfold_locales
    (simp_all add: acquire_init_lock_lua_def acquire_lock_law release_init_lock_lua_def
      redis_set_simp lock_rel_set, simp_all add: lock_range_def)

interpretation maintenance_lock_op: timed_lock "\<lambda>db. lock_rel db (k_maintenance ns)"
  "\<lambda>now dur. run_lock (acquire_maintenance_lock_lua ns now dur)"
  "\<lambda>db. snd (release_maintenance_lock_lua ns db)" lock_range for ns
  by unfold_locales
    (simp_all add: acquire_maintenance_lock_lua_def acquire_lock_law release_maintenance_lock_lua_def
      redis_set_simp lock_rel_set, simp_all add: lock_range_def)

lemma is_maintenance_mode_rel:
  assumes "pool_rel C ns db p" and "pool_inv p"
  shows "is_maintenance_mode_lua ns now db = (Inr (in_maintenance (lua_num now) p), db)"
  using maintenance_lock_time [OF assms(1)] lock_ok_exact [OF pool_inv_bounds(6) [OF assms(2)]]
  by (cases "maintenance p") (auto simp: is_maintenance_mode_lua_def in_maintenance_def)


section \<open>Statistics at startup\<close>

text \<open>A stored statistic is kept, a missing one is computed from the list of free coins.\<close>

lemma sum_balances_rel:
  "0 \<le> tot \<Longrightarrow> tot + bal_sum cs \<le> 2 ^ 53 \<Longrightarrow>
     sum_balances tot (map (format_coin C) cs) db = (Inr (tot + bal_sum cs), db)"
proof (induction cs arbitrary: tot)
  case Nil
  then show ?case by simp
next
  case (Cons c cs)
  have limit: "0 \<le> tot + uint (balance c)" "tot + uint (balance c) + bal_sum cs \<le> 2 ^ 53"
    "tot + uint (balance c) \<le> 2 ^ 53" "uint (balance c) \<le> 2 ^ 53"
    using Cons.prems bal_sum_nonneg [of cs] uint_ge_0 [of "balance c"]
    unfolding bal_sum_simps by linarith+
  have "lua_num (uint (balance c)) = uint (balance c)"
    and "lua_add tot (uint (balance c)) = tot + uint (balance c)"
    using limit Cons.prems(1) by (auto intro!: lua_num_exact lua_add_exact)
  with Cons.IH [OF limit(1,2)] show ?case by (simp add: coin_format_simps algebra_simps)
qed

text \<open>
  \<open>fresh_rel\<close>: a keyspace on which the statistics are not set up yet but which otherwise represents
  the pool, as a new installation does with the empty pool.
\<close>

definition stat_rel :: "keyspace \<Rightarrow> string \<Rightarrow> int \<Rightarrow> bool" where
  "stat_rel db k i \<longleftrightarrow> db k = None \<or> db k = Some (RString (show_int i))"

definition fresh_rel :: "('id, 'dg) codec \<Rightarrow> string \<Rightarrow> keyspace \<Rightarrow> ('id, 'dg) pool \<Rightarrow> bool" where
  "fresh_rel C ns db p \<longleftrightarrow>
     stat_rel db (k_total ns) (total_bal p) \<and> stat_rel db (k_count ns) (coin_count p) \<and>
     pool_rel C ns (db(k_total ns \<mapsto> RString (show_int (total_bal p)),
                       k_count ns \<mapsto> RString (show_int (coin_count p)))) p"

lemma init_stats_rel:
  assumes "codec_ok C" and "fresh_rel C ns db p" and "pool_inv p"
  shows "\<exists>db'. init_coin_stats_at_startup_lua ns db = (Inr (coin_count p, total_bal p), db') \<and>
    pool_rel C ns db' p \<and> db' (k_schema ns) \<noteq> None"
proof -
  let ?full = "db(k_total ns \<mapsto> RString (show_int (total_bal p)),
                  k_count ns \<mapsto> RString (show_int (coin_count p)))"
  have rel: "pool_rel C ns ?full p"
    and tot: "stat_rel db (k_total ns) (total_bal p)" and cnt: "stat_rel db (k_count ns) (coin_count p)"
    using assms(2) by (simp_all add: fresh_rel_def)
  define db1 where "db1 = db(k_count ns \<mapsto> RString (show_int (coin_count p)))"
  define db2 where "db2 = db1(k_total ns \<mapsto> RString (show_int (total_bal p)))"
  define db3 where "db3 = (if db (k_schema ns) = None then db2(k_schema ns \<mapsto> RString (show_int 1))
                           else db2)"
  have full: "db2 = ?full"
    by (simp add: db2_def db1_def fun_upd_twist)
  have rel3: "pool_rel C ns db3 p"
    using rel by (simp add: db3_def full pool_rel_marks)
  have coins: "db (k_coins ns) = list_val (map (format_coin C) (avail p))"
    using pool_relD(1) [OF rel] by simp
  have coins1: "db1 (k_coins ns) = list_val (map (format_coin C) (avail p))"
    using coins by (simp add: db1_def)
  have len: "show_nat (length (avail p)) = show_int (coin_count p)" "int (length (avail p)) = coin_count p"
    using pool_inv_bounds(3) [OF assms(3)] by simp_all
  have all: "redis_lall (k_coins ns) db1 = (Inr (map (format_coin C) (avail p)), db1)"
    by (rule redis_lall_simp) (rule coins1)
  have llen: "redis_llen (k_coins ns) db = (Inr (length (avail p)), db)"
    using redis_llen_simp [where db = db, OF coins] by simp
  have sum: "sum_balances 0 (map (format_coin C) (avail p)) db1 = (Inr (total_bal p), db1)"
    using sum_balances_rel [of 0 "avail p" C db1] pool_inv_bounds(1,2) [OF assms(3)] by simp
  have c: "db (k_count ns) = None \<or> db1 = db \<and> db (k_count ns) = Some (RString (show_int (coin_count p)))"
    using cnt by (auto simp: stat_rel_def db1_def fun_upd_idem)
  have t: "db1 (k_total ns) = None \<or>
      db2 = db1 \<and> db1 (k_total ns) = Some (RString (show_int (total_bal p)))"
    using tot by (auto simp: stat_rel_def db1_def db2_def fun_upd_idem)
  have schema: "schema_ok ns db2" using pool_relD(9) [OF rel] by (simp add: full)
  have g3: "db2 (k_schema ns) = db (k_schema ns)" by (simp add: db2_def db1_def)
  have get1: "sbind (redis_get (k_count ns)) (\<lambda>cur_count.
      case cur_count of
        Some s \<Rightarrow> stored_int (Some s)
      | None \<Rightarrow> sbind (redis_llen (k_coins ns)) (\<lambda>n.
          sseq (redis_set (k_count ns) (show_nat n)) (sret (int n)))) db = (Inr (coin_count p), db1)"
    using c by (auto simp: redis_get_None redis_get_Some llen len redis_set_simp stored_int_def db1_def)
  have get2: "sbind (redis_get (k_total ns)) (\<lambda>cur_total.
      case cur_total of
        Some s \<Rightarrow> stored_int (Some s)
      | None \<Rightarrow> sbind (redis_lall (k_coins ns)) (\<lambda>elements.
          sbind (sum_balances 0 elements) (\<lambda>tot.
          sseq (redis_set (k_total ns) (show_int tot)) (sret tot)))) db1 = (Inr (total_bal p), db2)"
    using t by (auto simp: redis_get_None redis_get_Some all sum redis_set_simp stored_int_def db2_def)
  have "init_coin_stats_at_startup_lua ns db = (Inr (coin_count p, total_bal p), db3)"
    using get1 get2 schema g3
    by (auto simp: init_coin_stats_at_startup_lua_def schema_ok_def redis_get_def redis_set_simp
        db3_def split: option.splits rval.splits sum.splits prod.splits)
  moreover have "db3 (k_schema ns) \<noteq> None"
    by (simp add: db3_def g3)
  ultimately show ?thesis using rel3 by blast
qed

section \<open>Cleaning up\<close>

lemma clean_up_loop_rel:
  "clean_up_loop ns n batches db =
     (Inr (n + length (keys_to_delete ns (concat batches))),
      \<lambda>k. if k \<in> set (keys_to_delete ns (concat batches)) then None else db k)"
proof (induction batches arbitrary: n db)
  case Nil
  then show ?case by (simp add: keys_to_delete_def)
next
  case (Cons keys batches)
  show ?case
    by (auto simp: Cons.IH redis_del_def keys_to_delete_def Let_def fun_eq_iff filter_empty_conv)
qed

text \<open>
  What Redis guarantees of a full \<open>SCAN\<close> with the pattern \<open>namespace:*\<close> during which nobody else
  writes (a script runs alone): every matching key is returned, and only matching keys.
\<close>

definition scan_complete :: "string \<Rightarrow> keyspace \<Rightarrow> string list list \<Rightarrow> bool" where
  "scan_complete ns db batches \<longleftrightarrow>
     (\<forall>k \<in> dom db. starts_with (ns @ '':'') k \<longrightarrow> k \<in> set (concat batches)) \<and>
     (\<forall>k \<in> set (concat batches). starts_with (ns @ '':'') k)"

lemma clean_up_complete:
  assumes "scan_complete ns db batches"
  shows "snd (clean_up_coin_registry_lua ns batches db) k =
    (if starts_with (ns @ '':'') k \<and> k \<noteq> k_maintenance ns \<and> k \<noteq> k_init_lock ns then None else db k)"
  using assms
  by (auto simp: clean_up_coin_registry_lua_def clean_up_loop_rel keys_to_delete_def scan_complete_def
      dom_def simp del: set_concat)

end
