(* ===== verification/Effects.thy ===== *)
theory Effects
  imports Gas_Types
begin

text \<open>
  Effectful Rust code. An async function of the server is a \<open>prog\<close>: it takes the world and gives a
  result (a value, an \<open>anyhow\<close> error or a panic) and the world it leaves; what was done before an
  error stays done. \<open>?\<close> is \<open>pbind\<close>, code that inspects a \<open>Result\<close> itself uses \<open>ptry\<close>, which hands
  the error over as a value but lets a panic through.

  \<open>retry_with_max_attempts!(f, n)\<close> of \<open>src/src/errors.rs\<close> hands \<open>n\<close> delays to \<open>tokio_retry\<close>,
  which calls \<open>f\<close> once and then once per delay as long as it fails. \<open>retry_forever!\<close> has no last
  delay; the model gives it a number of calls after which it counts as hanging.

  The part of the world every component shares is the Redis keyspace, the wall clock, the faults of
  the network and the metrics. The clock is the list of the readings to come, in milliseconds; the
  last reading is repeated. The faults are those of the coming requests to Redis: a request may be
  lost before it arrives, or its reply may be lost after the script has run, so that the caller sees
  an error although the effect took place. A script error is an error of the request; the writes
  the script made before it stay.
\<close>

section \<open>Programs\<close>

type_synonym ('w, 'a) prog = "'w \<Rightarrow> 'a result \<times> 'w"

definition pret :: "'a \<Rightarrow> ('w, 'a) prog" where
  "pret a w = (Ok a, w)"

definition perr :: "error \<Rightarrow> ('w, 'a) prog" where
  "perr e w = (Err e, w)"

definition ppanic :: "string \<Rightarrow> ('w, 'a) prog" where
  "ppanic m w = (Panic m, w)"

definition plift :: "'a result \<Rightarrow> ('w, 'a) prog" where
  "plift r w = (r, w)"

definition pbind :: "('w, 'a) prog \<Rightarrow> ('a \<Rightarrow> ('w, 'b) prog) \<Rightarrow> ('w, 'b) prog" where
  "pbind m f w = (case m w of
     (Ok a, w') \<Rightarrow> f a w'
   | (Err e, w') \<Rightarrow> (Err e, w')
   | (Panic s, w') \<Rightarrow> (Panic s, w')
   | (Hang, w') \<Rightarrow> (Hang, w'))"

definition pseq :: "('w, 'a) prog \<Rightarrow> ('w, 'b) prog \<Rightarrow> ('w, 'b) prog" where
  "pseq m n = pbind m (\<lambda>_. n)"

text \<open>The \<open>Result\<close> of a call as a value.\<close>

definition ptry :: "('w, 'a) prog \<Rightarrow> ('w, error + 'a) prog" where
  "ptry m w = (case m w of
     (Ok a, w') \<Rightarrow> (Ok (Inr a), w')
   | (Err e, w') \<Rightarrow> (Ok (Inl e), w')
   | (Panic s, w') \<Rightarrow> (Panic s, w')
   | (Hang, w') \<Rightarrow> (Hang, w'))"

definition pget :: "('w \<Rightarrow> 'a) \<Rightarrow> ('w, 'a) prog" where
  "pget f w = (Ok (f w), w)"

definition pmodify :: "('w \<Rightarrow> 'w) \<Rightarrow> ('w, unit) prog" where
  "pmodify f w = (Ok (), f w)"

text \<open>\<open>result.unwrap()\<close> on the result of a call.\<close>

definition punwrap :: "('w, 'a) prog \<Rightarrow> ('w, 'a) prog" where
  "punwrap m w = (case m w of
     (Err e, w') \<Rightarrow> (Panic (error_to_string e), w')
   | r \<Rightarrow> r)"

text \<open>\<open>.context(message)\<close> on the result of a call.\<close>

definition pcontext :: "string \<Rightarrow> ('w, 'a) prog \<Rightarrow> ('w, 'a) prog" where
  "pcontext message m w = (case m w of (r, w') \<Rightarrow> (with_context message r, w'))"

fun pmap :: "('a \<Rightarrow> ('w, 'b) prog) \<Rightarrow> 'a list \<Rightarrow> ('w, 'b list) prog" where
  "pmap f [] = pret []"
| "pmap f (x # xs) = pbind (f x) (\<lambda>y. pbind (pmap f xs) (\<lambda>ys. pret (y # ys)))"

definition pwhen :: "bool \<Rightarrow> ('w, unit) prog \<Rightarrow> ('w, unit) prog" where
  "pwhen b m = (if b then m else pret ())"

fun retry_with_max_attempts :: "('w, 'a) prog \<Rightarrow> nat \<Rightarrow> ('w, 'a) prog" where
  "retry_with_max_attempts f 0 w = f w"
| "retry_with_max_attempts f (Suc n) w =
     (case f w of (Err e, w') \<Rightarrow> retry_with_max_attempts f n w' | r \<Rightarrow> r)"

fun retry_forever :: "nat \<Rightarrow> ('w, 'a) prog \<Rightarrow> ('w, 'a) prog" where
  "retry_forever 0 f w = (Hang, w)"
| "retry_forever (Suc n) f w =
     (case f w of (Err e, w') \<Rightarrow> retry_forever n f w' | r \<Rightarrow> r)"

lemma prog_simps [simp]:
  "pret a w = (Ok a, w)" "perr e w = (Err e, w)" "ppanic m w = (Panic m, w)" "plift r w = (r, w)"
  "pget f w = (Ok (f w), w)" "pmodify h w = (Ok (), h w)"
  by (simp_all add: pret_def perr_def ppanic_def plift_def pget_def pmodify_def)

lemma pbind_apply [simp]:
  "pbind m f w = (case m w of
     (Ok a, w') \<Rightarrow> f a w' | (Err e, w') \<Rightarrow> (Err e, w') | (Panic s, w') \<Rightarrow> (Panic s, w')
   | (Hang, w') \<Rightarrow> (Hang, w'))"
  by (simp add: pbind_def)

lemma pseq_apply [simp]:
  "pseq m n w = (case m w of
     (Ok a, w') \<Rightarrow> n w' | (Err e, w') \<Rightarrow> (Err e, w') | (Panic s, w') \<Rightarrow> (Panic s, w')
   | (Hang, w') \<Rightarrow> (Hang, w'))"
  by (simp add: pseq_def)

lemma ptry_apply [simp]:
  "ptry m w = (case m w of
     (Ok a, w') \<Rightarrow> (Ok (Inr a), w') | (Err e, w') \<Rightarrow> (Ok (Inl e), w')
   | (Panic s, w') \<Rightarrow> (Panic s, w') | (Hang, w') \<Rightarrow> (Hang, w'))"
  by (simp add: ptry_def)

lemma punwrap_apply [simp]:
  "punwrap m w = (case m w of
     (Ok a, w') \<Rightarrow> (Ok a, w') | (Err e, w') \<Rightarrow> (Panic (error_to_string e), w')
   | (Panic s, w') \<Rightarrow> (Panic s, w') | (Hang, w') \<Rightarrow> (Hang, w'))"
  by (auto simp: punwrap_def split: prod.splits result.splits)

lemma pcontext_apply [simp]:
  "pcontext message m w = (case m w of
     (Ok a, w') \<Rightarrow> (Ok a, w') | (Err e, w') \<Rightarrow> (Err (Context message e), w')
   | (Panic s, w') \<Rightarrow> (Panic s, w') | (Hang, w') \<Rightarrow> (Hang, w'))"
  by (auto simp: pcontext_def split: prod.splits result.splits)

lemma pbind_Ok: "pbind m f w = (Ok b, w') \<longleftrightarrow> (\<exists>a w1. m w = (Ok a, w1) \<and> f a w1 = (Ok b, w'))"
  by (simp split: prod.splits result.splits)

lemma pseq_Ok: "pseq m n w = (Ok b, w') \<longleftrightarrow> (\<exists>a w1. m w = (Ok a, w1) \<and> n w1 = (Ok b, w'))"
  by (simp add: pseq_def pbind_Ok del: pseq_apply pbind_apply)

lemma pwhen_apply [simp]: "pwhen b m w = (if b then m w else (Ok (), w))"
  by (simp add: pwhen_def)

text \<open>A loop that retries for ever has no error outcome.\<close>

definition no_err :: "('w, 'a) prog \<Rightarrow> bool" where
  "no_err m \<longleftrightarrow> (\<forall>w e. fst (m w) \<noteq> Err e)"

lemma no_err_retry_forever: "no_err (retry_forever n f)"
proof -
  have "fst (retry_forever n f w) \<noteq> Err e" for w e
    by (induction n arbitrary: w) (auto split: prod.splits result.splits)
  then show ?thesis by (simp add: no_err_def)
qed

lemma no_err_pret: "no_err (pret a)"
  by (simp add: no_err_def)

lemma no_err_pbind: "no_err m \<Longrightarrow> (\<And>a. no_err (f a)) \<Longrightarrow> no_err (pbind m f)"
  unfolding no_err_def by (auto split: prod.splits result.splits) (metis fst_conv)+

lemma no_err_pmap: "(\<And>x. no_err (f x)) \<Longrightarrow> no_err (pmap f xs)"
proof (induction xs)
  case Nil
  then show ?case by (simp add: no_err_def)
next
  case (Cons x xs)
  then show ?case unfolding pmap.simps by (intro no_err_pbind no_err_pret) simp_all
qed

subsection \<open>What a program keeps\<close>

text \<open>
  \<open>keeps P m\<close>: \<open>m\<close> preserves \<open>P\<close>, whatever its outcome. The rules follow the structure of a program,
  so that a component is checked call by call; \<open>P\<close> may say that a part of the world is unchanged.
\<close>

definition keeps :: "('w \<Rightarrow> bool) \<Rightarrow> ('w, 'a) prog \<Rightarrow> bool" where
  "keeps P m \<longleftrightarrow> (\<forall>w. P w \<longrightarrow> P (snd (m w)))"

named_theorems keeps_rules \<open>structural rules for keeps\<close>

lemma keepsI: "(\<And>w. P w \<Longrightarrow> P (snd (m w))) \<Longrightarrow> keeps P m"
  by (simp add: keeps_def)

lemma keepsD: "keeps P m \<Longrightarrow> P w \<Longrightarrow> m w = (r, w') \<Longrightarrow> P w'"
  unfolding keeps_def by (metis snd_conv)

lemma keeps_basic [keeps_rules]:
  "keeps P (pret a)" "keeps P (perr e)" "keeps P (ppanic s)" "keeps P (plift r)" "keeps P (pget f)"
  by (simp_all add: keeps_def)

lemma keeps_pbind [keeps_rules]:
  "keeps P m \<Longrightarrow> (\<And>a. keeps P (f a)) \<Longrightarrow> keeps P (pbind m f)"
proof (rule keepsI)
  fix w assume m: "keeps P m" and f: "\<And>a. keeps P (f a)" and w: "P w"
  obtain r w1 where mw: "m w = (r, w1)" by fastforce
  have "P w1" by (rule keepsD [OF m w mw])
  then show "P (snd (pbind m f w))"
    using f by (cases r) (simp_all add: mw keeps_def)
qed

lemma keeps_pseq [keeps_rules]: "keeps P m \<Longrightarrow> keeps P n \<Longrightarrow> keeps P (pseq m n)"
  unfolding pseq_def by (rule keeps_pbind)

lemma keeps_ptry [keeps_rules]: "keeps P m \<Longrightarrow> keeps P (ptry m)"
  using keepsD [of P m] by (intro keepsI) (auto split: prod.splits result.splits)

lemma keeps_punwrap [keeps_rules]: "keeps P m \<Longrightarrow> keeps P (punwrap m)"
  using keepsD [of P m] by (intro keepsI) (auto split: prod.splits result.splits)

lemma keeps_pcontext [keeps_rules]: "keeps P m \<Longrightarrow> keeps P (pcontext s m)"
  using keepsD [of P m] by (intro keepsI) (auto split: prod.splits result.splits)

lemma keeps_pwhen [keeps_rules]: "keeps P m \<Longrightarrow> keeps P (pwhen b m)"
  by (simp add: keeps_def)

lemma keeps_pmap [keeps_rules]: "(\<And>x. keeps P (f x)) \<Longrightarrow> keeps P (pmap f xs)"
proof (induction xs)
  case Nil
  then show ?case by (simp add: keeps_def)
next
  case (Cons x xs)
  then show ?case unfolding pmap.simps by (intro keeps_pbind keeps_basic(1)) simp_all
qed

lemma keeps_retry_forever [keeps_rules]: "keeps P m \<Longrightarrow> keeps P (retry_forever n m)"
proof (rule keepsI)
  fix w assume m: "keeps P m" and w: "P w"
  show "P (snd (retry_forever n m w))"
    using w by (induction n arbitrary: w)
      (auto split: prod.splits result.splits dest: keepsD [OF m])
qed

lemma keeps_retry_with_max_attempts [keeps_rules]:
  "keeps P m \<Longrightarrow> keeps P (retry_with_max_attempts m n)"
proof (rule keepsI)
  fix w assume m: "keeps P m" and w: "P w"
  show "P (snd (retry_with_max_attempts m n w))"
    using w by (induction n arbitrary: w)
      (auto split: prod.splits result.splits dest: keepsD [OF m]
        simp: m [unfolded keeps_def, rule_format])
qed

lemma keeps_if [keeps_rules]: "(b \<Longrightarrow> keeps P m) \<Longrightarrow> (\<not> b \<Longrightarrow> keeps P n) \<Longrightarrow> keeps P (if b then m else n)"
  by simp

lemma keeps_case_sum [keeps_rules]:
  "(\<And>e. keeps P (f e)) \<Longrightarrow> (\<And>a. keeps P (g a)) \<Longrightarrow> keeps P (case x of Inl e \<Rightarrow> f e | Inr a \<Rightarrow> g a)"
  by (cases x) simp_all

lemma keeps_case_option [keeps_rules]:
  "keeps P m \<Longrightarrow> (\<And>a. keeps P (g a)) \<Longrightarrow> keeps P (case x of None \<Rightarrow> m | Some a \<Rightarrow> g a)"
  by (cases x) simp_all

lemma keeps_case_prod [keeps_rules]:
  "(\<And>a b. keeps P (f a b)) \<Longrightarrow> keeps P (case x of (a, b) \<Rightarrow> f a b)"
  by (cases x) simp_all

lemma keeps_Let [keeps_rules]: "keeps P (f x) \<Longrightarrow> keeps P (Let x f)"
  by simp

section \<open>The shared world\<close>

datatype fault = NoFault | LostRequest | LostReply

datatype metric =
    Inc string
  | IncBy string string nat
  | SetGauge string string int
  | Observe string nat
  | ObserveElapsed string

record world =
  keys :: keyspace
  clock :: "int list"
  faults :: "fault list"
  events :: "metric list"

definition emit :: "metric \<Rightarrow> ('z world_scheme, unit) prog" where
  "emit m = pmodify (\<lambda>w. w\<lparr>events := events w @ [m]\<rparr>)"

text \<open>\<open>Utc::now()\<close>, in milliseconds.\<close>

definition utc_now_ms :: "('z world_scheme, int) prog" where
  "utc_now_ms w = (case clock w of
     [] \<Rightarrow> (Ok 0, w)
   | [t] \<Rightarrow> (Ok t, w)
   | t # ts \<Rightarrow> (Ok t, w\<lparr>clock := ts\<rparr>))"

text \<open>\<open>timestamp ()\<close> counts seconds.\<close>

definition utc_now_sec :: "('z world_scheme, int) prog" where
  "utc_now_sec = pbind utc_now_ms (\<lambda>t. pret (t div 1000))"

definition next_fault :: "'z world_scheme \<Rightarrow> fault \<times> 'z world_scheme" where
  "next_fault w = (case faults w of [] \<Rightarrow> (NoFault, w) | f # fs \<Rightarrow> (f, w\<lparr>faults := fs\<rparr>))"

fun script_error_text :: "script_error \<Rightarrow> string" where
  "script_error_text WrongType = ''WRONGTYPE''"
| "script_error_text NotInteger = ''ERR value is not an integer or out of range''"
| "script_error_text NilArith = ''ERR arithmetic on a nil value''"
| "script_error_text NoSuchKey = ''ERR no such key''"
| "script_error_text (Raised m) = m"

text \<open>\<open>invoke_async\<close>: one request to Redis.\<close>

definition invoke :: "'a script \<Rightarrow> ('z world_scheme, 'a) prog" where
  "invoke s w =
     (let (f, w1) = next_fault w
      in case f of
           LostRequest \<Rightarrow> (Err (Foreign ''connection lost''), w1)
         | LostReply \<Rightarrow> (Err (Foreign ''connection lost''), w1\<lparr>keys := snd (s (keys w1))\<rparr>)
         | NoFault \<Rightarrow>
             (case s (keys w1) of
                (Inl e, d) \<Rightarrow> (Err (Foreign (script_error_text e)), w1\<lparr>keys := d\<rparr>)
              | (Inr a, d) \<Rightarrow> (Ok a, w1\<lparr>keys := d\<rparr>)))"

lemma emit_apply [simp, step_simps]: "emit m w = (Ok (), w\<lparr>events := events w @ [m]\<rparr>)"
  by (simp add: emit_def)

lemma next_fault_Nil [simp, step_simps]: "faults w = [] \<Longrightarrow> next_fault w = (NoFault, w)"
  by (simp add: next_fault_def)

lemma next_fault_db [simp]: "keys (snd (next_fault w)) = keys w"
  by (simp add: next_fault_def split: list.splits)

lemma utc_now_constant [simp, step_simps]: "clock w = [t] \<Longrightarrow> utc_now_ms w = (Ok t, w)"
  by (simp add: utc_now_ms_def)

text \<open>Reading the clock and counting leave the keyspace alone.\<close>

lemma utc_now_ms_result: "\<exists>t w'. utc_now_ms w = (Ok t, w') \<and> keys w' = keys w \<and> faults w' = faults w \<and>
    events w' = events w"
  by (auto simp: utc_now_ms_def split: list.splits)

text \<open>A request either runs the script on the keyspace or leaves the keyspace as it was.\<close>

lemma invoke_db: "keys (snd (invoke s w)) \<in> {keys w, snd (s (keys w))}"
  by (auto simp: invoke_def Let_def next_fault_def split: list.splits fault.splits prod.splits
      sum.splits)

lemma invoke_Ok: "invoke s w = (Ok a, w') \<Longrightarrow> s (keys w) = (Inr a, keys w')"
  by (auto simp: invoke_def Let_def next_fault_def split: list.splits fault.splits prod.splits
      sum.splits)

lemma invoke_quiet: "faults w = [] \<Longrightarrow> s (keys w) = (Inr a, d) \<Longrightarrow> invoke s w = (Ok a, w\<lparr>keys := d\<rparr>)"
  by (simp add: invoke_def)

lemma invoke_error: "faults w = [] \<Longrightarrow> s (keys w) = (Inl e, d) \<Longrightarrow>
    invoke s w = (Err (Foreign (script_error_text e)), w\<lparr>keys := d\<rparr>)"
  by (simp add: invoke_def)


section \<open>Frames\<close>

text \<open>Storage requests touch the shared part of the world only.\<close>

lemma keeps_emit [keeps_rules]: "(\<And>w es. P w \<Longrightarrow> P (w\<lparr>events := es\<rparr>)) \<Longrightarrow> keeps P (emit m)"
  by (simp add: keeps_def)

lemma keeps_utc_now_ms [keeps_rules]:
  "(\<And>w ts. P w \<Longrightarrow> P (w\<lparr>clock := ts\<rparr>)) \<Longrightarrow> keeps P utc_now_ms"
  by (auto simp: keeps_def utc_now_ms_def split: list.splits)

lemma keeps_utc_now_sec [keeps_rules]:
  "(\<And>w ts. P w \<Longrightarrow> P (w\<lparr>clock := ts\<rparr>)) \<Longrightarrow> keeps P utc_now_sec"
  unfolding utc_now_sec_def by (intro keeps_rules)

lemma keeps_invoke [keeps_rules]:
  "(\<And>w fs. P w \<Longrightarrow> P (w\<lparr>faults := fs\<rparr>)) \<Longrightarrow> (\<And>w k. P w \<Longrightarrow> P (w\<lparr>keys := k\<rparr>)) \<Longrightarrow>
     keeps P (invoke s)"
  by (auto simp: keeps_def invoke_def next_fault_def Let_def split: list.splits fault.splits
      prod.splits sum.splits)

end
