(* ===== verification/Redis_Storage.thy ===== *)
theory Redis_Storage
  imports Effects Pool_Scripts
begin

text \<open>
  \<open>RedisStorage\<close> of \<open>src/src/storage/redis/mod.rs\<close>: every method of the traits \<open>Storage\<close> and
  \<open>SetGetStorage\<close>, with its clock readings, its script call, the conversion of the reply and the
  metrics, and \<open>get_storage_namespace\<close> of \<open>src/src/storage/mod.rs\<close>.

  The record \<open>redis_storage\<close> has the fields of the struct but the connection, which is the world,
  and the metrics, which are its event log. A script reply is the value of the model's script; the
  JSON array of coins handed to \<open>add_new_coins.lua\<close> is the list of its strings. \<open>latest_ms\<close> is the
  last timestamp the \<open>chrono\<close> crate represents: adding a duration beyond it panics.
\<close>

record redis_storage =
  sponsor_str :: string
  namespace :: string

definition generate_namespace :: "string \<Rightarrow> string" where
  "generate_namespace namespace_prefix = namespace_prefix @ '':registry''"

definition maintenance_mode_error_message :: string where
  "maintenance_mode_error_message =
     ''Gas station is in maintenance mode. Please try again later.''"

section \<open>The script manager\<close>

definition reserve_gas_coins_script where "reserve_gas_coins_script = reserve_gas_coins_lua"
definition add_new_coins_script where "add_new_coins_script = add_new_coins_lua"
definition ready_for_execution_script where "ready_for_execution_script = ready_for_execution_lua"
definition expire_coins_script where "expire_coins_script = expire_coins_lua"
definition init_coin_stats_at_startup_script where
  "init_coin_stats_at_startup_script = init_coin_stats_at_startup_lua"
definition get_available_coin_count_script where
  "get_available_coin_count_script = get_available_coin_count_lua"
definition get_available_coin_total_balance_script where
  "get_available_coin_total_balance_script = get_available_coin_total_balance_lua"
definition get_is_initialized_script where "get_is_initialized_script = get_is_initialized_lua"
definition acquire_init_lock_script where "acquire_init_lock_script = acquire_init_lock_lua"
definition release_init_lock_script where "release_init_lock_script = release_init_lock_lua"
definition acquire_maintenance_lock_script where
  "acquire_maintenance_lock_script = acquire_maintenance_lock_lua"
definition release_maintenance_lock_script where
  "release_maintenance_lock_script = release_maintenance_lock_lua"
definition is_maintenance_mode_script where "is_maintenance_mode_script = is_maintenance_mode_lua"
definition clean_up_coin_registry_script where
  "clean_up_coin_registry_script = clean_up_coin_registry_lua"

lemmas script_manager_defs =
  reserve_gas_coins_script_def add_new_coins_script_def ready_for_execution_script_def
  expire_coins_script_def init_coin_stats_at_startup_script_def
  get_available_coin_count_script_def get_available_coin_total_balance_script_def
  get_is_initialized_script_def acquire_init_lock_script_def release_init_lock_script_def
  acquire_maintenance_lock_script_def release_maintenance_lock_script_def
  is_maintenance_mode_script_def clean_up_coin_registry_script_def

section \<open>Raw values\<close>

definition set_data :: "string \<Rightarrow> string \<Rightarrow> ('z world_scheme, unit) prog" where
  "set_data key bytes = invoke (redis_set key bytes)"

definition get_data :: "string \<Rightarrow> ('z world_scheme, string option) prog" where
  "get_data key = invoke (redis_get key)"

section \<open>Reserving\<close>

definition add_duration_ms :: "int \<Rightarrow> int \<Rightarrow> u64 \<Rightarrow> int result" where
  "add_duration_ms latest_ms t d =
     (if t + uint d \<le> latest_ms then Ok (t + uint d) else Panic ''DateTime + TimeDelta overflowed'')"

definition publish_pool_gauges :: "string \<Rightarrow> int \<Rightarrow> int \<Rightarrow> ('z world_scheme, unit) prog" where
  "publish_pool_gauges label count tot =
     pseq (emit (SetGauge ''gas_station_available_gas_coin_count'' label count))
       (emit (SetGauge ''gas_station_available_gas_total_balance'' label tot))"

definition reserve_gas_coins ::
  "('id, 'dg) codec \<Rightarrow> int \<Rightarrow> redis_storage \<Rightarrow> u64 \<Rightarrow> u64 \<Rightarrow>
     ('z world_scheme, reservation_id \<times> ('id, 'dg) gas_coin list) prog"
where
  "reserve_gas_coins C latest_ms self target_budget reserved_duration_ms =
     pseq (emit (Inc ''num_reserve_gas_coins_requests'')) (
     pbind utc_now_sec (\<lambda>current_time.
     pbind utc_now_ms (\<lambda>t.
     pbind (plift (add_duration_ms latest_ms t reserved_duration_ms)) (\<lambda>expiration_time.
     pbind (invoke (reserve_gas_coins_script (namespace self) (uint target_budget) expiration_time
              current_time)) (\<lambda>(reservation_id_raw, coins, new_total_balance, new_coin_count).
     if reservation_id_raw = - 1 then perr (Anyhow maintenance_mode_error_message)
     else if coins = [] then perr (Anyhow ''Unable to reserve gas coins for the given budget.'')
     else
       pbind (plift (map_result (parse_coin C) coins)) (\<lambda>gas_coins.
       pseq (publish_pool_gauges (namespace self) new_coin_count new_total_balance) (
       pseq (emit (Inc ''num_successful_reserve_gas_coins_requests''))
         (pret (word_of_int reservation_id_raw, gas_coins)))))))))"

definition ready_for_execution ::
  "redis_storage \<Rightarrow> reservation_id \<Rightarrow> ('z world_scheme, unit) prog"
where
  "ready_for_execution self reservation_id =
     pseq (emit (Inc ''num_ready_for_execution_requests'')) (
     pseq (invoke (ready_for_execution_script (namespace self) (show_nat (unat reservation_id)))) (
     emit (Inc ''num_successful_ready_for_execution_requests'')))"

section \<open>Adding and expiring\<close>

definition add_new_coins ::
  "('id, 'dg) codec \<Rightarrow> redis_storage \<Rightarrow> ('id, 'dg) gas_coin list \<Rightarrow> ('z world_scheme, unit) prog"
where
  "add_new_coins C self new_coins =
     pseq (emit (Inc ''num_add_new_coins_requests'')) (
     pbind (invoke (add_new_coins_script (namespace self) (map (format_coin C) new_coins)))
       (\<lambda>(new_total_balance, new_coin_count).
     pseq (publish_pool_gauges (sponsor_str self) new_coin_count new_total_balance) (
     emit (Inc ''num_successful_add_new_coins_requests''))))"

text \<open>One string per reservation: its ids, separated by commas; an unreadable id is a panic.\<close>

definition parse_expired :: "('id, 'dg) codec \<Rightarrow> string list \<Rightarrow> 'id list result" where
  "parse_expired C ss =
     map_result (\<lambda>s. case read_id C s of
                       None \<Rightarrow> Panic ''called `Result::unwrap()` on an `Err` value''
                     | Some i \<Rightarrow> Ok i)
       (concat (map (split_on CHR '','') ss))"

definition expire_coins ::
  "('id, 'dg) codec \<Rightarrow> redis_storage \<Rightarrow> ('z world_scheme, 'id list) prog"
where
  "expire_coins C self =
     pseq (emit (Inc ''num_expire_coins_requests'')) (
     pbind utc_now_ms (\<lambda>now.
     pbind (invoke (expire_coins_script (namespace self) now)) (\<lambda>expired_coin_strings.
     pbind (plift (parse_expired C expired_coin_strings)) (\<lambda>expired_coin_ids.
     pseq (emit (Inc ''num_successful_expire_coins_requests'')) (pret expired_coin_ids)))))"

section \<open>Startup, locks and statistics\<close>

definition init_coin_stats_at_startup ::
  "redis_storage \<Rightarrow> ('z world_scheme, u64 \<times> u64) prog"
where
  "init_coin_stats_at_startup self =
     pbind (invoke (init_coin_stats_at_startup_script (namespace self)))
       (\<lambda>(available_coin_count, available_coin_total_balance).
     pseq (publish_pool_gauges (sponsor_str self) available_coin_count
             available_coin_total_balance)
       (pret (word_of_int available_coin_count, word_of_int available_coin_total_balance)))"

definition is_initialized :: "redis_storage \<Rightarrow> ('z world_scheme, bool) prog" where
  "is_initialized self = invoke (get_is_initialized_script (namespace self))"

definition acquire_init_lock :: "redis_storage \<Rightarrow> u64 \<Rightarrow> ('z world_scheme, bool) prog" where
  "acquire_init_lock self lock_duration_sec =
     pbind utc_now_sec (\<lambda>cur_timestamp.
     invoke (acquire_init_lock_script (namespace self) cur_timestamp (uint lock_duration_sec)))"

definition release_init_lock :: "redis_storage \<Rightarrow> ('z world_scheme, unit) prog" where
  "release_init_lock self = invoke (release_init_lock_script (namespace self))"

definition acquire_maintenance_lock :: "redis_storage \<Rightarrow> u64 \<Rightarrow> ('z world_scheme, bool) prog" where
  "acquire_maintenance_lock self lock_duration_sec =
     pbind utc_now_sec (\<lambda>cur_timestamp.
     invoke (acquire_maintenance_lock_script (namespace self) cur_timestamp
               (uint lock_duration_sec)))"

definition release_maintenance_lock :: "redis_storage \<Rightarrow> ('z world_scheme, unit) prog" where
  "release_maintenance_lock self = invoke (release_maintenance_lock_script (namespace self))"

definition is_maintenance_mode :: "redis_storage \<Rightarrow> ('z world_scheme, bool) prog" where
  "is_maintenance_mode self =
     pbind utc_now_sec (\<lambda>cur_timestamp.
     invoke (is_maintenance_mode_script (namespace self) cur_timestamp))"

text \<open>\<open>PING\<close> only asks whether Redis answers.\<close>

definition check_health :: "redis_storage \<Rightarrow> ('z world_scheme, unit) prog" where
  "check_health self = invoke (sret ())"

text \<open>The reply is converted to an unsigned integer: a negative one is a conversion error.\<close>

definition reply_to_u64 :: "int \<Rightarrow> u64 result" where
  "reply_to_u64 i = (if 0 \<le> i \<and> i < 2 ^ 64 then Ok (word_of_int i)
                     else Err (Foreign ''Could not convert from string''))"

definition get_available_coin_count :: "redis_storage \<Rightarrow> ('z world_scheme, u64) prog" where
  "get_available_coin_count self =
     pbind (invoke (get_available_coin_count_script (namespace self))) (\<lambda>n. plift (reply_to_u64 n))"

definition get_available_coin_total_balance :: "redis_storage \<Rightarrow> ('z world_scheme, u64) prog" where
  "get_available_coin_total_balance self =
     punwrap (pbind (invoke (get_available_coin_total_balance_script (namespace self)))
                (\<lambda>n. plift (reply_to_u64 n)))"

definition clean_up_coin_registry ::
  "string list list \<Rightarrow> redis_storage \<Rightarrow> ('z world_scheme, unit) prog"
where
  "clean_up_coin_registry scan_batches self =
     pseq (invoke (clean_up_coin_registry_script (namespace self) scan_batches)) (pret ())"

text \<open>
  \<open>connect_storage\<close>: a storage that does not answer, or whose statistics cannot be set up, is a
  panic.
\<close>

definition connect_storage :: "redis_storage \<Rightarrow> ('z world_scheme, redis_storage) prog" where
  "connect_storage storage =
     pseq (punwrap (check_health storage)) (
     pseq (punwrap (init_coin_stats_at_startup storage)) (pret storage))"

section \<open>The namespace of a sponsor\<close>

text \<open>\<open>Url\<close> is a type of the \<open>url\<close> crate: scheme, host and port of the parsed URL.\<close>

record parsed_url =
  scheme :: string
  host_str :: "string option"
  port :: "nat option"

definition get_storage_namespace :: "(string \<Rightarrow> parsed_url option) \<Rightarrow> string \<Rightarrow> string \<Rightarrow> string result"
where
  "get_storage_namespace url_parse network_url sponsor_address =
     (case url_parse network_url of
        None \<Rightarrow> Panic ''called `Result::unwrap()` on an `Err` value''
      | Some url \<Rightarrow>
          (case host_str url of
             None \<Rightarrow> Panic ''called `Option::unwrap()` on a `None` value''
           | Some host \<Rightarrow>
               let p = (case port url of
                          Some p \<Rightarrow> p
                        | None \<Rightarrow> if scheme url = ''https'' then 443 else 80);
                   host_port = host @ ''_'' @ show_nat p
               in Ok (host_port @ '':'' @ sponsor_address)))"

end
