(* ===== verification/Pool_System.thy ===== *)
theory Pool_System
  imports Pool_Effects Redis_Storage
begin

text \<open>
  The pool as its clients see it: a sequence of requests to \<open>RedisStorage\<close>, each of which may be hit
  by a network fault or a script error, and the replies. The promise of the trait \<open>Storage\<close> is that
  no coin is handed to two callers; it is proved here for every sequence of requests in which coins
  are added only when the pool does not hold them, whatever the faults, the clock and the balances.

  The proof goes through the interface \<open>coin_store\<close>: what each request may do to the pool, faults
  included. The client's lemmas are proved from these laws and interpreted on the Redis storage.
\<close>

section \<open>What a request may do to the pool\<close>

definition popped :: "nat \<Rightarrow> ('id, 'dg) pool \<Rightarrow> ('id, 'dg) pool \<Rightarrow> bool" where
  "popped n p p' \<longleftrightarrow> avail p' = drop n (avail p) \<and> reserved p' = reserved p \<and> next_id p' = next_id p"

definition granted :: "nat \<Rightarrow> ('id, 'dg) pool \<Rightarrow> ('id, 'dg) pool \<Rightarrow> bool" where
  "granted n p p' \<longleftrightarrow> n \<le> max_gas_per_query \<and> n \<le> length (avail p) \<and> Suc (next_id p) < 2 ^ 63 \<and>
     avail p' = drop n (avail p) \<and>
     reserved p' = (reserved p)(Suc (next_id p) \<mapsto> map coin_id (take n (avail p))) \<and>
     next_id p' = Suc (next_id p)"

definition consumed :: "nat \<Rightarrow> ('id, 'dg) pool \<Rightarrow> ('id, 'dg) pool \<Rightarrow> bool" where
  "consumed i p p' \<longleftrightarrow>
     avail p' = avail p \<and> reserved p' = (reserved p)(i := None) \<and> next_id p' = next_id p"

definition appended :: "('id, 'dg) gas_coin list \<Rightarrow> ('id, 'dg) pool \<Rightarrow> ('id, 'dg) pool \<Rightarrow> bool" where
  "appended cs p p' \<longleftrightarrow>
     avail p' = avail p @ cs \<and> reserved p' = reserved p \<and> next_id p' = next_id p"

definition lapsed :: "nat list \<Rightarrow> ('id, 'dg) pool \<Rightarrow> ('id, 'dg) pool \<Rightarrow> bool" where
  "lapsed is p p' \<longleftrightarrow> distinct is \<and> (\<forall>i \<in> set is. reserved p i \<noteq> None) \<and>
     avail p' = avail p \<and> reserved p' = (\<lambda>i. if i \<in> set is then None else reserved p i) \<and>
     next_id p' = next_id p"

text \<open>The scripts do just that.\<close>

lemma reserve_lua_effect:
  assumes "codec_ok C" and "pool_rel C ns db p"
    and "reserve_gas_coins_lua ns budget expiration now db = (r, db')"
  obtains (failed) n p' where "popped n p p'" "pool_rel C ns db' p'"
      "\<And>i coins t c. r = Inr (i, coins, t, c) \<Longrightarrow> coins = []"
  | (reserved) n p' t c where "granted n p p'" "pool_rel C ns db' p'"
      "r = Inr (int (Suc (next_id p)), map (format_coin C) (take n (avail p)), t, c)"
proof (cases "lua_locked (lua_num now) p")
  case True
  with assms(2,3) show ?thesis
    using failed [of 0 p] by (auto simp: reserve_locked_lua popped_def)
next
  case False
  obtain n t where sel: "lua_select (lua_num budget) (avail p) = (n, t)" by fastforce
  have n: "n \<le> max_gas_per_query" "n \<le> length (avail p)"
    using lua_taken_le [of "lua_num budget" max_gas_per_query 0 "avail p" n t] sel
    by (simp_all add: lua_select_def)
  consider "t < lua_num budget" | "\<not> t < lua_num budget" "\<not> next_id p < 2 ^ 63 - 1"
    | "\<not> t < lua_num budget" "next_id p < 2 ^ 63 - 1" by blast
  then show ?thesis
  proof cases
    case 1
    from reserve_short_lua [OF assms(1,2) False sel 1, of expiration] assms(2,3) show ?thesis
      using failed [of 0 p] by (auto simp: popped_def)
  next
    case 2
    from reserve_exhausted_lua [OF assms(1,2) False sel 2, of expiration] assms(3)
    obtain tot cnt where "r = Inl NotInteger"
      "pool_rel C ns db' (p\<lparr>avail := drop n (avail p), total_bal := tot, coin_count := cnt\<rparr>)" by auto
    then show ?thesis
      by (intro failed [of n "p\<lparr>avail := drop n (avail p), total_bal := tot, coin_count := cnt\<rparr>"])
        (simp_all add: popped_def)
  next
    case 3
    from reserve_granted_lua [OF assms(1,2) False sel 3, of expiration] assms(3)
    have "pool_rel C ns db' (reserve_lua_pool n t (lua_num expiration) p)"
      "r = Inr (int (Suc (next_id p)), map (format_coin C) (take n (avail p)),
        lua_sub (lua_num (total_bal p)) t, lua_sub (lua_num (coin_count p)) (int n))" by auto
    then show ?thesis
      by (intro reserved [of n "reserve_lua_pool n t (lua_num expiration) p"])
        (use n 3(2) in \<open>simp_all add: granted_def reserve_lua_pool_def\<close>)
  qed
qed

lemma ready_lua_effect:
  assumes "pool_rel C ns db p" and "ready_for_execution_lua ns (show_nat i) db = (r, db')"
  shows "\<exists>p'. pool_rel C ns db' p' \<and> (case r of Inl e \<Rightarrow> p' = p \<and> reserved p i = None
    | Inr _ \<Rightarrow> consumed i p p' \<and> reserved p i \<noteq> None)"
proof (cases "reserved p i")
  case None
  with ready_missing_rel [OF assms(1)] assms show ?thesis by auto
next
  case (Some ids)
  with ready_rel [OF assms(1) Some] assms(2) show ?thesis
    by (auto simp: consumed_def ready_pool_def intro!: exI [of _ "ready_pool i p"])
qed

lemma add_lua_effect:
  assumes "codec_ok C" and "pool_rel C ns db p"
    and "add_new_coins_lua ns (map (format_coin C) cs) db = (r, db')"
  shows "\<exists>p'. pool_rel C ns db' p' \<and> appended cs p p'"
proof -
  obtain tot cnt where
    "pool_rel C ns db' (p\<lparr>avail := avail p @ cs, total_bal := tot, coin_count := cnt\<rparr>)"
    using add_new_coins_lua_effect [OF assms(1,2), of cs] assms(3) by auto
  then show ?thesis by (intro exI conjI) (assumption, simp add: appended_def)
qed

lemma expire_lua_effect:
  assumes "pool_rel C ns db p" and "expire_coins_lua ns now db = (r, db')"
  shows "\<exists>is p'. pool_rel C ns db' p' \<and> lapsed is p p' \<and>
    r = Inr (map (\<lambda>i. join_with '','' (map (show_id C) (the (reserved p i)))) is)"
proof -
  obtain "is" where r: "r = Inr (map (\<lambda>i. join_with '','' (map (show_id C) (the (reserved p i)))) is)"
    and is_set: "distinct is" "set is = {i. expired_at (lua_num now) p i \<and> reserved p i \<noteq> None}"
    and rel: "pool_rel C ns db' (expire_pool (lua_num now) p)"
    using expire_coins_rel [OF assms(1), of now] assms(2) by auto
  have "lapsed is p (expire_pool (lua_num now) p)"
    using is_set by (auto simp: lapsed_def expire_pool_def fun_eq_iff)
  with r rel show ?thesis by blast
qed

section \<open>Requests and replies\<close>

datatype ('id, 'dg) request =
    Reserve u64 u64
  | Ready reservation_id
  | Add "('id, 'dg) gas_coin list"
  | Expire

datatype ('id, 'dg) reply =
    Reserved reservation_id "('id, 'dg) gas_coin list"
  | Done
  | Expired "'id list"
  | Failed

fun answer :: "('a \<Rightarrow> ('id, 'dg) reply) \<Rightarrow> 'a result \<Rightarrow> ('id, 'dg) reply" where
  "answer f (Ok a) = f a"
| "answer f r = Failed"

fun serve ::
  "('id, 'dg) codec \<Rightarrow> int \<Rightarrow> redis_storage \<Rightarrow> ('id, 'dg) request \<Rightarrow> 'z world_scheme \<Rightarrow>
     ('id, 'dg) reply \<times> 'z world_scheme"
where
  "serve C latest self (Reserve b d) w =
     (case reserve_gas_coins C latest self b d w of (r, w') \<Rightarrow>
        (answer (\<lambda>(rid, cs). Reserved rid cs) r, w'))"
| "serve C latest self (Ready rid) w =
     (case ready_for_execution self rid w of (r, w') \<Rightarrow> (answer (\<lambda>_. Done) r, w'))"
| "serve C latest self (Add cs) w =
     (case add_new_coins C self cs w of (r, w') \<Rightarrow> (answer (\<lambda>_. Done) r, w'))"
| "serve C latest self Expire w =
     (case expire_coins C self w of (r, w') \<Rightarrow> (answer Expired r, w'))"

text \<open>A sequence of requests, one after the other.\<close>

fun drive :: "('q \<Rightarrow> 's \<Rightarrow> 'r \<times> 's) \<Rightarrow> 'q list \<Rightarrow> 's \<Rightarrow> 'r list \<times> 's" where
  "drive handle [] s = ([], s)"
| "drive handle (q # qs) s =
     (case handle q s of (r, s1) \<Rightarrow> case drive handle qs s1 of (rs, s2) \<Rightarrow> (r # rs, s2))"

text \<open>
  What a request may do, reply by reply. A \<open>Failed\<close> reply leaves open whether the request was
  carried out.
\<close>

definition effect_ok ::
  "('id, 'dg) request \<Rightarrow> ('id, 'dg) reply \<Rightarrow> ('id, 'dg) pool \<Rightarrow> ('id, 'dg) pool \<Rightarrow> bool"
where
  "effect_ok q r p p' \<longleftrightarrow> (case q of
     Reserve b d \<Rightarrow>
       (r = Failed \<and> (\<exists>n. popped n p p' \<or> granted n p p')) \<or>
       (\<exists>n rid. granted n p p' \<and> r = Reserved rid (take n (avail p)) \<and> unat rid = Suc (next_id p))
   | Ready rid \<Rightarrow>
       (r = Done \<and> consumed (unat rid) p p' \<and> reserved p (unat rid) \<noteq> None) \<or> (r = Failed \<and> (p' = p \<or> consumed (unat rid) p p'))
   | Add cs \<Rightarrow> (r = Done \<and> appended cs p p') \<or> (r = Failed \<and> (p' = p \<or> appended cs p p'))
   | Expire \<Rightarrow>
       (\<exists>is. lapsed is p p' \<and> r = Expired (concat (map (\<lambda>i. the (reserved p i)) is))) \<or>
       (r = Failed \<and> (\<exists>is. lapsed is p p')))"

lemma popped_0 [simp]: "popped 0 p p" by (simp add: popped_def)
lemma lapsed_Nil [simp]: "lapsed [] p p" by (simp add: lapsed_def)

lemma invokeE:
  assumes "invoke s w = (r, w')"
  obtains (lost) "keys w' = keys w" "\<not> is_ok r" | (ran) "keys w' = snd (s (keys w))" "\<not> is_ok r"
  | (ok) a where "s (keys w) = (Inr a, keys w')" "r = Ok a"
  using assms
  by (auto simp: invoke_def Let_def next_fault_def split: list.splits fault.splits prod.splits
      sum.splits)


lemma map_result_parse: "codec_ok C \<Longrightarrow> map_result (parse_coin C) (map (format_coin C) cs) = Ok cs"
  using map_result_map [of cs "parse_coin C" "format_coin C" "\<lambda>c. c"] by (simp add: parse_format_coin)

lemma reserve_effect:
  assumes C: "codec_ok C" and rel: "pool_rel C (namespace self) (keys w) p"
    and run: "serve C latest self (Reserve b d) w = (r, w')"
  shows "\<exists>p'. pool_rel C (namespace self) (keys w') p' \<and> effect_ok (Reserve b d) r p p'"
proof -
  define w0 where "w0 = w\<lparr>events := events w @ [Inc ''num_reserve_gas_coins_requests'']\<rparr>"
  obtain t1 w1 where now1: "utc_now_ms w0 = (Ok t1, w1)" "keys w1 = keys w"
    using utc_now_ms_result [of w0] by (auto simp: w0_def)
  obtain t2 w2 where now2: "utc_now_ms w1 = (Ok t2, w2)" "keys w2 = keys w"
    using utc_now_ms_result [of w1] now1(2) by auto
  show ?thesis
  proof (cases "add_duration_ms latest t2 d")
    case (Ok expiration)
    let ?s = "reserve_gas_coins_lua (namespace self) (uint b) expiration (t1 div 1000)"
    obtain ri w3 where inv: "invoke ?s w2 = (ri, w3)" by fastforce
    have start: "reserve_gas_coins C latest self b d w =
        (case invoke ?s w2 of
           (Ok (reservation_id_raw, coins, new_total_balance, new_coin_count), w') \<Rightarrow>
             (if reservation_id_raw = - 1 then perr (Anyhow maintenance_mode_error_message)
              else if coins = [] then
                perr (Anyhow ''Unable to reserve gas coins for the given budget.'')
              else pbind (plift (map_result (parse_coin C) coins)) (\<lambda>gas_coins.
                pseq (publish_pool_gauges (namespace self) new_coin_count new_total_balance) (
                pseq (emit (Inc ''num_successful_reserve_gas_coins_requests''))
                  (pret (word_of_int reservation_id_raw, gas_coins))))) w'
         | (Err e, w') \<Rightarrow> (Err e, w') | (Panic s, w') \<Rightarrow> (Panic s, w')
         | (Hang, w') \<Rightarrow> (Hang, w'))"
      using now1(1) now2(1) Ok
      by (simp add: reserve_gas_coins_def w0_def utc_now_sec_def script_manager_defs
          split: prod.splits result.splits)
    obtain rl db' where lua: "?s (keys w) = (rl, db')" by fastforce
    note effect = reserve_lua_effect [OF C rel lua]
    from inv show ?thesis
    proof (cases rule: invokeE)
      case lost
      then have "r = Failed" "keys w' = keys w"
        using run inv start now2(2) by (auto split: result.splits)
      with rel show ?thesis by (auto simp: effect_ok_def intro!: exI [of _ p] exI [of _ 0])
    next
      case ran
      then have "r = Failed" "keys w' = db'"
        using run inv start now2(2) lua by (auto split: result.splits)
      with effect show ?thesis by (fastforce simp: effect_ok_def)
    next
      case (ok a)
      then have a: "rl = Inr a" "keys w3 = db'" using lua now2(2) by auto
      show ?thesis
      proof (cases rule: effect)
        case (1 n p')
        then have "r = Failed" "keys w' = db'"
          using run inv start ok a by (auto split: prod.splits if_splits)
        with 1 show ?thesis by (auto simp: effect_ok_def)
      next
        case (2 n p' t c)
        then have rid: "unat (word_of_int (int (Suc (next_id p))) :: u64) = Suc (next_id p)"
          by (intro unat_word_of_int_small) (simp add: granted_def)
        have "(r = Failed \<or> r = Reserved (word_of_int (int (Suc (next_id p)))) (take n (avail p))) \<and>
            keys w' = db'"
          using run inv start ok a 2(3) map_result_parse [OF C, of "take n (avail p)"]
          by (auto simp: publish_pool_gauges_def split: if_splits)
        with 2 rid show ?thesis by (fastforce simp: effect_ok_def)
      qed
    qed
  next
    case (Err e)
    then show ?thesis by (simp add: add_duration_ms_def split: if_splits)
  next
    case Hang
    then show ?thesis by (simp add: add_duration_ms_def split: if_splits)
  next
    case (Panic m)
    then have "r = Failed" "keys w' = keys w"
      using run now1 now2 by (auto simp: reserve_gas_coins_def w0_def utc_now_sec_def)
    with rel show ?thesis by (auto simp: effect_ok_def intro!: exI [of _ p] exI [of _ 0])
  qed
qed


lemma ready_effect:
  assumes rel: "pool_rel C (namespace self) (keys w) p"
    and run: "serve C latest self (Ready rid) w = (r, w')"
  shows "\<exists>p'. pool_rel C (namespace self) (keys w') p' \<and> effect_ok (Ready rid) r p p'"
proof -
  define w0 where "w0 = w\<lparr>events := events w @ [Inc ''num_ready_for_execution_requests'']\<rparr>"
  have k0: "keys w0 = keys w" by (simp add: w0_def)
  let ?s = "ready_for_execution_lua (namespace self) (show_nat (unat rid))"
  obtain rl db' where lua: "?s (keys w) = (rl, db')" by fastforce
  obtain ri w1 where inv: "invoke ?s w0 = (ri, w1)" by fastforce
  obtain p' where p': "pool_rel C (namespace self) db' p'"
    "case rl of Inl e \<Rightarrow> p' = p \<and> reserved p (unat rid) = None
       | Inr _ \<Rightarrow> consumed (unat rid) p p' \<and> reserved p (unat rid) \<noteq> None"
    using ready_lua_effect [OF rel lua] by blast
  have run': "(case ri of Ok a \<Rightarrow> (Done, w1\<lparr>events := events w1 @
      [Inc ''num_successful_ready_for_execution_requests'']\<rparr>) | _ \<Rightarrow> (Failed, w1)) = (r, w')"
    using run inv by (auto simp: ready_for_execution_def w0_def script_manager_defs split: result.splits)
  from inv show ?thesis
  proof (cases rule: invokeE)
    case lost
    then have "r = Failed" "keys w' = keys w" using run' k0 by (auto split: result.splits)
    with rel show ?thesis by (auto simp: effect_ok_def)
  next
    case ran
    then have "r = Failed" "keys w' = db'" using run' k0 lua by (auto split: result.splits)
    with p' show ?thesis by (auto simp: effect_ok_def split: sum.splits)
  next
    case (ok a)
    then have "r = Done" "keys w' = db'" "rl = Inr a" using run' k0 lua by auto
    with p' show ?thesis by (auto simp: effect_ok_def)
  qed
qed

lemma add_effect:
  assumes C: "codec_ok C" and rel: "pool_rel C (namespace self) (keys w) p"
    and run: "serve C latest self (Add cs) w = (r, w')"
  shows "\<exists>p'. pool_rel C (namespace self) (keys w') p' \<and> effect_ok (Add cs) r p p'"
proof -
  define w0 where "w0 = w\<lparr>events := events w @ [Inc ''num_add_new_coins_requests'']\<rparr>"
  have k0: "keys w0 = keys w" by (simp add: w0_def)
  let ?s = "add_new_coins_lua (namespace self) (map (format_coin C) cs)"
  obtain rl db' where lua: "?s (keys w) = (rl, db')" by fastforce
  obtain ri w1 where inv: "invoke ?s w0 = (ri, w1)" by fastforce
  obtain p' where p': "pool_rel C (namespace self) db' p'" "appended cs p p'"
    using add_lua_effect [OF C rel lua] by blast
  have run': "(case ri of Ok a \<Rightarrow> r = Done \<and> keys w' = keys w1 | _ \<Rightarrow> r = Failed \<and> w' = w1)"
    using run inv by (auto simp: add_new_coins_def w0_def script_manager_defs publish_pool_gauges_def
        split: result.splits)
  from inv show ?thesis
  proof (cases rule: invokeE)
    case lost
    then have "r = Failed" "keys w' = keys w" using run' k0 by (auto split: result.splits)
    with rel show ?thesis by (auto simp: effect_ok_def)
  next
    case ran
    then have "r = Failed" "keys w' = db'" using run' k0 lua by (auto split: result.splits)
    with p' show ?thesis by (auto simp: effect_ok_def)
  next
    case (ok a)
    then have "r = Done" "keys w' = db'" using run' k0 lua by auto
    with p' show ?thesis by (auto simp: effect_ok_def)
  qed
qed

lemma map_result_append:
  "map_result f (xs @ ys) =
     rbind (map_result f xs) (\<lambda>as. rbind (map_result f ys) (\<lambda>bs. Ok (as @ bs)))"
proof (induction xs)
  case Nil
  then show ?case by (cases "map_result f ys") auto
next
  case (Cons x xs)
  show ?case
    by (cases "f x"; cases "map_result f xs"; cases "map_result f ys"; simp add: Cons.IH)
qed

text \<open>A reservation without coins is the empty text, on which the parser panics.\<close>

lemma parse_expired_join:
  assumes "codec_ok C"
  shows "parse_expired C (map (\<lambda>i. join_with '','' (map (show_id C) (f i))) is) =
    (if \<forall>i \<in> set is. f i \<noteq> [] then Ok (concat (map f is))
     else Panic ''called `Result::unwrap()` on an `Err` value'')"
proof (induction "is")
  case Nil
  then show ?case by (simp add: parse_expired_def)
next
  case (Cons i js)
  let ?read = "\<lambda>s. case read_id C s of
      None \<Rightarrow> Panic ''called `Result::unwrap()` on an `Err` value'' | Some i \<Rightarrow> Ok i"
  have hd: "map_result ?read (split_on CHR '','' (join_with '','' (map (show_id C) (f i)))) =
      (if f i \<noteq> [] then Ok (f i) else Panic ''called `Result::unwrap()` on an `Err` value'')"
  proof (cases "f i = []")
    case True
    then show ?thesis using assms by (simp add: codec_ok_def)
  next
    case False
    have "split_on CHR '','' (join_with '','' (map (show_id C) (f i))) = map (show_id C) (f i)"
      by (rule split_on_join) (use False codec_okD(2) [OF assms] in auto)
    with False show ?thesis
      using map_result_map [of "f i" ?read "show_id C" "\<lambda>x. x"] codec_okD(1) [OF assms] by simp
  qed
  show ?case
    using Cons.IH by (simp add: parse_expired_def map_result_append hd)
qed

lemma expire_effect:
  assumes C: "codec_ok C" and rel: "pool_rel C (namespace self) (keys w) p"
    and run: "serve C latest self Expire w = (r, w')"
  shows "\<exists>p'. pool_rel C (namespace self) (keys w') p' \<and> effect_ok Expire r p p'"
proof -
  define w0 where "w0 = w\<lparr>events := events w @ [Inc ''num_expire_coins_requests'']\<rparr>"
  obtain now w1 where now: "utc_now_ms w0 = (Ok now, w1)" "keys w1 = keys w"
    using utc_now_ms_result [of w0] by (auto simp: w0_def)
  let ?s = "expire_coins_lua (namespace self) now"
  obtain rl db' where lua: "?s (keys w) = (rl, db')" by fastforce
  obtain ri w2 where inv: "invoke ?s w1 = (ri, w2)" by fastforce
  obtain "is" p' where p': "pool_rel C (namespace self) db' p'" "lapsed is p p'"
    "rl = Inr (map (\<lambda>i. join_with '','' (map (show_id C) (the (reserved p i)))) is)"
    using expire_lua_effect [OF rel lua] by blast
  have run': "(case ri of
      Ok ss \<Rightarrow> (case parse_expired C ss of Ok ids \<Rightarrow> r = Expired ids | _ \<Rightarrow> r = Failed) \<and>
        keys w' = keys w2
    | _ \<Rightarrow> r = Failed \<and> w' = w2)"
    using run inv now by (auto simp: expire_coins_def w0_def script_manager_defs split: result.splits)
  from inv show ?thesis
  proof (cases rule: invokeE)
    case lost
    then have "r = Failed" "keys w' = keys w" using run' now(2) by (auto split: result.splits)
    with rel show ?thesis by (auto simp: effect_ok_def intro!: exI [of _ p] exI [of _ "[]"])
  next
    case ran
    then have "r = Failed" "keys w' = db'" using run' now(2) lua by (auto split: result.splits)
    with p' show ?thesis by (auto simp: effect_ok_def)
  next
    case (ok a)
    then have a: "rl = Inr a" "keys w' = db'" using run' now(2) lua by auto
    have "r = Failed \<or> r = Expired (concat (map (\<lambda>i. the (reserved p i)) is))"
      using run' ok p'(3) a(1) parse_expired_join [OF C, of "\<lambda>i. the (reserved p i)" "is"]
      by (auto split: if_splits)
    with a p' show ?thesis by (auto simp: effect_ok_def)
  qed
qed

lemma serve_effect:
  assumes "codec_ok C" and "pool_rel C (namespace self) (keys w) p"
    and "serve C latest self q w = (r, w')"
  shows "\<exists>p'. pool_rel C (namespace self) (keys w') p' \<and> effect_ok q r p p'"
  using assms(3) reserve_effect [OF assms(1,2)] ready_effect [OF assms(2)]
    add_effect [OF assms(1,2)] expire_effect [OF assms(1,2)]
  by (cases q) simp_all


section \<open>The ledger of a client\<close>

text \<open>
  What the clients together know of the pool from requests and replies alone: which ids the pool may
  hold (free or reserved), and the coins of the reservations they were given. A coin leaves the pool
  when its reservation is consumed or reported as expired; an addition whose reply is an error may
  have happened. The discipline is that only coins the pool does not hold are added.
\<close>

record 'id ledger =
  present :: "'id list"
  opened :: "reservation_id \<rightharpoonup> 'id list"

fun ledger_step :: "('id, 'dg) request \<Rightarrow> ('id, 'dg) reply \<Rightarrow> 'id ledger \<Rightarrow> 'id ledger" where
  "ledger_step (Reserve b d) (Reserved rid cs) l =
     l\<lparr>opened := (opened l)(rid \<mapsto> map coin_id cs)\<rparr>"
| "ledger_step (Ready rid) Done l =
     (case opened l rid of
        None \<Rightarrow> l
      | Some ids \<Rightarrow> l\<lparr>present := filter (\<lambda>x. x \<notin> set ids) (present l)\<rparr>)"
| "ledger_step (Add cs) r l = l\<lparr>present := present l @ map coin_id cs\<rparr>"
| "ledger_step Expire (Expired ids) l =
     l\<lparr>present := filter (\<lambda>x. x \<notin> set ids) (present l)\<rparr>"
| "ledger_step q r l = l"

fun fresh_request :: "('id, 'dg) request \<Rightarrow> 'id ledger \<Rightarrow> bool" where
  "fresh_request (Add cs) l \<longleftrightarrow>
     distinct (map coin_id cs) \<and> list_all (\<lambda>c. coin_id c \<notin> set (present l)) cs"
| "fresh_request q l \<longleftrightarrow> True"

fun disciplined :: "('id, 'dg) request list \<Rightarrow> ('id, 'dg) reply list \<Rightarrow> 'id ledger \<Rightarrow> bool" where
  "disciplined (q # qs) (r # rs) l \<longleftrightarrow> fresh_request q l \<and> disciplined qs rs (ledger_step q r l)"
| "disciplined qs rs l \<longleftrightarrow> True"

fun ledger_run :: "('id, 'dg) request list \<Rightarrow> ('id, 'dg) reply list \<Rightarrow> 'id ledger \<Rightarrow> 'id ledger" where
  "ledger_run (q # qs) (r # rs) l = ledger_run qs rs (ledger_step q r l)"
| "ledger_run qs rs l = l"

text \<open>Every coin is in at most one place, and the ledger knows of it.\<close>

definition avail_ids :: "('id, 'dg) pool \<Rightarrow> 'id set" where
  "avail_ids p = coin_id ` set (avail p)"

definition one_place :: "'id ledger \<Rightarrow> ('id, 'dg) pool \<Rightarrow> bool" where
  "one_place l p \<longleftrightarrow>
     distinct (map coin_id (avail p)) \<and> avail_ids p \<subseteq> set (present l) \<and>
     (\<forall>i ids. reserved p i = Some ids \<longrightarrow>
        set ids \<subseteq> set (present l) \<and> set ids \<inter> avail_ids p = {} \<and> i \<le> next_id p) \<and>
     (\<forall>i j ids ids'. i \<noteq> j \<longrightarrow> reserved p i = Some ids \<longrightarrow> reserved p j = Some ids' \<longrightarrow>
        set ids \<inter> set ids' = {}) \<and>
     (\<forall>rid ids. opened l rid = Some ids \<longrightarrow> unat rid \<le> next_id p \<and>
        (reserved p (unat rid) = None \<or> reserved p (unat rid) = Some ids))"

lemma avail_split:
  assumes "distinct (map coin_id (avail p))" and "avail p' = drop n (avail p)"
  shows "distinct (map coin_id (avail p'))"
    "avail_ids p = set (map coin_id (take n (avail p))) \<union> avail_ids p'"
    "set (map coin_id (take n (avail p))) \<inter> avail_ids p' = {}"
    "distinct (map coin_id (take n (avail p)))"
proof -
  have split: "map coin_id (avail p) = map coin_id (take n (avail p)) @ map coin_id (avail p')"
    using assms(2) by (simp flip: map_append)
  show "distinct (map coin_id (avail p'))" "distinct (map coin_id (take n (avail p)))"
    "set (map coin_id (take n (avail p))) \<inter> avail_ids p' = {}"
    using assms(1) unfolding split avail_ids_def by simp_all
  have "set (map coin_id (avail p)) = set (map coin_id (take n (avail p))) \<union> set (map coin_id (avail p'))"
    unfolding split by simp
  then show "avail_ids p = set (map coin_id (take n (avail p))) \<union> avail_ids p'"
    unfolding avail_ids_def by simp
qed

lemma one_placeD:
  assumes "one_place l p"
  shows "distinct (map coin_id (avail p))" "avail_ids p \<subseteq> set (present l)"
    "reserved p i = Some ids \<Longrightarrow> set ids \<subseteq> set (present l)"
    "reserved p i = Some ids \<Longrightarrow> set ids \<inter> avail_ids p = {}"
    "reserved p i = Some ids \<Longrightarrow> i \<le> next_id p"
    "i \<noteq> j \<Longrightarrow> reserved p i = Some ids \<Longrightarrow> reserved p j = Some ids' \<Longrightarrow> set ids \<inter> set ids' = {}"
    "opened l rid = Some ids \<Longrightarrow> unat rid \<le> next_id p"
    "opened l rid = Some ids \<Longrightarrow> reserved p (unat rid) = Some ids' \<Longrightarrow> ids' = ids"
proof -
  note a = assms [unfolded one_place_def]
  show "distinct (map coin_id (avail p))" "avail_ids p \<subseteq> set (present l)"
    by (rule a [THEN conjunct1], rule a [THEN conjunct2, THEN conjunct1])
  note b = a [THEN conjunct2, THEN conjunct2]
  have r: "\<forall>i ids. reserved p i = Some ids \<longrightarrow>
        set ids \<subseteq> set (present l) \<and> set ids \<inter> avail_ids p = {} \<and> i \<le> next_id p"
    and d: "\<forall>i j ids ids'. i \<noteq> j \<longrightarrow> reserved p i = Some ids \<longrightarrow> reserved p j = Some ids' \<longrightarrow>
        set ids \<inter> set ids' = {}"
    and o: "\<forall>rid ids. opened l rid = Some ids \<longrightarrow> unat rid \<le> next_id p \<and>
        (reserved p (unat rid) = None \<or> reserved p (unat rid) = Some ids)"
    by (rule b [THEN conjunct1], rule b [THEN conjunct2, THEN conjunct1],
        rule b [THEN conjunct2, THEN conjunct2])
  show "reserved p i = Some ids \<Longrightarrow> set ids \<subseteq> set (present l)"
    "reserved p i = Some ids \<Longrightarrow> set ids \<inter> avail_ids p = {}"
    "reserved p i = Some ids \<Longrightarrow> i \<le> next_id p"
    using r by simp_all
  show "i \<noteq> j \<Longrightarrow> reserved p i = Some ids \<Longrightarrow> reserved p j = Some ids' \<Longrightarrow> set ids \<inter> set ids' = {}"
    using d by simp
  show "opened l rid = Some ids \<Longrightarrow> unat rid \<le> next_id p" using o by simp
  show "opened l rid = Some ids \<Longrightarrow> reserved p (unat rid) = Some ids' \<Longrightarrow> ids' = ids"
    using o by fastforce
qed

lemma one_placeI:
  assumes "distinct (map coin_id (avail p))" "avail_ids p \<subseteq> set (present l)"
    "\<And>i ids. reserved p i = Some ids \<Longrightarrow>
       set ids \<subseteq> set (present l) \<and> set ids \<inter> avail_ids p = {} \<and> i \<le> next_id p"
    "\<And>i j ids ids'. i \<noteq> j \<Longrightarrow> reserved p i = Some ids \<Longrightarrow> reserved p j = Some ids' \<Longrightarrow>
       set ids \<inter> set ids' = {}"
    "\<And>rid ids ids'. opened l rid = Some ids \<Longrightarrow> unat rid \<le> next_id p \<and>
       (reserved p (unat rid) = Some ids' \<longrightarrow> ids' = ids)"
  shows "one_place l p"
  unfolding one_place_def
proof (intro conjI allI impI)
  fix rid ids assume o: "opened l rid = Some ids"
  show "unat rid \<le> next_id p" using assms(5) [OF o] by blast
  show "reserved p (unat rid) = None \<or> reserved p (unat rid) = Some ids"
    using assms(5) [OF o] by (cases "reserved p (unat rid)") auto
qed (use assms(1-3) in \<open>simp_all add: assms(4)\<close>)

lemma one_place_granted:
  assumes inv: "one_place l p" and grant: "granted n p p'"
    and l': "l' = l \<or> (\<exists>rid. unat rid = Suc (next_id p) \<and>
      l' = l\<lparr>opened := (opened l)(rid \<mapsto> map coin_id (take n (avail p)))\<rparr>)"
  shows "one_place l' p'"
proof -
  note a = avail_split [OF one_placeD(1) [OF inv], of p' n]
  let ?ids = "map coin_id (take n (avail p))"
  have p': "avail p' = drop n (avail p)" "next_id p' = Suc (next_id p)"
    "reserved p' = (reserved p)(Suc (next_id p) \<mapsto> ?ids)"
    using grant by (simp_all add: granted_def)
  have pres: "present l' = present l" using l' by auto
  have old: "reserved p' i = Some ids \<longleftrightarrow>
      (i = Suc (next_id p) \<and> ids = ?ids) \<or> (i \<noteq> Suc (next_id p) \<and> reserved p i = Some ids)" for i ids
    by (auto simp: p'(3))
  have op: "opened l' rid = Some ids \<Longrightarrow>
      (unat rid = Suc (next_id p) \<and> ids = ?ids) \<or> opened l rid = Some ids" for rid ids
    using l' by (auto split: if_splits)
  have opn: "opened l rid = Some ids \<Longrightarrow> unat rid \<le> next_id p" for rid ids
    by (rule one_placeD(7) [OF inv])
  show ?thesis
  proof (rule one_placeI)
    show "distinct (map coin_id (avail p'))" by (rule a(1) [OF p'(1)])
    show "avail_ids p' \<subseteq> set (present l')"
      using a(2) [OF p'(1)] one_placeD(2) [OF inv] by (simp add: pres)
  next
    fix i ids assume r: "reserved p' i = Some ids"
    then consider "i = Suc (next_id p)" "ids = ?ids" | "reserved p i = Some ids" using old by blast
    then show "set ids \<subseteq> set (present l') \<and> set ids \<inter> avail_ids p' = {} \<and> i \<le> next_id p'"
    proof cases
      case 1
      then show ?thesis
        using a(2,3) [OF p'(1)] one_placeD(2) [OF inv] p'(2) pres by auto
    next
      case 2
      then show ?thesis
        using one_placeD(3,4,5) [OF inv 2] a(2) [OF p'(1)] p'(2) pres by auto
    qed
  next
    fix i j ids ids'
    assume r: "i \<noteq> j" "reserved p' i = Some ids" "reserved p' j = Some ids'"
    show "set ids \<inter> set ids' = {}"
    proof (cases "i = Suc (next_id p) \<or> j = Suc (next_id p)")
      case True
      have "set ?ids \<inter> set xs = {}" if "reserved p k = Some xs" for k xs
        using one_placeD(4) [OF inv that] a(2) [OF p'(1)] by blast
      with True r show ?thesis unfolding old by blast
    next
      case False
      with r have "reserved p i = Some ids" "reserved p j = Some ids'" unfolding old by blast+
      with one_placeD(6) [OF inv r(1)] show ?thesis .
    qed
  next
    fix rid ids ids'
    assume "opened l' rid = Some ids"
    then consider "unat rid = Suc (next_id p)" "ids = ?ids"
      | "opened l rid = Some ids" "unat rid \<le> next_id p" using op opn by blast
    then show "unat rid \<le> next_id p' \<and> (reserved p' (unat rid) = Some ids' \<longrightarrow> ids' = ids)"
      by cases (use one_placeD(8) [OF inv] in \<open>auto simp: old p'(2)\<close>)
  qed
qed

text \<open>Nothing new comes in: free coins and reservations may go, the ids \<open>gone\<close> leave the pool.\<close>

lemma one_place_sub:
  assumes inv: "one_place l p"
    and p': "distinct (map coin_id (avail p'))" "avail_ids p' \<subseteq> avail_ids p - gone"
      "next_id p' = next_id p"
      "\<And>i ids. reserved p' i = Some ids \<Longrightarrow> reserved p i = Some ids \<and> set ids \<inter> gone = {}"
    and l': "opened l' = opened l" "set (present l) - gone \<subseteq> set (present l')"
  shows "one_place l' p'"
proof (rule one_placeI)
  show "distinct (map coin_id (avail p'))" by (rule p'(1))
  show "avail_ids p' \<subseteq> set (present l')"
    using one_placeD(2) [OF inv] p'(2) l'(2) by blast
  fix i ids assume r: "reserved p' i = Some ids"
  from p'(4) [OF r] have r: "reserved p i = Some ids" and d: "set ids \<inter> gone = {}" by simp_all
  have "set ids \<subseteq> set (present l')" using one_placeD(3) [OF inv r] d l'(2) by blast
  moreover have "set ids \<inter> avail_ids p' = {}" using one_placeD(4) [OF inv r] p'(2) by blast
  ultimately show "set ids \<subseteq> set (present l') \<and> set ids \<inter> avail_ids p' = {} \<and> i \<le> next_id p'"
    using one_placeD(5) [OF inv r] p'(3) by simp
next
  fix i j ids ids'
  assume "i \<noteq> j" "reserved p' i = Some ids" "reserved p' j = Some ids'"
  then show "set ids \<inter> set ids' = {}"
    using p'(4) one_placeD(6) [OF inv] by blast
next
  fix rid ids ids'
  assume "opened l' rid = Some ids"
  then show "unat rid \<le> next_id p' \<and> (reserved p' (unat rid) = Some ids' \<longrightarrow> ids' = ids)"
    using p'(3,4) one_placeD(7,8) [OF inv] l'(1) by auto
qed

lemma one_place_popped:
  assumes "one_place l p" and "popped n p p'"
  shows "one_place l p'"
proof -
  have p': "avail p' = drop n (avail p)" "reserved p' = reserved p" "next_id p' = next_id p"
    using assms(2) by (simp_all add: popped_def)
  note a = avail_split [OF one_placeD(1) [OF assms(1)] p'(1)]
  show ?thesis
    by (rule one_place_sub [where gone = "{}", OF assms(1) a(1)]) (use a(2) p' in auto)
qed

lemma one_place_appended:
  assumes inv: "one_place l p" and app: "appended cs p p'" and fresh: "fresh_request (Add cs) l"
  shows "one_place (l\<lparr>present := present l @ map coin_id cs\<rparr>) p'"
proof (rule one_placeI)
  have p': "avail p' = avail p @ cs" "reserved p' = reserved p" "next_id p' = next_id p"
    using app by (simp_all add: appended_def)
  have new: "coin_id ` set cs \<inter> set (present l) = {}" "distinct (map coin_id cs)"
    using fresh by (auto simp: list_all_iff)
  have ids: "avail_ids p' = avail_ids p \<union> coin_id ` set cs"
    by (auto simp: avail_ids_def p'(1))
  show "distinct (map coin_id (avail p'))"
    using one_placeD(1,2) [OF inv] new by (auto simp: p'(1) avail_ids_def)
  show "avail_ids p' \<subseteq> set (present (l\<lparr>present := present l @ map coin_id cs\<rparr>))"
    using one_placeD(2) [OF inv] by (auto simp: ids)
  fix i ids assume "reserved p' i = Some ids"
  then have r: "reserved p i = Some ids" by (simp add: p'(2))
  show "set ids \<subseteq> set (present (l\<lparr>present := present l @ map coin_id cs\<rparr>)) \<and>
      set ids \<inter> avail_ids p' = {} \<and> i \<le> next_id p'"
    using one_placeD(3,4,5) [OF inv r] new(1) by (auto simp: ids p'(3))
next
  fix i j ids ids'
  assume "i \<noteq> j" "reserved p' i = Some ids" "reserved p' j = Some ids'"
  then show "set ids \<inter> set ids' = {}"
    using app one_placeD(6) [OF inv] by (simp add: appended_def)
next
  fix rid ids ids'
  assume "opened (l\<lparr>present := present l @ map coin_id cs\<rparr>) rid = Some ids"
  then show "unat rid \<le> next_id p' \<and> (reserved p' (unat rid) = Some ids' \<longrightarrow> ids' = ids)"
    using app one_placeD(7,8) [OF inv] by (auto simp: appended_def)
qed

lemma one_place_consumed:
  assumes inv: "one_place l p" and cons: "consumed (unat rid) p p'"
  shows "one_place l p'"
    "opened l rid = Some ids \<Longrightarrow> reserved p (unat rid) \<noteq> None \<Longrightarrow>
       one_place (l\<lparr>present := filter (\<lambda>x. x \<notin> set ids) (present l)\<rparr>) p'"
proof -
  have p': "avail p' = avail p" "next_id p' = next_id p"
    "reserved p' = (reserved p)(unat rid := None)" "avail_ids p' = avail_ids p"
    using cons by (simp_all add: consumed_def avail_ids_def)
  show "one_place l p'"
    by (rule one_place_sub [where gone = "{}", OF inv]) (use p' one_placeD(1) [OF inv] in
        \<open>auto split: if_splits\<close>)
  assume "opened l rid = Some ids" "reserved p (unat rid) \<noteq> None"
  then have r: "reserved p (unat rid) = Some ids" using one_placeD(8) [OF inv] by blast
  show "one_place (l\<lparr>present := filter (\<lambda>x. x \<notin> set ids) (present l)\<rparr>) p'"
  proof (rule one_place_sub [where gone = "set ids", OF inv])
    fix i ids' assume "reserved p' i = Some ids'"
    then have i: "i \<noteq> unat rid" "reserved p i = Some ids'" by (auto simp: p'(3) split: if_splits)
    with one_placeD(6) [OF inv i(1) i(2) r] show "reserved p i = Some ids' \<and> set ids' \<inter> set ids = {}"
      by simp
  qed (use p' one_placeD(1) [OF inv] one_placeD(4) [OF inv r] in auto)
qed

lemma one_place_lapsed:
  assumes inv: "one_place l p" and lap: "lapsed is p p'"
  shows "one_place l p'"
    "one_place (l\<lparr>present :=
       filter (\<lambda>x. x \<notin> set (concat (map (\<lambda>i. the (reserved p i)) is))) (present l)\<rparr>) p'"
proof -
  have p': "avail p' = avail p" "next_id p' = next_id p"
    "reserved p' = (\<lambda>i. if i \<in> set is then None else reserved p i)" "avail_ids p' = avail_ids p"
    "\<And>i. i \<in> set is \<Longrightarrow> \<exists>ids. reserved p i = Some ids"
    using lap by (auto simp: lapsed_def avail_ids_def)
  show "one_place l p'"
    by (rule one_place_sub [where gone = "{}", OF inv]) (use p' one_placeD(1) [OF inv] in
        \<open>auto split: if_splits\<close>)
  let ?gone = "concat (map (\<lambda>i. the (reserved p i)) is)"
  show "one_place (l\<lparr>present := filter (\<lambda>x. x \<notin> set ?gone) (present l)\<rparr>) p'"
  proof (rule one_place_sub [where gone = "set ?gone", OF inv])
    have "avail_ids p \<inter> set (the (reserved p i)) = {}" if "i \<in> set is" for i
      using p'(5) [OF that] one_placeD(4) [OF inv] by fastforce
    then show "avail_ids p' \<subseteq> avail_ids p - set ?gone" by (auto simp: p'(4))
  next
    fix i ids assume "reserved p' i = Some ids"
    then have i: "i \<notin> set is" "reserved p i = Some ids" by (auto simp: p'(3) split: if_splits)
    have "set ids \<inter> set (the (reserved p j)) = {}" if j: "j \<in> set is" for j
    proof -
      obtain ids' where r: "reserved p j = Some ids'" using p'(5) [OF j] ..
      have "i \<noteq> j" using i(1) j by blast
      from one_placeD(6) [OF inv this i(2) r] r show ?thesis by simp
    qed
    with i(2) show "reserved p i = Some ids \<and> set ids \<inter> set ?gone = {}" by auto
  qed (use p' one_placeD(1) [OF inv] in auto)
qed

text \<open>Every request keeps the invariant, whatever its effect.\<close>

lemma one_place_effect:
  assumes inv: "one_place l p" and eff: "effect_ok q r p p'" and fresh: "fresh_request q l"
  shows "one_place (ledger_step q r l) p'"
proof (cases q)
  case (Reserve b d)
  with eff consider n where "r = Failed" "popped n p p'" | n where "r = Failed" "granted n p p'"
    | n rid where "granted n p p'" "r = Reserved rid (take n (avail p))" "unat rid = Suc (next_id p)"
    by (auto simp: effect_ok_def)
  then show ?thesis
  proof cases
    case 1
    with Reserve one_place_popped [OF inv] show ?thesis by simp
  next
    case 2
    with Reserve one_place_granted [OF inv] show ?thesis by simp
  next
    case 3
    from one_place_granted [OF inv 3(1)] 3 Reserve show ?thesis by auto
  qed
next
  case (Ready rid)
  with eff consider "r = Done" "consumed (unat rid) p p'" "reserved p (unat rid) \<noteq> None"
    | "r = Failed" "p' = p" | "r = Failed" "consumed (unat rid) p p'"
    by (auto simp: effect_ok_def)
  then show ?thesis
    by cases (use Ready inv one_place_consumed [OF inv] in \<open>auto split: option.splits\<close>)
next
  case (Add cs)
  have more: "one_place (l\<lparr>present := present l @ map coin_id cs\<rparr>) p"
    by (rule one_place_sub [where gone = "{}", OF inv])
      (use one_placeD(1) [OF inv] in auto)
  from Add eff consider "appended cs p p'" | "p' = p" by (auto simp: effect_ok_def)
  then show ?thesis
    by cases (use Add more one_place_appended [OF inv] fresh in auto)
next
  case Expire
  with eff consider "is" where "lapsed is p p'"
      "r = Expired (concat (map (\<lambda>i. the (reserved p i)) is))"
    | "is" where "lapsed is p p'" "r = Failed"
    by (auto simp: effect_ok_def)
  then show ?thesis
    by cases (use Expire one_place_lapsed [OF inv] in auto)
qed

end
