(* ===== verification/Pool_Client.thy ===== *)
theory Pool_Client
  imports Pool_System
begin

text \<open>
  The interface between the coin pool and its callers. A \<open>coin_store\<close> is anything whose requests
  have the effects \<open>effect_ok\<close> allows; the lemmas of the locale are what the callers rely on: a coin
  given to one caller is not given to another before it was added again, and a reservation is either
  consumed or expired, never both. The locale is interpreted on \<open>RedisStorage\<close>, for every fault
  pattern, so its lemmas hold of the scripts and the Rust code that calls them.
\<close>

lemma drive_length: "drive handle qs s = (rs, s') \<Longrightarrow> length rs = length qs"
  by (induction qs arbitrary: s rs s') (auto split: prod.splits)

lemma drive_Cons:
  "drive handle (q # qs) s = (rs, s') \<Longrightarrow>
     \<exists>r rs1 s1. handle q s = (r, s1) \<and> drive handle qs s1 = (rs1, s') \<and> rs = r # rs1"
  by (auto split: prod.splits)

locale coin_store =
  fixes holds :: "'s \<Rightarrow> ('id, 'dg) pool \<Rightarrow> bool"
    and handle :: "('id, 'dg) request \<Rightarrow> 's \<Rightarrow> ('id, 'dg) reply \<times> 's"
  assumes effect: "holds s p \<Longrightarrow> handle q s = (r, s') \<Longrightarrow> \<exists>p'. holds s' p' \<and> effect_ok q r p p'"
begin

text \<open>A coin that is not free is not handed out until it is added.\<close>

lemma absent:
  assumes "holds s p" and "x \<notin> avail_ids p" and "drive handle qs s = (rs, s')"
    and "j < length qs" and "rs ! j = Reserved rid cs" and "x \<in> coin_id ` set cs"
  shows "\<exists>k < j. \<exists>ds. qs ! k = Add ds \<and> x \<in> coin_id ` set ds"
  using assms
proof (induction qs arbitrary: s p rs j)
  case Nil
  then show ?case by simp
next
  case (Cons q qs)
  obtain r rs1 s1 where step: "handle q s = (r, s1)" and rest: "drive handle qs s1 = (rs1, s')"
    and rs: "rs = r # rs1"
    using drive_Cons [OF Cons.prems(3)] by blast
  obtain p1 where p1: "holds s1 p1" "effect_ok q r p p1"
    using effect [OF Cons.prems(1) step] by blast
  show ?case
  proof (cases "\<exists>ds. q = Add ds \<and> x \<in> coin_id ` set ds")
    case True
    have "j \<noteq> 0"
      using True p1(2) Cons.prems(5) rs by (cases j) (auto simp: effect_ok_def)
    with True show ?thesis by (intro exI [of _ 0]) auto
  next
    case False
    have x1: "x \<notin> avail_ids p1"
      using p1(2) False Cons.prems(2)
      by (cases q) (auto simp: effect_ok_def avail_ids_def popped_def granted_def consumed_def
          appended_def lapsed_def dest!: in_set_dropD)
    show ?thesis
    proof (cases j)
      case 0
      then have "r = Reserved rid cs" using Cons.prems(5) rs by simp
      then obtain n where "cs = take n (avail p)"
        using p1(2) by (cases q) (auto simp: effect_ok_def)
      then have "x \<in> avail_ids p"
        using Cons.prems(6) by (auto simp: avail_ids_def dest: in_set_takeD)
      with Cons.prems(2) show ?thesis by blast
    next
      case (Suc i)
      have "i < length qs" "rs1 ! i = Reserved rid cs"
        using Suc Cons.prems(4,5) rs by simp_all
      from Cons.IH [OF p1(1) x1 rest this Cons.prems(6)]
      obtain k ds where "k < i" "qs ! k = Add ds" "x \<in> coin_id ` set ds" by blast
      with Suc show ?thesis by (intro exI [of _ "Suc k"]) auto
    qed
  qed
qed

text \<open>The coins of one grant are distinct and at most 256, and leave the free coins.\<close>

lemma grant:
  assumes "holds s p" and "one_place l p" and "handle (Reserve b d) s = (Reserved rid cs, s1)"
  shows "distinct (map coin_id cs)" "length cs \<le> max_gas_per_query"
    "\<exists>p1. holds s1 p1 \<and> one_place (ledger_step (Reserve b d) (Reserved rid cs) l) p1 \<and>
       (\<forall>x \<in> coin_id ` set cs. x \<notin> avail_ids p1)"
proof -
  obtain p1 where p1: "holds s1 p1" "effect_ok (Reserve b d) (Reserved rid cs) p p1"
    using effect [OF assms(1,3)] by blast
  then obtain n where n: "granted n p p1" "cs = take n (avail p)"
    by (auto simp: effect_ok_def)
  then have a': "avail p1 = drop n (avail p)" "n \<le> max_gas_per_query"
    by (simp_all add: granted_def)
  note a = avail_split [OF one_placeD(1) [OF assms(2)] a'(1)]
  show "distinct (map coin_id cs)" using a(4) by (simp add: n(2))
  show "length cs \<le> max_gas_per_query" using a'(2) by (simp add: n(2))
  have "one_place (ledger_step (Reserve b d) (Reserved rid cs) l) p1"
    by (rule one_place_effect [OF assms(2) p1(2)]) simp
  with p1(1) a(3) n(2) show "\<exists>p1. holds s1 p1 \<and>
      one_place (ledger_step (Reserve b d) (Reserved rid cs) l) p1 \<and>
      (\<forall>x \<in> coin_id ` set cs. x \<notin> avail_ids p1)" by auto
qed

lemma no_double_grant:
  assumes "holds s p" and "one_place l p" and "drive handle qs s = (rs, s')"
    and "disciplined qs rs l" and "i < j" and "j < length qs"
    and "rs ! i = Reserved ri ci" and "rs ! j = Reserved rj cj"
    and "x \<in> coin_id ` set ci" and "x \<in> coin_id ` set cj"
  shows "\<exists>k. i < k \<and> k < j \<and> (\<exists>ds. qs ! k = Add ds \<and> x \<in> coin_id ` set ds)"
  using assms
proof (induction qs arbitrary: s p l rs i j)
  case Nil
  then show ?case by simp
next
  case (Cons q qs)
  obtain r rs1 s1 where step: "handle q s = (r, s1)" and rest: "drive handle qs s1 = (rs1, s')"
    and rs: "rs = r # rs1"
    using drive_Cons [OF Cons.prems(3)] by blast
  have disc: "fresh_request q l" "disciplined qs rs1 (ledger_step q r l)"
    using Cons.prems(4) rs by simp_all
  obtain j1 where j1: "j = Suc j1" using Cons.prems(5) by (cases j) auto
  have rj: "j1 < length qs" "rs1 ! j1 = Reserved rj cj" using Cons.prems(6,8) rs j1 by simp_all
  show ?case
  proof (cases i)
    case 0
    then have r: "r = Reserved ri ci" using Cons.prems(7) rs by simp
    then obtain b d where q: "q = Reserve b d"
      using effect [OF Cons.prems(1) step] by (cases q) (auto simp: effect_ok_def)
    obtain p1 where "holds s1 p1" "x \<notin> avail_ids p1"
      using grant(3) [OF Cons.prems(1,2) step [unfolded q r]] Cons.prems(9) by blast
    from absent [OF this rest rj Cons.prems(10)]
    obtain k ds where "k < j1" "qs ! k = Add ds" "x \<in> coin_id ` set ds" by blast
    with 0 j1 show ?thesis by (intro exI [of _ "Suc k"]) auto
  next
    case (Suc i1)
    obtain p1 where p1: "holds s1 p1" "effect_ok q r p p1"
      using effect [OF Cons.prems(1) step] by blast
    have "rs1 ! i1 = Reserved ri ci" "i1 < j1" using Suc j1 Cons.prems(5,7) rs by simp_all
    from Cons.IH [OF p1(1) one_place_effect [OF Cons.prems(2) p1(2) disc(1)] rest disc(2) this(2)
        rj(1) this(1) rj(2) Cons.prems(9,10)]
    obtain k ds where "i1 < k" "k < j1" "qs ! k = Add ds" "x \<in> coin_id ` set ds" by blast
    with Suc j1 show ?thesis by (intro exI [of _ "Suc k"]) auto
  qed
qed

text \<open>After any disciplined sequence of requests every coin is still in at most one place.\<close>

lemma reachable:
  assumes "holds s p" and "one_place l p" and "drive handle qs s = (rs, s')"
    and "disciplined qs rs l"
  shows "\<exists>p'. holds s' p' \<and> one_place (ledger_run qs rs l) p'"
  using assms
proof (induction qs arbitrary: s p l rs)
  case Nil
  then show ?case by auto
next
  case (Cons q qs)
  obtain r rs1 s1 where step: "handle q s = (r, s1)" and rest: "drive handle qs s1 = (rs1, s')"
    and rs: "rs = r # rs1"
    using drive_Cons [OF Cons.prems(3)] by blast
  obtain p1 where p1: "holds s1 p1" "effect_ok q r p p1"
    using effect [OF Cons.prems(1) step] by blast
  have disc: "fresh_request q l" "disciplined qs rs1 (ledger_step q r l)"
    using Cons.prems(4) rs by simp_all
  from Cons.IH [OF p1(1) one_place_effect [OF Cons.prems(2) p1(2) disc(1)] rest disc(2)]
  show ?case by (simp add: rs)
qed

text \<open>A reservation that was consumed is never consumed again, nor reported as expired.\<close>

lemma consumed_once:
  assumes "holds s p" and "reserved p (unat rid) = None" and "unat rid \<le> next_id p"
    and "drive handle qs s = (rs, s')" and "j < length qs" and "qs ! j = Ready rid"
  shows "rs ! j = Failed"
  using assms
proof (induction qs arbitrary: s p rs j)
  case Nil
  then show ?case by simp
next
  case (Cons q qs)
  obtain r rs1 s1 where step: "handle q s = (r, s1)" and rest: "drive handle qs s1 = (rs1, s')"
    and rs: "rs = r # rs1"
    using drive_Cons [OF Cons.prems(4)] by blast
  obtain p1 where p1: "holds s1 p1" "effect_ok q r p p1"
    using effect [OF Cons.prems(1) step] by blast
  have keep: "reserved p1 (unat rid) = None" "unat rid \<le> next_id p1"
    using p1(2) Cons.prems(2,3)
    by (cases q; auto simp: effect_ok_def popped_def granted_def consumed_def appended_def
        lapsed_def)+
  show ?case
  proof (cases j)
    case 0
    then show ?thesis using p1(2) Cons.prems(2,6) rs by (auto simp: effect_ok_def)
  next
    case (Suc i)
    then show ?thesis using Cons.IH [OF p1(1) keep rest, of i] Cons.prems(5,6) rs by simp
  qed
qed

lemma consume_race:
  assumes "holds s p" and "one_place l p" and "handle (Ready rid) s = (Done, s1)"
    and "drive handle qs s1 = (rs, s')" and "j < length qs" and "qs ! j = Ready rid"
  shows "rs ! j = Failed"
proof -
  obtain p1 where p1: "holds s1 p1" "effect_ok (Ready rid) Done p p1"
    using effect [OF assms(1,3)] by blast
  then have "consumed (unat rid) p p1" "reserved p (unat rid) \<noteq> None"
    by (auto simp: effect_ok_def)
  then have "reserved p1 (unat rid) = None" "unat rid \<le> next_id p1"
    using one_placeD(5) [OF assms(2)] by (auto simp: consumed_def)
  from consumed_once [OF p1(1) this assms(4-6)] show ?thesis .
qed

end

text \<open>\<open>RedisStorage\<close> provides the interface, whatever faults the network and the scripts have.\<close>

definition redis_holds ::
  "('id, 'dg) codec \<Rightarrow> redis_storage \<Rightarrow> 'z world_scheme \<Rightarrow> ('id, 'dg) pool \<Rightarrow> bool"
where
  "redis_holds C self w p \<longleftrightarrow> codec_ok C \<and> pool_rel C (namespace self) (keys w) p"

interpretation redis: coin_store "redis_holds C self" "serve C latest self" for C latest self
proof unfold_locales
  fix s p q r s'
  assume "redis_holds C self s p" "serve C latest self q s = (r, s')"
  then show "\<exists>p'. redis_holds C self s' p' \<and> effect_ok q r p p'"
    using serve_effect [of C self s p latest q r s'] by (simp add: redis_holds_def)
qed


section \<open>Examples\<close>

text \<open>A pool with no coins, as a new installation leaves it, and requests to it.\<close>

definition ex_self :: redis_storage where
  "ex_self = \<lparr>sponsor_str = ''0x1'', namespace = ''n:registry''\<rparr>"

definition empty_pool :: "('id, 'dg) pool" where
  "empty_pool = \<lparr>avail = [], total_bal = 0, coin_count = 0, reserved = Map.empty,
     expiry = Map.empty, next_id = 0, init_lock = None, maintenance = None\<rparr>"

definition empty_keys :: "string \<Rightarrow> keyspace" where
  "empty_keys ns = [k_total ns \<mapsto> RString ''0'', k_count ns \<mapsto> RString ''0'']"

definition ex_world :: world where
  "ex_world = \<lparr>keys = empty_keys ''n:registry'', clock = [1000], faults = [], events = []\<rparr>"

definition ex_coin :: "nat \<Rightarrow> u64 \<Rightarrow> (nat, nat) gas_coin" where
  "ex_coin i b = \<lparr>object_ref = (i, 1, i), balance = b\<rparr>"

lemma show_int_0: "show_int 0 = ''0''"
  by (simp add: show_int_def show_nat.simps digit_char_def)

lemma empty_pool_rel: "pool_rel C ns (empty_keys ns) empty_pool"
  using show_int_0
  by (auto simp: pool_rel_def empty_keys_def empty_pool_def list_val_def resv_val_def queue_rel_def
      zset_val_def next_rel_def lock_rel_def schema_ok_def)

lemma empty_one_place: "one_place \<lparr>present = [], opened = Map.empty\<rparr> empty_pool"
  by (rule one_placeI) (auto simp: empty_pool_def avail_ids_def)

definition ex_requests :: "(nat, nat) request list" where
  "ex_requests = [Add [ex_coin 7 5, ex_coin 8 6], Reserve 5 100, Ready 1, Add [ex_coin 7 3],
     Reserve 8 100]"

definition ex_replies :: "(nat, nat) reply list" where
  "ex_replies = [Done, Reserved 1 [ex_coin 7 5], Done, Done, Reserved 2 [ex_coin 8 6, ex_coin 7 3]]"


text \<open>Equations that run the scripts and the storage methods on closed terms.\<close>

lemma take_coins_stop:
  "\<not> (tot < target \<and> length coins < max_gas_per_query) \<Longrightarrow>
     take_coins k target tot coins oids db = (Inr (tot, coins, oids), db)"
  by (subst take_coins.simps) auto

lemma take_coins_go:
  "tot < target \<and> length coins < max_gas_per_query \<Longrightarrow> take_coins k target tot coins oids db =
     (case redis_lpop k db of
        (Inl e, db') \<Rightarrow> (Inl e, db')
      | (Inr None, db') \<Rightarrow> (Inr (tot, coins, oids), db')
      | (Inr (Some coin), db') \<Rightarrow>
          (case (lua_coin_balance coin, lua_coin_object_id coin) of
             (Some bal, Some object_id) \<Rightarrow>
               take_coins k target (lua_add tot bal) (coins @ [coin]) (oids @ [object_id]) db'
           | _ \<Rightarrow> (Inl NilArith, db')))"
  by (subst take_coins.simps) simp

lemmas number_exec [exec_simps] =
  digit_char_def is_digit_def digit_val_def read_int.simps read_nat_def show_int_def parse_u64_def
  lua_num_exact lua_add_def lua_sub_def lua_tonumber_def Let_def

lemmas redis_exec [exec_simps] =
  redis_get_def redis_set_def redis_exists_def redis_del_simp redis_incr_def i64_range_def
  redis_lpop_def redis_lpush_def redis_rpush_def redis_lall_def redis_llen_def list_val_def
  redis_zadd_def zadd_def redis_zrangebyscore_def redis_zremrangebyscore_def redis_zall_def
  zset_val_def in_score_def

lemmas coin_exec [exec_simps] =
  format_coin_def parse_coin_def lua_coin_balance_def lua_coin_object_id_def lua_cut_def
  coin_id_def nat_codec_def ex_coin_def

lemmas script_exec [exec_simps] =
  lock_time_def reserve_gas_coins_lua_def take_coins_stop take_coins_go max_gas_per_query_def
  ready_for_execution_lua_def add_new_coins_lua_def mark_initialized_def expire_coins_lua_def
  get_available_coin_count_lua_def stored_int_def script_manager_defs

lemmas storage_exec [exec_simps] =
  invoke_def next_fault_def utc_now_ms_def utc_now_sec_def add_duration_ms_def
  reserve_gas_coins_def ready_for_execution_def add_new_coins_def publish_pool_gauges_def
  expire_coins_def parse_expired_def get_available_coin_count_def reply_to_u64_def

lemmas example_exec [exec_simps] =
  ex_self_def ex_world_def empty_keys_def

lemma ex_run: "fst (drive (serve nat_codec 100000 ex_self) ex_requests ex_world) = ex_replies"
  by (simp add: exec_simps ex_requests_def ex_replies_def)

lemma ex_disciplined: "disciplined ex_requests ex_replies \<lparr>present = [], opened = Map.empty\<rparr>"
  by (simp add: ex_requests_def ex_replies_def exec_simps)

section \<open>Properties\<close>

text \<open>
  C1: No coin is handed to two callers. For every sequence of requests in which coins are added only
  when the pool does not hold them, two grants that share a coin have an addition of that coin
  between them. This holds for every fault of the network, every script error, every clock and all
  balances, also where the sums of the scripts are rounded.
\<close>

theorem no_coin_handed_out_twice:
  assumes "codec_ok C" and "pool_rel C (namespace self) (keys w) p" and "one_place l p"
    and "drive (serve C latest self) qs w = (rs, w')" and "disciplined qs rs l"
    and "i < j" and "j < length qs"
    and "rs ! i = Reserved ri ci" and "rs ! j = Reserved rj cj"
    and "x \<in> coin_id ` set ci" and "x \<in> coin_id ` set cj"
  shows "\<exists>k. i < k \<and> k < j \<and> (\<exists>ds. qs ! k = Add ds \<and> x \<in> coin_id ` set ds)"
  using redis.no_double_grant [OF _ assms(3-)] assms(1,2) by (simp add: redis_holds_def)

theorem no_coin_handed_out_twice_witness:
  "\<exists>k. 1 < k \<and> k < 4 \<and> (\<exists>ds. ex_requests ! k = Add ds \<and> 7 \<in> coin_id ` set ds)"
proof -
  obtain w' where run: "drive (serve nat_codec 100000 ex_self) ex_requests ex_world = (ex_replies, w')"
    using ex_run by (metis prod.collapse)
  have rel: "pool_rel nat_codec (namespace ex_self) (keys ex_world) empty_pool"
    using empty_pool_rel by (simp add: ex_world_def ex_self_def)
  show ?thesis
    by (rule no_coin_handed_out_twice [OF nat_codec_ok rel empty_one_place run ex_disciplined,
        where ri = 1 and rj = 2 and ci = "[ex_coin 7 5]" and cj = "[ex_coin 8 6, ex_coin 7 3]"])
      (simp_all add: ex_requests_def ex_replies_def ex_coin_def coin_id_def)
qed






end
