(* ===== verification/Pool_Storage.thy ===== *)
theory Pool_Storage
  imports Pool_Client
begin

text \<open>
  What each storage method does to a well-formed pool when the network is quiet: the exact reply,
  the new pool and the metrics; and what goes wrong when it is not quiet, or when the arguments are
  outside what the callers check.
\<close>

section \<open>A quiet network\<close>

definition quiet :: "int \<Rightarrow> 'z world_scheme \<Rightarrow> bool" where
  "quiet t w \<longleftrightarrow> faults w = [] \<and> clock w = [t]"

lemma quiet_upd [simp]:
  "quiet t (w\<lparr>events := es\<rparr>) = quiet t w" "quiet t (w\<lparr>keys := k\<rparr>) = quiet t w"
  by (simp_all add: quiet_def)

lemma quiet_now [simp]: "quiet t w \<Longrightarrow> utc_now_ms w = (Ok t, w)"
  by (simp add: quiet_def)

lemma quiet_sec [simp]: "quiet t w \<Longrightarrow> utc_now_sec w = (Ok (t div 1000), w)"
  by (simp add: utc_now_sec_def)

lemma invoke_quiet_Ok: "quiet t w \<Longrightarrow> s (keys w) = (Inr a, d) \<Longrightarrow> invoke s w = (Ok a, w\<lparr>keys := d\<rparr>)"
  by (simp add: invoke_quiet quiet_def)

lemma invoke_quiet_Err: "quiet t w \<Longrightarrow> s (keys w) = (Inl e, d) \<Longrightarrow>
    invoke s w = (Err (Foreign (script_error_text e)), w\<lparr>keys := d\<rparr>)"
  by (simp add: invoke_error quiet_def)

section \<open>Reserving\<close>

text \<open>The range of times and budgets in which Lua computes exactly.\<close>

definition exact_request :: "int \<Rightarrow> int \<Rightarrow> u64 \<Rightarrow> u64 \<Rightarrow> bool" where
  "exact_request latest t b d \<longleftrightarrow>
     uint b \<le> 2 ^ 53 \<and> 0 \<le> t \<and> t + uint d \<le> latest \<and> latest \<le> 2 ^ 53"

lemma exact_requestD:
  assumes "exact_request latest t b d"
  shows "lua_num (uint b) = uint b" "lua_num (t + uint d) = t + uint d"
    "lua_num (t div 1000) = t div 1000" "add_duration_ms latest t d = Ok (t + uint d)"
proof -
  have "0 \<le> t" using assms by (simp add: exact_request_def)
  moreover have "1000 * (t div 1000) + t mod 1000 = t" "0 \<le> t mod 1000" "t mod 1000 < 1000"
    by simp_all
  ultimately have "0 \<le> t div 1000" "t div 1000 \<le> t" by linarith+
  moreover have "t \<le> 2 ^ 53"
    using assms uint_ge_0 [of d] unfolding exact_request_def by linarith
  ultimately show "lua_num (t div 1000) = t div 1000"
    by (intro lua_num_exact) simp
  show "lua_num (uint b) = uint b" "lua_num (t + uint d) = t + uint d"
    "add_duration_ms latest t d = Ok (t + uint d)"
    using assms by (auto simp: exact_request_def add_duration_ms_def intro!: lua_num_exact)
qed

lemma reserve_grants_run:
  assumes "codec_ok C" and "pool_rel C (namespace self) (keys w) p" and "pool_inv p"
    and "quiet t w" and "exact_request latest t b d" and "b \<noteq> 0"
    and "\<not> in_maintenance (t div 1000) p" and "next_id p < 2 ^ 63 - 1"
    and "cut (uint b) (avail p) = Some n"
  shows "\<exists>ks. reserve_gas_coins C latest self b d w =
      (Ok (of_nat (Suc (next_id p)), take n (avail p)),
       w\<lparr>keys := ks, events := events w @
         [Inc ''num_reserve_gas_coins_requests'',
          SetGauge ''gas_station_available_gas_coin_count'' (namespace self)
            (int (length (avail p) - n)),
          SetGauge ''gas_station_available_gas_total_balance'' (namespace self)
            (bal_sum (drop n (avail p))),
          Inc ''num_successful_reserve_gas_coins_requests'']\<rparr>) \<and>
    pool_rel C (namespace self) ks (reserve_pool n (t + uint d) p) \<and>
    pool_inv (reserve_pool n (t + uint d) p) \<and>
    n \<le> 256 \<and> uint b \<le> bal_sum (take n (avail p)) \<and>
    (\<forall>m. m < n \<longrightarrow> bal_sum (take m (avail p)) < uint b)"
proof -
  note ex = exact_requestD [OF assms(5)]
  obtain ks where lua: "reserve_gas_coins_lua (namespace self) (uint b) (t + uint d) (t div 1000) (keys w) =
      (Inr (int (Suc (next_id p)), map (format_coin C) (take n (avail p)),
        total_bal p - bal_sum (take n (avail p)), coin_count p - int n), ks)"
    and rel: "pool_rel C (namespace self) ks (reserve_pool n (t + uint d) p)"
    using reserve_granted_rel [OF assms(1-3), of "t div 1000" "uint b" n "t + uint d"]
      assms(7,8,9) by (auto simp: ex)
  have n: "n \<le> length (avail p)" by (rule cut_Some(2) [OF assms(9)])
  have stats: "total_bal p - bal_sum (take n (avail p)) = bal_sum (drop n (avail p))"
    "coin_count p - int n = int (length (avail p) - n)"
    using pool_inv_bounds [OF assms(3)] bal_sum_take_drop [of n "avail p"] n by simp_all
  have pos: "take n (avail p) \<noteq> []"
  proof
    assume none: "take n (avail p) = []"
    have "uint b \<le> 0" using cut_Some(3) [OF assms(9)] unfolding none bal_sum_simps .
    then have "uint b = 0" using uint_ge_0 [of b] by linarith
    with assms(6) show False by (simp add: uint_0_iff)
  qed
  let ?w0 = "w\<lparr>events := events w @ [Inc ''num_reserve_gas_coins_requests'']\<rparr>"
  have q0: "quiet t ?w0" using assms(4) by simp
  have inv: "invoke (reserve_gas_coins_lua (namespace self) (uint b) (t + uint d) (t div 1000)) ?w0 =
      (Ok (int (Suc (next_id p)), map (format_coin C) (take n (avail p)),
        total_bal p - bal_sum (take n (avail p)), coin_count p - int n), ?w0\<lparr>keys := ks\<rparr>)"
    by (rule invoke_quiet_Ok [OF q0]) (simp add: lua)
  have "reserve_gas_coins C latest self b d w =
      (Ok (of_nat (Suc (next_id p)), take n (avail p)),
       w\<lparr>keys := ks, events := events w @
         [Inc ''num_reserve_gas_coins_requests'',
          SetGauge ''gas_station_available_gas_coin_count'' (namespace self)
            (int (length (avail p) - n)),
          SetGauge ''gas_station_available_gas_total_balance'' (namespace self)
            (bal_sum (drop n (avail p))),
          Inc ''num_successful_reserve_gas_coins_requests'']\<rparr>)"
    using q0 inv pos map_result_parse [OF assms(1), of "take n (avail p)"]
    by (simp add: reserve_gas_coins_def script_manager_defs ex(4) stats publish_pool_gauges_def)
  moreover have "pool_inv (reserve_pool n (t + uint d) p)"
    by (rule pool_inv_reserve [OF assms(3) n]) (use assms(5) in \<open>simp add: exact_request_def\<close>)
  ultimately show ?thesis
    using rel cut_Some [OF assms(9)] by (auto simp: max_gas_per_query_def)
qed

text \<open>
  C8: When the free coins can cover the budget, \<open>reserve_gas_coins\<close> hands out the shortest prefix of
  the free list that does, at most 256 coins, under the next reservation id; it records the
  reservation and its expiration time, keeps the statistics equal to the coins left, and counts the
  request as successful.
\<close>

theorem reserve_gas_coins_grants:
  assumes "codec_ok C" and "pool_rel C (namespace self) (keys w) p" and "pool_inv p"
    and "quiet t w" and "exact_request latest t b d" and "b \<noteq> 0"
    and "\<not> in_maintenance (t div 1000) p" and "next_id p < 2 ^ 63 - 1"
    and "cut (uint b) (avail p) = Some n"
  shows "\<exists>ks. reserve_gas_coins C latest self b d w =
      (Ok (of_nat (Suc (next_id p)), take n (avail p)),
       w\<lparr>keys := ks, events := events w @
         [Inc ''num_reserve_gas_coins_requests'',
          SetGauge ''gas_station_available_gas_coin_count'' (namespace self)
            (int (length (avail p) - n)),
          SetGauge ''gas_station_available_gas_total_balance'' (namespace self)
            (bal_sum (drop n (avail p))),
          Inc ''num_successful_reserve_gas_coins_requests'']\<rparr>) \<and>
    pool_rel C (namespace self) ks (reserve_pool n (t + uint d) p) \<and>
    pool_inv (reserve_pool n (t + uint d) p) \<and>
    n \<le> 256 \<and> uint b \<le> bal_sum (take n (avail p)) \<and>
    (\<forall>m. m < n \<longrightarrow> bal_sum (take m (avail p)) < uint b)"
  using assms by (rule reserve_grants_run)

lemma reserve_refuses_run:
  assumes "codec_ok C" and "pool_rel C (namespace self) (keys w) p" and "pool_inv p"
    and "quiet t w" and "exact_request latest t b d"
    and "in_maintenance (t div 1000) p \<or> cut (uint b) (avail p) = None"
  shows "\<exists>m. reserve_gas_coins C latest self b d w =
      (Err (Anyhow m), w\<lparr>events := events w @ [Inc ''num_reserve_gas_coins_requests'']\<rparr>) \<and>
    (if in_maintenance (t div 1000) p then m = maintenance_mode_error_message
     else m = ''Unable to reserve gas coins for the given budget.'' \<and>
       (\<forall>n. n \<le> 256 \<longrightarrow> bal_sum (take n (avail p)) < uint b))"
proof -
  note ex = exact_requestD [OF assms(5)]
  let ?w0 = "w\<lparr>events := events w @ [Inc ''num_reserve_gas_coins_requests'']\<rparr>"
  let ?s = "reserve_gas_coins_lua (namespace self) (uint b) (t + uint d) (t div 1000)"
  have q0: "quiet t ?w0" using assms(4) by simp
  have keep: "?w0\<lparr>keys := keys w\<rparr> = ?w0" by simp
  show ?thesis
  proof (cases "in_maintenance (t div 1000) p")
    case True
    then have "?s (keys w) = (Inr (- 1, [], 0, 0), keys w)"
      using reserve_maintenance_rel [OF assms(2,3)] by (simp add: ex)
    then have "invoke ?s ?w0 = (Ok (- 1, [], 0, 0), ?w0)"
      using invoke_quiet_Ok [OF q0, of ?s] by simp
    with True q0 show ?thesis
      by (simp add: reserve_gas_coins_def script_manager_defs ex(4))
  next
    case False
    then have "?s (keys w) = (Inr (0, [], 0, 0), keys w)"
      using reserve_insufficient_rel [OF assms(1-3)] assms(6) by (simp add: ex)
    then have "invoke ?s ?w0 = (Ok (0, [], 0, 0), ?w0)"
      using invoke_quiet_Ok [OF q0, of ?s] by simp
    then have "reserve_gas_coins C latest self b d w =
        (Err (Anyhow ''Unable to reserve gas coins for the given budget.''), ?w0)"
      using q0 by (simp add: reserve_gas_coins_def script_manager_defs ex(4))
    moreover have "\<forall>n. n \<le> 256 \<longrightarrow> bal_sum (take n (avail p)) < uint b"
      using cut_None [of "uint b" "avail p"] False assms(6) by (simp add: max_gas_per_query_def)
    ultimately show ?thesis using False by simp
  qed
qed

text \<open>
  C13: Otherwise it changes nothing: under maintenance it answers the maintenance message, and when
  no 256 coins from the front of the free list reach the budget it answers that it cannot reserve,
  which it does only then.
\<close>

theorem reserve_gas_coins_refuses:
  assumes "codec_ok C" and "pool_rel C (namespace self) (keys w) p" and "pool_inv p"
    and "quiet t w" and "exact_request latest t b d"
    and "in_maintenance (t div 1000) p \<or> cut (uint b) (avail p) = None"
  shows "\<exists>m. reserve_gas_coins C latest self b d w =
      (Err (Anyhow m), w\<lparr>events := events w @ [Inc ''num_reserve_gas_coins_requests'']\<rparr>) \<and>
    (if in_maintenance (t div 1000) p then m = maintenance_mode_error_message
     else m = ''Unable to reserve gas coins for the given budget.'' \<and>
       (\<forall>n. n \<le> 256 \<longrightarrow> bal_sum (take n (avail p)) < uint b))"
  using assms by (rule reserve_refuses_run)


section \<open>Consuming\<close>

lemma ready_run:
  assumes "pool_rel C (namespace self) (keys w) p" and "pool_inv p" and "quiet t w"
  shows "case reserved p (unat rid) of
      None \<Rightarrow> ready_for_execution self rid w =
        (Err (Foreign (''Reservation no longer exist: '' @ show_nat (unat rid))),
         w\<lparr>events := events w @ [Inc ''num_ready_for_execution_requests'']\<rparr>)
    | Some ids \<Rightarrow> \<exists>ks. ready_for_execution self rid w =
        (Ok (), w\<lparr>keys := ks, events := events w @
          [Inc ''num_ready_for_execution_requests'',
           Inc ''num_successful_ready_for_execution_requests'']\<rparr>) \<and>
        pool_rel C (namespace self) ks (ready_pool (unat rid) p) \<and>
        pool_inv (ready_pool (unat rid) p)"
proof -
  let ?w0 = "w\<lparr>events := events w @ [Inc ''num_ready_for_execution_requests'']\<rparr>"
  let ?s = "ready_for_execution_lua (namespace self) (show_nat (unat rid))"
  have q0: "quiet t ?w0" using assms(3) by simp
  show ?thesis
  proof (cases "reserved p (unat rid)")
    case None
    have "invoke ?s ?w0 =
        (Err (Foreign (script_error_text (Raised (''Reservation no longer exist: '' @
           show_nat (unat rid))))), ?w0)"
      using invoke_quiet_Err [OF q0, of ?s] ready_missing_rel [OF assms(1) None] by simp
    with None show ?thesis
      by (simp add: ready_for_execution_def script_manager_defs)
  next
    case (Some ids)
    have "invoke ?s ?w0 =
        (Ok (), ?w0\<lparr>keys := (keys w)(nkey (namespace self) (show_nat (unat rid)) := None)\<rparr>)"
      using invoke_quiet_Ok [OF q0, of ?s] ready_rel(1) [OF assms(1) Some] by simp
    with Some ready_rel(2) [OF assms(1) Some] pool_inv_ready [OF assms(2)] show ?thesis
      by (auto simp: ready_for_execution_def script_manager_defs)
  qed
qed

text \<open>
  C14: \<open>ready_for_execution\<close> succeeds exactly on an open reservation, which it removes; the coins do
  not come back. On any other id it is an error that names the reservation, and nothing changes.
\<close>

theorem ready_for_execution_exact:
  assumes "pool_rel C (namespace self) (keys w) p" and "pool_inv p" and "quiet t w"
  shows "case reserved p (unat rid) of
      None \<Rightarrow> ready_for_execution self rid w =
        (Err (Foreign (''Reservation no longer exist: '' @ show_nat (unat rid))),
         w\<lparr>events := events w @ [Inc ''num_ready_for_execution_requests'']\<rparr>)
    | Some ids \<Rightarrow> \<exists>ks. ready_for_execution self rid w =
        (Ok (), w\<lparr>keys := ks, events := events w @
          [Inc ''num_ready_for_execution_requests'',
           Inc ''num_successful_ready_for_execution_requests'']\<rparr>) \<and>
        pool_rel C (namespace self) ks (ready_pool (unat rid) p) \<and>
        pool_inv (ready_pool (unat rid) p)"
  using assms by (rule ready_run)

section \<open>Adding\<close>

lemma add_run:
  assumes "codec_ok C" and "pool_rel C (namespace self) (keys w) p" and "pool_inv p"
    and "quiet t w" and "bal_sum (avail p) + bal_sum cs \<le> 2 ^ 53"
    and "int (length (avail p)) + int (length cs) \<le> 2 ^ 53"
  shows "\<exists>ks. add_new_coins C self cs w =
      (Ok (), w\<lparr>keys := ks, events := events w @
         [Inc ''num_add_new_coins_requests'',
          SetGauge ''gas_station_available_gas_coin_count'' (sponsor_str self)
            (int (length (avail p @ cs))),
          SetGauge ''gas_station_available_gas_total_balance'' (sponsor_str self)
            (bal_sum (avail p @ cs)),
          Inc ''num_successful_add_new_coins_requests'']\<rparr>) \<and>
    pool_rel C (namespace self) ks (add_pool cs p) \<and> pool_inv (add_pool cs p)"
proof -
  let ?w0 = "w\<lparr>events := events w @ [Inc ''num_add_new_coins_requests'']\<rparr>"
  let ?s = "add_new_coins_lua (namespace self) (map (format_coin C) cs)"
  have q0: "quiet t ?w0" using assms(4) by simp
  obtain ks where lua: "?s (keys w) =
      (Inr (total_bal p + bal_sum cs, coin_count p + int (length cs)), ks)"
    and rel: "pool_rel C (namespace self) ks (add_pool cs p)"
    using add_new_coins_rel [OF assms(1-3,5,6)] by blast
  have "invoke ?s ?w0 =
      (Ok (total_bal p + bal_sum cs, coin_count p + int (length cs)), ?w0\<lparr>keys := ks\<rparr>)"
    using invoke_quiet_Ok [OF q0, of ?s] lua by simp
  with rel pool_inv_add [OF assms(3,5,6)] pool_inv_bounds(1,3) [OF assms(3)] show ?thesis
    by (auto simp: add_new_coins_def script_manager_defs publish_pool_gauges_def)
qed

text \<open>
  C15: \<open>add_new_coins\<close> appends the coins to the free list and keeps the two statistics equal to the
  coins, as long as the balances together stay in the range of exact arithmetic.
\<close>

theorem add_new_coins_exact:
  assumes "codec_ok C" and "pool_rel C (namespace self) (keys w) p" and "pool_inv p"
    and "quiet t w" and "bal_sum (avail p) + bal_sum cs \<le> 2 ^ 53"
    and "int (length (avail p)) + int (length cs) \<le> 2 ^ 53"
  shows "\<exists>ks. add_new_coins C self cs w =
      (Ok (), w\<lparr>keys := ks, events := events w @
         [Inc ''num_add_new_coins_requests'',
          SetGauge ''gas_station_available_gas_coin_count'' (sponsor_str self)
            (int (length (avail p @ cs))),
          SetGauge ''gas_station_available_gas_total_balance'' (sponsor_str self)
            (bal_sum (avail p @ cs)),
          Inc ''num_successful_add_new_coins_requests'']\<rparr>) \<and>
    pool_rel C (namespace self) ks (add_pool cs p) \<and> pool_inv (add_pool cs p)"
  using assms by (rule add_run)

section \<open>Expiring\<close>

lemma expire_run:
  assumes "codec_ok C" and "pool_rel C (namespace self) (keys w) p" and "pool_inv p"
    and "quiet t w" and "0 \<le> t" and "t \<le> 2 ^ 53"
    and "\<And>i. reserved p i \<noteq> Some []"
  shows "\<exists>is ks. expire_coins C self w = (Ok (concat (map (\<lambda>i. the (reserved p i)) is)),
      w\<lparr>keys := ks, events := events w @
         [Inc ''num_expire_coins_requests'', Inc ''num_successful_expire_coins_requests'']\<rparr>) \<and>
    distinct is \<and> set is = {i. expired_at t p i \<and> reserved p i \<noteq> None} \<and>
    pool_rel C (namespace self) ks (expire_pool t p) \<and> pool_inv (expire_pool t p)"
proof -
  have t: "lua_num t = t" using assms(5,6) by (intro lua_num_exact) simp
  let ?w0 = "w\<lparr>events := events w @ [Inc ''num_expire_coins_requests'']\<rparr>"
  let ?s = "expire_coins_lua (namespace self) t"
  have q0: "quiet t ?w0" using assms(4) by simp
  obtain "is" ks where lua: "?s (keys w) =
      (Inr (map (\<lambda>i. join_with '','' (map (show_id C) (the (reserved p i)))) is), ks)"
    and is_set: "distinct is" "set is = {i. expired_at t p i \<and> reserved p i \<noteq> None}"
    and rel: "pool_rel C (namespace self) ks (expire_pool t p)"
    using expire_coins_rel [OF assms(2), of t] unfolding t by blast
  have nonempty: "\<forall>i \<in> set is. the (reserved p i) \<noteq> []"
    using is_set assms(7) by auto
  have parse: "parse_expired C (map (\<lambda>i. join_with '','' (map (show_id C) (the (reserved p i)))) is) =
      Ok (concat (map (\<lambda>i. the (reserved p i)) is))"
    using parse_expired_join [OF assms(1), of "\<lambda>i. the (reserved p i)" "is"] nonempty by simp
  have "invoke ?s ?w0 = (Ok (map (\<lambda>i. join_with '','' (map (show_id C) (the (reserved p i)))) is),
      ?w0\<lparr>keys := ks\<rparr>)"
    using invoke_quiet_Ok [OF q0, of ?s] lua by simp
  then have "expire_coins C self w = (Ok (concat (map (\<lambda>i. the (reserved p i)) is)),
      w\<lparr>keys := ks, events := events w @
         [Inc ''num_expire_coins_requests'', Inc ''num_successful_expire_coins_requests'']\<rparr>)"
    using q0 by (simp add: expire_coins_def script_manager_defs parse)
  then show ?thesis using is_set rel pool_inv_expire [OF assms(3)] by blast
qed

text \<open>
  C16: \<open>expire_coins\<close> returns the coins of exactly the open reservations whose time has passed, and
  forgets these reservations and every expiration time that has passed. No coin of an open
  reservation is lost.
\<close>

theorem expire_coins_exact:
  assumes "codec_ok C" and "pool_rel C (namespace self) (keys w) p" and "pool_inv p"
    and "quiet t w" and "0 \<le> t" and "t \<le> 2 ^ 53"
    and "\<And>i. reserved p i \<noteq> Some []"
  shows "\<exists>ids ks. expire_coins C self w =
      (Ok ids, w\<lparr>keys := ks, events := events w @
         [Inc ''num_expire_coins_requests'', Inc ''num_successful_expire_coins_requests'']\<rparr>) \<and>
    set ids = (\<Union>i \<in> {i. expired_at t p i}. set (case reserved p i of None \<Rightarrow> [] | Some xs \<Rightarrow> xs)) \<and>
    pool_rel C (namespace self) ks (expire_pool t p) \<and> pool_inv (expire_pool t p)"
proof -
  obtain "is" ks where run: "expire_coins C self w = (Ok (concat (map (\<lambda>i. the (reserved p i)) is)),
      w\<lparr>keys := ks, events := events w @
         [Inc ''num_expire_coins_requests'', Inc ''num_successful_expire_coins_requests'']\<rparr>)"
    and is_set: "set is = {i. expired_at t p i \<and> reserved p i \<noteq> None}"
    and rel: "pool_rel C (namespace self) ks (expire_pool t p)" "pool_inv (expire_pool t p)"
    using expire_run [OF assms] by blast
  have "set (case reserved p i of None \<Rightarrow> [] | Some xs \<Rightarrow> xs) =
      (if reserved p i \<noteq> None then set (the (reserved p i)) else {})" for i
    by (cases "reserved p i") simp_all
  then have "set (concat (map (\<lambda>i. the (reserved p i)) is)) =
      (\<Union>i \<in> {i. expired_at t p i}. set (case reserved p i of None \<Rightarrow> [] | Some xs \<Rightarrow> xs))"
    by (simp add: is_set) blast
  with run rel show ?thesis by blast
qed

section \<open>A noisy network\<close>

text \<open>
  C25: An addition whose reply is lost has taken place. A caller that repeats it on the error, as
  \<open>retry_forever!\<close> does, puts every coin into the free list twice, and the same coin can then be
  reserved by two callers.
\<close>

theorem lost_reply_adds_twice:
  assumes "codec_ok C" and "pool_rel C (namespace self) (keys w) p"
    and "faults w = [LostReply]" and "add_new_coins C self cs w = (r1, w1)"
    and "add_new_coins C self cs w1 = (r2, w2)"
  shows "\<not> is_ok r1 \<and> r2 = Ok () \<and>
    (\<exists>p'. pool_rel C (namespace self) (keys w2) p' \<and> avail p' = avail p @ cs @ cs)"
proof -
  let ?s = "add_new_coins_lua (namespace self) (map (format_coin C) cs)"
  obtain k1 t1 c1 where s1: "?s (keys w) = (Inr (t1, c1), k1)" and
    rel1: "pool_rel C (namespace self) k1 (p\<lparr>avail := avail p @ cs, total_bal := t1, coin_count := c1\<rparr>)"
    using add_new_coins_lua_effect [OF assms(1,2), of cs] by blast
  obtain k2 t2 c2 where s2: "?s k1 = (Inr (t2, c2), k2)" and
    rel2: "pool_rel C (namespace self) k2 (p\<lparr>avail := (avail p @ cs) @ cs, total_bal := t2, coin_count := c2\<rparr>)"
    using add_new_coins_lua_effect [OF assms(1) rel1, of cs] by auto
  have 1: "r1 = Err (Foreign ''connection lost'')" "keys w1 = k1" "faults w1 = []"
    using assms(3,4) s1
    by (auto simp: add_new_coins_def script_manager_defs invoke_def next_fault_def)
  have 2: "r2 = Ok ()" "keys w2 = k2"
    using assms(5) 1(2,3) s2
    by (auto simp: add_new_coins_def script_manager_defs invoke_def next_fault_def
        publish_pool_gauges_def)
  have "\<exists>p'. pool_rel C (namespace self) (keys w2) p' \<and> avail p' = avail p @ cs @ cs"
    using rel2 2(2)
    by (intro exI [of _ "p\<lparr>avail := (avail p @ cs) @ cs, total_bal := t2, coin_count := c2\<rparr>"]) simp
  with 1 2 show ?thesis by simp
qed

text \<open>
  C26: A reservation for the budget 0 is refused, but it leaves an open reservation without coins
  behind, and once its time has passed \<open>expire_coins\<close> panics on it.
\<close>

theorem zero_budget_leaves_phantom:
  assumes "codec_ok C" and "pool_rel C (namespace self) (keys w) p" and "pool_inv p"
    and "quiet t w" and "exact_request latest t 0 d"
    and "\<not> in_maintenance (t div 1000) p" and "next_id p < 2 ^ 63 - 1"
    and "reserve_gas_coins C latest self 0 d w = (r, w1)"
  shows "\<not> is_ok r \<and> pool_rel C (namespace self) (keys w1) (reserve_pool 0 (t + uint d) p) \<and>
    (\<exists>m. fst (expire_coins C self (w1\<lparr>clock := [t + uint d]\<rparr>)) = Panic m)"
proof -
  note ex = exact_requestD [OF assms(5)]
  have t: "0 \<le> t" using assms(5) by (simp add: exact_request_def)
  let ?p = "reserve_pool 0 (t + uint d) p" and ?i = "Suc (next_id p)" and ?t = "t + uint d"
  have cut0: "cut (uint (0::u64)) (avail p) = Some 0"
    by (cases "avail p") (simp_all add: cut_def)
  obtain ks tb cc where lua: "reserve_gas_coins_lua (namespace self) (uint (0::u64)) ?t (t div 1000) (keys w) =
      (Inr (int ?i, [], tb, cc), ks)" and rel: "pool_rel C (namespace self) ks ?p"
    using reserve_granted_rel [OF assms(1-3), of "t div 1000" "uint (0::u64)" 0 ?t] assms(6,7) cut0
    by (auto simp: ex)
  let ?w0 = "w\<lparr>events := events w @ [Inc ''num_reserve_gas_coins_requests'']\<rparr>"
  have q0: "quiet t ?w0" using assms(4) by simp
  have "invoke (reserve_gas_coins_lua (namespace self) (uint (0::u64)) ?t (t div 1000)) ?w0 =
      (Ok (int ?i, [], tb, cc), ?w0\<lparr>keys := ks\<rparr>)"
    by (rule invoke_quiet_Ok [OF q0]) (simp add: lua [simplified])
  then have r: "r = Err (Anyhow ''Unable to reserve gas coins for the given budget.'')"
    "w1 = ?w0\<lparr>keys := ks\<rparr>"
    using assms(8) q0 by (auto simp: reserve_gas_coins_def script_manager_defs ex(4))
  define w2 where "w2 = w1\<lparr>clock := [?t]\<rparr>"
  let ?w3 = "w2\<lparr>events := events w2 @ [Inc ''num_expire_coins_requests'']\<rparr>"
  have q3: "quiet ?t ?w3" and k3: "keys ?w3 = ks"
    using assms(4) by (simp_all add: quiet_def w2_def r(2))
  obtain "is" ks' where exp: "expire_coins_lua (namespace self) ?t ks =
      (Inr (map (\<lambda>i. join_with '','' (map (show_id C) (the (reserved ?p i)))) is), ks')"
    and is_set: "set is = {i. expired_at ?t ?p i \<and> reserved ?p i \<noteq> None}"
    using expire_coins_rel [OF rel, of ?t] unfolding ex(2) by blast
  have "?i \<in> set is"
    using t by (simp add: is_set expired_at_def reserve_pool_def)
  moreover have "the (reserved ?p ?i) = []" by (simp add: reserve_pool_def)
  ultimately have "\<exists>m. parse_expired C
      (map (\<lambda>i. join_with '','' (map (show_id C) (the (reserved ?p i)))) is) = Panic m"
    using parse_expired_join [OF assms(1), of "\<lambda>i. the (reserved ?p i)" "is"] by auto
  moreover have "invoke (expire_coins_lua (namespace self) ?t) ?w3 =
      (Ok (map (\<lambda>i. join_with '','' (map (show_id C) (the (reserved ?p i)))) is), ?w3\<lparr>keys := ks'\<rparr>)"
    by (rule invoke_quiet_Ok [OF q3]) (simp add: k3 exp)
  ultimately have "\<exists>m. fst (expire_coins C self w2) = Panic m"
    using q3 by (auto simp: expire_coins_def script_manager_defs)
  with r rel show ?thesis by (simp add: w2_def)
qed


section \<open>Examples\<close>

text \<open>The pool of the examples after two coins were added, and after one of them was reserved.\<close>

definition ex_stock :: "(nat, nat) pool" where
  "ex_stock = add_pool [ex_coin 7 5, ex_coin 8 6] empty_pool"

definition ex_stocked :: world where
  "ex_stocked = snd (add_new_coins nat_codec ex_self [ex_coin 7 5, ex_coin 8 6] ex_world)"

definition ex_lent :: "(nat, nat) pool" where
  "ex_lent = reserve_pool 1 1100 ex_stock"

definition ex_lent_world :: world where
  "ex_lent_world = snd (reserve_gas_coins nat_codec 100000 ex_self 5 100 ex_stocked)"

lemma empty_pool_inv: "pool_inv empty_pool"
  by (simp add: pool_inv_def empty_pool_def lock_ok_def)

lemma ex_world_rel: "pool_rel nat_codec (namespace ex_self) (keys ex_world) empty_pool"
  "quiet 1000 ex_world"
  using empty_pool_rel by (simp_all add: ex_world_def ex_self_def quiet_def)

lemma ex_coin_sum: "bal_sum [ex_coin 7 5, ex_coin 8 6] = 11"
  by (simp add: ex_coin_def)

theorem add_new_coins_exact_witness:
  "\<exists>ks. add_new_coins nat_codec ex_self [ex_coin 7 5, ex_coin 8 6] ex_world =
      (Ok (), ex_world\<lparr>keys := ks, events := events ex_world @
         [Inc ''num_add_new_coins_requests'',
          SetGauge ''gas_station_available_gas_coin_count'' (sponsor_str ex_self)
            (int (length (avail empty_pool @ [ex_coin 7 5, ex_coin 8 6]))),
          SetGauge ''gas_station_available_gas_total_balance'' (sponsor_str ex_self)
            (bal_sum (avail empty_pool @ [ex_coin 7 5, ex_coin 8 6])),
          Inc ''num_successful_add_new_coins_requests'']\<rparr>) \<and>
    pool_rel nat_codec (namespace ex_self) ks ex_stock \<and> pool_inv ex_stock"
  using add_new_coins_exact [OF nat_codec_ok ex_world_rel(1) empty_pool_inv ex_world_rel(2),
      of "[ex_coin 7 5, ex_coin 8 6]", unfolded ex_coin_sum]
  by (simp add: ex_stock_def empty_pool_def)


lemma ex_stocked_rel:
  "pool_rel nat_codec (namespace ex_self) (keys ex_stocked) ex_stock" "pool_inv ex_stock"
  "quiet 1000 ex_stocked"
proof -
  let ?s = "add_new_coins_lua (namespace ex_self) (map (format_coin nat_codec) [ex_coin 7 5, ex_coin 8 6])"
  obtain ks where "?s (keys ex_world) = (Inr (11, 2), ks)"
    and rel: "pool_rel nat_codec (namespace ex_self) ks ex_stock"
    using add_new_coins_rel [OF nat_codec_ok ex_world_rel(1) empty_pool_inv,
        of "[ex_coin 7 5, ex_coin 8 6]", unfolded ex_coin_sum]
    by (auto simp: ex_stock_def empty_pool_def)
  then have run: "?s (keys ex_world) = (Inr (11, 2), ks)"
    by simp
  have f: "faults ex_world = []" "clock ex_world = [1000]" by (simp_all add: ex_world_def)
  have "keys ex_stocked = ks \<and> quiet 1000 ex_stocked"
    using run f by (simp add: ex_stocked_def add_new_coins_def script_manager_defs invoke_def
        next_fault_def publish_pool_gauges_def quiet_def)
  with rel show "pool_rel nat_codec (namespace ex_self) (keys ex_stocked) ex_stock"
    "quiet 1000 ex_stocked" by simp_all
  show "pool_inv ex_stock"
    using pool_inv_add [OF empty_pool_inv, of "[ex_coin 7 5, ex_coin 8 6]", unfolded ex_coin_sum]
    by (simp add: ex_stock_def empty_pool_def)
qed

lemma ex_stock_simps:
  "avail ex_stock = [ex_coin 7 5, ex_coin 8 6]" "next_id ex_stock = 0" "maintenance ex_stock = None"
  "reserved ex_stock = Map.empty" "expiry ex_stock = Map.empty"
  by (simp_all add: ex_stock_def add_pool_def empty_pool_def)

lemma ex_cut: "cut 5 (avail ex_stock) = Some 1" "cut 12 (avail ex_stock) = None"
  by (simp_all add: cut_def ex_stock_simps ex_coin_def max_gas_per_query_def Let_def)

lemma ex_exact: "exact_request 100000 1000 5 100" "exact_request 100000 1000 12 100"
  "exact_request 100000 1000 0 100"
  by (simp_all add: exact_request_def)

lemma ex_open: "\<not> in_maintenance x ex_stock"
  by (simp add: in_maintenance_def ex_stock_simps)

theorem reserve_gas_coins_grants_witness:
  "\<exists>ks. reserve_gas_coins nat_codec 100000 ex_self 5 100 ex_stocked =
      (Ok (1, [ex_coin 7 5]),
       ex_stocked\<lparr>keys := ks, events := events ex_stocked @
         [Inc ''num_reserve_gas_coins_requests'',
          SetGauge ''gas_station_available_gas_coin_count'' (namespace ex_self) 1,
          SetGauge ''gas_station_available_gas_total_balance'' (namespace ex_self) 6,
          Inc ''num_successful_reserve_gas_coins_requests'']\<rparr>)"
proof -
  have five: "uint (5 :: u64) = 5" by simp
  from reserve_gas_coins_grants [OF nat_codec_ok ex_stocked_rel ex_exact(1) _ ex_open, of 1,
      unfolded five ex_cut(1)]
  show ?thesis by (auto simp: ex_stock_simps ex_coin_def)
qed

theorem reserve_gas_coins_refuses_witness:
  "fst (reserve_gas_coins nat_codec 100000 ex_self 12 100 ex_stocked) =
     Err (Anyhow ''Unable to reserve gas coins for the given budget.'')"
proof -
  have twelve: "uint (12 :: u64) = 12" by simp
  from reserve_gas_coins_refuses [OF nat_codec_ok ex_stocked_rel ex_exact(2), unfolded twelve ex_cut(2)]
  show ?thesis using ex_open by auto
qed

lemma ex_lent_rel:
  "pool_rel nat_codec (namespace ex_self) (keys ex_lent_world) ex_lent" "pool_inv ex_lent"
  "quiet 1000 ex_lent_world"
proof -
  let ?s = "reserve_gas_coins_lua (namespace ex_self) 5 1100 1"
  have n: "lua_num 5 = 5" "lua_num 1100 = 1100" by (simp_all add: lua_num_exact)
  obtain ks where run: "?s (keys ex_stocked) = (Inr (1, map (format_coin nat_codec) [ex_coin 7 5],
      total_bal ex_stock - bal_sum [ex_coin 7 5], coin_count ex_stock - 1), ks)"
    and rel: "pool_rel nat_codec (namespace ex_self) ks ex_lent"
    using reserve_granted_rel [OF nat_codec_ok ex_stocked_rel(1,2), of 1 5 1 1100] ex_open ex_cut(1)
    by (auto simp: n ex_stock_simps ex_lent_def)
  have f: "faults ex_stocked = []" "clock ex_stocked = [1000]"
    using ex_stocked_rel(3) by (simp_all add: quiet_def)
  have "keys ex_lent_world = ks \<and> quiet 1000 ex_lent_world"
    using run f map_result_parse [OF nat_codec_ok, of "[ex_coin 7 5]"]
    by (simp add: ex_lent_world_def reserve_gas_coins_def script_manager_defs invoke_def
        next_fault_def publish_pool_gauges_def quiet_def utc_now_sec_def add_duration_ms_def)
  with rel show "pool_rel nat_codec (namespace ex_self) (keys ex_lent_world) ex_lent"
    "quiet 1000 ex_lent_world" by simp_all
  show "pool_inv ex_lent"
    unfolding ex_lent_def by (rule pool_inv_reserve [OF ex_stocked_rel(2)]) (simp_all add: ex_stock_simps)
qed

lemma ex_lent_simps: "reserved ex_lent = [1 \<mapsto> [7]]" "expiry ex_lent = [1 \<mapsto> 1100]"
  "avail ex_lent = [ex_coin 8 6]"
  by (simp_all add: ex_lent_def reserve_pool_def ex_stock_simps ex_coin_def coin_id_def)

theorem ready_for_execution_exact_witness:
  "fst (ready_for_execution ex_self 1 ex_lent_world) = Ok () \<and>
   (\<exists>e. fst (ready_for_execution ex_self 2 ex_lent_world) = Err e)"
  using ready_for_execution_exact [OF ex_lent_rel, of 1] ready_for_execution_exact [OF ex_lent_rel, of 2]
  by (auto simp: ex_lent_simps)

theorem expire_coins_exact_witness:
  "\<exists>ids. fst (expire_coins nat_codec ex_self (ex_lent_world\<lparr>clock := [2000]\<rparr>)) = Ok ids \<and> set ids = {7}"
proof -
  let ?w = "ex_lent_world\<lparr>clock := [2000]\<rparr>"
  have rel: "pool_rel nat_codec (namespace ex_self) (keys ?w) ex_lent" and q: "quiet 2000 ?w"
    using ex_lent_rel by (simp_all add: quiet_def)
  have due: "{i. expired_at 2000 ex_lent i} = {1}"
    by (auto simp: expired_at_def ex_lent_simps split: if_splits)
  have "reserved ex_lent i \<noteq> Some []" for i by (simp add: ex_lent_simps)
  from expire_coins_exact [OF nat_codec_ok rel ex_lent_rel(2) q _ _ this] show ?thesis
    unfolding due by (auto simp: ex_lent_simps)
qed

theorem lost_reply_adds_twice_witness:
  "let w = ex_world\<lparr>faults := [LostReply]\<rparr>;
       (r1, w1) = add_new_coins nat_codec ex_self [ex_coin 7 5] w;
       (r2, w2) = add_new_coins nat_codec ex_self [ex_coin 7 5] w1
   in \<exists>p. pool_rel nat_codec (namespace ex_self) (keys w2) p \<and> avail p = [ex_coin 7 5, ex_coin 7 5]"
proof -
  let ?w = "ex_world\<lparr>faults := [LostReply]\<rparr>"
  obtain r1 w1 where 1: "add_new_coins nat_codec ex_self [ex_coin 7 5] ?w = (r1, w1)" by fastforce
  obtain r2 w2 where 2: "add_new_coins nat_codec ex_self [ex_coin 7 5] w1 = (r2, w2)" by fastforce
  have rel: "pool_rel nat_codec (namespace ex_self) (keys ?w) empty_pool"
    using ex_world_rel by simp
  from lost_reply_adds_twice [OF nat_codec_ok rel _ 1 2] show ?thesis
    by (simp add: 1 2 empty_pool_def)
qed

theorem zero_budget_leaves_phantom_witness:
  "\<exists>m. fst (expire_coins nat_codec ex_self
     ((snd (reserve_gas_coins nat_codec 100000 ex_self 0 100 ex_stocked))\<lparr>clock := [1100]\<rparr>)) = Panic m"
  using zero_budget_leaves_phantom [OF nat_codec_ok ex_stocked_rel ex_exact(3) ex_open _
      prod.collapse [symmetric]]
  by (auto simp: ex_stock_simps)

end
