(* ===== verification/Transactions.thy ===== *)
theory Transactions
  imports Gas_Types
begin

text \<open>
  The parts of a transaction the station looks at. \<open>TransactionData\<close>, its commands and arguments and
  the effects are types of the \<open>iota_types\<close> crate; the datatypes below have the constructors and
  fields the code matches on or reads. Addresses (\<open>'addr\<close>), ids and digests stay abstract. The
  inputs of a programmable transaction are opaque values, here their count matters nowhere.
\<close>

datatype argument = GasCoin | Input nat | ResultArg nat | NestedResult nat nat

datatype 'id command =
    MoveCall (mc_package: 'id) (mc_module: string) (mc_function: string) (mc_arguments: "argument list")
  | TransferObjects "argument list" argument
  | SplitCoins argument "argument list"
  | MergeCoins argument "argument list"
  | Publish
  | MakeMoveVec "argument list"
  | Upgrade argument

datatype 'id tx_kind = ProgrammableTransaction "u64 list" "'id command list" | OtherKind

record ('addr, 'id, 'dg) tx_data =
  tx_sender :: 'addr
  gas_owner :: 'addr
  payment :: "('id, 'dg) object_ref list"
  gas_price :: u64
  gas_budget :: u64
  tx_kind :: "'id tx_kind"

fun iter_commands :: "'id tx_kind \<Rightarrow> 'id command list" where
  "iter_commands (ProgrammableTransaction inputs cmds) = cmds"
| "iter_commands OtherKind = []"

text \<open>
  The effects: the gas object, the net gas usage, the created objects, whether the transaction
  succeeded, and the gas it used before any rebate.
\<close>

record ('id, 'dg) tx_effects =
  gas_object :: "('id, 'dg) object_ref"
  net_gas_usage :: i64
  created :: "('id, 'dg) object_ref list"
  status_ok :: bool
  gas_used :: u64

datatype request_type = WaitForEffectsCert | WaitForLocalExecution

text \<open>A signed transaction: the data and the signatures in order.\<close>

record ('addr, 'id, 'dg, 'sig) transaction =
  sig_data :: "('addr, 'id, 'dg) tx_data"
  signatures :: "'sig list"

definition from_generic_sig_data ::
  "('addr, 'id, 'dg) tx_data \<Rightarrow> 'sig list \<Rightarrow> ('addr, 'id, 'dg, 'sig) transaction"
where
  "from_generic_sig_data d sigs = \<lparr>sig_data = d, signatures = sigs\<rparr>"

section \<open>Validity\<close>

text \<open>
  The arguments \<open>check_transaction_validity\<close> of \<open>src/src/gas_station/gas_station_core.rs\<close> collects:
  not the recipient of a transfer, the amounts of a split or the ticket of an upgrade.
\<close>

fun checked_args :: "'id command \<Rightarrow> argument list" where
  "checked_args (MoveCall p m f args) = args"
| "checked_args (TransferObjects args recipient) = args"
| "checked_args (SplitCoins arg amounts) = [arg]"
| "checked_args (MergeCoins arg args) = arg # args"
| "checked_args Publish = []"
| "checked_args (MakeMoveVec args) = args"
| "checked_args (Upgrade ticket) = []"

definition check_transaction_validity :: "('addr, 'id, 'dg) tx_data \<Rightarrow> unit result" where
  "check_transaction_validity d =
     (let all_args = concat (map checked_args (iter_commands (tx_kind d)))
      in if list_ex (\<lambda>arg. arg = GasCoin) all_args
         then Err (Anyhow ''Gas coin can only be used to pay gas'') else Ok ())"

text \<open>Every argument of a command, and those that only pass a value, an address or a ticket.\<close>

fun all_args :: "'id command \<Rightarrow> argument list" where
  "all_args (MoveCall p m f args) = args"
| "all_args (TransferObjects args recipient) = args @ [recipient]"
| "all_args (SplitCoins arg amounts) = arg # amounts"
| "all_args (MergeCoins arg args) = arg # args"
| "all_args Publish = []"
| "all_args (MakeMoveVec args) = args"
| "all_args (Upgrade ticket) = [ticket]"

text \<open>
  The positions the check leaves out take an address, numbers or an upgrade ticket: \<open>well_typed\<close>
  says that the gas coin does not stand there, which the chain's own verifier rejects.
\<close>

fun well_typed :: "'id command \<Rightarrow> bool" where
  "well_typed (TransferObjects args recipient) \<longleftrightarrow> recipient \<noteq> GasCoin"
| "well_typed (SplitCoins arg amounts) \<longleftrightarrow> GasCoin \<notin> set amounts"
| "well_typed (Upgrade ticket) \<longleftrightarrow> ticket \<noteq> GasCoin"
| "well_typed c \<longleftrightarrow> True"

lemma all_args_iff:
  "GasCoin \<notin> set (all_args c) \<longleftrightarrow> GasCoin \<notin> set (checked_args c) \<and> well_typed c"
  by (cases c) auto

lemma check_transaction_validity_iff:
  "check_transaction_validity d = Ok () \<longleftrightarrow>
     (\<forall>c \<in> set (iter_commands (tx_kind d)). GasCoin \<notin> set (checked_args c))"
  by (auto simp: check_transaction_validity_def list_ex_iff)

text \<open>
  C21: No command of a transaction uses the gas coin, in any argument, exactly when the transaction
  passes the validity check and the gas coin stands in none of the positions that the check does not
  look at: the recipient of a transfer, the amounts of a split, the ticket of an upgrade. So for
  commands that are well typed in this sense the check is exact; a transaction that fails it gets the
  message that the gas coin can only pay gas.
\<close>

theorem validity_check_protects_gas_coin:
  "((\<forall>c \<in> set (iter_commands (tx_kind d)). GasCoin \<notin> set (all_args c)) \<longleftrightarrow>
     check_transaction_validity d = Ok () \<and> (\<forall>c \<in> set (iter_commands (tx_kind d)). well_typed c)) \<and>
   (check_transaction_validity d = Ok () \<or>
     check_transaction_validity d = Err (Anyhow ''Gas coin can only be used to pay gas''))"
  unfolding all_args_iff check_transaction_validity_iff
  by (auto simp: check_transaction_validity_def list_ex_iff)

text \<open>What the check lets through: a transfer to the gas coin as a recipient, which is no address.\<close>

lemma unchecked_recipient:
  "check_transaction_validity (d\<lparr>tx_kind := ProgrammableTransaction [] [TransferObjects [Input 0] GasCoin]\<rparr>) = Ok ()"
  by (simp add: check_transaction_validity_def)

definition ex_tx :: "'id command list \<Rightarrow> (nat, 'id, nat) tx_data" where
  "ex_tx cmds = \<lparr>tx_sender = 1, gas_owner = 2, payment = [], gas_price = 1000, gas_budget = 5,
     tx_kind = ProgrammableTransaction [] cmds\<rparr>"

theorem validity_check_protects_gas_coin_witness:
  "check_transaction_validity (ex_tx [SplitCoins (Input 0) [Input 1], MergeCoins (Input 0) [GasCoin :: argument]]
     :: (nat, nat, nat) tx_data) = Err (Anyhow ''Gas coin can only be used to pay gas'')"
  using validity_check_protects_gas_coin
    [of "ex_tx [SplitCoins (Input 0) [Input 1], MergeCoins (Input 0) [GasCoin]] :: (nat, nat, nat) tx_data"]
  by (auto simp: ex_tx_def)

end
