(* ===== verification/Iota_Client.thy ===== *)
theory Iota_Client
  imports Effects Transactions "HOL-Library.AList"
begin

text \<open>
  \<open>IotaClient\<close> of \<open>src/src/iota_client.rs\<close>. The full node and the signer are services: the world
  holds the answers they will give, one list per kind of request in the order of the requests, and
  records the requests. An answer is an error or a value; when the answers are used up, requests
  fail for ever. \<open>fuel\<close> bounds the loops that retry for ever and the number of pages read.
\<close>

record ('id, 'dg) coin_page =
  page_data :: "('id, 'dg) gas_coin list"
  has_next_page :: bool
  next_cursor :: "'id option"

text \<open>
  An object as the node shows it: nothing, or a reference and, when its contents are a Move object,
  whether it has the type of a gas coin and the value its bytes decode to.
\<close>

record ('id, 'dg) object_data =
  data_ref :: "('id, 'dg) object_ref"
  move_object :: "(bool \<times> u64 option) option"

type_synonym ('id, 'dg) object_response = "('id, 'dg) object_data option"

datatype ('addr, 'id, 'dg, 'sig) node_call =
    GetCoins 'addr "'id option"
  | GetPrice
  | MultiGet "'id list"
  | DevInspect "'id command list"
  | ExecuteBlock "('addr, 'id, 'dg, 'sig) transaction" request_type
  | SignTransaction "('addr, 'id, 'dg) tx_data"

record ('addr, 'id, 'dg, 'sig) node_world = world +
  coin_answers :: "(error + ('id, 'dg) coin_page) list"
  price_answers :: "(error + u64) list"
  object_answers :: "(error + ('id, 'dg) object_response list) list"
  inspect_answers :: "(error + u64) list"
  exec_answers :: "(error + ('id, 'dg) tx_effects option) list"
  sign_answers :: "(error + 'sig) list"
  calls :: "('addr, 'id, 'dg, 'sig) node_call list"

section \<open>Requests\<close>

text \<open>One request: the call is recorded and the next answer taken.\<close>

definition ask ::
  "('addr, 'id, 'dg, 'sig) node_call \<Rightarrow>
   (('addr, 'id, 'dg, 'sig, 'z) node_world_scheme \<Rightarrow> (error + 'a) list) \<Rightarrow>
   ((error + 'a) list \<Rightarrow> ('addr, 'id, 'dg, 'sig, 'z) node_world_scheme \<Rightarrow>
      ('addr, 'id, 'dg, 'sig, 'z) node_world_scheme) \<Rightarrow>
   (('addr, 'id, 'dg, 'sig, 'z) node_world_scheme, 'a) prog"
where
  "ask c get put w =
     (let w1 = w\<lparr>calls := calls w @ [c]\<rparr>
      in case get w of
           [] \<Rightarrow> (Err (Foreign ''no answer''), w1)
         | Inl e # as \<Rightarrow> (Err e, put as w1)
         | Inr a # as \<Rightarrow> (Ok a, put as w1))"

definition api_get_coins where
  "api_get_coins addr cursor =
     ask (GetCoins addr cursor) coin_answers (\<lambda>as w. w\<lparr>coin_answers := as\<rparr>)"

definition api_get_price where
  "api_get_price = ask GetPrice price_answers (\<lambda>as w. w\<lparr>price_answers := as\<rparr>)"

definition api_multi_get where
  "api_multi_get ids = ask (MultiGet ids) object_answers (\<lambda>as w. w\<lparr>object_answers := as\<rparr>)"

definition api_dev_inspect where
  "api_dev_inspect cmds = ask (DevInspect cmds) inspect_answers (\<lambda>as w. w\<lparr>inspect_answers := as\<rparr>)"

definition api_execute where
  "api_execute tx rt = ask (ExecuteBlock tx rt) exec_answers (\<lambda>as w. w\<lparr>exec_answers := as\<rparr>)"

text \<open>\<open>TxSigner::sign_transaction\<close>: the sidecar is asked to sign these data.\<close>

definition sign_transaction where
  "sign_transaction d = ask (SignTransaction d) sign_answers (\<lambda>as w. w\<lparr>sign_answers := as\<rparr>)"

lemmas api_defs = api_get_coins_def api_get_price_def api_multi_get_def api_dev_inspect_def
  api_execute_def sign_transaction_def

section \<open>The client\<close>

record node_client_options =
  max_concurrent_requests :: nat
  basic_auth :: "(string \<times> string) option"

text \<open>\<open>connects\<close> is the outcome of the SDK's builder; an error is a panic.\<close>

definition iota_client_new ::
  "(node_client_options \<Rightarrow> string \<Rightarrow> unit result) \<Rightarrow> string \<Rightarrow> (string \<times> string) option \<Rightarrow> unit result"
where
  "iota_client_new connects fullnode_url auth =
     (let builder = \<lparr>max_concurrent_requests = 100000, basic_auth = None\<rparr>;
          builder = (case auth of None \<Rightarrow> builder
            | Some (username, password) \<Rightarrow> builder\<lparr>basic_auth := Some (username, password)\<rparr>)
      in case connects builder fullnode_url of
           Err e \<Rightarrow> Panic (error_to_string e)
         | r \<Rightarrow> r)"

text \<open>
  \<open>wait_for_object\<close> asks until an answer shows the version; the result is the answers that are left,
  or nothing while it still waits.
\<close>

fun wait_for_object ::
  "('id, 'dg) object_ref \<Rightarrow> (error + ('id, 'dg) object_response) list \<Rightarrow>
     (error + ('id, 'dg) object_response) list option"
where
  "wait_for_object obj_ref [] = None"
| "wait_for_object obj_ref (response # rest) =
     (case response of
        Inr (Some data) \<Rightarrow>
          if fst (snd (data_ref data)) = fst (snd obj_ref) then Some rest
          else wait_for_object obj_ref rest
      | _ \<Rightarrow> wait_for_object obj_ref rest)"

text \<open>It returns exactly when some answer shows the version.\<close>

lemma wait_for_object_returns:
  "(\<exists>rest. wait_for_object obj_ref answers = Some rest) \<longleftrightarrow>
     (\<exists>data. Inr (Some data) \<in> set answers \<and> fst (snd (data_ref data)) = fst (snd obj_ref))"
  by (induction answers) (auto split: sum.splits option.splits)

section \<open>Owned coins\<close>

text \<open>The loop over the pages: a page is asked for until it arrives.\<close>

fun owned_loop ::
  "nat \<Rightarrow> nat \<Rightarrow> 'addr \<Rightarrow> u64 \<Rightarrow> 'id option \<Rightarrow> ('id, 'dg) gas_coin list \<Rightarrow>
     (('addr, 'id, 'dg, 'sig, 'z) node_world_scheme, ('id, 'dg) gas_coin list) prog"
where
  "owned_loop 0 fuel address balance_threshold cursor coins w = (Hang, w)"
| "owned_loop (Suc pages) fuel address balance_threshold cursor coins w =
     pbind (retry_forever fuel (api_get_coins address cursor)) (\<lambda>page.
       let coins' = coins @ filter (\<lambda>coin. balance_threshold \<le> balance coin) (page_data page)
       in if has_next_page page
          then owned_loop pages fuel address balance_threshold (next_cursor page) coins'
          else pret coins') w"

definition get_all_owned_iota_coins_above_balance_threshold ::
  "nat \<Rightarrow> 'addr \<Rightarrow> u64 \<Rightarrow>
     (('addr, 'id, 'dg, 'sig, 'z) node_world_scheme, ('id, 'dg) gas_coin list) prog"
where
  "get_all_owned_iota_coins_above_balance_threshold fuel address balance_threshold =
     owned_loop fuel fuel address balance_threshold None []"

text \<open>Statistics over all coins; a page that fails four times is an error. Sums wrap at 64 bits.\<close>

fun stats_loop ::
  "nat \<Rightarrow> 'addr \<Rightarrow> 'id option \<Rightarrow> u64 \<Rightarrow> u64 \<Rightarrow>
     (('addr, 'id, 'dg, 'sig, 'z) node_world_scheme, u64 \<times> u64) prog"
where
  "stats_loop 0 address cursor total_count total_balance w = (Hang, w)"
| "stats_loop (Suc pages) address cursor total_count total_balance w =
     pbind (retry_with_max_attempts (api_get_coins address cursor) 3) (\<lambda>page.
       let c = total_count + of_nat (length (page_data page));
           b = total_balance + sum_list (map balance (page_data page))
       in if has_next_page page then stats_loop pages address (next_cursor page) c b
          else pret (c, b)) w"

definition get_aggregate_coin_stats ::
  "nat \<Rightarrow> 'addr \<Rightarrow> (('addr, 'id, 'dg, 'sig, 'z) node_world_scheme, u64 \<times> u64) prog"
where
  "get_aggregate_coin_stats fuel address = stats_loop fuel address None 0 0"

definition get_reference_gas_price ::
  "nat \<Rightarrow> (('addr, 'id, 'dg, 'sig, 'z) node_world_scheme, u64) prog"
where
  "get_reference_gas_price fuel = retry_forever fuel api_get_price"

section \<open>The latest state of coins\<close>

definition try_get_iota_coin_balance ::
  "('id, 'dg) object_response \<Rightarrow> ('id, 'dg) gas_coin option"
where
  "try_get_iota_coin_balance response =
     Option.bind response (\<lambda>data.
     Option.bind (move_object data) (\<lambda>(is_gas_coin, value).
     if \<not> is_gas_coin then None
     else map_option (\<lambda>v. \<lparr>object_ref = data_ref data, balance = v\<rparr>) value))"

fun chunks :: "nat \<Rightarrow> 'a list \<Rightarrow> 'a list list" where
  "chunks n xs = (if xs = [] \<or> n = 0 then [] else take n xs # chunks n (drop n xs))"

declare chunks.simps [simp del]

text \<open>One chunk: a reply of another length than the request is an error, and is retried.\<close>

definition get_chunk ::
  "nat \<Rightarrow> 'id list \<Rightarrow>
     (('addr, 'id, 'dg, 'sig, 'z) node_world_scheme, ('id \<times> ('id, 'dg) object_response) list) prog"
where
  "get_chunk fuel chunk =
     retry_forever fuel (pbind (api_multi_get chunk) (\<lambda>result.
       if length result \<noteq> length chunk
       then perr (Anyhow (''Unable to get all gas coins, got '' @ show_nat (length result) @
              '' out of '' @ show_nat (length chunk)))
       else pret (zip chunk result)))"

text \<open>The hash map of the results, with the bindings in the order of their first insertion.\<close>

definition collect_map :: "('k \<times> 'v) list \<Rightarrow> ('k \<times> 'v) list" where
  "collect_map kvs = fold (\<lambda>(k, v) m. AList.update k v m) kvs []"

definition get_latest_gas_objects ::
  "nat \<Rightarrow> 'id list \<Rightarrow>
     (('addr, 'id, 'dg, 'sig, 'z) node_world_scheme, ('id \<times> ('id, 'dg) gas_coin option) list) prog"
where
  "get_latest_gas_objects fuel object_ids =
     pbind (pmap (get_chunk fuel) (chunks 50 object_ids)) (\<lambda>objects.
       pret (collect_map (map (\<lambda>(id, response). (id, try_get_iota_coin_balance response))
               (concat objects))))"

text \<open>\<open>into_values ().flatten ()\<close>\<close>

definition present_values :: "('k \<times> 'v option) list \<Rightarrow> 'v list" where
  "present_values m = List.map_filter snd m"

section \<open>Splitting and executing\<close>

text \<open>The programmable transaction that calls \<open>pay::split_n\<close> of the framework package.\<close>

definition construct_coin_split_pt :: "'id \<Rightarrow> argument \<Rightarrow> u64 \<Rightarrow> 'id tx_kind" where
  "construct_coin_split_pt framework gas_coin split_count =
     ProgrammableTransaction [split_count]
       [MoveCall framework ''pay'' ''split_n'' [gas_coin, Input 0]]"

definition calibrate_gas_cost_per_object ::
  "nat \<Rightarrow> 'id \<Rightarrow> ('id, 'dg) gas_coin \<Rightarrow> (('addr, 'id, 'dg, 'sig, 'z) node_world_scheme, u64) prog"
where
  "calibrate_gas_cost_per_object fuel framework gas_coin =
     pbind (retry_forever fuel (api_dev_inspect
       [MoveCall framework ''pay'' ''split_n'' [Input 0, Input 1]])) (\<lambda>gas_used.
     pret (gas_used div 500 * 2))"

definition client_execute_transaction ::
  "('addr, 'id, 'dg, 'sig) transaction \<Rightarrow> nat \<Rightarrow> request_type option \<Rightarrow>
     (('addr, 'id, 'dg, 'sig, 'z) node_world_scheme, ('id, 'dg) tx_effects) prog"
where
  "client_execute_transaction tx max_attempts request_type =
     (let rt = (case request_type of Some r \<Rightarrow> r | None \<Rightarrow> WaitForEffectsCert)
      in retry_with_max_attempts
           (pbind (api_execute tx rt) (\<lambda>effects.
              case effects of Some e \<Rightarrow> pret e | None \<Rightarrow> perr (Anyhow ''No effects'')))
           max_attempts)"

section \<open>Nothing is dropped\<close>

lemma chunks_Nil [simp]: "chunks n [] = []"
  by (simp add: chunks.simps)

lemma concat_chunks: "0 < n \<Longrightarrow> concat (chunks n xs) = xs"
proof (induction n xs rule: chunks.induct)
  case (1 n xs)
  then show ?case by (subst chunks.simps) auto
qed

lemma chunks_le: "c \<in> set (chunks n xs) \<Longrightarrow> length c \<le> n \<and> c \<noteq> []"
proof (induction n xs rule: chunks.induct)
  case (1 n xs)
  from 1(2) show ?case
    by (subst (asm) chunks.simps) (use 1(1) in \<open>auto split: if_splits\<close>)
qed

lemma retry_forever_Ok:
  "retry_forever n f w = (Ok a, w') \<Longrightarrow> \<exists>w1. f w1 = (Ok a, w')"
  by (induction n arbitrary: w) (auto split: prod.splits result.splits)

lemma retry_with_max_attempts_Ok:
  "retry_with_max_attempts f n w = (Ok a, w') \<Longrightarrow> \<exists>w1. f w1 = (Ok a, w')"
  by (induction n arbitrary: w) (auto split: prod.splits result.splits)

lemma get_chunk_Ok: "get_chunk fuel chunk w = (Ok r, w') \<Longrightarrow> map fst r = chunk"
  unfolding get_chunk_def
  by (drule retry_forever_Ok) (auto simp: pbind_Ok simp del: pbind_apply split: if_splits)

lemma pmap_Ok_Cons:
  "pmap f (x # xs) w = (Ok ys, w') \<Longrightarrow>
     \<exists>y w1 zs. f x w = (Ok y, w1) \<and> pmap f xs w1 = (Ok zs, w') \<and> ys = y # zs"
  by (auto split: prod.splits result.splits)

lemma pmap_get_chunk_Ok:
  "pmap (get_chunk fuel) cs w = (Ok rs, w') \<Longrightarrow> map fst (concat rs) = concat cs"
proof (induction cs arbitrary: w rs)
  case Nil
  then show ?case by simp
next
  case (Cons c cs)
  from pmap_Ok_Cons [OF Cons.prems] Cons.IH get_chunk_Ok show ?case by fastforce
qed

lemma set_keys_collect: "set (map fst (fold (\<lambda>(k, v) m. AList.update k v m) kvs m)) =
    set (map fst m) \<union> set (map fst kvs)"
proof (induction kvs arbitrary: m)
  case Nil
  then show ?case by simp
next
  case (Cons kv kvs)
  obtain k v where kv: "kv = (k, v)" by (cases kv)
  have "set (map fst (AList.update k v m)) = insert k (set (map fst m))"
    by (simp add: AList.dom_update)
  with Cons.IH [of "AList.update k v m"] show ?case by (simp add: kv)
qed

lemma distinct_keys_collect:
  "distinct (map fst m) \<Longrightarrow> distinct (map fst (fold (\<lambda>(k, v) m. AList.update k v m) kvs m))"
  by (induction kvs arbitrary: m) (auto simp: AList.distinct_update)

lemma latest_keys:
  assumes "get_latest_gas_objects fuel ids w = (Ok m, w')"
  shows "distinct (map fst m) \<and> set (map fst m) = set ids"
proof -
  obtain rs where rs: "pmap (get_chunk fuel) (chunks 50 ids) w = (Ok rs, w')"
    and m: "m = collect_map (map (\<lambda>(id, response). (id, try_get_iota_coin_balance response)) (concat rs))"
    using assms by (auto simp: get_latest_gas_objects_def split: prod.splits result.splits)
  have "map fst (concat rs) = ids"
    using pmap_get_chunk_Ok [OF rs] concat_chunks [of 50 ids] by simp
  then have "map fst (map (\<lambda>(id, response). (id, try_get_iota_coin_balance response)) (concat rs)) = ids"
    by (simp add: comp_def case_prod_unfold)
  then show ?thesis
    using set_keys_collect [of _ "[]"] distinct_keys_collect [of "[]"]
    unfolding m collect_map_def by (metis append_Nil distinct.simps(1) empty_set list.simps(8) sup_bot_left)
qed

text \<open>
  The state of every requested coin is looked up. However many ids are asked for and however
  they fall into chunks of 50, and whatever errors and short replies the node gave on the way, a
  result has exactly the requested ids as its keys, each once; and no request to the node asked
  for more than 50 objects or for none.
\<close>

lemma latest_gas_objects_complete:
  assumes "get_latest_gas_objects fuel ids w = (Ok m, w')"
  shows "distinct (map fst m) \<and> set (map fst m) = set ids \<and>
    (\<forall>chunk \<in> set (chunks 50 ids). length chunk \<le> 50 \<and> chunk \<noteq> [])"
  using latest_keys [OF assms] chunks_le by blast


text \<open>A node whose first reply is lost and whose second is short, then the full reply.\<close>

definition ex_node :: "(nat, nat, nat, nat) node_world" where
  "ex_node = \<lparr>keys = Map.empty, clock = [], faults = [], events = [], coin_answers = [],
     price_answers = [],
     object_answers = [Inl (Foreign ''timeout''), Inr [],
       Inr [Some \<lparr>data_ref = (7, 1, 7), move_object = Some (True, Some 5)\<rparr>, None]],
     inspect_answers = [], exec_answers = [], sign_answers = [], calls = []\<rparr>"

lemma ex_node_latest:
  "\<exists>w'. get_latest_gas_objects 4 [7, 8] ex_node =
     (Ok [(7, Some \<lparr>object_ref = (7, 1, 7), balance = 5\<rparr>), (8, None)], w')"
proof -
  have "chunks 50 [7, 8 :: nat] = [[7, 8]]" by (simp add: chunks.simps)
  then show ?thesis
    by (simp add: get_latest_gas_objects_def get_chunk_def ask_def api_defs collect_map_def
        try_get_iota_coin_balance_def ex_node_def eval_nat_numeral)
qed

end
