(* ===== verification/Usage_Cap.thy ===== *)
theory Usage_Cap
  imports Prelude
begin

text \<open>
  \<open>GasUsageCap\<close> of \<open>src/src/gas_station/gas_usage_cap.rs\<close>: the daily budget of the station. The
  counter and its date sit behind one read-write lock; every call takes that lock two or three
  times, so calls of different tasks interleave between these accesses. The first part models the
  calls one at a time, the second the accesses one at a time. Dates are day numbers.
\<close>

record gas_usage_cap_inner =
  cur_daily_usage :: i64
  cur_date :: int

record gas_usage_cap =
  daily_cap :: u64
  inner :: gas_usage_cap_inner

definition gas_usage_cap_new :: "u64 \<Rightarrow> int \<Rightarrow> gas_usage_cap" where
  "gas_usage_cap_new cap today =
     \<lparr>daily_cap = cap, inner = \<lparr>cur_daily_usage = 0, cur_date = today\<rparr>\<rparr>"

section \<open>Calls\<close>

definition reset_date :: "int \<Rightarrow> gas_usage_cap_inner \<Rightarrow> gas_usage_cap_inner" where
  "reset_date new_date u = u\<lparr>cur_date := new_date, cur_daily_usage := 0\<rparr>"

definition reset_date_maybe :: "int \<Rightarrow> gas_usage_cap \<Rightarrow> gas_usage_cap" where
  "reset_date_maybe today c =
     (if cur_date (inner c) \<noteq> today then c\<lparr>inner := reset_date today (inner c)\<rparr> else c)"

text \<open>\<open>daily_cap as i64\<close> keeps the bits: a cap of \<open>2 ^ 63\<close> or more is a negative limit.\<close>

definition check_usage :: "int \<Rightarrow> gas_usage_cap \<Rightarrow> unit result \<times> gas_usage_cap" where
  "check_usage today c =
     (let c' = reset_date_maybe today c
      in (if sint (daily_cap c') \<le> sint (cur_daily_usage (inner c'))
          then Err (Anyhow ''Gas usage exceeds daily cap'') else Ok (), c'))"

definition update_usage :: "int \<Rightarrow> i64 \<Rightarrow> gas_usage_cap \<Rightarrow> i64 \<times> gas_usage_cap" where
  "update_usage today usage c =
     (let c' = reset_date_maybe today c;
          new = cur_daily_usage (inner c') + usage
      in (new, c'\<lparr>inner := (inner c')\<lparr>cur_daily_usage := new\<rparr>\<rparr>))"

text \<open>A day of updates, each with the date its call reads.\<close>

fun updates :: "(int \<times> i64) list \<Rightarrow> gas_usage_cap \<Rightarrow> gas_usage_cap" where
  "updates [] c = c"
| "updates ((today, u) # us) c = updates us (snd (update_usage today u c))"

lemma update_same_day:
  "cur_date (inner c) = today \<Longrightarrow>
     cur_daily_usage (inner (snd (update_usage today u c))) = cur_daily_usage (inner c) + u \<and>
     cur_date (inner (snd (update_usage today u c))) = today \<and>
     daily_cap (snd (update_usage today u c)) = daily_cap c"
  by (simp add: update_usage_def reset_date_maybe_def Let_def)

lemma updates_same_day:
  "cur_date (inner c) = today \<Longrightarrow>
     cur_daily_usage (inner (updates (map (Pair today) us) c)) = cur_daily_usage (inner c) + sum_list us \<and>
     cur_date (inner (updates (map (Pair today) us) c)) = today \<and>
     daily_cap (updates (map (Pair today) us) c) = daily_cap c"
  using update_same_day by (induction us arbitrary: c) (auto simp: algebra_simps)

section \<open>Interleaved calls\<close>

text \<open>
  The accesses of one call in order: the date is read and compared, the counter is reset if the
  dates differed, then it is read or increased. A task is at one of these points.
\<close>

datatype cap_op = Check | Update i64

datatype cap_pc = AtDate | AtReset int | AtUse | Finished "i64 option"

record cap_task =
  cap_call :: cap_op
  cap_at :: cap_pc

fun cap_access :: "int \<Rightarrow> cap_task \<Rightarrow> gas_usage_cap_inner \<Rightarrow> cap_task \<times> gas_usage_cap_inner" where
  "cap_access today t u = (case cap_at t of
     AtDate \<Rightarrow> (t\<lparr>cap_at := (if cur_date u \<noteq> today then AtReset today else AtUse)\<rparr>, u)
   | AtReset d \<Rightarrow> (t\<lparr>cap_at := AtUse\<rparr>, reset_date d u)
   | AtUse \<Rightarrow>
       (case cap_call t of
          Check \<Rightarrow> (t\<lparr>cap_at := Finished (Some (cur_daily_usage u))\<rparr>, u)
        | Update x \<Rightarrow>
            (t\<lparr>cap_at := Finished (Some (cur_daily_usage u + x))\<rparr>,
             u\<lparr>cur_daily_usage := cur_daily_usage u + x\<rparr>))
   | Finished r \<Rightarrow> (t, u))"

text \<open>A schedule names the task that moves next and the date it sees.\<close>

fun cap_run ::
  "(nat \<times> int) list \<Rightarrow> cap_task list \<times> gas_usage_cap_inner \<Rightarrow> cap_task list \<times> gas_usage_cap_inner"
where
  "cap_run [] s = s"
| "cap_run ((i, today) # sched) (ts, u) =
     (if i < length ts
      then (case cap_access today (ts ! i) u of (t, u') \<Rightarrow> cap_run sched (ts[i := t], u'))
      else cap_run sched (ts, u))"

definition booked :: "cap_task \<Rightarrow> i64" where
  "booked t = (case (cap_call t, cap_at t) of (Update x, Finished r) \<Rightarrow> x | _ \<Rightarrow> 0)"

definition no_reset_pending :: "cap_task \<Rightarrow> bool" where
  "no_reset_pending t = (case cap_at t of AtReset d \<Rightarrow> False | _ \<Rightarrow> True)"

lemma sum_list_update_word:
  "i < length ts \<Longrightarrow>
     sum_list (map f (ts[i := t])) = sum_list (map f ts) - f (ts ! i) + (f t :: i64)"
  by (induction ts arbitrary: i) (auto split: nat.splits)

lemma cap_access_same_day:
  assumes "cap_access today t u = (t', u')" and "cur_date u = today" and "no_reset_pending t"
  shows "cur_date u' = today \<and> no_reset_pending t' \<and>
    cur_daily_usage u' = cur_daily_usage u - booked t + booked t'"
  using assms by (auto simp: no_reset_pending_def booked_def split: cap_pc.splits cap_op.splits)

text \<open>
  C22: Within one day no update of the daily usage is lost: under every interleaving of any number
  of checks and updates, the counter is the initial value plus exactly the updates that have
  completed.
\<close>

theorem usage_accounted_within_a_day:
  assumes "\<forall>(i, d) \<in> set sched. d = today" and "cur_date u = today"
    and "\<forall>t \<in> set ts. cap_at t = AtDate" and "cap_run sched (ts, u) = (ts', u')"
  shows "cur_daily_usage u' = cur_daily_usage u + sum_list (map booked ts')"
proof -
  have "\<forall>(i, d) \<in> set sched. d = today \<Longrightarrow> cur_date u = today \<Longrightarrow> list_all no_reset_pending ts \<Longrightarrow>
      cap_run sched (ts, u) = (ts', u') \<Longrightarrow>
      cur_daily_usage u' - sum_list (map booked ts') = cur_daily_usage u - sum_list (map booked ts)"
  proof (induction sched arbitrary: ts u)
    case Nil
    then show ?case by simp
  next
    case (Cons s sched)
    obtain i d where s: "s = (i, d)" by (cases s)
    have d: "d = today" using Cons.prems(1) s by simp
    show ?case
    proof (cases "i < length ts")
      case False
      with Cons s show ?thesis by simp
    next
      case True
      obtain t u1 where acc: "cap_access d (ts ! i) u = (t, u1)" by fastforce
      have step: "cur_date u1 = today" "no_reset_pending t"
        "cur_daily_usage u1 = cur_daily_usage u - booked (ts ! i) + booked t"
        using cap_access_same_day [OF acc [unfolded d] Cons.prems(2)] Cons.prems(3) True
        by (simp_all add: list_all_length)
      have "list_all no_reset_pending (ts[i := t])"
        using Cons.prems(3) step(2) True by (auto simp: list_all_length nth_list_update)
      from Cons.IH [OF _ step(1) this] Cons.prems(1,4) s acc True
      have "cur_daily_usage u' - sum_list (map booked ts') =
          cur_daily_usage u1 - sum_list (map booked (ts[i := t]))" by simp
      then show ?thesis
        by (simp add: step(3) sum_list_update_word [OF True] algebra_simps)
    qed
  qed
  moreover have "list_all no_reset_pending ts"
    using assms(3) by (auto simp: list_all_iff no_reset_pending_def)
  moreover have "sum_list (map booked ts) = 0"
    using assms(3) by (induction ts) (auto simp: booked_def split: cap_op.splits)
  ultimately show ?thesis using assms(1,2,4) by (simp add: algebra_simps)
qed

theorem usage_accounted_within_a_day_witness:
  "let s = cap_run [(0, 5), (1, 5), (1, 5), (0, 5)]
        ([\<lparr>cap_call = Update 7, cap_at = AtDate\<rparr>, \<lparr>cap_call = Update 4, cap_at = AtDate\<rparr>],
         \<lparr>cur_daily_usage = 1, cur_date = 5\<rparr>)
   in cur_daily_usage (snd s) = 1 + 11"
  using usage_accounted_within_a_day [of "[(0, 5), (1, 5), (1, 5), (0, 5)]" 5
      "\<lparr>cur_daily_usage = 1, cur_date = 5\<rparr>"
      "[\<lparr>cap_call = Update 7, cap_at = AtDate\<rparr>, \<lparr>cap_call = Update 4, cap_at = AtDate\<rparr>]"]
  by (simp add: Let_def booked_def)

lemma cap_run_append: "cap_run (xs @ ys) s = cap_run ys (cap_run xs s)"
  by (induction xs s rule: cap_run.induct) (auto split: prod.splits)

lemma cap_run_other:
  "\<forall>(i, d) \<in> set sched. i \<noteq> j \<Longrightarrow> cap_run sched (ts, u) = (ts', u') \<Longrightarrow>
     ts' ! j = ts ! j \<and> length ts' = length ts"
proof (induction sched arbitrary: ts u)
  case (Cons s sched)
  obtain i d where s: "s = (i, d)" by (cases s)
  with Cons.prems show ?case
    using Cons.IH [of "ts[i := fst (cap_access d (ts ! i) u)]" "snd (cap_access d (ts ! i) u)"]
      Cons.IH [of ts u]
    by (auto split: if_splits prod.splits)
qed simp

text \<open>
  C24: Across midnight updates can be lost. Take an update that has read yesterday's date, and let any
  schedule of the other calls run before it gets the lock for its reset, with any dates: once it is done,
  the counter is its own usage alone, whatever the others have booked in between.
\<close>

theorem usage_lost_at_midnight:
  assumes "j < length ts" and "ts ! j = \<lparr>cap_call = Update x, cap_at = AtDate\<rparr>" and "cur_date u \<noteq> today"
    and "\<forall>(i, d) \<in> set others. i \<noteq> j"
    and "cap_run ((j, today) # others @ [(j, d1), (j, d2)]) (ts, u) = (ts', u')"
  shows "cur_daily_usage u' = x \<and> cur_date u' = today \<and> booked (ts' ! j) = x \<and>
    sum_list (map booked ts') - cur_daily_usage u' =
      sum_list (map booked (fst (cap_run others (ts[j := \<lparr>cap_call = Update x, cap_at = AtReset today\<rparr>], u))))"
proof -
  let ?t = "\<lparr>cap_call = Update x, cap_at = AtReset today\<rparr>"
  obtain ts1 u1 where others: "cap_run others (ts[j := ?t], u) = (ts1, u1)" by fastforce
  have t1: "ts1 ! j = ?t" "length ts1 = length ts"
    using cap_run_other [OF assms(4) others] assms(1) by simp_all
  have end_run: "cap_run [(j, d1), (j, d2)] (ts1, u1) = (ts', u')"
    using assms(1-3,5) others by (simp add: cap_run_append del: append_Cons append_Nil)
  then have last: "u' = \<lparr>cur_daily_usage = x, cur_date = today\<rparr>"
    "ts' = ts1[j := \<lparr>cap_call = Update x, cap_at = Finished (Some x)\<rparr>]"
    using t1 assms(1) by (auto simp: reset_date_def)
  moreover have "sum_list (map booked ts') = sum_list (map booked ts1) + x"
    unfolding last(2) using t1 assms(1) by (simp add: sum_list_update_word booked_def)
  ultimately show ?thesis using others t1 assms(1) by (simp add: booked_def)
qed

text \<open>Another update books 7 after midnight, and its 7 are gone.\<close>

theorem usage_lost_at_midnight_witness:
  "let s = cap_run [(1, 6), (0, 6), (0, 6), (0, 6), (1, 6), (1, 6)]
        ([\<lparr>cap_call = Update 7, cap_at = AtDate\<rparr>, \<lparr>cap_call = Update 4, cap_at = AtDate\<rparr>],
         \<lparr>cur_daily_usage = 1, cur_date = 5\<rparr>)
   in sum_list (map booked (fst s)) = 11 \<and> cur_daily_usage (snd s) = 4"
  using usage_lost_at_midnight
    [of 1 "[\<lparr>cap_call = Update 7, cap_at = AtDate\<rparr>, \<lparr>cap_call = Update 4, cap_at = AtDate\<rparr>]" 4
      "\<lparr>cur_daily_usage = 1, cur_date = 5\<rparr>" 6 "[(0, 6), (0, 6), (0, 6)]" 6 6]
  by (simp add: Let_def booked_def reset_date_def)

text \<open>
  The daily cap holds between calls: on the day of the counter, a check succeeds exactly when
  the signed sum of the day's updates is below the cap, and after a change of date it starts again
  from zero.
\<close>

lemma check_usage_exact:
  assumes "sint (daily_cap c) \<ge> 0"
  shows "fst (check_usage today c) = Ok () \<longleftrightarrow>
    (if cur_date (inner c) = today then sint (cur_daily_usage (inner c)) < uint (daily_cap c)
     else daily_cap c \<noteq> 0)"
proof -
  have cap: "sint (daily_cap c) = uint (daily_cap c)"
    using assms by (rule sint_nonneg)
  have "0 < uint (daily_cap c) \<longleftrightarrow> daily_cap c \<noteq> 0"
    using uint_0_iff [of "daily_cap c"] uint_ge_0 [of "daily_cap c"] by linarith
  with cap show ?thesis
    by (auto simp: check_usage_def reset_date_maybe_def reset_date_def Let_def)
qed


end
