(* ===== verification/Rescan_Trigger.thy ===== *)
theory Rescan_Trigger
  imports Prelude
begin

text \<open>
  \<open>RescanGasObjectsTrigger\<close> of \<open>src/src/gas_station/rescan_trigger.rs\<close>: a bounded channel through
  which a transaction that left an oversized coin asks the initializer for a rescan. \<open>pending\<close> counts
  the messages in the buffer, \<open>receiver_alive\<close> whether the other end still exists.
\<close>

record rescan_channel =
  sender_set :: bool
  receiver_alive :: bool
  pending :: nat

definition rescan_trigger_channel_buffer_size :: nat where
  "rescan_trigger_channel_buffer_size = 5"

definition rescan_new :: rescan_channel where
  "rescan_new = \<lparr>sender_set = False, receiver_alive = False, pending = 0\<rparr>"

text \<open>The sender of another channel: from then on triggers go there.\<close>

definition with_trigger_rescan_sender :: "rescan_channel \<Rightarrow> rescan_channel \<Rightarrow> rescan_channel" where
  "with_trigger_rescan_sender other ch =
     ch\<lparr>sender_set := True, receiver_alive := receiver_alive other, pending := pending other\<rparr>"

definition create_receiver :: "rescan_channel \<Rightarrow> rescan_channel" where
  "create_receiver ch = \<lparr>sender_set = True, receiver_alive = True, pending = 0\<rparr>"

text \<open>
  \<open>try_send\<close>: a closed channel and a full buffer only log; the request is dropped.
\<close>

definition trigger_rescan :: "rescan_channel \<Rightarrow> rescan_channel" where
  "trigger_rescan ch =
     (if \<not> sender_set ch then ch
      else if \<not> receiver_alive ch then ch
      else if rescan_trigger_channel_buffer_size \<le> pending ch then ch
      else ch\<lparr>pending := Suc (pending ch)\<rparr>)"

text \<open>\<open>recv\<close> on the other end takes one message.\<close>

definition recv_rescan :: "rescan_channel \<Rightarrow> rescan_channel option" where
  "recv_rescan ch = (if pending ch = 0 then None else Some (ch\<lparr>pending := pending ch - 1\<rparr>))"

definition channel_ok :: "rescan_channel \<Rightarrow> bool" where
  "channel_ok ch \<longleftrightarrow> pending ch \<le> rescan_trigger_channel_buffer_size"

lemma channel_ok_new: "channel_ok rescan_new" "channel_ok (create_receiver ch)"
  by (simp_all add: channel_ok_def rescan_new_def create_receiver_def)

lemma channel_ok_with_sender: "channel_ok other \<Longrightarrow> channel_ok (with_trigger_rescan_sender other ch)"
  by (simp add: channel_ok_def with_trigger_rescan_sender_def)

lemma channel_ok_trigger: "channel_ok ch \<Longrightarrow> channel_ok (trigger_rescan ch)"
  by (simp add: channel_ok_def trigger_rescan_def)

lemma channel_ok_recv: "channel_ok ch \<Longrightarrow> recv_rescan ch = Some ch' \<Longrightarrow> channel_ok ch'"
  by (auto simp: channel_ok_def recv_rescan_def split: if_splits)

text \<open>A trigger on a live channel is never lost altogether: a rescan is pending afterwards.\<close>

lemma trigger_rescan_pending:
  "sender_set ch \<Longrightarrow> receiver_alive ch \<Longrightarrow> 0 < pending (trigger_rescan ch)"
  by (simp add: trigger_rescan_def rescan_trigger_channel_buffer_size_def)

end
