(* ===== verification/Gas_Station_Core.thy ===== *)
theory Gas_Station_Core
  imports Pool_Storage Iota_Client Usage_Cap Rescan_Trigger
begin

text \<open>
  \<open>GasStation\<close> of \<open>src/src/gas_station/gas_station_core.rs\<close>: reserving gas, executing a sponsored
  transaction and returning its coins, the pre-flight checks of a request, the health check and the
  task that returns the coins of expired reservations. The storage is \<open>RedisStorage\<close>, the node and
  the signer are the services of the world, and a call is the whole method: every guard, every
  storage and node call in its order, the metrics and the early returns. Integer arithmetic is that
  of the release build, which wraps.
\<close>

record ('addr, 'id, 'dg, 'sig) station_world = "('addr, 'id, 'dg, 'sig) node_world" +
  usage_cap :: gas_usage_cap
  dates :: "int list"
  rescan :: rescan_channel

record ('addr, 'id, 'dg) gas_station =
  codec :: "('id, 'dg) codec"
  latest_ms :: int
  signer_address :: 'addr
  show_address :: "'addr \<Rightarrow> string"
  gas_station_store :: redis_storage
  max_gas_budget :: u64
  target_init_balance :: u64
  fuel :: nat

definition reserve_gas_max_duration_s :: u64 where
  "reserve_gas_max_duration_s = 10 * 60"

definition new_coin_balance_factor_threshold :: u64 where
  "new_coin_balance_factor_threshold = 200"

definition nanos_per_iota :: u64 where
  "nanos_per_iota = 1000000000"

section \<open>The usage cap and the rescan trigger in the world\<close>

definition today :: "(('addr, 'id, 'dg, 'sig, 'z) station_world_scheme, int) prog" where
  "today w = (case dates w of
     [] \<Rightarrow> (Ok 0, w)
   | [d] \<Rightarrow> (Ok d, w)
   | d # ds \<Rightarrow> (Ok d, w\<lparr>dates := ds\<rparr>))"

definition station_check_usage :: "(('addr, 'id, 'dg, 'sig, 'z) station_world_scheme, unit) prog" where
  "station_check_usage = pbind today (\<lambda>d w.
     case check_usage d (usage_cap w) of (r, c) \<Rightarrow> (r, w\<lparr>usage_cap := c\<rparr>))"

definition station_update_usage ::
  "i64 \<Rightarrow> (('addr, 'id, 'dg, 'sig, 'z) station_world_scheme, i64) prog"
where
  "station_update_usage u = pbind today (\<lambda>d w.
     case update_usage d u (usage_cap w) of (new, c) \<Rightarrow> (Ok new, w\<lparr>usage_cap := c\<rparr>))"

definition station_trigger_rescan ::
  "(('addr, 'id, 'dg, 'sig, 'z) station_world_scheme, unit) prog"
where
  "station_trigger_rescan = pmodify (\<lambda>w. w\<lparr>rescan := trigger_rescan (rescan w)\<rparr>)"

section \<open>Reserving\<close>

definition reserve_gas ::
  "('addr, 'id, 'dg) gas_station \<Rightarrow> u64 \<Rightarrow> nat \<Rightarrow>
     (('addr, 'id, 'dg, 'sig, 'z) station_world_scheme,
      'addr \<times> reservation_id \<times> ('id, 'dg) object_ref list) prog"
where
  "reserve_gas st budget duration_ms =
     pseq station_check_usage (
     pbind (reserve_gas_coins (codec st) (latest_ms st) (gas_station_store st) budget
              (of_nat duration_ms)) (\<lambda>(rid, gas_coins).
     pseq (emit (ObserveElapsed ''reserve_gas_latency_ms'')) (
     pseq (emit (Observe ''reserved_gas_coin_count_per_request'' (length gas_coins)))
       (pret (signer_address st, rid, map object_ref gas_coins)))))"

section \<open>Request checks\<close>

record reserve_gas_request =
  rg_gas_budget :: u64
  rg_reserve_duration_secs :: u64

definition check_reserve_gas_request_validity ::
  "('addr, 'id, 'dg) gas_station \<Rightarrow> reserve_gas_request \<Rightarrow> unit result"
where
  "check_reserve_gas_request_validity st request =
     (if rg_gas_budget request = 0 then Err (Anyhow ''Gas budget must be positive'')
      else if max_gas_budget st < rg_gas_budget request
      then Err (Anyhow (''Gas budget must be less than '' @ show_nat (unat (max_gas_budget st))))
      else if rg_reserve_duration_secs request = 0
      then Err (Anyhow ''Reserve duration must be positive'')
      else if reserve_gas_max_duration_s < rg_reserve_duration_secs request
      then Err (Anyhow (''Reserve duration must be less than '' @
             show_nat (unat reserve_gas_max_duration_s) @ '' seconds''))
      else Ok ())"

section \<open>Returning coins\<close>

definition release_gas_coins ::
  "('addr, 'id, 'dg) gas_station \<Rightarrow> ('id, 'dg) gas_coin list \<Rightarrow>
     (('addr, 'id, 'dg, 'sig, 'z) station_world_scheme, unit) prog"
where
  "release_gas_coins st coins =
     punwrap (retry_forever (fuel st) (add_new_coins (codec st) (gas_station_store st) coins))"

definition get_total_gas_coin_balance ::
  "('addr, 'id, 'dg) gas_station \<Rightarrow> 'id list \<Rightarrow>
     (('addr, 'id, 'dg, 'sig, 'z) station_world_scheme, u64) prog"
where
  "get_total_gas_coin_balance st ids =
     pbind (get_latest_gas_objects (fuel st) ids) (\<lambda>latest.
     pret (sum_list (map balance (present_values latest))))"

section \<open>Executing\<close>

definition execute_transaction_impl ::
  "('addr, 'id, 'dg) gas_station \<Rightarrow> ('addr, 'id, 'dg) tx_data \<Rightarrow> 'sig \<Rightarrow> request_type option \<Rightarrow>
     (('addr, 'id, 'dg, 'sig, 'z) station_world_scheme, ('id, 'dg) tx_effects) prog"
where
  "execute_transaction_impl st d user_sig request_type =
     pbind (retry_with_max_attempts (sign_transaction d) 3) (\<lambda>sponsor_sig.
     pseq (emit (ObserveElapsed ''transaction_signing_latency_ms'')) (
     pbind (client_execute_transaction (from_generic_sig_data d [sponsor_sig, user_sig]) 3
              request_type) (\<lambda>effects.
     pseq (emit (ObserveElapsed ''transaction_execution_latency_ms'')) (
     pbind (station_update_usage (net_gas_usage effects)) (\<lambda>new_daily_usage.
     pseq (emit (SetGauge ''daily_gas_usage'' (show_address st (gas_owner d)) (sint new_daily_usage)))
       (pret effects))))))"

text \<open>The coins to return: the gas object with its new balance, or the payment as it is now.\<close>

definition updated_coins ::
  "('addr, 'id, 'dg) gas_station \<Rightarrow> 'id list \<Rightarrow> u64 \<Rightarrow> error + ('id, 'dg) tx_effects \<Rightarrow>
     (('addr, 'id, 'dg, 'sig, 'z) station_world_scheme, ('id, 'dg) gas_coin list) prog"
where
  "updated_coins st payment_ids total_gas_coin_balance response =
     (case response of
        Inr effects \<Rightarrow>
          let new_balance = total_gas_coin_balance - net_gas_usage effects
          in pseq (emit (Observe ''gas_usage_per_transaction'' (unat (net_gas_usage effects)))) (
             pseq (emit (Observe ''reserved_gas_real_gas_usage_delta''
                     (unat (if sint new_balance \<le> sint total_gas_coin_balance then new_balance
                            else total_gas_coin_balance))))
               (pret [\<lparr>object_ref = gas_object effects, balance = new_balance\<rparr>]))
      | Inl e \<Rightarrow>
          pbind (get_latest_gas_objects (fuel st) payment_ids) (\<lambda>latest.
          pret (present_values latest)))"

definition oversized :: "('addr, 'id, 'dg) gas_station \<Rightarrow> ('id, 'dg) gas_coin \<Rightarrow> bool" where
  "oversized st coin \<longleftrightarrow>
     new_coin_balance_factor_threshold * target_init_balance st < balance coin"

text \<open>Everything after the response: what is returned to the pool, and the metrics.\<close>

definition settle ::
  "('addr, 'id, 'dg) gas_station \<Rightarrow> 'addr \<Rightarrow> nat \<Rightarrow> ('id, 'dg) gas_coin list \<Rightarrow>
     (('addr, 'id, 'dg, 'sig, 'z) station_world_scheme, unit) prog"
where
  "settle st sponsor payment_count coins =
     (let smashed_coin_count = of_nat payment_count - of_nat (length coins) :: u64;
          oversized_coins_count = length (filter (oversized st) coins)
      in pseq (if 0 < oversized_coins_count
               then pseq station_trigger_rescan
                      (emit (IncBy ''oversized_gas_coins_count'' (show_address st sponsor)
                         oversized_coins_count))
               else release_gas_coins st coins)
           (pwhen (0 < smashed_coin_count)
              (emit (IncBy ''num_smashed_gas_coins'' (show_address st sponsor)
                 (unat smashed_coin_count)))))"

definition execute_transaction ::
  "('addr, 'id, 'dg) gas_station \<Rightarrow> reservation_id \<Rightarrow> ('addr, 'id, 'dg) tx_data \<Rightarrow> 'sig \<Rightarrow>
     request_type option \<Rightarrow>
     (('addr, 'id, 'dg, 'sig, 'z) station_world_scheme, ('id, 'dg) tx_effects) prog"
where
  "execute_transaction st rid d user_sig request_type =
     (if signer_address st \<noteq> gas_owner d
      then perr (Anyhow (''Sponsor '' @ show_address st (gas_owner d) @ '' is not registered''))
      else
        pseq (plift (check_transaction_validity d)) (
        let payment_ids = map fst (payment d)
        in pseq (ready_for_execution (gas_station_store st) rid) (
           pbind (get_total_gas_coin_balance st payment_ids) (\<lambda>total_gas_coin_balance.
           pbind (ptry (execute_transaction_impl st d user_sig request_type)) (\<lambda>response.
           pbind (updated_coins st payment_ids total_gas_coin_balance response) (\<lambda>coins.
           pseq (settle st (gas_owner d) (length (payment d)) coins)
             (case response of Inr effects \<Rightarrow> pret effects | Inl e \<Rightarrow> perr e)))))))"

section \<open>Health, expiry and statistics\<close>

definition debug_check_health ::
  "('addr, 'id, 'dg) gas_station \<Rightarrow> 'addr \<Rightarrow>
     (('addr, 'id, 'dg, 'sig, 'z) station_world_scheme, unit) prog"
where
  "debug_check_health st default_address =
     (let budget = nanos_per_iota div 10
      in pbind (reserve_gas st budget 3000) (\<lambda>(address, rid, gas_coins).
         pbind (sign_transaction \<lparr>tx_sender = default_address, gas_owner = default_address,
                  payment = gas_coins, gas_price = 0, gas_budget = budget,
                  tx_kind = ProgrammableTransaction [] []\<rparr>) (\<lambda>sig.
         pret ())))"

text \<open>
  One round of \<open>start_coin_unlock_task\<close>: the coins of expired reservations are looked up and
  returned. A failed expiry counts as none.
\<close>

definition coin_unlock_round ::
  "('addr, 'id, 'dg) gas_station \<Rightarrow> (('addr, 'id, 'dg, 'sig, 'z) station_world_scheme, unit) prog"
where
  "coin_unlock_round st =
     pbind (ptry (expire_coins (codec st) (gas_station_store st))) (\<lambda>expire_results.
     let unlocked_coins = (case expire_results of Inl e \<Rightarrow> [] | Inr ids \<Rightarrow> ids)
     in pwhen (unlocked_coins \<noteq> []) (
          pbind (get_latest_gas_objects (fuel st) unlocked_coins) (\<lambda>latest.
          release_gas_coins st (present_values latest))))"

text \<open>The task repeats the round until it is cancelled, here after \<open>n\<close> rounds.\<close>

fun coin_unlock_task ::
  "('addr, 'id, 'dg) gas_station \<Rightarrow> nat \<Rightarrow> (('addr, 'id, 'dg, 'sig, 'z) station_world_scheme, unit) prog"
where
  "coin_unlock_task st 0 w = (Ok (), w)"
| "coin_unlock_task st (Suc n) w = pseq (coin_unlock_round st) (coin_unlock_task st n) w"

definition query_pool_available_coin_count ::
  "('addr, 'id, 'dg) gas_station \<Rightarrow> (('addr, 'id, 'dg, 'sig, 'z) station_world_scheme, u64) prog"
where
  "query_pool_available_coin_count st = punwrap (get_available_coin_count (gas_station_store st))"

end
