(* ===== verification/Consistency_Check.thy ===== *)
theory Consistency_Check
  imports Lua_Num
begin

text \<open>
  \<open>src/src/consistency_check.rs\<close>: the comparison of the registry with the network at startup. The
  percentages are \<open>f64\<close> values. All of them are finite and not negative, so a value is modelled by
  the fraction it denotes, numerator and denominator, whose denominator is a power of two;
  conversions, quotients and products are rounded to 53 significant bits, ties to even.
\<close>

section \<open>Floating point\<close>

type_synonym f64 = "nat \<times> nat"

definition f64_less :: "f64 \<Rightarrow> f64 \<Rightarrow> bool" where
  "f64_less x y \<longleftrightarrow> fst x * snd y < fst y * snd x"

definition f64_eq :: "f64 \<Rightarrow> f64 \<Rightarrow> bool" where
  "f64_eq x y \<longleftrightarrow> fst x * snd y = fst y * snd x"

text \<open>
  \<open>near n d\<close> is the double nearest to \<open>n / d\<close>: the quotient is scaled to 53 bits, rounded, and scaled
  back. \<open>up\<close> and \<open>down\<close> are the two signs of the exponent.
\<close>

definition round_div :: "nat \<Rightarrow> nat \<Rightarrow> nat" where
  "round_div n d =
     (let q = n div d; r = n mod d
      in if 2 * r > d \<or> (2 * r = d \<and> odd q) then q + 1 else q)"

definition near :: "nat \<Rightarrow> nat \<Rightarrow> f64" where
  "near n d =
     (let up = 53 + bit_len d - bit_len n; down = bit_len n - (53 + bit_len d);
          n1 = n * 2 ^ up; d1 = d * 2 ^ down
      in if n1 div d1 < 2 ^ 53
         then (round_div n1 d1 * 2 ^ down, 2 ^ up)
         else (round_div n1 (2 * d1) * 2 ^ Suc down, 2 ^ up))"

definition f64_of_u64 :: "u64 \<Rightarrow> nat" where
  "f64_of_u64 x = round53 (unat x)"

definition f64_times_100 :: "f64 \<Rightarrow> f64" where
  "f64_times_100 x = near (fst x * 100) (snd x)"

section \<open>The check\<close>

definition default_balance_divergence_threshold_percent :: f64 where
  "default_balance_divergence_threshold_percent = (20, 1)"

definition default_coin_count_divergence_threshold_percent :: f64 where
  "default_coin_count_divergence_threshold_percent = (20, 1)"

record consistency_check_result =
  balance_diverged :: bool
  coin_count_diverged :: bool
  registry_balance :: u64
  network_balance :: u64
  balance_divergence_percent :: f64
  registry_coin_count :: u64
  network_coin_count :: u64
  coin_count_divergence_percent :: f64

definition has_divergence :: "consistency_check_result \<Rightarrow> bool" where
  "has_divergence r \<longleftrightarrow> balance_diverged r \<or> coin_count_diverged r"

definition abs_diff :: "u64 \<Rightarrow> u64 \<Rightarrow> u64" where
  "abs_diff a b = (if a < b then b - a else a - b)"

definition calculate_divergence_percent :: "u64 \<Rightarrow> u64 \<Rightarrow> f64" where
  "calculate_divergence_percent value1 value2 =
     (let max_val = max value1 value2
      in if max_val = 0 then (0, 1)
         else let diff = abs_diff value1 value2
              in f64_times_100 (near (f64_of_u64 diff) (f64_of_u64 max_val)))"

definition validate_consistency ::
  "u64 \<Rightarrow> u64 \<Rightarrow> u64 \<Rightarrow> u64 \<Rightarrow> f64 option \<Rightarrow> f64 option \<Rightarrow> consistency_check_result"
where
  "validate_consistency reg_balance reg_coin_count net_balance net_coin_count
       balance_threshold_percent coin_count_threshold_percent =
     (let balance_threshold = (case balance_threshold_percent of Some t \<Rightarrow> t
            | None \<Rightarrow> default_balance_divergence_threshold_percent);
          coin_count_threshold = (case coin_count_threshold_percent of Some t \<Rightarrow> t
            | None \<Rightarrow> default_coin_count_divergence_threshold_percent);
          balance_percent = calculate_divergence_percent reg_balance net_balance;
          coin_count_percent = calculate_divergence_percent reg_coin_count net_coin_count
      in \<lparr>balance_diverged = f64_less balance_threshold balance_percent,
          coin_count_diverged = f64_less coin_count_threshold coin_count_percent,
          registry_balance = reg_balance, network_balance = net_balance,
          balance_divergence_percent = balance_percent,
          registry_coin_count = reg_coin_count, network_coin_count = net_coin_count,
          coin_count_divergence_percent = coin_count_percent\<rparr>)"


section \<open>Warnings\<close>

text \<open>
  \<open>{:.2}\<close> of a finite value: two decimals, the nearest, ties to the even digit. A warning is its
  fields and its message.
\<close>

definition two_digits :: "nat \<Rightarrow> string" where
  "two_digits n = [digit_char (n div 10), digit_char (n mod 10)]"

definition format_fixed2 :: "f64 \<Rightarrow> string" where
  "format_fixed2 x =
     (let hundredths = round_div (fst x * 100) (snd x)
      in show_nat (hundredths div 100) @ ''.'' @ two_digits (hundredths mod 100))"

record warning =
  warn_registry :: u64
  warn_network :: u64
  divergence_percent :: string
  warn_message :: string

definition reinitialize_hint :: string where
  "reinitialize_hint =
     ''Please consider re-initializing the gas station. Use the --allow-reinit and --delete-coin-registry flags to allow re-initialization.''"

definition log_consistency_warnings :: "consistency_check_result \<Rightarrow> warning list" where
  "log_consistency_warnings r =
     (if balance_diverged r
      then [\<lparr>warn_registry = registry_balance r, warn_network = network_balance r,
              divergence_percent = format_fixed2 (balance_divergence_percent r) @ ''%'',
              warn_message = ''Consistency check: Balance divergence detected between registry and network. '' @
                ''This may indicate registry inconsistency or in-flight transactions. '' @ reinitialize_hint\<rparr>]
      else []) @
     (if coin_count_diverged r
      then [\<lparr>warn_registry = registry_coin_count r, warn_network = network_coin_count r,
              divergence_percent = format_fixed2 (coin_count_divergence_percent r) @ ''%'',
              warn_message = ''Consistency check: Coin count divergence detected between registry and network. '' @
                ''This may indicate registry inconsistency or missing coins. '' @ reinitialize_hint\<rparr>]
      else [])"

text \<open>There is a warning exactly when a divergence was found, which is when the function is called.\<close>

lemma warnings_iff_divergence: "log_consistency_warnings r \<noteq> [] \<longleftrightarrow> has_divergence r"
  by (simp add: log_consistency_warnings_def has_divergence_def)


section \<open>The cases of the unit tests\<close>

lemma unat_less_iff: "(a :: u64) < b \<longleftrightarrow> unat a < unat b"
  by (simp add: word_less_nat_alt)

lemma bit_len_exec: "bit_len 0 = 0" "0 < n \<Longrightarrow> bit_len n = Suc (bit_len (n div 2))"
  by (simp_all add: bit_len.simps [of 0] bit_len.simps [of n])

lemmas consistency_exec = bit_len_exec calculate_divergence_percent_def abs_diff_def f64_times_100_def near_def
  round_div_def f64_of_u64_def round53_def f64_less_def f64_eq_def Let_def max_def

end
