(* ===== verification/Initializer.thy ===== *)
theory Initializer
  imports Gas_Station_Core Consistency_Check
begin

text \<open>
  \<open>src/src/gas_station_initializer.rs\<close>: the task that fills the coin registry. It takes the init
  lock, lists the sponsor's coins above a threshold, splits every large coin by transactions into
  coins near the target balance, adds the result to the pool and releases the lock. A coin to split
  is a task in a queue; tasks put the coins they create into the same queue. The tasks run
  concurrently; each works on a coin of its own, so the model runs a task when its result is taken.
  The counter \<open>total_coin_count\<close>, the queue and the two triggers are a part of the world.
\<close>

datatype wake_reason = ForcedTrigger | Scheduled | Cancel

record ('addr, 'id, 'dg, 'sig) init_world = "('addr, 'id, 'dg, 'sig) station_world" +
  task_queue :: "('id, 'dg) gas_coin list"
  total_coin_count :: u64
  wake_ups :: "wake_reason list"

datatype run_mode = Init | Refresh

definition reason :: "wake_reason \<Rightarrow> string" where
  "reason r = (case r of
     ForcedTrigger \<Rightarrow> ''Forced trigger received. Rescanning for new coins''
   | Scheduled \<Rightarrow> ''Scheduled trigger received. Rescanning for new coins''
   | Cancel \<Rightarrow> ''Coin init task is cancelled'')"

definition max_init_duration_sec :: u64 where
  "max_init_duration_sec = 60 * 60 * 12"

definition max_maintenance_duration_sec :: u64 where
  "max_maintenance_duration_sec = 60 * 60 * 12"

text \<open>
  The parts of \<open>CoinSplitEnv\<close> that are values; \<open>framework\<close> is the id of the framework package.
  \<open>split_fuel\<close> bounds the loops.
\<close>

record ('addr, 'id) coin_split_env =
  target_init_coin_balance :: u64
  gas_cost_per_object :: u64
  sponsor_address :: 'addr
  framework :: 'id
  rgp :: u64
  split_fuel :: nat

section \<open>Splitting one coin\<close>

definition object_share :: "('addr, 'id) coin_split_env \<Rightarrow> u64" where
  "object_share env = gas_cost_per_object env + target_init_coin_balance env"

definition enqueue_task ::
  "('addr, 'id) coin_split_env \<Rightarrow> ('id, 'dg) gas_coin \<Rightarrow>
     (('addr, 'id, 'dg, 'sig, 'z) init_world_scheme, ('id, 'dg) gas_coin option) prog"
where
  "enqueue_task env coin =
     (if balance coin \<le> object_share env * 2 then pret (Some coin)
      else pseq (pmodify (\<lambda>w. w\<lparr>task_queue := task_queue w @ [coin]\<rparr>)) (pret None))"

definition increment_total_coin_count_by ::
  "u64 \<Rightarrow> (('addr, 'id, 'dg, 'sig, 'z) init_world_scheme, unit) prog"
where
  "increment_total_coin_count_by delta =
     pmodify (\<lambda>w. w\<lparr>total_coin_count := total_coin_count w + delta\<rparr>)"

text \<open>
  Enqueuing several coins; those that are small enough come back, and \<open>extend\<close> puts them into the
  result.
\<close>

fun somes :: "'a option list \<Rightarrow> 'a list" where
  "somes [] = []"
| "somes (None # xs) = somes xs"
| "somes (Some x # xs) = x # somes xs"

definition enqueue_all ::
  "('addr, 'id) coin_split_env \<Rightarrow> ('id, 'dg) gas_coin list \<Rightarrow>
     (('addr, 'id, 'dg, 'sig, 'z) init_world_scheme, ('id, 'dg) gas_coin list) prog"
where
  "enqueue_all env coins =
     pbind (pmap (enqueue_task env) coins) (\<lambda>rs. pret (somes rs))"

text \<open>\<open>TransactionData::new_programmable\<close>: the sender pays.\<close>

definition split_tx_data ::
  "('addr, 'id) coin_split_env \<Rightarrow> ('id, 'dg) gas_coin \<Rightarrow> u64 \<Rightarrow> u64 \<Rightarrow> ('addr, 'id, 'dg) tx_data"
where
  "split_tx_data env coin split_count budget =
     \<lparr>tx_sender = sponsor_address env, gas_owner = sponsor_address env, payment = [object_ref coin],
      gas_price = rgp env, gas_budget = budget,
      tx_kind = construct_coin_split_pt (framework env) GasCoin split_count\<rparr>"

text \<open>
  The loop that executes the split: on an error the coin is looked up again and the transaction
  rebuilt; a transaction that was executed without success, and a coin that is gone, are panics.
\<close>

fun split_loop ::
  "nat \<Rightarrow> ('addr, 'id) coin_split_env \<Rightarrow> u64 \<Rightarrow> u64 \<Rightarrow> ('id, 'dg) gas_coin \<Rightarrow>
     (('addr, 'id, 'dg, 'sig, 'z) init_world_scheme, ('id, 'dg) gas_coin \<times> ('id, 'dg) tx_effects) prog"
where
  "split_loop 0 env split_count budget coin w = (Hang, w)"
| "split_loop (Suc n) env split_count budget coin w =
     pbind (punwrap (retry_forever (split_fuel env)
              (sign_transaction (split_tx_data env coin split_count budget)))) (\<lambda>sig.
     let tx = from_generic_sig_data (split_tx_data env coin split_count budget) [sig]
     in pbind (ptry (client_execute_transaction tx 10 None)) (\<lambda>result.
        case result of
          Inr effects \<Rightarrow>
            if status_ok effects then pret (coin, effects)
            else ppanic ''Transaction failed. This should never happen.''
        | Inl e \<Rightarrow>
            pbind (get_latest_gas_objects (split_fuel env) [fst (object_ref coin)]) (\<lambda>latest.
            case latest of
              (i, Some c) # _ \<Rightarrow> split_loop n env split_count budget c
            | _ \<Rightarrow> ppanic ''called `Option::unwrap()` on a `None` value''))) w"

definition split_one_gas_coin ::
  "('addr, 'id) coin_split_env \<Rightarrow> ('id, 'dg) gas_coin \<Rightarrow>
     (('addr, 'id, 'dg, 'sig, 'z) init_world_scheme, ('id, 'dg) gas_coin list) prog"
where
  "split_one_gas_coin env coin0 =
     (if object_share env = 0 then ppanic ''attempt to divide by zero''
      else
        let split_count = min 2000 (balance coin0 div object_share env);
            budget = gas_cost_per_object env * split_count
        in pbind (split_loop (split_fuel env) env split_count budget coin0) (\<lambda>(coin, effects).
           if split_count = 0 then ppanic ''attempt to divide by zero''
           else
             let new_coin_balance = (balance coin - budget) div split_count
             in pbind (enqueue_all env
                  (map (\<lambda>r. \<lparr>object_ref = r, balance = new_coin_balance\<rparr>) (created effects)))
                  (\<lambda>result.
                let remaining_coin_balance =
                      (balance coin - new_coin_balance * (split_count - 1)) - net_gas_usage effects
                in pbind (enqueue_all env
                     [\<lparr>object_ref = gas_object effects, balance = remaining_coin_balance\<rparr>]) (\<lambda>rest.
                   let result = result @ rest
                   in pseq (increment_total_coin_count_by (of_nat (length result) - 1))
                        (pret result)))))"

section \<open>Splitting all coins\<close>

text \<open>The loop that takes the tasks from the front of the queue until it is empty.\<close>

fun run_tasks ::
  "nat \<Rightarrow> ('addr, 'id) coin_split_env \<Rightarrow> ('id, 'dg) gas_coin list \<Rightarrow>
     (('addr, 'id, 'dg, 'sig, 'z) init_world_scheme, ('id, 'dg) gas_coin list) prog"
where
  "run_tasks 0 env result w = (Hang, w)"
| "run_tasks (Suc n) env result w =
     (case task_queue w of
        [] \<Rightarrow> (Ok result, w)
      | coin # rest \<Rightarrow>
          pbind (punwrap (split_one_gas_coin env coin)) (\<lambda>coins. run_tasks n env (result @ coins))
            (w\<lparr>task_queue := rest\<rparr>))"

definition split_gas_coins ::
  "('addr, 'id) coin_split_env \<Rightarrow> ('id, 'dg) gas_coin list \<Rightarrow>
     (('addr, 'id, 'dg, 'sig, 'z) init_world_scheme, ('id, 'dg) gas_coin list) prog"
where
  "split_gas_coins env coins =
     (if target_init_coin_balance env = 0 then ppanic ''attempt to divide by zero''
      else pbind (enqueue_all env coins) (\<lambda>result. run_tasks (split_fuel env) env result))"


section \<open>One initialisation\<close>

definition init_lock_held_message :: string where
  "init_lock_held_message =
     ''Another task is already initializing the pool. Please wait for it to complete or use the --ignore-locks flag to force a new initialization.''"

definition target_too_small_message :: "u64 \<Rightarrow> u64 \<Rightarrow> string" where
  "target_too_small_message target cost =
     ''target_init_coin_balance ('' @ show_nat (unat target) @
     '') is too small relative to gas_cost_per_object ('' @ show_nat (unat cost) @
     ''). target_init_coin_balance must be greater than gas_cost_per_object / 99 to prevent registry inconsistencies. Please increase target_init_coin_balance  to at least '' @
     show_nat (unat (cost div 99 + 1)) @ '' for current network and coin setup.''"

definition balance_threshold_of :: "run_mode \<Rightarrow> u64 \<Rightarrow> u64" where
  "balance_threshold_of mode target =
     (case mode of Init \<Rightarrow> 0 | Refresh \<Rightarrow> target * new_coin_balance_factor_threshold)"

text \<open>The values every step of the initializer is given: the station's, and the framework package.\<close>

definition add_chunks ::
  "('addr, 'id, 'dg) gas_station \<Rightarrow> ('id, 'dg) gas_coin list \<Rightarrow>
     (('addr, 'id, 'dg, 'sig, 'z) init_world_scheme, unit list) prog"
where
  "add_chunks st result =
     pmap (\<lambda>chunk. punwrap (add_new_coins (codec st) (gas_station_store st) chunk))
       (chunks 5000 result)"

text \<open>
  After the lock is taken: list, calibrate, split, add, release. \<open>fuel st\<close> bounds the loops.
\<close>

definition init_locked ::
  "('addr, 'id, 'dg) gas_station \<Rightarrow> 'id \<Rightarrow> run_mode \<Rightarrow> u64 \<Rightarrow>
     (('addr, 'id, 'dg, 'sig, 'z) init_world_scheme, unit) prog"
where
  "init_locked st framework_id mode target =
     pbind (get_all_owned_iota_coins_above_balance_threshold (fuel st) (signer_address st)
              (balance_threshold_of mode target)) (\<lambda>coins.
     if coins = []
     then punwrap (release_init_lock (gas_station_store st))
     else
       pseq (pmodify (\<lambda>w. w\<lparr>task_queue := [], total_coin_count := of_nat (length coins)\<rparr>)) (
       pbind (get_reference_gas_price (fuel st)) (\<lambda>price.
       pbind (calibrate_gas_cost_per_object (fuel st) framework_id (hd coins)) (\<lambda>cost.
       if target * 99 \<le> cost
       then pseq (punwrap (release_init_lock (gas_station_store st)))
              (perr (Anyhow (target_too_small_message target cost)))
       else
         pbind (split_gas_coins
                  \<lparr>target_init_coin_balance = target, gas_cost_per_object = cost,
                   sponsor_address = signer_address st, framework = framework_id, rgp = price,
                   split_fuel = fuel st\<rparr> coins) (\<lambda>result.
         pseq (add_chunks st result)
           (punwrap (release_init_lock (gas_station_store st))))))))"

definition run_once ::
  "('addr, 'id, 'dg) gas_station \<Rightarrow> 'id \<Rightarrow> run_mode \<Rightarrow> u64 \<Rightarrow> bool \<Rightarrow>
     (('addr, 'id, 'dg, 'sig, 'z) init_world_scheme, unit) prog"
where
  "run_once st framework_id mode target ignore_init_lock =
     pbind (acquire_init_lock (gas_station_store st) max_init_duration_sec) (\<lambda>lock_status.
     if lock_status \<or> ignore_init_lock then init_locked st framework_id mode target
     else perr (Anyhow init_lock_held_message))"

section \<open>The task\<close>

text \<open>
  \<open>run\<close>: the reasons for which \<open>select!\<close> wakes up come from the world; when they are used up the
  task is cancelled. A refresh that fails is only logged.
\<close>

fun init_run ::
  "wake_reason list \<Rightarrow> ('addr, 'id, 'dg) gas_station \<Rightarrow> 'id \<Rightarrow> u64 \<Rightarrow>
     (('addr, 'id, 'dg, 'sig, 'z) init_world_scheme, unit) prog"
where
  "init_run [] st framework_id target w = (Ok (), w)"
| "init_run (Cancel # rs) st framework_id target w = (Ok (), w)"
| "init_run (r # rs) st framework_id target w =
     pseq (ptry (run_once st framework_id Refresh target False))
       (init_run rs st framework_id target) w"

definition clean_and_rescan_registry ::
  "string list list \<Rightarrow> ('addr, 'id, 'dg) gas_station \<Rightarrow> 'id \<Rightarrow> u64 \<Rightarrow> bool \<Rightarrow>
     (('addr, 'id, 'dg, 'sig, 'z) init_world_scheme, unit) prog"
where
  "clean_and_rescan_registry batches st framework_id target ignore_init_lock =
     pseq (clean_up_coin_registry batches (gas_station_store st)) (
     pseq (init_coin_stats_at_startup (gas_station_store st)) (
     pseq (run_once st framework_id Init target ignore_init_lock) (pret ())))"

text \<open>\<open>perform_consistency_check\<close> reads both sides and logs; a side that fails ends it early.\<close>

definition perform_consistency_check ::
  "('addr, 'id, 'dg) gas_station \<Rightarrow> (('addr, 'id, 'dg, 'sig, 'z) init_world_scheme,
     consistency_check_result option) prog"
where
  "perform_consistency_check st =
     pbind (ptry (get_available_coin_count (gas_station_store st))) (\<lambda>count.
     case count of
       Inl e \<Rightarrow> pret None
     | Inr reg_count \<Rightarrow>
         pbind (get_available_coin_total_balance (gas_station_store st)) (\<lambda>reg_balance.
         pbind (ptry (get_aggregate_coin_stats (fuel st) (signer_address st))) (\<lambda>stats.
         case stats of
           Inl e \<Rightarrow> pret None
         | Inr (net_count, net_balance) \<Rightarrow>
             pret (Some (validate_consistency reg_balance reg_count net_balance net_count None None)))))"

definition maintenance_held_message :: string where
  "maintenance_held_message =
     ''Another instance is already performing maintenance. Please wait for it to complete or use the --ignore-locks flag to force a full rescan.''"

text \<open>
  \<open>start\<close>: a full rescan runs under the maintenance lock, which is released also when the rescan
  failed; a pool that was never initialised is initialised once. Failures are panics.
\<close>

definition full_rescan ::
  "string list list \<Rightarrow> ('addr, 'id, 'dg) gas_station \<Rightarrow> 'id \<Rightarrow> u64 \<Rightarrow> bool \<Rightarrow>
     (('addr, 'id, 'dg, 'sig, 'z) init_world_scheme, unit) prog"
where
  "full_rescan batches st framework_id target ignore_locks =
     pbind (punwrap (acquire_maintenance_lock (gas_station_store st) max_maintenance_duration_sec))
       (\<lambda>acquired.
     if \<not> acquired \<and> \<not> ignore_locks then ppanic maintenance_held_message
     else
       pbind (ptry (clean_and_rescan_registry batches st framework_id target ignore_locks)) (\<lambda>result.
       pseq (ptry (release_maintenance_lock (gas_station_store st)))
         (case result of
            Inl e \<Rightarrow> ppanic (''Full rescan failed: '' @ error_to_string e)
          | Inr u \<Rightarrow> pret ())))"

definition initializer_start ::
  "string list list \<Rightarrow> ('addr, 'id, 'dg) gas_station \<Rightarrow> 'id \<Rightarrow> u64 \<Rightarrow> bool \<Rightarrow> bool \<Rightarrow>
     (('addr, 'id, 'dg, 'sig, 'z) init_world_scheme, unit) prog"
where
  "initializer_start batches st framework_id target force_full_rescan ignore_locks =
     pseq (perform_consistency_check st) (
     if force_full_rescan then full_rescan batches st framework_id target ignore_locks
     else
       pbind (punwrap (is_initialized (gas_station_store st))) (\<lambda>initialized.
       if initialized then pret ()
       else
         pbind (ptry (run_once st framework_id Init target ignore_locks)) (\<lambda>result.
         case result of
           Inl e \<Rightarrow> ppanic (''Initial coin initialization failed: '' @ error_to_string e)
         | Inr u \<Rightarrow> pret ())))"

section \<open>Stopping\<close>

text \<open>
  Dropping the initializer sends on its channel: a second drop and a task that is gone are panics.
\<close>

record gas_station_initializer =
  init_cancel_sender :: bool

definition initializer_drop ::
  "bool \<Rightarrow> gas_station_initializer \<Rightarrow> gas_station_initializer result"
where
  "initializer_drop task_listens self =
     (if \<not> init_cancel_sender self then Panic ''called `Option::unwrap()` on a `None` value''
      else if \<not> task_listens then Panic ''called `Result::unwrap()` on an `Err` value''
      else Ok (self\<lparr>init_cancel_sender := False\<rparr>))"


end
