(* ===== verification/Tracker.thy ===== *)
theory Tracker
  imports Access_Rules Initializer
begin

text \<open>
  The statistics tracker, \<open>src/src/tracker\<close>: a counter per rule and client in Redis, with a time to
  live. The keys of the tracker are under the namespace \<open>prefix:tracker\<close>, apart from those of the
  coin registry, and hold a text and the time at which they expire; they are a part of the world of
  their own. An expired key is missing for every command.

  Two things of Redis are arguments: the text it makes of a Lua number that a script passes to a
  command, and the integer reply it makes of a Lua number that a script returns, which is a C cast
  and undefined outside of 64 bits. \<open>lua_redis_ok\<close> says what every version does: decimal digits
  below \<open>10 ^ 17\<close>, and the number itself within 64 bits.
\<close>

record lua_redis =
  num_text :: "int \<Rightarrow> string"
  reply_int :: "int \<Rightarrow> i64"

definition lua_redis_ok :: "lua_redis \<Rightarrow> bool" where
  "lua_redis_ok E \<longleftrightarrow>
     (\<forall>i. \<bar>i\<bar> < 10 ^ 17 \<longrightarrow> num_text E i = show_int i) \<and>
     (\<forall>i. i64_range i \<longrightarrow> reply_int E i = word_of_int i)"

section \<open>Aggregates and keys\<close>

datatype aggregate_type = Sum

definition display_aggregate_type :: "aggregate_type \<Rightarrow> string" where
  "display_aggregate_type t = (case t of Sum \<Rightarrow> ''sum'')"

record aggregate =
  aggr_name :: string
  aggr_window :: duration
  aggr_type :: aggregate_type

definition with_name :: "string \<Rightarrow> aggregate" where
  "with_name name = \<lparr>aggr_name = name, aggr_window = 0, aggr_type = Sum\<rparr>"

definition with_window :: "duration \<Rightarrow> aggregate \<Rightarrow> aggregate" where
  "with_window w a = a\<lparr>aggr_window := w\<rparr>"

definition with_aggr_type :: "aggregate_type \<Rightarrow> aggregate \<Rightarrow> aggregate" where
  "with_aggr_type t a = a\<lparr>aggr_type := t\<rparr>"

type_synonym key_meta = "(string \<times> json) list"

definition get_tracker_namespace :: "string \<Rightarrow> string" where
  "get_tracker_namespace namespace_prefix = namespace_prefix @ '':tracker''"

text \<open>\<open>sorted_by\<close> the names, which is stable.\<close>

fun insert_meta :: "string \<times> json \<Rightarrow> key_meta \<Rightarrow> key_meta" where
  "insert_meta kv [] = [kv]"
| "insert_meta kv (kv' # kvs) =
     (if str_less_eq (fst kv) (fst kv') then kv # kv' # kvs else kv' # insert_meta kv kvs)"

definition sorted_meta :: "key_meta \<Rightarrow> key_meta" where
  "sorted_meta key = foldr insert_meta key []"

definition generate_hash_from_key :: "('addr, 'eng) access_lib \<Rightarrow> key_meta \<Rightarrow> string" where
  "generate_hash_from_key L key =
     sha256_text L (concat (map (\<lambda>(k, v). k @ canonical_json L v) (sorted_meta key)))"

definition get_redis_aggr_key ::
  "('addr, 'eng) access_lib \<Rightarrow> string \<Rightarrow> aggregate_type \<Rightarrow> key_meta \<Rightarrow> string"
where
  "get_redis_aggr_key L name t key =
     name @ '':'' @ display_aggregate_type t @ '':'' @ generate_hash_from_key L key"

section \<open>The script\<close>

type_synonym tracker_keys = "string \<rightharpoonup> string \<times> int option"

definition live :: "int \<Rightarrow> tracker_keys \<Rightarrow> string \<Rightarrow> (string \<times> int option) option" where
  "live now db k = (case db k of
     None \<Rightarrow> None
   | Some (v, None) \<Rightarrow> Some (v, None)
   | Some (v, Some t) \<Rightarrow> if t < now then None else Some (v, Some t))"

text \<open>\<open>SET key value EX ttl\<close>\<close>

definition invalid_expire :: script_error where
  "invalid_expire = Raised ''ERR invalid expire time in 'set' command''"

definition set_ex ::
  "int \<Rightarrow> string \<Rightarrow> string \<Rightarrow> string \<Rightarrow> tracker_keys \<Rightarrow> (script_error + unit) \<times> tracker_keys"
where
  "set_ex now k v ttl_text db = (case read_int ttl_text of
     None \<Rightarrow> (Inl NotInteger, db)
   | Some ttl \<Rightarrow>
       if ttl \<le> 0 \<or> \<not> i64_range (ttl * 1000 + now) then (Inl invalid_expire, db)
       else (Inr (), db(k \<mapsto> (v, Some (now + ttl * 1000)))))"

text \<open>\<open>INCRBY key amount\<close>: the time to live stays.\<close>

definition incr_by ::
  "int \<Rightarrow> string \<Rightarrow> string \<Rightarrow> tracker_keys \<Rightarrow> (script_error + int) \<times> tracker_keys"
where
  "incr_by now k amount_text db =
     (case live now db k of
        None \<Rightarrow>
          (case read_int amount_text of
             None \<Rightarrow> (Inl NotInteger, db)
           | Some a \<Rightarrow> if i64_range a then (Inr a, db(k \<mapsto> (show_int a, None))) else (Inl NotInteger, db))
      | Some (v, t) \<Rightarrow>
          (case (read_int v, read_int amount_text) of
             (Some i, Some a) \<Rightarrow>
               if i64_range i \<and> i64_range a \<and> i64_range (i + a)
               then (Inr (i + a), db(k \<mapsto> (show_int (i + a), t)))
               else (Inl NotInteger, db)
           | _ \<Rightarrow> (Inl NotInteger, db)))"

definition max_i64 :: int where
  "max_i64 = lua_num (2 ^ 63 - 1)"

definition aggr_increment_sum_lua ::
  "lua_redis \<Rightarrow> int \<Rightarrow> string \<Rightarrow> string \<Rightarrow> int \<Rightarrow> int \<Rightarrow> tracker_keys \<Rightarrow>
     (script_error + i64) \<times> tracker_keys"
where
  "aggr_increment_sum_lua E now ns key_name amount_arg ttl_arg db =
     (let amount = lua_num amount_arg;
          ttl = lua_num ttl_arg;
          key = nkey ns key_name
      in case (if live now db key = None then set_ex now key ''0'' (num_text E ttl) db
               else (Inr (), db)) of
           (Inl e, db1) \<Rightarrow> (Inl e, db1)
         | (Inr u, db1) \<Rightarrow>
             (case incr_by now key (num_text E amount) db1 of
                (Inr new_val, db2) \<Rightarrow> (Inr (reply_int E (lua_num new_val)), db2)
              | (Inl e, db2) \<Rightarrow>
                  (Inr (reply_int E max_i64), db2(key \<mapsto> (num_text E max_i64, None)))))"

definition increment_aggr_sum_script where
  "increment_aggr_sum_script = aggr_increment_sum_lua"

section \<open>The world of the access controller\<close>

record gas_usage_confirmation_request =
  req_rule_meta :: key_meta
  req_aggregate :: aggregate
  req_gas_usage :: u64

record ('addr, 'dg, 'eng) access_controller =
  access_policy :: access_policy
  rules :: "('addr, 'eng) access_rule list"
  confirmation_requests :: "'dg \<rightharpoonup> gas_usage_confirmation_request list"

text \<open>What a hook answers: its status, and the body read as JSON and as text.\<close>

record http_response =
  is_success :: bool
  status_text :: string
  body_json :: "error + json"
  body_text :: "string option"

record hook_call =
  call_url :: string
  call_headers :: header_map
  call_body :: json

record ('addr, 'id, 'dg, 'sig, 'eng) access_world = "('addr, 'id, 'dg, 'sig) init_world" +
  tracker_keys :: tracker_keys
  hook_answers :: "(error + http_response) list"
  hook_calls :: "hook_call list"
  source_answers :: "source_answer list"
  controller :: "('addr, 'dg, 'eng) access_controller"

text \<open>One request of the tracker, with the time of the Redis server and the faults of the network.\<close>

definition tracker_invoke ::
  "(int \<Rightarrow> tracker_keys \<Rightarrow> (script_error + 'a) \<times> tracker_keys) \<Rightarrow>
     (('addr, 'id, 'dg, 'sig, 'eng, 'z) access_world_scheme, 'a) prog"
where
  "tracker_invoke s = pbind utc_now_ms (\<lambda>now w.
     (let (f, w1) = next_fault w
      in case f of
           LostRequest \<Rightarrow> (Err (Foreign ''connection lost''), w1)
         | LostReply \<Rightarrow>
             (Err (Foreign ''connection lost''),
              w1\<lparr>tracker_keys := snd (s now (tracker_keys w1))\<rparr>)
         | NoFault \<Rightarrow>
             (case s now (tracker_keys w1) of
                (Inl e, d) \<Rightarrow> (Err (Foreign (script_error_text e)), w1\<lparr>tracker_keys := d\<rparr>)
              | (Inr a, d) \<Rightarrow> (Ok a, w1\<lparr>tracker_keys := d\<rparr>))))"

text \<open>The tracker: its namespace and what it takes from Redis.\<close>

record stats_tracker =
  tracker_namespace :: string
  tracker_redis :: lua_redis

definition tracker_new :: "lua_redis \<Rightarrow> string \<Rightarrow> stats_tracker" where
  "tracker_new E namespace_prefix =
     \<lparr>tracker_namespace = get_tracker_namespace namespace_prefix, tracker_redis = E\<rparr>"

definition connect_stats_storage :: "lua_redis \<Rightarrow> string \<Rightarrow> stats_tracker" where
  "connect_stats_storage E namespace_prefix = tracker_new E namespace_prefix"

definition storage_update_aggr ::
  "('addr, 'eng) access_lib \<Rightarrow> stats_tracker \<Rightarrow> key_meta \<Rightarrow> aggregate \<Rightarrow> i64 \<Rightarrow>
     (('addr, 'id, 'dg, 'sig, 'eng, 'z) access_world_scheme, i64) prog"
where
  "storage_update_aggr L self key_meta aggr value =
     (let key = get_redis_aggr_key L (aggr_name aggr) (aggr_type aggr) key_meta
      in case aggr_type aggr of
           Sum \<Rightarrow> tracker_invoke (\<lambda>now. increment_aggr_sum_script (tracker_redis self) now
                    (tracker_namespace self) key (sint value) (int (as_secs (aggr_window aggr)))))"

definition stats_update_aggr ::
  "('addr, 'eng) access_lib \<Rightarrow> stats_tracker \<Rightarrow> key_meta \<Rightarrow> aggregate \<Rightarrow> i64 \<Rightarrow>
     (('addr, 'id, 'dg, 'sig, 'eng, 'z) access_world_scheme, i64) prog"
where
  "stats_update_aggr L self key_meta aggr value = storage_update_aggr L self key_meta aggr value"

section \<open>The counter\<close>

text \<open>
  What a counter promises: \<open>counter\<close> is its value, 0 while the key is missing. Inside the range of
  exact Lua numbers an update adds its amount and answers the sum; the first update of a window
  sets the time at which the counter ends, later ones keep it.
\<close>

definition counter :: "int \<Rightarrow> tracker_keys \<Rightarrow> string \<Rightarrow> int option" where
  "counter now db k = (case live now db k of None \<Rightarrow> Some 0 | Some (v, t) \<Rightarrow> read_int v)"

definition expiry :: "int \<Rightarrow> int \<Rightarrow> tracker_keys \<Rightarrow> string \<Rightarrow> int option" where
  "expiry now ttl db k =
     (case live now db k of None \<Rightarrow> Some (now + ttl * 1000) | Some (v, t) \<Rightarrow> t)"

lemma small_text: "lua_redis_ok E \<Longrightarrow> \<bar>i\<bar> \<le> 2 ^ 53 \<Longrightarrow> read_int (num_text E (lua_num i)) = Some i"
  by (simp add: lua_redis_ok_def lua_num_exact)

lemma small_i64: "\<bar>i\<bar> \<le> 2 ^ 53 \<Longrightarrow> i64_range i"
  unfolding i64_range_def abs_le_iff by auto

lemma small_reply: "lua_redis_ok E \<Longrightarrow> \<bar>i\<bar> \<le> 2 ^ 53 \<Longrightarrow> reply_int E (lua_num i) = word_of_int i"
  using small_i64 by (simp add: lua_redis_ok_def lua_num_exact)

lemma live_update: "live now (db(k \<mapsto> (v, t))) k =
    (case t of None \<Rightarrow> Some (v, None) | Some t \<Rightarrow> if t < now then None else Some (v, Some t))"
  by (simp add: live_def split: option.splits)

lemma read_int_0: "read_int ''0'' = Some 0"
  by (simp add: read_nat_def is_digit_def digit_val_def)

lemma live_not_expired: "live now db k = Some (v, Some t) \<Longrightarrow> now \<le> t"
  by (auto simp: live_def split: option.splits if_splits)

lemma aggr_adds:
  assumes E: "lua_redis_ok E" and ttl: "0 < ttl" "ttl \<le> 2 ^ 53" "0 \<le> now" "ttl * 1000 + now < 2 ^ 63"
    and a: "\<bar>a\<bar> \<le> 2 ^ 53" and c: "counter now db (nkey ns k) = Some c" "\<bar>c\<bar> \<le> 2 ^ 53" "\<bar>c + a\<bar> \<le> 2 ^ 53"
  shows "aggr_increment_sum_lua E now ns k a ttl db =
    (Inr (word_of_int (c + a)),
     db(nkey ns k \<mapsto> (show_int (c + a), expiry now ttl db (nkey ns k))))"
proof (cases "live now db (nkey ns k)")
  case None
  have "i64_range (ttl * 1000 + now)"
    using ttl by (simp add: i64_range_def)
  moreover have "\<bar>ttl\<bar> \<le> 2 ^ 53" using ttl by simp
  ultimately have s: "set_ex now (nkey ns k) ''0'' (num_text E (lua_num ttl)) db =
      (Inr (), db(nkey ns k \<mapsto> (''0'', Some (now + ttl * 1000))))"
    using ttl E by (simp add: set_ex_def small_text)
  have c0: "c = 0" using c None by (simp add: counter_def)
  have "incr_by now (nkey ns k) (num_text E (lua_num a)) (db(nkey ns k \<mapsto> (''0'', Some (now + ttl * 1000)))) =
      (Inr a, db(nkey ns k \<mapsto> (show_int a, Some (now + ttl * 1000))))"
    using a E ttl by (simp add: incr_by_def live_update small_text small_i64 read_int_0 del: read_int.simps)
  with s None c0 a E show ?thesis
    by (simp add: aggr_increment_sum_lua_def Let_def small_reply expiry_def)
next
  case (Some vt)
  obtain v t where vt: "vt = (v, t)" by (cases vt)
  then have "read_int v = Some c" using Some c by (simp add: counter_def)
  then have "incr_by now (nkey ns k) (num_text E (lua_num a)) db =
      (Inr (c + a), db(nkey ns k \<mapsto> (show_int (c + a), t)))"
    using a c E Some vt by (simp add: incr_by_def small_text small_i64)
  with Some vt E c show ?thesis
    by (simp add: aggr_increment_sum_lua_def Let_def small_reply expiry_def)
qed

lemma counter_after:
  "t = None \<or> (\<exists>e. t = Some e \<and> now \<le> e) \<Longrightarrow>
     counter now (db(k \<mapsto> (show_int i, t))) k = Some i"
  by (auto simp: counter_def live_update)

end
