(* ===== verification/Access_Match.thy ===== *)
theory Access_Match
  imports Tracker
begin

text \<open>
  Matching a rule: \<open>reports.rs\<close>, \<open>utils.rs\<close> and the second part of \<open>rule.rs\<close> under
  \<open>src/src/access_controller\<close>. A predicate gives a report with its name, its result and a text; a rule
  matches when all reports so far do. The predicates are checked in order and the first that fails
  ends the check; the gas limit is checked apart, because it changes the tracker.
\<close>

section \<open>Reports\<close>

record predicate_report =
  predicate_name :: string
  pr_is_matched :: bool
  result_reason :: string

definition predicate_report_new :: "string \<Rightarrow> bool \<Rightarrow> string \<Rightarrow> predicate_report" where
  "predicate_report_new name is_matched why =
     \<lparr>predicate_name = name, pr_is_matched = is_matched, result_reason = why\<rparr>"

text \<open>\<open>{:30}\<close> pads with spaces on the right.\<close>

definition pad_right :: "nat \<Rightarrow> string \<Rightarrow> string" where
  "pad_right n s = s @ replicate (n - length s) (CHR '' '')"

definition display_predicate_report :: "predicate_report \<Rightarrow> string" where
  "display_predicate_report p =
     pad_right 30 (predicate_name p) @ '' : '' @
     (if pr_is_matched p then ''[MATCHED]'' else ''[NOT MATCHED]'') @ '' : '' @ result_reason p"

record rule_report =
  predicate_reports :: "predicate_report list"
  rr_is_matched :: bool
  applied_action :: "action option"
  applied_action_details :: "string option"

definition rule_report_new :: rule_report where
  "rule_report_new = \<lparr>predicate_reports = [], rr_is_matched = False, applied_action = None,
     applied_action_details = None\<rparr>"

definition add_predicate_reports :: "predicate_report list \<Rightarrow> rule_report \<Rightarrow> rule_report" where
  "add_predicate_reports ps self =
     (let all = predicate_reports self @ ps
      in self\<lparr>predicate_reports := all, rr_is_matched := list_all pr_is_matched all\<rparr>)"

definition add_predicate_report :: "predicate_report \<Rightarrow> rule_report \<Rightarrow> rule_report" where
  "add_predicate_report p self =
     (let all = predicate_reports self @ [p]
      in self\<lparr>predicate_reports := all, rr_is_matched := list_all pr_is_matched all\<rparr>)"

definition set_applied_action :: "action option \<Rightarrow> rule_report \<Rightarrow> rule_report" where
  "set_applied_action a self = self\<lparr>applied_action := a\<rparr>"

definition set_applied_action_details :: "string \<Rightarrow> rule_report \<Rightarrow> rule_report" where
  "set_applied_action_details d self = self\<lparr>applied_action_details := Some d\<rparr>"

text \<open>The marks are the UTF-8 bytes of U+2705, U+274C, U+1F517, U+1F7E2 and U+1F534.\<close>

definition check_mark :: string where "check_mark = [CHR 0xE2, CHR 0x9C, CHR 0x85]"
definition cross_mark :: string where "cross_mark = [CHR 0xE2, CHR 0x9D, CHR 0x8C]"
definition link_mark :: string where "link_mark = [CHR 0xF0, CHR 0x9F, CHR 0x94, CHR 0x97]"
definition green_mark :: string where "green_mark = [CHR 0xF0, CHR 0x9F, CHR 0x9F, CHR 0xA2]"
definition red_mark :: string where "red_mark = [CHR 0xF0, CHR 0x9F, CHR 0x94, CHR 0xB4]"

definition newline :: string where "newline = [CHR 0x0A]"
definition tab :: string where "tab = [CHR 0x09]"

definition display_rule_report :: "rule_report \<Rightarrow> string" where
  "display_rule_report self =
     (let details = (case applied_action_details self of
            Some d \<Rightarrow> '' (Details: '' @ d @ '')'' | None \<Rightarrow> []);
          act = (case applied_action self of
              Some action.Allow \<Rightarrow> check_mark @ '' Allow'' @ details
            | Some action.Deny \<Rightarrow> cross_mark @ '' Deny'' @ details
            | Some (HookAction h) \<Rightarrow> link_mark @ '' '' @ hook_url h @ details
            | None \<Rightarrow> ''[No action applied]'')
      in newline @ tab @
         join_with (newline @ tab) (map display_predicate_report (predicate_reports self)) @
         '' '' @ newline @ tab @ ''---> Action applied: '' @ act)"

record access_report =
  report_decision :: decision
  decision_details :: "string option"
  report_transaction_data :: json
  report_rules :: "rule_report list"

definition access_report_new :: access_report where
  "access_report_new = \<lparr>report_decision = decision.Allow, decision_details = None,
     report_transaction_data = JNull, report_rules = []\<rparr>"

definition add_rule_report :: "rule_report \<Rightarrow> access_report \<Rightarrow> access_report" where
  "add_rule_report r self = self\<lparr>report_rules := report_rules self @ [r]\<rparr>"

definition set_decision :: "decision \<Rightarrow> access_report \<Rightarrow> access_report" where
  "set_decision d self = self\<lparr>report_decision := d\<rparr>"

definition set_decision_with_reason :: "decision \<Rightarrow> string \<Rightarrow> access_report \<Rightarrow> access_report" where
  "set_decision_with_reason d why self =
     self\<lparr>report_decision := d, decision_details := Some why\<rparr>"

definition set_transaction_data :: "json \<Rightarrow> access_report \<Rightarrow> access_report" where
  "set_transaction_data d self = self\<lparr>report_transaction_data := d\<rparr>"

definition display_access_report :: "('addr, 'eng) access_lib \<Rightarrow> access_report \<Rightarrow> string" where
  "display_access_report L self =
     (let rules_fmt = join_with (newline @ newline)
            (map (\<lambda>(i, r). ''Rule '' @ show_nat (i + 1) @ '': '' @ display_rule_report r)
               (enumerate 0 (report_rules self)));
          why = (case decision_details self of Some s \<Rightarrow> '' ('' @ s @ '')'' | None \<Rightarrow> []);
          decision_fmt = (case report_decision self of
              decision.Allow \<Rightarrow> green_mark @ '' Allow'' @ why
            | decision.Deny \<Rightarrow> red_mark @ '' Deny'' @ why)
      in newline @ ''================================='' @ newline @
         ''Access Report for transaction: '' @ newline @
         json_pretty L (report_transaction_data self) @ '' '' @ newline @
         rules_fmt @ '' '' @ newline @ decision_fmt)"

text \<open>The JSON of a report.\<close>

definition ser_option :: "('a \<Rightarrow> json) \<Rightarrow> 'a option \<Rightarrow> json" where
  "ser_option ser v = (case v of None \<Rightarrow> JNull | Some a \<Rightarrow> ser a)"

definition ser_predicate_report :: "predicate_report \<Rightarrow> json" where
  "ser_predicate_report p = JObject
     [(''predicate_name'', JString (predicate_name p)), (''is_matched'', JBool (pr_is_matched p)),
      (''result_reason'', JString (result_reason p))]"

definition ser_rule_report :: "rule_report \<Rightarrow> json" where
  "ser_rule_report r = JObject
     [(''predicate_reports'', JArray (map ser_predicate_report (predicate_reports r))),
      (''is_matched'', JBool (rr_is_matched r)),
      (''applied_action'', ser_option ser_action (applied_action r)),
      (''applied_action_details'', ser_option JString (applied_action_details r))]"

fun ser_decision :: "decision \<Rightarrow> json" where
  "ser_decision decision.Allow = JString ''Allow''"
| "ser_decision decision.Deny = JString ''Deny''"

definition ser_access_report :: "access_report \<Rightarrow> json" where
  "ser_access_report self = JObject
     [(''decision'', ser_decision (report_decision self)),
      (''decision_details'', ser_option JString (decision_details self)),
      (''transaction_data'', report_transaction_data self),
      (''rules'', JArray (map ser_rule_report (report_rules self)))]"

text \<open>\<open>print\<close> is the printer of the JSON crate.\<close>

definition report_to_json :: "(json \<Rightarrow> string) \<Rightarrow> access_report \<Rightarrow> string" where
  "report_to_json print self = print (ser_access_report self)"

lemma add_predicate_reports_one: "add_predicate_report p r = add_predicate_reports [p] r"
  by (simp add: add_predicate_report_def add_predicate_reports_def)

section \<open>The transaction to check\<close>

record ('addr, 'dg) transaction_context =
  transaction_digest :: 'dg
  sender_address :: 'addr
  transaction_budget :: u64
  move_call_package_addresses :: "'addr list"
  ptb_command_count :: "u64 option"
  transaction_data :: json
  ctx_stats_tracker :: stats_tracker
  ctx_reservation_id :: reservation_id
  tx_bytes :: string
  user_sig :: string
  ctx_request_type :: "request_type option"
  headers :: header_map

text \<open>
  What the crate of the node's types gives of transaction data: the digest, the JSON value, and the
  address of a package id.
\<close>

record ('addr, 'id, 'dg) tx_lib =
  tx_digest :: "('addr, 'id, 'dg) tx_data \<Rightarrow> 'dg"
  tx_json :: "('addr, 'id, 'dg) tx_data \<Rightarrow> json option"
  address_of_id :: "'id \<Rightarrow> 'addr"

fun move_call_packages :: "'id command list \<Rightarrow> 'id list" where
  "move_call_packages [] = []"
| "move_call_packages (MoveCall p m f args # cs) = p # move_call_packages cs"
| "move_call_packages (c # cs) = move_call_packages cs"

definition get_move_call_package_addresses ::
  "('addr, 'id, 'dg) tx_lib \<Rightarrow> ('addr, 'id, 'dg) tx_data \<Rightarrow> 'addr list"
where
  "get_move_call_package_addresses T d =
     map (address_of_id T) (move_call_packages (iter_commands (tx_kind d)))"

definition context_new ::
  "('addr, 'id, 'dg) tx_lib \<Rightarrow> ('addr, 'id, 'dg) tx_data \<Rightarrow> stats_tracker \<Rightarrow> reservation_id \<Rightarrow>
     string \<Rightarrow> string \<Rightarrow> request_type option \<Rightarrow> header_map \<Rightarrow> ('addr, 'dg) transaction_context result"
where
  "context_new T d tracker rid bytes sig rt hs =
     (let ptb = (case tx_kind d of
            ProgrammableTransaction inputs commands \<Rightarrow> Some (of_nat (length commands))
          | OtherKind \<Rightarrow> None)
      in case tx_json T d of
           None \<Rightarrow> Panic ''Failed to convert transaction data to JSON value''
         | Some j \<Rightarrow>
             Ok \<lparr>transaction_digest = tx_digest T d, sender_address = tx_sender d,
               transaction_budget = gas_budget d,
               move_call_package_addresses = get_move_call_package_addresses T d,
               ptb_command_count = ptb, transaction_data = j, ctx_stats_tracker = tracker,
               ctx_reservation_id = rid, tx_bytes = bytes, user_sig = sig, ctx_request_type = rt,
               headers = hs\<rparr>)"

text \<open>The builder methods of the context.\<close>

definition with_sender_address ::
  "'addr \<Rightarrow> ('addr, 'dg) transaction_context \<Rightarrow> ('addr, 'dg) transaction_context"
where
  "with_sender_address v self = self\<lparr>sender_address := v\<rparr>"

definition with_gas_budget ::
  "u64 \<Rightarrow> ('addr, 'dg) transaction_context \<Rightarrow> ('addr, 'dg) transaction_context"
where
  "with_gas_budget v self = self\<lparr>transaction_budget := v\<rparr>"

definition with_move_call_package_addresses ::
  "'addr list \<Rightarrow> ('addr, 'dg) transaction_context \<Rightarrow> ('addr, 'dg) transaction_context"
where
  "with_move_call_package_addresses v self = self\<lparr>move_call_package_addresses := v\<rparr>"

definition with_stats_tracker ::
  "stats_tracker \<Rightarrow> ('addr, 'dg) transaction_context \<Rightarrow> ('addr, 'dg) transaction_context"
where
  "with_stats_tracker v self = self\<lparr>ctx_stats_tracker := v\<rparr>"

definition with_transaction_data ::
  "json \<Rightarrow> ('addr, 'dg) transaction_context \<Rightarrow> ('addr, 'dg) transaction_context"
where
  "with_transaction_data v self = self\<lparr>transaction_data := v\<rparr>"

definition with_reservation_id ::
  "reservation_id \<Rightarrow> ('addr, 'dg) transaction_context \<Rightarrow> ('addr, 'dg) transaction_context"
where
  "with_reservation_id v self = self\<lparr>ctx_reservation_id := v\<rparr>"

definition with_tx_bytes ::
  "string \<Rightarrow> ('addr, 'dg) transaction_context \<Rightarrow> ('addr, 'dg) transaction_context"
where
  "with_tx_bytes v self = self\<lparr>tx_bytes := v\<rparr>"

definition with_user_sig ::
  "string \<Rightarrow> ('addr, 'dg) transaction_context \<Rightarrow> ('addr, 'dg) transaction_context"
where
  "with_user_sig v self = self\<lparr>user_sig := v\<rparr>"

definition with_headers ::
  "header_map \<Rightarrow> ('addr, 'dg) transaction_context \<Rightarrow> ('addr, 'dg) transaction_context"
where
  "with_headers v self = self\<lparr>headers := v\<rparr>"

definition with_ptb_command_count ::
  "u64 \<Rightarrow> ('addr, 'dg) transaction_context \<Rightarrow> ('addr, 'dg) transaction_context"
where
  "with_ptb_command_count v self = self\<lparr>ptb_command_count := Some v\<rparr>"

definition with_request_type ::
  "request_type \<Rightarrow> ('addr, 'dg) transaction_context \<Rightarrow> ('addr, 'dg) transaction_context"
where
  "with_request_type v self = self\<lparr>ctx_request_type := Some v\<rparr>"

text \<open>\<open>header_map_to_btree_map\<close>: the values of a name in the order of the fields.\<close>

definition header_map_to_btree_map :: "header_map \<Rightarrow> hook_action_headers" where
  "header_map_to_btree_map hs =
     fold (\<lambda>(k, v) m.
         bt_insert k ((case map_of m k of None \<Rightarrow> [] | Some vs \<Rightarrow> vs) @ [utf8_lossy v]) m) hs []"

text \<open>
  \<open>HeaderMap::get_all\<close>: the fields hold names in their normal form, and the name that is asked for is
  brought into it, so that letters of either case find the same fields; what is no name finds nothing.
\<close>

definition get_all :: "('addr, 'eng) access_lib \<Rightarrow> header_map \<Rightarrow> string \<Rightarrow> string list" where
  "get_all L hs name =
     (case header_name_of L name of
        None \<Rightarrow> []
      | Some k \<Rightarrow> map snd (filter (\<lambda>(k', v). k' = k) hs))"

record rego_input_payload =
  rego_transaction_data :: json
  rego_http_headers :: hook_action_headers

definition from_context :: "('addr, 'dg) transaction_context \<Rightarrow> rego_input_payload" where
  "from_context ctx = \<lparr>rego_transaction_data = transaction_data ctx,
     rego_http_headers = header_map_to_btree_map (headers ctx)\<rparr>"

definition ser_rego_input :: "rego_input_payload \<Rightarrow> json" where
  "ser_rego_input p = JObject ((''transaction_data'', rego_transaction_data p) #
     (if rego_http_headers p = [] then [] else [(''http_headers'', ser_headers (rego_http_headers p))]))"

section \<open>Predicates\<close>

definition sender_address_name :: string where "sender_address_name = ''sender_address''"
definition gas_budget_name :: string where "gas_budget_name = ''gas_budget''"
definition move_call_name :: string where "move_call_name = ''move_call_package_address''"
definition ptb_count_name :: string where "ptb_count_name = ''ptb_command_count''"
definition gas_usage_name :: string where "gas_usage_name = ''gas_usage''"
definition rego_name :: string where "rego_name = ''rego_expression''"

text \<open>\<open>Debug\<close> of a list and of a set of addresses.\<close>

definition debug_list :: "('a \<Rightarrow> string) \<Rightarrow> 'a list \<Rightarrow> string" where
  "debug_list sh xs = ''['' @ join_with '', '' (map sh xs) @ '']''"

fun debug_value_iota_address :: "('addr \<Rightarrow> string) \<Rightarrow> 'addr value_iota_address \<Rightarrow> string" where
  "debug_value_iota_address sh All = ''All''"
| "debug_value_iota_address sh (Single a) = ''Single('' @ sh a @ '')''"
| "debug_value_iota_address sh (List as) = ''List('' @ debug_list sh as @ '')''"

definition match_sender_address ::
  "('addr, 'eng) access_lib \<Rightarrow> ('addr, 'eng) access_rule \<Rightarrow> ('addr, 'dg) transaction_context \<Rightarrow>
     predicate_report"
where
  "match_sender_address L self data =
     (let is_matched = addr_includes (rule_sender_address self) (sender_address data)
      in predicate_report_new sender_address_name is_matched
           (''sender address '' @ show_addr (addr_lib L) (sender_address data) @
            (if is_matched then '' is in the list: '' else '' is not in the list: '') @ [CHR 39] @
            debug_value_iota_address (debug_addr (addr_lib L)) (rule_sender_address self) @ [CHR 39]))"

definition match_gas_budget ::
  "('addr, 'eng) access_rule \<Rightarrow> ('addr, 'dg) transaction_context \<Rightarrow> predicate_report"
where
  "match_gas_budget self data =
     (case transaction_gas_budget self of
        None \<Rightarrow> predicate_report_new gas_budget_name True ''gas budget is not defined''
      | Some criteria \<Rightarrow>
          let is_matched = number_matches criteria (transaction_budget data)
          in predicate_report_new gas_budget_name is_matched
               (''gas budget '' @ show_u64 (transaction_budget data) @
                (if is_matched then '' matches: '' else '' does not match: '') @
                display_value_number show_u64 criteria))"

definition match_move_call_package_address ::
  "('addr, 'eng) access_lib \<Rightarrow> ('addr, 'eng) access_rule \<Rightarrow> ('addr, 'dg) transaction_context \<Rightarrow>
     predicate_report"
where
  "match_move_call_package_address L self data =
     (case rule_move_call_package_address self of
        None \<Rightarrow> predicate_report_new move_call_name True ''move call package address is not defined''
      | Some address \<Rightarrow>
          let is_matched = includes_any address (move_call_package_addresses data)
          in predicate_report_new move_call_name is_matched
               (''move call package address '' @
                debug_list (debug_addr (addr_lib L)) (move_call_package_addresses data) @
                (if is_matched then '' is in the list: '' else '' is not in the list: '') @ [CHR 39] @
                debug_value_iota_address (debug_addr (addr_lib L)) address @ [CHR 39]))"

definition match_ptb_command_count ::
  "('addr, 'eng) access_rule \<Rightarrow> ('addr, 'dg) transaction_context \<Rightarrow> predicate_report"
where
  "match_ptb_command_count self data =
     (case (rule_ptb_command_count self, ptb_command_count data) of
        (Some criteria, Some value) \<Rightarrow>
          let is_matched = number_matches criteria value
          in predicate_report_new ptb_count_name is_matched
               (''ptb command count '' @ show_u64 value @
                (if is_matched then '' matches: '' else '' does not match: '') @
                display_value_number show_u64 criteria)
      | _ \<Rightarrow> predicate_report_new ptb_count_name True ''ptb command count is not defined'')"

definition match_rego_expression ::
  "('addr, 'eng) access_lib \<Rightarrow> ('addr, 'eng) access_rule \<Rightarrow> ('addr, 'dg) transaction_context \<Rightarrow>
     predicate_report result"
where
  "match_rego_expression L self ctx =
     (case rule_rego_expression self of
        None \<Rightarrow> Ok (predicate_report_new rego_name True ''rego expression is not defined'')
      | Some rego \<Rightarrow>
          let input_string = json_pretty L (ser_rego_input (from_context ctx))
          in rbind (with_context ''Failed to match rego expression'' (rego_matches L rego input_string))
               (\<lambda>result.
               Ok (predicate_report_new rego_name result
                 ((if result then ''rego expression matches: '' else ''rego expression does not match: '') @
                  location_to_string (source_location (rego_source rego))))))"

definition rule_matches ::
  "('addr, 'eng) access_lib \<Rightarrow> ('addr, 'eng) access_rule \<Rightarrow> ('addr, 'dg) transaction_context \<Rightarrow>
     rule_report result"
where
  "rule_matches L self data =
     (let report = add_predicate_report (match_sender_address L self data) rule_report_new
      in if \<not> rr_is_matched report then Ok report
         else let report = add_predicate_report (match_gas_budget self data) report
      in if \<not> rr_is_matched report then Ok report
         else let report = add_predicate_report (match_move_call_package_address L self data) report
      in if \<not> rr_is_matched report then Ok report
         else let report = add_predicate_report (match_ptb_command_count self data) report
      in if \<not> rr_is_matched report then Ok report
         else rbind (match_rego_expression L self data) (\<lambda>rego_result.
              Ok (add_predicate_report rego_result report)))"

section \<open>The gas limit\<close>

text \<open>The value a client is counted by; several header values are sorted and joined.\<close>

fun insert_str :: "string \<Rightarrow> string list \<Rightarrow> string list" where
  "insert_str s [] = [s]"
| "insert_str s (t # ts) = (if str_less_eq s t then s # t # ts else t # insert_str s ts)"

definition sorted_strs :: "string list \<Rightarrow> string list" where
  "sorted_strs ss = foldr insert_str ss []"

definition count_by_value ::
  "('addr, 'eng) access_lib \<Rightarrow> ('addr, 'dg) transaction_context \<Rightarrow> count_by \<Rightarrow> string"
where
  "count_by_value L ctx c =
     (case c of
        SenderAddress \<Rightarrow> show_addr (addr_lib L) (sender_address ctx)
      | HttpHeader h \<Rightarrow>
          join_with '','' (sorted_strs
            (map (\<lambda>v. case header_to_str L v of None \<Rightarrow> [] | Some s \<Rightarrow> s)
               (get_all L (headers ctx) (header_name h)))))"

definition rule_meta_with_counts ::
  "('addr, 'eng) access_lib \<Rightarrow> ('addr, 'dg) transaction_context \<Rightarrow> value_aggregate \<Rightarrow> key_meta \<Rightarrow>
     key_meta"
where
  "rule_meta_with_counts L ctx gas_limit meta =
     fold (\<lambda>c m. AList.update (count_by_to_string c) (JString (count_by_value L ctx c)) m)
       (count_bys gas_limit) meta"

definition get_rule_meta ::
  "('addr, 'eng) access_lib \<Rightarrow> ('addr, 'eng) access_rule \<Rightarrow> ('addr, 'dg) transaction_context \<Rightarrow> key_meta result"
where
  "get_rule_meta L self ctx =
     (case ser_access_rule L self of
        JObject fs \<Rightarrow>
          Ok (case rule_gas_usage self of
                None \<Rightarrow> fs
              | Some gas_limit \<Rightarrow> rule_meta_with_counts L ctx gas_limit fs)
      | _ \<Rightarrow> Err (Anyhow ''The rule isn't a map''))"

definition gas_usage_aggregate :: "duration \<Rightarrow> aggregate" where
  "gas_usage_aggregate w = with_window w (with_aggr_type Sum (with_name gas_usage_name))"

definition match_gas_limit ::
  "('addr, 'eng) access_lib \<Rightarrow> ('addr, 'eng) access_rule \<Rightarrow> ('addr, 'dg) transaction_context \<Rightarrow>
     (('addr, 'id, 'dg, 'sig, 'eng, 'z) access_world_scheme,
      predicate_report \<times> gas_usage_confirmation_request option) prog"
where
  "match_gas_limit L self ctx =
     (case rule_gas_usage self of
        None \<Rightarrow> pret (predicate_report_new gas_usage_name True ''gas usage is not defined'', None)
      | Some gas_limit \<Rightarrow>
          pbind (plift (with_context ''Failed to calculate rule meta for gas limit''
                   (get_rule_meta L self ctx))) (\<lambda>rule_meta.
          let aggr = gas_usage_aggregate (window gas_limit)
          in pbind (pcontext ''Updating aggregate failed''
                (stats_update_aggr L (ctx_stats_tracker ctx) rule_meta aggr (transaction_budget ctx)))
               (\<lambda>total_gas_claim.
             let request = \<lparr>req_rule_meta = rule_meta, req_aggregate = aggr,
                             req_gas_usage = transaction_budget ctx\<rparr>;
                 is_matched = number_matches (aggr_value gas_limit) total_gas_claim
             in pret (predicate_report_new gas_usage_name is_matched
                  (''total gas usage '' @ show_int (sint total_gas_claim) @ '' '' @
                   (if is_matched then ''matches'' else ''does not match'') @ '': '' @
                   display_value_number show_u64 (aggr_value gas_limit)), Some request))))"

definition match_global_limits ::
  "('addr, 'eng) access_lib \<Rightarrow> ('addr, 'eng) access_rule \<Rightarrow> ('addr, 'dg) transaction_context \<Rightarrow>
     (('addr, 'id, 'dg, 'sig, 'eng, 'z) access_world_scheme,
      rule_report \<times> gas_usage_confirmation_request list) prog"
where
  "match_global_limits L self ctx =
     pbind (pcontext ''failed to match gas limit'' (match_gas_limit L self ctx)) (\<lambda>(p, request).
     pret (add_predicate_report p rule_report_new,
       (case request of Some r \<Rightarrow> [r] | None \<Rightarrow> [])))"

end
