(* ===== verification/Access_Controller.thy ===== *)
theory Access_Controller
  imports Access_Match
begin

text \<open>
  \<open>src/src/access_controller/mod.rs\<close> and the call of a hook (\<open>hook/hook_action.rs\<close>,
  \<open>hook/hook_server_types.rs\<close>): the rules are tried in order, the first that matches and decides is
  applied, else the policy. Claims on gas limits are booked while a rule is checked and kept under
  the digest of the transaction until it is confirmed. The controller and its pending requests are
  the field \<open>controller\<close> of the world; the report of a check, which the code writes to its trace
  log, is a result of the model.
\<close>

section \<open>Calling a hook\<close>

record execute_tx_request_payload =
  hp_reservation_id :: reservation_id
  hp_tx_bytes :: string
  hp_user_sig :: string
  hp_request_type :: "request_type option"

record execute_tx_gas_station_request =
  hr_payload :: execute_tx_request_payload
  hr_headers :: hook_action_headers

definition build_execute_tx_hook_request_payload ::
  "('addr, 'dg) transaction_context \<Rightarrow> execute_tx_gas_station_request"
where
  "build_execute_tx_hook_request_payload ctx =
     \<lparr>hr_payload = \<lparr>hp_reservation_id = ctx_reservation_id ctx, hp_tx_bytes = tx_bytes ctx,
        hp_user_sig = user_sig ctx, hp_request_type = ctx_request_type ctx\<rparr>,
      hr_headers = header_map_to_btree_map (headers ctx)\<rparr>"

fun ser_request_type :: "request_type option \<Rightarrow> json" where
  "ser_request_type None = JNull"
| "ser_request_type (Some WaitForEffectsCert) = JString ''waitForEffectsCert''"
| "ser_request_type (Some WaitForLocalExecution) = JString ''waitForLocalExecution''"

definition ser_hook_request :: "execute_tx_gas_station_request \<Rightarrow> json" where
  "ser_hook_request r = JObject [(''executeTxRequest'', JObject
     [(''payload'', JObject
        [(''reservationId'', JNumber (uint (hp_reservation_id (hr_payload r)))),
         (''txBytes'', JString (hp_tx_bytes (hr_payload r))),
         (''userSig'', JString (hp_user_sig (hr_payload r))),
         (''requestType'', ser_request_type (hp_request_type (hr_payload r)))]),
      (''headers'', ser_headers (hr_headers r))])]"

datatype skippable_decision = Allow | Deny | NoDecision

record execute_tx_ok_response =
  hook_decision :: skippable_decision
  user_message :: "string option"

definition de_skippable_decision :: "json \<Rightarrow> skippable_decision result" where
  "de_skippable_decision j = rbind (de_string j) (\<lambda>s.
     if s = ''allow'' then Ok skippable_decision.Allow
     else if s = ''deny'' then Ok skippable_decision.Deny
     else if s = ''noDecision'' then Ok NoDecision
     else de_error (''unknown variant `'' @ s @ ''`''))"

fun de_ok_response :: "json \<Rightarrow> execute_tx_ok_response result" where
  "de_ok_response (JObject fs) =
     rbind (de_field de_skippable_decision ''decision'' fs) (\<lambda>d.
     rbind (de_optional de_string ''userMessage'' fs) (\<lambda>m.
     Ok \<lparr>hook_decision = d, user_message = m\<rparr>))"
| "de_ok_response j = de_error ''invalid type: expected struct ExecuteTxOkResponse''"

definition hook_send ::
  "hook_call \<Rightarrow> (('addr, 'id, 'dg, 'sig, 'eng, 'z) access_world_scheme, http_response) prog"
where
  "hook_send c w =
     (let w1 = w\<lparr>hook_calls := hook_calls w @ [c]\<rparr>
      in case hook_answers w of
           [] \<Rightarrow> (Err (Foreign ''no answer''), w1)
         | Inl e # as \<Rightarrow> (Err e, w1\<lparr>hook_answers := as\<rparr>)
         | Inr r # as \<Rightarrow> (Ok r, w1\<lparr>hook_answers := as\<rparr>))"

definition call_hook ::
  "('addr, 'eng) access_lib \<Rightarrow> hook_action \<Rightarrow> ('addr, 'dg) transaction_context \<Rightarrow>
     (('addr, 'id, 'dg, 'sig, 'eng, 'z) access_world_scheme, execute_tx_ok_response) prog"
where
  "call_hook L self ctx =
     (let body = build_execute_tx_hook_request_payload ctx
      in pbind (plift (hook_header_map L self)) (\<lambda>hs.
         pbind (hook_send \<lparr>call_url = hook_url self,
                  call_headers = (case hs of None \<Rightarrow> [] | Some h \<Rightarrow> h),
                  call_body = ser_hook_request body\<rparr>) (\<lambda>res.
         if is_success res
         then plift (with_context ''failed to parse successful hook response body''
                (rbind (answer_of (body_json res)) de_ok_response))
         else perr (Anyhow (''hook call failed with status '' @ status_text res @ ''; '' @
                (case body_text res of None \<Rightarrow> [] | Some t \<Rightarrow> t))))))"

section \<open>The controller\<close>

definition controller_new ::
  "access_policy \<Rightarrow> ('addr, 'eng) access_rule list \<Rightarrow> ('addr, 'dg, 'eng) access_controller"
where
  "controller_new policy rs =
     \<lparr>access_policy = policy, rules = rs, confirmation_requests = Map.empty\<rparr>"

definition is_disabled :: "('addr, 'dg, 'eng) access_controller \<Rightarrow> bool" where
  "is_disabled self \<longleftrightarrow> access_policy self = Disabled"

definition add_rule ::
  "('addr, 'eng) access_rule \<Rightarrow> ('addr, 'dg, 'eng) access_controller \<Rightarrow>
     ('addr, 'dg, 'eng) access_controller"
where
  "add_rule r self = self\<lparr>rules := rules self @ [r]\<rparr>"

definition add_rules ::
  "('addr, 'eng) access_rule list \<Rightarrow> ('addr, 'dg, 'eng) access_controller \<Rightarrow>
     ('addr, 'dg, 'eng) access_controller"
where
  "add_rules rs self = self\<lparr>rules := rules self @ rs\<rparr>"

text \<open>
  Initialising changes the rules in place: the result of a step and what the rule has become.
\<close>

definition next_source_answer ::
  "(('addr, 'id, 'dg, 'sig, 'eng, 'z) access_world_scheme, source_answer) prog"
where
  "next_source_answer w = (case source_answers w of
     [] \<Rightarrow> (Ok \<lparr>open_error = None, connect_error = None, bad_status = None,
                source_bytes = Inl (Foreign ''no answer'')\<rparr>, w)
   | a # as \<Rightarrow> (Ok a, w\<lparr>source_answers := as\<rparr>))"

definition rule_initialize ::
  "('addr, 'eng) access_lib \<Rightarrow> ('addr, 'eng) access_rule \<Rightarrow>
     (('addr, 'id, 'dg, 'sig, 'eng, 'z) access_world_scheme, unit result \<times> ('addr, 'eng) access_rule) prog"
where
  "rule_initialize L self =
     pbind (case rule_rego_expression self of
              None \<Rightarrow> pret (Ok (), self)
            | Some rego \<Rightarrow>
                pbind next_source_answer (\<lambda>a.
                case reload_source L rego a of
                  (r, rego') \<Rightarrow> pret (r, self\<lparr>rule_rego_expression := Some rego'\<rparr>)))
       (\<lambda>(r, self1).
       if r \<noteq> Ok () then pret (r, self1)
       else case action_initialize L (rule_action self1) of
              (r2, act) \<Rightarrow> pret (r2, self1\<lparr>rule_action := act\<rparr>))"

fun initialize_rules ::
  "('addr, 'eng) access_lib \<Rightarrow> ('addr, 'eng) access_rule list \<Rightarrow>
     (('addr, 'id, 'dg, 'sig, 'eng, 'z) access_world_scheme,
      unit result \<times> ('addr, 'eng) access_rule list) prog"
where
  "initialize_rules L [] = pret (Ok (), [])"
| "initialize_rules L (rule # rs) =
     pbind (rule_initialize L rule) (\<lambda>(r, rule').
     if r \<noteq> Ok () then pret (r, rule' # rs)
     else pbind (initialize_rules L rs) (\<lambda>(r2, rs'). pret (r2, rule' # rs')))"

definition controller_initialize ::
  "('addr, 'eng) access_lib \<Rightarrow> ('addr, 'dg, 'eng) access_controller \<Rightarrow>
     (('addr, 'id, 'dg, 'sig, 'eng, 'z) access_world_scheme,
      unit result \<times> ('addr, 'dg, 'eng) access_controller) prog"
where
  "controller_initialize L self =
     pbind (initialize_rules L (rules self)) (\<lambda>(r, rs). pret (r, self\<lparr>rules := rs\<rparr>))"

definition controller_reload ::
  "('addr, 'eng) access_lib \<Rightarrow> ('addr, 'eng) access_rule list \<Rightarrow> access_policy \<Rightarrow>
     ('addr, 'dg, 'eng) access_controller \<Rightarrow>
     (('addr, 'id, 'dg, 'sig, 'eng, 'z) access_world_scheme,
      unit result \<times> ('addr, 'dg, 'eng) access_controller) prog"
where
  "controller_reload L rs policy self =
     controller_initialize L (self\<lparr>rules := rs, access_policy := policy\<rparr>)"

subsection \<open>Checking\<close>

definition remember_requests ::
  "'dg \<Rightarrow> gas_usage_confirmation_request list \<Rightarrow>
     (('addr, 'id, 'dg, 'sig, 'eng, 'z) access_world_scheme, unit) prog"
where
  "remember_requests digest reqs = pmodify (\<lambda>w. w\<lparr>controller := (controller w)\<lparr>confirmation_requests :=
     (confirmation_requests (controller w))(digest \<mapsto> reqs)\<rparr>\<rparr>)"

text \<open>The decision of a matching rule, and the message of a hook for the report.\<close>

definition apply_action ::
  "('addr, 'eng) access_lib \<Rightarrow> ('addr, 'dg) transaction_context \<Rightarrow> action \<Rightarrow>
     (('addr, 'id, 'dg, 'sig, 'eng, 'z) access_world_scheme, decision option \<times> string option) prog"
where
  "apply_action L ctx a =
     (case a of
        action.Allow \<Rightarrow> pret (Some decision.Allow, None)
      | action.Deny \<Rightarrow> pret (Some decision.Deny, None)
      | HookAction hook_action \<Rightarrow>
          pbind (call_hook L hook_action ctx) (\<lambda>response.
          pret (case hook_decision response of
                  skippable_decision.Allow \<Rightarrow> Some decision.Allow
                | skippable_decision.Deny \<Rightarrow> Some decision.Deny
                | NoDecision \<Rightarrow> None, user_message response)))"

text \<open>One rule: its decision, if it makes one, and its report.\<close>

definition check_rule ::
  "('addr, 'eng) access_lib \<Rightarrow> ('addr, 'dg) transaction_context \<Rightarrow> ('addr, 'eng) access_rule \<Rightarrow>
     (('addr, 'id, 'dg, 'sig, 'eng, 'z) access_world_scheme, decision option \<times> rule_report) prog"
where
  "check_rule L ctx rule =
     pbind (plift (rule_matches L rule ctx)) (\<lambda>report.
     if \<not> rr_is_matched report then pret (None, report)
     else
       pbind (match_global_limits L rule ctx) (\<lambda>(limits, requests).
       pseq (pwhen (requests \<noteq> []) (remember_requests (transaction_digest ctx) requests)) (
       let report = add_predicate_reports (predicate_reports limits) report
       in if \<not> rr_is_matched limits then pret (None, report)
          else
            let report = set_applied_action (Some (rule_action rule)) report
            in pbind (apply_action L ctx (rule_action rule)) (\<lambda>(maybe_decision, message).
               pret (maybe_decision,
                 (case message of None \<Rightarrow> report | Some m \<Rightarrow> set_applied_action_details m report))))))"

fun check_rules ::
  "('addr, 'eng) access_lib \<Rightarrow> ('addr, 'dg) transaction_context \<Rightarrow> access_policy \<Rightarrow>
     ('addr, 'eng) access_rule list \<Rightarrow> access_report \<Rightarrow>
     (('addr, 'id, 'dg, 'sig, 'eng, 'z) access_world_scheme, decision \<times> access_report) prog"
where
  "check_rules L ctx policy [] report =
     pret (decision_of_policy policy,
       set_decision_with_reason (decision_of_policy policy) ''Default policy applied'' report)"
| "check_rules L ctx policy (rule # rs) report =
     pbind (check_rule L ctx rule) (\<lambda>(maybe_decision, rule_report).
     let report = add_rule_report rule_report report
     in case maybe_decision of
          Some d \<Rightarrow> pret (d, set_decision d report)
        | None \<Rightarrow> check_rules L ctx policy rs report)"

definition check_access ::
  "('addr, 'eng) access_lib \<Rightarrow> ('addr, 'dg) transaction_context \<Rightarrow>
     (('addr, 'id, 'dg, 'sig, 'eng, 'z) access_world_scheme, decision) prog"
where
  "check_access L ctx =
     pbind (pget controller) (\<lambda>self.
     if is_disabled self then pret decision.Allow
     else pbind (check_rules L ctx (access_policy self) (rules self)
                   (set_transaction_data (transaction_data ctx) access_report_new))
            (\<lambda>(d, report). pret d))"

subsection \<open>Confirming\<close>

record 'dg transaction_execution_result =
  result_digest :: 'dg
  result_gas_usage :: "u64 option"

definition execution_result_new :: "'dg \<Rightarrow> 'dg transaction_execution_result" where
  "execution_result_new digest = \<lparr>result_digest = digest, result_gas_usage = None\<rparr>"

definition with_gas_usage ::
  "u64 \<Rightarrow> 'dg transaction_execution_result \<Rightarrow> 'dg transaction_execution_result"
where
  "with_gas_usage used r = r\<lparr>result_gas_usage := Some used\<rparr>"

text \<open>What of a claim is given back: all of it, or what was not used.\<close>

definition claim_diff :: "u64 option \<Rightarrow> u64 \<Rightarrow> u64" where
  "claim_diff real claimed =
     (case real of
        Some used \<Rightarrow> if used \<le> claimed then claimed - used else 0
      | None \<Rightarrow> claimed)"

fun confirm_requests ::
  "('addr, 'eng) access_lib \<Rightarrow> stats_tracker \<Rightarrow> u64 option \<Rightarrow> gas_usage_confirmation_request list \<Rightarrow>
     (('addr, 'id, 'dg, 'sig, 'eng, 'z) access_world_scheme, unit) prog"
where
  "confirm_requests L tracker real [] = pret ()"
| "confirm_requests L tracker real (req # reqs) =
     pseq (pcontext ''Failed to update aggregate while when confirming transactions''
             (stats_update_aggr L tracker (req_rule_meta req) (req_aggregate req)
                (- claim_diff real (req_gas_usage req))))
       (confirm_requests L tracker real reqs)"

definition take_requests ::
  "'dg \<Rightarrow> (('addr, 'id, 'dg, 'sig, 'eng, 'z) access_world_scheme,
     gas_usage_confirmation_request list option) prog"
where
  "take_requests digest w =
     (Ok (confirmation_requests (controller w) digest),
      w\<lparr>controller := (controller w)\<lparr>confirmation_requests :=
        (confirmation_requests (controller w))(digest := None)\<rparr>\<rparr>)"

definition confirm_transaction ::
  "('addr, 'eng) access_lib \<Rightarrow> 'dg transaction_execution_result \<Rightarrow> stats_tracker \<Rightarrow>
     (('addr, 'id, 'dg, 'sig, 'eng, 'z) access_world_scheme, unit) prog"
where
  "confirm_transaction L r tracker =
     pbind (take_requests (result_digest r)) (\<lambda>maybe_requests.
     case maybe_requests of
       None \<Rightarrow> pret ()
     | Some requests \<Rightarrow> confirm_requests L tracker (result_gas_usage r) requests)"

section \<open>Reading and writing\<close>

definition ser_controller ::
  "('addr, 'eng) access_lib \<Rightarrow> ('addr, 'dg, 'eng) access_controller \<Rightarrow> json"
where
  "ser_controller L self = JObject
     ((''access-policy'', ser_access_policy (access_policy self)) #
      (if rules self = [] then [] else [(''rules'', JArray (map (ser_access_rule L) (rules self)))]))"

fun de_controller ::
  "('addr, 'eng) access_lib \<Rightarrow> json \<Rightarrow> ('addr, 'dg, 'eng) access_controller result"
where
  "de_controller L (JObject fs) =
     rbind (de_field de_access_policy ''access-policy'' fs) (\<lambda>p.
     rbind (de_default (de_list (de_access_rule L)) [] ''rules'' fs) (\<lambda>rs.
     Ok (controller_new p rs)))"
| "de_controller L j = de_error ''invalid type: expected struct AccessController''"

end
