(* ===== verification/Access_Claims.thy ===== *)
theory Access_Claims
  imports Access_Controller
begin

text \<open>
  Lemmas on the access controller. The reference semantics of a check (\<open>rule_verdict\<close>, \<open>first_match\<close>),
  one checked rule with and without a gas limit, and the booking of a claim and of its confirmation
  on the counter of the tracker. The properties are in \<open>Access_Props\<close>.
\<close>

section \<open>Reference semantics\<close>

text \<open>When a rule applies, apart from its gas limit.\<close>

definition static_match :: "('addr, 'eng) access_rule \<Rightarrow> ('addr, 'dg) transaction_context \<Rightarrow> bool" where
  "static_match r ctx \<longleftrightarrow>
     addr_includes (rule_sender_address r) (sender_address ctx) \<and>
     (\<forall>n. transaction_gas_budget r = Some n \<longrightarrow> number_matches n (transaction_budget ctx)) \<and>
     (\<forall>v. rule_move_call_package_address r = Some v \<longrightarrow>
        list_ex (addr_includes v) (move_call_package_addresses ctx)) \<and>
     (\<forall>n c. rule_ptb_command_count r = Some n \<and> ptb_command_count ctx = Some c \<longrightarrow> number_matches n c)"

definition rego_verdict ::
  "('addr, 'eng) access_lib \<Rightarrow> ('addr, 'eng) access_rule \<Rightarrow> ('addr, 'dg) transaction_context \<Rightarrow>
     bool result"
where
  "rego_verdict L r ctx =
     (case rule_rego_expression r of
        None \<Rightarrow> Ok True
      | Some rego \<Rightarrow>
          with_context ''Failed to match rego expression''
            (rego_matches L rego (json_pretty L (ser_rego_input (from_context ctx)))))"

definition rule_verdict ::
  "('addr, 'eng) access_lib \<Rightarrow> ('addr, 'eng) access_rule \<Rightarrow> ('addr, 'dg) transaction_context \<Rightarrow>
     bool result"
where
  "rule_verdict L r ctx = (if static_match r ctx then rego_verdict L r ctx else Ok False)"

text \<open>Rules that decide by themselves: no gas limit and no hook.\<close>

definition decides_alone :: "('addr, 'eng) access_rule \<Rightarrow> bool" where
  "decides_alone r \<longleftrightarrow> rule_gas_usage r = None \<and> rule_action r \<in> {action.Allow, action.Deny}"

definition decision_of_action :: "action \<Rightarrow> decision" where
  "decision_of_action a = (if a = action.Allow then decision.Allow else decision.Deny)"

fun first_match ::
  "('addr, 'eng) access_lib \<Rightarrow> ('addr, 'dg) transaction_context \<Rightarrow> access_policy \<Rightarrow>
     ('addr, 'eng) access_rule list \<Rightarrow> decision result"
where
  "first_match L ctx policy [] = Ok (decision_of_policy policy)"
| "first_match L ctx policy (r # rs) =
     rbind (rule_verdict L r ctx) (\<lambda>applies.
     if applies then Ok (decision_of_action (rule_action r)) else first_match L ctx policy rs)"

section \<open>Matching\<close>

lemma add_first [simp]:
  "add_predicate_report p rule_report_new =
     \<lparr>predicate_reports = [p], rr_is_matched = pr_is_matched p, applied_action = None,
      applied_action_details = None\<rparr>"
  by (simp add: add_predicate_report_def rule_report_new_def)

lemma add_matched: "rr_is_matched (add_predicate_report p rep) \<longleftrightarrow>
    list_all pr_is_matched (predicate_reports rep) \<and> pr_is_matched p"
  by (simp add: add_predicate_report_def)

lemma add_reports: "predicate_reports (add_predicate_report p rep) = predicate_reports rep @ [p]"
  by (simp add: add_predicate_report_def)

lemma sender_matched: "pr_is_matched (match_sender_address L r ctx) \<longleftrightarrow>
    addr_includes (rule_sender_address r) (sender_address ctx)"
  by (simp add: match_sender_address_def predicate_report_new_def Let_def)

lemma budget_matched: "pr_is_matched (match_gas_budget r ctx) \<longleftrightarrow>
    (\<forall>n. transaction_gas_budget r = Some n \<longrightarrow> number_matches n (transaction_budget ctx))"
  by (auto simp: match_gas_budget_def predicate_report_new_def Let_def split: option.splits)

lemma move_call_matched: "pr_is_matched (match_move_call_package_address L r ctx) \<longleftrightarrow>
    (\<forall>v. rule_move_call_package_address r = Some v \<longrightarrow>
       list_ex (addr_includes v) (move_call_package_addresses ctx))"
  by (auto simp: match_move_call_package_address_def predicate_report_new_def Let_def includes_any_def
      split: option.splits)

lemma ptb_count_matched: "pr_is_matched (match_ptb_command_count r ctx) \<longleftrightarrow>
    (\<forall>n c. rule_ptb_command_count r = Some n \<and> ptb_command_count ctx = Some c \<longrightarrow> number_matches n c)"
  by (auto simp: match_ptb_command_count_def predicate_report_new_def Let_def split: option.splits)

lemmas predicates_matched = sender_matched budget_matched move_call_matched ptb_count_matched

lemma rego_matched: "rbind (match_rego_expression L r ctx) (\<lambda>p. Ok (pr_is_matched p)) = rego_verdict L r ctx"
proof (cases "rule_rego_expression r")
  case None
  then show ?thesis
    by (simp add: match_rego_expression_def rego_verdict_def predicate_report_new_def)
next
  case (Some rego)
  then show ?thesis
    by (cases "rego_matches L rego (json_pretty L (ser_rego_input (from_context ctx)))")
      (simp_all add: match_rego_expression_def rego_verdict_def predicate_report_new_def)
qed

lemma rbind_assoc: "rbind (rbind r f) g = rbind r (\<lambda>a. rbind (f a) g)"
  by (cases r) simp_all

lemma verdict_of_report:
  "rbind (rule_matches L r ctx) (\<lambda>rep. Ok (rr_is_matched rep)) = rule_verdict L r ctx"
proof (cases "static_match r ctx")
  case True
  then show ?thesis
    unfolding rule_verdict_def rego_matched [symmetric]
    by (simp add: rule_matches_def Let_def add_matched add_reports predicates_matched static_match_def
        rbind_assoc)
next
  case False
  then show ?thesis
    by (auto simp: rule_matches_def rule_verdict_def Let_def add_matched add_reports predicates_matched
        static_match_def)
qed

section \<open>Checking one rule\<close>

lemma check_rule_not_matched:
  "rule_matches L r ctx = Ok rep \<Longrightarrow> \<not> rr_is_matched rep \<Longrightarrow> check_rule L ctx r w = (Ok (None, rep), w)"
  by (simp add: check_rule_def)

lemma check_rule_failed:
  "rule_matches L r ctx = Err e \<Longrightarrow> check_rule L ctx r w = (Err e, w)"
  "rule_matches L r ctx = Panic s \<Longrightarrow> check_rule L ctx r w = (Panic s, w)"
  "rule_matches L r ctx = Hang \<Longrightarrow> check_rule L ctx r w = (Hang, w)"
  by (simp_all add: check_rule_def)

lemma check_rule_alone:
  assumes "rule_matches L r ctx = Ok rep" "rr_is_matched rep" "decides_alone r"
  shows "\<exists>rep'. check_rule L ctx r w = (Ok (Some (decision_of_action (rule_action r)), rep'), w)"
proof -
  have "match_global_limits L r ctx w =
      (Ok (add_predicate_report (predicate_report_new gas_usage_name True ''gas usage is not defined'')
         rule_report_new, []), w)"
    using assms(3) by (simp add: decides_alone_def match_global_limits_def match_gas_limit_def)
  then show ?thesis
    using assms
    by (auto simp: check_rule_def decides_alone_def apply_action_def decision_of_action_def Let_def
        predicate_report_new_def)
qed

lemma check_rules_alone:
  "list_all decides_alone rs \<Longrightarrow>
     \<exists>rep'. check_rules L ctx policy rs report w = (rbind (first_match L ctx policy rs) (\<lambda>d. Ok (d, rep')), w)"
proof (induction rs arbitrary: report)
  case Nil
  then show ?case by simp
next
  case (Cons r rs)
  have verdict: "rule_verdict L r ctx = rbind (rule_matches L r ctx) (\<lambda>rep. Ok (rr_is_matched rep))"
    by (simp add: verdict_of_report)
  show ?case
  proof (cases "rule_matches L r ctx")
    case (Ok rep)
    show ?thesis
    proof (cases "rr_is_matched rep")
      case True
      then obtain rep' where "check_rule L ctx r w =
          (Ok (Some (decision_of_action (rule_action r)), rep'), w)"
        using check_rule_alone [of L r ctx rep w] Ok Cons.prems by auto
      with True Ok show ?thesis by (simp add: verdict Let_def)
    next
      case False
      then show ?thesis
        using Ok Cons.IH [of "add_rule_report rep report"] Cons.prems
        by (simp add: verdict check_rule_not_matched Let_def)
    qed
  qed (simp_all add: verdict check_rule_failed)
qed

lemma check_access_alone:
  assumes "list_all decides_alone (rules (controller w))"
  shows "check_access L ctx w =
    (if access_policy (controller w) = Disabled then Ok decision.Allow
     else first_match L ctx (access_policy (controller w)) (rules (controller w)), w)"
proof (cases "access_policy (controller w) = Disabled")
  case True
  then show ?thesis by (simp add: check_access_def is_disabled_def)
next
  case False
  obtain rep where "check_rules L ctx (access_policy (controller w)) (rules (controller w))
      (set_transaction_data (transaction_data ctx) access_report_new) w =
    (rbind (first_match L ctx (access_policy (controller w)) (rules (controller w))) (\<lambda>d. Ok (d, rep)), w)"
    using check_rules_alone [OF assms] by blast
  with False show ?thesis
    by (cases "first_match L ctx (access_policy (controller w)) (rules (controller w))")
      (simp_all add: check_access_def is_disabled_def)
qed

section \<open>Booking on a counter\<close>

text \<open>The time is in a range in which Redis accepts the window, and nothing is lost on the way.\<close>

definition window_ok :: "int \<Rightarrow> int \<Rightarrow> bool" where
  "window_ok now ttl \<longleftrightarrow> 0 < ttl \<and> ttl \<le> 2 ^ 53 \<and> 0 \<le> now \<and> ttl * 1000 + now < 2 ^ 63"

definition quiet_at :: "int \<Rightarrow> 'z world_scheme \<Rightarrow> bool" where
  "quiet_at now w \<longleftrightarrow> clock w = [now] \<and> faults w = []"

text \<open>A counter with a new value; the first value of a window sets its end.\<close>

definition booked_at :: "int \<Rightarrow> int \<Rightarrow> string \<Rightarrow> int \<Rightarrow> tracker_keys \<Rightarrow> tracker_keys" where
  "booked_at now ttl k i db = db(k \<mapsto> (show_int i, expiry now ttl db k))"

definition claim_ttl :: "aggregate \<Rightarrow> int" where
  "claim_ttl a = int (as_secs (aggr_window a))"

definition aggr_key :: "('addr, 'eng) access_lib \<Rightarrow> stats_tracker \<Rightarrow> aggregate \<Rightarrow> key_meta \<Rightarrow> string" where
  "aggr_key L tr a meta =
     nkey (tracker_namespace tr) (get_redis_aggr_key L (aggr_name a) (aggr_type a) meta)"

lemma update_books:
  assumes "lua_redis_ok (tracker_redis tr)" "window_ok now (claim_ttl a)" "quiet_at now w"
    and "counter now (tracker_keys w) (aggr_key L tr a meta) = Some c"
    and "\<bar>sint v\<bar> \<le> 2 ^ 53" "\<bar>c\<bar> \<le> 2 ^ 53" "\<bar>c + sint v\<bar> \<le> 2 ^ 53"
  shows "stats_update_aggr L tr meta a v w =
    (Ok (word_of_int (c + sint v)),
     w\<lparr>tracker_keys := booked_at now (claim_ttl a) (aggr_key L tr a meta) (c + sint v) (tracker_keys w)\<rparr>)"
proof -
  have "aggr_increment_sum_lua (tracker_redis tr) now (tracker_namespace tr)
      (get_redis_aggr_key L (aggr_name a) (aggr_type a) meta) (sint v) (claim_ttl a) (tracker_keys w) =
    (Inr (word_of_int (c + sint v)),
     booked_at now (claim_ttl a) (aggr_key L tr a meta) (c + sint v) (tracker_keys w))"
    unfolding booked_at_def aggr_key_def
    by (rule aggr_adds) (use assms in \<open>simp_all add: window_ok_def aggr_key_def\<close>)
  then show ?thesis
    using assms(3) by (cases "aggr_type a")
      (simp add: stats_update_aggr_def storage_update_aggr_def tracker_invoke_def quiet_at_def
        increment_aggr_sum_script_def claim_ttl_def Let_def)
qed

lemma counter_booked: "counter now (booked_at now ttl k i db) k = Some i" if "0 < ttl"
proof -
  have "expiry now ttl db k = None \<or> (\<exists>e. expiry now ttl db k = Some e \<and> now \<le> e)"
    using that live_not_expired [of now db k]
    by (auto simp: expiry_def split: option.splits)
  then show ?thesis unfolding booked_at_def by (rule counter_after)
qed

lemma booked_other: "k' \<noteq> k \<Longrightarrow> counter now (booked_at n ttl k i db) k' = counter now db k'"
  by (simp add: counter_def live_def booked_at_def)

section \<open>Claims\<close>

text \<open>The request that a rule with a gas limit leaves behind, and the counter it is booked on.\<close>

definition claim_of ::
  "('addr, 'eng) access_lib \<Rightarrow> ('addr, 'eng) access_rule \<Rightarrow> value_aggregate \<Rightarrow>
     ('addr, 'dg) transaction_context \<Rightarrow> gas_usage_confirmation_request"
where
  "claim_of L r g ctx =
     \<lparr>req_rule_meta = rule_meta_with_counts L ctx g (rule_fields L r),
      req_aggregate = gas_usage_aggregate (window g), req_gas_usage = transaction_budget ctx\<rparr>"

definition claim_key ::
  "('addr, 'eng) access_lib \<Rightarrow> stats_tracker \<Rightarrow> gas_usage_confirmation_request \<Rightarrow> string"
where
  "claim_key L tr req = aggr_key L tr (req_aggregate req) (req_rule_meta req)"

abbreviation req_ttl :: "gas_usage_confirmation_request \<Rightarrow> int" where
  "req_ttl req \<equiv> claim_ttl (req_aggregate req)"

text \<open>What a request returns at the confirmation.\<close>

definition given_back :: "u64 option \<Rightarrow> u64 \<Rightarrow> int" where
  "given_back real claimed =
     (case real of None \<Rightarrow> uint claimed | Some used \<Rightarrow> max 0 (uint claimed - uint used))"

definition book ::
  "('addr, 'eng) access_lib \<Rightarrow> stats_tracker \<Rightarrow> int \<Rightarrow> gas_usage_confirmation_request \<Rightarrow> int \<Rightarrow>
     ('addr, 'id, 'dg, 'sig, 'eng, 'z) access_world_scheme \<Rightarrow>
     ('addr, 'id, 'dg, 'sig, 'eng, 'z) access_world_scheme"
where
  "book L tr now req i w =
     w\<lparr>tracker_keys := booked_at now (req_ttl req) (claim_key L tr req) i (tracker_keys w)\<rparr>"

definition pending_set ::
  "'dg \<Rightarrow> gas_usage_confirmation_request list option \<Rightarrow>
     ('addr, 'id, 'dg, 'sig, 'eng, 'z) access_world_scheme \<Rightarrow>
     ('addr, 'id, 'dg, 'sig, 'eng, 'z) access_world_scheme"
where
  "pending_set digest reqs w = w\<lparr>controller := (controller w)\<lparr>confirmation_requests :=
     (confirmation_requests (controller w))(digest := reqs)\<rparr>\<rparr>"

text \<open>A request can be booked exactly: the counter is in the exact range before and after.\<close>

definition can_book ::
  "('addr, 'eng) access_lib \<Rightarrow> stats_tracker \<Rightarrow> int \<Rightarrow> gas_usage_confirmation_request \<Rightarrow> int \<Rightarrow> int \<Rightarrow>
     ('addr, 'id, 'dg, 'sig, 'eng, 'z) access_world_scheme \<Rightarrow> bool"
where
  "can_book L tr now req c d w \<longleftrightarrow>
     lua_redis_ok (tracker_redis tr) \<and> window_ok now (req_ttl req) \<and> quiet_at now w \<and>
     counter now (tracker_keys w) (claim_key L tr req) = Some c \<and>
     \<bar>d\<bar> \<le> 2 ^ 53 \<and> \<bar>c\<bar> \<le> 2 ^ 53 \<and> \<bar>c + d\<bar> \<le> 2 ^ 53"

lemma sint_small: "\<bar>i\<bar> \<le> 2 ^ 53 \<Longrightarrow> sint (word_of_int i :: i64) = i"
  by (simp add: sint_sbintrunc' signed_take_bit_int_eq_self)

lemma sint_uint_small: "uint (v :: u64) \<le> 2 ^ 53 \<Longrightarrow> sint v = uint v"
  using sint_small [of "uint v"] by simp

lemma claim_diff_uint: "uint (claim_diff real claimed) = given_back real claimed"
  by (auto simp: claim_diff_def given_back_def uint_sub_if' word_le_def uint_minus_simple_alt
      split: option.splits)

lemma book_update:
  assumes "can_book L tr now req c d w" "sint v = d"
  shows "stats_update_aggr L tr (req_rule_meta req) (req_aggregate req) v w =
    (Ok (word_of_int (c + d)), book L tr now req (c + d) w)"
  unfolding book_def claim_key_def
  by (rule update_books [where c = c and v = v, unfolded assms(2)])
    (use assms in \<open>simp_all add: can_book_def claim_key_def\<close>)

lemma get_rule_meta_limit:
  "rule_gas_usage r = Some g \<Longrightarrow> get_rule_meta L r ctx = Ok (req_rule_meta (claim_of L r g ctx))"
  by (simp add: get_rule_meta_def ser_access_rule_def claim_of_def)

lemma match_limit_books:
  assumes "rule_gas_usage r = Some g"
    and "can_book L (ctx_stats_tracker ctx) now (claim_of L r g ctx) c (uint (transaction_budget ctx)) w"
  shows "\<exists>p. match_global_limits L r ctx w =
      (Ok (add_predicate_report p rule_report_new, [claim_of L r g ctx]),
       book L (ctx_stats_tracker ctx) now (claim_of L r g ctx) (c + uint (transaction_budget ctx)) w) \<and>
    pr_is_matched p = number_matches (aggr_value g) (word_of_int (c + uint (transaction_budget ctx)))"
proof -
  have s: "sint (transaction_budget ctx) = uint (transaction_budget ctx)"
    using assms(2) by (intro sint_uint_small) (simp add: can_book_def)
  note u = book_update [OF assms(2) s]
  show ?thesis
    using u assms(1)
    by (simp add: match_global_limits_def match_gas_limit_def get_rule_meta_limit Let_def
        predicate_report_new_def claim_of_def)
qed

lemma check_rule_limit:
  assumes g: "rule_gas_usage r = Some g" and act: "rule_action r \<in> {action.Allow, action.Deny}"
    and rep: "rule_matches L r ctx = Ok rep" "rr_is_matched rep"
    and b: "can_book L (ctx_stats_tracker ctx) now (claim_of L r g ctx) c (uint (transaction_budget ctx)) w"
  shows "\<exists>rep'. check_rule L ctx r w =
    (Ok (if number_matches (aggr_value g) (word_of_int (c + uint (transaction_budget ctx)))
         then Some (decision_of_action (rule_action r)) else None, rep'),
     pending_set (transaction_digest ctx) (Some [claim_of L r g ctx])
       (book L (ctx_stats_tracker ctx) now (claim_of L r g ctx) (c + uint (transaction_budget ctx)) w))"
proof -
  obtain p where p: "match_global_limits L r ctx w =
      (Ok (add_predicate_report p rule_report_new, [claim_of L r g ctx]),
       book L (ctx_stats_tracker ctx) now (claim_of L r g ctx) (c + uint (transaction_budget ctx)) w)"
    "pr_is_matched p = number_matches (aggr_value g) (word_of_int (c + uint (transaction_budget ctx)))"
    using match_limit_books [OF g b] by blast
  show ?thesis
    using act p rep
    by (auto simp: check_rule_def remember_requests_def pending_set_def apply_action_def
        decision_of_action_def Let_def)
qed

section \<open>Confirmations\<close>

lemma confirm_one:
  assumes pend: "confirmation_requests (controller w) digest = Some [req]"
    and b: "can_book L tr now req c (- given_back real (req_gas_usage req)) w"
  shows "confirm_transaction L \<lparr>result_digest = digest, result_gas_usage = real\<rparr> tr w =
    (Ok (), book L tr now req (c - given_back real (req_gas_usage req)) (pending_set digest None w))"
proof -
  let ?d = "claim_diff real (req_gas_usage req)"
  have "\<bar>- given_back real (req_gas_usage req)\<bar> \<le> 2 ^ 53"
    using b unfolding can_book_def by blast
  from sint_small [OF this] have "sint (- ?d) = - given_back real (req_gas_usage req)"
    unfolding claim_diff_uint [symmetric] by simp
  moreover have "can_book L tr now req c (- given_back real (req_gas_usage req)) (pending_set digest None w)"
    using b by (simp add: can_book_def pending_set_def quiet_at_def)
  ultimately have "stats_update_aggr L tr (req_rule_meta req) (req_aggregate req) (- ?d)
      (pending_set digest None w) =
    (Ok (word_of_int (c - given_back real (req_gas_usage req))),
     book L tr now req (c - given_back real (req_gas_usage req)) (pending_set digest None w))"
    using book_update [where v = "- ?d"] by fastforce
  then show ?thesis
    using pend by (simp add: confirm_transaction_def take_requests_def pending_set_def)
qed

lemma confirm_none:
  "confirmation_requests (controller w) (result_digest res) = None \<Longrightarrow>
     confirm_transaction L res tr w = (Ok (), pending_set (result_digest res) None w)"
  by (simp add: confirm_transaction_def take_requests_def pending_set_def)

end
