(* ===== verification/Access_Props.thy ===== *)
theory Access_Props
  imports Access_Claims "HOL-Library.Multiset"
begin

text \<open>
  What access control promises: when a rule applies and which decision follows, that a claim on a gas
  limit is booked and corrected by the usage, that a limit holds however checks and confirmations
  interleave, and what happens to claims that meet another rule or the end of their window.
\<close>

section \<open>A library and a rule for the examples\<close>

definition sample_addr :: "nat addr_codec" where
  "sample_addr = \<lparr>show_addr = (\<lambda>a. ''0x'' @ show_nat a), debug_addr = (\<lambda>a. ''0x'' @ show_nat a),
     decode_bytes_hex = (\<lambda>s. read_nat (drop 2 s)),
     de_addr = (\<lambda>j. case j of
        JString s \<Rightarrow> (case read_nat (drop 2 s) of Some a \<Rightarrow> Ok a | None \<Rightarrow> de_error ''invalid address'')
      | _ \<Rightarrow> de_error ''invalid address'')\<rparr>"

definition sample_duration :: duration_codec where
  "sample_duration = \<lparr>format_duration = show_nat, parse_duration = read_nat\<rparr>"

definition sample_lib :: "(nat, unit) access_lib" where
  "sample_lib = \<lparr>addr_lib = sample_addr, duration_lib = sample_duration, parse_url = Some,
     header_name_of = Some, header_value_of = Some, header_to_str = Some,
     add_policy = (\<lambda>name data. Inr ()), add_extension = (\<lambda>e name n. Inr ()),
     set_input_json = (\<lambda>e input. Inr ()), eval_rule = (\<lambda>e path. Inr (RegoBool True)),
     json_pretty = (\<lambda>j. []), canonical_json = (\<lambda>j. case j of JString s \<Rightarrow> s | _ \<Rightarrow> []),
     sha256_text = (\<lambda>s. s)\<rparr>"

definition sample_redis :: lua_redis where
  "sample_redis = \<lparr>num_text = show_int, reply_int = word_of_int\<rparr>"

definition sample_tracker :: stats_tracker where
  "sample_tracker = tracker_new sample_redis ''iota''"

text \<open>At most 1000 within a minute, for each sender, and only with budgets up to 500.\<close>

definition sample_limit :: value_aggregate where
  "sample_limit = \<lparr>window = 60000000000, aggr_value = LessThanOrEqual 1000, count_bys = [SenderAddress]\<rparr>"

definition sample_rule :: "(nat, unit) access_rule" where
  "sample_rule = default_rule\<lparr>transaction_gas_budget := Some (LessThanOrEqual 500),
     rule_gas_usage := Some sample_limit\<rparr>"

definition sample_context :: "nat \<Rightarrow> nat \<Rightarrow> u64 \<Rightarrow> (nat, nat) transaction_context" where
  "sample_context digest sender budget =
     \<lparr>transaction_digest = digest, sender_address = sender, transaction_budget = budget,
      move_call_package_addresses = [], ptb_command_count = Some 1, transaction_data = JNull,
      ctx_stats_tracker = sample_tracker, ctx_reservation_id = 0, tx_bytes = [], user_sig = [],
      ctx_request_type = None, headers = []\<rparr>"

lemma sample_ok:
  "addr_codec_ok sample_addr" "duration_codec_ok sample_duration" "lua_redis_ok sample_redis"
  by (simp_all add: addr_codec_ok_def sample_addr_def duration_codec_ok_def sample_duration_def
      lua_redis_ok_def sample_redis_def)

section \<open>Matching and deciding\<close>

lemma reports_of_rule:
  "rule_matches L r ctx = Ok rep \<Longrightarrow>
     rr_is_matched rep = list_all pr_is_matched (predicate_reports rep) \<and>
     (\<not> rr_is_matched rep \<longrightarrow> list_all pr_is_matched (butlast (predicate_reports rep)) \<and>
        \<not> pr_is_matched (last (predicate_reports rep)))"
  by (auto simp: rule_matches_def Let_def add_matched add_reports split: if_splits)

text \<open>A rule applies to a transaction exactly when the sender, the gas budget, the packages, the
  number of commands and the policy all agree, and a rule that does not apply reports the predicates
  that hold up to the first that fails.\<close>

lemma rule_report_exact:
  assumes "rule_matches L r ctx = Ok rep"
  shows "(rr_is_matched rep \<longleftrightarrow> static_match r ctx \<and> rego_verdict L r ctx = Ok True) \<and>
    (\<not> rr_is_matched rep \<longrightarrow>
       list_all pr_is_matched (butlast (predicate_reports rep)) \<and>
       \<not> pr_is_matched (last (predicate_reports rep)))"
proof -
  have "rule_verdict L r ctx = Ok (rr_is_matched rep)"
    using verdict_of_report [of L r ctx] assms by simp
  then have "rr_is_matched rep \<longleftrightarrow> static_match r ctx \<and> rego_verdict L r ctx = Ok True"
    by (auto simp: rule_verdict_def split: if_splits)
  with reports_of_rule [OF assms] show ?thesis by blast
qed

lemma sample_matches:
  "\<exists>rep. rule_matches sample_lib sample_rule (sample_context dg s b) = Ok rep \<and>
     rr_is_matched rep = (b \<le> 500)"
  by (simp add: rule_matches_def add_matched add_reports predicates_matched Let_def sample_rule_def
      default_rule_def sample_context_def match_rego_expression_def predicate_report_new_def)

text \<open>C11: with rules that neither count gas nor call a hook, a check gives the decision of the first rule
  that applies, else that of the policy, stops at the first error, and changes nothing; a disabled
  controller allows everything.\<close>

theorem check_access_first_match:
  assumes "list_all decides_alone (rules (controller w))"
  shows "check_access L ctx w =
    (if access_policy (controller w) = Disabled then Ok decision.Allow
     else first_match L ctx (access_policy (controller w)) (rules (controller w)), w)"
  using assms by (rule check_access_alone)

definition sample_world ::
  "access_policy \<Rightarrow> (nat, unit) access_rule list \<Rightarrow> (nat, nat, nat, nat, unit) access_world"
where
  "sample_world policy rs =
     \<lparr>keys = Map.empty, clock = [5000], faults = [], events = [], coin_answers = [],
      price_answers = [], object_answers = [], inspect_answers = [], exec_answers = [],
      sign_answers = [], calls = [], usage_cap = gas_usage_cap_new 1000 0, dates = [0],
      rescan = create_receiver rescan_new, task_queue = [], total_coin_count = 0, wake_ups = [],
      tracker_keys = Map.empty, hook_answers = [], hook_calls = [], source_answers = [],
      controller = controller_new policy rs\<rparr>"

definition blocking_rule :: "(nat, unit) access_rule" where
  "blocking_rule = build_deny (build_sender_address 7 builder_new)"

theorem check_access_first_match_witness:
  "check_access sample_lib (sample_context 1 7 600) (sample_world AllowAll [blocking_rule]) =
     (Ok decision.Deny, sample_world AllowAll [blocking_rule]) \<and>
   check_access sample_lib (sample_context 1 8 600) (sample_world AllowAll [blocking_rule]) =
     (Ok decision.Allow, sample_world AllowAll [blocking_rule])"
proof -
  have "list_all decides_alone (rules (controller (sample_world AllowAll [blocking_rule])))"
    by (simp add: sample_world_def controller_new_def decides_alone_def blocking_rule_def build_deny_def
        build_sender_address_def builder_new_def default_rule_def)
  from check_access_first_match [OF this] show ?thesis
    by (simp add: sample_world_def controller_new_def blocking_rule_def build_deny_def
        build_sender_address_def builder_new_def default_rule_def rule_verdict_def rego_verdict_def
        static_match_def sample_context_def decision_of_action_def)
qed

section \<open>Claims and confirmations\<close>

text \<open>The decision of a controller with the one rule \<open>r\<close>, given whether its gas limit holds.\<close>

definition limited_decision ::
  "('addr, 'dg, 'eng) access_controller \<Rightarrow> ('addr, 'eng) access_rule \<Rightarrow> bool \<Rightarrow> decision"
where
  "limited_decision ctl r within =
     (if within then decision_of_action (rule_action r) else decision_of_policy (access_policy ctl))"

lemma matched_report:
  assumes "rule_verdict L r ctx = Ok True"
  obtains rep where "rule_matches L r ctx = Ok rep" "rr_is_matched rep"
  using assms verdict_of_report [of L r ctx] by (cases "rule_matches L r ctx") auto

text \<open>The answer of the counter, as the comparison sees it.\<close>

lemma exact_total: "0 \<le> i \<Longrightarrow> i \<le> 2 ^ 53 \<Longrightarrow> uint (word_of_int i :: u64) = i"
  by (simp add: uint_word_of_int)

lemma check_limited:
  assumes "rules (controller w) = [r]" "access_policy (controller w) \<noteq> Disabled"
    and "rule_gas_usage r = Some g" "rule_action r \<in> {action.Allow, action.Deny}"
    and v: "rule_verdict L r ctx = Ok True"
    and "can_book L (ctx_stats_tracker ctx) now (claim_of L r g ctx) c (uint (transaction_budget ctx)) w"
  shows "check_access L ctx w =
    (Ok (limited_decision (controller w) r
       (number_matches (aggr_value g) (word_of_int (c + uint (transaction_budget ctx))))),
     pending_set (transaction_digest ctx) (Some [claim_of L r g ctx])
       (book L (ctx_stats_tracker ctx) now (claim_of L r g ctx) (c + uint (transaction_budget ctx)) w))"
proof -
  obtain rep where rep: "rule_matches L r ctx = Ok rep" "rr_is_matched rep"
    by (rule matched_report [OF v])
  from check_rule_limit [OF assms(3,4) rep assms(6)] assms(1,2) show ?thesis
    by (auto simp: check_access_def is_disabled_def limited_decision_def Let_def)
qed

text \<open>What a transaction counts in the end: nothing when it failed, else its usage up to its claim.\<close>

definition charged :: "u64 option \<Rightarrow> u64 \<Rightarrow> int" where
  "charged real claimed = (case real of None \<Rightarrow> 0 | Some used \<Rightarrow> min (uint used) (uint claimed))"

lemma charged_diff: "uint claimed - given_back real claimed = charged real claimed"
  by (auto simp: charged_def given_back_def split: option.splits)

lemma given_back_range: "0 \<le> given_back real claimed" "given_back real claimed \<le> uint claimed"
  by (auto simp: given_back_def split: option.splits)

lemma pending_set_simps [simp]:
  "tracker_keys (pending_set dg q w) = tracker_keys w"
  "quiet_at now (pending_set dg q w) = quiet_at now w"
  "confirmation_requests (controller (pending_set dg q w)) =
     (confirmation_requests (controller w))(dg := q)"
  "rules (controller (pending_set dg q w)) = rules (controller w)"
  "access_policy (controller (pending_set dg q w)) = access_policy (controller w)"
  "clock (pending_set dg q w) = clock w"
  by (simp_all add: pending_set_def quiet_at_def)

lemma book_simps [simp]:
  "controller (book L tr now req i w) = controller w"
  "quiet_at now' (book L tr now req i w) = quiet_at now' w"
  "clock (book L tr now req i w) = clock w"
  by (simp_all add: book_def quiet_at_def)

lemma book_counter: "0 < req_ttl req \<Longrightarrow> k = claim_key L tr req \<Longrightarrow>
    counter now (tracker_keys (book L tr now req i w)) k = Some i"
  by (simp add: book_def counter_booked)

lemma book_counter_other: "k \<noteq> claim_key L tr req \<Longrightarrow>
    counter now (tracker_keys (book L tr now' req i w)) k = counter now (tracker_keys w) k"
  by (simp add: book_def booked_other)

lemma can_book_after:
  assumes "can_book L tr now req c d w" "\<bar>e\<bar> \<le> 2 ^ 53" "\<bar>c + d + e\<bar> \<le> 2 ^ 53"
    and "req_ttl req' = req_ttl req" "claim_key L tr req' = claim_key L tr req"
  shows "can_book L tr now req' (c + d) e (pending_set dg q (book L tr now req (c + d) w))"
  using assms by (simp add: can_book_def book_counter window_ok_def)

text \<open>C12: a check books the budget of the transaction on the counter of its rule, decides by the sum, and
  the confirmation corrects the counter to the gas that was used, or to the former value when the
  transaction was rejected or failed; the request is forgotten and other counters stay.\<close>

theorem claim_then_confirm:
  assumes "rules (controller w) = [r]" "access_policy (controller w) \<noteq> Disabled"
    and "rule_gas_usage r = Some g" "rule_action r \<in> {action.Allow, action.Deny}"
    and "rule_verdict L r ctx = Ok True"
    and book: "can_book L tr now (claim_of L r g ctx) c (uint (transaction_budget ctx)) w"
    and tr: "ctx_stats_tracker ctx = tr" and c: "0 \<le> c"
  shows "\<exists>w1 w2. check_access L ctx w =
      (Ok (limited_decision (controller w) r
         (number_matches (aggr_value g) (of_int (c + uint (transaction_budget ctx))))), w1) \<and>
    counter now (tracker_keys w1) (claim_key L tr (claim_of L r g ctx)) =
      Some (c + uint (transaction_budget ctx)) \<and>
    confirm_transaction L \<lparr>result_digest = transaction_digest ctx, result_gas_usage = real\<rparr> tr w1 =
      (Ok (), w2) \<and>
    counter now (tracker_keys w2) (claim_key L tr (claim_of L r g ctx)) =
      Some (c + charged real (transaction_budget ctx)) \<and>
    confirmation_requests (controller w2) =
      (confirmation_requests (controller w))(transaction_digest ctx := None) \<and>
    (\<forall>k. k \<noteq> claim_key L tr (claim_of L r g ctx) \<longrightarrow>
       counter now (tracker_keys w2) k = counter now (tracker_keys w) k)"
proof -
  let ?req = "claim_of L r g ctx" and ?b = "uint (transaction_budget ctx)"
  define w1 where "w1 = pending_set (transaction_digest ctx) (Some [?req]) (book L tr now ?req (c + ?b) w)"
  have budget: "req_gas_usage ?req = transaction_budget ctx" by (simp add: claim_of_def)
  have ttl: "0 < req_ttl ?req" using book by (simp add: can_book_def window_ok_def)
  have check: "check_access L ctx w = (Ok (limited_decision (controller w) r
      (number_matches (aggr_value g) (of_int (c + ?b)))), w1)"
    using check_limited [OF assms(1-5) book [folded tr]] by (simp add: w1_def tr)
  have "can_book L tr now ?req (c + ?b) (- given_back real (transaction_budget ctx)) w1"
    unfolding w1_def using given_back_range [of real "transaction_budget ctx"] book c
    by (intro can_book_after [OF book]) (auto simp: can_book_def abs_le_iff)
  then have confirm: "confirm_transaction L
      \<lparr>result_digest = transaction_digest ctx, result_gas_usage = real\<rparr> tr w1 =
    (Ok (), book L tr now ?req (c + charged real (transaction_budget ctx))
       (pending_set (transaction_digest ctx) None w1))"
    using confirm_one [of w1 "transaction_digest ctx" ?req L tr now "c + ?b" real]
      charged_diff [of "transaction_budget ctx" real]
    by (simp add: w1_def budget algebra_simps)
  show ?thesis
    using check confirm ttl by (fastforce simp: w1_def book_counter book_counter_other)
qed

lemma sample_ttl: "req_ttl (claim_of L sample_rule sample_limit ctx) = 60"
  by (simp add: claim_of_def gas_usage_aggregate_def with_window_def with_aggr_type_def with_name_def
      claim_ttl_def sample_limit_def as_secs_def)

lemma sample_can_book:
  "uint (transaction_budget ctx) \<le> 2 ^ 53 \<Longrightarrow>
     can_book L sample_tracker 5000 (claim_of L sample_rule sample_limit ctx) 0
       (uint (transaction_budget ctx)) (sample_world policy rs)"
  by (simp add: can_book_def sample_ttl sample_tracker_def tracker_new_def sample_ok window_ok_def
      quiet_at_def sample_world_def counter_def live_def)

lemma sample_verdict: "rule_verdict sample_lib sample_rule (sample_context dg s b) = Ok (b \<le> 500)"
  using sample_matches [of dg s b] verdict_of_report [of sample_lib sample_rule "sample_context dg s b"]
  by auto

lemma sample_rule_simps:
  "rule_gas_usage sample_rule = Some sample_limit" "rule_action sample_rule = action.Allow"
  "transaction_budget (sample_context dg s b) = b" "transaction_digest (sample_context dg s b) = dg"
  "ctx_stats_tracker (sample_context dg s b) = sample_tracker"
  "aggr_value sample_limit = LessThanOrEqual 1000"
  "rules (controller (sample_world policy rs)) = rs"
  "access_policy (controller (sample_world policy rs)) = policy"
  "confirmation_requests (controller (sample_world policy rs)) = Map.empty"
  by (simp_all add: sample_rule_def default_rule_def default_action_def sample_context_def
      sample_limit_def sample_world_def controller_new_def)

theorem claim_then_confirm_witness:
  "\<exists>w1 w2 k. check_access sample_lib (sample_context 1 7 400) (sample_world DenyAll [sample_rule]) =
      (Ok decision.Allow, w1) \<and>
    counter 5000 (tracker_keys w1) k = Some 400 \<and>
    confirm_transaction sample_lib \<lparr>result_digest = 1, result_gas_usage = Some 150\<rparr> sample_tracker w1 =
      (Ok (), w2) \<and>
    counter 5000 (tracker_keys w2) k = Some 150"
proof -
  let ?ctx = "sample_context 1 7 400"
  have b: "can_book sample_lib sample_tracker 5000 (claim_of sample_lib sample_rule sample_limit ?ctx) 0
      (uint (transaction_budget ?ctx)) (sample_world DenyAll [sample_rule])"
    by (rule sample_can_book) (simp add: sample_rule_simps)
  have v: "rule_verdict sample_lib sample_rule ?ctx = Ok True" by (simp add: sample_verdict)
  from claim_then_confirm [where w = "sample_world DenyAll [sample_rule]" and real = "Some 150",
      OF _ _ sample_rule_simps(1) _ v b] show ?thesis
    by (auto simp: sample_rule_simps limited_decision_def decision_of_action_def charged_def)
qed

section \<open>What a client is counted by\<close>

lemma insert_str_mset: "mset (insert_str s ts) = add_mset s (mset ts)"
  by (induction ts) auto

lemma sorted_strs_mset: "mset (sorted_strs ss) = mset ss"
  by (induction ss) (simp_all add: sorted_strs_def insert_str_mset)

lemma insert_str_set: "set (insert_str s ts) = insert s (set ts)"
  by (induction ts) auto

lemma insert_str_sorted: "sorted_wrt str_less_eq ts \<Longrightarrow> sorted_wrt str_less_eq (insert_str s ts)"
  using str_less_eq_total by (induction ts) (auto simp: insert_str_set dest: str_less_eq_trans)

lemma sorted_strs_sorted: "sorted_wrt str_less_eq (sorted_strs ss)"
  by (induction ss) (simp_all add: sorted_strs_def insert_str_sorted)

lemma sorted_unique:
  "sorted_wrt str_less_eq xs \<Longrightarrow> sorted_wrt str_less_eq ys \<Longrightarrow> mset xs = mset ys \<Longrightarrow> xs = ys"
proof (induction xs arbitrary: ys)
  case Nil
  then show ?case by simp
next
  case (Cons x xs)
  then obtain y ys' where ys: "ys = y # ys'" by (cases ys) auto
  have "x \<in> set ys" "y \<in> set (x # xs)"
    using Cons.prems(3) ys by (metis list.set_intros(1) set_mset_mset)+
  then have "x = y"
    using Cons.prems(1,2) ys by (auto dest: str_less_eq_antisym)
  with Cons ys show ?case by simp
qed

lemma sorted_strs_cong: "mset ss = mset ts \<Longrightarrow> sorted_strs ss = sorted_strs ts"
  by (intro sorted_unique) (simp_all add: sorted_strs_sorted sorted_strs_mset)

text \<open>The counter of a client depends on the values of its headers as a multiset only: sending them
  in another order, or mixed with other headers, leads to the same counter.\<close>

lemma counter_ignores_header_order:
  assumes "sender_address ctx' = sender_address ctx"
    and "\<And>h. mset (get_all L (headers ctx') h) = mset (get_all L (headers ctx) h)"
  shows "get_rule_meta L r ctx' = get_rule_meta L r ctx"
proof -
  have "count_by_value L ctx' c = count_by_value L ctx c" for c
  proof (cases c)
    case (HttpHeader h)
    have "mset (map f (get_all L (headers ctx') (header_name h))) =
        mset (map f (get_all L (headers ctx) (header_name h)))" for f :: "string \<Rightarrow> string"
      using assms(2) by simp
    note same = sorted_strs_cong [OF this]
    show ?thesis unfolding HttpHeader count_by_value_def count_by.case same ..
  qed (simp add: count_by_value_def assms(1))
  then show ?thesis
    by (simp add: get_rule_meta_def rule_meta_with_counts_def split: json.splits option.splits)
qed

definition header_rule :: "(nat, unit) access_rule" where
  "header_rule = sample_rule\<lparr>rule_gas_usage := Some (sample_limit\<lparr>count_bys := [new_http_header ''client'']\<rparr>)\<rparr>"

text \<open>
  The value of a client is stored under the name \<open>sender-address\<close>, which is also the field of the rule
  itself: rules that count by sender and differ only in their set of senders share their counters.
\<close>

lemma counts_hide_sender:
  "SenderAddress \<in> set cs \<Longrightarrow>
     fold (\<lambda>c m. AList.update (count_by_to_string c) (V c) m) cs ((''sender-address'', x) # m) =
     fold (\<lambda>c m. AList.update (count_by_to_string c) (V c) m) cs ((''sender-address'', y) # m)"
proof (induction cs arbitrary: m)
  case Nil
  then show ?case by simp
next
  case (Cons c cs)
  show ?case
  proof (cases c)
    case SenderAddress
    then show ?thesis by simp
  next
    case (HttpHeader h)
    then have "count_by_to_string c \<noteq> ''sender-address''"
      by (simp add: http_header_to_string_def http_header_prefix_def)
    with Cons HttpHeader show ?thesis by simp
  qed
qed

lemma sender_rules_share_counter:
  assumes "rule_gas_usage r = Some g" "SenderAddress \<in> set (count_bys g)"
  shows "get_rule_meta L (r\<lparr>rule_sender_address := v\<rparr>) ctx = get_rule_meta L r ctx"
  using assms(1) counts_hide_sender [OF assms(2)]
  by (simp add: get_rule_meta_def ser_access_rule_def rule_fields_def rule_meta_with_counts_def)

text \<open>A builder that is given several senders forgets the first.\<close>

lemma builder_list_grows:
  "rule_sender_address b = List l \<Longrightarrow>
     rule_sender_address (fold build_sender_address as b) = List (l @ as)"
  by (induction as arbitrary: b l) (auto simp: build_sender_address_def)

lemma builder_forgets_first_sender:
  "rule_sender_address (fold build_sender_address (a # b # as) builder_new) = List (b # as)"
  using builder_list_grows [of "build_sender_address b (build_sender_address a builder_new)" "[b]" as]
  by (simp add: build_sender_address_def builder_new_def default_rule_def)

section \<open>The controller in the configuration file\<close>

lemma controller_reads_back:
  assumes "list_all (rule_ok L) (rules c)" "confirmation_requests c = Map.empty"
  shows "de_controller L (ser_controller L c) = Ok c"
proof -
  have "map_result (de_access_rule L) (map (ser_access_rule L) (rules c)) = Ok (map (\<lambda>r. r) (rules c))"
    using assms(1) by (intro map_result_map) (simp add: list_all_iff rule_roundtrip)
  moreover have "controller_new (access_policy c) (rules c) = c"
    using assms(2) by (simp add: controller_new_def)
  ultimately show ?thesis
    using policy_json.roundtrip [of "access_policy c"]
    by (auto simp: ser_controller_def de_field_def de_default_def)
qed

definition sample_controller :: "(nat, nat, unit) access_controller" where
  "sample_controller = controller_new DenyAll [sample_rule, blocking_rule]"

end
