(* ===== verification/Access_Limits.thy ===== *)
theory Access_Limits
  imports Access_Props
begin

text \<open>
  Gas limits over many transactions: the ledger that holds under every interleaving of checks and
  confirmations, and the two cases in which the books go wrong, a transaction that two rules count and a
  confirmation after the end of the window.
\<close>

section \<open>The limit under every interleaving\<close>

text \<open>
  The gas limit of one rule for one client. The ledger says what should hold: the gas charged to the
  transactions that are settled, the open ones with their claim and whether they were admitted, and
  the claims that are \<open>stuck\<close>: when a transaction that is still open is checked once more, or its
  request is dropped by a reload, the request of the first check is gone, and what it booked stays on
  the counter. A step is a check of a transaction of this client, new or repeated, a confirmation of an
  open transaction, where a rejected one has used nothing, or anything else that leaves the counter and
  the rule alone: other clients, reloads of the same rule, confirmations for which there is no request,
  and time that passes within the window. In a \<open>late\<close> confirmation the open request is that of a
  rejected repetition, while the transaction runs because its first check admitted it.
\<close>

record 'dg ledger =
  settled :: int
  open_claims :: "('dg \<times> u64 \<times> bool) list"
  stuck :: "('dg \<times> u64 \<times> bool) list"

definition no_claims :: "'dg ledger" where
  "no_claims = \<lparr>settled = 0, open_claims = [], stuck = []\<rparr>"

definition claims_total :: "('dg \<times> u64 \<times> bool) list \<Rightarrow> int" where
  "claims_total cs = sum_list (map (\<lambda>(dg, claim, adm). uint claim) cs)"

definition admitted_total :: "('dg \<times> u64 \<times> bool) list \<Rightarrow> int" where
  "admitted_total cs = sum_list (map (\<lambda>(dg, claim, adm). if adm then uint claim else 0) cs)"

definition booked_total :: "'dg ledger \<Rightarrow> int" where
  "booked_total l = settled l + claims_total (open_claims l) + claims_total (stuck l)"

text \<open>The open claims that \<open>P\<close> does not keep become stuck.\<close>

definition keep_open :: "('dg \<Rightarrow> bool) \<Rightarrow> 'dg ledger \<Rightarrow> 'dg ledger" where
  "keep_open P l = l\<lparr>open_claims := filter (\<lambda>c. P (fst c)) (open_claims l),
     stuck := filter (\<lambda>c. \<not> P (fst c)) (open_claims l) @ stuck l\<rparr>"

definition open_claim :: "'dg \<Rightarrow> u64 \<Rightarrow> bool \<Rightarrow> 'dg ledger \<Rightarrow> 'dg ledger" where
  "open_claim dg claim adm l =
     (let l' = keep_open (\<lambda>dg'. dg' \<noteq> dg) l in l'\<lparr>open_claims := (dg, claim, adm) # open_claims l'\<rparr>)"

definition settle_claim :: "'dg \<Rightarrow> u64 \<Rightarrow> bool \<Rightarrow> u64 option \<Rightarrow> 'dg ledger \<Rightarrow> 'dg ledger" where
  "settle_claim dg claim adm real l =
     l\<lparr>settled := settled l + charged real claim, open_claims := remove1 (dg, claim, adm) (open_claims l)\<rparr>"

definition swap_stuck :: "'dg \<Rightarrow> u64 \<Rightarrow> 'dg ledger \<Rightarrow> 'dg ledger" where
  "swap_stuck dg claim l = l\<lparr>stuck := (dg, claim, False) # remove1 (dg, claim, True) (stuck l)\<rparr>"

definition now_of :: "'z world_scheme \<Rightarrow> int" where
  "now_of w = hd (clock w)"

inductive limit_step ::
  "('addr, 'eng) access_lib \<Rightarrow> stats_tracker \<Rightarrow> ('addr, 'eng) access_rule \<Rightarrow> value_aggregate \<Rightarrow> string \<Rightarrow>
     ('addr, 'id, 'dg, 'sig, 'eng, 'z) access_world_scheme \<times> 'dg ledger \<Rightarrow>
     ('addr, 'id, 'dg, 'sig, 'eng, 'z) access_world_scheme \<times> 'dg ledger \<Rightarrow> bool"
  for L :: "('addr, 'eng) access_lib" and tr r g k
where
  check: "limit_step L tr r g k (w, l)
      (w', open_claim (transaction_digest ctx) (transaction_budget ctx) (d = decision.Allow) l)"
    if "check_access L ctx w = (Ok d, w')" "rule_verdict L r ctx = Ok True"
      "ctx_stats_tracker ctx = tr" "claim_key L tr (claim_of L r g ctx) = k"
      "quiet_at (now_of w) w" "window_ok (now_of w) (int (as_secs (window g)))"
      "booked_total l + uint (transaction_budget ctx) \<le> 2 ^ 53"
| confirm: "limit_step L tr r g k (w, l) (w', settle_claim dg claim adm real l)"
    if "(dg, claim, adm) \<in> set (open_claims l)" "\<not> adm \<longrightarrow> real = None"
      "confirm_transaction L \<lparr>result_digest = dg, result_gas_usage = real\<rparr> tr w = (Ok (), w')"
      "quiet_at (now_of w) w" "window_ok (now_of w) (int (as_secs (window g)))"
| late: "limit_step L tr r g k (w, l) (w', swap_stuck dg claim (settle_claim dg claim False real l))"
    if "(dg, claim, False) \<in> set (open_claims l)" "(dg, claim, True) \<in> set (stuck l)"
      "confirm_transaction L \<lparr>result_digest = dg, result_gas_usage = real\<rparr> tr w = (Ok (), w')"
      "quiet_at (now_of w) w" "window_ok (now_of w) (int (as_secs (window g)))"
| other: "limit_step L tr r g k (w, l)
      (w', keep_open (\<lambda>dg. confirmation_requests (controller w') dg = confirmation_requests (controller w) dg) l)"
    if "counter (now_of w') (tracker_keys w') k = counter (now_of w) (tracker_keys w) k"
      "rules (controller w') = rules (controller w)"
      "access_policy (controller w') = access_policy (controller w)"

inductive_cases limit_stepE: "limit_step L tr r g k (w, l) (w', l')"

text \<open>The rules that set an upper limit \<open>n\<close> on the counter of a transaction they let through.\<close>

definition upper_limit :: "u64 value_number \<Rightarrow> u64 \<Rightarrow> bool" where
  "upper_limit v n \<longleftrightarrow> v \<in> {LessThanOrEqual n, LessThan n}"

definition limits_to :: "access_policy \<Rightarrow> action \<Rightarrow> u64 value_number \<Rightarrow> u64 \<Rightarrow> bool" where
  "limits_to policy act v n \<longleftrightarrow>
     policy = DenyAll \<and> act = action.Allow \<and> upper_limit v n \<or>
     policy = AllowAll \<and> act = action.Deny \<and> v \<in> {GreaterThan n, GreaterThanOrEqual n}"

definition claim_kept ::
  "('addr, 'eng) access_lib \<Rightarrow> stats_tracker \<Rightarrow> value_aggregate \<Rightarrow> string \<Rightarrow>
     gas_usage_confirmation_request list option \<Rightarrow> u64 \<Rightarrow> bool"
where
  "claim_kept L tr g k q claim \<longleftrightarrow>
     (\<exists>req. q = Some [req] \<and> claim_key L tr req = k \<and> req_ttl req = int (as_secs (window g)) \<and>
        req_gas_usage req = claim)"

text \<open>The invariant: the counter is what is settled, claimed and stuck, and what the admitted
  transactions used and may still use stays within the limit.\<close>

definition limit_inv ::
  "('addr, 'eng) access_lib \<Rightarrow> stats_tracker \<Rightarrow> ('addr, 'eng) access_rule \<Rightarrow> value_aggregate \<Rightarrow> string \<Rightarrow>
     u64 \<Rightarrow> ('addr, 'id, 'dg, 'sig, 'eng, 'z) access_world_scheme \<times> 'dg ledger \<Rightarrow> bool"
where
  "limit_inv L tr r g k n = (\<lambda>(w, l).
     rules (controller w) = [r] \<and> limits_to (access_policy (controller w)) (rule_action r) (aggr_value g) n \<and>
     distinct (map fst (open_claims l)) \<and> 0 \<le> settled l \<and> booked_total l \<le> 2 ^ 53 \<and>
     counter (now_of w) (tracker_keys w) k = Some (booked_total l) \<and>
     (\<forall>x \<in> set (open_claims l).
        claim_kept L tr g k (confirmation_requests (controller w) (fst x)) (fst (snd x))) \<and>
     settled l + admitted_total (open_claims l) + admitted_total (stuck l) \<le> uint n)"

lemma totals_simps [simp]:
  "claims_total [] = 0" "claims_total ((dg, claim, adm) # cs) = uint claim + claims_total cs"
  "admitted_total [] = 0"
  "admitted_total ((dg, claim, adm) # cs) = (if adm then uint claim else 0) + admitted_total cs"
  "claims_total (cs @ ds) = claims_total cs + claims_total ds"
  "admitted_total (cs @ ds) = admitted_total cs + admitted_total ds"
  by (simp_all add: claims_total_def admitted_total_def)

lemma totals_nonneg: "0 \<le> admitted_total cs \<and> admitted_total cs \<le> claims_total cs"
  by (induction cs) (auto simp: add_increasing)

lemma totals_filter:
  "claims_total (filter P cs) + claims_total (filter (\<lambda>c. \<not> P c) cs) = claims_total cs"
  "admitted_total (filter P cs) + admitted_total (filter (\<lambda>c. \<not> P c) cs) = admitted_total cs"
  by (induction cs) auto

lemma totals_remove:
  "(dg, claim, adm) \<in> set cs \<Longrightarrow>
     claims_total (remove1 (dg, claim, adm) cs) = claims_total cs - uint claim \<and>
     admitted_total (remove1 (dg, claim, adm) cs) = admitted_total cs - (if adm then uint claim else 0)"
  by (induction cs) auto

lemma claim_le_total: "(dg, claim, adm) \<in> set cs \<Longrightarrow> uint claim \<le> claims_total cs"
  using totals_remove [of dg claim adm cs] totals_nonneg [of "remove1 (dg, claim, adm) cs"] by linarith

lemma keep_open_simps [simp]:
  "settled (keep_open P l) = settled l" "booked_total (keep_open P l) = booked_total l"
  "set (open_claims (keep_open P l)) = {c \<in> set (open_claims l). P (fst c)}"
  "distinct (map fst (open_claims l)) \<Longrightarrow> distinct (map fst (open_claims (keep_open P l)))"
  using totals_filter [of "\<lambda>c. P (fst c)" "open_claims l"]
  by (simp_all add: keep_open_def booked_total_def distinct_map_filter)

lemma keep_open_admitted:
  "admitted_total (open_claims (keep_open P l)) + admitted_total (stuck (keep_open P l)) =
     admitted_total (open_claims l) + admitted_total (stuck l)"
  using totals_filter(2) [of "\<lambda>c. P (fst c)" "open_claims l"] by (simp add: keep_open_def)

lemma booked_covers:
  "admitted_total (open_claims l) + admitted_total (stuck l) + settled l \<le> booked_total l"
  using totals_nonneg [of "open_claims l"] totals_nonneg [of "stuck l"] by (simp add: booked_total_def)

lemma limits_decision:
  assumes "limits_to (access_policy ctl) (rule_action r) v n" and "0 \<le> i" "i \<le> 2 ^ 53"
    and "limited_decision ctl r (number_matches v (word_of_int i)) = decision.Allow"
  shows "i \<le> uint n"
  using assms exact_total [of i]
  by (auto simp: limits_to_def upper_limit_def limited_decision_def decision_of_action_def
      word_le_def word_less_def split: if_splits)

lemma inv_check:
  assumes g: "rule_gas_usage r = Some g"
    and E: "lua_redis_ok (tracker_redis tr)" and inv: "limit_inv L tr r g k n (w, l)"
    and run: "check_access L ctx w = (Ok d, w')" "rule_verdict L r ctx = Ok True"
    and ctx: "ctx_stats_tracker ctx = tr" "claim_key L tr (claim_of L r g ctx) = k"
    and now: "quiet_at (now_of w) w" "window_ok (now_of w) (int (as_secs (window g)))"
    and small: "booked_total l + uint (transaction_budget ctx) \<le> 2 ^ 53"
  shows "limit_inv L tr r g k n
    (w', open_claim (transaction_digest ctx) (transaction_budget ctx) (d = decision.Allow) l)"
proof -
  let ?req = "claim_of L r g ctx" and ?b = "uint (transaction_budget ctx)" and ?dg = "transaction_digest ctx"
  let ?c = "booked_total l" and ?l = "keep_open (\<lambda>dg'. dg' \<noteq> transaction_digest ctx) l"
  have ttl: "req_ttl ?req = int (as_secs (window g))"
    by (simp add: claim_of_def gas_usage_aggregate_def with_window_def with_aggr_type_def with_name_def
        claim_ttl_def)
  have pol: "limits_to (access_policy (controller w)) (rule_action r) (aggr_value g) n"
    and settled: "0 \<le> settled l"
    and bound: "settled l + admitted_total (open_claims l) + admitted_total (stuck l) \<le> uint n"
    using inv by (simp_all add: limit_inv_def)
  have c: "0 \<le> ?c" "?c + ?b \<le> 2 ^ 53" "?b \<le> 2 ^ 53"
    using settled small totals_nonneg [of "open_claims l"] totals_nonneg [of "stuck l"]
    by (auto simp: booked_total_def)
  have book: "can_book L tr (now_of w) ?req ?c ?b w"
    using inv E now c ctx(2) ttl by (simp add: can_book_def limit_inv_def abs_le_iff)
  have act: "rule_action r \<in> {action.Allow, action.Deny}" "access_policy (controller w) \<noteq> Disabled"
    using pol by (auto simp: limits_to_def)
  have run': "d = limited_decision (controller w) r (number_matches (aggr_value g) (word_of_int (?c + ?b)))"
    "w' = pending_set ?dg (Some [?req]) (book L tr (now_of w) ?req (?c + ?b) w)"
    using check_limited [of w r g L ctx "now_of w" ?c] inv run book ctx(1) g act
    by (auto simp: limit_inv_def)
  have "?c + ?b \<le> uint n" if "d = decision.Allow"
    by (rule limits_decision [OF pol]) (use that run'(1) c in simp_all)
  then have "settled l + admitted_total (open_claims ?l) + admitted_total (stuck ?l) +
      (if d = decision.Allow then ?b else 0) \<le> uint n"
    using bound booked_covers [of l] keep_open_admitted [of "\<lambda>dg'. dg' \<noteq> ?dg" l] by (cases "d = decision.Allow") simp_all
  moreover have "0 < req_ttl ?req" using book by (simp add: can_book_def window_ok_def)
  moreover have "claim_kept L tr g k (Some [?req]) (transaction_budget ctx)"
    using ctx(2) ttl by (simp add: claim_kept_def) (simp add: claim_of_def)
  moreover have "booked_total (open_claim ?dg (transaction_budget ctx) b l) = ?c + ?b" for b
    using keep_open_simps(2) [of "\<lambda>dg'. dg' \<noteq> ?dg" l] by (simp add: open_claim_def Let_def booked_total_def)
  moreover have "distinct (map fst (open_claims ?l))" "?dg \<notin> fst ` set (open_claims ?l)"
    using inv by (auto simp: limit_inv_def)
  ultimately show ?thesis
    using inv c ctx(2)
    by (auto simp: limit_inv_def run'(2) book_counter now_of_def open_claim_def Let_def algebra_simps)
qed

lemma remove1_digest:
  "distinct (map fst cs) \<Longrightarrow> (dg, e) \<in> set cs \<Longrightarrow>
     distinct (map fst (remove1 (dg, e) cs)) \<and> (\<forall>x \<in> set (remove1 (dg, e) cs). fst x \<noteq> dg) \<and>
     set (remove1 (dg, e) cs) \<subseteq> set cs"
proof (induction cs)
  case Nil
  then show ?case by simp
next
  case (Cons x cs)
  show ?case
  proof (cases "x = (dg, e)")
    case True
    with Cons.prems show ?thesis by (auto simp: image_iff)
  next
    case False
    with Cons have "fst x \<notin> fst ` set (remove1 (dg, e) cs)" by auto
    with False Cons show ?thesis by (auto simp: image_iff)
  qed
qed

text \<open>A confirmation keeps all of the invariant but the bound, which depends on who is charged.\<close>

lemma inv_settle:
  assumes E: "lua_redis_ok (tracker_redis tr)" and inv: "limit_inv L tr r g k n (w, l)"
    and mem: "(dg, claim, adm) \<in> set (open_claims l)"
    and run: "confirm_transaction L \<lparr>result_digest = dg, result_gas_usage = real\<rparr> tr w = (Ok (), w')"
    and now: "quiet_at (now_of w) w" "window_ok (now_of w) (int (as_secs (window g)))"
    and l': "settled l' = settled l + charged real claim"
      "open_claims l' = remove1 (dg, claim, adm) (open_claims l)" "claims_total (stuck l') = claims_total (stuck l)"
    and bound: "settled l' + admitted_total (open_claims l') + admitted_total (stuck l') \<le> uint n"
  shows "limit_inv L tr r g k n (w', l')"
proof -
  let ?c = "booked_total l"
  let ?cs = "remove1 (dg, claim, adm) (open_claims l)"
  obtain req where req: "confirmation_requests (controller w) dg = Some [req]" "claim_key L tr req = k"
    "req_ttl req = int (as_secs (window g))" "req_gas_usage req = claim"
    using inv mem by (fastforce simp: limit_inv_def claim_kept_def)
  have returned: "0 \<le> given_back real claim" "given_back real claim \<le> uint claim"
    by (rule given_back_range)+
  have c: "0 \<le> settled l" "uint claim \<le> claims_total (open_claims l)" "?c \<le> 2 ^ 53"
    using inv claim_le_total [OF mem] by (auto simp: limit_inv_def)
  then have "given_back real claim \<le> ?c"
    using returned totals_nonneg [of "stuck l"] by (simp add: booked_total_def)
  then have book: "can_book L tr (now_of w) req ?c (- given_back real (req_gas_usage req)) w"
    using inv E now c returned req by (simp add: can_book_def limit_inv_def abs_le_iff)
  have w': "w' = book L tr (now_of w) req (?c - given_back real claim) (pending_set dg None w)"
    using confirm_one [OF req(1) book] run req(4) by simp
  have diff: "?c - given_back real claim = booked_total l'"
    using totals_remove [OF mem] charged_diff [of claim real] l' by (simp add: booked_total_def)
  have dist: "distinct (map fst ?cs)" "\<forall>x \<in> set ?cs. fst x \<noteq> dg" "set ?cs \<subseteq> set (open_claims l)"
    using remove1_digest [OF _ mem] inv by (auto simp: limit_inv_def)
  have ttl: "0 < req_ttl req" using book by (simp add: can_book_def window_ok_def)
  have "0 \<le> charged real claim" by (auto simp: charged_def split: option.splits)
  then show ?thesis
    using inv c diff dist ttl req(2) returned(1) l' bound
    by (auto simp: limit_inv_def w' book_counter now_of_def)
qed

lemma charged_le: "charged real claim \<le> uint claim"
  by (auto simp: charged_def split: option.splits)

lemma inv_step:
  assumes g: "rule_gas_usage r = Some g" and E: "lua_redis_ok (tracker_redis tr)"
    and step: "limit_step L tr r g k s s'" and inv: "limit_inv L tr r g k n s"
  shows "limit_inv L tr r g k n s'"
  using step inv
proof cases
  case (check ctx d w w' l)
  show ?thesis unfolding check(2)
    by (rule inv_check [OF g E inv [unfolded check(1)] check(3-9)])
next
  case (confirm dg claim adm l real w w')
  have "charged real claim \<le> (if adm then uint claim else 0)"
    using confirm(4) charged_le [of real claim] by (auto simp: charged_def)
  then have "settled l + charged real claim + admitted_total (remove1 (dg, claim, adm) (open_claims l)) +
      admitted_total (stuck l) \<le> uint n"
    using inv totals_remove [OF confirm(3)] by (auto simp: confirm(1) limit_inv_def)
  then show ?thesis unfolding confirm(2)
    by (intro inv_settle [OF E inv [unfolded confirm(1)] confirm(3,5-7)]) (simp_all add: settle_claim_def)
next
  case (late dg claim l real w w')
  have "settled l + charged real claim + admitted_total (remove1 (dg, claim, False) (open_claims l)) +
      admitted_total (remove1 (dg, claim, True) (stuck l)) \<le> uint n"
    using inv totals_remove [OF late(3)] totals_remove [OF late(4)] charged_le [of real claim]
    by (auto simp: late(1) limit_inv_def)
  then show ?thesis unfolding late(2)
    by (intro inv_settle [OF E inv [unfolded late(1)] late(3,5-7)])
      (use totals_remove [OF late(4)] in \<open>simp_all add: settle_claim_def swap_stuck_def\<close>)
next
  case (other w' w l)
  have "settled l + admitted_total (open_claims (keep_open P l)) + admitted_total (stuck (keep_open P l)) \<le> uint n"
    for P
  proof -
    have "settled l + admitted_total (open_claims l) + admitted_total (stuck l) \<le> uint n"
      using inv by (simp add: other(1) limit_inv_def)
    with keep_open_admitted [of P l] show ?thesis by linarith
  qed
  then show ?thesis using inv other by (auto simp: limit_inv_def)
qed

text \<open>C9: the gas limit of a controller with one rule, which allows up to the limit where nothing else is
  allowed or denies above it where everything else is allowed. Under every interleaving of checks and
  confirmations of one client within a window in which Redis answers, with any transaction checked as
  often as one likes, what the settled transactions were charged and the admitted ones may still use
  never exceeds the limit, and the counter is exactly what is settled, claimed and stuck.\<close>

theorem gas_limit_holds:
  assumes "rule_gas_usage r = Some g" "lua_redis_ok (tracker_redis tr)"
    and "rules (controller w0) = [r]" "limits_to (access_policy (controller w0)) (rule_action r) (aggr_value g) n"
    and "counter (now_of w0) (tracker_keys w0) k = Some 0"
    and "(limit_step L tr r g k)\<^sup>*\<^sup>* (w0, no_claims) (w, l)"
  shows "settled l + admitted_total (open_claims l) + admitted_total (stuck l) \<le> uint n \<and>
    counter (now_of w) (tracker_keys w) k =
      Some (settled l + claims_total (open_claims l) + claims_total (stuck l))"
proof -
  have "limit_inv L tr r g k n (w0, no_claims)"
    using assms(3-5) by (simp add: limit_inv_def no_claims_def booked_total_def)
  from assms(6) this have "limit_inv L tr r g k n (w, l)"
    by (induction rule: rtranclp_induct) (auto intro: inv_step [OF assms(1,2)])
  then show ?thesis by (simp add: limit_inv_def booked_total_def)
qed

text \<open>
  A transaction with a budget of 400 that is checked twice before it has used 150: its first claim is
  stuck, and the counter stays at 550.
\<close>

lemma sample_run:
  defines "k \<equiv> claim_key sample_lib sample_tracker (claim_of sample_lib sample_rule sample_limit (sample_context 1 7 400))"
  shows "\<exists>w1 w2 w3. (limit_step sample_lib sample_tracker sample_rule sample_limit k)\<^sup>*\<^sup>*
      (sample_world DenyAll [sample_rule], no_claims) (w1, open_claim 1 400 True no_claims) \<and>
    (limit_step sample_lib sample_tracker sample_rule sample_limit k)
      (w1, open_claim 1 400 True no_claims) (w2, open_claim 1 400 True (open_claim 1 400 True no_claims)) \<and>
    (limit_step sample_lib sample_tracker sample_rule sample_limit k)
      (w2, open_claim 1 400 True (open_claim 1 400 True no_claims))
      (w3, settle_claim 1 400 True (Some 150) (open_claim 1 400 True (open_claim 1 400 True no_claims)))"
proof -
  let ?ctx = "sample_context 1 7 400" and ?w = "sample_world DenyAll [sample_rule]"
  let ?req = "claim_of sample_lib sample_rule sample_limit ?ctx"
  let ?step = "limit_step sample_lib sample_tracker sample_rule sample_limit k"
  define w1 where "w1 = pending_set 1 (Some [?req]) (book sample_lib sample_tracker 5000 ?req (0 + 400) ?w)"
  define w2 where "w2 = pending_set 1 (Some [?req]) (book sample_lib sample_tracker 5000 ?req (400 + 400) w1)"
  define w3 where "w3 = book sample_lib sample_tracker 5000 ?req (800 - 250) (pending_set 1 None w2)"
  have now0: "now_of ?w = 5000" "quiet_at 5000 ?w"
    by (simp_all add: now_of_def sample_world_def quiet_at_def)
  then have now1: "now_of w1 = 5000" "quiet_at 5000 w1"
    by (simp_all add: w1_def now_of_def)
  then have now2: "now_of w2 = 5000" "quiet_at 5000 w2"
    by (simp_all add: w2_def now_of_def)
  have win: "window_ok 5000 (int (as_secs (window sample_limit)))"
    by (simp add: window_ok_def sample_limit_def as_secs_def)
  have can0: "can_book sample_lib sample_tracker 5000 ?req 0 400 ?w"
    using sample_can_book [of ?ctx] by (simp add: sample_rule_simps)
  have can1: "can_book sample_lib sample_tracker 5000 ?req (0 + 400) 400 w1"
    unfolding w1_def by (rule can_book_after [OF can0]) simp_all
  have can2: "can_book sample_lib sample_tracker 5000 ?req (400 + 400) (- 250) w2"
    unfolding w2_def using can1 by (intro can_book_after) simp_all
  note check = check_limited [where r = sample_rule and g = sample_limit and ctx = ?ctx and L = sample_lib]
  have c1: "check_access sample_lib ?ctx ?w = (Ok decision.Allow, w1)"
    using check [of ?w 5000 0] can0
    by (simp add: sample_rule_simps sample_verdict w1_def limited_decision_def decision_of_action_def)
  have ctl: "rules (controller w1) = [sample_rule]" "access_policy (controller w1) = DenyAll"
    by (simp_all add: w1_def sample_rule_simps)
  have c2: "check_access sample_lib ?ctx w1 = (Ok decision.Allow, w2)"
    using check [of w1 5000 400] can1 ctl
    by (simp add: sample_rule_simps sample_verdict w2_def limited_decision_def decision_of_action_def)
  have budget: "req_gas_usage ?req = 400" by (simp add: claim_of_def sample_rule_simps)
  have c3: "confirm_transaction sample_lib \<lparr>result_digest = 1, result_gas_usage = Some 150\<rparr> sample_tracker w2 =
      (Ok (), w3)"
    using confirm_one [of w2 1 ?req sample_lib sample_tracker 5000 800 "Some 150"] can2 budget
    by (simp add: w3_def given_back_def) (simp add: w2_def)
  let ?l1 = "open_claim 1 400 True no_claims"
  let ?l2 = "open_claim 1 400 True ?l1"
  have s1: "?step (?w, no_claims) (w1, ?l1)"
    using limit_step.check [OF c1, of sample_rule sample_tracker sample_limit k no_claims] now0 win
    by (simp add: sample_verdict sample_rule_simps k_def no_claims_def booked_total_def)
  have s2: "?step (w1, ?l1) (w2, ?l2)"
    using limit_step.check [OF c2, of sample_rule sample_tracker sample_limit k ?l1] now1 win
    by (simp add: sample_verdict sample_rule_simps k_def no_claims_def booked_total_def open_claim_def
        keep_open_def)
  have s3: "?step (w2, ?l2) (w3, settle_claim 1 400 True (Some 150) ?l2)"
    by (rule limit_step.confirm [OF _ _ c3]) (use now2 win in \<open>simp_all add: open_claim_def Let_def\<close>)
  from s1 s2 s3 show ?thesis by blast
qed

theorem gas_limit_holds_witness:
  "\<exists>w :: (nat, nat, nat, nat, unit) access_world. counter (now_of w) (tracker_keys w)
      (claim_key sample_lib sample_tracker (claim_of sample_lib sample_rule sample_limit (sample_context 1 7 400))) =
    Some 550 \<and> (550 :: int) \<le> uint (1000 :: u64)"
proof -
  let ?k = "claim_key sample_lib sample_tracker (claim_of sample_lib sample_rule sample_limit (sample_context 1 7 400))"
  let ?step = "limit_step sample_lib sample_tracker sample_rule sample_limit ?k"
  let ?l = "settle_claim (1 :: nat) 400 True (Some 150) (open_claim 1 400 True (open_claim 1 400 True no_claims))"
  obtain w3 where run: "?step\<^sup>*\<^sup>* (sample_world DenyAll [sample_rule], no_claims) (w3, ?l)"
    using sample_run by (meson rtranclp.rtrancl_into_rtrancl)
  have ledger: "settled ?l = 150" "open_claims ?l = []" "stuck ?l = [(1, 400, True)]"
    by (simp_all add: settle_claim_def open_claim_def keep_open_def no_claims_def charged_def Let_def)
  have "counter (now_of (sample_world DenyAll [sample_rule]))
      (tracker_keys (sample_world DenyAll [sample_rule])) ?k = Some 0"
    by (simp add: counter_def live_def sample_world_def)
  moreover have "lua_redis_ok (tracker_redis sample_tracker)"
    by (simp add: sample_tracker_def tracker_new_def sample_ok)
  moreover have "limits_to DenyAll (rule_action sample_rule) (aggr_value sample_limit) 1000"
    by (simp add: limits_to_def upper_limit_def sample_rule_simps)
  ultimately have "settled ?l + admitted_total (open_claims ?l) + admitted_total (stuck ?l) \<le> uint (1000 :: u64) \<and>
      counter (now_of w3) (tracker_keys w3) ?k =
        Some (settled ?l + claims_total (open_claims ?l) + claims_total (stuck ?l))"
    using gas_limit_holds [OF sample_rule_simps(1) _ _ _ _ run, of 1000]
    unfolding sample_rule_simps(7,8) by simp
  then show ?thesis unfolding ledger by auto
qed

section \<open>Claims that go astray\<close>

lemma can_book_elsewhere:
  assumes "can_book L tr now req' c d w" "claim_key L tr req' \<noteq> claim_key L tr req"
  shows "can_book L tr now req' c d (pending_set dg q (book L tr now req i w))"
  using assms by (simp add: can_book_def book_counter_other)

text \<open>C29: when two rules count a transaction because the limit of the first is reached, the request of the
  second replaces that of the first: the budget stays booked on the first counter, although the first
  rule rejected the transaction, whatever the confirmation says.\<close>

theorem second_claim_replaces_first:
  assumes "rules (controller w) = [r1, r2]" "access_policy (controller w) \<noteq> Disabled"
    and g: "rule_gas_usage r1 = Some g1" "rule_gas_usage r2 = Some g2"
    and act: "rule_action r1 \<in> {action.Allow, action.Deny}" "rule_action r2 \<in> {action.Allow, action.Deny}"
    and v: "rule_verdict L r1 ctx = Ok True" "rule_verdict L r2 ctx = Ok True"
    and tr: "ctx_stats_tracker ctx = tr"
    and b1: "can_book L tr now (claim_of L r1 g1 ctx) ca (uint (transaction_budget ctx)) w"
    and b2: "can_book L tr now (claim_of L r2 g2 ctx) cb (uint (transaction_budget ctx)) w"
    and "0 \<le> cb" and keys: "claim_key L tr (claim_of L r2 g2 ctx) \<noteq> claim_key L tr (claim_of L r1 g1 ctx)"
    and reached: "\<not> number_matches (aggr_value g1) (of_int (ca + uint (transaction_budget ctx)))"
  shows "\<exists>d w1 w2. check_access L ctx w = (Ok d, w1) \<and>
    confirm_transaction L \<lparr>result_digest = transaction_digest ctx, result_gas_usage = real\<rparr> tr w1 =
      (Ok (), w2) \<and>
    counter now (tracker_keys w2) (claim_key L tr (claim_of L r1 g1 ctx)) =
      Some (ca + uint (transaction_budget ctx)) \<and>
    counter now (tracker_keys w2) (claim_key L tr (claim_of L r2 g2 ctx)) =
      Some (cb + charged real (transaction_budget ctx))"
proof -
  let ?b = "uint (transaction_budget ctx)" and ?dg = "transaction_digest ctx"
  let ?req1 = "claim_of L r1 g1 ctx" and ?req2 = "claim_of L r2 g2 ctx"
  define wa where "wa = pending_set ?dg (Some [?req1]) (book L tr now ?req1 (ca + ?b) w)"
  define w1 where "w1 = pending_set ?dg (Some [?req2]) (book L tr now ?req2 (cb + ?b) wa)"
  have b2': "can_book L tr now ?req2 cb ?b wa"
    unfolding wa_def by (rule can_book_elsewhere [OF b2 keys])
  obtain rep1 rep2 where rep: "rule_matches L r1 ctx = Ok rep1" "rr_is_matched rep1"
    "rule_matches L r2 ctx = Ok rep2" "rr_is_matched rep2"
    using v by (metis matched_report)
  obtain p1 where p1: "check_rule L ctx r1 w = (Ok (None, p1), wa)"
    using check_rule_limit [OF g(1) act(1) rep(1,2), of now ca w] b1 reached by (auto simp: wa_def tr)
  obtain d2 p2 where p2: "check_rule L ctx r2 wa = (Ok (d2, p2), w1)"
    using check_rule_limit [OF g(2) act(2) rep(3,4), of now cb wa] b2' by (auto simp: w1_def tr)
  obtain d where check: "check_access L ctx w = (Ok d, w1)"
    using p1 p2 assms(1,2) by (cases d2) (auto simp: check_access_def is_disabled_def Let_def)
  have budget: "req_gas_usage ?req2 = transaction_budget ctx" by (simp add: claim_of_def)
  have "can_book L tr now ?req2 (cb + ?b) (- given_back real (transaction_budget ctx)) w1"
    unfolding w1_def using given_back_range [of real "transaction_budget ctx"] b2 \<open>0 \<le> cb\<close>
    by (intro can_book_after [OF b2']) (auto simp: can_book_def abs_le_iff)
  then have confirm: "confirm_transaction L \<lparr>result_digest = ?dg, result_gas_usage = real\<rparr> tr w1 =
      (Ok (), book L tr now ?req2 (cb + charged real (transaction_budget ctx)) (pending_set ?dg None w1))"
    using confirm_one [of w1 ?dg ?req2 L tr now "cb + ?b" real] charged_diff [of "transaction_budget ctx" real]
    by (simp add: w1_def budget algebra_simps)
  have "0 < req_ttl ?req1" "0 < req_ttl ?req2"
    using b1 b2 by (simp_all add: can_book_def window_ok_def)
  with check confirm keys show ?thesis
    by (fastforce simp: w1_def wa_def book_counter book_counter_other)
qed

definition low_limit :: value_aggregate where
  "low_limit = sample_limit\<lparr>aggr_value := LessThanOrEqual 100\<rparr>"

definition low_rule :: "(nat, unit) access_rule" where
  "low_rule = sample_rule\<lparr>rule_gas_usage := Some low_limit\<rparr>"

definition other_rule :: "(nat, unit) access_rule" where
  "other_rule = sample_rule\<lparr>transaction_gas_budget := Some (LessThanOrEqual 300)\<rparr>"

lemma low_other_simps:
  "rule_gas_usage low_rule = Some low_limit" "rule_gas_usage other_rule = Some sample_limit"
  "rule_action low_rule = action.Allow" "rule_action other_rule = action.Allow"
  "aggr_value low_limit = LessThanOrEqual 100"
  by (simp_all add: low_rule_def other_rule_def low_limit_def sample_rule_simps)

lemma low_other_verdict:
  "rule_verdict sample_lib low_rule (sample_context 1 7 200) = Ok True"
  "rule_verdict sample_lib other_rule (sample_context 1 7 200) = Ok True"
  by (simp_all add: rule_verdict_def rego_verdict_def static_match_def low_rule_def other_rule_def
      sample_rule_def default_rule_def sample_context_def)

lemma low_other_book:
  "can_book sample_lib sample_tracker 5000 (claim_of sample_lib low_rule low_limit (sample_context 1 7 200))
     0 200 (sample_world DenyAll rs)"
  "can_book sample_lib sample_tracker 5000 (claim_of sample_lib other_rule sample_limit (sample_context 1 7 200))
     0 200 (sample_world DenyAll rs)"
  by (simp_all add: can_book_def claim_of_def gas_usage_aggregate_def with_window_def with_aggr_type_def
      with_name_def claim_ttl_def low_limit_def sample_limit_def as_secs_def sample_tracker_def
      tracker_new_def sample_ok window_ok_def quiet_at_def sample_world_def counter_def live_def)

lemma low_other_keys:
  "claim_key sample_lib sample_tracker (claim_of sample_lib other_rule sample_limit (sample_context 1 7 200)) \<noteq>
   claim_key sample_lib sample_tracker (claim_of sample_lib low_rule low_limit (sample_context 1 7 200))"
  by (simp add: claim_key_def claim_of_def aggr_key_def nkey_def get_redis_aggr_key_def
      generate_hash_from_key_def sorted_meta_def sample_lib_def rule_meta_with_counts_def rule_fields_def
      ser_optional_def low_rule_def low_limit_def other_rule_def sample_rule_def default_rule_def
      default_action_def sample_limit_def sample_addr_def sample_context_def count_by_value_def op_defs
      gas_usage_aggregate_def with_window_def with_aggr_type_def with_name_def exec_simps)

theorem second_claim_replaces_first_witness:
  "\<exists>d w1 w2 k. check_access sample_lib (sample_context 1 7 200) (sample_world DenyAll [low_rule, other_rule]) =
      (Ok d, w1) \<and>
    confirm_transaction sample_lib \<lparr>result_digest = 1, result_gas_usage = Some 50\<rparr> sample_tracker w1 = (Ok (), w2) \<and>
    counter 5000 (tracker_keys w2) k = Some 200"
proof -
  have "\<not> number_matches (aggr_value low_limit) (of_int (0 + uint (transaction_budget (sample_context 1 7 200))))"
    by (simp add: low_other_simps sample_rule_simps)
  from second_claim_replaces_first [where real = "Some 50" and ca = 0 and cb = 0 and now = 5000 and
      tr = sample_tracker and w = "sample_world DenyAll [low_rule, other_rule]",
      OF _ _ low_other_simps(1,2) _ _ low_other_verdict _ _ _ _ low_other_keys this] low_other_book
  show ?thesis by (auto simp: sample_rule_simps low_other_simps)
qed

text \<open>C30: when a transaction is confirmed after its window has ended, so that the counter starts from 0
  again, what it gives back makes the counter negative; the next smaller claim is then compared as a number above every limit below
  \<open>2 ^ 63\<close> and refused, although no gas was used in the window.\<close>

theorem late_confirmation_blocks_client:
  assumes ctl: "rules (controller w) = [r]" "access_policy (controller w) = DenyAll"
    and g: "rule_gas_usage r = Some g" "upper_limit (aggr_value g) n" "uint n < 2 ^ 63"
    and act: "rule_action r \<in> {action.Allow, action.Deny}"
    and pend: "confirmation_requests (controller w) dg = Some [req]"
    and can: "can_book L tr now req 0 (- given_back real (req_gas_usage req)) w"
    and ctx: "rule_verdict L r ctx = Ok True" "ctx_stats_tracker ctx = tr"
      "claim_key L tr (claim_of L r g ctx) = claim_key L tr req" "req_ttl (claim_of L r g ctx) = req_ttl req"
    and less: "uint (transaction_budget ctx) < given_back real (req_gas_usage req)"
  shows "\<exists>w1 w2. confirm_transaction L \<lparr>result_digest = dg, result_gas_usage = real\<rparr> tr w = (Ok (), w1) \<and>
    counter now (tracker_keys w1) (claim_key L tr req) = Some (- given_back real (req_gas_usage req)) \<and>
    check_access L ctx w1 = (Ok decision.Deny, w2)"
proof -
  let ?x = "given_back real (req_gas_usage req)" and ?b = "uint (transaction_budget ctx)"
  define w1 where "w1 = book L tr now req (- ?x) (pending_set dg None w)"
  have confirm: "confirm_transaction L \<lparr>result_digest = dg, result_gas_usage = real\<rparr> tr w = (Ok (), w1)"
    using confirm_one [OF pend can] by (simp add: w1_def)
  have ttl: "0 < req_ttl req" using can by (simp add: can_book_def window_ok_def)
  have x: "?x \<le> 2 ^ 53" using can by (auto simp: can_book_def abs_le_iff)
  then have range: "- ?x \<le> 2 ^ 53" "?x - ?b \<le> 2 ^ 53"
    using given_back_range(1) [of real "req_gas_usage req"] uint_ge_0 [of "transaction_budget ctx"]
    by linarith+
  have "can_book L tr now (claim_of L r g ctx) (- ?x) ?b w1"
    using can ctx ttl less x range by (simp add: can_book_def w1_def book_counter abs_le_iff)
  then have "check_access L ctx w1 = (Ok (limited_decision (controller w1) r
      (number_matches (aggr_value g) (word_of_int (?b - ?x)))),
     pending_set (transaction_digest ctx) (Some [claim_of L r g ctx])
       (book L tr now (claim_of L r g ctx) (?b - ?x) w1))"
    using check_limited [of w1 r g L ctx now "- ?x"] ctl g(1) act ctx
    by (simp add: w1_def)
  moreover have "2 ^ 63 \<le> uint (word_of_int (?b - ?x) :: u64)"
  proof -
    have wrap: "uint (word_of_int (b - y) :: u64) = b - y + 2 ^ 64" "2 ^ 63 \<le> b - y + 2 ^ 64"
      if "0 \<le> b" "b < y" "y \<le> 2 ^ 53" for b y :: int
    proof -
      have "(b - y + 2 ^ 64) mod 2 ^ 64 = b - y + 2 ^ 64"
        using that by (intro mod_pos_pos_trivial) simp_all
      then have "(b - y) mod 2 ^ 64 = b - y + 2 ^ 64" unfolding mod_add_self2 .
      then show "uint (word_of_int (b - y) :: u64) = b - y + 2 ^ 64"
        unfolding uint_word_of_int by simp
      show "2 ^ 63 \<le> b - y + 2 ^ 64" using that by simp
    qed
    show ?thesis using wrap [OF uint_ge_0 less x] by argo
  qed
  then have "\<not> number_matches (aggr_value g) (word_of_int (?b - ?x))"
    using g(2,3) by (auto simp: upper_limit_def word_le_def word_less_def)
  ultimately have "check_access L ctx w1 = (Ok decision.Deny,
     pending_set (transaction_digest ctx) (Some [claim_of L r g ctx])
       (book L tr now (claim_of L r g ctx) (?b - ?x) w1))"
    using ctl by (simp add: limited_decision_def w1_def)
  with confirm ttl show ?thesis by (fastforce simp: w1_def book_counter)
qed

definition pending_world :: "(nat, nat, nat, nat, unit) access_world" where
  "pending_world = pending_set 1 (Some [claim_of sample_lib sample_rule sample_limit (sample_context 1 7 400)])
     (sample_world DenyAll [sample_rule])"

theorem late_confirmation_blocks_client_witness:
  "\<exists>w1 w2 k. confirm_transaction sample_lib \<lparr>result_digest = 1, result_gas_usage = Some 10\<rparr> sample_tracker
      pending_world = (Ok (), w1) \<and>
    counter 5000 (tracker_keys w1) k = Some (- 390) \<and>
    check_access sample_lib (sample_context 2 7 300) w1 = (Ok decision.Deny, w2)"
proof -
  let ?req = "claim_of sample_lib sample_rule sample_limit (sample_context 1 7 400)"
  have used: "req_gas_usage ?req = 400" "given_back (Some 10) (400 :: u64) = 390"
    by (simp_all add: claim_of_def sample_rule_simps given_back_def)
  have "can_book sample_lib sample_tracker 5000 ?req 0 (- given_back (Some 10) (req_gas_usage ?req)) pending_world"
    using sample_can_book [of "sample_context 1 7 400" sample_lib DenyAll "[sample_rule]"]
    by (simp add: can_book_def pending_world_def used sample_rule_simps del: One_nat_def)
  moreover have "claim_key sample_lib sample_tracker
      (claim_of sample_lib sample_rule sample_limit (sample_context 2 7 300)) = claim_key sample_lib sample_tracker ?req"
    by (simp add: claim_key_def claim_of_def rule_meta_with_counts_def sample_limit_def count_by_value_def
        sample_context_def)
  ultimately show ?thesis
    using late_confirmation_blocks_client [where w = pending_world and r = sample_rule and g = sample_limit and
        n = 1000 and dg = 1 and req = ?req and L = sample_lib and tr = sample_tracker and now = 5000 and
        real = "Some 10" and ctx = "sample_context 2 7 300"]
    by (simp add: pending_world_def sample_rule_simps upper_limit_def sample_verdict sample_ttl used
        del: One_nat_def) blast
qed

end
