(* ===== verification/Config.thy ===== *)
theory Config
  imports Access_Controller
begin

text \<open>
  The configuration of the server, \<open>src/src/config/mod.rs\<close>, and the cold parameters,
  \<open>src/src/config/cold_params.rs\<close>: the parameters whose change needs a full rescan. They are kept in
  Redis beside the registry and compared at the next start.

  Addresses of the IPv4 standard type are four octets. A key pair is a type of the node's crates, here
  its text; \<open>parse_keypair\<close> reads it. \<open>json_lib\<close> is \<open>serde_json\<close>'s printer and parser.
\<close>

section \<open>Numbers and addresses\<close>

fun de_uint :: "nat \<Rightarrow> json \<Rightarrow> nat result" where
  "de_uint bits (JNumber i) =
     (if 0 \<le> i \<and> i < 2 ^ bits then Ok (nat i) else de_error ''invalid value: integer out of range'')"
| "de_uint bits j = de_error ''invalid type: expected an unsigned integer''"

definition de_u64 :: "json \<Rightarrow> u64 result" where
  "de_u64 j = rbind (de_uint 64 j) (\<lambda>n. Ok (of_nat n))"

definition ser_u64 :: "u64 \<Rightarrow> json" where
  "ser_u64 n = JNumber (uint n)"

type_synonym ipv4_addr = "nat \<times> nat \<times> nat \<times> nat"

definition localhost :: ipv4_addr where
  "localhost = (0, 0, 0, 0)"

definition display_ipv4 :: "ipv4_addr \<Rightarrow> string" where
  "display_ipv4 a = (case a of (b, c, d, e) \<Rightarrow> join_with ''.'' (map show_nat [b, c, d, e]))"

text \<open>An octet has one to three digits, no leading zero, and is below 256.\<close>

definition parse_octet :: "string \<Rightarrow> nat option" where
  "parse_octet s =
     (if length s > 3 \<or> (length s > 1 \<and> hd s = CHR ''0'') then None
      else case read_nat s of Some n \<Rightarrow> if n < 256 then Some n else None | None \<Rightarrow> None)"

definition parse_ipv4 :: "string \<Rightarrow> ipv4_addr option" where
  "parse_ipv4 s = (case map parse_octet (split_on (CHR ''.'') s) of
     [Some b, Some c, Some d, Some e] \<Rightarrow> Some (b, c, d, e)
   | _ \<Rightarrow> None)"

definition de_ipv4 :: "json \<Rightarrow> ipv4_addr result" where
  "de_ipv4 j = rbind (de_string j) (\<lambda>s.
     case parse_ipv4 s of None \<Rightarrow> de_error ''invalid IPv4 address syntax'' | Some a \<Rightarrow> Ok a)"

section \<open>Parts of the configuration\<close>

definition default_rpc_port :: nat where "default_rpc_port = 9527"
definition default_metrics_port :: nat where "default_metrics_port = 9184"
definition default_init_coin_balance :: u64 where "default_init_coin_balance = nanos_per_iota div 10"
definition default_coin_pool_refresh_interval_sec :: u64 where
  "default_coin_pool_refresh_interval_sec = 60 * 60 * 24"
definition default_daily_gas_usage_cap :: u64 where
  "default_daily_gas_usage_cap = 1500 * nanos_per_iota"
definition default_max_gas_budget :: u64 where "default_max_gas_budget = 25 * nanos_per_iota"

record coin_init_config =
  target_init_balance_cfg :: u64
  refresh_interval_sec :: u64

definition default_coin_init_config :: coin_init_config where
  "default_coin_init_config = \<lparr>target_init_balance_cfg = default_init_coin_balance,
     refresh_interval_sec = default_coin_pool_refresh_interval_sec\<rparr>"

datatype gas_station_storage_config = Redis string

definition default_storage_config :: gas_station_storage_config where
  "default_storage_config = Redis ''redis://127.0.0.1:6379''"

datatype tx_signer_config = Local string | Sidecar string

record ('addr, 'dg, 'eng) gas_station_config =
  signer_config :: tx_signer_config
  rpc_host_ip :: ipv4_addr
  rpc_port :: nat
  metrics_port :: nat
  storage_config :: gas_station_storage_config
  fullnode_url :: string
  fullnode_basic_auth :: "(string \<times> string) option"
  coin_init_config :: "coin_init_config option"
  daily_gas_usage_cap :: u64
  max_gas_budget_cfg :: u64
  access_controller_cfg :: "('addr, 'dg, 'eng) access_controller"

definition default_controller :: "('addr, 'dg, 'eng) access_controller" where
  "default_controller = controller_new default_policy []"

text \<open>\<open>keypair\<close> is the key pair that was generated.\<close>

definition default_config :: "string \<Rightarrow> ('addr, 'dg, 'eng) gas_station_config" where
  "default_config keypair = \<lparr>signer_config = Local keypair, rpc_host_ip = localhost,
     rpc_port = default_rpc_port, metrics_port = default_metrics_port,
     storage_config = default_storage_config, fullnode_url = ''http://localhost:9000'',
     fullnode_basic_auth = None, coin_init_config = Some default_coin_init_config,
     daily_gas_usage_cap = default_daily_gas_usage_cap, max_gas_budget_cfg = default_max_gas_budget,
     access_controller_cfg = default_controller\<rparr>"

section \<open>Reading\<close>

text \<open>A field with an alias: the field's own name, else the alias.\<close>

definition de_alias :: "(json \<Rightarrow> 'a result) \<Rightarrow> string \<Rightarrow> string \<Rightarrow> (string \<times> json) list \<Rightarrow> 'a result" where
  "de_alias de k alias fs =
     (case (map_of fs k, map_of fs alias) of
        (Some j, None) \<Rightarrow> de j
      | (None, Some j) \<Rightarrow> de j
      | (Some j, Some j') \<Rightarrow> de_error (''duplicate field `'' @ k @ ''`'')
      | (None, None) \<Rightarrow> de_error (''missing field `'' @ k @ ''`''))"

text \<open>An externally tagged enum is an object with one field, the name of the variant.\<close>

fun de_storage_config :: "json \<Rightarrow> gas_station_storage_config result" where
  "de_storage_config (JObject [(tag, JObject fs)]) =
     (if tag = ''redis'' then rbind (de_alias de_string ''redis_url'' ''redis-url'' fs) (\<lambda>u. Ok (Redis u))
      else de_error (''unknown variant `'' @ tag @ ''`''))"
| "de_storage_config j = de_error ''invalid type: expected enum GasStationStorageConfig''"

fun de_signer_config :: "(string \<Rightarrow> string option) \<Rightarrow> json \<Rightarrow> tx_signer_config result" where
  "de_signer_config parse_keypair (JObject [(tag, JObject fs)]) =
     (if tag = ''local''
      then rbind (de_field de_string ''keypair'' fs) (\<lambda>s.
           case parse_keypair s of None \<Rightarrow> de_error ''Invalid key pair'' | Some k \<Rightarrow> Ok (Local k))
      else if tag = ''sidecar''
      then rbind (de_alias de_string ''sidecar_url'' ''sidecar-url'' fs) (\<lambda>u. Ok (Sidecar u))
      else de_error (''unknown variant `'' @ tag @ ''`''))"
| "de_signer_config parse_keypair j = de_error ''invalid type: expected enum TxSignerConfig''"

fun de_coin_init_config :: "json \<Rightarrow> coin_init_config result" where
  "de_coin_init_config (JObject fs) =
     rbind (de_field de_u64 ''target-init-balance'' fs) (\<lambda>t.
     rbind (de_field de_u64 ''refresh-interval-sec'' fs) (\<lambda>r.
     Ok \<lparr>target_init_balance_cfg = t, refresh_interval_sec = r\<rparr>))"
| "de_coin_init_config j = de_error ''invalid type: expected struct CoinInitConfig''"

fun de_pair :: "json \<Rightarrow> (string \<times> string) result" where
  "de_pair (JArray [a, b]) = rbind (de_string a) (\<lambda>x. rbind (de_string b) (\<lambda>y. Ok (x, y)))"
| "de_pair j = de_error ''invalid type: expected a tuple of size 2''"

fun de_config ::
  "('addr, 'eng) access_lib \<Rightarrow> (string \<Rightarrow> string option) \<Rightarrow> json \<Rightarrow>
     ('addr, 'dg, 'eng) gas_station_config result"
where
  "de_config L parse_keypair (JObject fs) =
     rbind (de_field (de_signer_config parse_keypair) ''signer-config'' fs) (\<lambda>signer.
     rbind (de_field de_ipv4 ''rpc-host-ip'' fs) (\<lambda>ip.
     rbind (de_field (de_uint 16) ''rpc-port'' fs) (\<lambda>rpc.
     rbind (de_field (de_uint 16) ''metrics-port'' fs) (\<lambda>met.
     rbind (de_field de_storage_config ''storage-config'' fs) (\<lambda>sto.
     rbind (de_field de_string ''fullnode-url'' fs) (\<lambda>url.
     rbind (de_optional de_pair ''fullnode-basic-auth'' fs) (\<lambda>auth.
     rbind (de_optional de_coin_init_config ''coin-init-config'' fs) (\<lambda>init.
     rbind (de_field de_u64 ''daily-gas-usage-cap'' fs) (\<lambda>cap.
     rbind (de_default de_u64 default_max_gas_budget ''max-gas-budget'' fs) (\<lambda>budget.
     rbind (de_default (de_controller L) default_controller ''access-controller'' fs) (\<lambda>ctl.
     Ok \<lparr>signer_config = signer, rpc_host_ip = ip, rpc_port = rpc, metrics_port = met,
       storage_config = sto, fullnode_url = url, fullnode_basic_auth = auth, coin_init_config = init,
       daily_gas_usage_cap = cap, max_gas_budget_cfg = budget, access_controller_cfg = ctl\<rparr>)))))))))))"
| "de_config L parse_keypair j = de_error ''invalid type: expected struct GasStationConfig''"

section \<open>Cold parameters\<close>

record json_lib =
  json_print :: "json \<Rightarrow> string"
  json_parse :: "string \<Rightarrow> json option"

record cold_params =
  cp_target_init_balance :: "u64 option"

definition cold_params_from_config :: "('addr, 'dg, 'eng) gas_station_config \<Rightarrow> cold_params" where
  "cold_params_from_config c =
     \<lparr>cp_target_init_balance = map_option target_init_balance_cfg (coin_init_config c)\<rparr>"

definition is_different :: "cold_params \<Rightarrow> cold_params \<Rightarrow> bool" where
  "is_different self other \<longleftrightarrow> self \<noteq> other"

text \<open>\<open>Debug\<close> of an optional number.\<close>

definition debug_opt_u64 :: "u64 option \<Rightarrow> string" where
  "debug_opt_u64 v = (case v of None \<Rightarrow> ''None'' | Some n \<Rightarrow> ''Some('' @ show_u64 n @ '')'')"

definition changes_details :: "cold_params \<Rightarrow> cold_params \<Rightarrow> string list" where
  "changes_details self other =
     (if cp_target_init_balance self \<noteq> cp_target_init_balance other
      then [''target_init_balance: '' @ debug_opt_u64 (cp_target_init_balance self) @ '' -> '' @
              debug_opt_u64 (cp_target_init_balance other)]
      else [])"

definition ser_cold_params :: "cold_params \<Rightarrow> json" where
  "ser_cold_params p = JObject [(''target_init_balance'',
     case cp_target_init_balance p of None \<Rightarrow> JNull | Some n \<Rightarrow> ser_u64 n)]"

fun de_cold_params :: "json \<Rightarrow> cold_params result" where
  "de_cold_params (JObject fs) =
     rbind (de_optional de_u64 ''target_init_balance'' fs) (\<lambda>t. Ok \<lparr>cp_target_init_balance = t\<rparr>)"
| "de_cold_params j = de_error ''invalid type: expected struct ColdParams''"

text \<open>What is printed of the parameters reads back as the same value.\<close>

definition json_lib_ok :: "json_lib \<Rightarrow> bool" where
  "json_lib_ok J \<longleftrightarrow> (\<forall>p. json_parse J (json_print J (ser_cold_params p)) = Some (ser_cold_params p))"

definition invalid_cold_params_message :: "string \<Rightarrow> string" where
  "invalid_cold_params_message key =
     ''unable to deserialize cold params. The entry with the key '' @ key @
     '' is not a valid cold params structure''"

definition check_if_changed ::
  "json_lib \<Rightarrow> cold_params \<Rightarrow> string \<Rightarrow> ('z world_scheme, string list) prog"
where
  "check_if_changed J self key =
     pbind (pcontext ''unable to get cold params from storage'' (get_data key)) (\<lambda>maybe.
     case maybe of
       None \<Rightarrow> pret []
     | Some bytes \<Rightarrow>
         pbind (plift (with_context (invalid_cold_params_message key)
                  (case json_parse J bytes of
                     None \<Rightarrow> Err (Foreign ''invalid JSON'')
                   | Some j \<Rightarrow> de_cold_params j))) (\<lambda>old.
         pret (changes_details self old)))"

definition save_to_storage ::
  "json_lib \<Rightarrow> cold_params \<Rightarrow> string \<Rightarrow> ('z world_scheme, unit) prog"
where
  "save_to_storage J self key = set_data key (json_print J (ser_cold_params self))"

lemma u64_bound: "uint (n :: u64) < 18446744073709551616"
  using uint_lt2p [of n] by simp

lemma de_ser_u64 [simp]: "de_u64 (ser_u64 n) = Ok n"
  by (simp add: de_u64_def ser_u64_def u64_bound)

interpretation cold_params_json: json_codec ser_cold_params de_cold_params "\<lambda>p. True"
proof
  show "de_cold_params (ser_cold_params p) = Ok p" for p
    by (cases "cp_target_init_balance p"; cases p)
      (simp_all add: ser_cold_params_def de_optional_def ser_u64_def de_u64_def u64_bound)
  show "ser_cold_params p \<noteq> JNull" for p
    by (simp add: ser_cold_params_def)
qed

end
