(* ===== verification/Rpc_Types.thy ===== *)
theory Rpc_Types
  imports Config
begin

text \<open>
  The messages of the RPC interface, \<open>src/src/rpc/rpc_types.rs\<close>, and their JSON. \<open>wire_lib\<close> holds
  what other crates give: base64, the BCS form of transaction data, the bytes of a signature, the
  JSON of object references and of effects, and the bearer token in the headers of a request. A \<open>Base64\<close> value is its encoded text.
\<close>

record ('addr, 'id, 'dg, 'sig) wire_lib =
  base64_encode :: "string \<Rightarrow> string"
  base64_decode :: "string \<Rightarrow> string option"
  tx_to_bcs :: "('addr, 'id, 'dg) tx_data \<Rightarrow> string"
  tx_from_bcs :: "string \<Rightarrow> (error + ('addr, 'id, 'dg) tx_data)"
  sig_to_bytes :: "'sig \<Rightarrow> string"
  sig_from_bytes :: "string \<Rightarrow> (error + 'sig)"
  ser_ref :: "('id, 'dg) object_ref \<Rightarrow> json"
  de_ref :: "json \<Rightarrow> ('id, 'dg) object_ref result"
  ser_effects :: "('id, 'dg) tx_effects \<Rightarrow> json"
  de_effects :: "json \<Rightarrow> ('id, 'dg) tx_effects result"
  bearer_token :: "header_map \<Rightarrow> string option"

definition wire_lib_ok :: "('addr, 'id, 'dg, 'sig) wire_lib \<Rightarrow> bool" where
  "wire_lib_ok W \<longleftrightarrow>
     (\<forall>r. de_ref W (ser_ref W r) = Ok r) \<and>
     (\<forall>e. de_effects W (ser_effects W e) = Ok e \<and> ser_effects W e \<noteq> JNull)"

text \<open>The values of a header, and \<open>HeaderMap::insert\<close>, which replaces all of them.\<close>

definition header_values :: "string \<Rightarrow> header_map \<Rightarrow> string list" where
  "header_values name hs = map snd (filter (\<lambda>h. fst h = name) hs)"

definition header_insert :: "string \<Rightarrow> string \<Rightarrow> header_map \<Rightarrow> header_map" where
  "header_insert name value hs = filter (\<lambda>h. fst h \<noteq> name) hs @ [(name, value)]"

lemma header_values_simps [simp]:
  "header_values name [] = []" "header_values name (hs @ hs') = header_values name hs @ header_values name hs'"
  "header_values name (header_insert name value hs) = [value]"
  by (simp_all add: header_values_def header_insert_def)

text \<open>
  What the typed header \<open>Authorization<Bearer>\<close> documents: without the header there is no token, and a
  single header with the scheme and a printable token, without blanks at its ends, gives that token.
\<close>

definition plain_token :: "string \<Rightarrow> bool" where
  "plain_token t \<longleftrightarrow> t \<noteq> [] \<and> hd t \<noteq> CHR '' '' \<and> last t \<noteq> CHR '' '' \<and>
     (\<forall>c \<in> set t. 32 \<le> (of_char c :: nat) \<and> (of_char c :: nat) < 127)"

definition bearer_ok :: "('addr, 'id, 'dg, 'sig) wire_lib \<Rightarrow> bool" where
  "bearer_ok W \<longleftrightarrow>
     (\<forall>hs. header_values ''authorization'' hs = [] \<longrightarrow> bearer_token W hs = None) \<and>
     (\<forall>hs t. header_values ''authorization'' hs = [''Bearer '' @ t] \<and> plain_token t \<longrightarrow>
        bearer_token W hs = Some t)"

text \<open>A transaction and its signature survive their encodings.\<close>

definition wire_bcs_ok ::
  "('addr, 'id, 'dg, 'sig) wire_lib \<Rightarrow> ('addr, 'id, 'dg) tx_data \<Rightarrow> 'sig \<Rightarrow> bool"
where
  "wire_bcs_ok W d sig \<longleftrightarrow>
     (\<forall>s. base64_decode W (base64_encode W s) = Some s) \<and>
     tx_from_bcs W (tx_to_bcs W d) = Inr d \<and> sig_from_bytes W (sig_to_bytes W sig) = Inr sig"

lemma wire_ref: "wire_lib_ok W \<Longrightarrow> de_ref W (ser_ref W r) = Ok r"
  unfolding wire_lib_ok_def by blast

section \<open>Messages\<close>

record ('addr, 'id, 'dg) reserve_gas_result =
  rr_sponsor_address :: 'addr
  rr_reservation_id :: reservation_id
  rr_gas_coins :: "('id, 'dg) object_ref list"

record ('addr, 'id, 'dg) reserve_gas_response =
  rgr_result :: "('addr, 'id, 'dg) reserve_gas_result option"
  rgr_error :: "string option"

definition reserve_response_ok ::
  "'addr \<Rightarrow> reservation_id \<Rightarrow> ('id, 'dg) object_ref list \<Rightarrow> ('addr, 'id, 'dg) reserve_gas_response"
where
  "reserve_response_ok sponsor rid coins =
     \<lparr>rgr_result = Some \<lparr>rr_sponsor_address = sponsor, rr_reservation_id = rid, rr_gas_coins = coins\<rparr>,
      rgr_error = None\<rparr>"

definition reserve_response_err :: "error \<Rightarrow> ('addr, 'id, 'dg) reserve_gas_response" where
  "reserve_response_err e = \<lparr>rgr_result = None, rgr_error = Some (error_to_string e)\<rparr>"

record execute_tx_request =
  et_reservation_id :: reservation_id
  et_tx_bytes :: string
  et_user_sig :: string
  et_request_type :: "request_type option"

record ('id, 'dg) execute_tx_response =
  etr_effects :: "('id, 'dg) tx_effects option"
  etr_error :: "string option"

definition execute_response_ok :: "('id, 'dg) tx_effects \<Rightarrow> ('id, 'dg) execute_tx_response" where
  "execute_response_ok effects = \<lparr>etr_effects = Some effects, etr_error = None\<rparr>"

definition execute_response_err :: "error \<Rightarrow> ('id, 'dg) execute_tx_response" where
  "execute_response_err e = \<lparr>etr_effects = None, etr_error = Some (error_to_string e)\<rparr>"

record 'd gas_station_response =
  gsr_result :: "'d option"
  gsr_error :: "string option"

definition station_response_ok :: "'d \<Rightarrow> 'd gas_station_response" where
  "station_response_ok d = \<lparr>gsr_result = Some d, gsr_error = None\<rparr>"

definition station_response_err :: "error \<Rightarrow> 'd gas_station_response" where
  "station_response_err e = \<lparr>gsr_result = None, gsr_error = Some (error_to_string e)\<rparr>"

definition station_response_err_str :: "string \<Rightarrow> 'd gas_station_response" where
  "station_response_err_str m = \<lparr>gsr_result = None, gsr_error = Some m\<rparr>"

section \<open>Their JSON\<close>

definition ser_opt :: "('a \<Rightarrow> json) \<Rightarrow> 'a option \<Rightarrow> json" where
  "ser_opt ser v = (case v of None \<Rightarrow> JNull | Some a \<Rightarrow> ser a)"

definition ser_reserve_request :: "reserve_gas_request \<Rightarrow> json" where
  "ser_reserve_request r = JObject [(''gas_budget'', ser_u64 (rg_gas_budget r)),
     (''reserve_duration_secs'', ser_u64 (rg_reserve_duration_secs r))]"

fun de_reserve_request :: "json \<Rightarrow> reserve_gas_request result" where
  "de_reserve_request (JObject fs) =
     rbind (de_field de_u64 ''gas_budget'' fs) (\<lambda>b.
     rbind (de_field de_u64 ''reserve_duration_secs'' fs) (\<lambda>d.
     Ok \<lparr>rg_gas_budget = b, rg_reserve_duration_secs = d\<rparr>))"
| "de_reserve_request j = de_error ''invalid type: expected struct ReserveGasRequest''"

definition ser_reserve_result ::
  "'addr addr_codec \<Rightarrow> ('addr, 'id, 'dg, 'sig) wire_lib \<Rightarrow> ('addr, 'id, 'dg) reserve_gas_result \<Rightarrow> json"
where
  "ser_reserve_result A W r = JObject
     [(''sponsor_address'', JString (show_addr A (rr_sponsor_address r))),
      (''reservation_id'', ser_u64 (rr_reservation_id r)),
      (''gas_coins'', JArray (map (ser_ref W) (rr_gas_coins r)))]"

fun de_reserve_result ::
  "'addr addr_codec \<Rightarrow> ('addr, 'id, 'dg, 'sig) wire_lib \<Rightarrow> json \<Rightarrow> ('addr, 'id, 'dg) reserve_gas_result result"
where
  "de_reserve_result A W (JObject fs) =
     rbind (de_field (de_addr A) ''sponsor_address'' fs) (\<lambda>a.
     rbind (de_field de_u64 ''reservation_id'' fs) (\<lambda>i.
     rbind (de_field (de_list (de_ref W)) ''gas_coins'' fs) (\<lambda>cs.
     Ok \<lparr>rr_sponsor_address = a, rr_reservation_id = i, rr_gas_coins = cs\<rparr>)))"
| "de_reserve_result A W j = de_error ''invalid type: expected struct ReserveGasResult''"

definition ser_reserve_response ::
  "'addr addr_codec \<Rightarrow> ('addr, 'id, 'dg, 'sig) wire_lib \<Rightarrow> ('addr, 'id, 'dg) reserve_gas_response \<Rightarrow> json"
where
  "ser_reserve_response A W r = JObject
     [(''result'', ser_opt (ser_reserve_result A W) (rgr_result r)), (''error'', ser_opt JString (rgr_error r))]"

fun de_reserve_response ::
  "'addr addr_codec \<Rightarrow> ('addr, 'id, 'dg, 'sig) wire_lib \<Rightarrow> json \<Rightarrow>
     ('addr, 'id, 'dg) reserve_gas_response result"
where
  "de_reserve_response A W (JObject fs) =
     rbind (de_optional (de_reserve_result A W) ''result'' fs) (\<lambda>r.
     rbind (de_optional de_string ''error'' fs) (\<lambda>e.
     Ok \<lparr>rgr_result = r, rgr_error = e\<rparr>))"
| "de_reserve_response A W j = de_error ''invalid type: expected struct ReserveGasResponse''"

text \<open>The type of the request for the node; the crate's own type has the same two variants.\<close>

fun request_type_into :: "request_type \<Rightarrow> request_type option" where
  "request_type_into WaitForEffectsCert = Some WaitForEffectsCert"
| "request_type_into WaitForLocalExecution = Some WaitForLocalExecution"

fun de_request_type :: "json \<Rightarrow> request_type result" where
  "de_request_type (JString s) =
     (if s = ''waitForEffectsCert'' then Ok WaitForEffectsCert
      else if s = ''waitForLocalExecution'' then Ok WaitForLocalExecution
      else de_error (''unknown variant `'' @ s @ ''`''))"
| "de_request_type j = de_error ''invalid type: expected enum ExecuteTransactionRequestType''"

definition ser_execute_request :: "execute_tx_request \<Rightarrow> json" where
  "ser_execute_request r = JObject
     [(''reservation_id'', ser_u64 (et_reservation_id r)), (''tx_bytes'', JString (et_tx_bytes r)),
      (''user_sig'', JString (et_user_sig r)), (''request_type'', ser_request_type (et_request_type r))]"

fun de_execute_request :: "json \<Rightarrow> execute_tx_request result" where
  "de_execute_request (JObject fs) =
     rbind (de_field de_u64 ''reservation_id'' fs) (\<lambda>i.
     rbind (de_field de_string ''tx_bytes'' fs) (\<lambda>b.
     rbind (de_field de_string ''user_sig'' fs) (\<lambda>s.
     rbind (de_optional de_request_type ''request_type'' fs) (\<lambda>t.
     Ok \<lparr>et_reservation_id = i, et_tx_bytes = b, et_user_sig = s, et_request_type = t\<rparr>))))"
| "de_execute_request j = de_error ''invalid type: expected struct ExecuteTxRequest''"

definition ser_execute_response ::
  "('addr, 'id, 'dg, 'sig) wire_lib \<Rightarrow> ('id, 'dg) execute_tx_response \<Rightarrow> json"
where
  "ser_execute_response W r = JObject
     [(''effects'', ser_opt (ser_effects W) (etr_effects r)), (''error'', ser_opt JString (etr_error r))]"

fun de_execute_response ::
  "('addr, 'id, 'dg, 'sig) wire_lib \<Rightarrow> json \<Rightarrow> ('id, 'dg) execute_tx_response result"
where
  "de_execute_response W (JObject fs) =
     rbind (de_optional (de_effects W) ''effects'' fs) (\<lambda>r.
     rbind (de_optional de_string ''error'' fs) (\<lambda>e.
     Ok \<lparr>etr_effects = r, etr_error = e\<rparr>))"
| "de_execute_response W j = de_error ''invalid type: expected struct ExecuteTxResponse''"

lemma de_optional_opt:
  "map_of fs k = Some (ser_opt ser v) \<Longrightarrow> (\<And>a. v = Some a \<Longrightarrow> de (ser a) = Ok a \<and> ser a \<noteq> JNull) \<Longrightarrow>
     de_optional de k fs = Ok v"
proof (cases v)
  case (Some a)
  assume "map_of fs k = Some (ser_opt ser v)" "\<And>a. v = Some a \<Longrightarrow> de (ser a) = Ok a \<and> ser a \<noteq> JNull"
  with Some show ?thesis
    by (cases "ser a") (auto simp: de_optional_def ser_opt_def)
qed (simp add: de_optional_def ser_opt_def)

interpretation reserve_request_json: json_codec ser_reserve_request de_reserve_request "\<lambda>r. True"
  by unfold_locales (simp_all add: ser_reserve_request_def de_field_def)

interpretation reserve_result_json: json_codec
  "ser_reserve_result A W" "de_reserve_result A W" "\<lambda>r. addr_codec_ok A \<and> wire_lib_ok W" for A W
proof
  show "ser_reserve_result A W r \<noteq> JNull" for r
    by (simp add: ser_reserve_result_def)
  show "de_reserve_result A W (ser_reserve_result A W r) = Ok r" if "addr_codec_ok A \<and> wire_lib_ok W" for r
  proof -
    have "map_result (de_ref W) (map (ser_ref W) (rr_gas_coins r)) = Ok (map (\<lambda>c. c) (rr_gas_coins r))"
      by (rule map_result_map) (use that wire_ref in blast)
    with that show ?thesis
      by (simp add: ser_reserve_result_def de_field_def addr_codec_ok_def)
  qed
qed

interpretation reserve_response_json: json_codec
  "ser_reserve_response A W" "de_reserve_response A W" "\<lambda>r. addr_codec_ok A \<and> wire_lib_ok W" for A W
proof
  show "ser_reserve_response A W r \<noteq> JNull" for r
    by (simp add: ser_reserve_response_def)
  show "de_reserve_response A W (ser_reserve_response A W r) = Ok r"
    if ok: "addr_codec_ok A \<and> wire_lib_ok W" for r
  proof -
    let ?fs = "[(''result'', ser_opt (ser_reserve_result A W) (rgr_result r)), (''error'', ser_opt JString (rgr_error r))]"
    have "de_optional (de_reserve_result A W) ''result'' ?fs = Ok (rgr_result r)"
      by (rule de_optional_opt) (use reserve_result_json.roundtrip [OF ok] reserve_result_json.not_null in auto)
    moreover have "de_optional de_string ''error'' ?fs = Ok (rgr_error r)"
      by (rule de_optional_opt) auto
    ultimately show ?thesis
      by (simp add: ser_reserve_response_def)
  qed
qed

interpretation execute_response_json: json_codec
  "ser_execute_response W" "de_execute_response W" "\<lambda>r. wire_lib_ok W" for W
proof
  show "ser_execute_response W r \<noteq> JNull" for r
    by (simp add: ser_execute_response_def)
  show "de_execute_response W (ser_execute_response W r) = Ok r" if ok: "wire_lib_ok W" for r
  proof -
    let ?fs = "[(''effects'', ser_opt (ser_effects W) (etr_effects r)), (''error'', ser_opt JString (etr_error r))]"
    have "de_optional (de_effects W) ''effects'' ?fs = Ok (etr_effects r)"
      by (rule de_optional_opt) (use ok in \<open>auto simp: wire_lib_ok_def\<close>)
    moreover have "de_optional de_string ''error'' ?fs = Ok (etr_error r)"
      by (rule de_optional_opt) auto
    ultimately show ?thesis
      by (simp add: ser_execute_response_def)
  qed
qed

lemma de_request_type_ser: "de_optional de_request_type k [(k, ser_request_type t)] = Ok t"
  by (cases t rule: ser_request_type.cases) (simp_all add: de_optional_def)

interpretation execute_request_json: json_codec ser_execute_request de_execute_request "\<lambda>r. True"
proof
  show "ser_execute_request r \<noteq> JNull" for r
    by (simp add: ser_execute_request_def)
  show "de_execute_request (ser_execute_request r) = Ok r" for r
  proof -
    have "de_optional de_request_type ''request_type''
        [(''reservation_id'', ser_u64 (et_reservation_id r)), (''tx_bytes'', JString (et_tx_bytes r)),
         (''user_sig'', JString (et_user_sig r)), (''request_type'', ser_request_type (et_request_type r))] =
        Ok (et_request_type r)"
      by (cases "et_request_type r" rule: ser_request_type.cases) (simp_all add: de_optional_def)
    then show ?thesis
      by (simp add: ser_execute_request_def de_field_def)
  qed
qed

end
