(* ===== verification/Rpc_Server.thy ===== *)
theory Rpc_Server
  imports Rpc_Types
begin

text \<open>
  The RPC server, \<open>src/src/rpc/server.rs\<close>: authorization, the two endpoints that reserve gas and
  execute transactions, and the reload of the access controller. The controller in use is the
  field \<open>controller\<close> of the world (\<open>ArcSwap\<close>); \<open>config_file\<close> is what reading the configuration file
  gives. A handler is given the bearer token of the request, if any, and its decoded body.

  The two endpoints run their work in a task of its own. \<open>panic_abort\<close> says what a panic in such a
  task does: in the release build, which sets \<open>panic = "abort"\<close>, it ends the process, else the
  handler answers an error.
\<close>

record ('addr, 'id, 'dg, 'sig, 'eng) rpc_world = "('addr, 'id, 'dg, 'sig, 'eng) access_world" +
  config_file :: "error + json"
  event_ids :: "string list"

record ('addr, 'id, 'dg, 'sig, 'eng) server_state =
  server_station :: "('addr, 'id, 'dg) gas_station"
  secret :: "string option"
  server_tracker :: stats_tracker
  server_access_lib :: "('addr, 'eng) access_lib"
  server_tx_lib :: "('addr, 'id, 'dg) tx_lib"
  server_wire_lib :: "('addr, 'id, 'dg, 'sig) wire_lib"
  read_keypair :: "string \<Rightarrow> string option"
  error_debug :: "error \<Rightarrow> string"
  default_address :: 'addr
  server_version :: string
  panic_abort :: bool

datatype status_code =
    OK
  | BAD_REQUEST
  | UNAUTHORIZED
  | FORBIDDEN
  | INTERNAL_SERVER_ERROR
  | SERVICE_UNAVAILABLE

text \<open>\<open>read_auth_env\<close> of \<open>src/src/lib.rs\<close>: an empty secret counts as none.\<close>

definition read_auth_env :: "string option \<Rightarrow> string option" where
  "read_auth_env env = (case env of None \<Rightarrow> None | Some auth \<Rightarrow> if auth = [] then None else Some auth)"

definition token_ok :: "('addr, 'id, 'dg, 'sig, 'eng) server_state \<Rightarrow> string option \<Rightarrow> bool" where
  "token_ok server token = (case secret server of None \<Rightarrow> True | Some s \<Rightarrow> token = Some s)"

text \<open>\<open>tokio::task::spawn(f).await.unwrap_or_else(..)\<close>\<close>

definition spawned :: "bool \<Rightarrow> 'a \<Rightarrow> ('w, 'a) prog \<Rightarrow> ('w, 'a) prog" where
  "spawned abort fallback m w = (case m w of
     (Panic s, w') \<Rightarrow> if abort then (Panic s, w') else (Ok fallback, w')
   | r \<Rightarrow> r)"

section \<open>Simple endpoints\<close>

definition health :: "('w, string) prog" where
  "health = pret ''OK''"

definition version :: "('addr, 'id, 'dg, 'sig, 'eng) server_state \<Rightarrow> ('w, string) prog" where
  "version server = pret (server_version server)"

definition debug_health_check ::
  "('addr, 'id, 'dg, 'sig, 'eng) server_state \<Rightarrow> string option \<Rightarrow>
     (('addr, 'id, 'dg, 'sig, 'eng, 'z) rpc_world_scheme, string) prog"
where
  "debug_health_check server token =
     (if \<not> token_ok server token then pret ''Unauthorized''
      else pbind (ptry (debug_check_health (server_station server) (default_address server))) (\<lambda>r.
           case r of
             Inl e \<Rightarrow> pret (''Failed to check health: '' @ error_debug server e)
           | Inr u \<Rightarrow> pret ''OK''))"

section \<open>Reserving gas\<close>

definition reserve_gas_impl ::
  "('addr, 'id, 'dg) gas_station \<Rightarrow> u64 \<Rightarrow> u64 \<Rightarrow>
     (('addr, 'id, 'dg, 'sig, 'eng, 'z) rpc_world_scheme,
      status_code \<times> ('addr, 'id, 'dg) reserve_gas_response) prog"
where
  "reserve_gas_impl station budget duration_secs =
     pbind (ptry (reserve_gas station budget (unat duration_secs * 1000))) (\<lambda>r.
     case r of
       Inr (sponsor, rid, gas_coins) \<Rightarrow>
         pseq (emit (Inc ''num_successful_reserve_gas_requests''))
           (pret (OK, reserve_response_ok sponsor rid gas_coins))
     | Inl e \<Rightarrow>
         pseq (emit (Inc ''num_failed_reserve_gas_requests''))
           (pret (if str_contains maintenance_mode_error_message (error_to_string e)
                  then SERVICE_UNAVAILABLE else INTERNAL_SERVER_ERROR,
                  reserve_response_err e)))"

definition server_reserve_gas ::
  "('addr, 'id, 'dg, 'sig, 'eng) server_state \<Rightarrow> string option \<Rightarrow> reserve_gas_request \<Rightarrow>
     (('addr, 'id, 'dg, 'sig, 'eng, 'z) rpc_world_scheme,
      status_code \<times> ('addr, 'id, 'dg) reserve_gas_response) prog"
where
  "server_reserve_gas server token payload =
     (if \<not> token_ok server token
      then pret (UNAUTHORIZED,
             reserve_response_err (Anyhow ''Authorization token is required or invalid''))
      else
        pseq (emit (Inc ''num_authorized_reserve_gas_requests'')) (
        case check_reserve_gas_request_validity (server_station server) payload of
          Err e \<Rightarrow> pret (BAD_REQUEST, reserve_response_err e)
        | _ \<Rightarrow>
            pseq (emit (Observe ''target_gas_budget_per_request'' (unat (rg_gas_budget payload)))) (
            pseq (emit (Observe ''reserve_duration_per_request''
                          (unat (rg_reserve_duration_secs payload)))) (
            spawned (panic_abort server)
              (INTERNAL_SERVER_ERROR, reserve_response_err (Anyhow ''Failed to spawn reserve_gas task''))
              (reserve_gas_impl (server_station server) (rg_gas_budget payload)
                 (rg_reserve_duration_secs payload))))))"

section \<open>Executing a transaction\<close>

definition convert_tx_and_sig ::
  "('addr, 'id, 'dg, 'sig) wire_lib \<Rightarrow> string \<Rightarrow> string \<Rightarrow> (('addr, 'id, 'dg) tx_data \<times> 'sig) result"
where
  "convert_tx_and_sig W bytes sig =
     rbind (case base64_decode W bytes of
              None \<Rightarrow> Err (Anyhow ''Failed to convert tx_bytes to vector'')
            | Some b \<Rightarrow> answer_of (tx_from_bcs W b)) (\<lambda>tx.
     rbind (case base64_decode W sig of
              None \<Rightarrow> Err (Anyhow ''Failed to convert user_sig to vector'')
            | Some b \<Rightarrow> answer_of (sig_from_bytes W b)) (\<lambda>s.
     Ok (tx, s)))"

definition generate_event_id ::
  "(('addr, 'id, 'dg, 'sig, 'eng, 'z) rpc_world_scheme, string) prog"
where
  "generate_event_id w = (case event_ids w of
     [] \<Rightarrow> (Ok [], w)
   | i # is \<Rightarrow> (Ok i, w\<lparr>event_ids := is\<rparr>))"

text \<open>What the access controller says: the answer of a rejected request, or nothing.\<close>

definition access_verdict ::
  "('addr, 'id, 'dg, 'sig, 'eng) server_state \<Rightarrow> ('addr, 'dg) transaction_context \<Rightarrow>
     (('addr, 'id, 'dg, 'sig, 'eng, 'z) rpc_world_scheme,
      (status_code \<times> ('id, 'dg) execute_tx_response) option) prog"
where
  "access_verdict server ctx =
     pbind (ptry (check_access (server_access_lib server) ctx)) (\<lambda>r.
     case r of
       Inr decision.Allow \<Rightarrow> pseq (emit (Inc ''num_allowed_execute_tx_requests'')) (pret None)
     | Inr decision.Deny \<Rightarrow>
         pseq (emit (Inc ''num_failed_execute_tx_requests''))
           (pret (Some (FORBIDDEN, execute_response_err (Anyhow ''Access denied by access controller''))))
     | Inl e \<Rightarrow>
         pbind generate_event_id (\<lambda>event_id.
         pret (Some (BAD_REQUEST, execute_response_err
           (Anyhow (''Error while checking access. EventId='' @ event_id))))))"

definition confirm_quietly ::
  "('addr, 'id, 'dg, 'sig, 'eng) server_state \<Rightarrow> 'dg transaction_execution_result \<Rightarrow>
     ('addr, 'dg) transaction_context \<Rightarrow>
     (('addr, 'id, 'dg, 'sig, 'eng, 'z) rpc_world_scheme, unit) prog"
where
  "confirm_quietly server r ctx =
     pbind (ptry (confirm_transaction (server_access_lib server) r (ctx_stats_tracker ctx))) (\<lambda>_. pret ())"

definition execute_tx_impl ::
  "('addr, 'id, 'dg, 'sig, 'eng) server_state \<Rightarrow> ('addr, 'id, 'dg) tx_data \<Rightarrow> 'sig \<Rightarrow>
     ('addr, 'dg) transaction_context \<Rightarrow>
     (('addr, 'id, 'dg, 'sig, 'eng, 'z) rpc_world_scheme,
      status_code \<times> ('id, 'dg) execute_tx_response) prog"
where
  "execute_tx_impl server d sig ctx =
     (let digest = tx_digest (server_tx_lib server) d
      in pbind (access_verdict server ctx) (\<lambda>is_rejected.
         case is_rejected of
           Some rejection \<Rightarrow>
             pseq (confirm_quietly server (execution_result_new digest) ctx) (pret rejection)
         | None \<Rightarrow>
             pbind (ptry (execute_transaction (server_station server) (ctx_reservation_id ctx) d sig
                            (ctx_request_type ctx))) (\<lambda>r.
             case r of
               Inr effects \<Rightarrow>
                 pseq (confirm_quietly server
                         (with_gas_usage (gas_used effects) (execution_result_new digest)) ctx) (
                 pseq (emit (Inc ''num_successful_execute_tx_requests''))
                   (pret (OK, execute_response_ok effects)))
             | Inl e \<Rightarrow>
                 pseq (confirm_quietly server (execution_result_new digest) ctx) (
                 pseq (emit (Inc ''num_failed_execute_tx_requests''))
                   (pret (INTERNAL_SERVER_ERROR, execute_response_err e))))))"

definition server_execute_tx ::
  "('addr, 'id, 'dg, 'sig, 'eng) server_state \<Rightarrow> header_map \<Rightarrow> string option \<Rightarrow> execute_tx_request \<Rightarrow>
     (('addr, 'id, 'dg, 'sig, 'eng, 'z) rpc_world_scheme,
      status_code \<times> ('id, 'dg) execute_tx_response) prog"
where
  "server_execute_tx server hs token payload =
     pseq (emit (Inc ''num_execute_tx_requests'')) (
     if \<not> token_ok server token
     then pret (UNAUTHORIZED, execute_response_err (Anyhow ''Invalid authorization token''))
     else
       pseq (emit (Inc ''num_authorized_execute_tx_requests'')) (
       case convert_tx_and_sig (server_wire_lib server) (et_tx_bytes payload) (et_user_sig payload) of
         Ok (d, sig) \<Rightarrow>
           pbind (plift (context_new (server_tx_lib server) d (server_tracker server)
                    (et_reservation_id payload) (et_tx_bytes payload) (et_user_sig payload)
                    (et_request_type payload) hs)) (\<lambda>ctx.
           spawned (panic_abort server)
             (INTERNAL_SERVER_ERROR, execute_response_err (Anyhow ''Failed to spawn execute_tx task''))
             (execute_tx_impl server d sig ctx))
       | _ \<Rightarrow> pret (BAD_REQUEST,
                execute_response_err (Anyhow ''Invalid bcs bytes for TransactionData''))))"

section \<open>Reloading the access controller\<close>

definition load_config ::
  "('addr, 'id, 'dg, 'sig, 'eng) server_state \<Rightarrow>
     (('addr, 'id, 'dg, 'sig, 'eng, 'z) rpc_world_scheme, ('addr, 'dg, 'eng) gas_station_config) prog"
where
  "load_config server =
     pbind (pget config_file) (\<lambda>f.
     plift (rbind (answer_of f) (de_config (server_access_lib server) (read_keypair server))))"

definition install_controller ::
  "('addr, 'dg, 'eng) access_controller \<Rightarrow>
     (('addr, 'id, 'dg, 'sig, 'eng, 'z) rpc_world_scheme, unit) prog"
where
  "install_controller c = pmodify (\<lambda>w. w\<lparr>controller := c\<rparr>)"

definition reload_access_controller ::
  "('addr, 'id, 'dg, 'sig, 'eng) server_state \<Rightarrow> string option \<Rightarrow>
     (('addr, 'id, 'dg, 'sig, 'eng, 'z) rpc_world_scheme,
      status_code \<times> string gas_station_response) prog"
where
  "reload_access_controller server token =
     (if \<not> token_ok server token
      then pret (FORBIDDEN, station_response_err_str ''Invalid authorization token'')
      else
        pbind (ptry (load_config server)) (\<lambda>c.
        case c of
          Inl e \<Rightarrow> pret (INTERNAL_SERVER_ERROR, station_response_err_str ''Failed to load config file'')
        | Inr new_config \<Rightarrow>
            pbind (controller_initialize (server_access_lib server) (access_controller_cfg new_config))
              (\<lambda>(r, ctl).
            case r of
              Err e \<Rightarrow> pret (INTERNAL_SERVER_ERROR, station_response_err e)
            | Ok u \<Rightarrow> pseq (install_controller ctl) (pret (OK, station_response_ok ''success''))
            | Panic m \<Rightarrow> ppanic m
            | Hang \<Rightarrow> plift Hang)))"

section \<open>Routes\<close>

datatype http_method = GET | POST

datatype endpoint =
    Health
  | Version
  | DebugHealthCheck
  | ReserveGas
  | ExecuteTx
  | ReloadAccessController

definition routes :: "((http_method \<times> string) \<times> endpoint) list" where
  "routes =
     [((GET, ''/''), Health), ((GET, ''/version''), Version),
      ((POST, ''/debug_health_check''), DebugHealthCheck), ((POST, ''/v1/reserve_gas''), ReserveGas),
      ((POST, ''/v1/execute_tx''), ExecuteTx),
      ((GET, ''/v1/reload_access_controller''), ReloadAccessController)]"

text \<open>What goes over the wire: a request, and a reply with a text or a JSON body.\<close>

record http_request =
  hreq_method :: http_method
  hreq_path :: string
  hreq_headers :: header_map
  hreq_body :: json

text \<open>The extractor \<open>Option<TypedHeader<Authorization<Bearer>>>\<close>.\<close>

definition request_token ::
  "('addr, 'id, 'dg, 'sig, 'eng) server_state \<Rightarrow> http_request \<Rightarrow> string option"
where
  "request_token server q = bearer_token (server_wire_lib server) (hreq_headers q)"

datatype http_body = TextBody string | JsonBody json | NoBody

datatype http_reply = Reply status_code http_body | NotFound | Unprocessable

definition ser_station_response :: "string gas_station_response \<Rightarrow> json" where
  "ser_station_response r =
     JObject (ser_optional JString ''result'' (gsr_result r) @ ser_optional JString ''error'' (gsr_error r))"

text \<open>
  The router with the extractors: a body that does not decode is rejected before the handler.
\<close>

definition rpc_serve ::
  "('addr, 'id, 'dg, 'sig, 'eng) server_state \<Rightarrow> http_request \<Rightarrow>
     (('addr, 'id, 'dg, 'sig, 'eng, 'z) rpc_world_scheme, http_reply) prog"
where
  "rpc_serve server q =
     (let A = addr_lib (server_access_lib server); W = server_wire_lib server
      in case map_of routes (hreq_method q, hreq_path q) of
           None \<Rightarrow> pret NotFound
         | Some Health \<Rightarrow> pbind health (\<lambda>t. pret (Reply OK (TextBody t)))
         | Some Version \<Rightarrow> pbind (version server) (\<lambda>t. pret (Reply OK (TextBody t)))
         | Some DebugHealthCheck \<Rightarrow>
             pbind (debug_health_check server (request_token server q)) (\<lambda>t. pret (Reply OK (TextBody t)))
         | Some ReserveGas \<Rightarrow>
             (case de_reserve_request (hreq_body q) of
                Ok payload \<Rightarrow>
                  pbind (server_reserve_gas server (request_token server q) payload) (\<lambda>(status, response).
                  pret (Reply status (JsonBody (ser_reserve_response A W response))))
              | _ \<Rightarrow> pret Unprocessable)
         | Some ExecuteTx \<Rightarrow>
             (case de_execute_request (hreq_body q) of
                Ok payload \<Rightarrow>
                  pbind (server_execute_tx server (hreq_headers q) (request_token server q) payload)
                    (\<lambda>(status, response).
                  pret (Reply status (JsonBody (ser_execute_response W response))))
              | _ \<Rightarrow> pret Unprocessable)
         | Some ReloadAccessController \<Rightarrow>
             pbind (reload_access_controller server (request_token server q)) (\<lambda>(status, response).
             pret (Reply status (JsonBody (ser_station_response response)))))"

section \<open>The server\<close>

text \<open>
  The state of a new server: the secret comes from the environment, the libraries are those of
  \<open>libs\<close>. Without a secret there is a warning. The task that serves the router is left out.
\<close>

definition server_state_new ::
  "('addr, 'id, 'dg, 'sig, 'eng) server_state \<Rightarrow> string option \<Rightarrow> ('addr, 'id, 'dg) gas_station \<Rightarrow>
     stats_tracker \<Rightarrow> ('addr, 'id, 'dg, 'sig, 'eng) server_state"
where
  "server_state_new libs env station tracker =
     libs\<lparr>server_station := station, secret := read_auth_env env, server_tracker := tracker\<rparr>"

record gas_station_server =
  srv_rpc_port :: nat

definition auth_disabled_warning :: string where
  "auth_disabled_warning = '' environment variable is not set. Authorization is disabled! ''"

definition gas_station_server_new ::
  "('addr, 'id, 'dg, 'sig, 'eng) server_state \<Rightarrow> string option \<Rightarrow> ('addr, 'id, 'dg) gas_station \<Rightarrow>
     stats_tracker \<Rightarrow> nat \<Rightarrow>
     gas_station_server \<times> ('addr, 'id, 'dg, 'sig, 'eng) server_state \<times> string list"
where
  "gas_station_server_new libs env station tracker p =
     (let state = server_state_new libs env station tracker
      in (\<lparr>srv_rpc_port = p\<rparr>, state, if secret state = None then [auth_disabled_warning] else []))"

text \<open>There is a warning exactly when any token is accepted.\<close>

lemma warning_iff_open:
  "gas_station_server_new libs env station tracker p = (server, state, warnings) \<Longrightarrow>
     warnings \<noteq> [] \<longleftrightarrow> (\<forall>token. token_ok state token)"
  by (auto simp: gas_station_server_new_def Let_def token_ok_def split: option.splits if_splits)


end
