(* ===== verification/Rpc_Client.thy ===== *)
theory Rpc_Client
  imports Rpc_Server
begin

text \<open>
  The client of the RPC interface, \<open>src/src/rpc/client.rs\<close>, and the signers, \<open>src/src/tx_signer.rs\<close>.
  Both send HTTP requests; the transport is an argument, a program that answers a request, so that
  the client can be run against the model of the server (\<open>deliver\<close>). A path is the whole URL.
\<close>

record client_reply =
  reply_success :: bool
  reply_text :: "error + string"
  reply_json :: "error + json"
  reply_debug :: string

type_synonym 'w transport = "http_request \<Rightarrow> ('w, client_reply) prog"

text \<open>\<open>auth_env\<close> is the value of the environment variable, \<open>header_ok\<close> says what a header may hold.\<close>

record rpc_client =
  server_address :: string
  auth_env :: "string option"
  header_ok :: "string \<Rightarrow> bool"

definition client_new :: "string option \<Rightarrow> (string \<Rightarrow> bool) \<Rightarrow> string \<Rightarrow> rpc_client" where
  "client_new env ok address = \<lparr>server_address = address, auth_env = env, header_ok = ok\<rparr>"

text \<open>The header with the secret; a secret that is not a header value is a panic.\<close>

definition auth_header :: "rpc_client \<Rightarrow> string option result" where
  "auth_header self =
     (case read_auth_env (auth_env self) of
        None \<Rightarrow> Ok None
      | Some auth \<Rightarrow>
          if header_ok self (''Bearer '' @ auth) then Ok (Some auth)
          else Panic ''failed to parse header value'')"

definition insert_auth :: "string option \<Rightarrow> header_map \<Rightarrow> header_map" where
  "insert_auth token hs =
     (case token of None \<Rightarrow> hs | Some auth \<Rightarrow> header_insert ''authorization'' (''Bearer '' @ auth) hs)"

definition plain_request :: "http_method \<Rightarrow> string \<Rightarrow> string option \<Rightarrow> http_request" where
  "plain_request m url token =
     \<lparr>hreq_method = m, hreq_path = url, hreq_headers = insert_auth token [], hreq_body = JNull\<rparr>"

definition expect_ok :: "client_reply \<Rightarrow> unit result" where
  "expect_ok response =
     (if \<not> reply_success response then Err (Anyhow (''Health check failed: '' @ reply_debug response))
      else rbind (answer_of (reply_text response)) (\<lambda>t.
           if t = ''OK'' then Ok () else Err (Anyhow (''Health check failed: '' @ t))))"

definition client_health :: "'w transport \<Rightarrow> rpc_client \<Rightarrow> ('w, unit) prog" where
  "client_health send self =
     pbind (send (plain_request GET (server_address self @ ''/'') None)) (\<lambda>response.
     plift (expect_ok response))"

definition client_version :: "'w transport \<Rightarrow> rpc_client \<Rightarrow> ('w, string) prog" where
  "client_version send self =
     pbind (send (plain_request GET (server_address self @ ''/version'') None)) (\<lambda>response.
     plift (answer_of (reply_text response)))"

definition client_debug_health_check :: "'w transport \<Rightarrow> rpc_client \<Rightarrow> ('w, unit) prog" where
  "client_debug_health_check send self =
     pbind (plift (auth_header self)) (\<lambda>token.
     pbind (send (plain_request POST (server_address self @ ''/debug_health_check'') token)) (\<lambda>response.
     plift (expect_ok response)))"

definition client_reserve_gas ::
  "'addr addr_codec \<Rightarrow> ('addr, 'id, 'dg, 'sig) wire_lib \<Rightarrow> 'w transport \<Rightarrow> rpc_client \<Rightarrow> u64 \<Rightarrow> u64 \<Rightarrow>
     ('w, 'addr \<times> reservation_id \<times> ('id, 'dg) object_ref list) prog"
where
  "client_reserve_gas A W send self budget duration_secs =
     (let request = \<lparr>rg_gas_budget = budget, rg_reserve_duration_secs = duration_secs\<rparr>
      in pbind (plift (auth_header self)) (\<lambda>token.
         pbind (send ((plain_request POST (server_address self @ ''/v1/reserve_gas'') token)
                  \<lparr>hreq_body := ser_reserve_request request\<rparr>)) (\<lambda>r.
         pbind (plift (rbind (answer_of (reply_json r)) (de_reserve_response A W))) (\<lambda>response.
         case rgr_result response of
           Some result \<Rightarrow>
             pret (rr_sponsor_address result, rr_reservation_id result, rr_gas_coins result)
         | None \<Rightarrow>
             perr (Anyhow (case rgr_error response of Some e \<Rightarrow> e | None \<Rightarrow> ''Unknown error''))))))"

definition client_execute_tx ::
  "('addr, 'id, 'dg, 'sig) wire_lib \<Rightarrow> 'w transport \<Rightarrow> rpc_client \<Rightarrow> reservation_id \<Rightarrow>
     ('addr, 'id, 'dg) tx_data \<Rightarrow> 'sig \<Rightarrow> request_type option \<Rightarrow> header_map option \<Rightarrow>
     ('w, ('id, 'dg) tx_effects) prog"
where
  "client_execute_tx W send self rid d sig rt hs =
     pbind (plift (auth_header self)) (\<lambda>token.
     let request = \<lparr>et_reservation_id = rid, et_tx_bytes = base64_encode W (tx_to_bcs W d),
                     et_user_sig = base64_encode W (sig_to_bytes W sig), et_request_type = rt\<rparr>
     in pbind (send \<lparr>hreq_method = POST, hreq_path = server_address self @ ''/v1/execute_tx'',
                 hreq_headers = insert_auth token (case hs of None \<Rightarrow> [] | Some h \<Rightarrow> h),
                 hreq_body = ser_execute_request request\<rparr>) (\<lambda>r.
        pbind (plift (rbind (answer_of (reply_json r)) (de_execute_response W))) (\<lambda>response.
        case etr_effects response of
          Some effects \<Rightarrow> pret effects
        | None \<Rightarrow>
            perr (Anyhow (case etr_error response of Some e \<Rightarrow> e | None \<Rightarrow> ''Unknown error'')))))"

definition client_reload_access_controller :: "'w transport \<Rightarrow> rpc_client \<Rightarrow> ('w, unit) prog" where
  "client_reload_access_controller send self =
     pbind (plift (auth_header self)) (\<lambda>token.
     pbind (send (plain_request GET (server_address self @ ''/v1/reload_access_controller'') token))
       (\<lambda>response.
     if \<not> reply_success response
     then perr (Anyhow (''Reload access controller failed: '' @ reply_debug response))
     else pret ()))"

section \<open>A client at a server\<close>

text \<open>
  The server at an address as a transport. The HTTP library adds headers of its own to a request, such
  as the type and the length of the body, and prints a reply.
\<close>

record http_stack =
  own_headers :: "json \<Rightarrow> header_map"
  stack_debug :: "http_reply \<Rightarrow> string"

definition stack_ok :: "http_stack \<Rightarrow> bool" where
  "stack_ok K \<longleftrightarrow> (\<forall>body. header_values ''authorization'' (own_headers K body) = [])"

definition no_json :: error where "no_json = Foreign ''error decoding response body''"

definition reply_of :: "(http_reply \<Rightarrow> string) \<Rightarrow> http_reply \<Rightarrow> client_reply" where
  "reply_of debug r =
     (case r of
        Reply status body \<Rightarrow>
          \<lparr>reply_success = (status = OK),
           reply_text = (case body of TextBody t \<Rightarrow> Inr t | _ \<Rightarrow> Inr []),
           reply_json = (case body of JsonBody j \<Rightarrow> Inr j | _ \<Rightarrow> Inl no_json),
           reply_debug = debug r\<rparr>
      | _ \<Rightarrow> \<lparr>reply_success = False, reply_text = Inr [], reply_json = Inl no_json,
             reply_debug = debug r\<rparr>)"

definition deliver ::
  "http_stack \<Rightarrow> string \<Rightarrow> ('addr, 'id, 'dg, 'sig, 'eng) server_state \<Rightarrow>
     ('addr, 'id, 'dg, 'sig, 'eng, 'z) rpc_world_scheme transport"
where
  "deliver K address server q =
     (if starts_with address (hreq_path q)
      then pbind (rpc_serve server (q\<lparr>hreq_path := drop (length address) (hreq_path q),
                    hreq_headers := hreq_headers q @ own_headers K (hreq_body q)\<rparr>))
             (\<lambda>r. pret (reply_of (stack_debug K) r))
      else perr (Foreign ''connection refused''))"

text \<open>The client of a server on this machine.\<close>

definition get_local_client ::
  "string option \<Rightarrow> (string \<Rightarrow> bool) \<Rightarrow> gas_station_server \<Rightarrow> rpc_client"
where
  "get_local_client env ok self = client_new env ok (''http://localhost:'' @ show_nat (srv_rpc_port self))"

section \<open>Signers\<close>

text \<open>The sidecar answers its address and signs bytes; \<open>sig_from_text\<close> reads a signature.\<close>

record 'addr sidecar_tx_signer =
  sidecar_url :: string
  iota_address :: 'addr

definition de_address_response :: "'addr addr_codec \<Rightarrow> json \<Rightarrow> 'addr result" where
  "de_address_response A j =
     (case j of
        JObject fs \<Rightarrow> de_field (de_addr A) ''iotaPubkeyAddress'' fs
      | _ \<Rightarrow> de_error ''invalid type: expected struct IotaAddressResponse'')"

definition de_signature_response :: "json \<Rightarrow> string result" where
  "de_signature_response j =
     (case j of
        JObject fs \<Rightarrow> de_field de_string ''signature'' fs
      | _ \<Rightarrow> de_error ''invalid type: expected struct SignatureResponse'')"

text \<open>\<open>SidecarTxSigner::new\<close>: every failure is a panic with the message.\<close>

definition sidecar_new ::
  "'addr addr_codec \<Rightarrow> 'w transport \<Rightarrow> string \<Rightarrow> ('w, 'addr sidecar_tx_signer) prog"
where
  "sidecar_new A send url =
     pbind (ptry (send (plain_request GET (url @ ''/'' @ ''get-pubkey-address'') None))) (\<lambda>resp.
     case resp of
       Inl err \<Rightarrow> ppanic (''Failed to get pubkey address: '' @ error_to_string err)
     | Inr r \<Rightarrow>
         (case rbind (answer_of (reply_json r)) (de_address_response A) of
            Ok address \<Rightarrow> pret \<lparr>sidecar_url = url, iota_address = address\<rparr>
          | Err err \<Rightarrow> ppanic (''Failed to parse address response: '' @ error_to_string err)
          | Panic m \<Rightarrow> ppanic m
          | Hang \<Rightarrow> plift Hang))"

definition sidecar_sign_transaction ::
  "('addr, 'id, 'dg, 'sig) wire_lib \<Rightarrow> (string \<Rightarrow> error + 'sig) \<Rightarrow> 'w transport \<Rightarrow>
     'addr sidecar_tx_signer \<Rightarrow> ('addr, 'id, 'dg) tx_data \<Rightarrow> ('w, 'sig) prog"
where
  "sidecar_sign_transaction W sig_from_text send self d =
     (let bytes = base64_encode W (tx_to_bcs W d)
      in pbind (send \<lparr>hreq_method = POST, hreq_path = sidecar_url self @ ''/'' @ ''sign-transaction'',
                  hreq_headers = [(''content-type'', ''application/json'')],
                  hreq_body = JObject [(''txBytes'', JString bytes)]\<rparr>) (\<lambda>resp.
         pbind (plift (rbind (answer_of (reply_json resp)) de_signature_response)) (\<lambda>sig_bytes.
         plift (case sig_from_text sig_bytes of
                  Inl err \<Rightarrow> Err (Anyhow (error_to_string err))
                | Inr sig \<Rightarrow> Ok sig))))"

definition sidecar_get_address :: "'addr sidecar_tx_signer \<Rightarrow> 'addr" where
  "sidecar_get_address self = iota_address self"

definition is_valid_address :: "'addr \<Rightarrow> 'addr \<Rightarrow> bool" where
  "is_valid_address own address \<longleftrightarrow> own = address"

text \<open>The signer with a key in memory: signing and the address are operations of the crate.\<close>

record ('addr, 'id, 'dg, 'sig) test_tx_signer =
  keypair_sign :: "('addr, 'id, 'dg) tx_data \<Rightarrow> 'sig"
  keypair_address :: 'addr

definition test_sign_transaction ::
  "('addr, 'id, 'dg, 'sig) test_tx_signer \<Rightarrow> ('addr, 'id, 'dg) tx_data \<Rightarrow> ('w, 'sig) prog"
where
  "test_sign_transaction self d = pret (keypair_sign self d)"

definition test_get_address :: "('addr, 'id, 'dg, 'sig) test_tx_signer \<Rightarrow> 'addr" where
  "test_get_address self = keypair_address self"

end
