(* ===== verification/Migration.thy ===== *)
theory Migration
  imports Pool_Storage
begin

text \<open>
  The migration of \<open>src/src/storage/redis/migration.rs\<close> and its two scripts: a registry written by an
  older release lives under the wallet address, the current one under a namespace of the network and
  the wallet. \<open>RedisStorage::new\<close> moves the keys once. The keys that \<open>SCAN\<close> returns come in batches
  that Redis chooses, so they are an argument, as for the clean up of the registry.
\<close>

section \<open>Scripts\<close>

definition get_schema_version_lua :: "string \<Rightarrow> string \<Rightarrow> int option script" where
  "get_schema_version_lua old_prefix new_namespace =
     sbind (redis_get (k_schema new_namespace)) (\<lambda>schema_version.
       case schema_version of
         Some s \<Rightarrow> sret (lua_tonumber s)
       | None \<Rightarrow>
           sbind (redis_exists (k_initialized old_prefix)) (\<lambda>exists_initialized.
           if exists_initialized then sret (Some 0)
           else sbind (redis_llen (k_coins old_prefix)) (\<lambda>coins_len.
                if 0 < coins_len then sret (Some 0) else sret (Some (- 1)))))"

definition key_suffixes :: "string list" where
  "key_suffixes =
     [''available_gas_coins'', ''available_coin_total_balance'', ''available_coin_count'',
      ''expiration_queue'', ''next_reservation_id'', ''initialized'', ''init_lock'',
      ''maintenance_lock'']"

text \<open>A key is renamed unless its destination exists; the pair counts the moved and the skipped keys.\<close>

definition move_key :: "string \<Rightarrow> string \<Rightarrow> nat \<times> nat \<Rightarrow> string \<Rightarrow> (nat \<times> nat) script" where
  "move_key old_prefix new_namespace counts suffix =
     (let old_key = nkey old_prefix suffix; new_key = nkey new_namespace suffix
      in sbind (redis_exists new_key) (\<lambda>exists_new.
         if \<not> exists_new
         then sseq (redis_rename old_key new_key) (sret (Suc (fst counts), snd counts))
         else sret (fst counts, Suc (snd counts))))"

fun migrate_known :: "string \<Rightarrow> string \<Rightarrow> nat \<times> nat \<Rightarrow> string list \<Rightarrow> (nat \<times> nat) script" where
  "migrate_known old_prefix new_namespace counts [] = sret counts"
| "migrate_known old_prefix new_namespace counts (suffix # rest) =
     sbind (redis_exists (nkey old_prefix suffix)) (\<lambda>exists_old.
     sbind (if exists_old then move_key old_prefix new_namespace counts suffix else sret counts)
       (\<lambda>counts'. migrate_known old_prefix new_namespace counts' rest))"

text \<open>\<open>string.sub (old_key, prefix_len + 1)\<close>, and the test that the rest is a number.\<close>

fun migrate_reservations :: "string \<Rightarrow> string \<Rightarrow> nat \<times> nat \<Rightarrow> string list \<Rightarrow> (nat \<times> nat) script" where
  "migrate_reservations old_prefix new_namespace counts [] = sret counts"
| "migrate_reservations old_prefix new_namespace counts (old_key # rest) =
     (let suffix = drop (length old_prefix + 1) old_key
      in sbind (if lua_tonumber suffix \<noteq> None
                then move_key old_prefix new_namespace counts suffix
                else sret counts)
           (\<lambda>counts'. migrate_reservations old_prefix new_namespace counts' rest))"

definition migrate_keys_lua ::
  "string list list \<Rightarrow> string \<Rightarrow> string \<Rightarrow> (nat \<times> nat \<times> nat) script"
where
  "migrate_keys_lua batches old_prefix new_namespace =
     sbind (migrate_known old_prefix new_namespace (0, 0) key_suffixes) (\<lambda>counts.
     sbind (migrate_reservations old_prefix new_namespace counts (concat batches))
       (\<lambda>(migrated, skipped).
     sseq (redis_set (k_schema new_namespace) (show_int 1)) (sret (migrated, skipped, 0))))"

section \<open>The module\<close>

record migration_result =
  migrated_count :: int
  skipped_count :: int
  error_count :: int

definition is_success :: "migration_result \<Rightarrow> bool" where
  "is_success r \<longleftrightarrow> error_count r = 0"

definition has_migrations :: "migration_result \<Rightarrow> bool" where
  "has_migrations r \<longleftrightarrow> 0 < migrated_count r"

definition get_schema_version_script where "get_schema_version_script = get_schema_version_lua"
definition migrate_keys_script where "migrate_keys_script = migrate_keys_lua"

datatype schema_version_result = NotInitialized | OldFormat | Version int

text \<open>The reply is read as an \<open>i32\<close>; a missing or too large number is a conversion error.\<close>

definition reply_to_i32 :: "int option \<Rightarrow> int result" where
  "reply_to_i32 r =
     (case r of
        None \<Rightarrow> Err (Foreign ''Response was of incompatible type'')
      | Some i \<Rightarrow> if - (2 ^ 31) \<le> i \<and> i < 2 ^ 31 then Ok i
                  else Err (Foreign ''Response was of incompatible type''))"

definition get_schema_version ::
  "string \<Rightarrow> string \<Rightarrow> ('z world_scheme, schema_version_result) prog"
where
  "get_schema_version sponsor_address new_namespace =
     pbind (invoke (get_schema_version_script sponsor_address new_namespace)) (\<lambda>reply.
     pbind (plift (reply_to_i32 reply)) (\<lambda>result.
       if result = - 1 then pret NotInitialized
       else if result = 0 then pret OldFormat
       else pret (Version result)))"

definition migrate_keys ::
  "string list list \<Rightarrow> string \<Rightarrow> string \<Rightarrow> ('z world_scheme, migration_result) prog"
where
  "migrate_keys batches sponsor_address new_namespace =
     pbind (invoke (migrate_keys_script batches sponsor_address new_namespace))
       (\<lambda>(migrated, skipped, errors).
     pret \<lparr>migrated_count = int migrated, skipped_count = int skipped, error_count = int errors\<rparr>)"

definition maybe_migrate ::
  "string list list \<Rightarrow> string \<Rightarrow> string \<Rightarrow> ('z world_scheme, migration_result option) prog"
where
  "maybe_migrate batches sponsor_address new_namespace =
     pbind (get_schema_version sponsor_address new_namespace) (\<lambda>schema_version.
       case schema_version of
         NotInitialized \<Rightarrow> pret None
       | Version v \<Rightarrow> pret None
       | OldFormat \<Rightarrow>
           pbind (migrate_keys batches sponsor_address new_namespace) (\<lambda>result.
           pret (Some result)))"

text \<open>\<open>RedisStorage::maybe_migrate\<close> only logs the result.\<close>

definition storage_maybe_migrate ::
  "string list list \<Rightarrow> string \<Rightarrow> string \<Rightarrow> ('z world_scheme, unit) prog"
where
  "storage_maybe_migrate batches sponsor_address new_namespace =
     pbind (maybe_migrate batches sponsor_address new_namespace) (\<lambda>result. pret ())"

text \<open>
  \<open>RedisStorage::new\<close>: a URL that cannot be opened and a server that cannot be reached are panics;
  a migration that fails is only logged.
\<close>

definition redis_storage_new ::
  "bool \<Rightarrow> string list list \<Rightarrow> string \<Rightarrow> string \<Rightarrow> ('z world_scheme, redis_storage) prog"
where
  "redis_storage_new connects batches sponsor_str' namespace_prefix =
     (let ns = generate_namespace namespace_prefix
      in if \<not> connects then ppanic ''called `Result::unwrap()` on an `Err` value''
         else pbind (ptry (storage_maybe_migrate batches sponsor_str' ns)) (\<lambda>_.
              pret \<lparr>sponsor_str = sponsor_str', namespace = ns\<rparr>))"

section \<open>Moving keys\<close>

text \<open>
  \<open>moved old new S db0 db\<close>: \<open>db\<close> is \<open>db0\<close> with the keys of the suffixes \<open>S\<close> moved from \<open>old\<close> to \<open>new\<close>.
\<close>

definition moved :: "string \<Rightarrow> string \<Rightarrow> string set \<Rightarrow> keyspace \<Rightarrow> keyspace \<Rightarrow> bool" where
  "moved old new S db0 db \<longleftrightarrow>
     (\<forall>a. db (nkey new a) = (if a \<in> S then db0 (nkey old a) else None)) \<and>
     (\<forall>a. db (nkey old a) = (if a \<in> S then None else db0 (nkey old a)))"

definition apart :: "string \<Rightarrow> string \<Rightarrow> bool" where
  "apart old new \<longleftrightarrow> (\<forall>a b. nkey old a \<noteq> nkey new b)"

lemma apartD: "apart old new \<Longrightarrow> nkey old a \<noteq> nkey new b \<and> nkey new b \<noteq> nkey old a"
  by (metis apart_def)

lemma moved_insert:
  assumes "apart old new" and "moved old new S db0 db"
  shows "moved old new (insert a S) db0
    ((db(nkey old a := None))(nkey new a := (if a \<in> S then db (nkey new a) else db (nkey old a))))"
  using assms(2) apartD [OF assms(1)] by (auto simp: moved_def)

lemma moved_exists:
  "moved old new S db0 db \<Longrightarrow> db (nkey new a) \<noteq> None \<longleftrightarrow> a \<in> S \<and> db0 (nkey old a) \<noteq> None"
  by (simp add: moved_def)

lemma move_key_moved:
  assumes "apart old new" and "moved old new S db0 db" and "db0 (nkey old a) \<noteq> None"
  shows "\<exists>m' s' db'. move_key old new (m, s) a db = (Inr (m', s'), db') \<and>
    moved old new (insert a S) db0 db' \<and> m \<le> m' \<and> (a \<notin> S \<longrightarrow> m < m')"
proof (cases "a \<in> S")
  case True
  then have "db (nkey new a) \<noteq> None" using moved_exists [OF assms(2), of a] assms(3) by simp
  with True assms(2) show ?thesis
    by (auto simp: move_key_def Let_def redis_exists_def sbind_def sret_def insert_absorb)
next
  case False
  then have n: "db (nkey new a) = None" and o: "db (nkey old a) = db0 (nkey old a)"
    using assms(2) by (simp_all add: moved_def)
  have ne: "nkey old a \<noteq> nkey new a" using assms(1) by (simp add: apart_def)
  obtain v where v: "db (nkey old a) = Some v" using o assms(3) by auto
  have "move_key old new (m, s) a db =
      (Inr (Suc m, s), (db(nkey old a := None))(nkey new a \<mapsto> v))"
    using n v ne by (simp add: move_key_def Let_def redis_exists_def sbind_def sseq_def sret_def redis_rename_def)
  moreover have "moved old new (insert a S) db0 ((db(nkey old a := None))(nkey new a \<mapsto> v))"
    using moved_insert [OF assms(1,2), of a] False v by simp
  ultimately show ?thesis by auto
qed

lemma moved_absent:
  "moved old new S db0 db \<Longrightarrow> db0 (nkey old a) = None \<Longrightarrow> moved old new (insert a S) db0 db"
  by (auto simp: moved_def)

lemma moved_old: "moved old new S db0 db \<Longrightarrow>
    db (nkey old a) \<noteq> None \<longleftrightarrow> a \<notin> S \<and> db0 (nkey old a) \<noteq> None"
  by (simp add: moved_def)

lemma migrate_known_moved:
  assumes "apart old new"
  shows "moved old new S db0 db \<Longrightarrow>
    \<exists>m' s' db'. migrate_known old new (m, s) ks db = (Inr (m', s'), db') \<and>
      moved old new (S \<union> set ks) db0 db' \<and> m \<le> m' \<and>
      ((\<exists>a \<in> set ks. a \<notin> S \<and> db0 (nkey old a) \<noteq> None) \<longrightarrow> m < m')"
proof (induction ks arbitrary: S m s db)
  case Nil
  then show ?case by (simp add: sret_def)
next
  case (Cons a ks)
  consider "db (nkey old a) = None" | "db (nkey old a) \<noteq> None" by blast
  then show ?case
  proof cases
    case 1
    have "a \<in> S \<or> db0 (nkey old a) = None" using 1 moved_old [OF Cons.prems, of a] by simp
    then have "moved old new (insert a S) db0 db"
      using Cons.prems moved_absent [OF Cons.prems, of a] by (auto simp: insert_absorb)
    then obtain m' s' db' where run: "migrate_known old new (m, s) ks db = (Inr (m', s'), db')"
      and mv: "moved old new (insert a S \<union> set ks) db0 db'" "m \<le> m'"
      and lt: "(\<exists>x \<in> set ks. x \<notin> insert a S \<and> db0 (nkey old x) \<noteq> None) \<longrightarrow> m < m'"
      using Cons.IH [of "insert a S" db m s] by blast
    have "m < m'" if "\<exists>x \<in> set (a # ks). x \<notin> S \<and> db0 (nkey old x) \<noteq> None"
    proof -
      from that obtain x where x: "x \<in> set (a # ks)" "x \<notin> S" "db0 (nkey old x) \<noteq> None" by blast
      then have "x \<noteq> a" using \<open>a \<in> S \<or> db0 (nkey old a) = None\<close> by auto
      with x have "\<exists>x \<in> set ks. x \<notin> insert a S \<and> db0 (nkey old x) \<noteq> None" by force
      with lt show ?thesis by (rule mp)
    qed
    with run mv 1 show ?thesis by (simp add: redis_exists_def sbind_def sret_def)
  next
    case 2
    then have a: "a \<notin> S" "db0 (nkey old a) \<noteq> None" using moved_old [OF Cons.prems, of a] by auto
    obtain m1 s1 db1 where step: "move_key old new (m, s) a db = (Inr (m1, s1), db1)"
      and m1: "moved old new (insert a S) db0 db1" "m < m1"
      using move_key_moved [OF assms Cons.prems a(2), of m s] a(1) by auto
    from Cons.IH [OF m1(1), of m1 s1] m1(2) 2 step show ?thesis
      by (fastforce simp: redis_exists_def sbind_def)
  qed
qed

lemma migrate_reservations_moved:
  assumes "apart old new"
  shows "moved old new S db0 db \<Longrightarrow> \<forall>k \<in> set ks. \<exists>a. k = nkey old a \<and> db0 k \<noteq> None \<Longrightarrow>
    \<exists>m' s' db'. migrate_reservations old new (m, s) ks db = (Inr (m', s'), db') \<and>
      moved old new (S \<union> {a. nkey old a \<in> set ks \<and> lua_tonumber a \<noteq> None}) db0 db' \<and> m \<le> m'"
proof (induction ks arbitrary: S m s db)
  case Nil
  then show ?case by (simp add: sret_def)
next
  case (Cons k ks)
  obtain a where a: "k = nkey old a" "db0 (nkey old a) \<noteq> None" using Cons.prems(2) by auto
  have sfx: "drop (length old + 1) k = a" by (simp add: a(1) nkey_def)
  have prems: "\<forall>k \<in> set ks. \<exists>a. k = nkey old a \<and> db0 k \<noteq> None" using Cons.prems(2) by simp
  show ?case
  proof (cases "lua_tonumber a")
    case None
    then have "{x. nkey old x \<in> set (k # ks) \<and> lua_tonumber x \<noteq> None} =
        {x. nkey old x \<in> set ks \<and> lua_tonumber x \<noteq> None}"
      using a(1) by auto
    with Cons.IH [OF Cons.prems(1) prems, of m s] sfx None show ?thesis
      by (simp add: Let_def sbind_def sret_def)
  next
    case (Some n)
    obtain m1 s1 db1 where step: "move_key old new (m, s) a db = (Inr (m1, s1), db1)"
      and m1: "moved old new (insert a S) db0 db1" "m \<le> m1"
      using move_key_moved [OF assms Cons.prems(1) a(2), of m s] by auto
    have "insert a S \<union> {x. nkey old x \<in> set ks \<and> lua_tonumber x \<noteq> None} =
        S \<union> {x. nkey old x \<in> set (k # ks) \<and> lua_tonumber x \<noteq> None}"
      using a(1) Some by auto
    with Cons.IH [OF m1(1) prems, of m1 s1] m1(2) sfx Some step show ?thesis
      by (auto simp: Let_def sbind_def)
  qed
qed

text \<open>A pool is what its keys say: where the keys of two namespaces agree, so do the pools.\<close>

lemma queue_rel_cong: "db k = db' k' \<Longrightarrow> queue_rel db k q = queue_rel db' k' q"
  by (simp add: queue_rel_def)

lemma lock_rel_cong: "db k = db' k' \<Longrightarrow> lock_rel db k l = lock_rel db' k' l"
  by (simp add: lock_rel_def)

lemma next_rel_cong: "db k = db' k' \<Longrightarrow> next_rel db k n = next_rel db' k' n"
  by (simp add: next_rel_def)

lemma pool_rel_renamed:
  assumes "pool_rel C old db p" and "schema_ok new db'"
    and "\<And>a. a \<in> set key_suffixes \<Longrightarrow> db' (nkey new a) = db (nkey old a)"
    and "\<And>i. db' (nkey new (show_nat i)) = db (nkey old (show_nat i))"
  shows "pool_rel C new db' p"
proof -
  have k: "db' (nkey new a) = db (nkey old a)"
    if "a \<in> set key_suffixes" for a
    using assms(3) that by blast
  have sfx: "''available_gas_coins'' \<in> set key_suffixes" "''available_coin_total_balance'' \<in> set key_suffixes"
    "''available_coin_count'' \<in> set key_suffixes" "''expiration_queue'' \<in> set key_suffixes"
    "''next_reservation_id'' \<in> set key_suffixes" "''init_lock'' \<in> set key_suffixes"
    "''maintenance_lock'' \<in> set key_suffixes"
    by (simp_all add: key_suffixes_def)
  show ?thesis
    using assms(1,2) unfolding pool_rel_def assms(4) sfx [THEN k]
      queue_rel_cong [of db' "k_queue new" db "k_queue old", OF sfx(4) [THEN k]]
      next_rel_cong [of db' "k_next new" db "k_next old", OF sfx(5) [THEN k]]
      lock_rel_cong [of db' "k_init_lock new" db "k_init_lock old", OF sfx(6) [THEN k]]
      lock_rel_cong [of db' "k_maintenance new" db "k_maintenance old", OF sfx(7) [THEN k]]
    by blast
qed


section \<open>The migration keeps the pool\<close>

text \<open>
  What Redis guarantees of the full \<open>SCAN\<close> with the pattern \<open>prefix:[0-9]*\<close> inside the script:
  every reservation is returned, possibly more than once, and only existing keys of the prefix are.
\<close>

definition reservation_scan :: "string \<Rightarrow> keyspace \<Rightarrow> string list list \<Rightarrow> bool" where
  "reservation_scan old db batches \<longleftrightarrow>
     (\<forall>i. db (nkey old (show_nat i)) \<noteq> None \<longrightarrow> nkey old (show_nat i) \<in> set (concat batches)) \<and>
     (\<forall>k \<in> set (concat batches). \<exists>a. k = nkey old a \<and> db k \<noteq> None)"

lemma migrate_keys_lua_rel:
  assumes "apart old new" and "pool_rel C old db p" and "\<forall>a. db (nkey new a) = None"
    and "reservation_scan old db batches"
  shows "\<exists>m s db'. migrate_keys_lua batches old new db = (Inr (m, s, 0), db') \<and> 0 < m \<and>
    pool_rel C new db' p \<and> db' (k_schema new) = Some (RString (show_int 1)) \<and>
    (\<forall>a \<in> set key_suffixes. db' (nkey old a) = None) \<and> (\<forall>i. db' (nkey old (show_nat i)) = None) \<and>
    (\<forall>a. a \<notin> set key_suffixes \<and> lua_tonumber a = None \<longrightarrow> db' (nkey old a) = db (nkey old a))"
proof -
  have m0: "moved old new {} db db" using assms(3) by (simp add: moved_def)
  obtain m1 s1 db1 where run1: "migrate_known old new (0, 0) key_suffixes db = (Inr (m1, s1), db1)"
    and mv1: "moved old new (set key_suffixes) db db1"
    and pos: "(\<exists>a \<in> set key_suffixes. db (nkey old a) \<noteq> None) \<longrightarrow> 0 < m1"
    using migrate_known_moved [OF assms(1) m0, of 0 0 key_suffixes] by auto
  have scan: "\<forall>k \<in> set (concat batches). \<exists>a. k = nkey old a \<and> db k \<noteq> None"
    using assms(4) by (simp add: reservation_scan_def)
  define S where "S = set key_suffixes \<union> {a. nkey old a \<in> set (concat batches) \<and> lua_tonumber a \<noteq> None}"
  obtain m2 s2 db2 where run2: "migrate_reservations old new (m1, s1) (concat batches) db1 = (Inr (m2, s2), db2)"
    and mv2: "moved old new S db db2" and le: "m1 \<le> m2"
    using migrate_reservations_moved [OF assms(1) mv1 scan, of m1 s1] unfolding S_def by blast
  define db3 where "db3 = db2(k_schema new \<mapsto> RString (show_int 1))"
  have "migrate_keys_lua batches old new db = (Inr (m2, s2, 0), db3)"
    by (simp add: migrate_keys_lua_def sbind_def sseq_def sret_def run1 run2 redis_set_def db3_def)
  moreover have "0 < m2"
    using pos le pool_relD(2) [OF assms(2)] by (auto simp: key_suffixes_def)
  moreover have "pool_rel C new db3 p"
  proof (rule pool_rel_renamed [OF assms(2)])
    show "schema_ok new db3" by (simp add: db3_def)
    fix a assume a: "a \<in> set key_suffixes"
    then have "a \<noteq> ''schema_version''" by (auto simp: key_suffixes_def)
    with a mv2 show "db3 (nkey new a) = db (nkey old a)"
      by (simp add: db3_def moved_def S_def)
  next
    fix i
    have "show_nat i \<in> S \<or> db (nkey old (show_nat i)) = None"
      using assms(4) by (auto simp: S_def reservation_scan_def lua_tonumber_show_nat)
    moreover have "show_nat i \<noteq> ''schema_version''" by (simp add: show_nat_neq_Cons)
    ultimately show "db3 (nkey new (show_nat i)) = db (nkey old (show_nat i))"
      using mv2 by (auto simp: db3_def moved_def)
  qed
  moreover have "db3 (k_schema new) = Some (RString (show_int 1))" by (simp add: db3_def)
  moreover have "\<forall>a \<in> set key_suffixes. db3 (nkey old a) = None"
    using mv2 apartD [OF assms(1)] by (auto simp: db3_def moved_def S_def)
  moreover have "db3 (nkey old (show_nat i)) = None" for i
  proof -
    have "show_nat i \<in> S \<or> db (nkey old (show_nat i)) = None"
      using assms(4) by (auto simp: S_def reservation_scan_def lua_tonumber_show_nat)
    with mv2 show ?thesis using apartD [OF assms(1)] by (auto simp: db3_def moved_def)
  qed
  moreover have "db3 (nkey old a) = db (nkey old a)" if "a \<notin> set key_suffixes" "lua_tonumber a = None" for a
    using that mv2 apartD [OF assms(1)] by (simp add: db3_def moved_def S_def)
  ultimately show ?thesis by blast
qed

lemma get_schema_version_set:
  "keys w (k_schema new) = Some (RString (show_int 1)) \<Longrightarrow> faults w = [] \<Longrightarrow>
     get_schema_version old new w = (Ok (Version 1), w)"
  by (simp add: get_schema_version_def get_schema_version_script_def get_schema_version_lua_def
      invoke_def redis_get_def sbind_def sret_def lua_tonumber_show_int lua_num_exact reply_to_i32_def)

lemma get_schema_version_old:
  assumes "keys w (k_schema new) = None" and "keys w (k_initialized old) \<noteq> None" and "faults w = []"
  shows "get_schema_version old new w = (Ok OldFormat, w)"
  using assms by (simp add: get_schema_version_def get_schema_version_script_def
      get_schema_version_lua_def invoke_def redis_get_def redis_exists_def sbind_def sret_def reply_to_i32_def)

text \<open>
  C27: Connecting to a registry of the old format carries the whole pool over: after
  \<open>RedisStorage::new\<close> the new namespace represents exactly the pool that the old prefix
  represented, coins, statistics, reservations, expiration queue, ids and locks. Neither a registry key
  nor a reservation is left under the old prefix, and a key there whose suffix is neither a name of the
  registry nor a number stays as it was. The key of the schema version holds 1, so that the migration
  does not run again.
\<close>

theorem migration_moves_pool:
  assumes "apart old (generate_namespace prefix)" and "faults w = []"
    and "pool_rel C old (keys w) p" and "keys w (k_initialized old) \<noteq> None"
    and "\<forall>a. keys w (nkey (generate_namespace prefix) a) = None"
    and "reservation_scan old (keys w) batches"
  shows "\<exists>self w'. redis_storage_new True batches old prefix w = (Ok self, w') \<and>
    self = \<lparr>sponsor_str = old, namespace = generate_namespace prefix\<rparr> \<and>
    pool_rel C (namespace self) (keys w') p \<and>
    (\<forall>a \<in> set key_suffixes. keys w' (nkey old a) = None) \<and>
    (\<forall>i. keys w' (nkey old (show_nat i)) = None) \<and>
    (\<forall>a. a \<notin> set key_suffixes \<and> lua_tonumber a = None \<longrightarrow> keys w' (nkey old a) = keys w (nkey old a)) \<and>
    keys w' (k_schema (namespace self)) = Some (RString ''1'') \<and>
    maybe_migrate batches old (namespace self) w' = (Ok None, w')"
proof -
  obtain m s db' where run: "migrate_keys_lua batches old (generate_namespace prefix) (keys w) =
      (Inr (m, s, 0), db')"
    and db': "pool_rel C (generate_namespace prefix) db' p"
      "db' (k_schema (generate_namespace prefix)) = Some (RString (show_int 1))"
      "\<forall>a \<in> set key_suffixes. db' (nkey old a) = None" "\<forall>i. db' (nkey old (show_nat i)) = None"
      "\<forall>a. a \<notin> set key_suffixes \<and> lua_tonumber a = None \<longrightarrow> db' (nkey old a) = keys w (nkey old a)"
    using migrate_keys_lua_rel [OF assms(1,3,5,6)] by blast
  have one: "show_int 1 = ''1''" by (simp add: show_int_def show_nat_less digit_char_def)
  have version: "get_schema_version old (generate_namespace prefix) w = (Ok OldFormat, w)"
    using assms(2,4,5) by (intro get_schema_version_old) auto
  have "redis_storage_new True batches old prefix w =
      (Ok \<lparr>sponsor_str = old, namespace = generate_namespace prefix\<rparr>, w\<lparr>keys := db'\<rparr>)"
    by (simp add: redis_storage_new_def Let_def storage_maybe_migrate_def maybe_migrate_def version
        migrate_keys_def migrate_keys_script_def
        invoke_quiet [where s = "migrate_keys_lua batches old (generate_namespace prefix)", OF assms(2) run])
  moreover have "get_schema_version old (generate_namespace prefix) (w\<lparr>keys := db'\<rparr>) =
      (Ok (Version 1), w\<lparr>keys := db'\<rparr>)"
    using db'(2) assms(2) by (intro get_schema_version_set) simp_all
  ultimately show ?thesis using db' one
    by (intro exI [of _ "\<lparr>sponsor_str = old, namespace = generate_namespace prefix\<rparr>"]
        exI [of _ "w\<lparr>keys := db'\<rparr>"]) (simp add: maybe_migrate_def)
qed

text \<open>
  A storage that cannot tell what it holds is left as it is: when the version request fails, or
  the namespace already has a version, or neither namespace has data, the migration changes no key.
\<close>

lemma migration_only_from_old_format:
  assumes "get_schema_version old (generate_namespace prefix) w = (r, w1)" and "r \<noteq> Ok OldFormat"
  shows "\<exists>w'. redis_storage_new True batches old prefix w =
      (Ok \<lparr>sponsor_str = old, namespace = generate_namespace prefix\<rparr>, w') \<and> keys w' = keys w"
proof -
  have "keys w1 = keys w"
  proof -
    have "keys (snd (invoke (get_schema_version_script old (generate_namespace prefix)) w)) = keys w"
      using invoke_db [of "get_schema_version_script old (generate_namespace prefix)" w]
      by (auto simp: get_schema_version_script_def get_schema_version_lua_def sbind_def sret_def
          redis_get_def redis_exists_def redis_llen_def redis_lall_def
          split: option.splits rval.splits prod.splits sum.splits)
    then show ?thesis
      using assms(1) by (auto simp: get_schema_version_def split: prod.splits result.splits if_splits)
  qed
  moreover have "fst (get_schema_version old (generate_namespace prefix) w) \<noteq> Panic x"
    "fst (get_schema_version old (generate_namespace prefix) w) \<noteq> Hang" for x
    by (auto simp: get_schema_version_def invoke_def reply_to_i32_def Let_def
        split: prod.splits result.splits if_splits fault.splits sum.splits option.splits)
  ultimately show ?thesis
    using assms by (cases r; auto simp: redis_storage_new_def Let_def storage_maybe_migrate_def
        maybe_migrate_def split: schema_version_result.splits)
qed


section \<open>An example\<close>

text \<open>The registry of the examples, with a coin lent, as the old format of another namespace.\<close>

lemma ex_old_registry:
  "apart (namespace ex_self) (generate_namespace ''m'')"
  "faults ex_lent_world = []"
  "keys ex_lent_world (k_initialized (namespace ex_self)) \<noteq> None"
  "keys ex_lent_world (nkey (generate_namespace ''m'') a) = None"
  by (simp_all add: apart_def generate_namespace_def nkey_def ex_lent_world_def ex_stocked_def exec_simps)

lemma ex_old_scan:
  "reservation_scan (namespace ex_self) (keys ex_lent_world) [[nkey (namespace ex_self) (show_nat 1)]]"
proof -
  have "keys ex_lent_world (nkey (namespace ex_self) (show_nat i)) = resv_val nat_codec (reserved ex_lent i)" for i
    by (rule pool_relD(4) [OF ex_lent_rel(1)])
  moreover have "reserved ex_lent i \<noteq> None \<longleftrightarrow> i = 1" for i
    using ex_stock_simps by (simp add: ex_lent_def reserve_pool_def)
  ultimately show ?thesis by (auto simp: reservation_scan_def resv_val_def)
qed

theorem migration_moves_pool_witness:
  "\<exists>self w'. redis_storage_new True [[nkey (namespace ex_self) (show_nat 1)]] (namespace ex_self) ''m''
      ex_lent_world = (Ok self, w') \<and> pool_rel nat_codec ''m:registry'' (keys w') ex_lent"
proof -
  have "\<forall>a. keys ex_lent_world (nkey (generate_namespace ''m'') a) = None"
    using ex_old_registry(4) by blast
  from migration_moves_pool [OF ex_old_registry(1,2) ex_lent_rel(1) ex_old_registry(3) this ex_old_scan]
  show ?thesis by (auto simp: generate_namespace_def)
qed

end
