(* ===== verification/Command.thy ===== *)
theory Command
  imports Rpc_Client Migration
begin

text \<open>
  Starting the server: \<open>Command::execute\<close> of \<open>src/src/command.rs\<close>, with the constructors of the station
  and its container (\<open>src/src/gas_station/gas_station_core.rs\<close>). The steps run in the order of the code:
  configuration, signer, storage with its migration, the comparison of the cold parameters, the
  initializer, the cold parameters again, the station, the access controller, the server.

  \<open>boot\<close> holds what comes from outside: the libraries, the signer the configuration leads to, whether
  the connections can be made, and the order in which SCAN hands out keys.
\<close>

record start_command =
  ignore_locks :: bool
  allow_reinit :: bool
  delete_coin_registry :: bool

record ('addr, 'id, 'dg, 'sig, 'eng) boot =
  boot_codec :: "('id, 'dg) codec"
  boot_latest_ms :: int
  boot_show_address :: "'addr \<Rightarrow> string"
  boot_fuel :: nat
  boot_json :: json_lib
  boot_framework :: 'id
  boot_batches :: "string list list"
  boot_urls :: "string \<Rightarrow> parsed_url option"
  redis_connects :: bool
  node_connects :: bool
  boot_server :: "('addr, 'id, 'dg, 'sig, 'eng) server_state"
  boot_auth_env :: "string option"

section \<open>The station and its container\<close>

definition gas_station_new ::
  "('id, 'dg) codec \<Rightarrow> int \<Rightarrow> ('addr \<Rightarrow> string) \<Rightarrow> nat \<Rightarrow> 'addr \<Rightarrow> redis_storage \<Rightarrow> u64 \<Rightarrow> u64 \<Rightarrow>
     ('addr, 'id, 'dg) gas_station"
where
  "gas_station_new C latest sh fl signer store budget target =
     \<lparr>codec = C, latest_ms = latest, signer_address = signer, show_address = sh,
      gas_station_store = store, max_gas_budget = budget, target_init_balance = target, fuel = fl\<rparr>"

text \<open>
  The container starts the task that returns expired coins and holds the sender that cancels it;
  the usage cap starts with the date of today.
\<close>

record ('addr, 'id, 'dg) gas_station_container =
  container_inner :: "('addr, 'id, 'dg) gas_station"
  cancel_sender :: bool

definition container_new ::
  "('addr, 'id, 'dg) gas_station \<Rightarrow> u64 \<Rightarrow>
     (('addr, 'id, 'dg, 'sig, 'z) station_world_scheme, ('addr, 'id, 'dg) gas_station_container) prog"
where
  "container_new st cap =
     pbind today (\<lambda>d.
     pseq (pmodify (\<lambda>w. w\<lparr>usage_cap := gas_usage_cap_new cap d\<rparr>))
       (pret \<lparr>container_inner = st, cancel_sender = True\<rparr>))"

definition get_gas_station_arc ::
  "('addr, 'id, 'dg) gas_station_container \<Rightarrow> ('addr, 'id, 'dg) gas_station"
where
  "get_gas_station_arc self = container_inner self"

text \<open>Dropping the container takes the sender; a second drop would panic.\<close>

definition container_drop ::
  "('addr, 'id, 'dg) gas_station_container \<Rightarrow> ('addr, 'id, 'dg) gas_station_container result"
where
  "container_drop self =
     (if cancel_sender self then Ok (self\<lparr>cancel_sender := False\<rparr>)
      else Panic ''called `Option::unwrap()` on a `None` value'')"

section \<open>The start\<close>

definition get_cold_params_key :: "string \<Rightarrow> string" where
  "get_cold_params_key namespace_prefix = namespace_prefix @ '':cold_params''"

definition reinit_not_allowed_message :: "string list \<Rightarrow> string" where
  "reinit_not_allowed_message changes =
     ''Configuration changes requiring re-initialization detected: '' @ join_with '', '' changes @
     '' but automatic reinitialization is not allowed. Please restart the gas station with the --allow-reinit flag to allow full rescan.''"

definition force_full_rescan_of :: "start_command \<Rightarrow> string list \<Rightarrow> bool result" where
  "force_full_rescan_of self changes =
     (if changes \<noteq> [] then
        if \<not> allow_reinit self then Panic (reinit_not_allowed_message changes) else Ok True
      else Ok (delete_coin_registry self \<and> allow_reinit self))"

text \<open>From the cold parameters to the end of the initialisation; the storage is connected.\<close>

definition coin_init ::
  "('addr, 'id, 'dg, 'sig, 'eng) boot \<Rightarrow> start_command \<Rightarrow> ('addr, 'id, 'dg) gas_station \<Rightarrow>
     coin_init_config option \<Rightarrow> cold_params \<Rightarrow> string \<Rightarrow>
     (('addr, 'id, 'dg, 'sig, 'eng, 'z) rpc_world_scheme, unit) prog"
where
  "coin_init B self st init cold key =
     pbind (punwrap (check_if_changed (boot_json B) cold key)) (\<lambda>changes.
     pbind (plift (force_full_rescan_of self changes)) (\<lambda>force.
     pseq (case init of
             None \<Rightarrow> pret ()
           | Some cfg \<Rightarrow>
               initializer_start (boot_batches B) st (boot_framework B) (target_init_balance_cfg cfg)
                 force (ignore_locks self))
       (punwrap (save_to_storage (boot_json B) cold key))))"

definition command_execute ::
  "('addr, 'id, 'dg, 'sig, 'eng) boot \<Rightarrow>
     (tx_signer_config \<Rightarrow> (('addr, 'id, 'dg, 'sig, 'eng, 'z) rpc_world_scheme, 'addr) prog) \<Rightarrow>
     start_command \<Rightarrow>
     (('addr, 'id, 'dg, 'sig, 'eng, 'z) rpc_world_scheme,
      ('addr, 'id, 'dg, 'sig, 'eng) server_state) prog"
where
  "command_execute B new_signer self =
     pbind (punwrap (load_config (boot_server B))) (\<lambda>config.
     let cold = cold_params_from_config config
     in pbind (new_signer (signer_config config)) (\<lambda>sponsor.
        pbind (plift (get_storage_namespace (boot_urls B) (fullnode_url config)
                 (boot_show_address B sponsor))) (\<lambda>prefix.
        pbind (redis_storage_new (redis_connects B) (boot_batches B) (boot_show_address B sponsor) prefix)
          (\<lambda>storage0.
        pbind (connect_storage storage0) (\<lambda>storage.
        pseq (pwhen (\<not> node_connects B) (ppanic ''called `Result::unwrap()` on an `Err` value'')) (
        let target = target_init_balance_cfg
              (case coin_init_config config of Some c \<Rightarrow> c | None \<Rightarrow> default_coin_init_config);
            st = gas_station_new (boot_codec B) (boot_latest_ms B) (boot_show_address B) (boot_fuel B)
              sponsor storage (max_gas_budget_cfg config) target
        in pseq (pmodify (\<lambda>w. w\<lparr>rescan := create_receiver rescan_new\<rparr>)) (
           pseq (coin_init B self st (coin_init_config config) cold (get_cold_params_key prefix)) (
           let tracker = connect_stats_storage (tracker_redis (server_tracker (boot_server B))) prefix
           in pbind (container_new st (daily_gas_usage_cap config)) (\<lambda>container.
              pbind (controller_initialize (server_access_lib (boot_server B))
                       (access_controller_cfg config)) (\<lambda>(r, ctl).
              pseq (punwrap (plift r)) (
              pseq (install_controller ctl)
                (case gas_station_server_new (boot_server B) (boot_auth_env B)
                        (get_gas_station_arc container) tracker (rpc_port config) of
                   (server, state, warnings) \<Rightarrow> pret state))))))))))))"

end
