(* ===== verification/Station_Props.thy ===== *)
theory Station_Props
  imports Gas_Station_Core
begin

text \<open>
  What the station does to the pool: requests that fail a check touch nothing, only a checked
  transaction whose reservation was consumed reaches the signer and the node, and the coins of a
  transaction come back exactly once, or stay out for the rescan.
\<close>

section \<open>Frames of node requests and storage calls\<close>

definition store_part :: "'z world_scheme \<Rightarrow> keyspace \<times> fault list \<times> int list" where
  "store_part w = (keys w, faults w, clock w)"

lemma keeps_ask:
  assumes "\<And>w cs. P w \<Longrightarrow> P (w\<lparr>calls := cs @ [c]\<rparr>) \<or> calls w \<noteq> cs"
    and "\<And>w as. P w \<Longrightarrow> P (put as w)"
  shows "keeps P (ask c get put)"
proof (rule keepsI)
  fix w assume "P w"
  then have "P (w\<lparr>calls := calls w @ [c]\<rparr>)" using assms(1) by blast
  then show "P (snd (ask c get put w))"
    using assms(2) by (auto simp: ask_def Let_def split: list.splits sum.splits)
qed

lemma keeps_store_api [keeps_rules]:
  "keeps (\<lambda>w. store_part w = s) (api_get_coins a c)"
  "keeps (\<lambda>w. store_part w = s) api_get_price"
  "keeps (\<lambda>w. store_part w = s) (api_multi_get ids)"
  "keeps (\<lambda>w. store_part w = s) (api_dev_inspect cmds)"
  "keeps (\<lambda>w. store_part w = s) (api_execute tx rt)"
  "keeps (\<lambda>w. store_part w = s) (sign_transaction d)"
  unfolding api_defs by (rule keeps_ask; simp add: store_part_def)+

lemma keeps_store_latest [keeps_rules]:
  "keeps (\<lambda>w. store_part w = s) (get_latest_gas_objects n ids)"
  unfolding get_latest_gas_objects_def get_chunk_def by (intro keeps_rules)

lemma keeps_store_total [keeps_rules]:
  "keeps (\<lambda>w. store_part w = s) (get_total_gas_coin_balance st ids)"
  unfolding get_total_gas_coin_balance_def by (intro keeps_rules)

lemma keeps_store_emit [keeps_rules]: "keeps (\<lambda>w. store_part w = s) (emit m)"
  by (intro keeps_emit) (simp add: store_part_def)

lemma keeps_today [keeps_rules]:
  "(\<And>w ds. P w \<Longrightarrow> P (w\<lparr>dates := ds\<rparr>)) \<Longrightarrow> keeps P today"
  by (auto simp: keeps_def today_def split: list.splits)

lemma keeps_update_usage [keeps_rules]:
  assumes "\<And>w ds. P w \<Longrightarrow> P (w\<lparr>dates := ds\<rparr>)" and "\<And>w c. P w \<Longrightarrow> P (w\<lparr>usage_cap := c\<rparr>)"
  shows "keeps P (station_update_usage u)"
  unfolding station_update_usage_def
proof (rule keeps_pbind)
  show "keeps P today" by (rule keeps_today) (rule assms(1))
  show "keeps P (\<lambda>w. case update_usage d u (usage_cap w) of (new, c) \<Rightarrow> (Ok new, w\<lparr>usage_cap := c\<rparr>))" for d
    by (rule keepsI) (simp add: assms(2) split: prod.splits)
qed

lemma keeps_check_usage [keeps_rules]:
  assumes "\<And>w ds. P w \<Longrightarrow> P (w\<lparr>dates := ds\<rparr>)" and "\<And>w c. P w \<Longrightarrow> P (w\<lparr>usage_cap := c\<rparr>)"
  shows "keeps P station_check_usage"
  unfolding station_check_usage_def
proof (rule keeps_pbind)
  show "keeps P today" by (rule keeps_today) (rule assms(1))
  show "keeps P (\<lambda>w. case check_usage d (usage_cap w) of (r, c) \<Rightarrow> (r, w\<lparr>usage_cap := c\<rparr>))" for d
    by (rule keepsI) (simp add: assms(2) split: prod.splits)
qed

lemma keeps_store_impl [keeps_rules]:
  "keeps (\<lambda>w. store_part w = s) (execute_transaction_impl st d sig rt)"
  unfolding execute_transaction_impl_def client_execute_transaction_def Let_def
  by (intro keeps_rules) (simp_all add: store_part_def)

lemma keeps_store_updated [keeps_rules]:
  "keeps (\<lambda>w. store_part w = s) (updated_coins st ids b response)"
  unfolding updated_coins_def Let_def by (intro keeps_rules)

text \<open>Storage calls and counting send nothing to the node or the signer.\<close>

lemma keeps_calls_storage [keeps_rules]:
  "keeps (\<lambda>w. calls w = cs) (ready_for_execution self rid)"
  "keeps (\<lambda>w. calls w = cs) (add_new_coins C self coins)"
  "keeps (\<lambda>w. calls w = cs) (reserve_gas_coins C latest self b d)"
  "keeps (\<lambda>w. calls w = cs) (expire_coins C self)"
  unfolding ready_for_execution_def add_new_coins_def reserve_gas_coins_def expire_coins_def
    publish_pool_gauges_def
  by (intro keeps_rules; simp)+

section \<open>What reaches the signer and the node\<close>

text \<open>The calls a transaction may cause.\<close>

fun tx_call ::
  "('addr, 'id, 'dg) tx_data \<Rightarrow> 'sig \<Rightarrow> ('addr, 'id, 'dg, 'sig) node_call \<Rightarrow> bool"
where
  "tx_call d user_sig (SignTransaction d') \<longleftrightarrow> d' = d"
| "tx_call d user_sig (ExecuteBlock tx rt) \<longleftrightarrow>
     sig_data tx = d \<and> (\<exists>s. signatures tx = [s, user_sig])"
| "tx_call d user_sig (MultiGet ids) \<longleftrightarrow> set ids \<subseteq> set (map fst (payment d))"
| "tx_call d user_sig c \<longleftrightarrow> False"

text \<open>What follows once the reservation is consumed.\<close>

definition after_ready where
  "after_ready st d user_sig rt =
     pbind (get_total_gas_coin_balance st (map fst (payment d))) (\<lambda>total_gas_coin_balance.
     pbind (ptry (execute_transaction_impl st d user_sig rt)) (\<lambda>response.
     pbind (updated_coins st (map fst (payment d)) total_gas_coin_balance response) (\<lambda>coins.
     pseq (settle st (gas_owner d) (length (payment d)) coins)
       (case response of Inr effects \<Rightarrow> pret effects | Inl e \<Rightarrow> perr e))))"

lemma execute_transaction_valid:
  "gas_owner d = signer_address st \<Longrightarrow> check_transaction_validity d = Ok () \<Longrightarrow>
     execute_transaction st rid d user_sig rt w =
       pseq (ready_for_execution (gas_station_store st) rid) (after_ready st d user_sig rt) w"
  by (simp add: execute_transaction_def after_ready_def Let_def)

lemma ready_calls: "ready_for_execution self rid w = (r, w') \<Longrightarrow> calls w' = calls w"
  using keepsD [OF keeps_calls_storage(1) refl] by blast

text \<open>
  The signature of the sponsor: the signer's answer to the last of the signing requests in \<open>cs\<close>, when
  \<open>sa\<close> are the answers it gives. \<open>sends\<close> is the invariant of a transaction on its way: the requests
  since \<open>cs\<close>, and that a block is only sent with such a signature in front of the user's.
\<close>

definition signs :: "('addr, 'id, 'dg, 'sig) node_call list \<Rightarrow> nat" where
  "signs cs = length (filter (\<lambda>c. case c of SignTransaction d \<Rightarrow> True | _ \<Rightarrow> False) cs)"

definition sponsor_signed ::
  "('addr, 'id, 'dg, 'sig) node_call list \<Rightarrow> (error + 'sig) list \<Rightarrow> 'sig \<Rightarrow> bool"
where
  "sponsor_signed cs sa s \<longleftrightarrow> 0 < signs cs \<and> signs cs \<le> length sa \<and> sa ! (signs cs - 1) = Inr s"

definition blocks_signed ::
  "'sig \<Rightarrow> (error + 'sig) list \<Rightarrow> ('addr, 'id, 'dg, 'sig) node_call list \<Rightarrow> bool"
where
  "blocks_signed user_sig sa cs \<longleftrightarrow>
     (\<forall>before tx rt after. cs = before @ ExecuteBlock tx rt # after \<longrightarrow>
        (\<exists>s. signatures tx = [s, user_sig] \<and> sponsor_signed before sa s))"

definition sends ::
  "('addr, 'id, 'dg) tx_data \<Rightarrow> 'sig \<Rightarrow> ('addr, 'id, 'dg, 'sig) node_call list \<Rightarrow> (error + 'sig) list \<Rightarrow>
     ('addr, 'id, 'dg, 'sig) node_call list \<Rightarrow> ('addr, 'id, 'dg, 'sig, 'z) node_world_scheme \<Rightarrow> bool"
where
  "sends d user_sig cs sa new w \<longleftrightarrow> calls w = cs @ new \<and> sign_answers w = drop (signs new) sa \<and>
     list_all (tx_call d user_sig) new \<and> blocks_signed user_sig sa new"

abbreviation sending where
  "sending d user_sig cs sa w \<equiv> \<exists>new. sends d user_sig cs sa new w"

abbreviation sending_signed where
  "sending_signed d user_sig cs sa s w \<equiv> \<exists>new. sends d user_sig cs sa new w \<and> sponsor_signed new sa s"

lemma signs_simps [simp]:
  "signs [] = 0" "signs (cs @ [MultiGet ids]) = signs cs" "signs (cs @ [ExecuteBlock tx rt]) = signs cs"
  "signs (cs @ [SignTransaction d]) = Suc (signs cs)"
  by (simp_all add: signs_def)

lemma snoc_split: "cs @ [x] = before @ y # after \<longleftrightarrow>
    (after = [] \<and> cs = before \<and> x = y) \<or> (\<exists>after'. after = after' @ [x] \<and> cs = before @ y # after')"
  by (cases after rule: rev_cases) auto

lemma blocks_signed_simps [simp]:
  "blocks_signed user_sig sa []"
  "blocks_signed user_sig sa (cs @ [MultiGet ids]) \<longleftrightarrow> blocks_signed user_sig sa cs"
  "blocks_signed user_sig sa (cs @ [SignTransaction d]) \<longleftrightarrow> blocks_signed user_sig sa cs"
  "blocks_signed user_sig sa (cs @ [ExecuteBlock tx rt]) \<longleftrightarrow>
     blocks_signed user_sig sa cs \<and> (\<exists>s. signatures tx = [s, user_sig] \<and> sponsor_signed cs sa s)"
  unfolding blocks_signed_def by (auto simp: snoc_split)

lemma sponsor_signed_simps [simp]:
  "sponsor_signed (cs @ [MultiGet ids]) sa s \<longleftrightarrow> sponsor_signed cs sa s"
  "sponsor_signed (cs @ [ExecuteBlock tx rt]) sa s \<longleftrightarrow> sponsor_signed cs sa s"
  by (simp_all add: sponsor_signed_def)

lemma sending_same:
  "calls w' = calls w \<Longrightarrow> sign_answers w' = sign_answers w \<Longrightarrow>
     sends d user_sig cs sa new w \<Longrightarrow> sends d user_sig cs sa new w'"
  by (simp add: sends_def)

lemma keeps_sending_silent:
  fixes m :: "(('addr, 'id, 'dg, 'sig, 'z) node_world_scheme, 'a) prog"
  assumes "\<And>c sg. keeps (\<lambda>w. calls w = c \<and> sign_answers w = sg) m"
  shows "keeps (\<lambda>w. \<exists>new. sends d user_sig cs sa new w \<and> Q new) m"
proof (rule keepsI)
  fix w :: "('addr, 'id, 'dg, 'sig, 'z) node_world_scheme"
  assume "\<exists>new. sends d user_sig cs sa new w \<and> Q new"
  moreover have "calls (snd (m w)) = calls w \<and> sign_answers (snd (m w)) = sign_answers w"
    using assms [of "calls w" "sign_answers w"] unfolding keeps_def by blast
  ultimately show "\<exists>new. sends d user_sig cs sa new (snd (m w)) \<and> Q new"
    using sending_same by metis
qed

lemma keeps_sending_ask:
  fixes get :: "('addr, 'id, 'dg, 'sig, 'z) node_world_scheme \<Rightarrow> (error + 'a) list"
  assumes "tx_call d user_sig c" and "\<And>as w. calls (put as w) = calls w \<and> sign_answers (put as w) = sign_answers w"
    and "\<And>new. Q new \<Longrightarrow> Q (new @ [c])" and "\<And>new. signs (new @ [c]) = signs new"
    and "\<And>new. Q new \<Longrightarrow> blocks_signed user_sig sa new \<Longrightarrow> blocks_signed user_sig sa (new @ [c])"
  shows "keeps (\<lambda>w. \<exists>new. sends d user_sig cs sa new w \<and> Q new) (ask c get put)"
proof (rule keepsI)
  fix w :: "('addr, 'id, 'dg, 'sig, 'z) node_world_scheme"
  assume "\<exists>new. sends d user_sig cs sa new w \<and> Q new"
  then obtain new where new: "sends d user_sig cs sa new w" "Q new" by blast
  have same: "calls (snd (ask c get put w)) = calls w @ [c]"
    "sign_answers (snd (ask c get put w)) = sign_answers w"
    using assms(2) by (auto simp: ask_def Let_def split: list.splits sum.splits)
  have "sends d user_sig cs sa (new @ [c]) (snd (ask c get put w))"
    using new assms(1,4,5) same by (simp add: sends_def)
  with assms(3) [OF new(2)] show "\<exists>new. sends d user_sig cs sa new (snd (ask c get put w)) \<and> Q new" by blast
qed

text \<open>Signing: each request takes one answer, and a signature that comes back is the last of them.\<close>

lemma sign_sends:
  assumes "sends d user_sig cs sa new w"
  shows "sends d user_sig cs sa (new @ [SignTransaction d]) (snd (sign_transaction d w)) \<and>
    (\<forall>s. fst (sign_transaction d w) = Ok s \<longrightarrow> sponsor_signed (new @ [SignTransaction d]) sa s)"
proof -
  have at: "sign_answers w = drop (signs new) sa" and calls: "calls w = cs @ new"
    using assms by (simp_all add: sends_def)
  show ?thesis
  proof (cases "drop (signs new) sa")
    case Nil
    then have "drop (Suc (signs new)) sa = []" by simp
    then show ?thesis
      using assms Nil at by (simp add: sends_def sign_transaction_def ask_def Let_def)
  next
    case (Cons a as)
    then have "signs new < length sa" "sa ! signs new = a" "drop (Suc (signs new)) sa = as"
      by (metis drop_all leI list.distinct(1)) (metis Cons nth_via_drop, metis Cons drop_Suc list.sel(3) tl_drop)
    then show ?thesis
      using assms Cons at
      by (cases a) (auto simp: sends_def sign_transaction_def ask_def Let_def sponsor_signed_def)
  qed
qed

lemma retry_sign_sends:
  assumes "sending d user_sig cs sa w" and "retry_with_max_attempts (sign_transaction d) n w = (r, w')"
  shows "sending d user_sig cs sa w' \<and> (\<forall>s. r = Ok s \<longrightarrow> sending_signed d user_sig cs sa s w')"
  using assms
proof (induction n arbitrary: w)
  case 0
  then show ?case using sign_sends by (metis fst_conv retry_with_max_attempts.simps(1) snd_conv)
next
  case (Suc n)
  obtain r1 w1 where run: "sign_transaction d w = (r1, w1)" by fastforce
  obtain new where "sends d user_sig cs sa new w" using Suc.prems(1) by blast
  from sign_sends [OF this] run have w1: "sends d user_sig cs sa (new @ [SignTransaction d]) w1"
    "\<forall>s. r1 = Ok s \<longrightarrow> sponsor_signed (new @ [SignTransaction d]) sa s" by simp_all
  show ?case
  proof (cases r1)
    case (Err e)
    then show ?thesis using Suc.IH [of w1] Suc.prems(2) run w1(1) by auto
  qed (use Suc.prems(2) run w1 in auto)
qed


lemma keeps_sending_emit [keeps_rules]: "keeps (\<lambda>w. \<exists>new. sends d user_sig cs sa new w \<and> Q new) (emit m)"
  by (intro keeps_emit) (simp add: sends_def)

lemma keeps_sending_latest:
  assumes "set ids \<subseteq> set (map fst (payment d))"
  shows "keeps (\<lambda>w. \<exists>new. sends d user_sig cs sa new w \<and> True) (get_latest_gas_objects n ids)"
proof -
  have "keeps (\<lambda>w. \<exists>new. sends d user_sig cs sa new w \<and> True) (pmap (get_chunk n) ps)"
    if "\<forall>chunk \<in> set ps. set chunk \<subseteq> set ids" for ps
    using that
  proof (induction ps)
    case Nil
    then show ?case by (simp add: keeps_def)
  next
    case (Cons chunk ps)
    have "keeps (\<lambda>w. \<exists>new. sends d user_sig cs sa new w \<and> True) (get_chunk n chunk)"
      unfolding get_chunk_def api_multi_get_def
      by (intro keeps_rules keeps_sending_ask) (use Cons.prems assms in auto)
    with Cons show ?case unfolding pmap.simps by (intro keeps_pbind keeps_basic(1)) simp_all
  qed
  moreover have "\<forall>chunk \<in> set (chunks 50 ids). set chunk \<subseteq> set ids"
    using concat_chunks [of 50 ids] by (metis UN_I set_concat subsetI zero_less_numeral)
  ultimately show ?thesis
    unfolding get_latest_gas_objects_def by (intro keeps_pbind keeps_basic(1)) blast
qed

lemma keeps_sending_signed:
  "keeps (sending_signed d user_sig cs sa s)
     (client_execute_transaction (from_generic_sig_data d [s, user_sig]) n rt)"
  unfolding client_execute_transaction_def Let_def api_execute_def
  by (intro keeps_rules keeps_sending_ask) (auto simp: from_generic_sig_data_def)

lemma keeps_sending_impl:
  fixes d :: "('addr, 'id, 'dg) tx_data" and user_sig :: 'sig
  shows "keeps (\<lambda>w :: ('addr, 'id, 'dg, 'sig, 'z) station_world_scheme. sending d user_sig cs sa w)
    (execute_transaction_impl st d user_sig rt)"
proof (rule keepsI)
  fix w :: "('addr, 'id, 'dg, 'sig, 'z) station_world_scheme"
  assume w: "sending d user_sig cs sa w"
  obtain r w1 where run: "retry_with_max_attempts (sign_transaction d) 3 w = (r, w1)" by fastforce
  note signed = retry_sign_sends [OF w run]
  show "sending d user_sig cs sa (snd (execute_transaction_impl st d user_sig rt w))"
  proof (cases r)
    case (Ok s)
    define m :: "(('addr, 'id, 'dg, 'sig, 'z) station_world_scheme, ('id, 'dg) tx_effects) prog" where
      "m = pseq (emit (ObserveElapsed ''transaction_signing_latency_ms'')) (
       pbind (client_execute_transaction (from_generic_sig_data d [s, user_sig]) 3 rt) (\<lambda>effects.
       pseq (emit (ObserveElapsed ''transaction_execution_latency_ms'')) (
       pbind (station_update_usage (net_gas_usage effects)) (\<lambda>new_daily_usage.
       pseq (emit (SetGauge ''daily_gas_usage'' (show_address st (gas_owner d)) (sint new_daily_usage)))
         (pret effects)))))"
    have "keeps (sending_signed d user_sig cs sa s) m"
      unfolding m_def by (intro keeps_rules keeps_sending_signed) (simp_all add: sends_def)
    moreover have "execute_transaction_impl st d user_sig rt w = m w1"
      using run Ok by (simp add: execute_transaction_impl_def m_def)
    ultimately show ?thesis using signed Ok unfolding keeps_def by auto
  qed (use run signed in \<open>simp_all add: execute_transaction_impl_def\<close>)
qed

lemma keeps_answers_ready: "keeps (\<lambda>w. sign_answers w = sg) (ready_for_execution self rid)"
  unfolding ready_for_execution_def by (intro keeps_rules; simp)

lemma keeps_sending_settle: "keeps (\<lambda>w. \<exists>new. sends d user_sig cs sa new w \<and> Q new) (settle st sponsor n coins)"
  unfolding settle_def Let_def station_trigger_rescan_def release_gas_coins_def add_new_coins_def
    publish_pool_gauges_def
  by (intro keeps_rules) (simp_all add: keeps_def sends_def)

lemma keeps_sending_updated:
  "keeps (\<lambda>w. \<exists>new. sends d user_sig cs sa new w \<and> True) (updated_coins st (map fst (payment d)) b response)"
  unfolding updated_coins_def Let_def by (intro keeps_rules keeps_sending_latest) simp

lemma keeps_sending_after:
  "keeps (\<lambda>w. \<exists>new. sends d user_sig cs sa new w \<and> True) (after_ready st d user_sig rt)"
  unfolding after_ready_def get_total_gas_coin_balance_def
  by (intro keeps_rules keeps_sending_latest keeps_sending_settle keeps_sending_updated)
    (use keeps_sending_impl in simp_all)

text \<open>
  C2: Only a checked transaction is signed and sent. If executing a transaction causes any request
  to the signer or the node, then its gas owner is the sponsor, it passes the validity check, and its
  reservation existed and was deleted in Redis before the first of these requests. The only requests
  are signing these very data, executing them, and reading the payment coins; and a block is only sent
  with two signatures, the one the signer gave in answer to the last request to sign these data and the
  user's, in this order.
\<close>

theorem only_checked_transactions_are_signed:
  fixes w w' :: "('addr, 'id, 'dg, 'sig, 'z) station_world_scheme"
  assumes "pool_rel C (namespace (gas_station_store st)) (keys w) p"
    and "execute_transaction st rid d user_sig rt w = (r, w')" and "calls w' \<noteq> calls w"
  shows "gas_owner d = signer_address st \<and> check_transaction_validity d = Ok () \<and>
    reserved p (unat rid) \<noteq> None \<and>
    (\<exists>w1 p1. ready_for_execution (gas_station_store st) rid w = (Ok (), w1) \<and> calls w1 = calls w \<and>
       pool_rel C (namespace (gas_station_store st)) (keys w1) p1 \<and> reserved p1 = (reserved p)(unat rid := None) \<and>
       after_ready st d user_sig rt w1 = (r, w')) \<and>
    (\<exists>new. calls w' = calls w @ new \<and> list_all (tx_call d user_sig) new \<and>
       blocks_signed user_sig (sign_answers w) new)"
proof -
  have owner: "gas_owner d = signer_address st"
    using assms(2,3) by (auto simp: execute_transaction_def split: if_splits)
  have valid: "check_transaction_validity d = Ok ()"
    using assms(2,3) owner
    by (cases "check_transaction_validity d") (auto simp: execute_transaction_def)
  obtain rr w1 where ready: "ready_for_execution (gas_station_store st) rid w = (rr, w1)" by fastforce
  have c1: "calls w1 = calls w" "sign_answers w1 = sign_answers w"
    using ready_calls [OF ready] keepsD [OF keeps_answers_ready refl ready] by auto
  have run: "pseq (ready_for_execution (gas_station_store st) rid) (after_ready st d user_sig rt) w = (r, w')"
    using assms(2) execute_transaction_valid [OF owner valid] by metis
  obtain a where rr: "rr = Ok a" and restw: "after_ready st d user_sig rt w1 = (r, w')"
    using run ready assms(3) c1 by (cases rr) auto
  have served: "serve C 0 (gas_station_store st) (Ready rid) w = (Done, w1)"
    using ready rr by simp
  from ready_effect [OF assms(1) this] have "reserved p (unat rid) \<noteq> None"
    by (auto simp: effect_ok_def)
  moreover obtain p1 where "pool_rel C (namespace (gas_station_store st)) (keys w1) p1"
    "reserved p1 = (reserved p)(unat rid := None)"
    using ready_effect [OF assms(1) served] by (auto simp: effect_ok_def consumed_def)
  moreover have "sends d user_sig (calls w) (sign_answers w) [] w1"
    by (simp add: sends_def c1)
  then have "sending d user_sig (calls w) (sign_answers w) w'"
    using keepsD [OF keeps_sending_after _ restw] by blast
  ultimately show ?thesis using owner valid ready rr restw c1(1) unfolding sends_def by auto
qed

section \<open>Returning coins\<close>

lemma world_upd_commute:
  "w\<lparr>faults := f, keys := k, events := e\<rparr> = w\<lparr>keys := k, faults := f, events := e\<rparr>"
  for w :: "'z world_scheme"
  by (cases w) simp

lemma world_upd_commute':
  "w\<lparr>faults := f, events := e, keys := k, faults := f', events := e'\<rparr> =
     w\<lparr>keys := k, faults := f', events := e'\<rparr>"
  for w :: "'z world_scheme"
  by (cases w) simp

lemma add_attempt_lost:
  assumes "faults w = LostRequest # fs"
  shows "\<exists>e. add_new_coins C self cs w = (Err e, w\<lparr>faults := fs,
     events := events w @ [Inc ''num_add_new_coins_requests'']\<rparr>)"
  using assms by (simp add: add_new_coins_def invoke_def next_fault_def)

lemma add_attempt_served:
  assumes "codec_ok C" and "pool_rel C (namespace self) (keys w) p"
    and "faults w = [] \<or> hd (faults w) = NoFault"
  shows "\<exists>ks p' fs es. add_new_coins C self cs w =
      (Ok (), w\<lparr>keys := ks, faults := fs, events := es\<rparr>) \<and>
    pool_rel C (namespace self) ks p' \<and> appended cs p p'"
proof -
  let ?s = "add_new_coins_lua (namespace self) (map (format_coin C) cs)"
  obtain tot cnt ks where lua: "?s (keys w) = (Inr (tot, cnt), ks)" and
    rel: "pool_rel C (namespace self) ks (p\<lparr>avail := avail p @ cs, total_bal := tot, coin_count := cnt\<rparr>)"
    using add_new_coins_lua_effect [OF assms(1,2), of cs] by blast
  have app: "appended cs p (p\<lparr>avail := avail p @ cs, total_bal := tot, coin_count := cnt\<rparr>)"
    by (simp add: appended_def)
  from assms(3) have "\<exists>fs es. add_new_coins C self cs w =
      (Ok (), w\<lparr>keys := ks, faults := fs, events := es\<rparr>)"
  proof (cases "faults w")
    case Nil
    have keep: "w\<lparr>keys := ks, events := es\<rparr> = w\<lparr>keys := ks, faults := [], events := es\<rparr>" for es
      using Nil by (cases w) simp
    show ?thesis
      using lua Nil by (auto simp: add_new_coins_def invoke_def next_fault_def
        script_manager_defs publish_pool_gauges_def keep)
  next
    case (Cons f fs)
    with assms(3) lua show ?thesis
      by (auto simp: add_new_coins_def invoke_def next_fault_def
        script_manager_defs publish_pool_gauges_def world_upd_commute)
  qed
  with rel app show ?thesis by blast
qed

lemma release_rel:
  assumes "codec_ok C" and "pool_rel C (namespace self) (keys w) p"
    and "set (faults w) \<subseteq> {NoFault, LostRequest}" and "length (faults w) < n"
  shows "\<exists>ks fs es p'. retry_forever n (add_new_coins C self cs) w =
      (Ok (), w\<lparr>keys := ks, faults := fs, events := es\<rparr>) \<and>
    pool_rel C (namespace self) ks p' \<and> appended cs p p'"
  using assms(2-)
proof (induction n arbitrary: w)
  case 0
  then show ?case by simp
next
  case (Suc n)
  show ?case
  proof (cases "faults w = [] \<or> hd (faults w) = NoFault")
    case True
    from add_attempt_served [OF assms(1) Suc.prems(1) True, of cs]
    show ?thesis by (auto, blast)
  next
    case False
    then obtain fs where fs: "faults w = LostRequest # fs"
      using Suc.prems(2) by (cases "faults w") auto
    define w1 where "w1 = w\<lparr>faults := fs, events := events w @ [Inc ''num_add_new_coins_requests'']\<rparr>"
    obtain e where "add_new_coins C self cs w = (Err e, w1)"
      using add_attempt_lost [OF fs] unfolding w1_def by blast
    moreover have "\<exists>ks fs es p'. retry_forever n (add_new_coins C self cs) w1 =
        (Ok (), w1\<lparr>keys := ks, faults := fs, events := es\<rparr>) \<and>
      pool_rel C (namespace self) ks p' \<and> appended cs p p'"
      by (rule Suc.IH) (use Suc.prems fs in \<open>simp_all add: w1_def\<close>)
    ultimately show ?thesis by (auto simp: w1_def world_upd_commute')
  qed
qed

text \<open>
  C17: Returning coins succeeds as soon as Redis can be reached: when no reply is lost, any number of
  lost requests only delays the return, the retry loop ends, and the coins are in the pool exactly
  once.
\<close>

theorem release_terminates_and_adds_once:
  assumes "codec_ok (codec st)"
    and "pool_rel (codec st) (namespace (gas_station_store st)) (keys w) p"
    and "set (faults w) \<subseteq> {NoFault, LostRequest}" and "length (faults w) < fuel st"
  shows "\<exists>w' p'. release_gas_coins st cs w = (Ok (), w') \<and>
    pool_rel (codec st) (namespace (gas_station_store st)) (keys w') p' \<and>
    avail p' = avail p @ cs \<and> reserved p' = reserved p"
proof -
  obtain ks fs es p' where run: "retry_forever (fuel st)
        (add_new_coins (codec st) (gas_station_store st) cs) w =
      (Ok (), w\<lparr>keys := ks, faults := fs, events := es\<rparr>)"
    and p': "pool_rel (codec st) (namespace (gas_station_store st)) ks p'" "appended cs p p'"
    using release_rel [OF assms, of cs] by blast
  show ?thesis
    by (intro exI [of _ "w\<lparr>keys := ks, faults := fs, events := es\<rparr>"] exI [of _ p'])
      (use p' in \<open>simp add: release_gas_coins_def run appended_def\<close>)
qed

section \<open>The coins of a transaction\<close>

lemma store_partD:
  "store_part w' = store_part w \<Longrightarrow> keys w' = keys w \<and> faults w' = faults w \<and> clock w' = clock w"
  by (simp add: store_part_def)

lemma keeps_storeD:
  "(\<And>s. keeps (\<lambda>w. store_part w = s) m) \<Longrightarrow> m w = (r, w') \<Longrightarrow> store_part w' = store_part w"
  unfolding keeps_def by (metis snd_conv)

text \<open>
  \<open>settle\<close> puts all coins back, or none of them when one of them is oversized; then a rescan is
  requested.
\<close>

lemma settle_rel:
  assumes "codec_ok (codec st)"
    and "pool_rel (codec st) (namespace (gas_station_store st)) (keys w) p"
    and "set (faults w) \<subseteq> {NoFault, LostRequest}" and "length (faults w) < fuel st"
    and "settle st sponsor n coins w = (r, w')"
  shows "r = Ok () \<and> (\<exists>p'. pool_rel (codec st) (namespace (gas_station_store st)) (keys w') p' \<and>
    reserved p' = reserved p \<and>
    (if \<exists>c \<in> set coins. oversized st c
     then avail p' = avail p \<and> rescan w' = trigger_rescan (rescan w)
     else avail p' = avail p @ coins \<and> rescan w' = rescan w))"
proof (cases "\<exists>c \<in> set coins. oversized st c")
  case True
  then have "filter (oversized st) coins \<noteq> []" by (auto simp: filter_empty_conv)
  then have "r = Ok ()" "keys w' = keys w" "rescan w' = trigger_rescan (rescan w)"
    using assms(5) by (auto simp: settle_def Let_def station_trigger_rescan_def split: if_splits)
  with True assms(2) show ?thesis by auto
next
  case False
  then have none: "filter (oversized st) coins = []" by (auto simp: filter_empty_conv)
  obtain ks fs es p' where run: "retry_forever (fuel st)
        (add_new_coins (codec st) (gas_station_store st) coins) w =
      (Ok (), w\<lparr>keys := ks, faults := fs, events := es\<rparr>)"
    and p': "pool_rel (codec st) (namespace (gas_station_store st)) ks p'" "appended coins p p'"
    using release_rel [OF assms(1-4), of coins] by blast
  have "r = Ok ()" "keys w' = ks" "rescan w' = rescan w"
    using assms(5) none run by (auto simp: settle_def Let_def release_gas_coins_def split: if_splits)
  with False p' show ?thesis by (auto simp: appended_def)
qed


lemma no_err_latest: "no_err (get_latest_gas_objects n ids)"
  unfolding get_latest_gas_objects_def get_chunk_def
  by (intro no_err_pbind no_err_pmap no_err_retry_forever no_err_pret)

lemma no_err_total: "no_err (get_total_gas_coin_balance st ids)"
  unfolding get_total_gas_coin_balance_def by (intro no_err_pbind no_err_latest no_err_pret)

lemma no_errD: "no_err m \<Longrightarrow> m w = (Err e, w') \<Longrightarrow> False"
  unfolding no_err_def by (metis fst_conv)

lemma keeps_rescan [keeps_rules]:
  "keeps (\<lambda>w. rescan w = x) (ready_for_execution self rid)"
  "keeps (\<lambda>w. rescan w = x) (get_total_gas_coin_balance st ids)"
  "keeps (\<lambda>w. rescan w = x) (execute_transaction_impl st d sig rt)"
  "keeps (\<lambda>w. rescan w = x) (updated_coins st ids b response)"
  unfolding ready_for_execution_def get_total_gas_coin_balance_def get_latest_gas_objects_def
    get_chunk_def execute_transaction_impl_def client_execute_transaction_def updated_coins_def
    Let_def api_defs
  by (intro keeps_rules keeps_ask; simp)+

text \<open>
  The course of a transaction whose reservation was consumed, up to its response: nothing of the
  pool has changed when the coins to return are known.
\<close>

lemma after_ready_run:
  fixes w w' :: "('addr, 'id, 'dg, 'sig, 'z) station_world_scheme"
  assumes "codec_ok (codec st)"
    and "pool_rel (codec st) (namespace (gas_station_store st)) (keys w) p"
    and "faults w = []" and "0 < fuel st"
    and "after_ready st d user_sig rt w = (r, w')" and "r = Ok e \<or> r = Err er"
  obtains total response coins p' and w1 w2 w3 :: "('addr, 'id, 'dg, 'sig, 'z) station_world_scheme"
  where
    "get_total_gas_coin_balance st (map fst (payment d)) w = (Ok total, w1)"
    "ptry (execute_transaction_impl st d user_sig rt) w1 = (Ok response, w2)"
    "updated_coins st (map fst (payment d)) total response w2 = (Ok coins, w3)"
    "(case response of Inr e \<Rightarrow> r = Ok e | Inl e \<Rightarrow> r = Err e)"
    "pool_rel (codec st) (namespace (gas_station_store st)) (keys w') p'" "reserved p' = reserved p"
    "if \<exists>c \<in> set coins. oversized st c
     then avail p' = avail p \<and> rescan w' = trigger_rescan (rescan w)
     else avail p' = avail p @ coins \<and> rescan w' = rescan w"
proof -
  let ?ids = "map fst (payment d)"
  obtain r1 w1 where tot: "get_total_gas_coin_balance st ?ids w = (r1, w1)" by fastforce
  then obtain total where r1: "r1 = Ok total"
    using assms(5,6)
    by (cases r1) (auto simp: after_ready_def dest: no_errD [OF no_err_total])
  obtain r2 w2 where impl: "execute_transaction_impl st d user_sig rt w1 = (r2, w2)" by fastforce
  have r2: "\<exists>resp. ptry (execute_transaction_impl st d user_sig rt) w1 = (Ok resp, w2)"
    using assms(5,6) tot r1 impl by (cases r2) (auto simp: after_ready_def)
  then obtain response where resp: "ptry (execute_transaction_impl st d user_sig rt) w1 = (Ok response, w2)" ..
  obtain r3 w3 where upd: "updated_coins st ?ids total response w2 = (r3, w3)" by fastforce
  have "r3 \<noteq> Err er'" for er'
  proof
    assume "r3 = Err er'"
    then have "fst (updated_coins st ?ids total response w2) = Err er'" by (simp add: upd)
    then show False
      using no_err_latest [unfolded no_err_def, rule_format, of "fuel st" ?ids w2]
      by (auto simp: updated_coins_def Let_def split: sum.splits prod.splits result.splits)
  qed
  then obtain coins where r3: "r3 = Ok coins"
    using assms(5,6) tot r1 resp upd by (cases r3) (auto simp: after_ready_def simp del: ptry_apply)
  obtain r4 w4 where set: "settle st (gas_owner d) (length (payment d)) coins w3 = (r4, w4)" by fastforce
  have same: "store_part w3 = store_part w" "rescan w3 = rescan w"
  proof -
    have "store_part w1 = store_part w" by (rule keeps_storeD [OF keeps_store_total tot])
    moreover have "store_part w2 = store_part w1"
      by (rule keeps_storeD [OF keeps_store_impl impl])
    moreover have "store_part w3 = store_part w2"
      by (rule keeps_storeD [OF keeps_store_updated upd])
    ultimately show "store_part w3 = store_part w" by simp
    show "rescan w3 = rescan w"
      using keepsD [OF keeps_rescan(2) refl tot] keepsD [OF keeps_rescan(3) refl impl]
        keepsD [OF keeps_rescan(4) refl upd] by simp
  qed
  note same' = store_partD [OF same(1)]
  obtain p' where p': "r4 = Ok ()"
    "pool_rel (codec st) (namespace (gas_station_store st)) (keys w4) p'" "reserved p' = reserved p"
    "if \<exists>c \<in> set coins. oversized st c
     then avail p' = avail p \<and> rescan w4 = trigger_rescan (rescan w3)
     else avail p' = avail p @ coins \<and> rescan w4 = rescan w3"
    using settle_rel [OF assms(1) _ _ _ set, of p] assms(2,3,4) same' by auto
  have final: "(case response of Inr e \<Rightarrow> r = Ok e | Inl e \<Rightarrow> r = Err e)" "w' = w4"
    using assms(5) tot r1 resp upd r3 set p'(1)
    by (auto simp: after_ready_def simp del: ptry_apply split: sum.splits)
  from that [OF tot [unfolded r1] resp upd [unfolded r3] final(1)] p' same(2) final(2) show ?thesis by metis
qed


lemma ready_quiet:
  assumes "pool_rel C (namespace self) (keys w) p" and "faults w = []"
    and "reserved p (unat rid) = Some ids"
  shows "\<exists>w1. ready_for_execution self rid w = (Ok (), w1) \<and> faults w1 = [] \<and>
    pool_rel C (namespace self) (keys w1) (ready_pool (unat rid) p)"
  using ready_rel [OF assms(1,3)] assms(2)
  by (auto simp: ready_for_execution_def script_manager_defs invoke_def)

text \<open>
  C3: After a transaction was executed, the pool has exactly the coin the transaction left: the gas
  object of the effects with the total balance of the payment before execution, less the net gas
  usage, goes to the end of the free list and the reservation is gone. Only when that coin is
  oversized it stays out of the pool, and then a rescan is requested.
\<close>

theorem executed_transaction_returns_gas_object:
  fixes w w' :: "('addr, 'id, 'dg, 'sig, 'z) station_world_scheme"
  assumes "codec_ok (codec st)"
    and "pool_rel (codec st) (namespace (gas_station_store st)) (keys w) p"
    and "faults w = []" and "0 < fuel st" and "reserved p (unat rid) = Some ids"
    and "execute_transaction st rid d user_sig rt w = (Ok e, w')"
  shows "\<exists>total p' w1 w2.
    ready_for_execution (gas_station_store st) rid w = (Ok (), w1) \<and>
    get_total_gas_coin_balance st (map fst (payment d)) w1 = (Ok total, w2) \<and>
    pool_rel (codec st) (namespace (gas_station_store st)) (keys w') p' \<and>
    reserved p' = (reserved p)(unat rid := None) \<and>
    (let coin = \<lparr>object_ref = gas_object e, balance = total - net_gas_usage e\<rparr>
     in if oversized st coin
        then avail p' = avail p \<and> rescan w' = trigger_rescan (rescan w)
        else avail p' = avail p @ [coin] \<and> rescan w' = rescan w)"
proof -
  have owner: "gas_owner d = signer_address st"
    using assms(6) by (auto simp: execute_transaction_def split: if_splits)
  have valid: "check_transaction_validity d = Ok ()"
    using assms(6) owner by (cases "check_transaction_validity d") (auto simp: execute_transaction_def)
  obtain w1 where ready: "ready_for_execution (gas_station_store st) rid w = (Ok (), w1)"
    and q: "faults w1 = []"
      "pool_rel (codec st) (namespace (gas_station_store st)) (keys w1) (ready_pool (unat rid) p)"
    using ready_quiet [OF assms(2,3,5)] by blast
  have rest: "after_ready st d user_sig rt w1 = (Ok e, w')"
    using assms(6) execute_transaction_valid [OF owner valid, of rid user_sig rt w] ready by simp
  have rs: "rescan w1 = rescan w" by (rule keepsD [OF keeps_rescan(1) refl ready])
  show ?thesis
  proof (rule after_ready_run [OF assms(1) q(2,1) assms(4) rest, OF disjI1, OF refl])
    fix total response coins p' and w2 w3 w4 :: "('addr, 'id, 'dg, 'sig, 'z) station_world_scheme"
    assume tot: "get_total_gas_coin_balance st (map fst (payment d)) w1 = (Ok total, w2)"
      and upd: "updated_coins st (map fst (payment d)) total response w3 = (Ok coins, w4)"
      and resp: "case response of Inl er \<Rightarrow> Ok e = Err er | Inr e' \<Rightarrow> Ok e = Ok e'"
      and rel: "pool_rel (codec st) (namespace (gas_station_store st)) (keys w') p'"
        "reserved p' = reserved (ready_pool (unat rid) p)"
      and coins: "if \<exists>c \<in> set coins. oversized st c
       then avail p' = avail (ready_pool (unat rid) p) \<and> rescan w' = trigger_rescan (rescan w1)
       else avail p' = avail (ready_pool (unat rid) p) @ coins \<and> rescan w' = rescan w1"
    have "response = Inr e" using resp by (cases response) auto
    then have "coins = [\<lparr>object_ref = gas_object e, balance = total - net_gas_usage e\<rparr>]"
      using upd by (simp add: updated_coins_def Let_def)
    with ready tot rel coins rs show ?thesis
      by (intro exI [of _ total] exI [of _ p'] exI [of _ w1] exI [of _ w2])
        (simp add: ready_pool_def Let_def)
  qed
qed

text \<open>
  C4: When a transaction fails after its reservation was consumed, its coins are not lost. The station
  asks for the payment coins once more, in the very state in which the failed execution left the world;
  every payment coin is in the answer, and those that still exist go back into the pool as they are
  now, or a rescan is requested when one of them is oversized.
\<close>

theorem failed_transaction_returns_payment:
  fixes w w' :: "('addr, 'id, 'dg, 'sig, 'z) station_world_scheme"
  assumes "codec_ok (codec st)"
    and "pool_rel (codec st) (namespace (gas_station_store st)) (keys w) p"
    and "faults w = []" and "0 < fuel st" and "reserved p (unat rid) = Some ids"
    and "gas_owner d = signer_address st" and "check_transaction_validity d = Ok ()"
    and "execute_transaction st rid d user_sig rt w = (Err er, w')"
  shows "\<exists>w1 total w2 w3 latest w4 coins p'.
    ready_for_execution (gas_station_store st) rid w = (Ok (), w1) \<and>
    get_total_gas_coin_balance st (map fst (payment d)) w1 = (Ok total, w2) \<and>
    execute_transaction_impl st d user_sig rt w2 = (Err er, w3) \<and>
    get_latest_gas_objects (fuel st) (map fst (payment d)) w3 = (Ok latest, w4) \<and>
    set (map fst latest) = set (map fst (payment d)) \<and> coins = present_values latest \<and>
    pool_rel (codec st) (namespace (gas_station_store st)) (keys w') p' \<and>
    reserved p' = (reserved p)(unat rid := None) \<and>
    (if \<exists>c \<in> set coins. oversized st c
     then avail p' = avail p \<and> rescan w' = trigger_rescan (rescan w)
     else avail p' = avail p @ coins \<and> rescan w' = rescan w)"
proof -
  obtain w1 where ready: "ready_for_execution (gas_station_store st) rid w = (Ok (), w1)"
    and q: "faults w1 = []"
      "pool_rel (codec st) (namespace (gas_station_store st)) (keys w1) (ready_pool (unat rid) p)"
    using ready_quiet [OF assms(2,3,5)] by blast
  have rest: "after_ready st d user_sig rt w1 = (Err er, w')"
    using assms(8) execute_transaction_valid [OF assms(6,7), of rid user_sig rt w] ready by simp
  have rs: "rescan w1 = rescan w" by (rule keepsD [OF keeps_rescan(1) refl ready])
  show ?thesis
  proof (rule after_ready_run [OF assms(1) q(2,1) assms(4) rest, OF disjI2, OF refl])
    fix total response coins p' and w2 w3 w4 :: "('addr, 'id, 'dg, 'sig, 'z) station_world_scheme"
    assume tot: "get_total_gas_coin_balance st (map fst (payment d)) w1 = (Ok total, w2)"
      and run: "ptry (execute_transaction_impl st d user_sig rt) w2 = (Ok response, w3)"
      and upd: "updated_coins st (map fst (payment d)) total response w3 = (Ok coins, w4)"
      and resp: "case response of Inl er' \<Rightarrow> Err er = Err er' | Inr e \<Rightarrow> Err er = Ok e"
      and rel: "pool_rel (codec st) (namespace (gas_station_store st)) (keys w') p'"
        "reserved p' = reserved (ready_pool (unat rid) p)"
      and coins: "if \<exists>c \<in> set coins. oversized st c
       then avail p' = avail (ready_pool (unat rid) p) \<and> rescan w' = trigger_rescan (rescan w1)
       else avail p' = avail (ready_pool (unat rid) p) @ coins \<and> rescan w' = rescan w1"
    have response: "response = Inl er" using resp by (cases response) auto
    have impl: "execute_transaction_impl st d user_sig rt w2 = (Err er, w3)"
      using run response by (auto split: prod.splits result.splits)
    obtain latest where
      latest: "get_latest_gas_objects (fuel st) (map fst (payment d)) w3 = (Ok latest, w4)"
        "coins = present_values latest"
      using upd response by (auto simp: updated_coins_def pbind_Ok simp del: pbind_apply)
    have "set (map fst latest) = set (map fst (payment d))"
      using latest_keys [OF latest(1)] by blast
    with ready tot impl latest rel coins rs show ?thesis
      by (intro exI [of _ w1] exI [of _ total] exI [of _ w2] exI [of _ w3] exI [of _ latest] exI [of _ w4]
          exI [of _ coins] exI [of _ p']) (simp add: ready_pool_def)
  qed
qed

lemma guards_Ok_iff:
  "(if \<not> a then Err x else if \<not> b then Err y else if \<not> c then Err z else if \<not> d then Err u
    else Ok ()) = Ok () \<longleftrightarrow> a \<and> b \<and> c \<and> d"
  by simp

text \<open>
  C18: A reservation request that the station accepts is one the storage handles exactly: its budget
  is positive, so it leaves no empty reservation behind, and at most the configured maximum, and it
  expires within ten minutes. The check accepts precisely these.
\<close>

theorem accepted_requests_are_exact:
  assumes "uint (max_gas_budget st) \<le> 2 ^ 53" and "0 \<le> t" and "t + 600000 \<le> latest_ms st"
    and "latest_ms st \<le> 2 ^ 53"
  shows "(check_reserve_gas_request_validity st rq = Ok () \<longleftrightarrow>
      0 < uint (rg_gas_budget rq) \<and> uint (rg_gas_budget rq) \<le> uint (max_gas_budget st) \<and>
      0 < uint (rg_reserve_duration_secs rq) \<and> uint (rg_reserve_duration_secs rq) \<le> 600) \<and>
    (check_reserve_gas_request_validity st rq = Ok () \<longrightarrow>
      rg_gas_budget rq \<noteq> 0 \<and>
      exact_request (latest_ms st) t (rg_gas_budget rq)
        (of_nat (1000 * unat (rg_reserve_duration_secs rq))))"
proof -
  have iff: "check_reserve_gas_request_validity st rq = Ok () \<longleftrightarrow>
      0 < uint (rg_gas_budget rq) \<and> uint (rg_gas_budget rq) \<le> uint (max_gas_budget st) \<and>
      0 < uint (rg_reserve_duration_secs rq) \<and> uint (rg_reserve_duration_secs rq) \<le> 600"
  proof -
    have p: "x = 0 \<longleftrightarrow> \<not> 0 < uint x" for x :: u64
      using uint_0_iff [of x] uint_ge_0 [of x] by linarith
    have m: "reserve_gas_max_duration_s < x \<longleftrightarrow> \<not> uint x \<le> 600" for x
      by (simp add: reserve_gas_max_duration_s_def word_less_def not_le)
    have b: "max_gas_budget st < x \<longleftrightarrow> \<not> uint x \<le> uint (max_gas_budget st)" for x
      by (simp add: word_less_def not_le)
    show ?thesis
      unfolding check_reserve_gas_request_validity_def p m b by (rule guards_Ok_iff)
  qed
  moreover have "exact_request (latest_ms st) t (rg_gas_budget rq)
      (of_nat (1000 * unat (rg_reserve_duration_secs rq)))"
    if "check_reserve_gas_request_validity st rq = Ok ()"
  proof -
    note c = iff [THEN iffD1, OF that]
    have b: "uint (rg_reserve_duration_secs rq) \<le> 600" "uint (rg_gas_budget rq) \<le> 2 ^ 53"
      by (rule c [THEN conjunct2, THEN conjunct2, THEN conjunct2],
          rule order_trans [OF c [THEN conjunct2, THEN conjunct1] assms(1)])
    have "int (unat (rg_reserve_duration_secs rq)) \<le> 600" using b(1) unfolding uint_nat .
    then have n: "unat (rg_reserve_duration_secs rq) \<le> 600"
      by (metis of_nat_le_iff of_nat_numeral)
    have "unat (of_nat (1000 * unat (rg_reserve_duration_secs rq)) :: u64) =
        1000 * unat (rg_reserve_duration_secs rq)"
      using n unat_word_of_int_small [of "1000 * unat (rg_reserve_duration_secs rq)"] by simp
    then have "unat (of_nat (1000 * unat (rg_reserve_duration_secs rq)) :: u64) \<le> 600000"
      using n by linarith
    then have "uint (of_nat (1000 * unat (rg_reserve_duration_secs rq)) :: u64) \<le> 600000"
      by (metis of_nat_le_iff of_nat_numeral uint_nat)
    with b assms(2-4) show ?thesis by (simp add: exact_request_def)
  qed
  moreover have "rg_gas_budget rq \<noteq> 0" if "check_reserve_gas_request_validity st rq = Ok ()"
    using iff [THEN iffD1, OF that] by (auto dest: conjunct1)
  ultimately show ?thesis by blast
qed


section \<open>Examples\<close>

definition ex_station :: "(nat, nat, nat) gas_station" where
  "ex_station = \<lparr>codec = nat_codec, latest_ms = 100000, signer_address = 2, show_address = show_nat,
     gas_station_store = ex_self, max_gas_budget = 1000, target_init_balance = 100, fuel = 5\<rparr>"

definition ex_effects :: "(nat, nat) tx_effects" where
  "ex_effects = \<lparr>gas_object = (7, 2, 9), net_gas_usage = 3, created = [], status_ok = True, gas_used = 5\<rparr>"

definition ex_paid_tx :: "(nat, nat, nat) tx_data" where
  "ex_paid_tx = \<lparr>tx_sender = 1, gas_owner = 2, payment = [(7, 1, 7)], gas_price = 1000,
     gas_budget = 5, tx_kind = ProgrammableTransaction [] []\<rparr>"

text \<open>The world of the examples: the pool with coin 7 lent, and the answers of the services.\<close>

definition ex_station_world ::
  "(error + (nat, nat) tx_effects option) list \<Rightarrow> (nat, nat, nat, nat) station_world"
where
  "ex_station_world execs = \<lparr>keys = keys ex_lent_world, clock = [1000], faults = [], events = [],
     coin_answers = [], price_answers = [],
     object_answers = [Inr [Some \<lparr>data_ref = (7, 1, 7), move_object = Some (True, Some 5)\<rparr>],
       Inr [Some \<lparr>data_ref = (7, 1, 7), move_object = Some (True, Some 5)\<rparr>]],
     inspect_answers = [], exec_answers = execs, sign_answers = [Inr 77], calls = [],
     usage_cap = gas_usage_cap_new 1000 0, dates = [0], rescan = create_receiver rescan_new\<rparr>"

lemma ex_station_rel:
  "pool_rel (codec ex_station) (namespace (gas_station_store ex_station))
     (keys (ex_station_world execs)) ex_lent"
  "faults (ex_station_world execs) = []" "codec_ok (codec ex_station)" "0 < fuel ex_station"
  "reserved ex_lent (unat (1 :: u64)) = Some [7]"
  using ex_lent_rel(1) nat_codec_ok ex_lent_simps(1)
  by (simp_all add: ex_station_def ex_station_world_def)

lemma ex_valid: "gas_owner ex_paid_tx = signer_address ex_station"
  "check_transaction_validity ex_paid_tx = Ok ()"
  by (simp_all add: ex_paid_tx_def ex_station_def check_transaction_validity_def)

lemma chunks_one: "xs \<noteq> [] \<Longrightarrow> length xs \<le> 50 \<Longrightarrow> chunks 50 xs = [xs]"
  by (simp add: chunks.simps)

lemma retry_forever_step:
  "0 < n \<Longrightarrow> retry_forever n f w = (case f w of (Err e, w') \<Rightarrow> retry_forever (n - 1) f w' | r \<Rightarrow> r)"
  by (cases n) (simp_all only: retry_forever.simps diff_Suc_1 less_irrefl)

lemma retry_with_max_attempts_step:
  "0 < n \<Longrightarrow> retry_with_max_attempts f n w =
     (case f w of (Err e, w') \<Rightarrow> retry_with_max_attempts f (n - 1) w' | r \<Rightarrow> r)"
  by (cases n) (simp_all only: retry_with_max_attempts.simps diff_Suc_1 less_irrefl)

lemmas node_exec = get_total_gas_coin_balance_def get_latest_gas_objects_def get_chunk_def chunks_one
  ask_def api_defs collect_map_def present_values_def try_get_iota_coin_balance_def
  execute_transaction_impl_def client_execute_transaction_def from_generic_sig_data_def
  station_update_usage_def today_def update_usage_def updated_coins_def
  List.map_filter_simps retry_forever_step retry_with_max_attempts_step

text \<open>The reservation is consumed first.\<close>

definition ex_ready_keys :: keyspace where
  "ex_ready_keys = (keys ex_lent_world)(nkey (namespace ex_self) (show_nat 1) := None)"

lemma ex_ready: "ready_for_execution (gas_station_store ex_station) 1 (ex_station_world execs) =
    (Ok (), ex_station_world execs\<lparr>keys := ex_ready_keys,
       events := [Inc ''num_ready_for_execution_requests'',
                  Inc ''num_successful_ready_for_execution_requests'']\<rparr>)"
  using ready_rel(1) [OF ex_lent_rel(1), of 1 "[7]"] ex_lent_simps(1)
  by (simp add: ready_for_execution_def script_manager_defs invoke_def next_fault_def
      ex_station_def ex_station_world_def ex_ready_keys_def)

definition ex_coin_answer :: "error + (nat, nat) object_response list" where
  "ex_coin_answer = Inr [Some \<lparr>data_ref = (7, 1, 7), move_object = Some (True, Some 5)\<rparr>]"

lemma ex_latest:
  "object_answers w = ex_coin_answer # as \<Longrightarrow>
     get_latest_gas_objects 5 [7] w = (Ok [(7, Some \<lparr>object_ref = (7, 1, 7), balance = 5\<rparr>)],
       w\<lparr>calls := calls w @ [MultiGet [7]], object_answers := as\<rparr>)"
  by (simp add: node_exec ex_coin_answer_def)

definition ex_rejections :: "(error + (nat, nat) tx_effects option) list" where
  "ex_rejections = (let e = Inl (Foreign ''rejected'') in [e, e, e, e])"

lemma ex_impl:
  fixes w :: "('addr, nat, nat, nat, 'z) station_world_scheme"
  assumes "sign_answers w = [Inr 77]" and "dates w = [x]"
  shows "exec_answers w = [Inr (Some e)] \<Longrightarrow>
     \<exists>w'. execute_transaction_impl st d 88 None w = (Ok e, w')"
    "exec_answers w = ex_rejections \<Longrightarrow>
     \<exists>w'. execute_transaction_impl st d 88 None w = (Err (Foreign ''rejected''), w') \<and>
       object_answers w' = object_answers w"
  using assms by (simp_all add: node_exec ex_rejections_def Let_def split: prod.splits)

lemma ex_station_run:
  fixes execs :: "(error + (nat, nat) tx_effects option) list"
  assumes "execs = [Inr (Some ex_effects)] \<and> resp = Inr ex_effects \<or>
    execs = ex_rejections \<and> resp = Inl (Foreign ''rejected'')"
  shows "\<exists>w'. execute_transaction ex_station 1 ex_paid_tx 88 None (ex_station_world execs) =
    (case resp of Inr e \<Rightarrow> Ok e | Inl er \<Rightarrow> Err er, w') \<and> calls w' \<noteq> []"
proof -
  define w1 where "w1 = ex_station_world execs\<lparr>keys := ex_ready_keys,
       events := [Inc ''num_ready_for_execution_requests'',
                  Inc ''num_successful_ready_for_execution_requests'']\<rparr>"
  have oa: "object_answers w1 = [ex_coin_answer, ex_coin_answer]"
    by (simp add: w1_def ex_station_world_def ex_coin_answer_def)
  have f: "fuel ex_station = 5" "map fst (payment ex_paid_tx) = [7]"
    by (simp_all add: ex_station_def ex_paid_tx_def)
  define w2 where "w2 = w1\<lparr>calls := calls w1 @ [MultiGet [7]], object_answers := [ex_coin_answer]\<rparr>"
  have tot: "get_total_gas_coin_balance ex_station [7] w1 = (Ok 5, w2)"
    by (simp add: get_total_gas_coin_balance_def f ex_latest [OF oa] w2_def present_values_def
        List.map_filter_simps)
  have w2: "sign_answers w2 = [Inr 77]" "dates w2 = [0]" "exec_answers w2 = execs"
    "object_answers w2 = [ex_coin_answer]"
    by (simp_all add: w2_def w1_def ex_station_world_def)
  obtain w3 where impl: "ptry (execute_transaction_impl ex_station ex_paid_tx 88 None) w2 = (Ok resp, w3)"
    and w3: "\<not> isl resp \<or> object_answers w3 = [ex_coin_answer]"
  proof -
    from assms consider "execs = [Inr (Some ex_effects)]" "resp = Inr ex_effects"
      | "execs = ex_rejections" "resp = Inl (Foreign ''rejected'')" by blast
    then show ?thesis
    proof cases
      case 1
      with ex_impl(1) [OF w2(1,2), of ex_effects ex_station ex_paid_tx] w2(3) that show ?thesis by auto
    next
      case 2
      with ex_impl(2) [OF w2(1,2), of ex_station ex_paid_tx] w2(3,4) that show ?thesis by auto
    qed
  qed
  obtain coins w4 where upd: "updated_coins ex_station [7] 5 resp w3 = (Ok coins, w4)"
    using assms w3 ex_latest [of w3 "[]"] f
    by (auto simp: updated_coins_def Let_def)
  have "pool_rel (codec ex_station) (namespace (gas_station_store ex_station)) (keys w1)
      (ready_pool (unat (1 :: u64)) ex_lent)"
    using ready_rel(2) [OF ex_lent_rel(1), of 1 "[7]"] ex_lent_simps(1)
    by (simp add: w1_def ex_station_def ex_ready_keys_def)
  moreover have sp: "store_part w4 = store_part w1"
  proof -
    obtain r where impl': "execute_transaction_impl ex_station ex_paid_tx 88 None w2 = (r, w3)"
      using impl by (auto split: prod.splits result.splits)
    show ?thesis
      using keeps_storeD [OF keeps_store_total tot] keeps_storeD [OF keeps_store_impl impl']
        keeps_storeD [OF keeps_store_updated upd] by simp
  qed
  moreover have "faults w1 = []" by (simp add: w1_def ex_station_world_def)
  ultimately have *: "pool_rel (codec ex_station) (namespace (gas_station_store ex_station)) (keys w4)
      (ready_pool (unat (1 :: u64)) ex_lent)" "faults w4 = []"
    using store_partD [OF sp] by simp_all
  obtain r w5 where set: "settle ex_station (gas_owner ex_paid_tx) (length (payment ex_paid_tx)) coins w4 = (r, w5)"
    by fastforce
  have "r = Ok ()"
    using settle_rel [OF ex_station_rel(3) *(1) _ _ set] *(2) f by simp
  moreover have "calls w5 \<noteq> []"
  proof -
    let ?ok = "\<lambda>w. \<exists>new. sends ex_paid_tx 88 [MultiGet [7]] (sign_answers w2) new w \<and> True"
    have "sends ex_paid_tx 88 [MultiGet [7]] (sign_answers w2) [] w2"
      by (simp add: sends_def w2_def w1_def ex_station_world_def)
    then have w2: "?ok w2" by blast
    have "keeps ?ok (ptry (execute_transaction_impl ex_station ex_paid_tx 88 None))"
      by (intro keeps_rules) (use keeps_sending_impl in simp)
    from keepsD [OF this w2 impl] have w3: "?ok w3" .
    have "keeps ?ok (updated_coins ex_station [7] 5 resp)"
      using keeps_sending_updated [of ex_paid_tx 88 "[MultiGet [7]]" _ ex_station 5 resp] f by simp
    from keepsD [OF keeps_sending_settle keepsD [OF this w3 upd] set]
    show ?thesis by (auto simp: sends_def)
  qed
  ultimately show ?thesis
    unfolding execute_transaction_valid [OF ex_valid]
    using tot impl upd set by (auto simp: ex_ready w1_def [symmetric] after_ready_def f
        simp del: ptry_apply split: sum.splits)
qed



section \<open>Witnesses\<close>

lemma ex_station_returns:
  "\<exists>w'. execute_transaction ex_station 1 ex_paid_tx 88 None
      (ex_station_world [Inr (Some ex_effects)]) = (Ok ex_effects, w') \<and> calls w' \<noteq> []"
  "\<exists>w'. execute_transaction ex_station 1 ex_paid_tx 88 None
      (ex_station_world ex_rejections) = (Err (Foreign ''rejected''), w')"
  using ex_station_run [of "[Inr (Some ex_effects)]" "Inr ex_effects"]
    ex_station_run [of ex_rejections "Inl (Foreign ''rejected'')"] by auto

theorem only_checked_transactions_are_signed_witness:
  "\<exists>w'. execute_transaction ex_station 1 ex_paid_tx 88 None
      (ex_station_world [Inr (Some ex_effects)]) = (Ok ex_effects, w') \<and>
    list_all (tx_call ex_paid_tx 88) (calls w') \<and>
    blocks_signed 88 (sign_answers (ex_station_world [Inr (Some ex_effects)])) (calls w')"
proof -
  obtain w' where run: "execute_transaction ex_station 1 ex_paid_tx 88 None
      (ex_station_world [Inr (Some ex_effects)]) = (Ok ex_effects, w')" and calls: "calls w' \<noteq> []"
    using ex_station_returns(1) by blast
  have "calls (ex_station_world [Inr (Some ex_effects)]) = []" by (simp add: ex_station_world_def)
  with only_checked_transactions_are_signed [OF ex_station_rel(1) run] run calls
  show ?thesis by auto
qed

theorem executed_transaction_returns_gas_object_witness:
  "\<exists>w' p'. execute_transaction ex_station 1 ex_paid_tx 88 None
      (ex_station_world [Inr (Some ex_effects)]) = (Ok ex_effects, w') \<and>
    pool_rel nat_codec (namespace ex_self) (keys w') p' \<and> reserved p' 1 = None"
proof -
  obtain w' where run: "execute_transaction ex_station 1 ex_paid_tx 88 None
      (ex_station_world [Inr (Some ex_effects)]) = (Ok ex_effects, w')"
    using ex_station_returns(1) by blast
  from executed_transaction_returns_gas_object
    [OF ex_station_rel(3) ex_station_rel(1) ex_station_rel(2) ex_station_rel(4,5) run] run
  show ?thesis by (auto simp: ex_station_def)
qed

theorem failed_transaction_returns_payment_witness:
  "\<exists>w' p'. execute_transaction ex_station 1 ex_paid_tx 88 None
      (ex_station_world ex_rejections) = (Err (Foreign ''rejected''), w') \<and>
    pool_rel nat_codec (namespace ex_self) (keys w') p' \<and> reserved p' 1 = None"
proof -
  obtain w' where run: "execute_transaction ex_station 1 ex_paid_tx 88 None
      (ex_station_world ex_rejections) = (Err (Foreign ''rejected''), w')"
    using ex_station_returns(2) by blast
  from failed_transaction_returns_payment
    [OF ex_station_rel(3) ex_station_rel(1) ex_station_rel(2) ex_station_rel(4,5) ex_valid run] run
  show ?thesis by (auto simp: ex_station_def)
qed

theorem release_terminates_and_adds_once_witness:
  "\<exists>w' p'. release_gas_coins ex_station [ex_coin 9 4]
      (ex_station_world []\<lparr>faults := [LostRequest, LostRequest]\<rparr>) = (Ok (), w') \<and>
    pool_rel nat_codec (namespace ex_self) (keys w') p' \<and> avail p' = avail ex_lent @ [ex_coin 9 4]"
proof -
  let ?w = "ex_station_world []\<lparr>faults := [LostRequest, LostRequest]\<rparr>"
  have "pool_rel (codec ex_station) (namespace (gas_station_store ex_station)) (keys ?w) ex_lent"
    using ex_station_rel(1) [of "[]"] by simp
  moreover have "set (faults ?w) \<subseteq> {NoFault, LostRequest}" "length (faults ?w) < fuel ex_station"
    by (simp_all add: ex_station_def)
  ultimately show ?thesis
    using release_terminates_and_adds_once
      [OF ex_station_rel(3), of "?w" ex_lent "[ex_coin 9 4]"]
    by (auto simp: ex_station_def)
qed

theorem accepted_requests_are_exact_witness:
  "check_reserve_gas_request_validity ex_station
      \<lparr>rg_gas_budget = 5, rg_reserve_duration_secs = 10\<rparr> = Ok () \<and>
    exact_request 1000000 1000 5 10000"
  using accepted_requests_are_exact
      [of "ex_station\<lparr>latest_ms := 1000000\<rparr>" 1000 "\<lparr>rg_gas_budget = 5, rg_reserve_duration_secs = 10\<rparr>"]
  by (simp add: ex_station_def check_reserve_gas_request_validity_def)

end
