(* ===== verification/Rpc_Props.thy ===== *)
theory Rpc_Props
  imports Access_Limits Command Station_Props
begin

text \<open>
  Properties of the RPC interface and of the start: authorization, what a rejected transaction leaves
  behind, a client at a server, the reload of the access controller, and the cold parameters.
\<close>

section \<open>Authorization\<close>

text \<open>C20: while the server has a secret, a request without it, on any route and with any body, changes
  nothing but the number of received execution requests, and its answer never carries a result.\<close>

theorem unauthorized_changes_nothing:
  assumes "secret server = Some s" "request_token server q \<noteq> Some s" "rpc_serve server q w = (r, w')"
  shows "(w' = w \<or> w' = w\<lparr>events := events w @ [Inc ''num_execute_tx_requests'']\<rparr>) \<and>
    (\<exists>reply. r = Ok reply \<and> (\<forall>j. reply \<noteq> Reply OK (JsonBody j)))"
proof -
  have bad: "\<not> token_ok server (request_token server q)"
    using assms(1,2) by (simp add: token_ok_def)
  show ?thesis
    using assms(3) bad
    by (auto simp: rpc_serve_def Let_def health_def version_def debug_health_check_def
        server_reserve_gas_def server_execute_tx_def reload_access_controller_def
        split: option.splits endpoint.splits result.splits prod.splits)
qed

section \<open>Rejected transactions\<close>

text \<open>What belongs to the gas station: the pool, the requests to the node and the signer, the usage cap
  and the rescan trigger.\<close>

definition station_part ::
  "('addr, 'id, 'dg, 'sig, 'z) station_world_scheme \<Rightarrow>
     keyspace \<times> ('addr, 'id, 'dg, 'sig) node_call list \<times> gas_usage_cap \<times> rescan_channel"
where
  "station_part w = (keys w, calls w, usage_cap w, rescan w)"

lemma station_part_simps [simp]:
  "station_part (w\<lparr>events := es\<rparr>) = station_part w"
  "station_part (w\<lparr>clock := ts\<rparr>) = station_part w"
  "station_part (w\<lparr>faults := fs\<rparr>) = station_part w"
  for w :: "('addr, 'id, 'dg, 'sig, 'z) station_world_scheme"
  by (simp_all add: station_part_def)

lemma station_part_access [simp]:
  "station_part (w\<lparr>tracker_keys := db\<rparr>) = station_part w"
  "station_part (w\<lparr>hook_calls := cs\<rparr>) = station_part w"
  "station_part (w\<lparr>hook_answers := as\<rparr>) = station_part w"
  "station_part (w\<lparr>controller := c\<rparr>) = station_part w"
  for w :: "('addr, 'id, 'dg, 'sig, 'eng, 'z) access_world_scheme"
  by (simp_all add: station_part_def)

abbreviation keeps_station ::
  "(('addr, 'id, 'dg, 'sig, 'z) station_world_scheme, 'a) prog \<Rightarrow> bool"
where
  "keeps_station m \<equiv> \<forall>S. keeps (\<lambda>w. station_part w = S) m"

lemma keeps_tracker_invoke [keeps_rules]:
  "(\<And>w ts. P w \<Longrightarrow> P (w\<lparr>clock := ts\<rparr>)) \<Longrightarrow> (\<And>w fs. P w \<Longrightarrow> P (w\<lparr>faults := fs\<rparr>)) \<Longrightarrow>
     (\<And>w db. P w \<Longrightarrow> P (w\<lparr>tracker_keys := db\<rparr>)) \<Longrightarrow> keeps P (tracker_invoke s)"
  unfolding tracker_invoke_def
  by (intro keeps_rules keepsI)
    (auto simp: next_fault_def Let_def split: list.splits fault.splits prod.splits sum.splits)

lemma keeps_stats_update [keeps_rules]:
  "(\<And>w ts. P w \<Longrightarrow> P (w\<lparr>clock := ts\<rparr>)) \<Longrightarrow> (\<And>w fs. P w \<Longrightarrow> P (w\<lparr>faults := fs\<rparr>)) \<Longrightarrow>
     (\<And>w db. P w \<Longrightarrow> P (w\<lparr>tracker_keys := db\<rparr>)) \<Longrightarrow> keeps P (stats_update_aggr L tr meta a v)"
  unfolding stats_update_aggr_def storage_update_aggr_def Let_def
  by (cases "aggr_type a") (simp add: keeps_tracker_invoke)

lemma keeps_hook_send [keeps_rules]:
  "(\<And>w cs. P w \<Longrightarrow> P (w\<lparr>hook_calls := cs\<rparr>)) \<Longrightarrow> (\<And>w as. P w \<Longrightarrow> P (w\<lparr>hook_answers := as\<rparr>)) \<Longrightarrow>
     keeps P (hook_send c)"
  by (intro keepsI) (auto simp: hook_send_def Let_def split: list.splits sum.splits)

lemma keeps_pmodify [keeps_rules]: "(\<And>w. P w \<Longrightarrow> P (f w)) \<Longrightarrow> keeps P (pmodify f)"
  by (simp add: keeps_def)

lemma keeps_match_limits:
  "keeps (\<lambda>w. station_part w = S) (match_global_limits L r ctx)"
  unfolding match_global_limits_def match_gas_limit_def Let_def
  by (cases "rule_gas_usage r") (auto intro!: keeps_rules split: prod.splits option.splits)

lemma keeps_apply_action:
  "keeps (\<lambda>w. station_part w = S) (apply_action L ctx a)"
  unfolding apply_action_def call_hook_def Let_def
  by (cases a) (auto intro!: keeps_rules)

lemma keeps_check_rule:
  "keeps (\<lambda>w. station_part w = S) (check_rule L ctx r)"
  unfolding check_rule_def remember_requests_def Let_def
  by (intro keeps_rules keeps_match_limits keeps_apply_action) simp_all

lemma keeps_check_rules:
  "keeps (\<lambda>w. station_part w = S) (check_rules L ctx policy rs report)"
proof (induction rs arbitrary: report)
  case Nil
  show ?case unfolding check_rules.simps by (rule keeps_basic)
next
  case (Cons r rs)
  then show ?case
    unfolding check_rules.simps Let_def by (intro keeps_rules keeps_check_rule) simp_all
qed

lemma keeps_check_access: "keeps (\<lambda>w. station_part w = S) (check_access L ctx)"
  unfolding check_access_def by (intro keeps_rules keeps_check_rules) 

lemma keeps_confirm_requests:
  "(\<And>w ts. P w \<Longrightarrow> P (w\<lparr>clock := ts\<rparr>)) \<Longrightarrow> (\<And>w fs. P w \<Longrightarrow> P (w\<lparr>faults := fs\<rparr>)) \<Longrightarrow>
     (\<And>w db. P w \<Longrightarrow> P (w\<lparr>tracker_keys := db\<rparr>)) \<Longrightarrow> keeps P (confirm_requests L tr real reqs)"
proof (induction reqs)
  case Nil
  show ?case unfolding confirm_requests.simps by (rule keeps_basic)
next
  case (Cons req reqs)
  then show ?case unfolding confirm_requests.simps by (intro keeps_rules) simp_all
qed

lemma confirm_transaction_keeps:
  assumes run: "confirm_transaction L res tr w = (r, w')"
  shows "station_part w' = station_part w \<and>
    confirmation_requests (controller w') =
      (confirmation_requests (controller w))(result_digest res := None)"
proof -
  define w1 where "w1 = snd (take_requests (result_digest res) w)"
  let ?P = "\<lambda>v. station_part v = station_part w1 \<and> controller v = controller w1"
  have k: "keeps ?P (confirm_requests L tr (result_gas_usage res) reqs)" for reqs
    by (intro keeps_confirm_requests) simp_all
  have "w' = w1 \<or> (\<exists>reqs. confirm_requests L tr (result_gas_usage res) reqs w1 = (r, w'))"
    using run by (auto simp: w1_def confirm_transaction_def take_requests_def split: option.splits)
  then have "?P w'"
    using keepsD [OF k, of w1] by auto
  then show ?thesis by (simp add: w1_def take_requests_def)
qed

lemma access_verdict_keeps:
  "access_verdict server ctx w = (r, w') \<Longrightarrow> station_part w' = station_part w"
proof -
  have "keeps (\<lambda>v. station_part v = station_part w) (generate_event_id :: (_, string) prog)"
    by (intro keepsI) (auto simp: generate_event_id_def station_part_def split: list.splits)
  then have "keeps (\<lambda>v. station_part v = station_part w) (access_verdict server ctx)"
    unfolding access_verdict_def
    by (auto intro!: keeps_rules keeps_check_access split: sum.splits decision.splits)
  then show "access_verdict server ctx w = (r, w') \<Longrightarrow> station_part w' = station_part w"
    by (rule keepsD) simp
qed

lemma access_verdict_status:
  "access_verdict server ctx w = (Ok (Some (st, resp)), w') \<Longrightarrow> st \<in> {FORBIDDEN, BAD_REQUEST}"
  by (auto simp: access_verdict_def generate_event_id_def
      split: prod.splits result.splits sum.splits decision.splits list.splits)

lemma confirm_quietly_keeps:
  assumes "confirm_quietly server res ctx w = (r, w')"
  shows "station_part w' = station_part w \<and>
    confirmation_requests (controller w') (result_digest res) = None"
proof -
  obtain r' where "confirm_transaction (server_access_lib server) res (ctx_stats_tracker ctx) w = (r', w')"
    using assms by (auto simp: confirm_quietly_def split: prod.splits result.splits)
  from confirm_transaction_keeps [OF this] show ?thesis by simp
qed

lemma execute_impl_rejected:
  assumes run: "execute_tx_impl server d sig ctx w = (Ok (st, resp), w')"
    and st: "st \<notin> {OK, INTERNAL_SERVER_ERROR}"
  shows "station_part w' = station_part w \<and> st \<in> {FORBIDDEN, BAD_REQUEST} \<and>
    confirmation_requests (controller w') (tx_digest (server_tx_lib server) d) = None"
proof -
  obtain v w1 where v: "access_verdict server ctx w = (Ok v, w1)"
    using run by (auto simp: execute_tx_impl_def Let_def split: prod.splits result.splits)
  show ?thesis
  proof (cases v)
    case None
    with run v st show ?thesis
      by (auto simp: execute_tx_impl_def Let_def split: prod.splits result.splits sum.splits)
  next
    case (Some rej)
    then have "confirm_quietly server (execution_result_new (tx_digest (server_tx_lib server) d)) ctx w1 =
        (Ok (), w')" "rej = (st, resp)"
      using run v by (auto simp: execute_tx_impl_def Let_def split: prod.splits result.splits)
    with confirm_quietly_keeps access_verdict_keeps [OF v] access_verdict_status v Some show ?thesis
      by (fastforce simp: execution_result_new_def)
  qed
qed

text \<open>C10: a transaction that is answered with missing authorization, a bad request or a denial has not
  reached the gas station: the pool, the usage cap and the rescan trigger are as before, the node and the
  signer were not asked; and a denied transaction has no claim left to confirm.\<close>

theorem rejected_transaction_leaves_station:
  assumes "server_execute_tx server hs token payload w = (Ok (st, resp), w')"
    and "st \<in> {UNAUTHORIZED, BAD_REQUEST, FORBIDDEN}"
  shows "station_part w' = station_part w \<and>
    (st = FORBIDDEN \<longrightarrow> (\<exists>d sig.
       convert_tx_and_sig (server_wire_lib server) (et_tx_bytes payload) (et_user_sig payload) = Ok (d, sig) \<and>
       confirmation_requests (controller w') (tx_digest (server_tx_lib server) d) = None))"
proof (cases "token_ok server token")
  case False
  with assms show ?thesis by (auto simp: server_execute_tx_def)
next
  case True
  let ?w1 = "w\<lparr>events := events w @ [Inc ''num_execute_tx_requests'',
    Inc ''num_authorized_execute_tx_requests'']\<rparr>"
  show ?thesis
  proof (cases "convert_tx_and_sig (server_wire_lib server) (et_tx_bytes payload) (et_user_sig payload)")
    case (Ok ds)
    obtain d sig where ds: "ds = (d, sig)" by (cases ds)
    with assms True Ok obtain ctx where "spawned (panic_abort server) (INTERNAL_SERVER_ERROR,
        execute_response_err (Anyhow ''Failed to spawn execute_tx task''))
        (execute_tx_impl server d sig ctx) ?w1 = (Ok (st, resp), w')"
      by (auto simp: server_execute_tx_def split: result.splits)
    then have "execute_tx_impl server d sig ctx ?w1 = (Ok (st, resp), w')"
      using assms(2) by (auto simp: spawned_def split: prod.splits result.splits if_splits)
    from execute_impl_rejected [OF this] assms(2) Ok ds show ?thesis by auto
  qed (use assms True in \<open>auto simp: server_execute_tx_def\<close>)
qed

section \<open>Reloading the access controller\<close>

lemma de_controller_fresh: "de_controller L j = Ok c \<Longrightarrow> confirmation_requests c = Map.empty"
  by (cases j) (auto simp: controller_new_def)

lemma de_config_fresh:
  "de_config L kp j = Ok c \<Longrightarrow> confirmation_requests (access_controller_cfg c) = Map.empty"
  by (cases j)
    (auto simp: de_default_def default_controller_def controller_new_def dest!: de_controller_fresh
      split: option.splits)

lemma keeps_next_source [keeps_rules]:
  "(\<And>w as. P w \<Longrightarrow> P (w\<lparr>source_answers := as\<rparr>)) \<Longrightarrow> keeps P next_source_answer"
  by (intro keepsI) (simp add: next_source_answer_def split: list.splits)

lemma keeps_rule_initialize [keeps_rules]:
  "(\<And>w as. P w \<Longrightarrow> P (w\<lparr>source_answers := as\<rparr>)) \<Longrightarrow> keeps P (rule_initialize L r)"
  unfolding rule_initialize_def by (intro keeps_rules) simp_all

lemma keeps_initialize_rules:
  "(\<And>w as. P w \<Longrightarrow> P (w\<lparr>source_answers := as\<rparr>)) \<Longrightarrow> keeps P (initialize_rules L rs)"
proof (induction rs)
  case Nil
  show ?case unfolding initialize_rules.simps by (rule keeps_basic)
next
  case (Cons r rs)
  then show ?case unfolding initialize_rules.simps by (intro keeps_rules) simp_all
qed

lemma controller_initialize_result:
  assumes "controller_initialize L c w = (Ok (r, c'), w')"
  shows "confirmation_requests c' = confirmation_requests c \<and> tracker_keys w' = tracker_keys w"
proof -
  obtain rs where "initialize_rules L (rules c) w = (Ok (r, rs), w')" "c' = c\<lparr>rules := rs\<rparr>"
    using assms by (auto simp: controller_initialize_def split: prod.splits result.splits)
  moreover have "keeps (\<lambda>v. tracker_keys v = tracker_keys w) (initialize_rules L (rules c))"
    by (rule keeps_initialize_rules) simp
  ultimately show ?thesis using keepsD by fastforce
qed

text \<open>A successful reload forgets all pending requests: confirming a transaction that was checked
  before the reload succeeds without touching any counter, so its whole budget stays booked.\<close>

lemma reload_forgets_claims:
  fixes w :: "('addr, 'id, 'dg, 'sig, 'eng, 'z) rpc_world_scheme"
  assumes "reload_access_controller server token w = (Ok (OK, resp), w')"
  shows "\<exists>w''. confirm_transaction L res tr w' = (Ok (), w'') \<and> tracker_keys w'' = tracker_keys w"
proof -
  have ok: "token_ok server token"
    using assms by (auto simp: reload_access_controller_def split: if_splits)
  obtain j and cfg :: "('addr, 'dg, 'eng) gas_station_config" where load: "answer_of (config_file w) = Ok j"
    "de_config (server_access_lib server) (read_keypair server) j = Ok cfg"
    using assms ok by (auto simp: reload_access_controller_def load_config_def split: result.splits)
  note fresh = de_config_fresh [OF load(2)]
  have cfg: "load_config server w = (Ok cfg, w)"
    using load by (simp add: load_config_def)
  then obtain c w1 where c: "controller_initialize (server_access_lib server) (access_controller_cfg cfg) w =
      (Ok (Ok (), c), w1)" "w' = w1\<lparr>controller := c\<rparr>"
    using assms ok
    by (auto simp: reload_access_controller_def install_controller_def split: prod.splits result.splits)
  from controller_initialize_result [OF c(1)] fresh c(2) show ?thesis
    by (simp add: confirm_none pending_set_def)
qed

section \<open>A client at a server\<close>

lemma starts_with_address: "starts_with a (a @ p)" by simp

lemma answer_reserve:
  "addr_codec_ok A \<Longrightarrow> wire_lib_ok W \<Longrightarrow>
     de_reserve_response A W (ser_reserve_response A W r) = Ok r"
  using reserve_response_json.roundtrip by blast

text \<open>The token that arrives is the one that was sent, whatever headers go with it.\<close>

lemma token_arrives:
  assumes "bearer_ok W" "stack_ok K" "token = Some t" "plain_token t"
  shows "bearer_token W (insert_auth token hs @ own_headers K body) = Some t"
  using assms by (simp add: bearer_ok_def stack_ok_def insert_auth_def)

lemma no_token_arrives:
  "bearer_ok W \<Longrightarrow> stack_ok K \<Longrightarrow> bearer_token W (insert_auth None [] @ own_headers K body) = None"
  by (simp add: bearer_ok_def stack_ok_def insert_auth_def)

lemma plain_token_arrives:
  "bearer_ok W \<Longrightarrow> stack_ok K \<Longrightarrow> pred_option plain_token token \<Longrightarrow>
     bearer_token W (insert_auth token [] @ own_headers K body) = token"
  using no_token_arrives token_arrives by (cases token) auto

text \<open>What the client makes of a call, as the server it is connected to runs it.\<close>

lemma client_reserve_run:
  assumes "addr_codec_ok (addr_lib (server_access_lib server))" "wire_lib_ok (server_wire_lib server)"
    and "bearer_ok (server_wire_lib server)" "stack_ok K"
    and "auth_header client = Ok token" "pred_option plain_token token"
  shows "client_reserve_gas (addr_lib (server_access_lib server)) (server_wire_lib server)
      (deliver K (server_address client) server) client budget secs =
    pbind (server_reserve_gas server token \<lparr>rg_gas_budget = budget, rg_reserve_duration_secs = secs\<rparr>)
      (\<lambda>(status, response).
         case rgr_result response of
           Some r \<Rightarrow> pret (rr_sponsor_address r, rr_reservation_id r, rr_gas_coins r)
         | None \<Rightarrow> perr (Anyhow (case rgr_error response of Some e \<Rightarrow> e | None \<Rightarrow> ''Unknown error'')))"
  (is "?lhs = ?rhs")
proof
  show "?lhs w = ?rhs w" for w
    using assms(5)
    by (simp add: client_reserve_gas_def deliver_def plain_request_def rpc_serve_def routes_def Let_def
        request_token_def plain_token_arrives [OF assms(3,4,6)] reserve_request_json.roundtrip reply_of_def
        answer_reserve [OF assms(1,2)] split: prod.splits result.splits option.splits)
qed

lemma request_converted:
  assumes "wire_bcs_ok W d sig"
  shows "convert_tx_and_sig W (base64_encode W (tx_to_bcs W d)) (base64_encode W (sig_to_bytes W sig)) = Ok (d, sig)"
  using assms by (simp add: convert_tx_and_sig_def wire_bcs_ok_def)

lemma client_execute_run:
  assumes "wire_lib_ok (server_wire_lib server)" and "auth_header client = Ok token"
    and p: "payload = \<lparr>et_reservation_id = rid,
      et_tx_bytes = base64_encode (server_wire_lib server) (tx_to_bcs (server_wire_lib server) d),
      et_user_sig = base64_encode (server_wire_lib server) (sig_to_bytes (server_wire_lib server) sig),
      et_request_type = rt\<rparr>"
    and sent: "sent = insert_auth token (case hs of None \<Rightarrow> [] | Some h \<Rightarrow> h) @
      own_headers K (ser_execute_request payload)"
  shows "client_execute_tx (server_wire_lib server)
      (deliver K (server_address client) server) client rid d sig rt hs =
    pbind (server_execute_tx server sent (bearer_token (server_wire_lib server) sent) payload)
      (\<lambda>(status, response).
         case etr_effects response of
           Some effects \<Rightarrow> pret effects
         | None \<Rightarrow> perr (Anyhow (case etr_error response of Some e \<Rightarrow> e | None \<Rightarrow> ''Unknown error'')))"
  (is "?lhs = ?rhs")
proof
  have decoded: "de_execute_response (server_wire_lib server) (ser_execute_response (server_wire_lib server) r) = Ok r"
    for r by (rule execute_response_json.roundtrip [OF assms(1)])
  show "?lhs w = ?rhs w" for w
    using assms(2)
    by (simp add: client_execute_tx_def deliver_def rpc_serve_def routes_def Let_def request_token_def
        execute_request_json.roundtrip reply_of_def decoded p sent
        split: prod.splits result.splits option.splits)
qed

text \<open>C23: a client that reserves gas gets exactly what the server answers to its numbers and its secret:
  sponsor, id and coins of the reservation, or the message of the error. A secret of printable characters
  without blanks at its ends arrives as it was sent.\<close>

theorem client_reserves_at_server:
  assumes "addr_codec_ok (addr_lib (server_access_lib server))" "wire_lib_ok (server_wire_lib server)"
    and "bearer_ok (server_wire_lib server)" "stack_ok K"
    and "auth_header client = Ok token" "pred_option plain_token token"
  shows "client_reserve_gas (addr_lib (server_access_lib server)) (server_wire_lib server)
      (deliver K (server_address client) server) client budget secs w =
    pbind (server_reserve_gas server token \<lparr>rg_gas_budget = budget, rg_reserve_duration_secs = secs\<rparr>)
      (\<lambda>(status, response).
         case rgr_result response of
           Some r \<Rightarrow> pret (rr_sponsor_address r, rr_reservation_id r, rr_gas_coins r)
         | None \<Rightarrow> perr (Anyhow (case rgr_error response of Some e \<Rightarrow> e | None \<Rightarrow> ''Unknown error''))) w"
  by (simp only: client_reserve_run [OF assms])

text \<open>C19: a client that executes a transaction gets exactly what the server answers. The headers that
  the server hands to the rules are those of the caller with the client's secret in place of any
  authorization header among them, and those of the HTTP library; the secret is the token the server
  sees; and what it decodes from the request is the transaction and the signature the client was given.\<close>

theorem client_executes_at_server:
  assumes "wire_lib_ok (server_wire_lib server)" "wire_bcs_ok (server_wire_lib server) d sig"
    and "bearer_ok (server_wire_lib server)" "stack_ok K"
    and "auth_header client = Ok token" "pred_option plain_token token"
    and p: "payload = \<lparr>et_reservation_id = rid,
      et_tx_bytes = base64_encode (server_wire_lib server) (tx_to_bcs (server_wire_lib server) d),
      et_user_sig = base64_encode (server_wire_lib server) (sig_to_bytes (server_wire_lib server) sig),
      et_request_type = rt\<rparr>"
    and sent: "sent = insert_auth token (case hs of None \<Rightarrow> [] | Some h \<Rightarrow> h) @
      own_headers K (ser_execute_request payload)"
  shows "client_execute_tx (server_wire_lib server)
      (deliver K (server_address client) server) client rid d sig rt hs w =
    pbind (server_execute_tx server sent (bearer_token (server_wire_lib server) sent) payload)
      (\<lambda>(status, response).
         case etr_effects response of
           Some effects \<Rightarrow> pret effects
         | None \<Rightarrow> perr (Anyhow (case etr_error response of Some e \<Rightarrow> e | None \<Rightarrow> ''Unknown error''))) w \<and>
    (\<forall>t. token = Some t \<longrightarrow> bearer_token (server_wire_lib server) sent = Some t \<and>
       header_values ''authorization'' sent = [''Bearer '' @ t]) \<and>
    (token = None \<and> hs = None \<longrightarrow> bearer_token (server_wire_lib server) sent = None) \<and>
    convert_tx_and_sig (server_wire_lib server) (et_tx_bytes payload) (et_user_sig payload) = Ok (d, sig)"
proof (intro conjI)
  let ?hs = "case hs of None \<Rightarrow> [] | Some h \<Rightarrow> h"
  show "client_execute_tx (server_wire_lib server)
      (deliver K (server_address client) server) client rid d sig rt hs w =
    pbind (server_execute_tx server sent (bearer_token (server_wire_lib server) sent) payload)
      (\<lambda>(status, response).
         case etr_effects response of
           Some effects \<Rightarrow> pret effects
         | None \<Rightarrow> perr (Anyhow (case etr_error response of Some e \<Rightarrow> e | None \<Rightarrow> ''Unknown error''))) w"
    by (simp only: client_execute_run [OF assms(1,5) p sent])
  have "header_values ''authorization'' (own_headers K body) = []" for body
    using assms(4) by (simp add: stack_ok_def)
  then show "\<forall>t. token = Some t \<longrightarrow> bearer_token (server_wire_lib server) sent = Some t \<and>
       header_values ''authorization'' sent = [''Bearer '' @ t]"
    using token_arrives [OF assms(3,4), of token _ ?hs] assms(6) by (auto simp: sent) (simp add: insert_auth_def)
  show "token = None \<and> hs = None \<longrightarrow> bearer_token (server_wire_lib server) sent = None"
    using no_token_arrives [OF assms(3,4)] by (simp add: sent)
  show "convert_tx_and_sig (server_wire_lib server) (et_tx_bytes payload) (et_user_sig payload) = Ok (d, sig)"
    using request_converted [OF assms(2)] by (simp add: p)
qed

section \<open>Cold parameters\<close>

lemma save_stores:
  "save_to_storage J p key w = (Ok (), w1) \<Longrightarrow> keys w1 key = Some (RString (json_print J (ser_cold_params p)))"
proof -
  assume "save_to_storage J p key w = (Ok (), w1)"
  then have "redis_set key (json_print J (ser_cold_params p)) (keys w) = (Inr (), keys w1)"
    by (simp add: save_to_storage_def set_data_def invoke_Ok)
  then have "keys w1 = (keys w)(key \<mapsto> RString (json_print J (ser_cold_params p)))"
    by (simp add: redis_set_def)
  then show ?thesis by simp
qed

lemma check_reads:
  assumes "json_lib_ok J" "faults w = []" "keys w key = Some (RString (json_print J (ser_cold_params old)))"
  shows "check_if_changed J new key w = (Ok (changes_details new old), w)"
proof -
  have "invoke (redis_get key) w = (Ok (Some (json_print J (ser_cold_params old))), w)"
    using assms(3) invoke_quiet [OF assms(2), of "redis_get key"] by (simp add: redis_get_Some)
  then show ?thesis
    using assms(1) by (simp add: check_if_changed_def get_data_def json_lib_ok_def cold_params_json.roundtrip)
qed

text \<open>Once cold parameters are saved, a start with other parameters that does not allow a
  re-initialisation ends with a panic that names the change, before the registry is touched, while a start
  with the same parameters finds no change.\<close>

lemma changed_parameters_stop_start:
  assumes "json_lib_ok (boot_json B)" "save_to_storage (boot_json B) old key w = (Ok (), w1)" "faults w1 = []"
    and "\<not> allow_reinit cmd" "new \<noteq> old"
  shows "coin_init B cmd st init new key w1 =
      (Panic (reinit_not_allowed_message
         [''target_init_balance: '' @ debug_opt_u64 (cp_target_init_balance new) @ '' -> '' @
            debug_opt_u64 (cp_target_init_balance old)]), w1) \<and>
    check_if_changed (boot_json B) old key w1 = (Ok [], w1)"
proof -
  note check = check_reads [OF assms(1,3) save_stores [OF assms(2)]]
  have "cp_target_init_balance new \<noteq> cp_target_init_balance old"
    using assms(5) by (cases new; cases old) auto
  then show ?thesis
    using assms(4) check [of new] check [of old]
    by (simp add: coin_init_def changes_details_def force_full_rescan_of_def)
qed

text \<open>
  Without the section \<open>coin-init-config\<close> a start with the flag saves the new parameters although nothing
  was rescanned, and the next start finds no change. Asking for the registry to be deleted without the
  flag has no effect.
\<close>

lemma change_saved_without_rescan:
  assumes "json_lib_ok (boot_json B)" "faults w = []"
    and "keys w key = Some (RString (json_print (boot_json B) (ser_cold_params old)))" "allow_reinit cmd"
  shows "\<exists>w1. coin_init B cmd st None new key w = (Ok (), w1) \<and>
    keys w1 = (keys w)(key \<mapsto> RString (json_print (boot_json B) (ser_cold_params new))) \<and>
    check_if_changed (boot_json B) new key w1 = (Ok [], w1)"
proof -
  define w1 where "w1 = w\<lparr>keys := (keys w)(key \<mapsto> RString (json_print (boot_json B) (ser_cold_params new)))\<rparr>"
  have "save_to_storage (boot_json B) new key w = (Ok (), w1)"
    using invoke_quiet [OF assms(2), of "redis_set key (json_print (boot_json B) (ser_cold_params new))"]
    by (simp add: save_to_storage_def set_data_def redis_set_simp w1_def)
  then have "coin_init B cmd st None new key w = (Ok (), w1)"
    using check_reads [OF assms(1-3), of new] assms(4)
    by (simp add: coin_init_def force_full_rescan_of_def)
  moreover have "check_if_changed (boot_json B) new key w1 = (Ok [], w1)"
    using check_reads [OF assms(1), of w1 key new new] assms(2) by (simp add: w1_def changes_details_def)
  ultimately show ?thesis by (auto simp: w1_def)
qed

lemma deletion_needs_the_other_flag:
  "\<not> allow_reinit cmd \<Longrightarrow> force_full_rescan_of cmd [] = Ok False"
  by (simp add: force_full_rescan_of_def)

section \<open>Examples\<close>

text \<open>A JSON form of references and effects over numbers, and transactions that decode to one.\<close>

definition ser_nat_ref :: "(nat, nat) object_ref \<Rightarrow> json" where
  "ser_nat_ref r = (case r of (i, v, d) \<Rightarrow> JArray [JNumber (int i), ser_u64 v, JNumber (int d)])"

fun de_nat_ref :: "json \<Rightarrow> (nat, nat) object_ref result" where
  "de_nat_ref (JArray [JNumber i, v, JNumber d]) = rbind (de_u64 v) (\<lambda>v. Ok (nat i, v, nat d))"
| "de_nat_ref j = de_error ''invalid reference''"

definition ser_nat_effects :: "(nat, nat) tx_effects \<Rightarrow> json" where
  "ser_nat_effects e = JArray [ser_nat_ref (gas_object e), ser_u64 (net_gas_usage e),
     JArray (map ser_nat_ref (created e)), JBool (status_ok e), ser_u64 (gas_used e)]"

fun de_nat_effects :: "json \<Rightarrow> (nat, nat) tx_effects result" where
  "de_nat_effects (JArray [g, n, c, JBool b, u]) =
     rbind (de_nat_ref g) (\<lambda>g. rbind (de_u64 n) (\<lambda>n. rbind (de_list de_nat_ref c) (\<lambda>c. rbind (de_u64 u) (\<lambda>u.
     Ok \<lparr>gas_object = g, net_gas_usage = n, created = c, status_ok = b, gas_used = u\<rparr>))))"
| "de_nat_effects j = de_error ''invalid effects''"

definition sample_bearer :: "header_map \<Rightarrow> string option" where
  "sample_bearer hs = (case header_values ''authorization'' hs of
     [v] \<Rightarrow> if take 7 v = ''Bearer '' then Some (drop 7 v) else None | _ \<Rightarrow> None)"

definition sample_stack :: http_stack where
  "sample_stack = \<lparr>own_headers = (\<lambda>body. [(''content-type'', ''application/json'')]), stack_debug = (\<lambda>r. [])\<rparr>"

definition sample_wire :: "(nat, nat, nat, nat) wire_lib" where
  "sample_wire = \<lparr>base64_encode = (\<lambda>s. s), base64_decode = Some, tx_to_bcs = (\<lambda>d. []),
     tx_from_bcs = (\<lambda>b. Inr ex_paid_tx), sig_to_bytes = (\<lambda>s. show_nat s),
     sig_from_bytes = (\<lambda>b. case read_nat b of Some n \<Rightarrow> Inr n | None \<Rightarrow> Inl (Anyhow ''invalid signature'')),
     ser_ref = ser_nat_ref, de_ref = de_nat_ref, ser_effects = ser_nat_effects, de_effects = de_nat_effects,
     bearer_token = sample_bearer\<rparr>"

lemma de_ser_nat_ref: "de_nat_ref (ser_nat_ref r) = Ok r"
  by (cases r) (simp add: ser_nat_ref_def)

lemma sample_wire_ok: "wire_lib_ok sample_wire" "wire_bcs_ok sample_wire ex_paid_tx sig"
proof -
  have "map_result de_nat_ref (map ser_nat_ref rs) = Ok rs" for rs
    using map_result_map [of rs de_nat_ref ser_nat_ref "\<lambda>r. r"] by (simp add: de_ser_nat_ref)
  then show "wire_lib_ok sample_wire"
    by (simp add: wire_lib_ok_def sample_wire_def de_ser_nat_ref ser_nat_effects_def)
  show "wire_bcs_ok sample_wire ex_paid_tx sig"
    by (simp add: wire_bcs_ok_def sample_wire_def)
qed

lemma sample_bearer_ok: "bearer_ok sample_wire" "stack_ok sample_stack"
  by (simp_all add: bearer_ok_def sample_wire_def sample_bearer_def stack_ok_def sample_stack_def header_values_def)

definition sample_server :: "string option \<Rightarrow> (nat, nat, nat, nat, unit) server_state" where
  "sample_server auth = \<lparr>server_station = ex_station, secret = auth, server_tracker = sample_tracker,
     server_access_lib = sample_lib,
     server_tx_lib = \<lparr>tx_digest = (\<lambda>d. unat (gas_budget d)), tx_json = (\<lambda>d. Some JNull), address_of_id = (\<lambda>i. i)\<rparr>,
     server_wire_lib = sample_wire, read_keypair = Some, error_debug = error_to_string,
     default_address = 0, server_version = ''1.0'', panic_abort = True\<rparr>"

definition sample_config_file :: json where
  "sample_config_file = JObject
     [(''signer-config'', JObject [(''local'', JObject [(''keypair'', JString ''k'')])]),
      (''rpc-host-ip'', JString ''0.0.0.0''), (''rpc-port'', JNumber 9527), (''metrics-port'', JNumber 9184),
      (''storage-config'', JObject [(''redis'', JObject [(''redis-url'', JString ''redis://localhost'')])]),
      (''fullnode-url'', JString ''http://localhost:9000''), (''daily-gas-usage-cap'', JNumber 1000)]"

definition sample_rpc_world ::
  "(nat, nat, unit) access_controller \<Rightarrow> (nat, nat, nat, nat, unit) rpc_world"
where
  "sample_rpc_world c =
     \<lparr>keys = Map.empty, clock = [5000], faults = [], events = [], coin_answers = [],
      price_answers = [], object_answers = [], inspect_answers = [], exec_answers = [],
      sign_answers = [], calls = [], usage_cap = gas_usage_cap_new 1000 0, dates = [0],
      rescan = create_receiver rescan_new, task_queue = [], total_coin_count = 0, wake_ups = [],
      tracker_keys = Map.empty, hook_answers = [], hook_calls = [], source_answers = [],
      controller = c, config_file = Inr sample_config_file, event_ids = []\<rparr>"

definition sample_client :: rpc_client where
  "sample_client = client_new (Some ''secret'') (\<lambda>h. True) ''http://localhost:9527''"

definition sample_query :: http_request where
  "sample_query = \<lparr>hreq_method = POST, hreq_path = ''/v1/execute_tx'', hreq_headers = [(''authorization'', ''Bearer guess'')], hreq_body = ser_execute_request
       \<lparr>et_reservation_id = 1, et_tx_bytes = [], et_user_sig = [], et_request_type = None\<rparr>\<rparr>"

theorem unauthorized_changes_nothing_witness:
  "\<exists>r w'. rpc_serve (sample_server (Some ''secret'')) sample_query (sample_rpc_world sample_controller) = (r, w') \<and>
     station_part w' = station_part (sample_rpc_world sample_controller) \<and>
     (\<exists>reply. r = Ok reply \<and> (\<forall>j. reply \<noteq> Reply OK (JsonBody j)))"
proof -
  obtain r w' where run:
    "rpc_serve (sample_server (Some ''secret'')) sample_query (sample_rpc_world sample_controller) = (r, w')"
    by fastforce
  from unauthorized_changes_nothing [OF _ _ run, of "''secret''"] run show ?thesis
    by (auto simp: sample_server_def sample_query_def request_token_def sample_wire_def sample_bearer_def
        header_values_def)
qed

definition sample_execute_request :: execute_tx_request where
  "sample_execute_request =
     \<lparr>et_reservation_id = 1, et_tx_bytes = [], et_user_sig = ''5'', et_request_type = None\<rparr>"

definition closed_controller :: "(nat, nat, unit) access_controller" where
  "closed_controller = controller_new DenyAll []"

lemmas sample_server_exec = server_execute_tx_def sample_server_def token_ok_def convert_tx_and_sig_def
  sample_wire_def sample_execute_request_def context_new_def ex_paid_tx_def spawned_def
  execute_tx_impl_def access_verdict_def check_access_def sample_rpc_world_def closed_controller_def
  controller_new_def is_disabled_def confirm_quietly_def confirm_transaction_def take_requests_def
  execution_result_new_def Let_def

lemma sample_denied:
  "\<exists>w'. server_execute_tx (sample_server None) [] None sample_execute_request
      (sample_rpc_world closed_controller) =
    (Ok (FORBIDDEN, execute_response_err (Anyhow ''Access denied by access controller'')), w')"
  by (simp add: sample_server_exec read_nat_def is_digit_def digit_val_def)

theorem rejected_transaction_leaves_station_witness:
  "\<exists>resp w'. server_execute_tx (sample_server None) [] None sample_execute_request
      (sample_rpc_world closed_controller) = (Ok (FORBIDDEN, resp), w') \<and>
    station_part w' = station_part (sample_rpc_world closed_controller) \<and>
    confirmation_requests (controller w') 5 = None"
proof -
  obtain resp w' where run: "server_execute_tx (sample_server None) [] None sample_execute_request
      (sample_rpc_world closed_controller) = (Ok (FORBIDDEN, resp), w')"
    using sample_denied by blast
  from rejected_transaction_leaves_station [OF run] run show ?thesis
    by (auto simp: sample_server_def sample_wire_def convert_tx_and_sig_def ex_paid_tx_def
        sample_execute_request_def)
qed

lemma sample_reload:
  "\<exists>resp w'. reload_access_controller (sample_server None) None (sample_rpc_world sample_controller) =
    (Ok (OK, resp), w')"
  by (simp add: reload_access_controller_def sample_server_def token_ok_def load_config_def
      sample_rpc_world_def sample_config_file_def de_field_def de_alias_def de_ipv4_def parse_ipv4_def
      parse_octet_def read_nat_def is_digit_def digit_val_def de_optional_def de_default_def de_u64_def
      default_controller_def controller_new_def controller_initialize_def install_controller_def)

lemma sample_auth: "auth_header sample_client = Ok (Some ''secret'')" "pred_option plain_token (Some ''secret'')"
  by (simp_all add: auth_header_def sample_client_def client_new_def read_auth_env_def plain_token_def)

theorem client_reserves_at_server_witness:
  "\<exists>w'. client_reserve_gas sample_addr sample_wire
      (deliver sample_stack ''http://localhost:9527'' (sample_server (Some ''secret''))) sample_client 0 60
      (sample_rpc_world sample_controller) = (Err (Anyhow ''Gas budget must be positive''), w')"
proof -
  have "addr_codec_ok (addr_lib (server_access_lib (sample_server (Some ''secret''))))"
    "wire_lib_ok (server_wire_lib (sample_server (Some ''secret'')))"
    "bearer_ok (server_wire_lib (sample_server (Some ''secret'')))"
    by (simp_all add: sample_server_def sample_lib_def sample_ok sample_wire_ok sample_bearer_ok)
  from client_reserves_at_server [OF this sample_bearer_ok(2) sample_auth, of 0 60 "sample_rpc_world sample_controller"]
  show ?thesis
    by (simp add: sample_client_def client_new_def sample_server_def sample_lib_def server_reserve_gas_def
        token_ok_def check_reserve_gas_request_validity_def reserve_response_err_def)
qed

theorem client_executes_at_server_witness:
  "\<exists>w'. client_execute_tx sample_wire
      (deliver sample_stack ''http://localhost:9527'' (sample_server None)) sample_client 1 ex_paid_tx 5 None
      (Some [(''authorization'', ''Bearer other'')]) (sample_rpc_world closed_controller) = (Err (Anyhow ''Access denied by access controller''), w')"
proof -
  have "wire_lib_ok (server_wire_lib (sample_server None))"
    "wire_bcs_ok (server_wire_lib (sample_server None)) ex_paid_tx 5"
    "bearer_ok (server_wire_lib (sample_server None))"
    by (simp_all add: sample_server_def sample_wire_ok sample_bearer_ok)
  from client_executes_at_server [OF this sample_bearer_ok(2) sample_auth refl refl, of 1 None
      "Some [(''authorization'', ''Bearer other'')]" "sample_rpc_world closed_controller"]
  show ?thesis
    by (simp add: sample_client_def client_new_def sample_server_exec execute_response_err_def)
qed

definition sample_json :: json_lib where
  "sample_json = \<lparr>json_print = (\<lambda>j. case j of JObject [(k, JNumber i)] \<Rightarrow> show_int i | _ \<Rightarrow> ''null''),
     json_parse = (\<lambda>s. Some (JObject [(''target_init_balance'',
       case read_int s of Some i \<Rightarrow> JNumber i | None \<Rightarrow> JNull)]))\<rparr>"

lemma sample_json_ok: "json_lib_ok sample_json"
  by (simp add: json_lib_ok_def sample_json_def ser_cold_params_def ser_u64_def read_nat_def is_digit_def
      split: option.splits)

definition sample_boot :: "(nat, nat, nat, nat, unit) boot" where
  "sample_boot = \<lparr>boot_codec = nat_codec, boot_latest_ms = 100000, boot_show_address = show_nat,
     boot_fuel = 5, boot_json = sample_json, boot_framework = 2, boot_batches = [],
     boot_urls = (\<lambda>u. None), redis_connects = True, node_connects = True,
     boot_server = sample_server None, boot_auth_env = None\<rparr>"

definition careful_start :: start_command where
  "careful_start = \<lparr>ignore_locks = False, allow_reinit = False, delete_coin_registry = False\<rparr>"

end
