(* ===== verification/Isolation.thy ===== *)
theory Isolation
  imports Migration
begin

text \<open>
  Several gas stations on one Redis. Every station has a namespace and every key its scripts touch
  begins with it, so that no call of one station, whatever the faults of the network, changes the
  pool of another: their namespaces, made of the network, the sponsor and a suffix, have no key in
  common.
\<close>

section \<open>Scripts stay in their namespace\<close>

definition within :: "string set \<Rightarrow> 'a script \<Rightarrow> bool" where
  "within K s \<longleftrightarrow> (\<forall>db k. k \<notin> K \<longrightarrow> snd (s db) k = db k)"

abbreviation keys_of :: "string \<Rightarrow> string set" where
  "keys_of ns \<equiv> range (nkey ns)"

named_theorems within_rules \<open>structural rules for within\<close>

lemma within_basic [within_rules]:
  "within K (sret a)" "within K (sfail e)" "within K (sneed x)"
  by (cases x; simp add: within_def sneed_def)+

lemma within_sbind [within_rules]:
  "within K m \<Longrightarrow> (\<And>a. within K (f a)) \<Longrightarrow> within K (sbind m f)"
  unfolding within_def by (auto split: prod.splits sum.splits) (metis snd_conv)+

lemma within_sseq [within_rules]: "within K m \<Longrightarrow> within K n \<Longrightarrow> within K (sseq m n)"
  unfolding sseq_def by (rule within_sbind)

lemma within_smap [within_rules]: "(\<And>x. within K (f x)) \<Longrightarrow> within K (smap f xs)"
  by (induction xs) (simp_all add: within_rules)

lemma within_cases [within_rules]:
  "(b \<Longrightarrow> within K m) \<Longrightarrow> (\<not> b \<Longrightarrow> within K n) \<Longrightarrow> within K (if b then m else n)"
  "(x = None \<Longrightarrow> within K m) \<Longrightarrow> (\<And>a. x = Some a \<Longrightarrow> within K (f a)) \<Longrightarrow>
     within K (case x of None \<Rightarrow> m | Some a \<Rightarrow> f a)"
  "(\<And>a b. within K (g a b)) \<Longrightarrow> within K (case p of (a, b) \<Rightarrow> g a b)"
  "within K (h y) \<Longrightarrow> within K (Let y h)"
  by (simp_all split: option.splits prod.splits)

lemma within_reads [within_rules]:
  "within K (redis_get k)" "within K (redis_exists k)" "within K (redis_lall k)"
  "within K (redis_llen k)" "within K (redis_zrangebyscore k lo hi)" "within K (redis_zall k)"
  by (auto simp: within_def redis_get_def redis_exists_def redis_lall_def redis_llen_def
      redis_zrangebyscore_def redis_zall_def split: option.splits rval.splits prod.splits sum.splits)

lemma within_writes [within_rules]:
  "k \<in> K \<Longrightarrow> within K (redis_set k s)" "k \<in> K \<Longrightarrow> within K (redis_incr k)"
  "k \<in> K \<Longrightarrow> within K (redis_lpop k)" "k \<in> K \<Longrightarrow> within K (redis_lpush k s)"
  "k \<in> K \<Longrightarrow> within K (redis_rpush k s)" "k \<in> K \<Longrightarrow> within K (redis_zadd k i s)"
  "k \<in> K \<Longrightarrow> within K (redis_zremrangebyscore k lo hi)" "set ks \<subseteq> K \<Longrightarrow> within K (redis_del ks)"
  by (auto simp: within_def redis_set_def redis_incr_def redis_lpop_def redis_lpush_def redis_rpush_def
      redis_zadd_def redis_zremrangebyscore_def redis_del_def split: option.splits rval.splits list.splits)

lemma take_coins_within:
  assumes "k \<in> K" and "k' \<notin> K"
  shows "snd (take_coins k target tot coins object_ids db) k' = db k'"
  using assms(1)
proof (induction k target tot coins object_ids db rule: take_coins.induct)
  case (1 k target tot coins object_ids db)
  have pop: "d k' = db k'" if "redis_lpop k db = (r, d)" for r d
    using within_writes(3) [OF "1.prems"] assms(2) that unfolding within_def by (metis snd_conv)
  show ?case
    using 1 pop
    by (subst take_coins.simps) (auto split: prod.splits sum.splits option.splits)
qed

lemma within_take_coins [within_rules]: "k \<in> K \<Longrightarrow> within K (take_coins k target tot coins object_ids)"
  by (simp add: within_def take_coins_within)

lemma within_loops [within_rules]:
  "k \<in> K \<Longrightarrow> within K (add_loop k tot cs)"
  "keys_of ns \<subseteq> K \<Longrightarrow> within K (expire_loop ns expired ids)"
  "within K (sum_balances tot cs)"
proof -
  show "within K (add_loop k tot cs)" if "k \<in> K"
    using that by (induction cs arbitrary: tot) (simp_all add: within_rules)
  show "within K (expire_loop ns expired ids)" if "keys_of ns \<subseteq> K"
    using that by (induction ids arbitrary: expired) (auto simp: Let_def intro!: within_rules)
  show "within K (sum_balances tot cs)"
    by (induction cs arbitrary: tot) (simp_all add: within_rules)
qed

lemma within_clean_up [within_rules]:
  "\<forall>k \<in> set (concat batches). starts_with (ns @ '':'') k \<Longrightarrow>
     within (keys_of ns) (clean_up_loop ns n batches)"
proof (induction batches arbitrary: n)
  case Nil
  then show ?case by (simp add: within_def)
next
  case (Cons ks batches)
  have "set (keys_to_delete ns ks) \<subseteq> keys_of ns"
    using Cons.prems by (auto simp: keys_to_delete_def nkey_def starts_with_iff)
  with Cons show ?case
    by (auto simp: Let_def intro!: within_rules)
qed

text \<open>Every script of the registry stays in its namespace.\<close>

lemma within_scripts:
  "within (keys_of ns) (reserve_gas_coins_lua ns b e t)" "within (keys_of ns) (ready_for_execution_lua ns r)"
  "within (keys_of ns) (add_new_coins_lua ns cs)" "within (keys_of ns) (expire_coins_lua ns t)"
  "within (keys_of ns) (init_coin_stats_at_startup_lua ns)" "within (keys_of ns) (get_is_initialized_lua ns)"
  "within (keys_of ns) (acquire_init_lock_lua ns t d)" "within (keys_of ns) (release_init_lock_lua ns)"
  "within (keys_of ns) (acquire_maintenance_lock_lua ns t d)" "within (keys_of ns) (release_maintenance_lock_lua ns)"
  "within (keys_of ns) (is_maintenance_mode_lua ns t)" "within (keys_of ns) (get_available_coin_count_lua ns)"
  "within (keys_of ns) (get_available_coin_total_balance_lua ns)"
  by (auto simp: reserve_gas_coins_lua_def ready_for_execution_lua_def add_new_coins_lua_def
      expire_coins_lua_def init_coin_stats_at_startup_lua_def get_is_initialized_lua_def
      acquire_init_lock_lua_def release_init_lock_lua_def acquire_maintenance_lock_lua_def
      release_maintenance_lock_lua_def is_maintenance_mode_lua_def get_available_coin_count_lua_def
      get_available_coin_total_balance_lua_def acquire_lock_def lock_time_def mark_initialized_def
      stored_int_def simp del: sbind_apply sseq_apply intro!: within_rules)


section \<open>The calls of a station\<close>

text \<open>Everything a station asks of its storage, and what becomes of the world.\<close>

datatype ('id, 'dg) storage_call =
    PoolCall "('id, 'dg) request"
  | InitStats
  | IsInitialized
  | AcquireInitLock u64
  | ReleaseInitLock
  | AcquireMaintenance u64
  | ReleaseMaintenance
  | IsMaintenance
  | CountCoins
  | SumCoins
  | CheckHealth
  | CleanUp "string list list"

fun call_storage ::
  "('id, 'dg) codec \<Rightarrow> int \<Rightarrow> redis_storage \<Rightarrow> ('id, 'dg) storage_call \<Rightarrow> 'z world_scheme \<Rightarrow> 'z world_scheme"
where
  "call_storage C latest self (PoolCall q) w = snd (serve C latest self q w)"
| "call_storage C latest self InitStats w = snd (init_coin_stats_at_startup self w)"
| "call_storage C latest self IsInitialized w = snd (is_initialized self w)"
| "call_storage C latest self (AcquireInitLock d) w = snd (acquire_init_lock self d w)"
| "call_storage C latest self ReleaseInitLock w = snd (release_init_lock self w)"
| "call_storage C latest self (AcquireMaintenance d) w = snd (acquire_maintenance_lock self d w)"
| "call_storage C latest self ReleaseMaintenance w = snd (release_maintenance_lock self w)"
| "call_storage C latest self IsMaintenance w = snd (is_maintenance_mode self w)"
| "call_storage C latest self CountCoins w = snd (get_available_coin_count self w)"
| "call_storage C latest self SumCoins w = snd (get_available_coin_total_balance self w)"
| "call_storage C latest self CheckHealth w = snd (check_health self w)"
| "call_storage C latest self (CleanUp batches) w = snd (clean_up_coin_registry batches self w)"

text \<open>\<open>SCAN\<close> with the pattern \<open>namespace:*\<close> returns keys of the namespace only.\<close>

fun scans_own :: "string \<Rightarrow> ('id, 'dg) storage_call \<Rightarrow> bool" where
  "scans_own ns (CleanUp batches) \<longleftrightarrow> list_all (starts_with (ns @ '':'')) (concat batches)"
| "scans_own ns c \<longleftrightarrow> True"

definition same_outside :: "string \<Rightarrow> keyspace \<Rightarrow> 'z world_scheme \<Rightarrow> bool" where
  "same_outside ns db w \<longleftrightarrow> (\<forall>k. k \<notin> keys_of ns \<longrightarrow> keys w k = db k)"

lemma same_outside_upd [simp]:
  "same_outside ns db (w\<lparr>events := es\<rparr>) = same_outside ns db w"
  "same_outside ns db (w\<lparr>clock := ts\<rparr>) = same_outside ns db w"
  "same_outside ns db (w\<lparr>faults := fs\<rparr>) = same_outside ns db w"
  by (simp_all add: same_outside_def)

lemma keeps_outside_invoke: "within (keys_of ns) s \<Longrightarrow> keeps (same_outside ns db) (invoke s)"
  using invoke_db [of s] unfolding keeps_def same_outside_def within_def
  by (metis insertE singletonD)

lemma keeps_outside_basic:
  "keeps (same_outside ns db) (emit m)" "keeps (same_outside ns db) utc_now_ms"
  "keeps (same_outside ns db) utc_now_sec" "keeps (same_outside ns db) (plift r)"
  by (intro keeps_rules; simp)+

lemmas outside_rules = keeps_outside_invoke within_scripts keeps_outside_basic

lemma keeps_outside_calls:
  "keeps (same_outside (namespace self) db) (reserve_gas_coins C latest self b d)"
  "keeps (same_outside (namespace self) db) (ready_for_execution self rid)"
  "keeps (same_outside (namespace self) db) (add_new_coins C self cs)"
  "keeps (same_outside (namespace self) db) (expire_coins C self)"
  "keeps (same_outside (namespace self) db) (init_coin_stats_at_startup self)"
  "keeps (same_outside (namespace self) db) (is_initialized self)"
  "keeps (same_outside (namespace self) db) (acquire_init_lock self d)"
  "keeps (same_outside (namespace self) db) (release_init_lock self)"
  "keeps (same_outside (namespace self) db) (acquire_maintenance_lock self d)"
  "keeps (same_outside (namespace self) db) (release_maintenance_lock self)"
  "keeps (same_outside (namespace self) db) (is_maintenance_mode self)"
  "keeps (same_outside (namespace self) db) (get_available_coin_count self)"
  "keeps (same_outside (namespace self) db) (get_available_coin_total_balance self)"
  "keeps (same_outside (namespace self) db) (check_health self)"
  unfolding reserve_gas_coins_def ready_for_execution_def add_new_coins_def expire_coins_def
    init_coin_stats_at_startup_def is_initialized_def acquire_init_lock_def release_init_lock_def
    acquire_maintenance_lock_def release_maintenance_lock_def is_maintenance_mode_def
    get_available_coin_count_def get_available_coin_total_balance_def check_health_def
    publish_pool_gauges_def script_manager_defs
  by ((rule outside_rules within_basic | rule keeps_rules | assumption)+)


lemma keeps_outside_clean_up:
  assumes "list_all (starts_with (namespace self @ '':'')) (concat batches)"
  shows "keeps (same_outside (namespace self) db) (clean_up_coin_registry batches self)"
proof -
  have "within (keys_of (namespace self)) (clean_up_coin_registry_lua (namespace self) batches)"
    using assms by (simp add: clean_up_coin_registry_lua_def list_all_iff within_clean_up)
  then show ?thesis
    unfolding clean_up_coin_registry_def script_manager_defs
    by (intro keeps_rules keeps_outside_invoke)
qed

lemma keeps_left: "keeps P m \<Longrightarrow> P w \<Longrightarrow> P (snd (m w))"
  by (simp add: keeps_def)

lemma call_stays_outside:
  assumes "scans_own (namespace self) c" and "same_outside (namespace self) db w"
  shows "same_outside (namespace self) db (call_storage C latest self c w)"
proof (cases c)
  case (PoolCall q)
  then show ?thesis
    using assms(2) keeps_outside_calls(1-4) [THEN keeps_left]
    by (cases q) (simp_all add: case_prod_unfold)
next
  case (CleanUp batches)
  then show ?thesis using assms keeps_outside_clean_up [THEN keeps_left] by simp
qed (use assms(2) keeps_outside_calls [THEN keeps_left] in simp_all)

lemma calls_stay_outside:
  "list_all (scans_own (namespace self)) calls \<Longrightarrow> same_outside (namespace self) db w \<Longrightarrow>
     same_outside (namespace self) db (fold (call_storage C latest self) calls w)"
  by (induction calls arbitrary: w) (simp_all add: call_stays_outside)

section \<open>Stations do not share keys\<close>

lemma namespaces_apart:
  assumes "get_storage_namespace parse url a = Ok n" and "get_storage_namespace parse url b = Ok m"
    and "length a = length b" and "a \<noteq> b"
  shows "apart (generate_namespace n) (generate_namespace m)"
  using assms
  by (auto simp: get_storage_namespace_def generate_namespace_def apart_def nkey_def Let_def
      split: option.splits)

lemma pool_rel_cong:
  assumes "\<And>a. db' (nkey ns a) = db (nkey ns a)"
  shows "pool_rel C ns db' p = pool_rel C ns db p"
  by (simp add: pool_rel_def queue_rel_def next_rel_def lock_rel_def schema_ok_def assms)

text \<open>
  C36: Gas stations of different sponsors on the same network and the same Redis do not disturb each
  other: whatever sequence of storage calls one of them makes, under every fault of the network, the
  pool of the other is represented unchanged.
\<close>

theorem stations_are_isolated:
  assumes "get_storage_namespace parse url a = Ok n" and "get_storage_namespace parse url b = Ok m"
    and "length a = length b" and "a \<noteq> b" and "namespace self = generate_namespace n"
    and "list_all (scans_own (namespace self)) calls"
    and "pool_rel D (generate_namespace m) (keys w) p"
  shows "pool_rel D (generate_namespace m) (keys (fold (call_storage C latest self) calls w)) p"
proof -
  have "same_outside (namespace self) (keys w) (fold (call_storage C latest self) calls w)"
    by (rule calls_stay_outside [OF assms(6)]) (simp add: same_outside_def)
  moreover have "apart (namespace self) (generate_namespace m)"
    using namespaces_apart [OF assms(1-4)] assms(5) by simp
  ultimately have "keys (fold (call_storage C latest self) calls w) (nkey (generate_namespace m) x) =
      keys w (nkey (generate_namespace m) x)" for x
    unfolding same_outside_def apart_def by (metis rangeE)
  with assms(7) show ?thesis by (subst pool_rel_cong [where db = "keys w"])
qed

definition ex_url :: "string \<Rightarrow> parsed_url option" where
  "ex_url s = Some \<lparr>scheme = ''https'', host_str = Some ''api.iota.cafe'', port = None\<rparr>"

definition first_station :: redis_storage where
  "first_station = \<lparr>sponsor_str = ''0xa'', namespace = ''api.iota.cafe_443:0xa:registry''\<rparr>"

definition second_world :: world where
  "second_world = \<lparr>keys = empty_keys ''api.iota.cafe_443:0xb:registry'', clock = [1000],
     faults = [LostReply], events = []\<rparr>"

theorem stations_are_isolated_witness:
  "pool_rel nat_codec ''api.iota.cafe_443:0xb:registry''
     (keys (fold (call_storage nat_codec 100000 first_station)
        [InitStats, PoolCall (Add [ex_coin 7 5]), PoolCall (Reserve 5 100), AcquireMaintenance 60,
         CleanUp [[''api.iota.cafe_443:0xa:registry:initialized'']]] second_world)) empty_pool"
proof -
  have port: "show_nat 443 = ''443''" by (simp add: show_nat.simps digit_char_def)
  have ns: "get_storage_namespace ex_url [] ''0xa'' = Ok ''api.iota.cafe_443:0xa''"
    "get_storage_namespace ex_url [] ''0xb'' = Ok ''api.iota.cafe_443:0xb''"
    by (simp_all add: get_storage_namespace_def ex_url_def port)
  have other: "generate_namespace ''api.iota.cafe_443:0xb'' = ''api.iota.cafe_443:0xb:registry''"
    by (simp add: generate_namespace_def)
  show ?thesis
    using stations_are_isolated [where D = nat_codec and C = nat_codec and latest = 100000 and
        self = first_station and w = second_world and p = empty_pool and
        calls = "[InitStats, PoolCall (Add [ex_coin 7 5]), PoolCall (Reserve 5 100),
          AcquireMaintenance 60, CleanUp [[''api.iota.cafe_443:0xa:registry:initialized'']]]", OF ns]
    unfolding other
    by (simp add: first_station_def generate_namespace_def second_world_def empty_pool_rel)
qed

end
