(* ===== verification/Unit_Tests.thy ===== *)
theory Unit_Tests
  imports Effects
begin

text \<open>
  The repository's own tests as programs of the model. A test panics when an assertion fails and
  passes when it ends with \<open>Ok ()\<close>. \<open>wp m Q w\<close> says that \<open>m\<close> started in \<open>w\<close> ends with a value and a
  world that satisfy \<open>Q\<close>; its rules run a test statement by statement.
\<close>

definition assert :: "bool \<Rightarrow> ('w, unit) prog" where
  "assert b = (if b then pret () else ppanic ''assertion failed'')"

definition in_order :: "('w, unit) prog list \<Rightarrow> ('w, unit) prog" where
  "in_order ms = foldr pseq ms (pret ())"

definition passes :: "('w, unit) prog \<Rightarrow> 'w \<Rightarrow> bool" where
  "passes t w \<longleftrightarrow> fst (t w) = Ok ()"

section \<open>Weakest preconditions\<close>

definition wp :: "('w, 'a) prog \<Rightarrow> ('a \<Rightarrow> 'w \<Rightarrow> bool) \<Rightarrow> 'w \<Rightarrow> bool" where
  "wp m Q w = (case m w of (Ok a, w') \<Rightarrow> Q a w' | _ \<Rightarrow> False)"

lemma wp_plift: "wp (plift r) Q w = (case r of Ok a \<Rightarrow> Q a w | _ \<Rightarrow> False)"
  by (simp add: wp_def split: result.splits)

lemma wp_basic [simp]: "wp (pret a) Q w = Q a w" "wp (Pair (Ok a)) Q w = Q a w"
  by (simp_all add: wp_def)

lemma wp_pbind [simp]: "wp (pbind m f) Q w = wp m (\<lambda>a. wp (f a) Q) w"
  by (auto simp: wp_def split: prod.splits result.splits)

lemma wp_pseq [simp]: "wp (pseq m n) Q w = wp m (\<lambda>_. wp n Q) w"
  unfolding pseq_def by simp

lemma wp_assert [simp]: "wp (assert b) Q w \<longleftrightarrow> b \<and> Q () w"
  by (simp add: wp_def assert_def)

lemma wp_pmodify [simp]: "wp (pmodify g) Q w = Q () (g w)"
  by (simp add: wp_def)

lemma wp_punwrap [simp]: "wp (punwrap m) Q w = wp m Q w"
  by (auto simp: wp_def split: prod.splits result.splits)

lemma wp_in_order [simp]:
  "wp (in_order []) Q w = Q () w"
  "wp (in_order (t # ts)) Q w = wp t (\<lambda>_. wp (in_order ts) Q) w"
  by (auto simp: wp_def in_order_def split: prod.splits result.splits)

lemma wp_ran: "m w = (Ok a, w') \<Longrightarrow> Q a w' \<Longrightarrow> wp m Q w"
  by (simp add: wp_def)

lemma wp_ptry_ran: "m w = (Ok a, w') \<Longrightarrow> Q (Inr a) w' \<Longrightarrow> wp (ptry m) Q w"
  by (simp add: wp_def)

lemma wp_ptry_failed: "m w = (Err e, w') \<Longrightarrow> Q (Inl e) w' \<Longrightarrow> wp (ptry m) Q w"
  by (simp add: wp_def)

lemma passes_wp: "passes t w = wp t (\<lambda>_ _. True) w"
  by (auto simp: passes_def wp_def split: prod.splits result.splits)

lemma wp_mono: "wp m Q w \<Longrightarrow> (\<And>a w'. Q a w' \<Longrightarrow> R a w') \<Longrightarrow> wp m R w"
  by (auto simp: wp_def split: prod.splits result.splits)

lemma wp_keeps: "keeps P m \<Longrightarrow> P w \<Longrightarrow> wp m Q w \<Longrightarrow> wp m (\<lambda>a w'. Q a w' \<and> P w') w"
  by (auto simp: wp_def keeps_def split: prod.splits result.splits)

lemma wp_also:
  assumes "wp m R w" and "keeps P m" and "P w" and "\<And>a w'. R a w' \<Longrightarrow> P w' \<Longrightarrow> Q a w'"
  shows "wp m Q w"
  using wp_keeps [OF assms(2,3,1)] by (rule wp_mono) (use assms(4) in auto)

text \<open>A \<open>for\<close> loop with its mutable variables.\<close>

fun for_loop :: "'x list \<Rightarrow> 's \<Rightarrow> ('x \<Rightarrow> 's \<Rightarrow> ('w, 's) prog) \<Rightarrow> ('w, 's) prog" where
  "for_loop [] s body = pret s"
| "for_loop (x # xs) s body = pbind (body x s) (\<lambda>s'. for_loop xs s' body)"

lemma wp_for_loop:
  assumes "I 0 s w"
    and "\<And>k s w. k < length xs \<Longrightarrow> I k s w \<Longrightarrow> wp (body (xs ! k) s) (I (Suc k)) w"
    and "\<And>s w. I (length xs) s w \<Longrightarrow> Q s w"
  shows "wp (for_loop xs s body) Q w"
  using assms
proof (induction xs arbitrary: I s w)
  case Nil
  then show ?case by (simp add: wp_def)
next
  case (Cons x xs)
  have "wp (body x s) (I (Suc 0)) w" using Cons.prems(1) Cons.prems(2) [of 0] by simp
  then show ?case
    unfolding for_loop.simps wp_pbind
    by (rule wp_mono, intro Cons.IH [of "\<lambda>k. I (Suc k)"])
      (use Cons.prems(2) Cons.prems(3) in \<open>fastforce+\<close>)
qed

end
