(* ===== verification/Storage_Kit.thy ===== *)
theory Storage_Kit
  imports Isolation Iota_Client Unit_Tests
begin

text \<open>
  What the tests of the storage need: the helpers of the test module in \<open>src/src/storage/mod.rs\<close>, and
  for each storage method a rule that steps from one abstract pool to the next.
\<close>

section \<open>The storage in a test\<close>

definition get_reserved_coin_count_script where
  "get_reserved_coin_count_script = get_reserved_coin_count_lua"

definition get_reserved_coin_count :: "redis_storage \<Rightarrow> ('z world_scheme, nat) prog" where
  "get_reserved_coin_count self =
     punwrap (invoke (get_reserved_coin_count_script (namespace self)))"

definition flush_db :: "('z world_scheme, unit) prog" where
  "flush_db = punwrap (invoke (\<lambda>db. (Inr (), Map.empty)))"

definition connect_storage_for_testing_with_config ::
  "bool \<Rightarrow> redis_storage \<Rightarrow> ('z world_scheme, redis_storage) prog"
where
  "connect_storage_for_testing_with_config is_first_call self =
     pbind (connect_storage self) (\<lambda>storage.
     pseq (if is_first_call
           then pseq flush_db (pseq (punwrap (init_coin_stats_at_startup storage)) (pret ()))
           else pret ())
       (pret storage))"

definition assert_coin_count :: "redis_storage \<Rightarrow> nat \<Rightarrow> nat \<Rightarrow> ('z world_scheme, unit) prog" where
  "assert_coin_count storage available lent =
     pbind (punwrap (get_available_coin_count storage)) (\<lambda>n.
     pseq (assert (unat n = available)) (
     pbind (get_reserved_coin_count storage) (\<lambda>m. assert (m = lent))))"

text \<open>The object references are drawn at random; \<open>rnd\<close> is the sequence of draws.\<close>

definition new_coins :: "(nat \<Rightarrow> ('id, 'dg) object_ref) \<Rightarrow> u64 list \<Rightarrow> ('id, 'dg) gas_coin list" where
  "new_coins rnd balances =
     map (\<lambda>(i, b). \<lparr>object_ref = rnd i, balance = b\<rparr>) (enumerate 0 balances)"

definition set_up ::
  "('id, 'dg) codec \<Rightarrow> bool \<Rightarrow> (nat \<Rightarrow> ('id, 'dg) object_ref) \<Rightarrow> redis_storage \<Rightarrow> u64 list \<Rightarrow>
     ('z world_scheme, redis_storage) prog"
where
  "set_up C is_first_call rnd sponsor init_balances =
     pbind (connect_storage_for_testing_with_config is_first_call sponsor) (\<lambda>storage.
     let gas_coins = new_coins rnd init_balances in
     pseq (in_order (map (\<lambda>chunk. punwrap (add_new_coins C storage chunk)) (chunks 5000 gas_coins)))
       (pret storage))"

text \<open>\<open>tokio::time::sleep\<close>, in milliseconds.\<close>

definition sleep :: "int \<Rightarrow> ('z world_scheme, unit) prog" where
  "sleep d = pmodify (\<lambda>w. w\<lparr>clock := map (\<lambda>t. t + d) (clock w)\<rparr>)"

section \<open>Running a test on pools\<close>

text \<open>The fields of a pool after an operation.\<close>

lemma pool_fields [simp]:
  "avail (reserve_pool n e p) = drop n (avail p)" "next_id (reserve_pool n e p) = Suc (next_id p)"
  "reserved (reserve_pool n e p) = (reserved p)(Suc (next_id p) \<mapsto> map coin_id (take n (avail p)))"
  "expiry (reserve_pool n e p) = (expiry p)(Suc (next_id p) \<mapsto> e)"
  "maintenance (reserve_pool n e p) = maintenance p" "init_lock (reserve_pool n e p) = init_lock p"
  "avail (ready_pool i p) = avail p" "next_id (ready_pool i p) = next_id p"
  "reserved (ready_pool i p) = (reserved p)(i := None)" "expiry (ready_pool i p) = expiry p"
  "maintenance (ready_pool i p) = maintenance p" "init_lock (ready_pool i p) = init_lock p"
  "avail (add_pool cs p) = avail p @ cs" "next_id (add_pool cs p) = next_id p"
  "reserved (add_pool cs p) = reserved p" "expiry (add_pool cs p) = expiry p"
  "maintenance (add_pool cs p) = maintenance p" "init_lock (add_pool cs p) = init_lock p"
  "avail (expire_pool t p) = avail p" "next_id (expire_pool t p) = next_id p"
  "reserved (expire_pool t p) = (\<lambda>i. if expired_at t p i then None else reserved p i)"
  "expiry (expire_pool t p) = (\<lambda>i. if expired_at t p i then None else expiry p i)"
  "maintenance (expire_pool t p) = maintenance p" "init_lock (expire_pool t p) = init_lock p"
  "avail empty_pool = []" "next_id empty_pool = 0" "reserved empty_pool = Map.empty"
  "expiry empty_pool = Map.empty" "maintenance empty_pool = None" "init_lock empty_pool = None"
  by (simp_all add: reserve_pool_def ready_pool_def add_pool_def expire_pool_def empty_pool_def fun_eq_iff)

definition in_state ::
  "('id, 'dg) codec \<Rightarrow> redis_storage \<Rightarrow> int \<Rightarrow> ('id, 'dg) pool \<Rightarrow> 'z world_scheme \<Rightarrow> bool"
where
  "in_state C self t p w \<longleftrightarrow>
     quiet t w \<and> pool_rel C (namespace self) (keys w) p \<and> pool_inv p"

definition no_empty_loan :: "('id, 'dg) pool \<Rightarrow> bool" where
  "no_empty_loan p \<longleftrightarrow> (\<forall>i. reserved p i \<noteq> Some [])"

lemma no_empty_loan_simps [simp]:
  "no_empty_loan p \<Longrightarrow> no_empty_loan (add_pool cs p)" "no_empty_loan p \<Longrightarrow> no_empty_loan (ready_pool i p)"
  "no_empty_loan p \<Longrightarrow> no_empty_loan (expire_pool t p)"
  "no_empty_loan p \<Longrightarrow> 0 < n \<Longrightarrow> avail p \<noteq> [] \<Longrightarrow> no_empty_loan (reserve_pool n e p)"
  "no_empty_loan empty_pool"
  by (simp_all add: no_empty_loan_def add_pool_def ready_pool_def expire_pool_def reserve_pool_def
      empty_pool_def)

text \<open>The clock and the coder of a test; a test takes a few seconds.\<close>

definition test_time :: "('id, 'dg) codec \<Rightarrow> int \<Rightarrow> int \<Rightarrow> bool" where
  "test_time C latest t \<longleftrightarrow>
     codec_ok C \<and> 1000 \<le> t \<and> t + 100000 \<le> latest \<and> latest \<le> 2 ^ 52"

text \<open>No key of the storage exists yet.\<close>

definition fresh_namespace :: "redis_storage \<Rightarrow> 'z world_scheme \<Rightarrow> bool" where
  "fresh_namespace self w \<longleftrightarrow> (\<forall>a. keys w (nkey (namespace self) a) = None)"

definition test_start :: "('id, 'dg) codec \<Rightarrow> int \<Rightarrow> int \<Rightarrow> bool" where
  "test_start C latest t \<longleftrightarrow> test_time C latest t \<and> t + 200000 \<le> latest"

lemma test_startD:
  "test_start C latest t \<Longrightarrow> codec_ok C"
  "test_start C latest t \<Longrightarrow> test_time C latest t"
  "test_start C latest t \<Longrightarrow> 0 \<le> s \<Longrightarrow> s \<le> 100000 \<Longrightarrow> test_time C latest (t + s)"
  by (simp_all add: test_start_def test_time_def)

lemma test_request:
  "test_time C latest t \<Longrightarrow> uint b \<le> 2 ^ 52 \<Longrightarrow> uint d \<le> 100000 \<Longrightarrow> exact_request latest t b d"
  by (auto simp: test_time_def exact_request_def)

lemma wp_reserve_open:
  assumes "in_state C self t p w" and "test_time C latest t"
    and "uint b \<le> 2 ^ 52" and "uint d \<le> 100000" and "b \<noteq> 0" and "\<not> in_maintenance (t div 1000) p"
    and "next_id p < 2 ^ 63 - 1" and "cut (uint b) (avail p) = Some n"
    and "\<And>w'. in_state C self t (reserve_pool n (t + uint d) p) w' \<Longrightarrow>
      pool_inv (reserve_pool n (t + uint d) p) \<Longrightarrow>
      Q (of_nat (Suc (next_id p)), take n (avail p)) w'"
  shows "wp (reserve_gas_coins C latest self b d) Q w"
proof -
  have "codec_ok C" "quiet t w" "pool_rel C (namespace self) (keys w) p" "pool_inv p"
    using assms(1,2) by (simp_all add: in_state_def test_time_def)
  from reserve_grants_run [OF this(1,3,4,2) test_request [OF assms(2-4)] assms(5,6,7,8)]
    assms(9) \<open>quiet t w\<close> show ?thesis
    by (auto simp: in_state_def intro!: wp_ran)
qed

lemma wp_reserve:
  assumes "in_state C self t p w" and "test_time C latest t"
    and "uint b \<le> 2 ^ 52" and "uint d \<le> 100000" and "b \<noteq> 0" and "maintenance p = None"
    and "next_id p < 2 ^ 63 - 1" and "cut (uint b) (avail p) = Some n"
    and "\<And>w'. in_state C self t (reserve_pool n (t + uint d) p) w' \<Longrightarrow>
      pool_inv (reserve_pool n (t + uint d) p) \<Longrightarrow>
      Q (of_nat (Suc (next_id p)), take n (avail p)) w'"
  shows "wp (reserve_gas_coins C latest self b d) Q w"
  by (rule wp_reserve_open [OF assms(1-5) _ assms(7,8)])
    (use assms(6,9) in \<open>simp_all add: in_maintenance_def\<close>)

lemma wp_reserve_refused:
  assumes "in_state C self t p w" and "test_time C latest t"
    and "uint b \<le> 2 ^ 52" and "uint d \<le> 100000"
    and "in_maintenance (t div 1000) p \<or> cut (uint b) (avail p) = None"
    and "\<And>w' m. in_state C self t p w' \<Longrightarrow>
      in_maintenance (t div 1000) p \<longrightarrow> m = maintenance_mode_error_message \<Longrightarrow> Q (Inl (Anyhow m)) w'"
  shows "wp (ptry (reserve_gas_coins C latest self b d)) Q w"
proof -
  have "codec_ok C" "quiet t w" "pool_rel C (namespace self) (keys w) p" "pool_inv p"
    using assms(1,2) by (simp_all add: in_state_def test_time_def)
  from reserve_refuses_run [OF this(1,3,4,2) test_request [OF assms(2-4)] assms(5)] assms(6) assms(1)
  show ?thesis
    by (auto simp: in_state_def split: if_splits intro!: wp_ptry_failed)
qed

lemma wp_ready:
  assumes "in_state C self t p w" and "reserved p (unat rid) = Some ids"
    and "\<And>w'. in_state C self t (ready_pool (unat rid) p) w' \<Longrightarrow>
      pool_inv (ready_pool (unat rid) p) \<Longrightarrow> Q () w'"
  shows "wp (ready_for_execution self rid) Q w"
proof -
  have "quiet t w" "pool_rel C (namespace self) (keys w) p" "pool_inv p"
    using assms(1) by (simp_all add: in_state_def)
  from ready_run [OF this(2,3,1), of rid] assms(2,3) this(1) show ?thesis
    by (auto simp: in_state_def intro!: wp_ran)
qed

definition initialized :: "redis_storage \<Rightarrow> 'z world_scheme \<Rightarrow> bool" where
  "initialized self w \<longleftrightarrow> keys w (k_initialized (namespace self)) \<noteq> None"

lemma sbind_Inr:
  "sbind m f db = (Inr r, db') \<longleftrightarrow> (\<exists>a db1. m db = (Inr a, db1) \<and> f a db1 = (Inr r, db'))"
  by (auto split: prod.splits sum.splits)

lemma add_marks:
  assumes "add_new_coins C self cs w = (Ok (), w')"
  shows "initialized self w' \<longleftrightarrow> initialized self w \<or> cs \<noteq> []"
proof -
  let ?ns = "namespace self"
  let ?w = "w\<lparr>events := events w @ [Inc ''num_add_new_coins_requests'']\<rparr>"
  obtain r where "invoke (add_new_coins_lua ?ns (map (format_coin C) cs)) ?w = (Ok r, w'\<lparr>events := events ?w\<rparr>)"
    using assms
    by (auto simp: add_new_coins_def script_manager_defs publish_pool_gauges_def invoke_def Let_def
        next_fault_def split: prod.splits result.splits fault.splits sum.splits list.splits)
  from invoke_Ok [OF this]
  have run: "add_new_coins_lua ?ns (map (format_coin C) cs) (keys w) = (Inr r, keys w')"
    by simp
  show ?thesis
  proof (cases "cs = []")
    case True
    have "within {k_total ?ns, k_count ?ns} (add_new_coins_lua ?ns [])"
      by (auto simp: add_new_coins_lua_def mark_initialized_def simp del: sbind_apply sseq_apply
          intro!: within_rules)
    then have "snd (add_new_coins_lua ?ns [] (keys w)) (k_initialized ?ns) = keys w (k_initialized ?ns)"
      by (simp add: within_def)
    with run True show ?thesis by (simp add: initialized_def)
  next
    case False
    define rest :: "int \<Rightarrow> (int \<times> int) script" where "rest = (\<lambda>total_balance.
      sbind (redis_get (k_total ?ns)) (\<lambda>cur_total.
      sbind (sneed (Option.bind cur_total lua_tonumber)) (\<lambda>cur.
      let new_total_balance = lua_add cur total_balance in
      sseq (redis_set (k_total ?ns) (show_int new_total_balance)) (
      sbind (redis_get (k_count ?ns)) (\<lambda>cur_count.
      sbind (sneed (Option.bind cur_count lua_tonumber)) (\<lambda>cnt.
      let new_coin_count = lua_add cnt (int (length (map (format_coin C) cs))) in
      sseq (redis_set (k_count ?ns) (show_int new_coin_count))
        (sret (new_total_balance, new_coin_count))))))))"
    have parts: "add_new_coins_lua ?ns (map (format_coin C) cs) =
        sbind (add_loop (k_coins ?ns) 0 (map (format_coin C) cs)) (\<lambda>b.
        sseq (mark_initialized ?ns True) (rest b))"
      using False unfolding add_new_coins_lua_def rest_def by simp
    obtain b db1 db2 where mark: "mark_initialized ?ns True db1 = (Inr (), db2)"
      and rest: "rest b db2 = (Inr r, keys w')"
      using run unfolding parts sbind_Inr sseq_def by auto
    have "within {k_total ?ns, k_count ?ns} (rest b)"
      unfolding rest_def by (intro within_rules) simp_all
    then have "snd (rest b db2) (k_initialized ?ns) = db2 (k_initialized ?ns)"
      by (simp add: within_def)
    with rest have "keys w' (k_initialized ?ns) = db2 (k_initialized ?ns)" by simp
    moreover have "db2 (k_initialized ?ns) \<noteq> None"
      using mark by (auto simp: mark_initialized_def redis_set_def redis_get_def
          split: option.splits rval.splits if_splits)
    ultimately show ?thesis using False by (simp add: initialized_def)
  qed
qed

lemma wp_add:
  assumes "in_state C self t p w" and "codec_ok C" and "bal_sum (avail p) + bal_sum cs \<le> 2 ^ 53"
    and "int (length (avail p)) + int (length cs) \<le> 2 ^ 53"
    and "\<And>w'. in_state C self t (add_pool cs p) w' \<Longrightarrow> pool_inv (add_pool cs p) \<Longrightarrow>
      initialized self w' = (initialized self w \<or> cs \<noteq> []) \<Longrightarrow> Q () w'"
  shows "wp (add_new_coins C self cs) Q w"
proof -
  have "quiet t w" "pool_rel C (namespace self) (keys w) p" "pool_inv p"
    using assms(1) by (simp_all add: in_state_def)
  from add_run [OF assms(2) this(2,3,1) assms(3,4)] this(1)
  obtain w' where "add_new_coins C self cs w = (Ok (), w')" "in_state C self t (add_pool cs p) w'"
    by (auto simp: in_state_def)
  then show ?thesis using assms(5) add_marks unfolding in_state_def by (metis wp_ran)
qed

lemma wp_is_initialized:
  assumes "in_state C self t p w" and "Q (initialized self w) w"
  shows "wp (is_initialized self) Q w"
  using invoke_quiet_Ok [where s = "get_is_initialized_lua (namespace self)" and w = w and t = t] assms
  by (simp add: is_initialized_def script_manager_defs get_is_initialized_lua_def redis_exists_def
      wp_def initialized_def in_state_def)

lemma wp_expire:
  assumes "in_state C self t p w" and "test_time C latest t" and "no_empty_loan p"
    and "\<And>w' is. in_state C self t (expire_pool t p) w' \<Longrightarrow> pool_inv (expire_pool t p) \<Longrightarrow>
      distinct is \<Longrightarrow> set is = {i. expired_at t p i \<and> reserved p i \<noteq> None} \<Longrightarrow>
      Q (concat (map (\<lambda>i. the (reserved p i)) is)) w'"
  shows "wp (expire_coins C self) Q w"
proof -
  have "codec_ok C" "quiet t w" "pool_rel C (namespace self) (keys w) p" "pool_inv p" "0 \<le> t" "t \<le> 2 ^ 53"
    "\<And>i. reserved p i \<noteq> Some []"
    using assms(1-3) by (auto simp: in_state_def test_time_def no_empty_loan_def)
  from expire_run [OF this(1,3,4,2,5-7)] this(2) assms(4) show ?thesis
    unfolding in_state_def by (auto intro!: wp_ran)
qed

lemma wp_sleep:
  assumes "in_state C self t p w" and "\<And>w'. in_state C self (t + d) p w' \<Longrightarrow> Q () w'"
  shows "wp (sleep d) Q w"
  using assms by (simp add: sleep_def in_state_def quiet_def)


section \<open>Counting\<close>

definition lent_coins :: "('id, 'dg) pool \<Rightarrow> nat" where
  "lent_coins p = (\<Sum>i \<in> dom (expiry p). case reserved p i of None \<Rightarrow> 0 | Some ids \<Rightarrow> length ids)"

lemma commas_in_ids:
  assumes "codec_ok C" and "ids \<noteq> []"
  shows "length (filter ((=) CHR '','') (join_with '','' (map (show_id C) ids))) + 1 = length ids"
  using assms(2)
proof (induction ids)
  case Nil
  then show ?case by simp
next
  case (Cons i ids)
  have "filter ((=) CHR '','') (show_id C i) = []"
    using codec_okD(2) [OF assms(1), of i] by (auto simp: filter_empty_conv)
  with Cons show ?case by (cases ids) simp_all
qed

lemma reserved_count_loop_rel:
  assumes "codec_ok C" and "\<And>i. i \<in> set is \<Longrightarrow> db (nkey ns (show_nat i)) = resv_val C (R i)"
    and "\<And>i. R i \<noteq> Some []"
  shows "reserved_count_loop ns n (map show_nat is) db =
    (Inr (n + (\<Sum>i \<leftarrow> is. case R i of None \<Rightarrow> 0 | Some ids \<Rightarrow> length ids)), db)"
  using assms(2)
proof (induction "is" arbitrary: n)
  case Nil
  then show ?case by simp
next
  case (Cons i "is")
  then show ?case
    using commas_in_ids [OF assms(1)] assms(3) [of i]
    by (cases "R i") (auto simp: redis_get_None redis_get_Some resv_val_def add.assoc)
qed

lemma reserved_count_rel:
  assumes "codec_ok C" and "pool_rel C ns db p" and "\<And>i. reserved p i \<noteq> Some []"
  shows "get_reserved_coin_count_lua ns db = (Inr (lent_coins p), db)"
proof -
  obtain zs where zs: "db (k_queue ns) = zset_val (map (\<lambda>(i, s). (show_nat i, s)) zs)"
    "distinct (map fst zs)" "set zs = {(i, s). expiry p i = Some s}"
    using queue_relE [OF pool_relD(5) [OF assms(2)]] by metis
  have all: "redis_zall (k_queue ns) db = (Inr (map show_nat (map fst zs)), db)"
    using zs(1) by (auto simp: redis_zall_def zset_val_def case_prod_unfold split: if_splits)
  have "fst ` set zs = dom (expiry p)"
    unfolding zs(3) by (force simp: image_iff)
  then have "lent_coins p = (\<Sum>i \<leftarrow> map fst zs. case reserved p i of None \<Rightarrow> 0 | Some ids \<Rightarrow> length ids)"
    unfolding lent_coins_def sum_list_distinct_conv_sum_set [OF zs(2)] by simp
  with reserved_count_loop_rel [where db = db and R = "reserved p" and ?is = "map fst zs", OF assms(1) pool_relD(4) [OF assms(2)] assms(3)] all
  show ?thesis by (simp add: get_reserved_coin_count_lua_def)
qed

lemma expiry_finite: "pool_inv p \<Longrightarrow> finite (dom (expiry p))"
  by (rule finite_subset [of _ "{..next_id p}"]) (auto simp: pool_inv_def)

lemma lent_reserve:
  assumes "pool_inv p" and "n \<le> length (avail p)"
  shows "lent_coins (reserve_pool n e p) = lent_coins p + n"
proof -
  have new: "expiry p (Suc (next_id p)) = None"
    using assms(1) by (metis Suc_n_not_le_n not_None_eq pool_inv_def)
  then have "Suc (next_id p) \<notin> dom (expiry p)" by auto
  with new expiry_finite [OF assms(1)] assms(2) show ?thesis
    by (auto simp: lent_coins_def reserve_pool_def intro!: sum.cong)
qed

lemma lent_ready:
  assumes "pool_inv p" and "reserved p i = Some ids"
  shows "lent_coins (ready_pool i p) = lent_coins p - length ids"
proof -
  let ?n = "\<lambda>r i. case r i of None \<Rightarrow> 0 | Some ids \<Rightarrow> length (ids :: 'a list)"
  have i: "i \<in> dom (expiry p)" using assms by (auto simp: pool_inv_def)
  have "(\<Sum>j \<in> dom (expiry p). ?n (reserved (ready_pool i p)) j) =
      (\<Sum>j \<in> dom (expiry p) - {i}. ?n (reserved p) j)"
    using i expiry_finite [OF assms(1)]
    by (subst sum.remove [of _ i]) (auto simp: ready_pool_def intro!: sum.cong)
  moreover have "(\<Sum>j \<in> dom (expiry p). ?n (reserved p) j) =
      length ids + (\<Sum>j \<in> dom (expiry p) - {i}. ?n (reserved p) j)"
    using i expiry_finite [OF assms(1)] assms(2) by (subst sum.remove [of _ i]) auto
  ultimately show ?thesis by (simp add: lent_coins_def)
qed

lemma lent_expire:
  assumes "pool_inv p" and "distinct is" and "set is = {i. expired_at t p i \<and> reserved p i \<noteq> None}"
  shows "lent_coins (expire_pool t p) = lent_coins p - length (concat (map (\<lambda>i. the (reserved p i)) is))"
proof -
  let ?f = "\<lambda>i. case reserved p i of None \<Rightarrow> 0 | Some ids \<Rightarrow> length ids"
  let ?gone = "{i. expired_at t p i}"
  have sub: "?gone \<subseteq> dom (expiry p)" by (auto simp: expired_at_def split: option.splits)
  have fin: "finite (dom (expiry p))" by (rule expiry_finite [OF assms(1)])
  have "dom (expiry (expire_pool t p)) = dom (expiry p) - ?gone" by (auto split: if_splits)
  then have "lent_coins (expire_pool t p) = sum ?f (dom (expiry p) - ?gone)"
    by (simp add: lent_coins_def)
  also have "\<dots> = lent_coins p - sum ?f ?gone"
    unfolding lent_coins_def by (rule sum_diff_nat [OF finite_subset [OF sub fin] sub])
  also have "sum ?f ?gone = sum ?f (set is)"
    using sub fin unfolding assms(3)
    by (intro sum.mono_neutral_right) (auto intro: finite_subset split: option.splits)
  also have "\<dots> = (\<Sum>i \<leftarrow> is. ?f i)"
    by (rule sum_list_distinct_conv_sum_set [OF assms(2), symmetric])
  also have "\<dots> = (\<Sum>i \<leftarrow> is. length (the (reserved p i)))"
    by (rule arg_cong [of _ _ sum_list], rule map_cong [OF refl]) (auto simp: assms(3))
  finally show ?thesis by (simp add: length_concat comp_def)
qed

lemma lent_empty [simp]: "lent_coins empty_pool = 0"
  by (simp add: lent_coins_def)

lemma lent_add [simp]: "lent_coins (add_pool cs p) = lent_coins p"
  by (simp add: lent_coins_def add_pool_def)

lemma listing:
  "distinct is \<Longrightarrow> set is = {i} \<Longrightarrow> is = [i]"
  "i \<noteq> j \<Longrightarrow> distinct is \<Longrightarrow> set is = {i, j} \<Longrightarrow> is = [i, j] \<or> is = [j, i]"
proof -
  show "is = [i]" if "distinct is" "set is = {i}"
  proof -
    have "length is = 1" using distinct_card [OF that(1)] that(2) by simp
    then obtain a where "is = [a]" by (auto simp: length_Suc_conv)
    with that(2) show ?thesis by simp
  qed
  show "is = [i, j] \<or> is = [j, i]" if "i \<noteq> j" "distinct is" "set is = {i, j}"
  proof -
    have "length is = 2" using distinct_card [OF that(2)] that(1,3) by simp
    then obtain a b where "is = [a, b]" by (auto simp: numeral_2_eq_2 length_Suc_conv)
    with that(3) show ?thesis by (auto simp: doubleton_eq_iff)
  qed
qed

lemma wp_expire_nothing:
  fixes w :: "'z world_scheme"
  assumes "in_state C self t p w" and "test_time C latest t" and "no_empty_loan p"
    and "\<And>i. \<not> expired_at t p i" and "\<And>w'. in_state C self t p w' \<Longrightarrow> Q [] w'"
  shows "wp (expire_coins C self) Q w"
proof (rule wp_expire [OF assms(1-3)])
  fix w' :: "'z world_scheme" and "is"
  assume "in_state C self t (expire_pool t p) w'" "set is = {i. expired_at t p i \<and> reserved p i \<noteq> None}"
  moreover have "expire_pool t p = p" by (simp add: expire_pool_def assms(4))
  ultimately show "Q (concat (map (\<lambda>i. the (reserved p i)) is)) w'"
    using assms(4,5) by simp
qed

lemma wp_expire_one:
  fixes w :: "'z world_scheme"
  assumes "in_state C self t p w" and "test_time C latest t" and "no_empty_loan p"
    and "{i. expired_at t p i \<and> reserved p i \<noteq> None} = {k}" and "reserved p k = Some ids"
    and "\<And>w'. in_state C self t (expire_pool t p) w' \<Longrightarrow> pool_inv (expire_pool t p) \<Longrightarrow>
      lent_coins (expire_pool t p) = lent_coins p - length ids \<Longrightarrow> Q ids w'"
  shows "wp (expire_coins C self) Q w"
proof (rule wp_expire [OF assms(1-3)])
  fix w' :: "'z world_scheme" and "is"
  assume w: "in_state C self t (expire_pool t p) w'" "pool_inv (expire_pool t p)"
    and set: "distinct is" "set is = {i. expired_at t p i \<and> reserved p i \<noteq> None}"
  have "is = [k]"
    using listing(1) [OF set(1), of k] set(2) assms(4) by simp
  moreover have "pool_inv p" using assms(1) by (simp add: in_state_def)
  ultimately show "Q (concat (map (\<lambda>i. the (reserved p i)) is)) w'"
    using assms(5,6) w lent_expire [OF _ set] by simp
qed

lemma wp_expire_two:
  fixes w :: "'z world_scheme"
  assumes "in_state C self t p w" and "test_time C latest t" and "no_empty_loan p"
    and "{i. expired_at t p i \<and> reserved p i \<noteq> None} = {j, k}" and "j \<noteq> k"
    and "reserved p j = Some ids" and "reserved p k = Some jds"
    and "\<And>w' xs. in_state C self t (expire_pool t p) w' \<Longrightarrow> pool_inv (expire_pool t p) \<Longrightarrow>
      lent_coins (expire_pool t p) = lent_coins p - (length ids + length jds) \<Longrightarrow>
      xs = ids @ jds \<or> xs = jds @ ids \<Longrightarrow> Q xs w'"
  shows "wp (expire_coins C self) Q w"
proof (rule wp_expire [OF assms(1-3)])
  fix w' :: "'z world_scheme" and "is"
  assume w: "in_state C self t (expire_pool t p) w'" "pool_inv (expire_pool t p)"
    and set: "distinct is" "set is = {i. expired_at t p i \<and> reserved p i \<noteq> None}"
  have two: "is = [j, k] \<or> is = [k, j]"
    using listing(2) [OF assms(5) set(1)] set(2) assms(4) by simp
  have "pool_inv p" using assms(1) by (simp add: in_state_def)
  from lent_expire [OF this set] two assms(6,7)
  have "lent_coins (expire_pool t p) = lent_coins p - (length ids + length jds)" by auto
  from assms(8) [OF w this] two assms(6,7) show "Q (concat (map (\<lambda>i. the (reserved p i)) is)) w'" by auto
qed

lemma wp_count:
  assumes "in_state C self t p w" and "Q (of_nat (length (avail p))) w"
  shows "wp (get_available_coin_count self) Q w"
proof -
  have w: "quiet t w" "pool_rel C (namespace self) (keys w) p" "pool_inv p"
    using assms(1) by (simp_all add: in_state_def)
  have "get_available_coin_count_lua (namespace self) (keys w) = (Inr (coin_count p), keys w)"
    using pool_relD(3) [OF w(2)]
    by (simp add: get_available_coin_count_lua_def redis_get_Some stored_int_def)
  then have "get_available_coin_count self w = (Ok (of_nat (length (avail p))), w)"
    using invoke_quiet_Ok [where s = "get_available_coin_count_lua (namespace self)", OF w(1)]
      pool_inv_bounds(3,4) [OF w(3)]
    by (simp add: get_available_coin_count_def script_manager_defs reply_to_u64_def)
  then show ?thesis using assms(2) by (rule wp_ran)
qed

lemma wp_assert_coin_count:
  assumes "in_state C self t p w" and "codec_ok C" and "no_empty_loan p"
    and "length (avail p) = a" and "lent_coins p = l" and "Q () w"
  shows "wp (assert_coin_count self a l) Q w"
proof -
  have w: "quiet t w" "pool_rel C (namespace self) (keys w) p" "pool_inv p"
    using assms(1) by (simp_all add: in_state_def)
  have "unat (of_nat a :: u64) = a"
    using pool_inv_bounds(4) [OF w(3)] assms(4) by (simp add: unsigned_of_nat take_bit_nat_eq_self)
  moreover have "get_reserved_coin_count self w = (Ok l, w)"
    using invoke_quiet_Ok [where s = "get_reserved_coin_count_lua (namespace self)", OF w(1)]
      reserved_count_rel [OF assms(2) w(2)] assms(3,5)
    by (simp add: get_reserved_coin_count_def get_reserved_coin_count_script_def no_empty_loan_def)
  ultimately show ?thesis
    unfolding assert_coin_count_def wp_pbind wp_pseq wp_punwrap
    by (intro wp_count [OF assms(1)]) (use assms(4,6) in \<open>simp add: wp_def assert_def\<close>)
qed

lemma wp_total_balance:
  assumes "in_state C self t p w" and "Q (of_int (bal_sum (avail p))) w"
  shows "wp (get_available_coin_total_balance self) Q w"
proof -
  have w: "quiet t w" "pool_rel C (namespace self) (keys w) p" "pool_inv p"
    using assms(1) by (simp_all add: in_state_def)
  have "get_available_coin_total_balance_lua (namespace self) (keys w) = (Inr (total_bal p), keys w)"
    using pool_relD(2) [OF w(2)]
    by (simp add: get_available_coin_total_balance_lua_def redis_get_Some stored_int_def)
  then have "get_available_coin_total_balance self w = (Ok (of_int (bal_sum (avail p))), w)"
    using invoke_quiet_Ok [where s = "get_available_coin_total_balance_lua (namespace self)", OF w(1)]
      pool_inv_bounds(1,2) [OF w(3)]
    by (simp add: get_available_coin_total_balance_def script_manager_defs reply_to_u64_def)
  then show ?thesis using assms(2) by (rule wp_ran)
qed

section \<open>Connecting\<close>

lemma pool_fresh_rel: "pool_rel C ns db p \<Longrightarrow> fresh_rel C ns db p"
  by (auto simp: fresh_rel_def stat_rel_def fun_upd_idem pool_relD(2,3))

lemma init_stats_marks:
  "snd (init_coin_stats_at_startup_lua ns db) (k_initialized ns) = db (k_initialized ns)"
proof -
  have "within {k_count ns, k_total ns, k_schema ns} (init_coin_stats_at_startup_lua ns)"
    by (auto simp: init_coin_stats_at_startup_lua_def stored_int_def simp del: sbind_apply sseq_apply
        intro!: within_rules)
  then show ?thesis by (simp add: within_def)
qed

lemma wp_init_stats:
  assumes "quiet t w" and "codec_ok C" and "fresh_rel C (namespace self) (keys w) p" and "pool_inv p"
    and "\<And>w'. in_state C self t p w' \<Longrightarrow> initialized self w' = initialized self w \<Longrightarrow>
      Q (of_int (coin_count p), of_int (total_bal p)) w'"
  shows "wp (init_coin_stats_at_startup self) Q w"
proof -
  let ?s = "init_coin_stats_at_startup_lua (namespace self)"
  obtain ks where ks: "?s (keys w) = (Inr (coin_count p, total_bal p), ks)"
    and rel: "pool_rel C (namespace self) ks p"
    using init_stats_rel [OF assms(2-4)] by blast
  have mark: "ks (k_initialized (namespace self)) = keys w (k_initialized (namespace self))"
    using init_stats_marks [of "namespace self" "keys w"] ks by simp
  show ?thesis
    unfolding init_coin_stats_at_startup_def script_manager_defs wp_pbind
    by (rule wp_ran [where m = "invoke ?s" and w = w, OF invoke_quiet_Ok [where s = ?s, OF assms(1) ks]])
      (use rel mark assms(1,4,5) in \<open>simp add: publish_pool_gauges_def in_state_def initialized_def wp_def\<close>)
qed

lemma fresh_empty:
  assumes "fresh_namespace self w"
  shows "fresh_rel C (namespace self) (keys w) empty_pool"
  using assms
  by (auto simp: fresh_namespace_def fresh_rel_def stat_rel_def pool_rel_def empty_pool_def list_val_def
      resv_val_def queue_rel_def zset_val_def next_rel_def lock_rel_def schema_ok_def)

lemma pool_inv_empty: "pool_inv empty_pool"
  by (simp add: pool_inv_def empty_pool_def lock_ok_def)

lemma wp_flush:
  assumes "quiet t w" and "\<And>w'. quiet t w' \<Longrightarrow> keys w' = Map.empty \<Longrightarrow> Q () w'"
  shows "wp flush_db Q w"
  using assms invoke_quiet_Ok [where s = "\<lambda>db. (Inr (), Map.empty)", OF assms(1)]
  by (simp add: flush_db_def wp_def)

lemma wp_check_health: "quiet t w \<Longrightarrow> Q () w \<Longrightarrow> wp (check_health self) Q w"
  using invoke_quiet_Ok [where s = "sret ()" and w = w and t = t]
  by (simp add: check_health_def wp_def)

lemma wp_connect:
  fixes w :: "'z world_scheme"
  assumes "quiet t w" and "codec_ok C" and "fresh_namespace self w"
    and "\<And>w'. in_state C self t empty_pool w' \<Longrightarrow> \<not> initialized self w' \<Longrightarrow> Q self w'"
  shows "wp (connect_storage_for_testing_with_config first self) Q w"
proof -
  have stats: "wp (init_coin_stats_at_startup self) R w'"
    if "quiet t w'" "fresh_namespace self w'"
      "\<And>w'' r. in_state C self t empty_pool w'' \<Longrightarrow> \<not> initialized self w'' \<Longrightarrow> R r w''" for R and w' :: "'z world_scheme"
    using that(2,3)
    by (intro wp_init_stats [OF that(1) assms(2) fresh_empty pool_inv_empty])
      (auto simp: initialized_def fresh_namespace_def)
  show ?thesis
    unfolding connect_storage_for_testing_with_config_def connect_storage_def
    by (auto simp: in_state_def fresh_namespace_def intro!: wp_check_health [OF assms(1)] stats
        assms(1,3) assms(3) [unfolded fresh_namespace_def, rule_format] wp_flush assms(4))
qed

lemma add_pool_append: "add_pool ds (add_pool cs p) = add_pool (cs @ ds) p"
  by (simp add: add_pool_def)

lemma add_pool_Nil [simp]: "add_pool [] p = p"
  by (simp add: add_pool_def)

lemma wp_add_all:
  fixes w :: "'a world_scheme"
  assumes "in_state C self t p w" and "codec_ok C"
    and "bal_sum (avail p) + bal_sum (concat css) \<le> 2 ^ 53"
    and "int (length (avail p)) + int (length (concat css)) \<le> 2 ^ 53"
    and "\<And>w'. in_state C self t (add_pool (concat css) p) w' \<Longrightarrow> Q () w'"
  shows "wp (in_order (map (\<lambda>chunk. punwrap (add_new_coins C self chunk)) css)) Q w"
  using assms
proof (induction css arbitrary: p w)
  case Nil
  then show ?case by simp
next
  case (Cons cs css)
  have sums: "bal_sum (avail p) + bal_sum cs \<le> 2 ^ 53" "int (length (avail p)) + int (length cs) \<le> 2 ^ 53"
    using Cons.prems(3,4) bal_sum_nonneg [of "concat css"] by (simp_all del: bal_sum_nonneg)
  show ?case
    unfolding list.map wp_in_order wp_punwrap
  proof (rule wp_add [OF Cons.prems(1,2) sums], rule Cons.IH [OF _ Cons.prems(2)])
    fix w2 :: "'a world_scheme"
    assume "in_state C self t (add_pool (concat css) (add_pool cs p)) w2"
    then show "Q () w2" using Cons.prems(5) by (simp add: add_pool_append)
  qed (use Cons.prems(3,4) in \<open>simp_all add: add_pool_def\<close>)
qed

lemma wp_set_up:
  assumes "quiet t w" and "codec_ok C" and "fresh_namespace self w"
    and "bal_sum (new_coins rnd bs) \<le> 2 ^ 53" and "int (length bs) \<le> 2 ^ 53"
    and "\<And>w'. in_state C self t (add_pool (new_coins rnd bs) empty_pool) w' \<Longrightarrow>
      pool_inv (add_pool (new_coins rnd bs) empty_pool) \<Longrightarrow> Q self w'"
  shows "wp (set_up C first rnd self bs) Q w"
proof -
  have cat: "concat (chunks 5000 (new_coins rnd bs)) = new_coins rnd bs"
    by (simp add: concat_chunks)
  have sizes: "bal_sum (avail empty_pool) + bal_sum (new_coins rnd bs) \<le> 2 ^ 53"
    "int (length (avail empty_pool)) + int (length (new_coins rnd bs)) \<le> 2 ^ 53"
    using assms(4,5) by (simp_all add: empty_pool_def new_coins_def)
  show ?thesis
    unfolding set_up_def Let_def wp_pbind wp_pseq wp_basic
    by (rule wp_connect [OF assms(1-3)], rule wp_add_all [OF _ assms(2)], assumption)
      (use cat sizes assms(6) in \<open>simp_all add: in_state_def\<close>)
qed

section \<open>Coins of equal balance\<close>

definition units :: "nat \<Rightarrow> u64 list" where
  "units n = replicate n 1"

lemma units_length [simp]: "length (units n) = n" "length (new_coins rnd bs) = length bs"
  by (simp_all add: units_def new_coins_def)

lemma units_not_Nil [simp]: "units n = [] \<longleftrightarrow> n = 0" "new_coins rnd bs = [] \<longleftrightarrow> bs = []"
  by (simp_all add: units_def flip: length_0_conv)

definition uniform :: "u64 \<Rightarrow> ('id, 'dg) gas_coin list \<Rightarrow> bool" where
  "uniform b cs \<longleftrightarrow> (\<forall>c \<in> set cs. balance c = b)"

lemma uniform_simps [simp]:
  "uniform b []" "uniform b (c # cs) \<longleftrightarrow> balance c = b \<and> uniform b cs"
  "uniform b (cs @ ds) \<longleftrightarrow> uniform b cs \<and> uniform b ds"
  by (auto simp: uniform_def)

lemma uniform_sub: "uniform b cs \<Longrightarrow> uniform b (drop n cs)" "uniform b cs \<Longrightarrow> uniform b (take n cs)"
  by (auto simp: uniform_def dest: in_set_dropD in_set_takeD)

lemma uniform_units [simp]: "uniform 1 (new_coins rnd (units n))"
  by (auto simp: uniform_def new_coins_def units_def in_set_enumerate_eq dest: in_set_zipE)

lemma uniform_sum: "uniform b cs \<Longrightarrow> bal_sum cs = uint b * int (length cs)"
  by (induction cs) (auto simp: algebra_simps)

lemma taken_units: "uniform 1 cs \<Longrightarrow> taken b m cs = min (nat b) (min m (length cs))"
proof (induction b m cs rule: taken.induct)
  case (1 b m)
  then show ?case by simp
next
  case (2 b m c cs)
  then show ?case by (cases m) (auto simp: nat_diff_distrib' min_def)
qed

lemma cut_units:
  assumes "uniform 1 cs" and "0 \<le> b"
  shows "cut b cs = (if nat b \<le> 256 \<and> nat b \<le> length cs then Some (nat b) else None)"
  using assms uniform_sum [OF uniform_sub(2) [OF assms(1)]]
  by (auto simp: cut_def Let_def taken_units max_gas_per_query_def min_def)


lemma taken_units_front:
  "uniform 1 cs \<Longrightarrow> nat b \<le> length cs \<Longrightarrow> nat b \<le> m \<Longrightarrow> taken b m (cs @ ds) = nat b"
proof (induction cs arbitrary: b m)
  case Nil
  then show ?case by (cases ds) auto
next
  case (Cons c cs)
  show ?case
  proof (cases "0 < b")
    case True
    with Cons show ?thesis by (cases m) (auto simp: nat_diff_distrib')
  next
    case False
    then show ?thesis by simp
  qed
qed

lemma cut_units_front:
  assumes "uniform 1 cs" and "0 \<le> b" and "nat b \<le> length cs" and "nat b \<le> 256"
  shows "cut b (cs @ ds) = Some (nat b)"
proof -
  have "taken b 256 (cs @ ds) = nat b" by (rule taken_units_front) (use assms in auto)
  moreover have "bal_sum (take (nat b) (cs @ ds)) = b"
    using uniform_sum [OF uniform_sub(2) [OF assms(1)], of "nat b"] assms(2,3) by simp
  ultimately show ?thesis by (simp add: cut_def max_gas_per_query_def)
qed

lemma cut_worthless: "uniform 0 cs \<Longrightarrow> 0 < b \<Longrightarrow> cut b cs = None"
  using uniform_sum [OF uniform_sub(2), of 0 cs] by (simp add: cut_def Let_def)

section \<open>Locks\<close>

lemma lock_range_test:
  assumes "test_time C latest t" and "uint d \<le> 100000"
  shows "lock_range (t div 1000) (uint d)" "lua_num (t div 1000) = t div 1000"
proof -
  have "1 \<le> t div 1000" "t div 1000 \<le> t" "t \<le> 2 ^ 52"
    using assms(1) by (auto simp: test_time_def)
  then show "lock_range (t div 1000) (uint d)" using assms(2) by (simp add: lock_range_def)
  show "lua_num (t div 1000) = t div 1000"
    using \<open>1 \<le> t div 1000\<close> \<open>t div 1000 \<le> t\<close> \<open>t \<le> 2 ^ 52\<close> by (intro lua_num_exact) simp
qed

lemma lock_acquire_kept:
  "lock_ok l \<Longrightarrow> lock_range now dur \<Longrightarrow> lock_ok (snd (lock_acquire now dur l))"
  by (auto simp: lock_acquire_def lock_range_def lock_ok_def)

lemma wp_acquire_init:
  assumes "in_state C self t p w" and "test_time C latest t" and "uint d \<le> 100000"
    and "\<And>w'. in_state C self t
      (p\<lparr>init_lock := snd (lock_acquire (t div 1000) (uint d) (init_lock p))\<rparr>) w' \<Longrightarrow>
      Q (fst (lock_acquire (t div 1000) (uint d) (init_lock p))) w'"
  shows "wp (acquire_init_lock self d) Q w"
proof -
  let ?s = "acquire_init_lock_lua (namespace self) (t div 1000) (uint d)"
  have w: "quiet t w" "pool_rel C (namespace self) (keys w) p" "pool_inv p"
    using assms(1) by (simp_all add: in_state_def)
  note range = lock_range_test(1) [OF assms(2,3)] and ok = pool_inv_bounds(5) [OF w(3)]
  obtain db where db: "?s (keys w) = (Inr (fst (lock_acquire (t div 1000) (uint d) (init_lock p))), db)"
    and rel: "pool_rel C (namespace self) db
      (p\<lparr>init_lock := snd (lock_acquire (t div 1000) (uint d) (init_lock p))\<rparr>)"
    using acquire_lock_rel [OF pool_relD(7) [OF w(2)] ok range] pool_rel_init_lock [OF w(2)] w(2)
    by (auto simp: acquire_init_lock_lua_def lock_acquire_def)
  have "pool_inv (p\<lparr>init_lock := snd (lock_acquire (t div 1000) (uint d) (init_lock p))\<rparr>)"
    using w(3) lock_acquire_kept [OF ok range] by (simp add: pool_inv_def)
  with rel w(1) assms(4) invoke_quiet_Ok [where s = ?s, OF w(1) db] show ?thesis
    by (simp add: acquire_init_lock_def script_manager_defs in_state_def wp_def)
qed

lemma wp_acquire_maintenance:
  assumes "in_state C self t p w" and "test_time C latest t" and "uint d \<le> 100000"
    and "\<And>w'. in_state C self t
      (p\<lparr>maintenance := snd (lock_acquire (t div 1000) (uint d) (maintenance p))\<rparr>) w' \<Longrightarrow>
      Q (fst (lock_acquire (t div 1000) (uint d) (maintenance p))) w'"
  shows "wp (acquire_maintenance_lock self d) Q w"
proof -
  let ?s = "acquire_maintenance_lock_lua (namespace self) (t div 1000) (uint d)"
  have w: "quiet t w" "pool_rel C (namespace self) (keys w) p" "pool_inv p"
    using assms(1) by (simp_all add: in_state_def)
  note range = lock_range_test(1) [OF assms(2,3)] and ok = pool_inv_bounds(6) [OF w(3)]
  obtain db where db: "?s (keys w) = (Inr (fst (lock_acquire (t div 1000) (uint d) (maintenance p))), db)"
    and rel: "pool_rel C (namespace self) db
      (p\<lparr>maintenance := snd (lock_acquire (t div 1000) (uint d) (maintenance p))\<rparr>)"
    using acquire_lock_rel [OF pool_relD(8) [OF w(2)] ok range] pool_rel_maintenance [OF w(2)] w(2)
    by (auto simp: acquire_maintenance_lock_lua_def lock_acquire_def)
  have "pool_inv (p\<lparr>maintenance := snd (lock_acquire (t div 1000) (uint d) (maintenance p))\<rparr>)"
    using w(3) lock_acquire_kept [OF ok range] by (simp add: pool_inv_def)
  with rel w(1) assms(4) invoke_quiet_Ok [where s = ?s, OF w(1) db] show ?thesis
    by (simp add: acquire_maintenance_lock_def script_manager_defs in_state_def wp_def)
qed

lemma wp_release_maintenance:
  assumes "in_state C self t p w"
    and "\<And>w'. in_state C self t (p\<lparr>maintenance := Some 0\<rparr>) w' \<Longrightarrow> Q () w'"
  shows "wp (release_maintenance_lock self) Q w"
proof -
  let ?s = "release_maintenance_lock_lua (namespace self)"
  have w: "quiet t w" "pool_rel C (namespace self) (keys w) p" "pool_inv p"
    using assms(1) by (simp_all add: in_state_def)
  have "?s (keys w) = (Inr (), (keys w)(k_maintenance (namespace self) \<mapsto> RString (show_int 0)))"
    by (simp add: release_maintenance_lock_lua_def redis_set_simp)
  from invoke_quiet_Ok [where s = ?s, OF w(1) this] pool_rel_maintenance [OF w(2), of 0]
    w(1,3) assms(2) show ?thesis
    by (simp add: release_maintenance_lock_def script_manager_defs in_state_def wp_def pool_inv_def lock_ok_def)
qed

lemma wp_is_maintenance:
  assumes "in_state C self t p w" and "test_time C latest t"
    and "Q (in_maintenance (t div 1000) p) w"
  shows "wp (is_maintenance_mode self) Q w"
proof -
  let ?s = "is_maintenance_mode_lua (namespace self) (t div 1000)"
  have w: "quiet t w" "pool_rel C (namespace self) (keys w) p" "pool_inv p"
    using assms(1) by (simp_all add: in_state_def)
  from invoke_quiet_Ok [where s = ?s, OF w(1) is_maintenance_mode_rel [OF w(2,3)]]
    lock_range_test(2) [OF assms(2), of 0] w(1) assms(3) show ?thesis
    by (simp add: is_maintenance_mode_def script_manager_defs wp_def)
qed

end
