(* ===== verification/Storage_Tests.thy ===== *)
theory Storage_Tests
  imports Storage_Kit
begin

text \<open>
  The tests of the module \<open>src/src/storage/mod.rs\<close>, run on the model. The object references are drawn
  from \<open>rnd\<close>; whether the database is flushed on connecting is an argument, since the first test that
  connects does so and the others do not.
  The tests with a loop pass in \<open>Storage_Loops\<close>, and so does the one of several sponsors.
\<close>

definition check :: "('w, 'a) prog \<Rightarrow> ('a \<Rightarrow> bool) \<Rightarrow> ('w, unit) prog" where
  "check m f = pbind m (\<lambda>a. assert (f a))"

lemma wp_check [simp]: "wp (check m f) Q w = wp m (\<lambda>a w'. f a \<and> Q () w') w"
  unfolding check_def wp_pbind wp_assert ..

section \<open>The tests\<close>

definition test_gas_station_init ::
  "('id, 'dg) codec \<Rightarrow> bool \<Rightarrow> (nat \<Rightarrow> ('id, 'dg) object_ref) \<Rightarrow> redis_storage \<Rightarrow> ('z world_scheme, unit) prog"
where
  "test_gas_station_init C first rnd sponsor =
     pbind (connect_storage_for_testing_with_config first sponsor) (\<lambda>storage. in_order
       [check (punwrap (is_initialized storage)) Not,
        punwrap (add_new_coins C storage []),
        check (punwrap (is_initialized storage)) Not,
        punwrap (add_new_coins C storage [\<lparr>object_ref = rnd 0, balance = 1\<rparr>]),
        check (punwrap (is_initialized storage)) (\<lambda>b. b)])"

definition test_successful_reservation where
  "test_successful_reservation C latest first rnd sponsor =
     pbind (set_up C first rnd sponsor (units 100000)) (\<lambda>storage.
     pseq (assert_coin_count storage 100000 0) (
     pbind (for_loop [1..<max_gas_per_query + 1] (100000, 1) (\<lambda>i (cur_available, expected_res_id).
       pbind (punwrap (reserve_gas_coins C latest storage (of_nat i) 1000)) (\<lambda>(res_id, reserved_gas_coins).
       pseq (assert (expected_res_id = res_id)) (
       pseq (assert (length reserved_gas_coins = i))
         (pret (cur_available - i, expected_res_id + 1))))))
       (\<lambda>(cur_available, expected_res_id).
     assert_coin_count storage cur_available (100000 - cur_available))))"

definition test_max_gas_coin_per_query where
  "test_max_gas_coin_per_query C latest first rnd sponsor =
     pbind (set_up C first rnd sponsor (units (max_gas_per_query + 1))) (\<lambda>storage. in_order
       [check (ptry (reserve_gas_coins C latest storage (of_nat (max_gas_per_query + 1)) 1000)) isl,
        assert_coin_count storage (max_gas_per_query + 1) 0])"

definition test_insufficient_pool_budget where
  "test_insufficient_pool_budget C latest first rnd sponsor =
     pbind (set_up C first rnd sponsor (units 100)) (\<lambda>storage. in_order
       [check (ptry (reserve_gas_coins C latest storage 101 1000)) isl,
        assert_coin_count storage 100 0])"

definition test_coin_release where
  "test_coin_release C latest first rnd sponsor =
     pbind (set_up C first rnd sponsor (units 100)) (\<lambda>storage.
     for_loop (replicate 100 ()) () (\<lambda>_ _.
       pbind (punwrap (reserve_gas_coins C latest storage 99 1000)) (\<lambda>(res_id, reserved_gas_coins). in_order
         [assert (length reserved_gas_coins = 99),
          assert_coin_count storage 1 99,
          punwrap (ready_for_execution storage res_id),
          punwrap (add_new_coins C storage reserved_gas_coins),
          assert_coin_count storage 100 0])))"

definition test_coin_release_with_updated_balance where
  "test_coin_release_with_updated_balance C latest first rnd sponsor =
     pbind (set_up C first rnd sponsor (units 100)) (\<lambda>storage.
     pseq (for_loop (replicate 10 ()) () (\<lambda>_ _.
       pbind (punwrap (reserve_gas_coins C latest storage 10 1000)) (\<lambda>(res_id, reserved_gas_coins). in_order
         [assert (sum_list (map balance reserved_gas_coins) = 10),
          punwrap (ready_for_execution storage res_id),
          punwrap (add_new_coins C storage
            (map (\<lambda>c. if 0 < balance c then c\<lparr>balance := balance c - 1\<rparr> else c) reserved_gas_coins))])))
     (in_order
       [assert_coin_count storage 100 0,
        check (get_available_coin_total_balance storage) (\<lambda>n. n = 0),
        check (ptry (reserve_gas_coins C latest storage 1 1000)) isl]))"

definition test_deleted_objects where
  "test_deleted_objects C latest first rnd sponsor =
     pbind (set_up C first rnd sponsor (units 100)) (\<lambda>storage.
     pbind (punwrap (reserve_gas_coins C latest storage 100 1000)) (\<lambda>(res_id, reserved_gas_coins). in_order
       [assert (length reserved_gas_coins = 100),
        punwrap (ready_for_execution storage res_id),
        punwrap (add_new_coins C storage (drop 50 reserved_gas_coins)),
        assert_coin_count storage 50 0]))"

definition test_coin_expiration where
  "test_coin_expiration C latest first rnd sponsor =
     pbind (set_up C first rnd sponsor (units 100)) (\<lambda>storage.
     pbind (punwrap (reserve_gas_coins C latest storage 10 900)) (\<lambda>(res_id1, coins1).
     pseq (assert (length coins1 = 10)) (
     pbind (punwrap (reserve_gas_coins C latest storage 30 1900)) (\<lambda>(res_id2, coins2).
     pseq (assert (length coins2 = 30)) (
     pseq (sleep 1) (
     pbind (punwrap (reserve_gas_coins C latest storage 50 1900)) (\<lambda>(res_id3, coins3).
     in_order
       [assert (length coins3 = 50),
        assert_coin_count storage 10 90,
        check (punwrap (expire_coins C storage)) (\<lambda>ids. ids = []),
        assert_coin_count storage 10 90,
        sleep 1000,
        check (punwrap (expire_coins C storage)) (\<lambda>ids. length ids = 10 \<and> set ids = set (map coin_id coins1)),
        assert_coin_count storage 10 80,
        check (punwrap (expire_coins C storage)) (\<lambda>ids. ids = []),
        assert_coin_count storage 10 80,
        sleep 1000,
        check (punwrap (expire_coins C storage))
          (\<lambda>ids. length ids = 80 \<and> set ids = set (map coin_id (coins2 @ coins3))),
        assert_coin_count storage 10 0])))))))"

text \<open>
  Ten tasks reserve concurrently. Redis serves one request after the other, so a run of the test is a
  sequence of requests: \<open>schedule\<close> names the task of each. A task collects its coins in a vector.
\<close>

definition fair :: "nat list \<Rightarrow> bool" where
  "fair schedule \<longleftrightarrow> set schedule \<subseteq> {..<10} \<and> (\<forall>task < 10. count_list schedule task = 100)"

definition test_concurrent_reservation where
  "test_concurrent_reservation C latest first rnd sponsor schedule =
     pbind (set_up C first rnd sponsor (units 100000)) (\<lambda>storage.
     pbind (for_loop schedule (\<lambda>task. []) (\<lambda>task collected.
       pbind (punwrap (reserve_gas_coins C latest storage 3 1000)) (\<lambda>(_, newly_reserved).
       pret (collected(task := collected task @ newly_reserved)))))
     (\<lambda>collected.
     let reserved_gas_coins = concat (map collected [0..<10]);
         n = length reserved_gas_coins
     in pseq (assert (length (remdups (map coin_id reserved_gas_coins)) = n))
          (assert_coin_count storage (100000 - n) n)))"

definition test_acquire_init_lock where
  "test_acquire_init_lock C first rnd sponsor =
     pbind (set_up C first rnd sponsor (units 100)) (\<lambda>storage. in_order
       [check (punwrap (acquire_init_lock storage 5)) (\<lambda>b. b),
        check (punwrap (acquire_init_lock storage 1)) Not,
        sleep 6000,
        check (punwrap (acquire_init_lock storage 5)) (\<lambda>b. b)])"

definition test_init_coin_stats_idempotent where
  "test_init_coin_stats_idempotent C first rnd sponsor =
     pbind (set_up C first rnd sponsor (units 100)) (\<lambda>storage.
     check (punwrap (init_coin_stats_at_startup storage))
       (\<lambda>(coin_count, total_balance). coin_count = 100 \<and> total_balance = 100))"

text \<open>Several sponsors share the database.\<close>

definition test_multiple_sponsors where
  "test_multiple_sponsors C latest first rnd sponsors =
     pbind (for_loop (enumerate 0 sponsors) [] (\<lambda>(i, sponsor) storages.
       pbind (set_up C (first \<and> i = 0) (\<lambda>n. rnd (100 * i + n)) sponsor (units 100)) (\<lambda>storage.
       pret (storages @ [storage])))) (\<lambda>storages.
     for_loop storages () (\<lambda>storage _.
       pbind (punwrap (reserve_gas_coins C latest storage 50 1000)) (\<lambda>(_, gas_coins). in_order
         [assert (length gas_coins = 50),
          assert_coin_count storage 50 50])))"

section \<open>They pass\<close>

lemma units_sum [simp]: "bal_sum (new_coins rnd (units n)) = int n"
  using uniform_sum [OF uniform_units, of rnd n] by simp

text \<open>Each proof steps through its test; the side conditions are about the abstract pool.\<close>

lemma init_test_passes:
  assumes "quiet t w" and "test_start C latest t" and "fresh_namespace self w"
  shows "passes (test_gas_station_init C first rnd self) w"
  unfolding passes_wp test_gas_station_init_def wp_pbind wp_in_order wp_check wp_punwrap
  by (rule wp_connect [OF assms(1) test_startD(1) [OF assms(2)] assms(3)])
    (auto intro!: wp_is_initialized wp_add [OF _ test_startD(1) [OF assms(2)]])

lemma limit_test_passes:
  assumes "quiet t w" and "test_start C latest t" and "fresh_namespace self w"
  shows "passes (test_max_gas_coin_per_query C latest first rnd self) w"
proof -
  note C = test_startD(1) [OF assms(2)] and T = test_startD(2) [OF assms(2)]
  show ?thesis
    unfolding passes_wp test_max_gas_coin_per_query_def wp_pbind wp_in_order wp_check
    by (rule wp_set_up [OF assms(1) C assms(3)])
      (auto simp: max_gas_per_query_def cut_units
        intro!: wp_reserve_refused [OF _ T] wp_assert_coin_count [OF _ C])
qed

lemma budget_test_passes:
  assumes "quiet t w" and "test_start C latest t" and "fresh_namespace self w"
  shows "passes (test_insufficient_pool_budget C latest first rnd self) w"
proof -
  note C = test_startD(1) [OF assms(2)] and T = test_startD(2) [OF assms(2)]
  show ?thesis
    unfolding passes_wp test_insufficient_pool_budget_def wp_pbind wp_in_order wp_check
    by (rule wp_set_up [OF assms(1) C assms(3)])
      (auto simp: cut_units intro!: wp_reserve_refused [OF _ T] wp_assert_coin_count [OF _ C])
qed

lemma lock_test_passes:
  assumes "quiet t w" and "test_start C latest t" and "fresh_namespace self w"
  shows "passes (test_acquire_init_lock C first rnd self) w"
proof -
  note C = test_startD(1) [OF assms(2)] and T = test_startD(2) [OF assms(2)]
    and T6 = test_startD(3) [OF assms(2), of 6000, simplified]
  have sec: "(t + 6000) div 1000 = t div 1000 + 6" by simp
  show ?thesis
    unfolding passes_wp test_acquire_init_lock_def wp_pbind wp_in_order wp_check wp_punwrap
    by (rule wp_set_up [OF assms(1) C assms(3)])
      (simp, simp,
       rule wp_acquire_init [OF _ T], assumption, simp, simp add: lock_acquire_def lock_free_def,
       rule wp_acquire_init [OF _ T], assumption, simp, simp add: lock_acquire_def lock_free_def,
       rule wp_sleep, assumption,
       rule wp_acquire_init [OF _ T6], assumption, simp, simp add: lock_acquire_def lock_free_def sec)
qed

lemma stats_test_passes:
  assumes "quiet t w" and "test_start C latest t" and "fresh_namespace self w"
  shows "passes (test_init_coin_stats_idempotent C first rnd self) w"
proof -
  note C = test_startD(1) [OF assms(2)]
  show ?thesis
    unfolding passes_wp test_init_coin_stats_idempotent_def wp_pbind wp_check wp_punwrap
    by (rule wp_set_up [OF assms(1) C assms(3)])
      (auto simp: in_state_def add_pool_def empty_pool_def intro!: wp_init_stats [OF _ C pool_fresh_rel])
qed

lemma deletion_test_passes:
  assumes "quiet t w" and "test_start C latest t" and "fresh_namespace self w"
  shows "passes (test_deleted_objects C latest first rnd self) w"
proof -
  note C = test_startD(1) [OF assms(2)] and T = test_startD(2) [OF assms(2)]
  have half: "bal_sum (drop 50 (new_coins rnd (units 100))) = 50"
    using uniform_sum [of 1 "drop 50 (new_coins rnd (units 100))"] by (simp add: uniform_sub)
  show ?thesis
    unfolding passes_wp test_deleted_objects_def wp_pbind wp_in_order wp_punwrap
    apply (rule wp_set_up [OF assms(1) C assms(3)], simp, simp)
    apply (rule wp_reserve [OF _ T], assumption, simp, simp, simp, simp, simp, simp add: cut_units, simp)
    apply (rule wp_ready, assumption, simp)
    apply (simp only: wp_in_order wp_punwrap)
    apply (rule wp_add [OF _ C], assumption, simp add: half, simp)
    apply (simp only: wp_in_order)
    apply (rule wp_assert_coin_count [OF _ C], assumption, simp_all add: lent_ready lent_reserve)
    done
qed

lemma expiration_test_passes:
  assumes "quiet t w" and "test_start C latest t" and "fresh_namespace self w"
  shows "passes (test_coin_expiration C latest first rnd self) w"
proof -
  note C = test_startD(1) [OF assms(2)] and T = test_startD(2) [OF assms(2)]
    and T1 = test_startD(3) [OF assms(2), of 1, simplified]
    and T2 = test_startD(3) [OF assms(2), of 1001, simplified]
    and T3 = test_startD(3) [OF assms(2), of 2001, simplified]
  have pos: "0 \<le> t" using T by (simp add: test_time_def)
  define cs where "cs = new_coins rnd (units 100)"
  have cs: "length cs = 100" "uniform 1 cs" "cs \<noteq> []" by (simp_all add: cs_def)
  show ?thesis
    unfolding passes_wp test_coin_expiration_def wp_pbind wp_in_order wp_punwrap
    apply (rule wp_set_up [OF assms(1) C assms(3)], simp, simp)
    apply (fold cs_def)
    apply (rule wp_reserve [OF _ T], assumption, simp, simp, simp, simp, simp, simp add: cut_units cs, simp add: cs)
    apply (rule wp_reserve [OF _ T], assumption, simp, simp, simp, simp, simp, simp add: cut_units cs uniform_sub, simp add: cs)
    apply (rule wp_sleep, assumption)
    apply (simp only: wp_pbind wp_pseq wp_punwrap)
    apply (rule wp_reserve [OF _ T1], assumption, simp, simp, simp, simp, simp, simp add: cut_units cs uniform_sub, simp add: cs)
    apply (rule wp_assert_coin_count [OF _ C], assumption, simp add: cs, simp add: cs, simp add: cs lent_reserve)
    apply (simp only: wp_in_order wp_check wp_punwrap)
    apply (rule wp_expire_nothing [OF _ T1], assumption, simp add: cs, force simp: expired_at_def split: if_splits option.splits, rule conjI, simp)
    apply (rule wp_assert_coin_count [OF _ C], assumption, simp add: cs, simp add: cs, simp add: cs lent_reserve)
    apply (simp only: wp_in_order)
    apply (rule wp_sleep, assumption)
    apply (simp only: wp_in_order wp_check wp_punwrap)
    apply (rule wp_expire_one [where k = 1, OF _ T2], simp add: algebra_simps)
    apply (simp add: cs)
    using pos apply (auto simp: expired_at_def split: if_splits option.splits)[1]
    apply simp
    apply (simp add: cs)
    apply (rule wp_assert_coin_count [OF _ C], assumption, simp add: cs, simp add: cs, simp add: cs lent_reserve)
    apply (simp only: wp_in_order wp_check wp_punwrap)
    apply (rule wp_expire_nothing [OF _ T2], assumption, simp add: cs)
    apply (force simp: expired_at_def split: if_splits option.splits)
    apply (rule conjI, simp)
    apply (rule wp_assert_coin_count [OF _ C], assumption, simp add: cs, simp add: cs, simp add: cs lent_reserve)
    apply (simp only: wp_in_order)
    apply (rule wp_sleep, assumption)
    apply (simp only: wp_in_order wp_check wp_punwrap)
    apply (rule wp_expire_two [where j = "Suc (Suc 0)" and k = "Suc (Suc (Suc 0))", OF _ T3], simp add: algebra_simps)
    apply (simp add: cs)
    using pos apply (auto simp: expired_at_def split: if_splits option.splits)[1]
    apply simp
    apply (simp add: expired_at_def)
    apply (simp add: expired_at_def)
    apply (rule conjI, force simp: cs)
    apply (rule wp_assert_coin_count [OF _ C], assumption, simp add: cs, simp add: cs, simp add: cs lent_reserve)
    apply simp
    done
qed

end
