(* ===== verification/Storage_Loops.thy ===== *)
theory Storage_Loops
  imports Storage_Tests "HOL-Library.Multiset"
begin

text \<open>
  The storage tests that repeat their calls, each by the invariant of its loop, and the theorem that
  every test of \<open>src/src/storage/mod.rs\<close> passes. Reserving up to the limit of 256 coins, lending and
  returning the same coins, spending them down to nothing, ten tasks that reserve concurrently, and
  several sponsors.
\<close>

text \<open>What the loops keep: free coins, lent coins, the number of reservations so far.\<close>

definition idle :: "('id, 'dg) codec \<Rightarrow> redis_storage \<Rightarrow> int \<Rightarrow> nat \<Rightarrow> ('id, 'dg) gas_coin list \<Rightarrow> nat \<Rightarrow>
    'z world_scheme \<Rightarrow> bool" where
  "idle C self t k cs l w \<longleftrightarrow> (\<exists>p. in_state C self t p w \<and> avail p = cs \<and> lent_coins p = l \<and>
     next_id p = k \<and> maintenance p = None \<and> no_empty_loan p)"

lemma idleI:
  "in_state C self t p w \<Longrightarrow> avail p = cs \<Longrightarrow> lent_coins p = l \<Longrightarrow> next_id p = k \<Longrightarrow>
     maintenance p = None \<Longrightarrow> no_empty_loan p \<Longrightarrow> idle C self t k cs l w"
  unfolding idle_def by blast

lemma idleE:
  assumes "idle C self t k cs l w"
  obtains p where "in_state C self t p w" "avail p = cs" "lent_coins p = l" "next_id p = k"
    "maintenance p = None" "no_empty_loan p" "pool_inv p"
  using assms by (auto simp: idle_def in_state_def)

lemma idle_start: "in_state C self t (add_pool cs empty_pool) w \<Longrightarrow> idle C self t 0 cs 0 w"
  by (rule idleI, assumption) simp_all

lemma wp_reserve_idle:
  fixes w :: "'z world_scheme"
  assumes "idle C self t k cs l w" and "test_time C latest t" and "uint b \<le> 2 ^ 52"
    and "uint d \<le> 100000" and "b \<noteq> 0" and "k < 2 ^ 62" and "cut (uint b) cs = Some n" and "0 < n"
    and "\<And>w'. idle C self t (Suc k) (drop n cs) (l + n) w' \<Longrightarrow> Q (of_nat (Suc k), take n cs) w'"
  shows "wp (reserve_gas_coins C latest self b d) Q w"
proof -
  obtain p where p: "in_state C self t p w" "avail p = cs" "lent_coins p = l" "next_id p = k"
    "maintenance p = None" "no_empty_loan p" "pool_inv p"
    using assms(1) by (rule idleE)
  have n: "n \<le> length (avail p)" "avail p \<noteq> []" using cut_Some(2) [OF assms(7)] assms(8) p(2) by auto
  show ?thesis
  proof (rule wp_reserve [OF p(1) assms(2-5) p(5)])
    fix w' :: "'z world_scheme"
    assume "in_state C self t (reserve_pool n (t + uint d) p) w'"
    have "idle C self t (Suc k) (drop n cs) (l + n) w'"
      using idleI [OF \<open>in_state C self t (reserve_pool n (t + uint d) p) w'\<close>] p n assms(8)
      by (simp add: lent_reserve)
    from assms(9) [OF this] show "Q (of_nat (Suc (next_id p)), take n (avail p)) w'"
      by (simp only: p(2,4))
  qed (use p assms(6,7) in simp_all)
qed

lemma wp_count_idle: "idle C self t k cs l w \<Longrightarrow> codec_ok C \<Longrightarrow> length cs = a \<Longrightarrow> Q () w \<Longrightarrow>
    wp (assert_coin_count self a l) Q w"
  by (erule idleE, rule wp_assert_coin_count, assumption) simp_all

text \<open>Reserving, consuming and returning coins.\<close>

lemma reserve_and_return:
  fixes w :: "'z world_scheme"
  assumes "idle C self t k cs l w" and "test_time C latest t" and "uint b \<le> 2 ^ 52"
    and "uint d \<le> 100000" and "b \<noteq> 0" and "k < 2 ^ 62" and "cut (uint b) cs = Some n" and "0 < n"
    and "bal_sum (drop n cs) + bal_sum new \<le> 2 ^ 53" and "length (drop n cs) + length new \<le> 2 ^ 53"
    and "\<And>w1. idle C self t (Suc k) (drop n cs) (l + n) w1 \<Longrightarrow>
      (\<And>Q'. (\<And>w2. idle C self t (Suc k) (drop n cs @ new) l w2 \<Longrightarrow> Q' () w2) \<Longrightarrow>
        wp (ready_for_execution self (of_nat (Suc k))) (\<lambda>_. wp (add_new_coins C self new) Q') w1) \<Longrightarrow>
      Q (of_nat (Suc k), take n cs) w1"
  shows "wp (reserve_gas_coins C latest self b d) Q w"
proof -
  have C: "codec_ok C" using assms(2) by (simp add: test_time_def)
  obtain p where p: "in_state C self t p w" "avail p = cs" "lent_coins p = l" "next_id p = k"
    "maintenance p = None" "no_empty_loan p" "pool_inv p"
    using assms(1) by (rule idleE)
  have n: "n \<le> length (avail p)" "avail p \<noteq> []" using cut_Some(2) [OF assms(7)] assms(8) p(2) by auto
  have id: "unat (of_nat (Suc k) :: u64) = Suc k"
    using assms(6) by (simp add: unsigned_of_nat take_bit_nat_eq_self del: of_nat_Suc)
  show ?thesis
  proof (rule wp_reserve [OF p(1) assms(2-5) p(5)])
    fix w1 :: "'z world_scheme"
    let ?p = "reserve_pool n (t + uint d) p"
    assume w1: "in_state C self t ?p w1" "pool_inv ?p"
    have idle: "idle C self t (Suc k) (drop n cs) (l + n) w1"
      by (rule idleI [OF w1(1)]) (use p n assms(8) in \<open>simp_all add: lent_reserve\<close>)
    have "wp (ready_for_execution self (of_nat (Suc k))) (\<lambda>_. wp (add_new_coins C self new) Q') w1"
      if "\<And>w2. idle C self t (Suc k) (drop n cs @ new) l w2 \<Longrightarrow> Q' () w2"
      for Q' :: "unit \<Rightarrow> 'z world_scheme \<Rightarrow> bool"
    proof (rule wp_ready [OF w1(1)])
      show "reserved ?p (unat (of_nat (Suc k) :: u64)) = Some (map coin_id (take n cs))"
        using p(2,4) by (simp only: id pool_fields) simp
    next
      fix w2 :: "'z world_scheme"
      let ?p2 = "ready_pool (unat (of_nat (Suc k) :: u64)) ?p"
      assume w2: "in_state C self t ?p2 w2"
      have lent: "lent_coins ?p2 = l"
        using w1(2) p n by (simp add: id lent_ready lent_reserve del: of_nat_Suc)
      show "wp (add_new_coins C self new) Q' w2"
      proof (rule wp_add [OF w2 C])
        fix w3 :: "'z world_scheme"
        assume "in_state C self t (add_pool new ?p2) w3"
        then show "Q' () w3"
          by (intro that idleI, assumption) (use p n lent assms(8) in \<open>simp_all del: of_nat_Suc\<close>)
      qed (use assms(9,10) p(2) in \<open>simp_all\<close>)
    qed
    from assms(11) [OF idle this] show "Q (of_nat (Suc (next_id p)), take n (avail p)) w1"
      by (simp only: p(2,4))
  qed (use p assms(6,7) in simp_all)
qed

lemma wp_set_up_idle:
  fixes w :: "'z world_scheme"
  assumes "quiet t w" and "test_start C latest t" and "fresh_namespace self w" and "n \<le> 1000000"
    and "\<And>w' :: 'z world_scheme. idle C self t 0 (new_coins rnd (units n)) 0 w' \<Longrightarrow> Q self w'"
  shows "wp (set_up C first rnd self (units n)) Q w"
  by (rule wp_set_up [OF assms(1) test_startD(1) [OF assms(2)] assms(3)])
    (use assms(4) in simp, use assms(4) in simp, use assms(5) idle_start in blast)

lemma reservation_test_passes:
  fixes w :: "'z world_scheme"
  assumes "quiet t w" and "test_start C latest t" and "fresh_namespace self w"
  shows "passes (test_successful_reservation C latest first rnd self) w"
proof -
  note C = test_startD(1) [OF assms(2)] and T = test_startD(2) [OF assms(2)]
  define cs where "cs = new_coins rnd (units 100000)"
  have cs: "uniform 1 cs" "length cs = 100000" by (simp_all add: cs_def)
  define I :: "nat \<Rightarrow> nat \<times> u64 \<Rightarrow> 'z world_scheme \<Rightarrow> bool" where
    "I = (\<lambda>k (cur_available, expected_res_id) w. expected_res_id = of_nat (Suc k) \<and>
       2 * cur_available + k * (k + 1) = 200000 \<and>
       idle C self t k (drop (100000 - cur_available) cs) (100000 - cur_available) w)"
  have step: "wp (reserve_gas_coins C latest self (of_nat (Suc k)) 1000)
      (\<lambda>r w'. e = fst r \<and> length (snd r) = Suc k \<and> I (Suc k) (cur - Suc k, e + 1) w') w'"
    if "k < 256" "I k (cur, e) w'" for k cur e w'
  proof -
    have sum: "2 * cur + k * (k + 1) = 200000" and e: "e = of_nat (Suc k)"
      and idle: "idle C self t k (drop (100000 - cur) cs) (100000 - cur) w'"
      using that(2) by (simp_all add: I_def)
    have "k * (k + 1) \<le> 255 * 256" using that(1) by (intro mult_le_mono) simp_all
    then have cur: "Suc k \<le> cur" "cur \<le> 100000" using sum that(1) by linarith+
    have b: "uint (of_nat (Suc k) :: u64) = int (Suc k)" "(of_nat (Suc k) :: u64) \<noteq> 0"
      using that(1)
      by (auto simp: unsigned_of_nat take_bit_nat_eq_self uint_nat word_of_nat_eq_0_iff
          simp del: of_nat_Suc dest!: dvd_imp_le)
    have cut: "cut (uint (of_nat (Suc k) :: u64)) (drop (100000 - cur) cs) = Some (Suc k)"
      unfolding b using cur that(1) cs by (simp add: cut_units uniform_sub del: of_nat_Suc)
    have rest: "100000 - cur + Suc k = 100000 - (cur - Suc k)" using cur by simp
    have left: "drop (Suc k) (drop (100000 - cur) cs) = drop (100000 - (cur - Suc k)) cs"
      by (simp only: drop_drop add.commute [of "Suc k"] rest)
    have sum': "2 * (cur - Suc k) + Suc k * (Suc k + 1) = 200000"
      using sum cur by (simp add: algebra_simps)
    show ?thesis
    proof (rule wp_reserve_idle [OF idle T _ _ b(2) _ cut])
      fix w2 :: "'z world_scheme"
      assume "idle C self t (Suc k) (drop (Suc k) (drop (100000 - cur) cs)) (100000 - cur + Suc k) w2"
      then have "I (Suc k) (cur - Suc k, e + 1) w2"
        unfolding left rest using sum' e by (simp add: I_def)
      then show "e = fst (of_nat (Suc k) :: u64, take (Suc k) (drop (100000 - cur) cs)) \<and>
          length (snd (of_nat (Suc k) :: u64, take (Suc k) (drop (100000 - cur) cs))) = Suc k \<and>
          I (Suc k) (cur - Suc k, e + 1) w2"
        using e cur cs(2) by (simp del: of_nat_Suc)
    qed (use that(1) b(1) in \<open>simp_all del: of_nat_Suc\<close>)
  qed
  have start: "I 0 (100000, 1) w'" if "idle C self t 0 cs 0 w'" for w'
    using that by (simp add: I_def)
  have loop: "length [1..<max_gas_per_query + 1] = 256"
    "[1..<max_gas_per_query + 1] ! k = Suc k" if "k < 256" for k
    using that by (simp_all add: max_gas_per_query_def del: upt_Suc)
  show ?thesis
    unfolding passes_wp test_successful_reservation_def wp_pbind
  proof (rule wp_set_up_idle [OF assms], simp, fold cs_def, unfold wp_pseq wp_pbind,
      rule wp_count_idle [OF _ C], assumption, rule cs(2), rule wp_for_loop [where I = I])
    fix w' :: "'z world_scheme"
    assume "idle C self t 0 cs 0 w'"
    then show "I 0 (100000, 1) w'" by (rule start)
  next
    fix k s and w' :: "'z world_scheme"
    assume k: "k < length [1..<max_gas_per_query + 1]" "I k s w'"
    have less: "k < 256" using k(1) loop(1) [of 0] by simp
    obtain cur e where s: "s = (cur, e)" by (cases s)
    show "wp ((\<lambda>(cur_available, expected_res_id). pbind (punwrap (reserve_gas_coins C latest self
        (of_nat ([1..<max_gas_per_query + 1] ! k)) 1000)) (\<lambda>(res_id, reserved_gas_coins).
        pseq (assert (expected_res_id = res_id)) (
        pseq (assert (length reserved_gas_coins = [1..<max_gas_per_query + 1] ! k))
          (pret (cur_available - [1..<max_gas_per_query + 1] ! k, expected_res_id + 1))))) s) (I (Suc k)) w'"
      unfolding loop(2) [OF less] s prod.case wp_pbind wp_punwrap
      by (rule wp_mono [OF step [OF less k(2) [unfolded s]]]) auto
  next
    fix s and w' :: "'z world_scheme"
    assume "I (length [1..<max_gas_per_query + 1]) s w'"
    then show "wp (case s of (cur_available, expected_res_id) \<Rightarrow>
        assert_coin_count self cur_available (100000 - cur_available)) (\<lambda>_ _. True) w'"
      using loop(1) [of 0] by (cases s) (auto simp: I_def cs intro!: wp_count_idle [OF _ C])
  qed
qed

lemma release_test_passes:
  fixes w :: "'z world_scheme"
  assumes "quiet t w" and "test_start C latest t" and "fresh_namespace self w"
  shows "passes (test_coin_release C latest first rnd self) w"
proof -
  note C = test_startD(1) [OF assms(2)] and T = test_startD(2) [OF assms(2)]
  define I :: "nat \<Rightarrow> unit \<Rightarrow> 'z world_scheme \<Rightarrow> bool" where
    "I = (\<lambda>k _ w. \<exists>cs. idle C self t k cs 0 w \<and> uniform 1 cs \<and> length cs = 100)"
  have start: "I 0 () w'" if "idle C self t 0 (new_coins rnd (units 100)) 0 w'" for w'
    using that by (auto simp: I_def intro!: exI [of _ "new_coins rnd (units 100)"])
  have step: "wp (reserve_gas_coins C latest self 99 1000)
      (\<lambda>(res_id, coins). wp (in_order
         [assert (length coins = 99), assert_coin_count self 1 99,
          punwrap (ready_for_execution self res_id), punwrap (add_new_coins C self coins),
          assert_coin_count self 100 0]) (I (Suc k))) w'"
    if k: "k < 100" "I k () w'" for k w'
  proof -
    obtain cs where cs: "idle C self t k cs 0 w'" "uniform 1 cs" "length cs = 100"
      using k(2) by (auto simp: I_def)
    have cut: "cut (uint (99 :: u64)) cs = Some 99" using cs by (simp add: cut_units)
    have sums: "bal_sum (drop 99 cs) = 1" "bal_sum (take 99 cs) = 99"
      using uniform_sum [OF uniform_sub(1) [OF cs(2)], of 99]
        uniform_sum [OF uniform_sub(2) [OF cs(2)], of 99] cs(3) by simp_all
    show ?thesis
    proof (rule reserve_and_return [OF cs(1) T _ _ _ _ cut, where new = "take 99 cs"])
      fix w1 :: "'z world_scheme"
      assume w1: "idle C self t (Suc k) (drop 99 cs) (0 + 99) w1"
        and return: "\<And>Q'. (\<And>w2. idle C self t (Suc k) (drop 99 cs @ take 99 cs) 0 w2 \<Longrightarrow> Q' () w2) \<Longrightarrow>
          wp (ready_for_execution self (of_nat (Suc k))) (\<lambda>_. wp (add_new_coins C self (take 99 cs)) Q') w1"
      have keep: "I (Suc k) () w2" if "idle C self t (Suc k) (drop 99 cs @ take 99 cs) 0 w2" for w2
        using that cs by (auto simp: I_def uniform_sub intro!: exI [of _ "drop 99 cs @ take 99 cs"])
      show "(case (of_nat (Suc k), take 99 cs) of (res_id, coins) \<Rightarrow> wp (in_order
         [assert (length coins = 99), assert_coin_count self 1 99,
          punwrap (ready_for_execution self res_id), punwrap (add_new_coins C self coins),
          assert_coin_count self 100 0]) (I (Suc k))) w1"
        unfolding prod.case wp_in_order wp_assert wp_punwrap
        by (intro conjI, simp add: cs, rule wp_count_idle [OF w1 [unfolded add_0] C], simp add: cs,
          rule return, rule wp_count_idle [OF _ C], assumption, simp add: cs, erule keep)
    qed (use k(1) sums cs in \<open>simp_all\<close>)
  qed
  show ?thesis
    unfolding passes_wp test_coin_release_def wp_pbind
  proof (rule wp_set_up_idle [OF assms], simp, rule wp_for_loop [where I = I])
    fix k s and w' :: "'z world_scheme"
    assume "k < length (replicate 100 ())" "I k s w'"
    then show "wp (pbind (punwrap (reserve_gas_coins C latest self 99 1000)) (\<lambda>(res_id, reserved_gas_coins).
        in_order
         [assert (length reserved_gas_coins = 99),
          assert_coin_count self 1 99,
          punwrap (ready_for_execution self res_id),
          punwrap (add_new_coins C self reserved_gas_coins),
          assert_coin_count self 100 0])) (I (Suc k)) w'"
      unfolding wp_pbind wp_punwrap
      by (intro wp_mono [OF step]) (auto split: prod.splits simp del: wp_in_order)
  qed (use start in simp_all)
qed

lemma spent_coins:
  "uniform 1 cs \<Longrightarrow> uniform 0 (map (\<lambda>c. if 0 < balance c then c\<lparr>balance := balance c - 1\<rparr> else c) cs)"
  by (auto simp: uniform_def)

lemma updated_release_test_passes:
  fixes w :: "'z world_scheme"
  assumes "quiet t w" and "test_start C latest t" and "fresh_namespace self w"
  shows "passes (test_coin_release_with_updated_balance C latest first rnd self) w"
proof -
  note C = test_startD(1) [OF assms(2)] and T = test_startD(2) [OF assms(2)]
  define I :: "nat \<Rightarrow> unit \<Rightarrow> 'z world_scheme \<Rightarrow> bool" where
    "I = (\<lambda>k _ w. \<exists>cs ds. idle C self t k (cs @ ds) 0 w \<and> uniform 1 cs \<and> uniform 0 ds \<and>
       length cs + 10 * k = 100 \<and> length ds = 10 * k)"
  have start: "I 0 () w'" if "idle C self t 0 (new_coins rnd (units 100)) 0 w'" for w'
    unfolding I_def
    by (rule exI [of _ "new_coins rnd (units 100)"], rule exI [of _ "[]"]) (use that in simp)
  have step: "wp (reserve_gas_coins C latest self 10 1000)
      (\<lambda>(res_id, coins). wp (in_order
         [assert (sum_list (map balance coins) = 10),
          punwrap (ready_for_execution self res_id),
          punwrap (add_new_coins C self
            (map (\<lambda>c. if 0 < balance c then c\<lparr>balance := balance c - 1\<rparr> else c) coins))]) (I (Suc k))) w'"
    if k: "k < 10" "I k () w'" for k w'
  proof -
    obtain cs ds where cs: "idle C self t k (cs @ ds) 0 w'" "uniform 1 cs" "uniform 0 ds"
      "length cs + 10 * k = 100" "length ds = 10 * k"
      using k(2) by (auto simp: I_def)
    have ten: "10 \<le> length cs" using cs(4) k(1) by simp
    have cut: "cut (uint (10 :: u64)) (cs @ ds) = Some 10" using cut_units_front [OF cs(2), of 10 ds] ten by simp
    define spent where
      "spent = map (\<lambda>c. if 0 < balance c then c\<lparr>balance := balance c - 1\<rparr> else c) (take 10 (cs @ ds))"
    have spent: "uniform 0 spent" "length spent = 10"
      using ten cs(2) by (simp_all add: spent_def spent_coins uniform_sub)
    have sums: "bal_sum (drop 10 (cs @ ds)) = int (length cs) - 10" "bal_sum spent = 0"
      using uniform_sum [OF uniform_sub(1) [OF cs(2)], of 10] uniform_sum [OF cs(3)] uniform_sum [OF spent(1)] ten
      by simp_all
    have "map balance (take 10 cs) = replicate 10 1"
      using ten uniform_sub(2) [OF cs(2), of 10]
      by (intro replicate_eqI) (auto simp: uniform_def)
    then have total: "sum_list (map balance (take 10 (cs @ ds))) = 10"
      using ten by (simp add: sum_list_replicate)
    show ?thesis
    proof (rule reserve_and_return [OF cs(1) T _ _ _ _ cut, where new = spent])
      fix w1 :: "'z world_scheme"
      assume w1: "idle C self t (Suc k) (drop 10 (cs @ ds)) (0 + 10) w1"
        and return: "\<And>Q'. (\<And>w2. idle C self t (Suc k) (drop 10 (cs @ ds) @ spent) 0 w2 \<Longrightarrow> Q' () w2) \<Longrightarrow>
          wp (ready_for_execution self (of_nat (Suc k))) (\<lambda>_. wp (add_new_coins C self spent) Q') w1"
      have keep: "I (Suc k) () w2" if "idle C self t (Suc k) (drop 10 (cs @ ds) @ spent) 0 w2" for w2
        unfolding I_def
        by (rule exI [of _ "drop 10 cs"], rule exI [of _ "ds @ spent"])
          (use that cs ten spent in \<open>simp add: uniform_sub\<close>)
      show "(case (of_nat (Suc k), take 10 (cs @ ds)) of (res_id, coins) \<Rightarrow> wp (in_order
         [assert (sum_list (map balance coins) = 10),
          punwrap (ready_for_execution self res_id),
          punwrap (add_new_coins C self
            (map (\<lambda>c. if 0 < balance c then c\<lparr>balance := balance c - 1\<rparr> else c) coins))]) (I (Suc k))) w1"
        unfolding prod.case wp_in_order wp_assert wp_punwrap spent_def [symmetric]
        by (intro conjI total return, erule keep)
    qed (use k(1) sums cs spent in \<open>simp_all\<close>)
  qed
  show ?thesis
    unfolding passes_wp test_coin_release_with_updated_balance_def wp_pbind
  proof (rule wp_set_up_idle [OF assms], simp, unfold wp_pseq, rule wp_for_loop [where I = I])
    fix k s and w' :: "'z world_scheme"
    assume "k < length (replicate 10 ())" "I k s w'"
    then show "wp (pbind (punwrap (reserve_gas_coins C latest self 10 1000)) (\<lambda>(res_id, reserved_gas_coins).
        in_order
         [assert (sum_list (map balance reserved_gas_coins) = 10),
          punwrap (ready_for_execution self res_id),
          punwrap (add_new_coins C self
            (map (\<lambda>c. if 0 < balance c then c\<lparr>balance := balance c - 1\<rparr> else c) reserved_gas_coins))]))
        (I (Suc k)) w'"
      unfolding wp_pbind wp_punwrap
      by (intro wp_mono [OF step]) (auto split: prod.splits simp del: wp_in_order)
  next
    fix s and w' :: "'z world_scheme"
    assume "I (length (replicate 10 ())) s w'"
    then obtain cs where cs: "idle C self t 10 cs 0 w'" "uniform 0 cs" "length cs = 100"
      by (auto simp: I_def)
    then obtain p where p: "in_state C self t p w'" "avail p = cs" by (rule_tac idleE)
    show "wp (in_order
       [assert_coin_count self 100 0,
        check (get_available_coin_total_balance self) (\<lambda>n. n = 0),
        check (ptry (reserve_gas_coins C latest self 1 1000)) isl]) (\<lambda>_ _. True) w'"
      unfolding wp_in_order wp_check
      by (rule wp_count_idle [OF cs(1) C cs(3)], rule wp_total_balance [OF p(1)], intro conjI,
        simp add: p(2) uniform_sum [OF cs(2)], rule wp_reserve_refused [OF p(1) T])
        (simp_all add: p(2) cut_worthless [OF cs(2)])
  qed (use start in simp_all)
qed

lemma collected_mset:
  "task < n \<Longrightarrow> mset (concat (map (f(task := f task @ xs)) [0..<n])) = mset (concat (map f [0..<n])) + mset xs"
proof (induction n)
  case (Suc n)
  have same: "map (f(n := f n @ xs)) [0..<n] = map f [0..<n]" by (simp del: fun_upd_apply)
  show ?case
  proof (cases "task = n")
    case True
    then show ?thesis by (simp add: same fun_upd_same del: fun_upd_apply)
  next
    case False
    with Suc show ?thesis by (simp add: fun_upd_def)
  qed
qed simp

lemma fair_length: "fair schedule \<Longrightarrow> length schedule = 1000"
  using sum_count_set [of schedule "{..<10}"] by (simp add: fair_def)

lemma new_coins_distinct:
  "inj (\<lambda>i. fst (rnd i)) \<Longrightarrow> distinct (map coin_id (new_coins rnd bs))"
proof -
  assume inj: "inj (\<lambda>i. fst (rnd i))"
  have "map coin_id (new_coins rnd bs) = map (\<lambda>i. fst (rnd i)) (map fst (enumerate 0 bs))"
    by (simp add: new_coins_def coin_id_def split_def del: map_fst_enumerate)
  with inj show ?thesis by (simp add: distinct_map inj_on_subset [OF inj])
qed

lemma concurrency_test_passes:
  fixes w :: "'z world_scheme"
  assumes "quiet t w" and "test_start C latest t" and "fresh_namespace self w"
    and "inj (\<lambda>i. fst (rnd i))" and "fair schedule"
  shows "passes (test_concurrent_reservation C latest first rnd self schedule) w"
proof -
  note C = test_startD(1) [OF assms(2)] and T = test_startD(2) [OF assms(2)]
  define cs where "cs = new_coins rnd (units 100000)"
  have cs: "uniform 1 cs" "length cs = 100000" "distinct (map coin_id cs)"
    using new_coins_distinct [OF assms(4)] by (simp_all add: cs_def)
  define I :: "nat \<Rightarrow> (nat \<Rightarrow> ('a, 'b) gas_coin list) \<Rightarrow> 'z world_scheme \<Rightarrow> bool" where
    "I = (\<lambda>k collected w. idle C self t k (drop (3 * k) cs) (3 * k) w \<and>
       mset (concat (map collected [0..<10])) = mset (take (3 * k) cs))"
  have step: "wp (reserve_gas_coins C latest self 3 1000)
      (\<lambda>r. I (Suc k) (collected(schedule ! k := collected (schedule ! k) @ snd r))) w'"
    if k: "k < 1000" "I k collected w'" for k collected w'
  proof -
    have cut: "cut (uint (3 :: u64)) (drop (3 * k) cs) = Some 3"
      using k(1) cs by (simp add: cut_units uniform_sub)
    have idle: "idle C self t k (drop (3 * k) cs) (3 * k) w'"
      and mset: "mset (concat (map collected [0..<10])) = mset (take (3 * k) cs)"
      using k(2) by (simp_all add: I_def)
    have task: "schedule ! k < 10"
      using assms(5) k(1) fair_length [OF assms(5)] by (force simp: fair_def subset_iff)
    have next_coins: "mset (take (3 * k) cs) + mset (take 3 (drop (3 * k) cs)) = mset (take (3 * Suc k) cs)"
      by (simp flip: mset_append add: take_add [symmetric] add.commute)
    show ?thesis
    proof (rule wp_reserve_idle [OF idle T _ _ _ _ cut])
      fix w2 :: "'z world_scheme"
      assume "idle C self t (Suc k) (drop 3 (drop (3 * k) cs)) (3 * k + 3) w2"
      then show "I (Suc k) (collected(schedule ! k := collected (schedule ! k) @
          snd (of_nat (Suc k) :: u64, take 3 (drop (3 * k) cs)))) w2"
        unfolding I_def collected_mset [OF task] mset snd_conv next_coins by (simp add: add.commute)
    qed (use k(1) in simp_all)
  qed
  show ?thesis
    unfolding passes_wp test_concurrent_reservation_def wp_pbind
  proof (rule wp_set_up_idle [OF assms(1-3)], simp, fold cs_def, rule wp_for_loop [where I = I])
    fix w' :: "'z world_scheme"
    assume "idle C self t 0 cs 0 w'"
    then show "I 0 (\<lambda>task. []) w'" by (simp add: I_def)
  next
    fix k collected and w' :: "'z world_scheme"
    assume "k < length schedule" "I k collected w'"
    then show "wp (pbind (punwrap (reserve_gas_coins C latest self 3 1000)) (\<lambda>(_, newly_reserved).
       pret (collected(schedule ! k := collected (schedule ! k) @ newly_reserved)))) (I (Suc k)) w'"
      unfolding wp_pbind wp_punwrap fair_length [OF assms(5)]
      by (intro wp_mono [OF step]) (auto simp: fun_upd_def split_def)
  next
    fix collected and w' :: "'z world_scheme"
    assume I: "I (length schedule) collected w'"
    let ?all = "concat (map collected [0..<10])"
    have all: "mset ?all = mset (take 3000 cs)" and idle: "idle C self t 1000 (drop 3000 cs) 3000 w'"
      using I by (simp_all add: I_def fair_length [OF assms(5)])
    have "mset (map coin_id ?all) = mset (map coin_id (take 3000 cs))"
      using all by (metis mset_map)
    then have ids: "distinct (map coin_id ?all)"
      using mset_eq_imp_distinct_iff [of "map coin_id ?all"] cs(3) by (metis distinct_take take_map)
    have n: "length ?all = 3000" using mset_eq_length [OF all] cs(2) by simp
    show "wp (let reserved_gas_coins = ?all; n = length reserved_gas_coins
      in pseq (assert (length (remdups (map coin_id reserved_gas_coins)) = n))
          (assert_coin_count self (100000 - n) n)) (\<lambda>_ _. True) w'"
      using n wp_count_idle [OF idle C] cs(2) by (simp add: Let_def distinct_remdups_id [OF ids])
  qed
qed

section \<open>Several sponsors\<close>

text \<open>
  Several sponsors. A call of one storage leaves the keys of the others alone, except that the first
  connection flushes the database, before any of them is set up.
\<close>

definition spared :: "bool \<Rightarrow> string \<Rightarrow> keyspace \<Rightarrow> 'z world_scheme \<Rightarrow> bool" where
  "spared flushed ns db w \<longleftrightarrow>
     (\<forall>k. k \<notin> keys_of ns \<longrightarrow> keys w k = db k \<or> flushed \<and> keys w k = None)"

lemma spared_refl: "spared flushed ns (keys w) w"
  by (simp add: spared_def)

lemma keeps_spared:
  assumes "\<And>db'. keeps (same_outside ns db') m"
  shows "keeps (spared flushed ns db) m"
proof (rule keepsI)
  fix w
  have "same_outside ns (keys w) (snd (m w))"
    using assms [of "keys w"] by (simp add: keeps_def same_outside_def)
  then show "spared flushed ns db w \<Longrightarrow> spared flushed ns db (snd (m w))"
    by (simp add: spared_def same_outside_def)
qed

lemma keeps_spared_flush: "keeps (spared True ns db :: 'z world_scheme \<Rightarrow> bool) flush_db"
  unfolding flush_db_def
proof (rule keeps_punwrap, rule keepsI)
  fix w :: "'z world_scheme"
  assume w: "spared True ns db w"
  have "keys (snd (invoke (\<lambda>db. (Inr (), Map.empty)) w)) = keys w \<or>
      keys (snd (invoke (\<lambda>db. (Inr (), Map.empty)) w)) = Map.empty"
    using invoke_db [of "\<lambda>db. (Inr (), Map.empty)" w] by auto
  with w show "spared True ns db (snd (invoke (\<lambda>db. (Inr (), Map.empty)) w))"
    unfolding spared_def by metis
qed

lemma keeps_in_order: "(\<And>m. m \<in> set ms \<Longrightarrow> keeps P m) \<Longrightarrow> keeps P (in_order ms)"
  by (induction ms) (simp_all add: in_order_def keeps_rules)

lemma pbind_first: "pbind (pseq m n) f = pseq m (pbind n f)" "pbind (pret a) f = f a"
  by (auto simp: fun_eq_iff split: prod.splits result.splits)

lemma keeps_set_up: "keeps (spared first (namespace self) db) (set_up C first rnd self bs)"
  unfolding set_up_def connect_storage_for_testing_with_config_def connect_storage_def Let_def pbind_first
  apply (cases first; simp only: if_True if_False pbind_first)
  apply ((rule keeps_spared_flush keeps_spared [OF keeps_outside_calls(14)]
       keeps_spared [OF keeps_outside_calls(5)] keeps_spared [OF keeps_outside_calls(3)]
     | rule keeps_rules keeps_in_order | clarsimp)+)
  done

lemma keeps_count: "keeps (same_outside (namespace self) db) (assert_coin_count self a l)"
proof -
  have loop: "within K (reserved_count_loop ns n ids)" for K ns n ids
    by (induction ids arbitrary: n) (auto intro!: within_rules)
  show ?thesis
    unfolding assert_coin_count_def get_reserved_coin_count_def get_reserved_coin_count_script_def
      get_reserved_coin_count_lua_def assert_def
    by (auto intro!: keeps_rules keeps_outside_calls keeps_outside_invoke within_rules loop)
qed

lemma spared_keys:
  assumes "spared flushed ns (keys w) w'" and "apart ns ms"
  shows "keys w' (nkey ms a) = keys w (nkey ms a) \<or> flushed \<and> keys w' (nkey ms a) = None"
proof -
  have "nkey ms a \<notin> keys_of ns" using assms(2) unfolding apart_def by (metis rangeE)
  with assms(1) show ?thesis by (simp add: spared_def)
qed

lemma fresh_spared:
  "spared flushed (namespace self) (keys w) w' \<Longrightarrow> apart (namespace self) (namespace other) \<Longrightarrow>
     fresh_namespace other w \<Longrightarrow> fresh_namespace other w'"
  using spared_keys unfolding fresh_namespace_def by metis

lemma idle_spared:
  assumes "spared False (namespace self) (keys w) w'" and "apart (namespace self) (namespace other)"
    and "quiet t w'" and "idle C other t k cs l w"
  shows "idle C other t k cs l w'"
proof -
  have "keys w' (nkey (namespace other) a) = keys w (nkey (namespace other) a)" for a
    using spared_keys [OF assms(1,2)] by simp
  from pool_rel_cong [of "keys w'", OF this] assms(3,4) show ?thesis
    by (auto simp: idle_def in_state_def)
qed

definition strangers :: "redis_storage list \<Rightarrow> bool" where
  "strangers sponsors \<longleftrightarrow> (\<forall>i j. i < length sponsors \<longrightarrow> j < length sponsors \<longrightarrow> i \<noteq> j \<longrightarrow>
     apart (namespace (sponsors ! i)) (namespace (sponsors ! j)))"

lemma idle_quiet: "idle C self t k cs l w \<Longrightarrow> quiet t w"
  by (auto simp: idle_def in_state_def)

lemma sponsors_test_passes:
  fixes w :: "'z world_scheme"
  assumes "quiet t w" and "test_start C latest t" and "\<forall>self \<in> set sponsors. fresh_namespace self w"
    and "strangers sponsors"
  shows "passes (test_multiple_sponsors C latest first rnd sponsors) w"
proof -
  note C = test_startD(1) [OF assms(2)] and T = test_startD(2) [OF assms(2)]
  define coins where "coins i = new_coins (\<lambda>n. rnd (100 * i + n)) (units 100)" for i :: nat
  have coins: "uniform 1 (coins i)" "length (coins i) = 100" for i by (simp_all add: coins_def)
  define I :: "nat \<Rightarrow> redis_storage list \<Rightarrow> 'z world_scheme \<Rightarrow> bool" where
    "I = (\<lambda>k storages w. storages = take k sponsors \<and> quiet t w \<and>
       (\<forall>j < k. idle C (sponsors ! j) t 0 (coins j) 0 w) \<and>
       (\<forall>j < length sponsors. k \<le> j \<longrightarrow> fresh_namespace (sponsors ! j) w))"
  define J :: "nat \<Rightarrow> unit \<Rightarrow> 'z world_scheme \<Rightarrow> bool" where
    "J = (\<lambda>k _ w. \<forall>j < length sponsors. k \<le> j \<longrightarrow> idle C (sponsors ! j) t 0 (coins j) 0 w)"
  have other: "apart (namespace (sponsors ! k)) (namespace (sponsors ! j))"
    if "k < length sponsors" "j < length sponsors" "k \<noteq> j" for k j
    using assms(4) that by (simp add: strangers_def)
  have connect: "wp (set_up C (first \<and> k = 0) (\<lambda>n. rnd (100 * k + n)) (sponsors ! k) (units 100))
      (\<lambda>storage. I (Suc k) (storages @ [storage])) w1"
    if k: "k < length sponsors" "I k storages w1" for k storages and w1 :: "'z world_scheme"
  proof (rule wp_also [OF _ keeps_set_up spared_refl])
    show "wp (set_up C (first \<and> k = 0) (\<lambda>n. rnd (100 * k + n)) (sponsors ! k) (units 100))
        (\<lambda>self w'. self = sponsors ! k \<and> idle C (sponsors ! k) t 0 (coins k) 0 w') w1"
      by (rule wp_set_up_idle [OF _ assms(2)]) (use k in \<open>simp_all add: I_def coins_def\<close>)
  next
    fix self and w2 :: "'z world_scheme"
    assume new: "self = sponsors ! k \<and> idle C (sponsors ! k) t 0 (coins k) 0 w2"
      and spared: "spared (first \<and> k = 0) (namespace (sponsors ! k)) (keys w1) w2"
    have old: "idle C (sponsors ! j) t 0 (coins j) 0 w2" if "j < k" for j
      by (rule idle_spared [OF _ other [of k j] idle_quiet [OF conjunct2 [OF new]]])
        (use spared that k in \<open>auto simp: I_def\<close>)
    have fresh: "fresh_namespace (sponsors ! j) w2" if "Suc k \<le> j" "j < length sponsors" for j
      using fresh_spared [OF spared other [of k j]] that k by (auto simp: I_def)
    show "I (Suc k) (storages @ [self]) w2"
      using new old fresh k idle_quiet by (auto simp: I_def take_Suc_conv_app_nth less_Suc_eq)
  qed
  have lend: "wp (reserve_gas_coins C latest (sponsors ! k) 50 1000)
      (\<lambda>r. wp (in_order [assert (length (snd r) = 50), assert_coin_count (sponsors ! k) 50 50])
        (J (Suc k))) w1"
    if k: "k < length sponsors" "J k u w1" for k u and w1 :: "'z world_scheme"
  proof (rule wp_also [OF _ keeps_spared [OF keeps_outside_calls(1)] spared_refl])
    have cut: "cut (uint (50 :: u64)) (coins k) = Some 50" using coins by (simp add: cut_units)
    show "wp (reserve_gas_coins C latest (sponsors ! k) 50 1000)
        (\<lambda>r w'. length (snd r) = 50 \<and> idle C (sponsors ! k) t 1 (drop 50 (coins k)) 50 w') w1"
      by (rule wp_reserve_idle [OF _ T _ _ _ _ cut]) (use k coins in \<open>auto simp: J_def\<close>)
  next
    fix r and w2 :: "'z world_scheme"
    assume lent: "length (snd r) = 50 \<and> idle C (sponsors ! k) t 1 (drop 50 (coins k)) 50 w2"
      and spared: "spared False (namespace (sponsors ! k)) (keys w1) w2"
    have "idle C (sponsors ! j) t 0 (coins j) 0 w2" if "j < length sponsors" "Suc k \<le> j" for j
      by (rule idle_spared [OF spared other [of k j] idle_quiet [OF conjunct2 [OF lent]]])
        (use that k in \<open>auto simp: J_def\<close>)
    then have J: "J (Suc k) () w2" by (simp add: J_def)
    show "wp (in_order [assert (length (snd r) = 50), assert_coin_count (sponsors ! k) 50 50]) (J (Suc k)) w2"
      unfolding wp_in_order wp_assert
      by (intro conjI, simp add: lent, rule wp_count_idle [OF conjunct2 [OF lent] C])
        (simp_all add: coins J)
  qed
  show ?thesis
    unfolding passes_wp test_multiple_sponsors_def wp_pbind
  proof (rule wp_for_loop [where I = I])
    show "I 0 [] w" using assms(1,3) by (simp add: I_def)
  next
    fix k storages and w1 :: "'z world_scheme"
    assume "k < length (enumerate 0 sponsors)" "I k storages w1"
    then show "wp ((case enumerate 0 sponsors ! k of (i, sponsor) \<Rightarrow> \<lambda>storages.
        pbind (set_up C (first \<and> i = 0) (\<lambda>n. rnd (100 * i + n)) sponsor (units 100)) (\<lambda>storage.
        pret (storages @ [storage]))) storages) (I (Suc k)) w1"
      by (auto simp: nth_enumerate_eq intro: wp_mono [OF connect])
  next
    fix storages and w1 :: "'z world_scheme"
    assume "I (length (enumerate 0 sponsors)) storages w1"
    then have start: "storages = sponsors" "J 0 () w1" by (simp_all add: I_def J_def)
    show "wp (for_loop storages () (\<lambda>storage _.
       pbind (punwrap (reserve_gas_coins C latest storage 50 1000)) (\<lambda>(_, gas_coins). in_order
         [assert (length gas_coins = 50), assert_coin_count storage 50 50]))) (\<lambda>_ _. True) w1"
      unfolding start(1)
    proof (rule wp_for_loop [where I = J, OF start(2)])
      fix k u and w2 :: "'z world_scheme"
      assume "k < length sponsors" "J k u w2"
      from lend [OF this] show "wp (pbind (punwrap (reserve_gas_coins C latest (sponsors ! k) 50 1000))
          (\<lambda>(_, gas_coins). in_order [assert (length gas_coins = 50),
             assert_coin_count (sponsors ! k) 50 50])) (J (Suc k)) w2"
        unfolding wp_pbind wp_punwrap by (rule wp_mono) (simp add: split_def)
    qed simp
  qed
qed

text \<open>Ten sponsors of one network have ten namespaces.\<close>

definition on_network :: "(string \<Rightarrow> parsed_url option) \<Rightarrow> string \<Rightarrow> redis_storage list \<Rightarrow> bool" where
  "on_network parse url sponsors \<longleftrightarrow> distinct (map sponsor_str sponsors) \<and>
     (\<forall>self \<in> set sponsors. \<exists>n. get_storage_namespace parse url (sponsor_str self) = Ok n \<and>
        namespace self = generate_namespace n \<and> length (sponsor_str self) = length (sponsor_str (hd sponsors)))"

lemma on_network_strangers:
  assumes "on_network parse url sponsors"
  shows "strangers sponsors"
  unfolding strangers_def
proof (intro allI impI)
  fix i j
  assume ij: "i < length sponsors" "j < length sponsors" "i \<noteq> j"
  then have "sponsor_str (sponsors ! i) \<noteq> sponsor_str (sponsors ! j)"
    using assms by (auto simp: on_network_def distinct_conv_nth)
  moreover obtain n m where
    "get_storage_namespace parse url (sponsor_str (sponsors ! i)) = Ok n"
    "namespace (sponsors ! i) = generate_namespace n"
    "length (sponsor_str (sponsors ! i)) = length (sponsor_str (hd sponsors))"
    "get_storage_namespace parse url (sponsor_str (sponsors ! j)) = Ok m"
    "namespace (sponsors ! j) = generate_namespace m"
    "length (sponsor_str (sponsors ! j)) = length (sponsor_str (hd sponsors))"
    using assms ij nth_mem unfolding on_network_def by metis
  ultimately show "apart (namespace (sponsors ! i)) (namespace (sponsors ! j))"
    using namespaces_apart [of parse url "sponsor_str (sponsors ! i)" n "sponsor_str (sponsors ! j)" m]
    by simp
qed

section \<open>The test module\<close>

text \<open>
  C37: Every test of the storage module passes, whether or not it is the first to connect, in a world
  whose network serves the requests, whose clock is sane and whose namespace holds no key yet; for
  every draw of object identifiers without repetition and every order in which Redis serves the ten
  concurrent tasks.
\<close>

theorem storage_passes_its_tests:
  fixes w :: "'z world_scheme"
  assumes "quiet t w" and "test_start C latest t" and "fresh_namespace self w"
    and "inj (\<lambda>i. fst (rnd i))" and "fair schedule"
    and "on_network parse url sponsors" and "\<forall>sponsor \<in> set sponsors. fresh_namespace sponsor w"
  shows "passes (test_gas_station_init C first rnd self) w \<and>
    passes (test_successful_reservation C latest first rnd self) w \<and>
    passes (test_max_gas_coin_per_query C latest first rnd self) w \<and>
    passes (test_insufficient_pool_budget C latest first rnd self) w \<and>
    passes (test_coin_release C latest first rnd self) w \<and>
    passes (test_coin_release_with_updated_balance C latest first rnd self) w \<and>
    passes (test_deleted_objects C latest first rnd self) w \<and>
    passes (test_coin_expiration C latest first rnd self) w \<and>
    passes (test_multiple_sponsors C latest first rnd sponsors) w \<and>
    passes (test_concurrent_reservation C latest first rnd self schedule) w \<and>
    passes (test_acquire_init_lock C first rnd self) w \<and>
    passes (test_init_coin_stats_idempotent C first rnd self) w"
  by (intro conjI init_test_passes [OF assms(1-3)] reservation_test_passes [OF assms(1-3)]
      limit_test_passes [OF assms(1-3)] budget_test_passes [OF assms(1-3)]
      release_test_passes [OF assms(1-3)] updated_release_test_passes [OF assms(1-3)]
      deletion_test_passes [OF assms(1-3)] expiration_test_passes [OF assms(1-3)]
      sponsors_test_passes [OF assms(1,2,7) on_network_strangers [OF assms(6)]]
      concurrency_test_passes [OF assms(1-5)] lock_test_passes [OF assms(1-3)]
      stats_test_passes [OF assms(1-3)])

definition test_redis :: redis_storage where
  "test_redis = \<lparr>sponsor_str = ''0x1'', namespace = ''localhost_9000:0x1:registry''\<rparr>"

definition test_redis_world :: world where
  "test_redis_world = \<lparr>keys = Map.empty, clock = [1000000], faults = [], events = []\<rparr>"

definition localhost_url :: "string \<Rightarrow> parsed_url option" where
  "localhost_url s = Some \<lparr>scheme = ''http'', host_str = Some ''localhost'', port = Some 9000\<rparr>"

definition ten_sponsors :: "redis_storage list" where
  "ten_sponsors = map (\<lambda>d. \<lparr>sponsor_str = ''0x'' @ [d], namespace = ''localhost_9000:0x'' @ d # '':registry''\<rparr>)
     ''0123456789''"

lemma ten_sponsors_network: "on_network localhost_url [] ten_sponsors"
proof -
  have "show_nat 9000 = ''9000''" by (simp add: show_nat.simps digit_char_def)
  then show ?thesis
    by (simp add: on_network_def ten_sponsors_def get_storage_namespace_def localhost_url_def
        generate_namespace_def)
qed

definition round_robin :: "nat list" where
  "round_robin = concat (replicate 100 [0..<10])"

lemma round_robin_fair: "fair round_robin"
proof -
  have "count_list (concat (replicate n [0..<10])) task = n" if "task < 10" for n and task :: nat
  proof (induction n)
    case (Suc n)
    have "count_list [0..<10] task = 1"
      using that by (auto simp: upt_rec less_Suc_eq numeral_eq_Suc)
    with Suc show ?case by simp
  qed simp
  moreover have "set round_robin \<subseteq> {..<10}" by (auto simp: round_robin_def)
  ultimately show ?thesis by (simp add: fair_def round_robin_def)
qed

theorem storage_passes_its_tests_witness:
  "passes (test_concurrent_reservation nat_codec 2000000 True (\<lambda>i. (i, 1, 0)) test_redis round_robin)
     test_redis_world \<and>
   passes (test_multiple_sponsors nat_codec 2000000 True (\<lambda>i. (i, 1, 0)) ten_sponsors) test_redis_world"
proof -
  have "quiet 1000000 test_redis_world" "fresh_namespace test_redis test_redis_world"
    "test_start nat_codec 2000000 1000000" "inj (\<lambda>i :: nat. fst (i, 1 :: u64, 0 :: nat))"
    "\<forall>sponsor \<in> set ten_sponsors. fresh_namespace sponsor test_redis_world"
    by (simp_all add: quiet_def test_redis_world_def fresh_namespace_def test_start_def test_time_def
        nat_codec_ok)
  from storage_passes_its_tests [OF this(1,3,2,4) round_robin_fair ten_sponsors_network this(5),
      where first = True]
  show ?thesis by blast
qed

end
