(* ===== verification/Redis_Tests.thy ===== *)
theory Redis_Tests
  imports Storage_Tests Config
begin

text \<open>
  The tests of \<open>src/src/storage/redis/mod.rs\<close>: raw values, the statistics, the clean up of the registry
  and the maintenance lock. They start with \<open>FLUSHDB\<close>, whatever the database held. The keys that
  \<open>SCAN\<close> returns are a function of the database, \<open>scan\<close>; of Redis it is only assumed that a scan is
  complete. Printing and parsing of JSON are those of \<open>json_lib\<close>.
\<close>

section \<open>The tests\<close>

definition zero_sponsor :: string where
  "zero_sponsor = ''0x'' @ replicate 64 CHR ''0''"

definition setup_storage :: "string list list \<Rightarrow> ('z world_scheme, redis_storage) prog" where
  "setup_storage batches =
     pbind (redis_storage_new True batches zero_sponsor ''test'') (\<lambda>storage.
     pseq flush_db (
     pbind (punwrap (init_coin_stats_at_startup storage)) (\<lambda>(n0, b0).
     pseq (assert (n0 = 0)) (
     pseq (assert (b0 = 0))
       (pret storage)))))"

definition test_key :: "redis_storage \<Rightarrow> string" where
  "test_key storage = namespace storage @ '':test_key''"

record test_struct =
  struct_value :: string

definition ser_test_struct :: "test_struct \<Rightarrow> json" where
  "ser_test_struct s = JObject [(''value'', JString (struct_value s))]"

fun de_test_struct :: "json \<Rightarrow> test_struct result" where
  "de_test_struct (JObject fs) = rbind (de_field de_string ''value'' fs) (\<lambda>v. Ok \<lparr>struct_value = v\<rparr>)"
| "de_test_struct j = de_error ''invalid type: expected struct TestStruct''"

definition test_set_and_get_data :: "json_lib \<Rightarrow> string list list \<Rightarrow> ('z world_scheme, unit) prog" where
  "test_set_and_get_data J batches =
     pbind (setup_storage batches) (\<lambda>storage.
     let data = \<lparr>struct_value = ''test_value''\<rparr> in
     pseq (punwrap (set_data (test_key storage) (json_print J (ser_test_struct data)))) (
     pbind (punwrap (get_data (test_key storage))) (\<lambda>v.
     assert (case v of None \<Rightarrow> False | Some bytes \<Rightarrow>
       (case json_parse J bytes of None \<Rightarrow> False | Some j \<Rightarrow> de_test_struct j = Ok data)))))"

definition test_init_coin_stats_at_startup where
  "test_init_coin_stats_at_startup C rnd batches =
     pbind (setup_storage batches) (\<lambda>storage. in_order
       [punwrap (add_new_coins C storage (new_coins rnd [100, 200])),
        check (punwrap (init_coin_stats_at_startup storage)) (\<lambda>(n, b). n = 2 \<and> b = 300)])"

definition test_add_new_coins where
  "test_add_new_coins C rnd batches =
     pbind (setup_storage batches) (\<lambda>storage. in_order
       [punwrap (add_new_coins C storage (new_coins rnd [100, 200])),
        check (punwrap (get_available_coin_count storage)) (\<lambda>n. n = 2),
        check (get_available_coin_total_balance storage) (\<lambda>b. b = 300),
        punwrap (add_new_coins C storage (new_coins (\<lambda>i. rnd (i + 2)) [300, 400])),
        check (punwrap (get_available_coin_count storage)) (\<lambda>n. n = 4),
        check (get_available_coin_total_balance storage) (\<lambda>b. b = 1000)])"

text \<open>The clean up script asks Redis for the keys of the namespace when it runs.\<close>

definition clean_up :: "(keyspace \<Rightarrow> string list list) \<Rightarrow> redis_storage \<Rightarrow> ('z world_scheme, unit) prog" where
  "clean_up scan storage w = clean_up_coin_registry (scan (keys w)) storage w"

definition test_clean_up_coin_registry where
  "test_clean_up_coin_registry C rnd scan batches =
     pbind (setup_storage batches) (\<lambda>storage. in_order
       [punwrap (add_new_coins C storage (new_coins rnd [100, 200])),
        check (punwrap (get_available_coin_count storage)) (\<lambda>n. n = 2),
        check (get_available_coin_total_balance storage) (\<lambda>b. b = 300),
        punwrap (set_data (test_key storage) ''test_value''),
        check (punwrap (get_data (test_key storage))) (\<lambda>v. v \<noteq> None),
        punwrap (clean_up scan storage),
        check (punwrap (init_coin_stats_at_startup storage)) (\<lambda>(n, b). n = 0 \<and> b = 0),
        check (punwrap (get_data (test_key storage))) (\<lambda>v. v = None)])"

definition test_clean_up_preserves_locks where
  "test_clean_up_preserves_locks C rnd scan batches =
     pbind (setup_storage batches) (\<lambda>storage. in_order
       [punwrap (add_new_coins C storage (new_coins rnd [100, 200])),
        punwrap (set_data (test_key storage) ''test_value''),
        check (punwrap (acquire_maintenance_lock storage 300)) (\<lambda>b. b),
        check (punwrap (is_maintenance_mode storage)) (\<lambda>b. b),
        punwrap (clean_up scan storage),
        check (punwrap (is_maintenance_mode storage)) (\<lambda>b. b),
        check (punwrap (acquire_maintenance_lock storage 300)) Not,
        check (punwrap (init_coin_stats_at_startup storage)) (\<lambda>(n, b). n = 0 \<and> b = 0),
        check (punwrap (get_data (test_key storage))) (\<lambda>v. v = None),
        punwrap (release_maintenance_lock storage),
        check (punwrap (is_maintenance_mode storage)) Not,
        check (punwrap (acquire_maintenance_lock storage 300)) (\<lambda>b. b)])"

definition test_maintenance_mode where
  "test_maintenance_mode C latest rnd batches =
     pbind (setup_storage batches) (\<lambda>storage. in_order
       [punwrap (add_new_coins C storage (new_coins rnd [100, 200])),
        check (punwrap (is_maintenance_mode storage)) Not,
        check (punwrap (acquire_maintenance_lock storage 60)) (\<lambda>b. b),
        check (punwrap (is_maintenance_mode storage)) (\<lambda>b. b),
        check (punwrap (acquire_maintenance_lock storage 60)) Not,
        check (ptry (reserve_gas_coins C latest storage 50 1000))
          (\<lambda>result. case result of Inl e \<Rightarrow> str_contains ''maintenance mode'' (error_to_string e)
             | Inr r \<Rightarrow> False),
        punwrap (release_maintenance_lock storage),
        check (punwrap (is_maintenance_mode storage)) Not,
        check (punwrap (reserve_gas_coins C latest storage 50 1000))
          (\<lambda>(reservation_id, coins). 0 < reservation_id \<and> coins \<noteq> [])])"

definition test_maintenance_lock_expiration where
  "test_maintenance_lock_expiration batches =
     pbind (setup_storage batches) (\<lambda>storage. in_order
       [check (punwrap (acquire_maintenance_lock storage 2)) (\<lambda>b. b),
        check (punwrap (is_maintenance_mode storage)) (\<lambda>b. b),
        sleep 3000,
        check (punwrap (is_maintenance_mode storage)) Not,
        check (punwrap (acquire_maintenance_lock storage 60)) (\<lambda>b. b)])"

section \<open>Connecting\<close>

text \<open>A program that ends with a value or an error, and not with a panic, keeps \<open>P\<close>.\<close>

definition orderly :: "('w \<Rightarrow> bool) \<Rightarrow> ('w, 'a) prog \<Rightarrow> bool" where
  "orderly P m \<longleftrightarrow> (\<forall>w. P w \<longrightarrow> wp (ptry m) (\<lambda>_. P) w)"

lemma orderly_pbind: "orderly P m \<Longrightarrow> (\<And>a. orderly P (f a)) \<Longrightarrow> orderly P (pbind m f)"
proof -
  assume m: "orderly P m" and f: "\<And>a. orderly P (f a)"
  have "wp (ptry (pbind m f)) (\<lambda>_. P) w" if "P w" for w
  proof (cases "m w")
    case (Pair r w1)
    have "wp (ptry m) (\<lambda>_. P) w" using m that by (simp add: orderly_def)
    moreover have "wp (ptry (f a)) (\<lambda>_. P) w1" if "P w1" for a
      using f that by (simp add: orderly_def)
    ultimately show ?thesis using Pair by (cases r) (simp_all add: wp_def)
  qed
  then show ?thesis by (simp add: orderly_def)
qed

lemma orderly_basic: "orderly P (pret a)" "r = Ok a \<or> r = Err e \<Longrightarrow> orderly P (plift r)"
  by (auto simp: orderly_def wp_def)

lemma orderly_invoke: "orderly (quiet t) (invoke m)"
  by (auto simp: orderly_def wp_def invoke_def next_fault_def quiet_def Let_def
      split: prod.splits sum.splits)

lemma orderly_migrate: "orderly (quiet t) (storage_maybe_migrate batches s ns)"
proof -
  have version: "orderly (quiet t) (get_schema_version s ns)"
    unfolding get_schema_version_def
    by (intro orderly_pbind orderly_invoke)
      (auto simp: reply_to_i32_def orderly_def wp_def split: option.splits)
  have moved: "orderly (quiet t) (migrate_keys batches s ns)"
    unfolding migrate_keys_def
    by (intro orderly_pbind orderly_invoke) (auto simp: orderly_def wp_def split: prod.splits)
  show ?thesis
    unfolding storage_maybe_migrate_def maybe_migrate_def
    by (auto intro!: orderly_pbind version moved orderly_basic split: schema_version_result.split)
qed

lemma wp_redis_new:
  fixes w :: "'z world_scheme"
  assumes "quiet t w"
    and "\<And>w' :: 'z world_scheme. quiet t w' \<Longrightarrow> Q \<lparr>sponsor_str = s, namespace = generate_namespace p\<rparr> w'"
  shows "wp (redis_storage_new True batches s p) Q w"
proof -
  have "wp (ptry (storage_maybe_migrate batches s (generate_namespace p))) (\<lambda>_. quiet t) w"
    by (rule orderly_migrate [unfolded orderly_def, rule_format, OF assms(1)])
  then show ?thesis
    unfolding redis_storage_new_def Let_def not_True_eq_False if_False wp_pbind
    by (auto elim!: wp_mono intro: assms(2))
qed

section \<open>Where the keys are\<close>

definition confined :: "string set \<Rightarrow> 'z world_scheme \<Rightarrow> bool" where
  "confined K w \<longleftrightarrow> (\<forall>k. k \<notin> K \<longrightarrow> keys w k = None)"

lemma confined_upd [simp]:
  "confined K (w\<lparr>events := es\<rparr>) = confined K w" "confined K (w\<lparr>clock := ts\<rparr>) = confined K w"
  "confined K (w\<lparr>faults := fs\<rparr>) = confined K w"
  by (simp_all add: confined_def)

lemma keeps_confined_invoke: "within K s \<Longrightarrow> keeps (confined K) (invoke s)"
  using invoke_db [of s] unfolding keeps_def confined_def within_def
  by (metis insertE singletonD)

text \<open>The keys of the coins, the statistics, the lock and the tests' own data.\<close>

definition test_keys :: "redis_storage \<Rightarrow> string list" where
  "test_keys storage = map (nkey (namespace storage))
     [''available_gas_coins'', ''available_coin_total_balance'', ''available_coin_count'',
      ''initialized'', ''schema_version'', ''maintenance_lock'', ''test_key'']"

lemma test_key_nkey: "test_key storage = nkey (namespace storage) ''test_key''"
  by (simp add: test_key_def nkey_def)

lemma within_test_scripts:
  assumes "set (test_keys self) - {test_key self} \<subseteq> K"
  shows "within K (add_new_coins_lua (namespace self) cs)"
    and "within K (init_coin_stats_at_startup_lua (namespace self))"
    and "within K (acquire_maintenance_lock_lua (namespace self) t d)"
    and "within K (release_maintenance_lock_lua (namespace self))"
    and "within K (is_maintenance_mode_lua (namespace self) t)"
proof -
  have mem: "k_coins (namespace self) \<in> K" "k_total (namespace self) \<in> K" "k_count (namespace self) \<in> K"
    "k_initialized (namespace self) \<in> K" "k_schema (namespace self) \<in> K" "k_maintenance (namespace self) \<in> K"
    by (rule subsetD [OF assms], simp add: test_keys_def test_key_nkey)+
  show "within K (add_new_coins_lua (namespace self) cs)"
    by (auto simp: add_new_coins_lua_def mark_initialized_def mem simp del: sbind_apply sseq_apply intro!: within_rules)
  show "within K (init_coin_stats_at_startup_lua (namespace self))"
    by (auto simp: init_coin_stats_at_startup_lua_def stored_int_def mem simp del: sbind_apply sseq_apply intro!: within_rules)
  show "within K (acquire_maintenance_lock_lua (namespace self) t d)"
    by (auto simp: acquire_maintenance_lock_lua_def acquire_lock_def lock_time_def mem simp del: sbind_apply sseq_apply intro!: within_rules)
  show "within K (release_maintenance_lock_lua (namespace self))"
    by (auto simp: release_maintenance_lock_lua_def mem simp del: sbind_apply sseq_apply intro!: within_rules)
  show "within K (is_maintenance_mode_lua (namespace self) t)"
    by (auto simp: is_maintenance_mode_lua_def lock_time_def mem simp del: sbind_apply sseq_apply intro!: within_rules)
qed

lemma keeps_confined_basic:
  "keeps (confined K) (emit m)" "keeps (confined K) utc_now_ms" "keeps (confined K) utc_now_sec"
  by (intro keeps_rules; simp)+

lemma keeps_confined_calls:
  assumes "set (test_keys self) - {test_key self} \<subseteq> K"
  shows "keeps (confined K) (add_new_coins C self cs)"
    and "keeps (confined K) (init_coin_stats_at_startup self)"
    and "keeps (confined K) (acquire_maintenance_lock self d)"
    and "keeps (confined K) (release_maintenance_lock self)"
    and "keeps (confined K) (is_maintenance_mode self)"
  unfolding add_new_coins_def init_coin_stats_at_startup_def acquire_maintenance_lock_def
    release_maintenance_lock_def is_maintenance_mode_def publish_pool_gauges_def script_manager_defs
  by ((rule keeps_confined_invoke within_test_scripts [OF assms] keeps_confined_basic | rule keeps_rules)+)

definition test_storage :: redis_storage where
  "test_storage = \<lparr>sponsor_str = zero_sponsor, namespace = generate_namespace ''test''\<rparr>"

lemma wp_setup_storage:
  fixes w :: "'z world_scheme"
  assumes "quiet t w" and "codec_ok C"
    and "\<And>w' :: 'z world_scheme. in_state C test_storage t empty_pool w' \<Longrightarrow>
      confined (set (test_keys test_storage)) w' \<Longrightarrow> Q test_storage w'"
  shows "wp (setup_storage batches) Q w"
  unfolding setup_storage_def wp_pbind wp_pseq test_storage_def [symmetric]
proof (rule wp_redis_new [OF assms(1)], fold test_storage_def, rule wp_flush, assumption)
  fix w1 :: "'z world_scheme"
  assume w1: "quiet t w1" "keys w1 = Map.empty"
  have fresh: "fresh_namespace test_storage w1" using w1(2) by (simp add: fresh_namespace_def)
  have "wp (init_coin_stats_at_startup test_storage)
      (\<lambda>r w2. (in_state C test_storage t empty_pool w2 \<and> r = (0, 0)) \<and> confined (set (test_keys test_storage)) w2) w1"
    by (rule wp_keeps [OF keeps_confined_calls(2)], simp, simp add: confined_def w1(2),
      rule wp_init_stats [OF w1(1) assms(2) fresh_empty [OF fresh] pool_inv_empty])
      (simp add: empty_pool_def)
  then show "wp (punwrap (init_coin_stats_at_startup test_storage))
      (\<lambda>a. wp (case a of (n0, b0) \<Rightarrow>
        pseq (assert (n0 = 0)) (pseq (assert (b0 = 0)) (pret test_storage))) Q) w1"
    unfolding wp_punwrap by (rule wp_mono) (auto intro: assms(3))
qed

section \<open>Data and clean up\<close>

lemma test_key_apart [simp]: "show_nat i \<noteq> ''test_key''"
  by (simp add: show_nat_neq_Cons is_digit_def)

lemma wp_set_data:
  assumes "in_state C self t p w"
    and "\<And>w'. in_state C self t p w' \<Longrightarrow> keys w' (test_key self) = Some (RString v) \<Longrightarrow> Q () w'"
  shows "wp (set_data (test_key self) v) Q w"
proof -
  have w: "quiet t w" "pool_rel C (namespace self) (keys w) p" "pool_inv p"
    using assms(1) by (simp_all add: in_state_def)
  have "pool_rel C (namespace self) ((keys w)(test_key self \<mapsto> RString v)) p"
    using w(2) by (simp add: pool_rel_def test_key_nkey queue_rel_def next_rel_def lock_rel_def schema_ok_def)
  with w assms(2) show ?thesis
    using invoke_quiet_Ok [where s = "redis_set (test_key self) v", OF w(1)]
    by (simp add: set_data_def redis_set_simp in_state_def wp_def)
qed

lemma wp_get_data:
  "quiet t w \<Longrightarrow> keys w k = Some (RString v) \<Longrightarrow> Q (Some v) w \<Longrightarrow> wp (get_data k) Q w"
  "quiet t w \<Longrightarrow> keys w k = None \<Longrightarrow> Q None w \<Longrightarrow> wp (get_data k) Q w"
  using invoke_quiet_Ok [where s = "redis_get k" and w = w and t = t]
  by (simp_all add: get_data_def redis_get_def wp_def)

lemma in_state_quiet: "in_state C self t p w \<Longrightarrow> quiet t w"
  by (simp add: in_state_def)

text \<open>A registry without its statistics.\<close>

definition fresh_state ::
  "('id, 'dg) codec \<Rightarrow> redis_storage \<Rightarrow> int \<Rightarrow> ('id, 'dg) pool \<Rightarrow> 'z world_scheme \<Rightarrow> bool"
where
  "fresh_state C self t p w \<longleftrightarrow>
     quiet t w \<and> fresh_rel C (namespace self) (keys w) p \<and> pool_inv p"

lemma fresh_lock:
  "fresh_state C self t p w \<Longrightarrow> lock_rel (keys w) (k_maintenance (namespace self)) (maintenance p)"
  by (simp add: fresh_state_def fresh_rel_def pool_rel_def lock_rel_def)

lemma wp_is_maintenance_fresh:
  assumes "fresh_state C self t p w" and "test_time C latest t" and "Q (in_maintenance (t div 1000) p) w"
  shows "wp (is_maintenance_mode self) Q w"
proof -
  let ?s = "is_maintenance_mode_lua (namespace self) (t div 1000)"
  have w: "quiet t w" "pool_inv p" using assms(1) by (simp_all add: fresh_state_def)
  have "?s (keys w) = (Inr (in_maintenance (t div 1000) p), keys w)"
    using lock_time_rel [OF fresh_lock [OF assms(1)]] lock_ok_exact [OF pool_inv_bounds(6) [OF w(2)]]
      lock_range_test(2) [OF assms(2), of 0]
    by (cases "maintenance p") (auto simp: is_maintenance_mode_lua_def in_maintenance_def)
  from invoke_quiet_Ok [where s = ?s, OF w(1) this] assms(3) w(1) show ?thesis
    by (simp add: is_maintenance_mode_def script_manager_defs wp_def)
qed

lemma wp_acquire_held:
  assumes "fresh_state C self t p w" and "test_time C latest t" and "uint d \<le> 100000"
    and "in_maintenance (t div 1000) p" and "Q False w"
  shows "wp (acquire_maintenance_lock self d) Q w"
proof -
  let ?s = "acquire_maintenance_lock_lua (namespace self) (t div 1000) (uint d)"
  have w: "quiet t w" "pool_inv p" using assms(1) by (simp_all add: fresh_state_def)
  have "\<not> lock_free (t div 1000) (maintenance p)"
    using assms(4) by (auto simp: lock_free_def in_maintenance_def)
  with acquire_lock_rel [OF fresh_lock [OF assms(1)] pool_inv_bounds(6) [OF w(2)]
      lock_range_test(1) [OF assms(2,3)]]
  have "?s (keys w) = (Inr False, keys w)"
    by (simp add: acquire_maintenance_lock_lua_def lock_acquire_def)
  from invoke_quiet_Ok [where s = ?s, OF w(1) this] assms(5) w(1) show ?thesis
    by (simp add: acquire_maintenance_lock_def script_manager_defs wp_def)
qed

text \<open>Cleaning up leaves the locks and nothing else.\<close>

lemma wp_clean_up:
  assumes "in_state C self t p w" and "scan_complete (namespace self) (keys w) (scan (keys w))"
    and "\<And>w'. fresh_state C self t (empty_pool\<lparr>maintenance := maintenance p, init_lock := init_lock p\<rparr>) w' \<Longrightarrow>
      confined (UNIV - {test_key self}) w' \<Longrightarrow> Q () w'"
  shows "wp (clean_up scan self) Q w"
proof -
  let ?ns = "namespace self" and ?q = "empty_pool\<lparr>maintenance := maintenance p, init_lock := init_lock p\<rparr>"
  let ?s = "clean_up_coin_registry_lua (namespace self) (scan (keys w))"
  have w: "quiet t w" "pool_rel C ?ns (keys w) p" "pool_inv p"
    using assms(1) by (simp_all add: in_state_def)
  obtain n db where run: "?s (keys w) = (Inr n, db)"
    by (simp add: clean_up_coin_registry_lua_def clean_up_loop_rel)
  have db: "db (nkey ?ns a) = (if a = ''maintenance_lock'' \<or> a = ''init_lock'' then keys w (nkey ?ns a) else None)" for a
    using clean_up_complete [OF assms(2), of "nkey ?ns a"] run by (auto simp: nkey_def starts_with_iff)
  have "pool_inv ?q" using w(3) by (simp add: pool_inv_def empty_pool_def)
  moreover have "fresh_rel C ?ns db ?q"
    using pool_relD(7,8) [OF w(2)]
    by (auto simp: db fresh_rel_def stat_rel_def pool_rel_def empty_pool_def list_val_def
        resv_val_def queue_rel_def zset_val_def next_rel_def lock_rel_def schema_ok_def)
  ultimately show ?thesis
    using invoke_quiet_Ok [where s = ?s, OF w(1) run] assms(3) [of "w\<lparr>keys := db\<rparr>"] w(1)
      db [of "''test_key''"]
    by (simp add: clean_up_def clean_up_coin_registry_def script_manager_defs fresh_state_def
        confined_def test_key_nkey wp_def)
qed

section \<open>They pass\<close>

lemma hundreds [simp]:
  "bal_sum (new_coins rnd [100, 200]) = 300" "bal_sum (new_coins rnd [300, 400]) = 700"
  by (simp_all add: new_coins_def)

lemma data_test_passes:
  assumes "quiet t w" and "codec_ok (C :: ('id, 'dg) codec)"
    and "json_parse J (json_print J (ser_test_struct \<lparr>struct_value = ''test_value''\<rparr>)) =
      Some (ser_test_struct \<lparr>struct_value = ''test_value''\<rparr>)"
  shows "passes (test_set_and_get_data J batches) w"
  unfolding passes_wp test_set_and_get_data_def wp_pbind Let_def wp_pseq wp_punwrap wp_assert
  by (rule wp_setup_storage [OF assms(1,2)], rule wp_set_data, assumption, rule wp_get_data(1))
    (use assms(3) in \<open>auto simp: in_state_def ser_test_struct_def de_field_def\<close>)

lemma startup_test_passes:
  assumes "quiet t w" and "codec_ok C"
  shows "passes (test_init_coin_stats_at_startup C rnd batches) w"
  unfolding passes_wp test_init_coin_stats_at_startup_def wp_pbind wp_in_order wp_check wp_punwrap
  apply (rule wp_setup_storage [OF assms])
  apply (rule wp_add [OF _ assms(2)], assumption, simp, simp)
  apply (rule wp_init_stats [OF _ assms(2) pool_fresh_rel])
  apply (auto simp: in_state_def add_pool_def empty_pool_def)
  done

lemma add_test_passes:
  assumes "quiet t w" and "codec_ok C"
  shows "passes (test_add_new_coins C rnd batches) w"
  unfolding passes_wp test_add_new_coins_def wp_pbind wp_in_order wp_check wp_punwrap
  apply (rule wp_setup_storage [OF assms])
  apply (rule wp_add [OF _ assms(2)], assumption, simp, simp)
  apply (rule wp_count, assumption, rule conjI, simp)
  apply (rule wp_total_balance, assumption, rule conjI, simp)
  apply (rule wp_add [OF _ assms(2)], assumption, simp, simp)
  apply (rule wp_count, assumption, rule conjI, simp)
  apply (rule wp_total_balance, assumption, rule conjI, simp)
  apply simp
  done

lemma expiration_lock_test_passes:
  assumes "quiet t w" and "test_start C latest t"
  shows "passes (test_maintenance_lock_expiration batches) w"
proof -
  note C = test_startD(1) [OF assms(2)] and T = test_startD(2) [OF assms(2)]
    and T3 = test_startD(3) [OF assms(2), of 3000, simplified]
  have sec: "(t + 3000) div 1000 = t div 1000 + 3" by simp
  show ?thesis
    unfolding passes_wp test_maintenance_lock_expiration_def wp_pbind wp_in_order wp_check wp_punwrap
    apply (rule wp_setup_storage [OF assms(1) C])
    apply (rule wp_acquire_maintenance [OF _ T], assumption, simp)
    apply (rule conjI, simp add: lock_acquire_def lock_free_def empty_pool_def)
    apply (rule wp_is_maintenance [OF _ T], assumption)
    apply (rule conjI, simp add: lock_acquire_def lock_free_def in_maintenance_def empty_pool_def)
    apply (rule wp_sleep, assumption)
    apply (rule wp_is_maintenance [OF _ T3], assumption)
    apply (rule conjI, simp add: lock_acquire_def lock_free_def in_maintenance_def empty_pool_def sec)
    apply (rule wp_acquire_maintenance [OF _ T3], assumption, simp)
    apply (simp add: lock_acquire_def lock_free_def empty_pool_def sec)
    done
qed

lemma mode_test_passes:
  assumes "quiet t w" and "test_start C latest t"
  shows "passes (test_maintenance_mode C latest rnd batches) w"
proof -
  note C = test_startD(1) [OF assms(2)] and T = test_startD(2) [OF assms(2)]
  have pos: "0 < t div 1000"
    using T zdiv_mono1 [of 1000 t 1000] by (simp add: test_time_def)
  have msg: "str_contains ''maintenance mode'' (error_to_string (Anyhow maintenance_mode_error_message))"
    by (simp add: maintenance_mode_error_message_def)
  have cut: "cut 50 (new_coins rnd [100, 200]) = Some 1"
    by (simp add: cut_def new_coins_def max_gas_per_query_def)
  note lock = lock_acquire_def lock_free_def in_maintenance_def empty_pool_def
  show ?thesis
    unfolding passes_wp test_maintenance_mode_def wp_pbind wp_in_order wp_check wp_punwrap
    apply (rule wp_setup_storage [OF assms(1) C])
    apply (rule wp_add [OF _ C], assumption, simp, simp)
    apply (rule wp_is_maintenance [OF _ T], assumption, rule conjI, simp add: lock)
    apply (rule wp_acquire_maintenance [OF _ T], assumption, simp, rule conjI, simp add: lock)
    apply (rule wp_is_maintenance [OF _ T], assumption, rule conjI, simp add: lock)
    apply (rule wp_acquire_maintenance [OF _ T], assumption, simp, rule conjI, simp add: lock)
    apply (rule wp_reserve_refused [OF _ T], assumption, simp, simp, simp add: lock)
    apply (rule conjI, use msg in \<open>simp add: lock\<close>)
    apply (rule wp_release_maintenance, assumption)
    apply (rule wp_is_maintenance [OF _ T], assumption, rule conjI, use pos in \<open>simp add: lock\<close>)
    apply (rule wp_reserve_open [OF _ T], assumption, simp, simp, simp, use pos in \<open>simp add: lock\<close>, simp)
    apply (simp add: cut)
    apply (simp add: empty_pool_def new_coins_def)
    done
qed

text \<open>Before the clean up the keys are those of the test; after it the test's own data is gone.\<close>

lemma wp_add_confined:
  fixes w :: "'z world_scheme"
  assumes "in_state C self t p w" and "confined (set (test_keys self)) w" and "codec_ok C"
    and "bal_sum (avail p) + bal_sum cs \<le> 2 ^ 53" and "int (length (avail p)) + int (length cs) \<le> 2 ^ 53"
    and "\<And>w' :: 'z world_scheme. in_state C self t (add_pool cs p) w' \<Longrightarrow>
      confined (set (test_keys self)) w' \<Longrightarrow> Q () w'"
  shows "wp (add_new_coins C self cs) Q w"
  by (rule wp_also [where R = "\<lambda>_. in_state C self t (add_pool cs p)", OF _ keeps_confined_calls(1) assms(2)],
    rule wp_add [OF assms(1,3-5)]) (use assms(6) in auto)

lemma wp_set_confined:
  fixes w :: "'z world_scheme"
  assumes "in_state C self t p w" and "confined (set (test_keys self)) w"
    and "\<And>w' :: 'z world_scheme. in_state C self t p w' \<Longrightarrow> keys w' (test_key self) = Some (RString v) \<Longrightarrow>
      confined (set (test_keys self)) w' \<Longrightarrow> Q () w'"
  shows "wp (set_data (test_key self) v) Q w"
proof (rule wp_also [where P = "confined (set (test_keys self))", OF _ _ assms(2)])
  show "keeps (confined (set (test_keys self))) (set_data (test_key self) v)"
    unfolding set_data_def
    by (intro keeps_confined_invoke within_rules) (simp add: test_keys_def test_key_nkey)
  show "wp (set_data (test_key self) v)
      (\<lambda>_ w'. in_state C self t p w' \<and> keys w' (test_key self) = Some (RString v)) w"
    by (rule wp_set_data [OF assms(1)]) simp
qed (use assms(3) in auto)

lemma wp_acquire_confined:
  fixes w :: "'z world_scheme"
  assumes "in_state C self t p w" and "confined (set (test_keys self)) w" and "test_time C latest t"
    and "uint d \<le> 100000"
    and "\<And>w' :: 'z world_scheme. in_state C self t
      (p\<lparr>maintenance := snd (lock_acquire (t div 1000) (uint d) (maintenance p))\<rparr>) w' \<Longrightarrow>
      confined (set (test_keys self)) w' \<Longrightarrow> Q (fst (lock_acquire (t div 1000) (uint d) (maintenance p))) w'"
  shows "wp (acquire_maintenance_lock self d) Q w"
  by (rule wp_also [where R = "\<lambda>b w'. b = fst (lock_acquire (t div 1000) (uint d) (maintenance p)) \<and>
      in_state C self t (p\<lparr>maintenance := snd (lock_acquire (t div 1000) (uint d) (maintenance p))\<rparr>) w'",
      OF _ keeps_confined_calls(3) assms(2)], rule wp_acquire_maintenance [OF assms(1,3,4)])
    (use assms(5) in auto)

lemma wp_restart:
  fixes w :: "'z world_scheme"
  assumes "fresh_state C self t p w" and "confined (UNIV - {test_key self}) w" and "codec_ok C"
    and "avail p = []"
    and "\<And>w' :: 'z world_scheme. in_state C self t p w' \<Longrightarrow> keys w' (test_key self) = None \<Longrightarrow> Q (0, 0) w'"
  shows "wp (init_coin_stats_at_startup self) Q w"
proof (rule wp_also [where R = "\<lambda>r w'. r = (0, 0) \<and> in_state C self t p w'", OF _ keeps_confined_calls(2) assms(2)])
  show "wp (init_coin_stats_at_startup self) (\<lambda>r w'. r = (0, 0) \<and> in_state C self t p w') w"
    by (rule wp_init_stats [OF _ assms(3)])
      (use assms(1,4) in \<open>auto simp: fresh_state_def pool_inv_def\<close>)
qed (use assms(5) in \<open>auto simp: confined_def\<close>)

definition scans_keys :: "(keyspace \<Rightarrow> string list list) \<Rightarrow> bool" where
  "scans_keys scan \<longleftrightarrow> (\<forall>db. (\<forall>k. k \<notin> set (test_keys test_storage) \<longrightarrow> db k = None) \<longrightarrow>
     scan_complete (namespace test_storage) db (scan db))"

lemma cleanup_test_passes:
  assumes "quiet t w" and "codec_ok C" and "scans_keys scan"
  shows "passes (test_clean_up_coin_registry C rnd scan batches) w"
proof -
  have scan: "scan_complete (namespace test_storage) (keys w) (scan (keys w))"
    if "confined (set (test_keys test_storage)) w" for w :: "'a world_scheme"
    using assms(3) that by (simp add: scans_keys_def confined_def)
  show ?thesis
    unfolding passes_wp test_clean_up_coin_registry_def wp_pbind wp_in_order wp_check wp_punwrap
    apply (rule wp_setup_storage [OF assms(1,2)])
    apply (rule wp_add_confined [OF _ _ assms(2)], assumption, assumption, simp, simp)
    apply (rule wp_count, assumption, rule conjI, simp)
    apply (rule wp_total_balance, assumption, rule conjI, simp)
    apply (rule wp_set_confined, assumption, assumption)
    apply (rule wp_get_data(1) [OF in_state_quiet], assumption, assumption, rule conjI, simp)
    apply (rule wp_clean_up, assumption, erule scan)
    apply (rule wp_restart [OF _ _ assms(2)], assumption, assumption, simp, rule conjI, simp)
    apply (rule wp_get_data(2) [OF in_state_quiet], assumption, assumption, simp)
    done
qed

lemma preserved_lock_test_passes:
  assumes "quiet t w" and "test_start C latest t" and "scans_keys scan"
  shows "passes (test_clean_up_preserves_locks C rnd scan batches) w"
proof -
  note C = test_startD(1) [OF assms(2)] and T = test_startD(2) [OF assms(2)]
  have pos: "0 < t div 1000"
    using T zdiv_mono1 [of 1000 t 1000] by (simp add: test_time_def)
  have scan: "scan_complete (namespace test_storage) (keys w) (scan (keys w))"
    if "confined (set (test_keys test_storage)) w" for w :: "'a world_scheme"
    using assms(3) that by (simp add: scans_keys_def confined_def)
  note lock = lock_acquire_def lock_free_def in_maintenance_def empty_pool_def
  show ?thesis
    unfolding passes_wp test_clean_up_preserves_locks_def wp_pbind wp_in_order wp_check wp_punwrap
    apply (rule wp_setup_storage [OF assms(1) C])
    apply (rule wp_add_confined [OF _ _ C], assumption, assumption, simp, simp)
    apply (rule wp_set_confined, assumption, assumption)
    apply (rule wp_acquire_confined [OF _ _ T], assumption, assumption, simp, rule conjI, simp add: lock)
    apply (rule wp_is_maintenance [OF _ T], assumption, rule conjI, simp add: lock)
    apply (rule wp_clean_up, assumption, erule scan)
    apply (rule wp_is_maintenance_fresh [OF _ T], assumption, rule conjI, simp add: lock)
    apply (rule wp_acquire_held [OF _ T], assumption, simp, simp add: lock, rule conjI, simp)
    apply (rule wp_restart [OF _ _ C], assumption, assumption, simp, rule conjI, simp)
    apply (rule wp_get_data(2) [OF in_state_quiet], assumption, assumption, rule conjI, simp)
    apply (rule wp_release_maintenance, assumption)
    apply (rule wp_is_maintenance [OF _ T], assumption, rule conjI, use pos in \<open>simp add: lock\<close>)
    apply (rule wp_acquire_maintenance [OF _ T], assumption, simp, use pos in \<open>simp add: lock\<close>)
    done
qed

end
