(* ===== verification/Migration_Tests.thy ===== *)
theory Migration_Tests
  imports Redis_Tests
begin

text \<open>
  The tests of \<open>src/src/storage/redis/migration.rs\<close>, each with its own sponsor. The keys that
  \<open>SCAN\<close> returns inside \<open>migrate_keys.lua\<close> are an argument: nothing where the old registry has no
  reservation, and the two reservations, in any order and with any repetition, where it has two.
\<close>

section \<open>The connection\<close>

definition conn_set :: "string \<Rightarrow> string \<Rightarrow> ('z world_scheme, unit) prog" where
  "conn_set k v = punwrap (invoke (redis_set k v))"

definition conn_rpush :: "string \<Rightarrow> string list \<Rightarrow> ('z world_scheme, unit) prog" where
  "conn_rpush k vs = punwrap (invoke (smap (redis_rpush k) vs))"

definition conn_zadd :: "string \<Rightarrow> string \<Rightarrow> int \<Rightarrow> ('z world_scheme, unit) prog" where
  "conn_zadd k m score = punwrap (invoke (redis_zadd k score m))"

definition conn_exists :: "string \<Rightarrow> ('z world_scheme, bool) prog" where
  "conn_exists k = punwrap (invoke (redis_exists k))"

text \<open>A missing value cannot be read as a string.\<close>

definition conn_get :: "string \<Rightarrow> ('z world_scheme, string) prog" where
  "conn_get k = punwrap (pbind (invoke (redis_get k)) (\<lambda>v.
     case v of None \<Rightarrow> perr (Foreign ''Response was of incompatible type'') | Some s \<Rightarrow> pret s))"

definition conn_lrange :: "string \<Rightarrow> ('z world_scheme, string list) prog" where
  "conn_lrange k = punwrap (invoke (redis_lall k))"

definition redis_zall_scores :: "string \<Rightarrow> (string \<times> int) list script" where
  "redis_zall_scores k db = (case db k of
     None \<Rightarrow> (Inr [], db)
   | Some (RZSet z) \<Rightarrow> (Inr z, db)
   | Some _ \<Rightarrow> (Inl WrongType, db))"

definition conn_zrange_withscores :: "string \<Rightarrow> ('z world_scheme, (string \<times> int) list) prog" where
  "conn_zrange_withscores k = punwrap (invoke (redis_zall_scores k))"

text \<open>Sponsors of one repeated digit, and their namespaces.\<close>

definition test_sponsor :: "char \<Rightarrow> string" where
  "test_sponsor d = ''0x'' @ replicate 64 d"

definition test_namespace :: "string \<Rightarrow> char \<Rightarrow> string" where
  "test_namespace host d = host @ '':'' @ test_sponsor d @ '':registry''"

section \<open>The tests\<close>

definition test_schema_version_fresh_installation :: "('z world_scheme, unit) prog" where
  "test_schema_version_fresh_installation =
     (let sponsor = test_sponsor CHR ''0''; new_namespace = test_namespace ''test_host_443'' CHR ''0''
      in in_order
       [flush_db,
        check (punwrap (get_schema_version sponsor new_namespace)) (\<lambda>v. v = NotInitialized)])"

definition test_schema_version_old_format_with_initialized_flag :: "('z world_scheme, unit) prog" where
  "test_schema_version_old_format_with_initialized_flag =
     (let sponsor = test_sponsor CHR ''1''; new_namespace = test_namespace ''test_host_443'' CHR ''1''
      in in_order
       [flush_db,
        conn_set (nkey sponsor ''initialized'') ''1'',
        check (punwrap (get_schema_version sponsor new_namespace)) (\<lambda>v. v = OldFormat)])"

definition test_schema_version_old_format_with_coins :: "('z world_scheme, unit) prog" where
  "test_schema_version_old_format_with_coins =
     (let sponsor = test_sponsor CHR ''2''; new_namespace = test_namespace ''test_host_443'' CHR ''2''
      in in_order
       [flush_db,
        conn_rpush (nkey sponsor ''available_gas_coins'') [''100,0x123,1,abc''],
        check (punwrap (get_schema_version sponsor new_namespace)) (\<lambda>v. v = OldFormat)])"

definition test_schema_version_already_migrated :: "('z world_scheme, unit) prog" where
  "test_schema_version_already_migrated =
     (let sponsor = test_sponsor CHR ''a''; new_namespace = test_namespace ''test_host_443'' CHR ''a''
      in in_order
       [flush_db,
        conn_set (nkey new_namespace ''schema_version'') ''1'',
        check (punwrap (get_schema_version sponsor new_namespace)) (\<lambda>v. v = Version 1)])"

definition test_schema_version_prioritizes_over_old_data :: "('z world_scheme, unit) prog" where
  "test_schema_version_prioritizes_over_old_data =
     (let sponsor = test_sponsor CHR ''b''; new_namespace = test_namespace ''test_host_443'' CHR ''b''
      in in_order
       [flush_db,
        conn_set (nkey sponsor ''initialized'') ''1'',
        conn_set (nkey new_namespace ''schema_version'') ''1'',
        check (punwrap (get_schema_version sponsor new_namespace)) (\<lambda>v. v = Version 1)])"

definition test_migrate_keys_basic :: "string list list \<Rightarrow> ('z world_scheme, unit) prog" where
  "test_migrate_keys_basic batches =
     (let sponsor = test_sponsor CHR ''3''; new_namespace = test_namespace ''test_host_443'' CHR ''3''
      in in_order
       [flush_db,
        conn_set (nkey sponsor ''initialized'') ''1'',
        conn_set (nkey sponsor ''available_coin_count'') ''5'',
        conn_set (nkey sponsor ''available_coin_total_balance'') ''500'',
        conn_rpush (nkey sponsor ''available_gas_coins'') [''100,0x1,1,a'', ''200,0x2,2,b''],
        conn_set (nkey sponsor ''next_reservation_id'') ''10'',
        check (punwrap (migrate_keys batches sponsor new_namespace))
          (\<lambda>result. Migration.is_success result \<and> 5 \<le> migrated_count result),
        check (conn_exists (nkey sponsor ''initialized'')) Not,
        check (conn_get (nkey new_namespace ''initialized'')) (\<lambda>v. v = ''1''),
        check (conn_get (nkey new_namespace ''available_coin_count'')) (\<lambda>v. v = ''5''),
        check (conn_get (nkey new_namespace ''available_coin_total_balance'')) (\<lambda>v. v = ''500''),
        check (conn_lrange (nkey new_namespace ''available_gas_coins''))
          (\<lambda>v. length v = 2 \<and> v ! 0 = ''100,0x1,1,a'' \<and> v ! 1 = ''200,0x2,2,b''),
        check (conn_get (nkey new_namespace ''schema_version'')) (\<lambda>v. v = ''1'')])"

definition test_migrate_keys_with_reservations :: "string list list \<Rightarrow> ('z world_scheme, unit) prog" where
  "test_migrate_keys_with_reservations batches =
     (let sponsor = test_sponsor CHR ''4''; new_namespace = test_namespace ''test_host_443'' CHR ''4''
      in in_order
       [flush_db,
        conn_set (nkey sponsor ''initialized'') ''1'',
        conn_set (nkey sponsor ''next_reservation_id'') ''3'',
        conn_set (nkey sponsor ''1'') ''0x100,0x200'',
        conn_set (nkey sponsor ''2'') ''0x300'',
        conn_zadd (nkey sponsor ''expiration_queue'') ''1'' 1000,
        conn_zadd (nkey sponsor ''expiration_queue'') ''2'' 2000,
        check (punwrap (migrate_keys batches sponsor new_namespace)) Migration.is_success,
        check (conn_get (nkey new_namespace ''1'')) (\<lambda>v. v = ''0x100,0x200''),
        check (conn_get (nkey new_namespace ''2'')) (\<lambda>v. v = ''0x300''),
        check (conn_zrange_withscores (nkey new_namespace ''expiration_queue'')) (\<lambda>q. length q = 2)])"

definition test_migrate_skips_existing_keys :: "string list list \<Rightarrow> ('z world_scheme, unit) prog" where
  "test_migrate_skips_existing_keys batches =
     (let sponsor = test_sponsor CHR ''5''; new_namespace = test_namespace ''test_host_443'' CHR ''5''
      in in_order
       [flush_db,
        conn_set (nkey sponsor ''initialized'') ''1'',
        conn_set (nkey sponsor ''available_coin_count'') ''10'',
        conn_set (nkey new_namespace ''available_coin_count'') ''20'',
        check (punwrap (migrate_keys batches sponsor new_namespace))
          (\<lambda>result. Migration.is_success result \<and> 1 \<le> skipped_count result),
        check (conn_get (nkey new_namespace ''available_coin_count'')) (\<lambda>v. v = ''20'')])"

definition test_maybe_migrate_no_migration_needed :: "string list list \<Rightarrow> ('z world_scheme, unit) prog" where
  "test_maybe_migrate_no_migration_needed batches =
     (let sponsor = test_sponsor CHR ''6''; new_namespace = test_namespace ''test_host_443'' CHR ''6''
      in in_order
       [flush_db,
        check (punwrap (maybe_migrate batches sponsor new_namespace)) (\<lambda>result. result = None)])"

definition test_maybe_migrate_performs_migration :: "string list list \<Rightarrow> ('z world_scheme, unit) prog" where
  "test_maybe_migrate_performs_migration batches =
     (let sponsor = test_sponsor CHR ''7''; new_namespace = test_namespace ''test_host_443'' CHR ''7''
      in in_order
       [flush_db,
        conn_set (nkey sponsor ''initialized'') ''1'',
        conn_set (nkey sponsor ''available_coin_count'') ''100'',
        check (punwrap (maybe_migrate batches sponsor new_namespace))
          (\<lambda>result. case result of None \<Rightarrow> False
             | Some migration_result \<Rightarrow> Migration.is_success migration_result \<and> has_migrations migration_result)])"

text \<open>\<open>format!("{},0x{:064x},1,digest{}", 100000, i, i)\<close> of an index of one digit.\<close>

definition scenario_coin :: "nat \<Rightarrow> string" where
  "scenario_coin i = ''100000,0x'' @ replicate 63 CHR ''0'' @ show_nat i @ '',1,digest'' @ show_nat i"

definition test_full_migration_scenario :: "string list list \<Rightarrow> ('z world_scheme, unit) prog" where
  "test_full_migration_scenario batches =
     (let sponsor = test_sponsor CHR ''8'';
          new_namespace = test_namespace ''api.devnet.iota.cafe_443'' CHR ''8''
      in in_order
       [flush_db,
        conn_set (nkey sponsor ''initialized'') ''1'',
        conn_set (nkey sponsor ''available_coin_count'') ''1000'',
        conn_set (nkey sponsor ''available_coin_total_balance'') ''100000000'',
        conn_set (nkey sponsor ''next_reservation_id'') ''50'',
        in_order (map (\<lambda>i. conn_rpush (nkey sponsor ''available_gas_coins'') [scenario_coin i]) [0..<10]),
        check (punwrap (maybe_migrate batches sponsor new_namespace))
          (\<lambda>result. case result of None \<Rightarrow> False | Some migration_result \<Rightarrow> Migration.is_success migration_result),
        check (conn_get (nkey new_namespace ''initialized'')) (\<lambda>v. v = ''1''),
        check (conn_get (nkey new_namespace ''available_coin_count'')) (\<lambda>v. v = ''1000''),
        check (conn_get (nkey new_namespace ''available_coin_total_balance'')) (\<lambda>v. v = ''100000000''),
        check (conn_lrange (nkey new_namespace ''available_gas_coins'')) (\<lambda>v. length v = 10),
        check (conn_get (nkey new_namespace ''schema_version'')) (\<lambda>v. v = ''1''),
        check (punwrap (maybe_migrate batches sponsor new_namespace)) (\<lambda>result. result = None),
        check (punwrap (get_schema_version sponsor new_namespace)) (\<lambda>v. v = Version 1)])"

section \<open>They pass\<close>

lemma test_apart [simp]:
  assumes "host \<in> {''test_host_443'', ''api.devnet.iota.cafe_443''}"
  shows "nkey (test_sponsor d) a \<noteq> nkey (test_namespace host d) b"
    and "nkey (test_namespace host d) b \<noteq> nkey (test_sponsor d) a"
  using assms by (auto simp: nkey_def test_sponsor_def test_namespace_def)

lemma wp_invoke:
  "faults w = [] \<Longrightarrow> wp (invoke s) Q w = (case s (keys w) of (Inr a, db) \<Rightarrow> Q a (w\<lparr>keys := db\<rparr>) | _ \<Rightarrow> False)"
  by (simp add: wp_def invoke_def next_fault_def split: prod.splits sum.splits)

lemmas conn_defs = conn_set_def conn_zadd_def conn_exists_def conn_get_def conn_lrange_def
  conn_zrange_withscores_def flush_db_def get_schema_version_def get_schema_version_script_def
  get_schema_version_lua_def

lemmas redis_run = redis_set_def redis_get_def redis_exists_def redis_rpush_def redis_lall_def
  redis_llen_def redis_zadd_def redis_zall_scores_def redis_rename_def

lemma digit_texts [simp]:
  "show_int 1 = ''1''" "lua_tonumber ''1'' = Some 1" "lua_tonumber ''2'' = Some 2"
proof -
  have digit: "show_int 1 = ''1''" "show_int 2 = ''2''" by (simp_all add: show_int_def exec_simps)
  then show "show_int 1 = ''1''" by simp
  show "lua_tonumber ''1'' = Some 1" "lua_tonumber ''2'' = Some 2"
    using lua_tonumber_show_int [of 1] lua_tonumber_show_int [of 2] by (simp_all add: digit lua_num_exact)
qed

lemma version_tests_pass:
  assumes "faults w = []"
  shows "passes test_schema_version_fresh_installation w"
    and "passes test_schema_version_old_format_with_initialized_flag w"
    and "passes test_schema_version_old_format_with_coins w"
    and "passes test_schema_version_already_migrated w"
    and "passes test_schema_version_prioritizes_over_old_data w"
  using assms
  by (simp_all add: passes_wp test_schema_version_fresh_installation_def
      test_schema_version_old_format_with_initialized_flag_def test_schema_version_old_format_with_coins_def
      test_schema_version_already_migrated_def test_schema_version_prioritizes_over_old_data_def
      conn_defs conn_rpush_def redis_run wp_invoke wp_plift Let_def reply_to_i32_def)

lemmas migrate_defs = migrate_keys_def migrate_keys_script_def migrate_keys_lua_def key_suffixes_def
  move_key_def maybe_migrate_def Migration.is_success_def has_migrations_def

lemma no_reservations:
  "concat batches = [] \<Longrightarrow> migrate_reservations old new c (concat batches) db = (Inr c, db)"
  by (simp del: concat_eq_Nil_conv)

lemma basic_test_passes:
  assumes "faults w = []" and "concat batches = []"
  shows "passes (test_migrate_keys_basic batches) w"
  using assms
  by (simp add: passes_wp test_migrate_keys_basic_def conn_defs conn_rpush_def redis_run migrate_defs no_reservations wp_invoke Let_def)

lemma skip_test_passes:
  assumes "faults w = []" and "concat batches = []"
  shows "passes (test_migrate_skips_existing_keys batches) w"
  using assms
  by (simp add: passes_wp test_migrate_skips_existing_keys_def conn_defs redis_run migrate_defs no_reservations wp_invoke Let_def)

lemma maybe_tests_pass:
  assumes "faults w = []" and "concat batches = []"
  shows "passes (test_maybe_migrate_no_migration_needed batches) w"
    and "passes (test_maybe_migrate_performs_migration batches) w"
  using assms
  by (simp_all add: passes_wp test_maybe_migrate_no_migration_needed_def
      test_maybe_migrate_performs_migration_def conn_defs redis_run migrate_defs no_reservations wp_invoke wp_plift
      reply_to_i32_def Let_def)

lemma wp_rpush:
  "faults w = [] \<Longrightarrow> keys w k = list_val vs \<Longrightarrow>
     wp (conn_rpush k [v]) Q w = Q () (w\<lparr>keys := (keys w)(k := list_val (vs @ [v]))\<rparr>)"
  unfolding conn_rpush_def wp_punwrap by (simp add: wp_invoke redis_rpush_simp)

lemma wp_push_all:
  "faults w = [] \<Longrightarrow> keys w k = list_val vs \<Longrightarrow>
     wp (in_order (map (\<lambda>x. conn_rpush k [f x]) xs)) Q w =
       Q () (w\<lparr>keys := (keys w)(k := list_val (vs @ map f xs))\<rparr>)"
proof (induction xs arbitrary: w vs)
  case Nil
  then show ?case by (simp add: fun_upd_idem)
next
  case (Cons x xs)
  then show ?case
    by (simp add: wp_rpush [OF Cons.prems] Cons.IH [of _ "vs @ [f x]"] fun_upd_same del: fun_upd_apply)
qed

lemma scenario_test_passes:
  fixes w :: "'z world_scheme"
  assumes "faults w = []" and "concat batches = []"
  shows "passes (test_full_migration_scenario batches) w"
proof -
  have coins: "list_val (map scenario_coin [0..<10]) = Some (RList (map scenario_coin [0..<10]))"
    by (simp add: list_val_def del: upt_Suc)
  have push: "wp (in_order (map (\<lambda>i. conn_rpush k [scenario_coin i]) [0..<10])) Q w' =
      Q () (w'\<lparr>keys := (keys w')(k \<mapsto> RList (map scenario_coin [0..<10]))\<rparr>)"
    if "faults w' = []" "keys w' k = None" for k Q and w' :: "'z world_scheme"
    using wp_push_all [OF that(1), of k "[]" scenario_coin "[0..<10]" Q] that(2)
    by (simp only: append_Nil coins) (simp add: list_val_def)
  show ?thesis
    unfolding passes_wp test_full_migration_scenario_def Let_def wp_in_order wp_check
    using assms
    by (simp add: conn_defs redis_run migrate_defs no_reservations wp_invoke push
        wp_plift reply_to_i32_def Let_def del: upt_Suc)
qed

text \<open>Reservations are moved once, however often \<open>SCAN\<close> returns them.\<close>

lemma reservations_move:
  assumes "apart old new" and "set ks \<subseteq> {nkey old ''1'', nkey old ''2''}"
    and "moved old new S db0 db" and "db0 (nkey old ''1'') \<noteq> None" and "db0 (nkey old ''2'') \<noteq> None"
  shows "\<exists>m' s' db'. migrate_reservations old new (m, s) ks db = (Inr (m', s'), db') \<and>
    moved old new (S \<union> {a. nkey old a \<in> set ks \<and> lua_tonumber a \<noteq> None}) db0 db'"
  using migrate_reservations_moved [OF assms(1,3), of ks m s] assms(2,4,5) by fastforce

lemma reservation_test_moves:
  fixes w :: "'z world_scheme"
  assumes "faults w = []"
    and "set (concat batches) = {nkey (test_sponsor CHR ''4'') ''1'', nkey (test_sponsor CHR ''4'') ''2''}"
  shows "passes (test_migrate_keys_with_reservations batches) w"
proof -
  let ?old = "test_sponsor CHR ''4''" and ?new = "test_namespace ''test_host_443'' CHR ''4''"
  define db where "db = [k_initialized ?old \<mapsto> RString ''1'', k_next ?old \<mapsto> RString ''3'',
    nkey ?old ''1'' \<mapsto> RString ''0x100,0x200'', nkey ?old ''2'' \<mapsto> RString ''0x300'',
    k_queue ?old \<mapsto> RZSet [(''1'', 1000), (''2'', 2000)]]"
  have apart: "apart ?old ?new" by (simp add: apart_def)
  have start: "moved ?old ?new {} db db" by (simp add: moved_def db_def)
  obtain c1 db1 where known: "migrate_known ?old ?new (0, 0) key_suffixes db = (Inr c1, db1)"
    and db1: "moved ?old ?new (set key_suffixes) db db1"
    using migrate_known_moved [OF apart start, of 0 0 key_suffixes] by auto
  obtain c2 db2 where rest: "migrate_reservations ?old ?new c1 (concat batches) db1 = (Inr c2, db2)"
    and db2: "moved ?old ?new (set key_suffixes \<union>
      {a. nkey ?old a \<in> set (concat batches) \<and> lua_tonumber a \<noteq> None}) db db2"
    using reservations_move [OF apart _ db1, of "concat batches" "fst c1" "snd c1"] assms(2)
    by (auto simp: db_def)
  have found: "db2 (nkey ?new ''1'') = Some (RString ''0x100,0x200'')"
    "db2 (nkey ?new ''2'') = Some (RString ''0x300'')"
    "db2 (k_queue ?new) = Some (RZSet [(''1'', 1000), (''2'', 2000)])"
    using db2 unfolding moved_def assms(2) by (simp_all add: db_def key_suffixes_def)
  have run: "migrate_keys_lua batches ?old ?new db =
      (Inr (fst c2, snd c2, 0), db2(k_schema ?new \<mapsto> RString ''1''))"
    by (simp add: migrate_keys_lua_def known rest redis_set_def case_prod_unfold)
  show ?thesis
    unfolding passes_wp test_migrate_keys_with_reservations_def Let_def wp_in_order wp_check
    using assms(1) run [unfolded db_def]
    by (simp add: conn_defs redis_set_def redis_zadd_def redis_get_def redis_zall_scores_def zadd_def
        wp_invoke migrate_keys_def migrate_keys_script_def Migration.is_success_def found)
qed

section \<open>The test modules\<close>

text \<open>
  C38: Every test of \<open>src/src/storage/redis/mod.rs\<close> and of \<open>migration.rs\<close> passes, whatever the database
  held before, when the network serves the requests and the clock is sane: the statistics, the clean
  up that leaves the locks, the maintenance mode that refuses a reservation, the version of the schema
  and the migration of an old registry, for every way in which Redis cuts its scans into batches and
  repeats their keys.
\<close>

theorem redis_passes_its_tests:
  fixes w :: "'z world_scheme"
  assumes "quiet t w" and "test_start C latest t" and "scans_keys scan"
    and "json_parse J (json_print J (ser_test_struct data)) = Some (ser_test_struct data)"
    and "data = \<lparr>struct_value = ''test_value''\<rparr>"
    and "concat none = []"
    and "set (concat two) = {nkey (test_sponsor CHR ''4'') ''1'', nkey (test_sponsor CHR ''4'') ''2''}"
  shows "passes (test_set_and_get_data J batches) w \<and>
    passes (test_init_coin_stats_at_startup C rnd batches) w \<and>
    passes (test_add_new_coins C rnd batches) w \<and>
    passes (test_clean_up_coin_registry C rnd scan batches) w \<and>
    passes (test_clean_up_preserves_locks C rnd scan batches) w \<and>
    passes (test_maintenance_mode C latest rnd batches) w \<and>
    passes (test_maintenance_lock_expiration batches) w \<and>
    passes test_schema_version_fresh_installation w \<and>
    passes test_schema_version_old_format_with_initialized_flag w \<and>
    passes test_schema_version_old_format_with_coins w \<and>
    passes test_schema_version_already_migrated w \<and>
    passes test_schema_version_prioritizes_over_old_data w \<and>
    passes (test_migrate_keys_basic none) w \<and>
    passes (test_migrate_keys_with_reservations two) w \<and>
    passes (test_migrate_skips_existing_keys none) w \<and>
    passes (test_maybe_migrate_no_migration_needed none) w \<and>
    passes (test_maybe_migrate_performs_migration none) w \<and>
    passes (test_full_migration_scenario none) w"
proof -
  note C = test_startD(1) [OF assms(2)]
  have calm: "faults w = []" using assms(1) by (simp add: quiet_def)
  show ?thesis
    by (intro conjI data_test_passes [OF assms(1) C assms(4) [unfolded assms(5)]]
        startup_test_passes [OF assms(1) C] add_test_passes [OF assms(1) C]
        cleanup_test_passes [OF assms(1) C assms(3)] preserved_lock_test_passes [OF assms(1-3)]
        mode_test_passes [OF assms(1,2)] expiration_lock_test_passes [OF assms(1,2)]
        version_tests_pass [OF calm] basic_test_passes [OF calm assms(6)]
        reservation_test_moves [OF calm assms(7)] skip_test_passes [OF calm assms(6)]
        maybe_tests_pass [OF calm assms(6)] scenario_test_passes [OF calm assms(6)])
qed

definition plain_json :: json_lib where
  "plain_json = \<lparr>json_print = (\<lambda>j. case j of JObject [(k, JString s)] \<Rightarrow> s | _ \<Rightarrow> []),
     json_parse = (\<lambda>s. Some (JObject [(''value'', JString s)]))\<rparr>"

definition full_scan :: "keyspace \<Rightarrow> string list list" where
  "full_scan db = [filter (\<lambda>k. db k \<noteq> None) (test_keys test_storage)]"

definition used_redis :: world where
  "used_redis = \<lparr>keys = [''test:registry:initialized'' \<mapsto> RString ''1''], clock = [1000000], faults = [],
     events = []\<rparr>"

theorem redis_passes_its_tests_witness:
  "passes (test_clean_up_preserves_locks nat_codec (\<lambda>i. (i, 1, 0)) full_scan []) used_redis \<and>
   passes (test_migrate_keys_with_reservations
     [[nkey (test_sponsor CHR ''4'') ''2''], [], [nkey (test_sponsor CHR ''4'') ''1'', nkey (test_sponsor CHR ''4'') ''2'']])
     used_redis"
proof -
  let ?two = "[[nkey (test_sponsor CHR ''4'') ''2''], [], [nkey (test_sponsor CHR ''4'') ''1'',
    nkey (test_sponsor CHR ''4'') ''2'']]"
  have own: "starts_with (namespace test_storage @ '':'') k" if "k \<in> set (test_keys test_storage)" for k
    using that by (auto simp: test_keys_def nkey_def starts_with_iff)
  have scans: "scans_keys full_scan"
    unfolding scans_keys_def scan_complete_def full_scan_def by (auto simp: dom_def intro: own)
  have start: "quiet 1000000 used_redis" "test_start nat_codec 2000000 1000000"
    by (simp_all add: quiet_def used_redis_def test_start_def test_time_def nat_codec_ok)
  have json: "json_parse plain_json (json_print plain_json (ser_test_struct \<lparr>struct_value = ''test_value''\<rparr>)) =
      Some (ser_test_struct \<lparr>struct_value = ''test_value''\<rparr>)"
    by (simp add: plain_json_def ser_test_struct_def)
  have two: "set (concat ?two) = {nkey (test_sponsor CHR ''4'') ''1'', nkey (test_sponsor CHR ''4'') ''2''}" by auto
  from redis_passes_its_tests [OF start scans json refl _ two, of "[]" "[]" "\<lambda>i. (i, 1, 0)"] show ?thesis by simp
qed

end
