(* ===== verification/Lock_Exclusion.thy ===== *)
theory Lock_Exclusion
  imports Pool_Client
begin

text \<open>
  The two locks of the registry among several gas stations. Redis runs the scripts one at a time, so
  a history is a list of events, each with the client and the time it passes to the script. A client
  that was granted the lock believes to hold it until the end of its period or its release;
  \<open>holders\<close> keeps these beliefs. The scripts know no owner: a release frees the lock whoever holds it.
\<close>

datatype 'c lock_event =
    AcquireLock 'c (event_time: int) (event_duration: int)
  | ReleaseLock 'c (event_time: int)

type_synonym 'c holders = "('c \<times> int) list"

fun lock_step ::
  "(int \<Rightarrow> int \<Rightarrow> 's \<Rightarrow> bool \<times> 's) \<Rightarrow> ('s \<Rightarrow> 's) \<Rightarrow> 'c lock_event \<Rightarrow> 's \<times> 'c holders \<Rightarrow> 's \<times> 'c holders"
where
  "lock_step acquire release (AcquireLock c now dur) (s, hs) =
     (case acquire now dur s of (got, s') \<Rightarrow> (s', if got then (c, now + dur) # hs else hs))"
| "lock_step acquire release (ReleaseLock c now) (s, hs) =
     (release s, filter (\<lambda>h. fst h \<noteq> c) hs)"

definition lock_run ::
  "(int \<Rightarrow> int \<Rightarrow> 's \<Rightarrow> bool \<times> 's) \<Rightarrow> ('s \<Rightarrow> 's) \<Rightarrow> 'c lock_event list \<Rightarrow> 's \<times> 'c holders \<Rightarrow> 's \<times> 'c holders"
where
  "lock_run acquire release = fold (lock_step acquire release)"

text \<open>Who believes to hold the lock at a time.\<close>

definition in_force :: "int \<Rightarrow> 'c holders \<Rightarrow> 'c holders" where
  "in_force now hs = filter (\<lambda>h. now \<le> snd h) hs"

text \<open>
  The discipline: times do not run backwards, and only a client whose period is not over releases.
\<close>

fun punctual ::
  "(int \<Rightarrow> int \<Rightarrow> 's \<Rightarrow> bool \<times> 's) \<Rightarrow> ('s \<Rightarrow> 's) \<Rightarrow> (int \<Rightarrow> int \<Rightarrow> bool) \<Rightarrow> int \<Rightarrow> 'c lock_event list \<Rightarrow>
     's \<times> 'c holders \<Rightarrow> bool"
where
  "punctual acquire release in_range t [] z \<longleftrightarrow> True"
| "punctual acquire release in_range t (e # es) z \<longleftrightarrow> t \<le> event_time e \<and>
     (case e of
        AcquireLock c now dur \<Rightarrow> in_range now dur
      | ReleaseLock c now \<Rightarrow> c \<in> fst ` set (in_force now (snd z))) \<and>
     punctual acquire release in_range (event_time e) es (lock_step acquire release e z)"

fun last_time :: "int \<Rightarrow> 'c lock_event list \<Rightarrow> int" where
  "last_time t [] = t"
| "last_time t (e # es) = last_time (event_time e) es"

context timed_lock
begin

text \<open>The lock knows the only belief that is still in force.\<close>

definition agrees :: "int \<Rightarrow> 's \<times> 'c holders \<Rightarrow> bool" where
  "agrees t z \<longleftrightarrow> (\<exists>l. deadline (fst z) l \<and> lock_ok l \<and>
     length (in_force t (snd z)) \<le> 1 \<and> (\<forall>h \<in> set (in_force t (snd z)). l = Some (snd h)))"

lemma agrees_later: "agrees t z \<Longrightarrow> t \<le> t' \<Longrightarrow> agrees t' z"
proof -
  assume "agrees t z" "t \<le> t'"
  moreover have "in_force t' (snd z) = filter (\<lambda>h. t' \<le> snd h) (in_force t (snd z))"
    using \<open>t \<le> t'\<close> by (auto simp: in_force_def intro: filter_cong)
  ultimately show ?thesis
    unfolding agrees_def by (auto intro: order_trans [OF length_filter_le])
qed

lemma agrees_acquire:
  assumes "agrees now (s, hs)" "in_range now dur"
  shows "agrees now (lock_step acquire release (AcquireLock c now dur) (s, hs))"
proof -
  obtain l where l: "deadline s l" "lock_ok l" "length (in_force now hs) \<le> 1"
    "\<forall>h \<in> set (in_force now hs). l = Some (snd h)"
    using assms(1) by (auto simp: agrees_def)
  obtain got s' where a: "acquire now dur s = (got, s')" by fastforce
  from acquire_law [OF l(1,2) assms(2)] have law: "got = lock_free now l"
    "deadline s' (snd (lock_acquire now dur l))"
    by (auto simp: a lock_acquire_def)
  note ok = lock_acquire_ok [OF l(2) assms(2)]
  show ?thesis
  proof (cases got)
    case True
    have "in_force now hs = []"
    proof (rule ccontr)
      assume "in_force now hs \<noteq> []"
      then obtain h where "h \<in> set (in_force now hs)" by (meson last_in_set)
      with l(4) have "l = Some (snd h)" "now \<le> snd h" by (blast, simp add: in_force_def)
      with law(1) True show False by (simp add: lock_free_def)
    qed
    with True law ok range_law [OF assms(2)] show ?thesis
      by (auto simp: agrees_def a lock_acquire_def in_force_def)
  next
    case False
    with law ok l show ?thesis by (auto simp: agrees_def a lock_acquire_def)
  qed
qed

lemma agrees_release:
  assumes "agrees now (s, hs)" "c \<in> fst ` set (in_force now hs)"
  shows "agrees now (lock_step acquire release (ReleaseLock c now) (s, hs))"
proof -
  from assms(2) obtain u where h: "(c, u) \<in> set (in_force now hs)" by auto
  with assms(1) have "in_force now hs = [(c, u)]"
    by (cases "in_force now hs") (auto simp: agrees_def)
  moreover have "in_force now (filter (\<lambda>h. fst h \<noteq> c) hs) = filter (\<lambda>h. fst h \<noteq> c) (in_force now hs)"
    by (simp add: in_force_def conj_commute)
  ultimately have "in_force now (filter (\<lambda>h. fst h \<noteq> c) hs) = []"
    by simp
  then show ?thesis
    using release_law [of s] by (auto simp: agrees_def lock_ok_def intro!: exI [of _ "Some 0"])
qed

lemma one_holder:
  "agrees t z \<Longrightarrow> punctual acquire release in_range t es z \<Longrightarrow>
     agrees (last_time t es) (lock_run acquire release es z)"
proof (induction es arbitrary: t z)
  case Nil
  then show ?case by (simp add: lock_run_def)
next
  case (Cons e es)
  obtain s hs where z: "z = (s, hs)" by (cases z)
  have "t \<le> event_time e" using Cons.prems(2) by simp
  with Cons.prems(1) have "agrees (event_time e) z" by (rule agrees_later)
  then have "agrees (event_time e) (lock_step acquire release e z)"
    using Cons.prems(2) by (cases e) (simp_all only: z punctual.simps lock_event.case lock_event.sel
        snd_conv agrees_acquire agrees_release)
  from Cons.IH [OF this] Cons.prems(2) show ?case by (simp add: lock_run_def)
qed

text \<open>A release by somebody else frees the lock while its holder's period goes on.\<close>

lemma foreign_release:
  assumes "deadline s l" "lock_ok l" "lock_free now l" "in_range now dur" "in_range now' dur'"
  shows "fst (acquire now dur s) \<and> fst (acquire now' dur' (release (snd (acquire now dur s))))"
  using acquire_law [OF assms(1,2,4)] assms(3) released [OF assms(5)] by (simp add: lock_acquire_def)

end

text \<open>C34: at any time at most one gas station believes to hold the init lock, and at most one the
  maintenance lock, in every history in which times do not run backwards and a station releases a lock
  only within its own period.\<close>

theorem locks_exclude:
  assumes "lock_rel db (k_init_lock ns) l" "lock_ok l" "lock_rel db (k_maintenance ns) m" "lock_ok m"
    and "punctual (\<lambda>now dur. run_lock (acquire_init_lock_lua ns now dur))
      (\<lambda>db. snd (release_init_lock_lua ns db)) lock_range t es (db, [])"
    and "punctual (\<lambda>now dur. run_lock (acquire_maintenance_lock_lua ns now dur))
      (\<lambda>db. snd (release_maintenance_lock_lua ns db)) lock_range t es' (db, [])"
  shows "length (in_force (last_time t es) (snd (lock_run
        (\<lambda>now dur. run_lock (acquire_init_lock_lua ns now dur))
        (\<lambda>db. snd (release_init_lock_lua ns db)) es (db, [])))) \<le> 1 \<and>
    length (in_force (last_time t es') (snd (lock_run
        (\<lambda>now dur. run_lock (acquire_maintenance_lock_lua ns now dur))
        (\<lambda>db. snd (release_maintenance_lock_lua ns db)) es' (db, [])))) \<le> 1"
proof -
  have "init_lock_op.agrees ns t (db, [])" "maintenance_lock_op.agrees ns t (db, [])"
    using assms(1-4)
    by (auto simp: init_lock_op.agrees_def maintenance_lock_op.agrees_def in_force_def)
  from init_lock_op.one_holder [OF this(1) assms(5)] maintenance_lock_op.one_holder [OF this(2) assms(6)]
  show ?thesis by (auto simp: init_lock_op.agrees_def maintenance_lock_op.agrees_def)
qed

text \<open>Two stations in turn: the second gets the lock only after the first released it.\<close>

definition ex_history :: "nat lock_event list" where
  "ex_history = [AcquireLock 1 1000 600, AcquireLock 2 1100 600, ReleaseLock 1 1200,
     AcquireLock 2 1300 600]"

lemma ex_no_locks: "lock_rel Map.empty k None" "lock_ok None"
  by (simp_all add: lock_rel_def lock_ok_def)

lemmas lock_exec = run_lock_def acquire_init_lock_lua_def acquire_maintenance_lock_lua_def
  release_init_lock_lua_def release_maintenance_lock_lua_def lock_range_def in_force_def

theorem locks_exclude_witness:
  "length (in_force 1300 (snd (lock_run (\<lambda>now dur. run_lock (acquire_init_lock_lua ''ns'' now dur))
     (\<lambda>db. snd (release_init_lock_lua ''ns'' db)) ex_history (Map.empty, [])))) \<le> 1"
proof -
  have "punctual (\<lambda>now dur. run_lock (acquire_init_lock_lua ''ns'' now dur))
      (\<lambda>db. snd (release_init_lock_lua ''ns'' db)) lock_range 0 ex_history (Map.empty, [])"
    by (simp add: ex_history_def lock_exec acquire_lock_def exec_simps)
  moreover have "last_time 0 ex_history = 1300"
    by (simp add: ex_history_def)
  ultimately show ?thesis
    using locks_exclude [OF ex_no_locks ex_no_locks, where ns = "''ns''" and t = 0 and es = ex_history
        and es' = "[]"] by (metis punctual.simps(1))
qed

text \<open>C35: the locks know no owner: when the period of a station is over and another one has acquired the
  lock, the late release of the first frees it, and a third station acquires it while the second still
  works; the same holds for a release by a station that ignored the lock.\<close>

theorem foreign_release_frees_lock:
  assumes "lock_rel db (k_init_lock ns) (Some until)" "lock_ok (Some until)" "until < now"
    and "lock_range now dur" "lock_range now' dur'" "now \<le> now'" "now' \<le> now + dur"
    and "run_lock (acquire_init_lock_lua ns now dur) db = (got, db1)"
    and "release_init_lock_lua ns db1 = (Inr (), db2)"
  shows "got \<and> fst (run_lock (acquire_init_lock_lua ns now' dur') db2) \<and>
    \<not> fst (run_lock (acquire_init_lock_lua ns now' dur') db1)"
proof -
  have free: "lock_free now (Some until)" using assms(3) by (simp add: lock_free_def)
  from init_lock_op.foreign_release [OF assms(1,2) free assms(4,5)] have
    "fst (run_lock (acquire_init_lock_lua ns now dur) db)"
    "fst (run_lock (acquire_init_lock_lua ns now' dur') db2)"
    by (simp_all add: assms(8,9))
  with init_lock_op.exclusive [OF assms(1,2,4) this(1) assms(5,7)] show ?thesis
    by (simp add: assms(8))
qed

theorem foreign_release_frees_lock_witness:
  "\<exists>db1 db2. run_lock (acquire_init_lock_lua ''ns'' 2000 600) (Map.empty(k_init_lock ''ns'' \<mapsto> RString ''1600'')) =
       (True, db1) \<and> release_init_lock_lua ''ns'' db1 = (Inr (), db2) \<and>
     fst (run_lock (acquire_init_lock_lua ''ns'' 2100 600) db2)"
proof -
  let ?db = "Map.empty(k_init_lock ''ns'' \<mapsto> RString ''1600'')"
  obtain g db1 where a: "run_lock (acquire_init_lock_lua ''ns'' 2000 600) ?db = (g, db1)" by fastforce
  obtain db2 where r: "release_init_lock_lua ''ns'' db1 = (Inr (), db2)"
    by (simp add: release_init_lock_lua_def redis_set_simp)
  have "lock_rel ?db (k_init_lock ''ns'') (Some 1600)" "lock_ok (Some 1600)"
    by (simp_all add: lock_rel_def lock_ok_def show_int_def show_nat.simps digit_char_def)
  from foreign_release_frees_lock [OF this _ _ _ _ _ a r, of 2100 600] a r show ?thesis
    by (simp add: lock_range_def)
qed

end
