(* ===== verification/Access_Tests.thy ===== *)
theory Access_Tests
  imports Access_Props Unit_Tests
begin

text \<open>
  The unit tests of the access controller, run on the model: the test modules of
  \<open>src/src/access_controller/mod.rs\<close>, \<open>rule.rs\<close> and \<open>predicates/\<close>, one definition per test. A test is a
  program that panics when an assertion fails; it passes when it ends with \<open>Ok ()\<close>, whatever the
  world it starts in. Texts in YAML or JSON are the values they denote. The tests that evaluate a Rego
  policy are left out, as the engine is an argument.
\<close>

section \<open>The test environment\<close>

text \<open>
  \<open>IotaAddress::from_bytes([b; 32])\<close>: an address is its text, 64 hexadecimal digits after \<open>0x\<close>.
\<close>

definition hex_digit :: "nat \<Rightarrow> char" where
  "hex_digit n = ''0123456789abcdef'' ! n"

definition addr :: "nat \<Rightarrow> string" where
  "addr b = ''0x'' @ concat (replicate 32 [hex_digit (b div 16), hex_digit (b mod 16)])"

definition test_addr_codec :: "string addr_codec" where
  "test_addr_codec = \<lparr>show_addr = (\<lambda>a. a), debug_addr = (\<lambda>a. a),
     decode_bytes_hex = (\<lambda>s. if starts_with ''0x'' s then Some s else None),
     de_addr = (\<lambda>j. case j of JString s \<Rightarrow> if starts_with ''0x'' s then Ok s else de_error ''invalid address''
       | _ \<Rightarrow> de_error ''invalid address'')\<rparr>"

text \<open>A URL with a host and no path gets the path \<open>/\<close>; header names become lower case.\<close>

definition test_parse_url :: "string \<Rightarrow> string option" where
  "test_parse_url s =
     (if \<not> starts_with ''http://'' s then None
      else if CHR ''/'' \<in> set (drop 7 s) then Some s else Some (s @ ''/''))"

definition lower_char :: "char \<Rightarrow> char" where
  "lower_char c = (let n = of_char c :: nat in if 65 \<le> n \<and> n \<le> 90 then char_of (n + 32) else c)"

definition test_lib :: "(string, unit) access_lib" where
  "test_lib = \<lparr>addr_lib = test_addr_codec, duration_lib = sample_duration, parse_url = test_parse_url,
     header_name_of = (\<lambda>s. Some (map lower_char s)), header_value_of = Some, header_to_str = Some,
     add_policy = (\<lambda>name data. Inr ()), add_extension = (\<lambda>e name n. Inr ()),
     set_input_json = (\<lambda>e input. Inr ()), eval_rule = (\<lambda>e path. Inr RegoOther),
     json_pretty = (\<lambda>j. []), canonical_json = (\<lambda>j. case j of JString s \<Rightarrow> s | _ \<Rightarrow> []),
     sha256_text = (\<lambda>s. s)\<rparr>"

type_synonym test_world = "(string, nat, nat, nat, unit) access_world"
type_synonym access_test = "(test_world, unit) prog"

text \<open>\<open>AccessController::new\<close> and \<open>add_rule\<close>, with the controller in the world.\<close>

definition use_controller :: "access_policy \<Rightarrow> (string, unit) access_rule list \<Rightarrow> access_test" where
  "use_controller policy rs = pmodify (\<lambda>w. w\<lparr>controller := controller_new policy rs\<rparr>)"

definition then_add_rule :: "(string, unit) access_rule \<Rightarrow> access_test" where
  "then_add_rule r = pmodify (\<lambda>w. w\<lparr>controller := add_rule r (controller w)\<rparr>)"

text \<open>\<open>assert!(matches!(ac.check_access(&tx).await, Ok(..)))\<close>\<close>

definition assert_decision :: "(string, nat) transaction_context \<Rightarrow> decision \<Rightarrow> access_test" where
  "assert_decision ctx d = pbind (ptry (check_access test_lib ctx)) (\<lambda>r. assert (r = Inr d))"

text \<open>\<open>TransactionContext::default\<close>\<close>

definition default_context :: "(string, nat) transaction_context" where
  "default_context =
     \<lparr>transaction_digest = 0, sender_address = addr 0, transaction_budget = 0,
      move_call_package_addresses = [], ptb_command_count = None, transaction_data = JNull,
      ctx_stats_tracker = sample_tracker, ctx_reservation_id = 0, tx_bytes = [], user_sig = [],
      ctx_request_type = None, headers = []\<rparr>"

subsection \<open>How the tests run\<close>

lemma addr_less: "b < 256 \<Longrightarrow> c < 256 \<Longrightarrow> addr b = addr c \<longleftrightarrow> b = c"
proof -
  have digit: "hex_digit m = hex_digit n \<longleftrightarrow> m = n" if "m < 16" "n < 16" for m n
    using that unfolding hex_digit_def by (subst nth_eq_iff_index_eq) simp_all
  assume "b < 256" "c < 256"
  have front: "take 2 (drop 2 (addr k)) = [hex_digit (k div 16), hex_digit (k mod 16)]" for k
    using replicate_Suc [of 31 "[hex_digit (k div 16), hex_digit (k mod 16)]"] by (simp add: addr_def)
  have "b div 16 = c div 16 \<and> b mod 16 = c mod 16" if "addr b = addr c"
  proof -
    have "[hex_digit (b div 16), hex_digit (b mod 16)] = [hex_digit (c div 16), hex_digit (c mod 16)]"
      using that front by metis
    then show ?thesis using \<open>b < 256\<close> \<open>c < 256\<close> by (simp add: digit)
  qed
  then show ?thesis by (metis div_mult_mod_eq)
qed

lemma passes_in_order:
  "passes (in_order []) w"
  "m w = (Ok (), w') \<Longrightarrow> passes (in_order ms) w' \<Longrightarrow> passes (in_order (m # ms)) w"
  by (simp_all add: passes_def in_order_def)

lemma in_order_step:
  "passes (in_order (use_controller policy rs # ms)) w =
     passes (in_order ms) (w\<lparr>controller := controller_new policy rs\<rparr>)"
  "passes (in_order (then_add_rule r # ms)) w =
     passes (in_order ms) (w\<lparr>controller := add_rule r (controller w)\<rparr>)"
  "passes (in_order (assert b # ms)) w \<longleftrightarrow> b \<and> passes (in_order ms) w"
  "passes (in_order []) w"
  by (simp_all add: passes_def in_order_def use_controller_def then_add_rule_def assert_def)

lemma in_order_decision:
  assumes "list_all decides_alone (rules (controller w))"
    and "access_policy (controller w) \<noteq> Disabled"
    and "first_match test_lib ctx (access_policy (controller w)) (rules (controller w)) = Ok d"
  shows "passes (in_order (assert_decision ctx d # ms)) w = passes (in_order ms) w"
  using check_access_alone [OF assms(1), of test_lib ctx] assms(2,3)
  by (simp add: passes_def in_order_def assert_decision_def assert_def)

text \<open>The builders and the reference semantics of a rule.\<close>

lemmas builder_defs = builder_new_def build_def build_sender_address_def build_allow_def
    build_deny_def
  build_gas_budget_def build_move_call_package_address_def build_ptb_command_count_def build_gas_limit_def
  default_rule_def default_action_def

lemmas context_defs = default_context_def with_sender_address_def with_gas_budget_def
  with_move_call_package_addresses_def with_ptb_command_count_def with_stats_tracker_def with_headers_def

lemmas test_exec = Let_def in_order_step in_order_decision builder_defs context_defs
    controller_new_def add_rule_def
  rule_verdict_def static_match_def rego_verdict_def decides_alone_def decision_of_action_def addr_less

section \<open>Policies and rules\<close>

definition test_deny_policy_rules_should_allow :: access_test where
  "test_deny_policy_rules_should_allow =
     (let sender_address = addr 1;
          blocked_address = addr 2;
          allow_rule = build (build_allow (build_sender_address sender_address builder_new));
          to_allow_tx = default_context\<lparr>sender_address := sender_address\<rparr>;
          denied_tx = default_context\<lparr>sender_address := blocked_address\<rparr>
      in in_order
        [use_controller DenyAll [],
         assert_decision to_allow_tx decision.Deny,
         assert_decision denied_tx decision.Deny,
         then_add_rule allow_rule,
         assert_decision to_allow_tx decision.Allow,
         assert_decision denied_tx decision.Deny])"

definition test_allow_policy_rules_should_block :: access_test where
  "test_allow_policy_rules_should_block =
     (let blocked_address = addr 1;
          sender_address = addr 2;
          deny_rule = build (build_deny (build_sender_address blocked_address builder_new));
          to_deny_tx = default_context\<lparr>sender_address := blocked_address\<rparr>;
          allowed_tx = default_context\<lparr>sender_address := sender_address\<rparr>
      in in_order
        [use_controller AllowAll [],
         assert_decision allowed_tx decision.Allow,
         assert_decision to_deny_tx decision.Allow,
         then_add_rule deny_rule,
         assert_decision allowed_tx decision.Allow,
         assert_decision to_deny_tx decision.Deny])"

definition test_deny_policy_rules_gas_budget :: access_test where
  "test_deny_policy_rules_gas_budget =
     (let sender_address = addr 1;
          budget = 100;
          allow_rule = build (build_allow (build_gas_budget (LessThan budget)
            (build_sender_address sender_address builder_new)));
          allowed_tx = with_gas_budget (budget - 1) (with_sender_address sender_address default_context);
          denied_tx = with_gas_budget budget (with_sender_address sender_address default_context)
      in in_order
        [use_controller DenyAll [allow_rule],
         assert_decision allowed_tx decision.Allow,
         assert_decision denied_tx decision.Deny])"

definition test_allow_policy_rules_gas_budget :: access_test where
  "test_allow_policy_rules_gas_budget =
     (let sender_address = addr 1;
          budget = 100;
          deny_rule = build (build_deny (build_gas_budget (GreaterThanOrEqual budget)
            (build_sender_address sender_address builder_new)));
          allowed_tx = with_gas_budget (budget - 1) (with_sender_address sender_address default_context);
          denied_tx = with_gas_budget budget (with_sender_address sender_address default_context)
      in in_order
        [use_controller AllowAll [deny_rule],
         assert_decision allowed_tx decision.Allow,
         assert_decision denied_tx decision.Deny])"

definition test_allow_policy_rules_move_call_package_address :: access_test where
  "test_allow_policy_rules_move_call_package_address =
     (let sender_address = addr 1;
          package_address = addr 2;
          deny_rule = build (build_deny (build_move_call_package_address package_address
            (build_sender_address sender_address builder_new)));
          denied_tx = with_move_call_package_addresses [package_address]
            (with_sender_address sender_address default_context);
          allowed_tx = with_move_call_package_addresses [addr 3]
            (with_sender_address sender_address default_context)
      in in_order
        [use_controller AllowAll [deny_rule],
         assert_decision allowed_tx decision.Allow,
         assert_decision denied_tx decision.Deny])"

definition test_deny_policy_rules_move_call_package_address :: access_test where
  "test_deny_policy_rules_move_call_package_address =
     (let sender_address = addr 1;
          package_address = addr 2;
          allow_rule = build (build_allow (build_move_call_package_address package_address
            (build_sender_address sender_address builder_new)));
          allowed_tx = with_move_call_package_addresses [package_address]
            (with_sender_address sender_address default_context);
          denied_tx = with_move_call_package_addresses [addr 3]
            (with_sender_address sender_address default_context)
      in in_order
        [use_controller DenyAll [allow_rule],
         assert_decision allowed_tx decision.Allow,
         assert_decision denied_tx decision.Deny])"

definition test_allow_policy_rules_ptb_command_count :: access_test where
  "test_allow_policy_rules_ptb_command_count =
     (let sender_address = addr 1;
          deny_rule = build (build_deny (build_ptb_command_count (GreaterThan 1)
            (build_sender_address sender_address builder_new)));
          denied_tx = with_ptb_command_count 5 (with_sender_address sender_address default_context);
          allowed_tx = with_ptb_command_count 1 (with_sender_address sender_address default_context)
      in in_order
        [use_controller AllowAll [deny_rule],
         assert_decision allowed_tx decision.Allow,
         assert_decision denied_tx decision.Deny])"

definition test_deny_policy_rules_ptb_command_count :: access_test where
  "test_deny_policy_rules_ptb_command_count =
     (let sender_address = addr 1;
          allow_rule = build (build_allow (build_ptb_command_count (LessThanOrEqual 1)
            (build_sender_address sender_address builder_new)));
          allowed_tx = with_ptb_command_count 1 (with_sender_address sender_address default_context);
          blocked_tx = with_ptb_command_count 5 (with_sender_address sender_address default_context)
      in in_order
        [use_controller DenyAll [allow_rule],
         assert_decision allowed_tx decision.Allow,
         assert_decision blocked_tx decision.Deny])"

subsection \<open>The order of the rules\<close>

definition test_evaluation_order_multiple_rules_policy_deny :: access_test where
  "test_evaluation_order_multiple_rules_policy_deny =
     (let sender_address = addr 1;
          deny_rule = build (build_deny (build_sender_address sender_address builder_new));
          allow_rule = build (build_allow (build_sender_address sender_address builder_new));
          tx = with_sender_address sender_address default_context
      in in_order
        [use_controller DenyAll [deny_rule, allow_rule],
         assert_decision tx decision.Deny])"

definition test_evaluation_order_multiple_rules_policy_allow :: access_test where
  "test_evaluation_order_multiple_rules_policy_allow =
     (let sender_address = addr 1;
          deny_rule = build (build_deny (build_sender_address sender_address builder_new));
          allow_rule = build (build_allow (build_sender_address sender_address builder_new));
          tx = with_sender_address sender_address default_context
      in in_order
        [use_controller AllowAll [allow_rule, deny_rule],
         assert_decision tx decision.Allow])"

definition test_evaluation_logic_matching :: access_test where
  "test_evaluation_logic_matching =
     (let sender_1 = addr 1;
          sender_2 = addr 2;
          package_id = addr 10;
          allow_sender_1_and_package = build (build_allow (build_move_call_package_address package_id
            (build_sender_address sender_1 builder_new)));
          deny_sender_1 = build (build_deny (build_sender_address sender_1 builder_new));
          tx_sender_1_accepted = with_move_call_package_addresses [package_id]
            (with_sender_address sender_1 default_context);
          tx_sender_1_rejected = with_sender_address sender_1 default_context;
          tx_sender_2_accepted = with_sender_address sender_2 default_context
      in in_order
        [use_controller AllowAll [allow_sender_1_and_package, deny_sender_1],
         assert_decision tx_sender_1_accepted decision.Allow,
         assert_decision tx_sender_1_rejected decision.Deny,
         assert_decision tx_sender_2_accepted decision.Allow])"

definition rule_tests :: "access_test list" where
  "rule_tests = [test_deny_policy_rules_should_allow,
     test_allow_policy_rules_should_block,
     test_deny_policy_rules_gas_budget,
     test_allow_policy_rules_gas_budget,
     test_allow_policy_rules_move_call_package_address,
     test_deny_policy_rules_move_call_package_address,
     test_allow_policy_rules_ptb_command_count,
     test_deny_policy_rules_ptb_command_count,
     test_evaluation_order_multiple_rules_policy_deny,
     test_evaluation_order_multiple_rules_policy_allow,
     test_evaluation_logic_matching]"

lemma rule_tests_pass: "list_all (\<lambda>t. passes t w) rule_tests"
  unfolding rule_tests_def list.pred_inject by (intro conjI TrueI)
    (simp_all add: test_exec word_le_def test_deny_policy_rules_should_allow_def
        test_allow_policy_rules_should_block_def test_deny_policy_rules_gas_budget_def
        test_allow_policy_rules_gas_budget_def
        test_allow_policy_rules_move_call_package_address_def
        test_deny_policy_rules_move_call_package_address_def
        test_allow_policy_rules_ptb_command_count_def
        test_deny_policy_rules_ptb_command_count_def
        test_evaluation_order_multiple_rules_policy_deny_def
        test_evaluation_order_multiple_rules_policy_allow_def test_evaluation_logic_matching_def)

section \<open>Single predicates\<close>

text \<open>\<open>assert!(rule.matches(&data).await.unwrap().is_matched)\<close>, or its negation.\<close>

definition assert_matches ::
  "(string, unit) access_rule \<Rightarrow> (string, nat) transaction_context \<Rightarrow> bool \<Rightarrow> access_test"
where
  "assert_matches r ctx b = pbind (punwrap (plift (rule_matches test_lib r ctx))) (\<lambda>rep.
     assert (rr_is_matched rep = b))"

lemma in_order_matches:
  assumes "rule_verdict test_lib r ctx = Ok b"
  shows "passes (in_order (assert_matches r ctx b # ms)) w = passes (in_order ms) w"
proof -
  have "rbind (rule_matches test_lib r ctx) (\<lambda>rep. Ok (rr_is_matched rep)) = Ok b"
    using assms by (simp add: verdict_of_report)
  then show ?thesis
    by (auto simp: passes_def in_order_def assert_matches_def assert_def)
qed

definition test_constraint_sender_address :: access_test where
  "test_constraint_sender_address =
     (let matched_sender = addr 0;
          unmatched_sender = addr 1;
          matched_data = with_sender_address matched_sender default_context;
          unmatched_data = with_sender_address unmatched_sender default_context;
          r = default_rule\<lparr>rule_sender_address := value_iota_address_from [matched_sender]\<rparr>
      in in_order
        [assert_matches r matched_data True,
         assert_matches r unmatched_data False])"

definition test_constraint_gas_budget :: access_test where
  "test_constraint_gas_budget =
     (let gas_limit = 100;
          r = build (build_gas_budget (LessThanOrEqual gas_limit) builder_new);
          matched_data = with_gas_budget 50 default_context;
          unmatched_data = with_gas_budget 200 default_context
      in in_order
        [assert_matches r matched_data True,
         assert_matches r unmatched_data False])"

definition test_constraint_move_call_package_addr :: access_test where
  "test_constraint_move_call_package_addr =
     (let matched_package_id = addr 1;
          unmatch_package_id = addr 2;
          r = build (build_move_call_package_address matched_package_id builder_new);
          matched_data = with_move_call_package_addresses [matched_package_id] default_context;
          unmatched_data = with_move_call_package_addresses [unmatch_package_id] default_context
      in in_order
        [assert_matches r matched_data True,
         assert_matches r unmatched_data False])"

definition test_constraint_mix_ups_sender_budget_package_address :: access_test where
  "test_constraint_mix_ups_sender_budget_package_address =
     (let sender_address = addr 1;
          move_call_package_address = addr 2;
          gas_limit = 100;
          r = build (build_allow (build_gas_budget (LessThanOrEqual gas_limit)
            (build_move_call_package_address move_call_package_address (build_sender_address sender_address builder_new))));
          data = with_move_call_package_addresses [move_call_package_address]
            (with_gas_budget gas_limit (with_sender_address sender_address default_context));
          unmatched_data_package_address = with_move_call_package_addresses [addr 3]
            (with_gas_budget gas_limit (with_sender_address sender_address default_context));
          unmatched_data_gas_limit = with_move_call_package_addresses [move_call_package_address]
            (with_gas_budget (gas_limit + 1) (with_sender_address sender_address default_context))
      in in_order
        [assert_matches r data True,
         assert_matches r unmatched_data_package_address False,
         assert_matches r unmatched_data_gas_limit False])"

definition test_constraint_ptb_count_matches :: access_test where
  "test_constraint_ptb_count_matches =
     (let r = default_rule\<lparr>rule_sender_address := All, rule_action := action.Allow,
            rule_ptb_command_count := Some (LessThanOrEqual 1)\<rparr>;
          data_with_matching_ptb_count = with_ptb_command_count 1 default_context;
          data_with_not_matching_ptb_count = with_ptb_command_count 5 default_context
      in in_order
        [assert_matches r data_with_matching_ptb_count True,
         assert_matches r data_with_not_matching_ptb_count False])"

definition test_constraint_mix_ups_sender_package_address :: access_test where
  "test_constraint_mix_ups_sender_package_address =
     (let sender_address = addr 1;
          move_call_package_address = addr 2;
          r = build (build_allow (build_move_call_package_address move_call_package_address
            (build_sender_address sender_address builder_new)));
          matched_data = with_move_call_package_addresses [move_call_package_address]
            (with_sender_address sender_address default_context);
          unmatched_data = with_move_call_package_addresses [addr 3]
            (with_sender_address sender_address default_context)
      in in_order
        [assert_matches r matched_data True,
         assert_matches r unmatched_data False])"

definition matching_tests :: "access_test list" where
  "matching_tests = [test_constraint_sender_address,
     test_constraint_gas_budget,
     test_constraint_move_call_package_addr,
     test_constraint_mix_ups_sender_budget_package_address,
     test_constraint_ptb_count_matches,
     test_constraint_mix_ups_sender_package_address]"

lemma matching_tests_pass: "list_all (\<lambda>t. passes t w) matching_tests"
  unfolding matching_tests_def list.pred_inject by (intro conjI TrueI)
    (simp_all add: test_exec in_order_matches word_le_def value_iota_address_from_def
        test_constraint_sender_address_def test_constraint_gas_budget_def
        test_constraint_move_call_package_addr_def
        test_constraint_mix_ups_sender_budget_package_address_def
        test_constraint_ptb_count_matches_def test_constraint_mix_ups_sender_package_address_def)

section \<open>Gas limits\<close>

text \<open>
  \<open>new_stats_tracker_for_testing\<close> connects to Redis for a random sponsor, so that there are no counters; the
  clock of Redis stands for the short time a test takes.
\<close>

definition new_stats_tracker_for_testing :: access_test where
  "new_stats_tracker_for_testing = pmodify (\<lambda>w. w\<lparr>tracker_keys := Map.empty, clock := [5000], faults := []\<rparr>)"

definition assert_limits ::
  "(string, unit) access_rule \<Rightarrow> (string, nat) transaction_context \<Rightarrow> bool \<Rightarrow> access_test"
where
  "assert_limits r ctx b = pbind (match_global_limits test_lib r ctx) (\<lambda>(rep, requests).
     assert (rr_is_matched rep = b))"

text \<open>What a test needs of the world between two assertions: the values of the counters, and a quiet network.\<close>

definition counts :: "(string \<Rightarrow> int) \<Rightarrow> test_world \<Rightarrow> bool" where
  "counts f w \<longleftrightarrow> quiet_at 5000 w \<and> (\<forall>k. counter 5000 (tracker_keys w) k = Some (f k))"

lemma in_order_tracker:
  "(\<And>w'. counts (\<lambda>k. 0) w' \<Longrightarrow> passes (in_order ms) w') \<Longrightarrow>
     passes (in_order (new_stats_tracker_for_testing # ms)) w"
  by (simp add: passes_def in_order_def new_stats_tracker_for_testing_def counts_def quiet_at_def
      counter_def live_def)

lemma in_order_limits:
  assumes "counts f w" "rule_gas_usage r = Some g" "ctx_stats_tracker ctx = sample_tracker"
    and "window_ok 5000 (req_ttl (claim_of test_lib r g ctx))"
    and k: "claim_key test_lib sample_tracker (claim_of test_lib r g ctx) = k"
    and "0 \<le> f k" "f k + uint (transaction_budget ctx) \<le> 2 ^ 53"
    and b: "b = number_matches (aggr_value g) (word_of_int (f k + uint (transaction_budget ctx)))"
    and rest: "\<And>w'. counts (f(k := f k + uint (transaction_budget ctx))) w' \<Longrightarrow> passes (in_order ms) w'"
  shows "passes (in_order (assert_limits r ctx b # ms)) w"
proof -
  let ?req = "claim_of test_lib r g ctx" and ?d = "uint (transaction_budget ctx)"
  let ?w = "book test_lib sample_tracker 5000 ?req (f k + ?d) w"
  have d: "0 \<le> ?d" by simp
  with assms(6,7) have "f k \<le> 2 ^ 53" "?d \<le> 2 ^ 53" by linarith+
  with d assms(1,4,6,7) k sample_ok(3) have "can_book test_lib sample_tracker 5000 ?req (f k) ?d w"
    by (simp add: can_book_def counts_def sample_tracker_def tracker_new_def)
  then obtain p where limits: "match_global_limits test_lib r ctx w =
      (Ok (add_predicate_report p rule_report_new, [?req]), ?w)"
    "pr_is_matched p = number_matches (aggr_value g) (word_of_int (f k + ?d))"
    using match_limit_books [OF assms(2), of test_lib ctx 5000 "f k" w] assms(3) by auto
  have "counts (f(k := f k + ?d)) ?w"
    using assms(1,4) k by (auto simp: counts_def window_ok_def book_counter book_counter_other)
  from rest [OF this] limits b show ?thesis
    by (simp add: passes_def in_order_def assert_limits_def assert_def)
qed

definition test_constraint_gas_usage_matches :: access_test where
  "test_constraint_gas_usage_matches =
     (let sender_address_limited = addr 1;
          sender_address_unlimited = addr 2;
          r = build (build_deny (build_gas_limit (with_count_by
            (value_aggregate_new 10000000000 (GreaterThanOrEqual 300)) [SenderAddress])
            (build_sender_address sender_address_limited builder_new)));
          matched_data = with_stats_tracker sample_tracker (with_gas_budget 200
            (with_sender_address sender_address_limited default_context));
          unmatched_data = with_stats_tracker sample_tracker (with_gas_budget 200
            (with_sender_address sender_address_unlimited default_context))
      in in_order
        [new_stats_tracker_for_testing,
         assert_limits r matched_data False,
         assert_limits r matched_data True,
         assert_limits r unmatched_data False])"

definition test_constraint_gas_usage_with_http_header :: access_test where
  "test_constraint_gas_usage_with_http_header =
     (let sender_address = addr 1;
          r = build (build_allow (build_gas_limit (with_count_by
            (value_aggregate_new 10000000000 (LessThanOrEqual 300)) [new_http_header ''X-Account-Id'']) builder_new));
          account_1_ctx = with_sender_address sender_address (with_stats_tracker sample_tracker
            (with_gas_budget 300 (with_headers [(''x-account-id'', ''123'')] default_context)));
          account_2_ctx = with_sender_address sender_address (with_stats_tracker sample_tracker
            (with_gas_budget 300 (with_headers [(''x-account-id'', ''456'')] default_context)))
      in in_order
        [new_stats_tracker_for_testing,
         assert_limits r account_1_ctx True,
         assert_limits r account_1_ctx False,
         assert_limits r account_2_ctx True,
         assert_limits r account_2_ctx False])"


lemma lower_name: "map lower_char ''X-Account-Id'' = ''x-account-id''"
  by code_simp

lemmas key_exec = claim_key_def claim_of_def aggr_key_def nkey_def get_redis_aggr_key_def
  generate_hash_from_key_def rule_meta_with_counts_def count_by_value_def get_all_def lower_name

lemmas key_exec_all = key_exec sorted_meta_def sorted_strs_def test_lib_def rule_fields_def
    ser_optional_def builder_defs
  context_defs test_addr_codec_def op_defs gas_usage_aggregate_def with_window_def
      with_aggr_type_def with_name_def
  value_aggregate_new_def with_count_by_def new_http_header_def http_header_to_string_def
  http_header_prefix_def sample_tracker_def tracker_new_def get_tracker_namespace_def exec_simps

lemmas claim_exec = window_ok_def claim_ttl_def claim_of_def gas_usage_aggregate_def with_window_def
  with_aggr_type_def with_name_def as_secs_def

lemma gas_usage_test_passes: "passes test_constraint_gas_usage_matches w"
proof -
  define g where "g = with_count_by (value_aggregate_new 10000000000 (GreaterThanOrEqual 300))
      [SenderAddress]"
  define r :: "(string, unit) access_rule" where
    "r = build (build_deny (build_gas_limit g (build_sender_address (addr 1) builder_new)))"
  define ctx :: "string \<Rightarrow> (string, nat) transaction_context" where
    "ctx a = with_stats_tracker sample_tracker (with_gas_budget 200 (with_sender_address a default_context))" for a
  let ?k = "\<lambda>a. claim_key test_lib sample_tracker (claim_of test_lib r g (ctx a))"
  have g: "rule_gas_usage r = Some g" "aggr_value g = GreaterThanOrEqual 300"
    by (simp_all add: r_def g_def builder_defs with_count_by_def value_aggregate_new_def)
  have c: "ctx_stats_tracker (ctx a) = sample_tracker" "transaction_budget (ctx a) = 200" for a
    by (simp_all add: ctx_def context_defs)
  have win: "window_ok 5000 (req_ttl (claim_of test_lib r g (ctx a)))" for a
    by (simp add: claim_exec g_def with_count_by_def value_aggregate_new_def)
  have k: "?k (addr 2) \<noteq> ?k (addr 1)"
    by (simp add: r_def g_def ctx_def key_exec_all addr_less del: list.map(2))
      (simp add: addr_less sorted_strs_def)
  have "passes (in_order [new_stats_tracker_for_testing, assert_limits r (ctx (addr 1)) False,
      assert_limits r (ctx (addr 1)) True, assert_limits r (ctx (addr 2)) False]) w"
    by (rule in_order_tracker)
      ((rule in_order_limits [OF _ g(1) c(1) win refl], assumption,
        (simp add: c k del: One_nat_def; fail), (simp add: c k del: One_nat_def; fail),
        (simp add: c k g(2) word_le_def del: One_nat_def))+, rule passes_in_order(1))
  then show ?thesis
    by (simp add: test_constraint_gas_usage_matches_def Let_def r_def ctx_def g_def)
qed

lemma header_test_passes: "passes test_constraint_gas_usage_with_http_header w"
proof -
  define g where "g = with_count_by (value_aggregate_new 10000000000 (LessThanOrEqual 300))
      [new_http_header ''X-Account-Id'']"
  define r :: "(string, unit) access_rule" where
    "r = build (build_allow (build_gas_limit g builder_new))"
  define ctx :: "string \<Rightarrow> (string, nat) transaction_context" where
    "ctx a = with_sender_address (addr 1) (with_stats_tracker sample_tracker
      (with_gas_budget 300 (with_headers [(''x-account-id'', a)] default_context)))" for a
  let ?k = "\<lambda>a. claim_key test_lib sample_tracker (claim_of test_lib r g (ctx a))"
  have g: "rule_gas_usage r = Some g" "aggr_value g = LessThanOrEqual 300"
    by (simp_all add: r_def g_def builder_defs with_count_by_def value_aggregate_new_def)
  have c: "ctx_stats_tracker (ctx a) = sample_tracker" "transaction_budget (ctx a) = 300" for a
    by (simp_all add: ctx_def context_defs)
  have win: "window_ok 5000 (req_ttl (claim_of test_lib r g (ctx a)))" for a
    by (simp add: claim_exec g_def with_count_by_def value_aggregate_new_def)
  have k: "?k ''456'' \<noteq> ?k ''123''"
    by (simp add: r_def g_def ctx_def key_exec_all addr_less del: list.map(2))
      (simp add: addr_less sorted_strs_def)
  have "passes (in_order [new_stats_tracker_for_testing, assert_limits r (ctx ''123'') True,
      assert_limits r (ctx ''123'') False, assert_limits r (ctx ''456'') True, assert_limits r
      (ctx ''456'') False]) w"
    by (rule in_order_tracker)
      ((rule in_order_limits [OF _ g(1) c(1) win refl], assumption,
        (simp add: c k del: One_nat_def; fail), (simp add: c k del: One_nat_def; fail),
        (simp add: c k g(2) word_le_def del: One_nat_def))+, rule passes_in_order(1))
  then show ?thesis
    by (simp add: test_constraint_gas_usage_with_http_header_def Let_def r_def ctx_def g_def)
qed

definition limit_tests :: "access_test list" where
  "limit_tests = [test_constraint_gas_usage_matches, test_constraint_gas_usage_with_http_header]"

lemma limit_tests_pass: "list_all (\<lambda>t. passes t w) limit_tests"
  by (simp add: limit_tests_def gas_usage_test_passes header_test_passes)

end
