(* ===== verification/Hook_Tests.thy ===== *)
theory Hook_Tests
  imports Access_Tests
begin

text \<open>
  The tests of the access controller with a hook, module \<open>hook\<close> of the tests in
  \<open>src/src/access_controller/mod.rs\<close>. The mock server answers every request the same; the requests it
  received are the calls of the world.
\<close>

section \<open>The mock server\<close>

definition hook_endpoint :: string where
  "hook_endpoint = ''http://127.0.0.1:8080/hello''"

text \<open>The answers of the server: three, more than any test asks for.\<close>

definition mount :: "http_response \<Rightarrow> access_test" where
  "mount response = pmodify (\<lambda>w. w\<lparr>hook_calls := [],
     hook_answers := [Inr response, Inr response, Inr response]\<rparr>)"

fun decision_text :: "skippable_decision \<Rightarrow> string" where
  "decision_text skippable_decision.Allow = ''allow''"
| "decision_text skippable_decision.Deny = ''deny''"
| "decision_text NoDecision = ''noDecision''"

definition get_mock_server_ok :: "skippable_decision \<Rightarrow> access_test" where
  "get_mock_server_ok d = mount
     \<lparr>is_success = True, status_text = ''200 OK'',
      body_json = Inr (JObject [(''decision'', JString (decision_text d))]), body_text = None\<rparr>"

definition hook_error :: string where
  "hook_error = ''error sent back from hook server''"

definition get_mock_server_bad_request :: access_test where
  "get_mock_server_bad_request = mount
     \<lparr>is_success = False, status_text = ''400 Bad Request'',
      body_json = Inl (Foreign ''expected value at line 1 column 1''), body_text = Some hook_error\<rparr>"

definition assert_received :: "nat \<Rightarrow> access_test" where
  "assert_received n = pbind (pget (\<lambda>w. length (hook_calls w))) (\<lambda>k. assert (k = n))"

text \<open>The error of a check, and its text.\<close>

definition assert_hook_error :: "(string, nat) transaction_context \<Rightarrow> access_test" where
  "assert_hook_error ctx = pbind (ptry (check_access test_lib ctx)) (\<lambda>r.
     assert (case r of Inl e \<Rightarrow> error_to_string e = ''hook call failed with status 400 Bad Request; '' @ hook_error
             | Inr d \<Rightarrow> False))"

text \<open>\<open>AccessRuleBuilder::new().hook(url, None).unwrap()\<close>, after the given steps of the builder.\<close>

definition hook_rule ::
  "(string, unit) access_rule \<Rightarrow> ((string, unit) access_rule \<Rightarrow> access_test) \<Rightarrow> access_test"
where
  "hook_rule builder test =
     pbind (punwrap (plift (build_hook (Ok ()) hook_endpoint None builder))) (\<lambda>b. test (build b))"

section \<open>The tests\<close>

definition test_hook_can_allow_tx :: access_test where
  "test_hook_can_allow_tx =
     in_order [get_mock_server_ok skippable_decision.Allow, hook_rule builder_new (\<lambda>r. in_order
       [use_controller AllowAll [r],
        assert_decision default_context decision.Allow, assert_received 1,
        use_controller DenyAll [r],
        assert_decision default_context decision.Allow, assert_received 2])]"

definition test_hook_can_deny_tx :: access_test where
  "test_hook_can_deny_tx =
     in_order [get_mock_server_ok skippable_decision.Deny, hook_rule builder_new (\<lambda>r. in_order
       [use_controller AllowAll [r],
        assert_decision default_context decision.Deny, assert_received 1,
        use_controller DenyAll [r],
        assert_decision default_context decision.Deny])]"

definition test_hook_can_forward_decision_to_next_rule :: access_test where
  "test_hook_can_forward_decision_to_next_rule =
     (let allow_rule = build (build_allow builder_new);
          deny_rule = build (build_deny builder_new)
      in in_order [get_mock_server_ok NoDecision, hook_rule builder_new (\<lambda>r. in_order
         [use_controller DenyAll [r, allow_rule],
          assert_decision default_context decision.Allow, assert_received 1,
          use_controller AllowAll [r, deny_rule],
          assert_decision default_context decision.Deny, assert_received 2])])"

definition test_hook_can_forward_own_error_messages :: access_test where
  "test_hook_can_forward_own_error_messages =
     in_order [get_mock_server_bad_request, hook_rule builder_new (\<lambda>r. in_order
       [use_controller DenyAll [r], assert_hook_error default_context, assert_received 1])]"

definition test_hook_is_not_called_if_a_previous_rule_applies :: access_test where
  "test_hook_is_not_called_if_a_previous_rule_applies =
     (let allow_rule = build (build_allow builder_new);
          deny_rule = build (build_deny builder_new)
      in in_order [get_mock_server_bad_request, hook_rule builder_new (\<lambda>r. in_order
         [use_controller DenyAll [allow_rule, r],
          assert_decision default_context decision.Allow, assert_received 0,
          use_controller AllowAll [deny_rule, r],
          assert_decision default_context decision.Deny, assert_received 0])])"

definition test_hook_is_called_if_another_rule_term_applies :: access_test where
  "test_hook_is_called_if_another_rule_term_applies =
     (let sender_address = addr 1;
          ctx = with_sender_address sender_address default_context
      in in_order [get_mock_server_bad_request,
         hook_rule (build_sender_address sender_address builder_new) (\<lambda>r. in_order
           [use_controller DenyAll [r], assert_hook_error ctx, assert_received 1])])"

definition test_hook_is_not_called_if_another_rule_term_does_not_apply :: access_test where
  "test_hook_is_not_called_if_another_rule_term_does_not_apply =
     (let sender_address = addr 1;
          blocked_address = addr 2;
          ctx = with_sender_address blocked_address default_context
      in in_order [get_mock_server_bad_request,
         hook_rule (build_sender_address sender_address builder_new) (\<lambda>r. in_order
           [use_controller DenyAll [r], assert_decision ctx decision.Deny, assert_received 0])])"

lemmas hook_exec = passes_def rule_report_new_def in_order_def assert_decision_def assert_def
    assert_received_def
  assert_hook_error_def use_controller_def hook_rule_def mount_def get_mock_server_ok_def
  get_mock_server_bad_request_def build_hook_def new_url_def builder_defs context_defs controller_new_def
  check_access_def is_disabled_def check_rule_def rule_matches_def add_matched add_reports
  predicates_matched match_rego_expression_def predicate_report_new_def match_global_limits_def
  match_gas_limit_def apply_action_def call_hook_def hook_header_map_def hook_send_def Let_def addr_less
  add_predicate_report_def add_predicate_reports_def set_applied_action_def hook_url_def
  de_field_def de_skippable_decision_def de_optional_def

definition hook_tests :: "access_test list" where
  "hook_tests = [test_hook_can_allow_tx,
     test_hook_can_deny_tx,
     test_hook_can_forward_decision_to_next_rule,
     test_hook_can_forward_own_error_messages,
     test_hook_is_not_called_if_a_previous_rule_applies,
     test_hook_is_called_if_another_rule_term_applies,
     test_hook_is_not_called_if_another_rule_term_does_not_apply]"

lemma hook_tests_pass: "list_all (\<lambda>t. passes t w) hook_tests"
  unfolding hook_tests_def list.pred_inject by (intro conjI TrueI)
    (simp_all add: hook_exec test_hook_can_allow_tx_def test_hook_can_deny_tx_def
        test_hook_can_forward_decision_to_next_rule_def
        test_hook_can_forward_own_error_messages_def
        test_hook_is_not_called_if_a_previous_rule_applies_def
        test_hook_is_called_if_another_rule_term_applies_def
        test_hook_is_not_called_if_another_rule_term_does_not_apply_def)

end
