(* ===== verification/Access_Wellformed.thy ===== *)
theory Access_Wellformed
  imports Access_Props
begin

text \<open>
  What the readers of the configuration produce: every part of a rule that was read satisfies the
  condition under which it can be written and read again, so that a controller that came from a file
  is in the domain of the round trip. Each reader has one lemma, in the order of the readers.
\<close>

section \<open>What is relied on\<close>

text \<open>
  Printed addresses and durations read back. A parsed URL is its normal form, which parses to itself,
  and the words of the two plain actions are relative, hence no URLs.
\<close>

definition config_lib_ok :: "('addr, 'eng) access_lib \<Rightarrow> bool" where
  "config_lib_ok L \<longleftrightarrow> addr_codec_ok (addr_lib L) \<and> duration_codec_ok (duration_lib L) \<and>
     (\<forall>s u. parse_url L s = Some u \<longrightarrow> parse_url L u = Some u) \<and>
     parse_url L ''allow'' = None \<and> parse_url L ''deny'' = None"

section \<open>Texts and maps\<close>

lemma split_str_not_Nil [simp]: "split_str p s \<noteq> []"
  by (subst split_str.simps) (auto split: option.splits)

lemma split_str_single: "split_str p s = [b] \<Longrightarrow> p \<noteq> [] \<Longrightarrow> b = s \<and> find_sub p s = None"
  by (subst (asm) split_str.simps) (auto split: if_splits option.splits)

lemma split_str_last: "split_str p s = [a, b] \<Longrightarrow> p \<noteq> [] \<Longrightarrow> find_sub p b = None"
  by (subst (asm) split_str.simps) (auto split: if_splits option.splits dest: split_str_single)

lemma header_name_no_prefix:
  assumes "http_header_from_str s = Ok h"
  shows "find_sub http_header_prefix (header_name h) = None"
proof -
  obtain a b where "split_str http_header_prefix s = [a, b]" "header_name h = b"
    using assms
    by (auto simp: http_header_from_str_def Let_def numeral_2_eq_2 length_Suc_conv split: if_splits)
  then show ?thesis using split_str_last http_header_prefix_not_Nil by simp
qed

lemma set_bt_insert: "fst ` set (bt_insert k v m) = insert k (fst ` set m)"
  by (simp add: dom_map_of_conv_image_fst [symmetric] map_of_bt_insert)

lemma bt_insert_sorted:
  assumes "bt_sorted m" shows "bt_sorted (bt_insert k v m)"
  using assms
proof (induction m)
  case Nil
  then show ?case by (simp add: bt_sorted_def)
next
  case (Cons kv m)
  obtain k' v' where kv: "kv = (k', v')" by (cases kv)
  have tail: "bt_sorted m" and head: "\<forall>x \<in> fst ` set m. k' \<noteq> x \<and> str_less_eq k' x"
    using Cons.prems by (auto simp: bt_sorted_def kv)
  consider "k = k'" | "k \<noteq> k'" "str_less_eq k k'" | "k \<noteq> k'" "\<not> str_less_eq k k'" by blast
  then show ?case
  proof cases
    case 1
    with Cons.prems show ?thesis by (simp add: kv bt_sorted_def)
  next
    case 2
    then have "\<forall>x \<in> fst ` set m. k \<noteq> x \<and> str_less_eq k x"
      using head by (metis str_less_eq_antisym str_less_eq_trans)
    with 2 Cons.prems show ?thesis by (simp add: kv bt_sorted_def)
  next
    case 3
    then have "str_less_eq k' k" using str_less_eq_total by blast
    with 3 head have "\<forall>x \<in> fst ` set (bt_insert k v m). k' \<noteq> x \<and> str_less_eq k' x"
      by (simp add: set_bt_insert)
    with 3 Cons.IH [OF tail] show ?thesis
      by (simp add: kv bt_sorted_def)
  qed
qed

lemma bt_from_list_is_sorted: "bt_sorted (bt_from_list kvs)"
proof -
  have "bt_sorted (fold (\<lambda>(k, v). bt_insert k v) kvs m)" if "bt_sorted m" for m
    using that by (induction kvs arbitrary: m) (auto simp: bt_insert_sorted)
  then show ?thesis by (simp add: bt_from_list_def bt_sorted_def)
qed

lemma map_result_all: "map_result f xs = Ok ys \<Longrightarrow> (\<And>x y. f x = Ok y \<Longrightarrow> P y) \<Longrightarrow> list_all P ys"
  by (induction xs arbitrary: ys) auto

lemma de_list_all: "de_list de j = Ok ys \<Longrightarrow> (\<And>x y. de x = Ok y \<Longrightarrow> P y) \<Longrightarrow> list_all P ys"
  by (cases j) (auto intro: map_result_all)

lemma de_optional_all: "de_optional de k fs = Ok (Some v) \<Longrightarrow> \<exists>j. de j = Ok v"
  by (auto simp: de_optional_def split: option.splits json.splits)

section \<open>The parts of a rule\<close>

named_theorems read_ok

lemma count_by_read [read_ok]: "de_count_by j = Ok c \<Longrightarrow> count_by_ok c"
  by (auto simp: de_count_by_def count_by_ok_def split: if_splits result.splits
      dest: header_name_no_prefix)

lemma aggregate_read [read_ok]:
  "config_lib_ok L \<Longrightarrow> de_value_aggregate (duration_lib L) j = Ok v \<Longrightarrow> value_aggregate_ok (duration_lib L) v"
  by (cases j) (auto simp: value_aggregate_ok_def config_lib_ok_def de_default_def
      split: option.splits intro: de_list_all [OF _ count_by_read])

lemma rego_read [read_ok]: "de_rego_expression L j = Ok r \<Longrightarrow> rego_fresh r"
  by (auto simp: de_rego_expression_def from_source_def source_new_def get_data_string_def rego_fresh_def)

lemma url_read: "config_lib_ok L \<Longrightarrow> de_url L j = Ok u \<Longrightarrow> parse_url L u = Some u"
  by (auto simp: de_url_def config_lib_ok_def split: option.splits)

lemma headers_read: "de_headers j = Ok m \<Longrightarrow> bt_sorted m"
  by (cases j) (auto simp: bt_from_list_is_sorted)

lemma hook_detailed_read:
  "config_lib_ok L \<Longrightarrow> de_hook_detailed L j = Ok d \<Longrightarrow> hook_config_ok L (HookActionDetailed d)"
  by (cases j) (auto simp: de_field_def dest!: de_optional_all
      split: option.splits intro: url_read headers_read)

lemma hook_config_read:
  assumes "config_lib_ok L" "de_hook_config L j = Ok c"
  shows "hook_config_ok L c"
  using assms(2) unfolding de_hook_config_def
  by (auto split: result.splits simp del: hook_config_ok.simps(2)
      intro: hook_detailed_read [OF assms(1)] url_read [OF assms(1)])

lemma hook_read: "config_lib_ok L \<Longrightarrow> de_hook_action L j = Ok h \<Longrightarrow> hook_ok L h"
  by (auto simp: de_hook_action_def hook_ok_def intro: hook_config_read)

lemma hook_text: "config_lib_ok L \<Longrightarrow> hook_ok L h \<Longrightarrow> ser_hook_action h \<notin> {JString ''allow'', JString ''deny''}"
  by (cases "hook_config h")
    (auto simp: ser_hook_action_def hook_ok_def config_lib_ok_def ser_hook_detailed_def)

lemma action_read [read_ok]:
  assumes "config_lib_ok L" "de_action L j = Ok a"
  shows "action_ok L a"
proof (cases a)
  case (HookAction h)
  with assms(2) have "de_hook_action L j = Ok h"
    by (auto simp: de_action_def split: if_splits result.splits)
  from hook_read [OF assms(1) this] hook_text [OF assms(1)] HookAction
  show ?thesis by (simp add: action_ok_def)
qed (simp_all add: action_ok_def)

lemma rule_read:
  assumes "config_lib_ok L" "de_access_rule L j = Ok r"
  shows "rule_ok L r"
proof -
  obtain fs where fs: "j = JObject fs" using assms(2) by (cases j) simp_all
  have "addr_codec_ok (addr_lib L)" using assms(1) by (simp add: config_lib_ok_def)
  moreover have "action_ok L (rule_action r)"
    using assms by (auto simp: fs de_field_def split: option.splits intro: read_ok)
  moreover have "value_aggregate_ok (duration_lib L) v" if "rule_gas_usage r = Some v" for v
    using assms that by (auto simp: fs dest!: de_optional_all intro: read_ok)
  moreover have "rego_fresh e" if "rule_rego_expression r = Some e" for e
    using assms that by (auto simp: fs dest!: de_optional_all intro: read_ok)
  ultimately show ?thesis by (simp add: rule_ok_def)
qed

lemma controller_read:
  assumes "config_lib_ok L" "de_controller L j = Ok c"
  shows "list_all (rule_ok L) (rules c)" "confirmation_requests c = Map.empty"
  using assms(2)
  by (cases j; auto simp: de_default_def controller_new_def split: option.splits
      intro: de_list_all [OF _ rule_read [OF assms(1)]])+

text \<open>C28: every controller that is read from a configuration is well formed: its rules satisfy the
  conditions on headers, windows, URLs and policies, no request is pending, and writing it and reading
  it again gives the same controller.\<close>

theorem configured_controller_well_formed:
  assumes "config_lib_ok L" "de_controller L j = Ok c"
  shows "list_all (rule_ok L) (rules c) \<and> confirmation_requests c = Map.empty \<and>
    de_controller L (ser_controller L c) = Ok c"
  using controller_read [OF assms] by (simp add: controller_reads_back)

definition url_lib :: "(nat, unit) access_lib" where
  "url_lib = sample_lib\<lparr>parse_url := (\<lambda>s. if starts_with ''http:'' s then Some s else None)\<rparr>"

definition sample_rules_json :: "json list" where
  "sample_rules_json = [JObject
     [(''sender-address'', JString ''0x7''),
      (''gas-usage'', JObject
         [(''window'', JString ''60000000000''), (''value'', JString ''<=1000''),
          (''count-by'', JArray [JString ''http-header::client'', JString ''sender-address''])]),
      (''action'', JObject
         [(''url'', JString ''http://hook''),
          (''headers'', JObject
             [(''b'', JArray [JString ''1'']), (''a'', JArray [JString ''2''])])])]]"

definition sample_file :: json where
  "sample_file = JObject
     [(''access-policy'', JString ''deny-all''), (''rules'', JArray sample_rules_json)]"

definition sample_rules_read :: "(nat, unit) access_rule list" where
  "sample_rules_read =
     [default_rule\<lparr>rule_sender_address := Single 7,
        rule_gas_usage := Some \<lparr>window = 60000000000, aggr_value = LessThanOrEqual 1000,
          count_bys = [new_http_header ''client'', SenderAddress]\<rparr>,
        rule_action := HookAction \<lparr>hook_config = HookActionDetailed
          \<lparr>detailed_url = ''http://hook'', detailed_headers = Some [(''a'', [''2'']), (''b'', [''1''])],
           detailed_header_map = None\<rparr>, hook_timeout_secs = None\<rparr>\<rparr>]"

lemma sample_rules_are_read: "map_result (de_access_rule url_lib) sample_rules_json = Ok sample_rules_read"
proof -
  have h: "split_str http_header_prefix ''http-header::client'' = [[], ''client'']"
    using split_header_text [of "''client''"] by (simp add: http_header_prefix_def)
  have cb: "map_result de_count_by [JString ''http-header::client'', JString ''sender-address''] =
      Ok [new_http_header ''client'', SenderAddress]"
    by (simp add: de_count_by_def http_header_from_str_def h new_http_header_def Let_def)
      (simp add: http_header_prefix_def)
  have digits: "show_nat 1000 = ''1000''" "show_nat 60000000000 = ''60000000000''" "show_nat 7 = ''7''"
    by (simp_all add: show_nat.simps digit_char_def)
  have num: "de_value_number parse_u64 (JString ''<=1000'') = Ok (LessThanOrEqual 1000)"
    using number_json.roundtrip [of "LessThanOrEqual 1000"] by (simp add: op_defs digits)
  have win: "de_duration (duration_lib url_lib) (JString ''60000000000'') = Ok 60000000000"
    using duration_json.roundtrip [OF sample_ok(2), of 60000000000]
    by (simp add: ser_duration_def url_lib_def sample_lib_def sample_duration_def digits)
  have addr: "de_value_iota_address (addr_lib url_lib) (JString ''0x7'') = Ok (Single 7)"
    using iota_address_json.roundtrip [OF sample_ok(1), of "Single 7"]
    by (simp add: url_lib_def sample_lib_def sample_addr_def digits)
  have hook: "de_action url_lib (JObject
         [(''url'', JString ''http://hook''),
          (''headers'', JObject
             [(''b'', JArray [JString ''1'']), (''a'', JArray [JString ''2''])])]) =
      Ok (HookAction \<lparr>hook_config = HookActionDetailed
          \<lparr>detailed_url = ''http://hook'', detailed_headers = Some [(''a'', [''2'']), (''b'', [''1''])],
           detailed_header_map = None\<rparr>, hook_timeout_secs = None\<rparr>)"
    by (simp add: de_action_def de_hook_action_def de_hook_config_def de_url_def de_field_def
        de_optional_def url_lib_def bt_from_list_def)
  have "de_access_rule url_lib (hd sample_rules_json) = Ok (hd sample_rules_read)"
    using cb num win addr hook
    by (simp add: sample_rules_json_def sample_rules_read_def default_rule_def de_field_def
        de_default_def de_optional_def del: de_value_iota_address.simps map_result.simps)
  then show ?thesis
    by (simp add: sample_rules_json_def sample_rules_read_def del: de_access_rule.simps)
qed

definition sample_read :: "(nat, nat, unit) access_controller" where
  "sample_read = controller_new DenyAll sample_rules_read"

lemma sample_file_reads: "de_controller url_lib sample_file = Ok sample_read"
  using sample_rules_are_read
  by (simp add: sample_file_def sample_read_def de_field_def de_default_def de_access_policy_def)

theorem configured_controller_well_formed_witness:
  "de_controller url_lib sample_file = Ok sample_read \<and> list_all (rule_ok url_lib) (rules sample_read) \<and>
     de_controller url_lib (ser_controller url_lib sample_read) = Ok sample_read"
proof -
  have "config_lib_ok url_lib"
    using sample_ok by (simp add: config_lib_ok_def url_lib_def sample_lib_def)
  from configured_controller_well_formed [OF this sample_file_reads] sample_file_reads
  show ?thesis by blast
qed

end
