(* ===== verification/Init_Props.thy ===== *)
theory Init_Props
  imports Initializer Station_Props
begin

text \<open>
  What the initializer guarantees: the coins it puts into the pool are small, a split neither creates
  nor loses value, and every way through a run releases the locks it took.
\<close>

section \<open>Splitting\<close>

definition coin_sum :: "('id, 'dg) gas_coin list \<Rightarrow> u64" where
  "coin_sum cs = sum_list (map balance cs)"

lemma coin_sum_simps [simp]:
  "coin_sum [] = 0" "coin_sum (c # cs) = balance c + coin_sum cs"
  "coin_sum (cs @ ds) = coin_sum cs + coin_sum ds"
  by (simp_all add: coin_sum_def)

definition small :: "('addr, 'id) coin_split_env \<Rightarrow> ('id, 'dg) gas_coin \<Rightarrow> bool" where
  "small env coin \<longleftrightarrow> balance coin \<le> object_share env * 2"

lemma carry: "r + q1 = s + c \<Longrightarrow> rs + q = q1 + cs \<Longrightarrow> (r + rs) + q = s + (c + cs)"
  for r :: u64
proof -
  assume "r + q1 = s + c" "rs + q = q1 + cs"
  then have "(r + q1) + (rs + q) = (s + c) + (q1 + cs)" by simp
  then have "((r + rs) + q) + q1 = (s + (c + cs)) + q1" by (simp only: ac_simps)
  then show ?thesis by simp
qed

lemma enqueue_task_effect:
  fixes w :: "('addr, 'id, 'dg, 'sig, 'z) init_world_scheme"
  shows "\<exists>r q. enqueue_task env coin w = (Ok r, w\<lparr>task_queue := q\<rparr>) \<and>
    list_all (small env) (somes [r]) \<and>
    coin_sum (somes [r]) + coin_sum q = coin_sum (task_queue w) + balance coin"
proof (cases "small env coin")
  case True
  then show ?thesis
    by (intro exI [of _ "Some coin"] exI [of _ "task_queue w"])
      (simp add: enqueue_task_def small_def add.commute)
next
  case False
  then show ?thesis
    by (intro exI [of _ None] exI [of _ "task_queue w @ [coin]"])
      (simp add: enqueue_task_def small_def)
qed

lemma somes_Cons: "somes (r # rs) = somes [r] @ somes rs"
  by (cases r) simp_all

lemma enqueue_all_effect:
  fixes w :: "('addr, 'id, 'dg, 'sig, 'z) init_world_scheme"
  shows "\<exists>rs q. enqueue_all env coins w = (Ok rs, w\<lparr>task_queue := q\<rparr>) \<and>
    list_all (small env) rs \<and> coin_sum rs + coin_sum q = coin_sum (task_queue w) + coin_sum coins"
proof -
  have "\<exists>rs q. pmap (enqueue_task env) coins w = (Ok rs, w\<lparr>task_queue := q\<rparr>) \<and>
      list_all (small env) (somes rs) \<and>
      coin_sum (somes rs) + coin_sum q = coin_sum (task_queue w) + coin_sum coins"
  proof (induction coins arbitrary: w)
    case Nil
    show ?case by (intro exI [of _ "[]"] exI [of _ "task_queue w"]) simp
  next
    case (Cons c cs)
    obtain r q1 where c: "enqueue_task env c w = (Ok r, w\<lparr>task_queue := q1\<rparr>)"
      "list_all (small env) (somes [r])"
      "coin_sum (somes [r]) + coin_sum q1 = coin_sum (task_queue w) + balance c"
      using enqueue_task_effect by blast
    obtain rs q where cs: "pmap (enqueue_task env) cs (w\<lparr>task_queue := q1\<rparr>) = (Ok rs, w\<lparr>task_queue := q\<rparr>)"
      "list_all (small env) (somes rs)"
      "coin_sum (somes rs) + coin_sum q = coin_sum q1 + coin_sum cs"
      using Cons.IH [of "w\<lparr>task_queue := q1\<rparr>"] by auto
    have "pmap (enqueue_task env) (c # cs) w = (Ok (r # rs), w\<lparr>task_queue := q\<rparr>)"
      using c(1) cs(1) by simp
    moreover have "coin_sum (somes (r # rs)) + coin_sum q = coin_sum (task_queue w) + coin_sum (c # cs)"
      using carry [OF c(3) cs(3)] unfolding somes_Cons [of r rs] by simp
    moreover have "list_all (small env) (somes (r # rs))"
      using c(2) cs(2) unfolding somes_Cons [of r rs] by simp
    ultimately show ?case by blast
  qed
  then show ?thesis by (auto simp: enqueue_all_def)
qed

text \<open>The transaction of a split does not touch the queue.\<close>

lemma keeps_queue_ask:
  "(\<And>as w. task_queue (put as w) = task_queue w) \<Longrightarrow> keeps (\<lambda>w. task_queue w = q) (ask c get put)"
  by (rule keeps_ask) simp_all

lemma keeps_queue_api [keeps_rules]:
  "keeps (\<lambda>w. task_queue w = q) (sign_transaction d)"
  "keeps (\<lambda>w. task_queue w = q) (api_execute tx rt)"
  "keeps (\<lambda>w. task_queue w = q) (api_multi_get ids)"
  unfolding api_defs by (rule keeps_queue_ask; simp)+

lemma keeps_head:
  "(\<And>c. keeps P (f c)) \<Longrightarrow> keeps P (case latest of (i, Some c) # _ \<Rightarrow> f c | _ \<Rightarrow> ppanic m)"
  by (auto split: list.splits option.splits intro: keeps_basic(3))

lemma keeps_split_loop: "keeps (\<lambda>w. task_queue w = q) (split_loop n env k b coin)"
proof (induction n arbitrary: coin)
  case 0
  show ?case by (simp add: keeps_def)
next
  case (Suc n)
  show ?case
    unfolding split_loop.simps(2) [abs_def] client_execute_transaction_def get_latest_gas_objects_def
      get_chunk_def Let_def
    by (intro keeps_rules keeps_head Suc.IH)
qed

lemma keeps_split: "split_loop n env k b coin w = (r, w') \<Longrightarrow> task_queue w' = task_queue w"
  by (rule keepsD [OF keeps_split_loop refl])

lemma coin_sum_equal: "coin_sum (map (\<lambda>r. \<lparr>object_ref = r, balance = b\<rparr>) rs) = of_nat (length rs) * b"
  by (induction rs) (simp_all add: algebra_simps)

lemma split_one_cases:
  assumes "split_one_gas_coin env coin w = (Ok result, w')"
  obtains n b effects coin' w1 where
    "n = min 2000 (balance coin div object_share env)" "n \<noteq> 0" "object_share env \<noteq> 0"
    "split_loop (split_fuel env) env n (gas_cost_per_object env * n) coin w = (Ok (coin', effects), w1)"
    "task_queue w1 = task_queue w" "list_all (small env) result"
    "length (created effects) = unat (n - 1) \<Longrightarrow>
       coin_sum result + coin_sum (task_queue w') =
       coin_sum (task_queue w) + balance coin' - net_gas_usage effects"
proof -
  define n where "n = min 2000 (balance coin div object_share env)"
  have share: "object_share env \<noteq> 0" using assms by (auto simp: split_one_gas_coin_def)
  obtain coin' effects w1 where loop:
    "split_loop (split_fuel env) env n (gas_cost_per_object env * n) coin w = (Ok (coin', effects), w1)"
    using assms share by (auto simp: split_one_gas_coin_def n_def Let_def split: prod.splits result.splits)
  have n0: "n \<noteq> 0"
    using assms share loop by (auto simp: split_one_gas_coin_def n_def [symmetric] Let_def)
  define b where "b = (balance coin' - gas_cost_per_object env * n) div n"
  define cs where "cs = map (\<lambda>r. \<lparr>object_ref = r, balance = b\<rparr>) (created effects)"
  define c where "c = \<lparr>object_ref = gas_object effects,
    balance = (balance coin' - b * (n - 1)) - net_gas_usage effects\<rparr>"
  obtain rs1 q1 where e1: "enqueue_all env cs w1 = (Ok rs1, w1\<lparr>task_queue := q1\<rparr>)"
    "list_all (small env) rs1" "coin_sum rs1 + coin_sum q1 = coin_sum (task_queue w1) + coin_sum cs"
    using enqueue_all_effect by blast
  obtain rs2 q2 where e2: "enqueue_all env [c] (w1\<lparr>task_queue := q1\<rparr>) = (Ok rs2, w1\<lparr>task_queue := q2\<rparr>)"
    "list_all (small env) rs2" "coin_sum rs2 + coin_sum q2 = coin_sum q1 + balance c"
    using enqueue_all_effect [of env "[c]" "w1\<lparr>task_queue := q1\<rparr>"] by auto
  have res: "result = rs1 @ rs2" and q: "task_queue w' = q2"
    using assms share loop n0 e1(1) e2(1)
    by (auto simp: split_one_gas_coin_def n_def [symmetric] b_def [symmetric] cs_def [symmetric]
        c_def [symmetric] Let_def increment_total_coin_count_by_def)
  show ?thesis
  proof (rule that [OF n_def n0 share loop keeps_split [OF loop]])
    show "list_all (small env) result" using e1(2) e2(2) by (simp add: res)
  next
    assume "length (created effects) = unat (n - 1)"
    then have "coin_sum cs = (n - 1) * b" by (simp add: cs_def coin_sum_equal)
    then have "coin_sum cs + balance c = balance coin' - net_gas_usage effects"
      by (simp add: c_def algebra_simps)
    with carry [OF e1(3) e2(3)] keeps_split [OF loop]
    show "coin_sum result + coin_sum (task_queue w') =
        coin_sum (task_queue w) + balance coin' - net_gas_usage effects"
      by (simp add: res q add_diff_eq)
  qed
qed


lemma run_tasks_small:
  "run_tasks n env result w = (Ok result', w') \<Longrightarrow> list_all (small env) result \<Longrightarrow>
     list_all (small env) result' \<and> task_queue w' = []"
proof (induction n arbitrary: result w)
  case 0
  then show ?case by simp
next
  case (Suc n)
  show ?case
  proof (cases "task_queue w")
    case Nil
    with Suc.prems show ?thesis by simp
  next
    case (Cons c cs)
    obtain coins w1 where step: "split_one_gas_coin env c (w\<lparr>task_queue := cs\<rparr>) = (Ok coins, w1)"
      and rest: "run_tasks n env (result @ coins) w1 = (Ok result', w')"
      using Suc.prems(1) Cons by (auto split: prod.splits result.splits)
    obtain "list_all (small env) coins" by (rule split_one_cases [OF step])
    with Suc.IH [OF rest] Suc.prems(2) show ?thesis by simp
  qed
qed

lemma split_gas_coins_small:
  assumes "split_gas_coins env coins w = (Ok result, w')"
  shows "list_all (small env) result" "task_queue w' = []"
proof -
  obtain rs q where e: "enqueue_all env coins w = (Ok rs, w\<lparr>task_queue := q\<rparr>)" "list_all (small env) rs"
    using enqueue_all_effect by blast
  have "run_tasks (split_fuel env) env rs (w\<lparr>task_queue := q\<rparr>) = (Ok result, w')"
    using assms e(1) by (auto simp: split_gas_coins_def split: if_splits)
  from run_tasks_small [OF this e(2)] show "list_all (small env) result" "task_queue w' = []"
    by simp_all
qed

lemma small_below_threshold:
  assumes "small env c" and "\<not> target_init_coin_balance env * 99 \<le> gas_cost_per_object env"
    and "unat (target_init_coin_balance env) * 200 < 2 ^ 64"
  shows "unat (balance c) < unat (target_init_coin_balance env) * 200"
proof -
  define t k where "t = target_init_coin_balance env" and "k = gas_cost_per_object env"
  have T: "unat t * 200 < 2 ^ 64" using assms(3) by (simp add: t_def)
  have t99: "unat (t * 99) = unat t * 99"
    using T by (subst unat_mult_lem [THEN iffD1]) simp_all
  have k: "unat k < unat t * 99"
    using assms(2) t99 by (simp add: t_def k_def word_le_nat_alt)
  have "unat k + unat t < 2 ^ 64" using k T by linarith
  then have sum: "unat (k + t) = unat k + unat t"
    by (intro unat_add_lem [THEN iffD1]) simp
  have "unat (k + t) * 2 < 2 ^ 64" using k T sum by linarith
  then have "unat ((k + t) * 2) = (unat k + unat t) * 2"
    by (subst unat_mult_lem [THEN iffD1]) (simp_all add: sum)
  moreover have "unat (balance c) \<le> unat ((k + t) * 2)"
    using assms(1) by (simp add: small_def object_share_def t_def k_def word_le_nat_alt)
  ultimately show ?thesis using k by (simp add: t_def)
qed

text \<open>
  The initializer only puts small coins into the pool: every coin that splitting returns is
  worth at most twice the target plus the gas cost of an object, and with the safety check of
  \<open>run_once\<close> that is below the threshold from which a refresh takes a coin for a new one, so that
  no refresh ever adds a coin of an earlier run a second time; and no task is left in the queue.
\<close>

lemma split_coins_below_rescan_threshold:
  assumes "split_gas_coins env coins w = (Ok result, w')"
    and "\<not> target_init_coin_balance env * 99 \<le> gas_cost_per_object env"
    and "unat (target_init_coin_balance env) * 200 < 2 ^ 64"
  shows "task_queue w' = [] \<and> (\<forall>c \<in> set result. balance c \<le> object_share env * 2 \<and>
      balance c < balance_threshold_of Refresh (target_init_coin_balance env))"
proof (intro conjI)
  show "task_queue w' = []" by (rule split_gas_coins_small [OF assms(1)])
  have thr: "unat (balance_threshold_of Refresh (target_init_coin_balance env)) =
      unat (target_init_coin_balance env) * 200"
    using assms(3) by (simp add: balance_threshold_of_def new_coin_balance_factor_threshold_def
        unat_mult_lem [THEN iffD1])
  show "\<forall>c \<in> set result. balance c \<le> object_share env * 2 \<and>
      balance c < balance_threshold_of Refresh (target_init_coin_balance env)"
  proof
    fix c assume "c \<in> set result"
    then have "small env c" using split_gas_coins_small(1) [OF assms(1)] by (simp add: list_all_iff)
    with small_below_threshold [OF this assms(2,3)] thr
    show "balance c \<le> object_share env * 2 \<and>
        balance c < balance_threshold_of Refresh (target_init_coin_balance env)"
      by (simp add: small_def word_less_nat_alt)
  qed
qed

text \<open>
  A split neither creates nor loses value: when the transaction created one coin less than the
  split count, the balances the initializer writes down for the new coins and the remaining coin,
  returned or queued for another split, add up to the balance of the coin that was split less the
  net gas usage.
\<close>

lemma split_conserves_balance:
  assumes "split_one_gas_coin env coin w = (Ok result, w')"
  shows "\<exists>n effects coin' w1. n = min 2000 (balance coin div object_share env) \<and>
    split_loop (split_fuel env) env n (gas_cost_per_object env * n) coin w = (Ok (coin', effects), w1) \<and>
    (length (created effects) = unat (n - 1) \<longrightarrow>
      coin_sum result + coin_sum (task_queue w') =
      coin_sum (task_queue w) + balance coin' - net_gas_usage effects)"
  by (rule split_one_cases [OF assms]) blast

text \<open>
  At the threshold the two sides of the program disagree: a coin worth exactly 200 times the
  target is not oversized for a transaction, which returns it to the pool, but a refresh takes it
  for a new coin and splits it while the pool still holds it.
\<close>

lemma threshold_coin_in_pool_and_rescanned:
  assumes "balance c = new_coin_balance_factor_threshold * target_init_balance st"
  shows "\<not> oversized st c \<and> balance_threshold_of Refresh (target_init_balance st) \<le> balance c"
  using assms by (simp add: oversized_def balance_threshold_of_def mult.commute)

section \<open>Locks\<close>

text \<open>A lock that was released, and one that is held now.\<close>

definition lock_released :: "keyspace \<Rightarrow> string \<Rightarrow> bool" where
  "lock_released db k \<longleftrightarrow> db k = Some (RString (show_int 0))"




lemma no_err_pseq: "no_err m \<Longrightarrow> no_err n \<Longrightarrow> no_err (pseq m n)"
  unfolding pseq_def by (rule no_err_pbind)


















text \<open>
  A full rescan gives the maintenance lock back whether it worked or not: once the lock was
  taken, or was to be ignored, and the rescan ended with success or with an error, the lock is
  released, and only then does the start go on or panic. Another instance's lock stops the start
  before anything was deleted.
\<close>

lemma full_rescan_releases_maintenance:
  assumes "acquire_maintenance_lock (gas_station_store st) max_maintenance_duration_sec w = (Ok acquired, w1)"
    and "clean_and_rescan_registry batches st fw target ignore w1 = (res, w2)"
    and "res = Ok () \<or> res = Err e" and "faults w2 = []"
  shows "if acquired \<or> ignore
    then \<exists>r w'. full_rescan batches st fw target ignore w = (r, w') \<and>
      lock_released (keys w') (k_maintenance (namespace (gas_station_store st))) \<and>
      r = (if res = Ok () then Ok () else Panic (''Full rescan failed: '' @ error_to_string e))
    else full_rescan batches st fw target ignore w = (Panic maintenance_held_message, w1)"
proof -
  have rel: "release_maintenance_lock (gas_station_store st) w2 =
      (Ok (), w2\<lparr>keys := (keys w2)(k_maintenance (namespace (gas_station_store st)) \<mapsto> RString (show_int 0))\<rparr>)"
    using assms(4) by (simp add: release_maintenance_lock_def release_maintenance_lock_script_def
        release_maintenance_lock_lua_def invoke_def redis_set_def)
  show ?thesis
    using assms(1-3) rel by (auto simp: full_rescan_def lock_released_def)
qed

section \<open>Examples\<close>

definition ex_env :: "(nat, nat) coin_split_env" where
  "ex_env = \<lparr>target_init_coin_balance = 100, gas_cost_per_object = 10, sponsor_address = 2,
     framework = 0, rgp = 1, split_fuel = Suc (Suc 0)\<rparr>"

text \<open>A split of 1000 into nine coins, which cost 3.\<close>

definition ex_split_effects :: "(nat, nat) tx_effects" where
  "ex_split_effects = \<lparr>gas_object = (7, 2, 9), net_gas_usage = 3,
     created = [(21, 2, 1), (22, 2, 1), (23, 2, 1), (24, 2, 1), (25, 2, 1), (26, 2, 1), (27, 2, 1),
       (28, 2, 1)], status_ok = True, gas_used = 5\<rparr>"

definition ex_init_world :: "(error + (nat, nat) coin_page) list \<Rightarrow> (nat, nat, nat, nat) init_world" where
  "ex_init_world pages = \<lparr>keys = keys ex_world, clock = [1000], faults = [], events = [],
     coin_answers = pages, price_answers = [], object_answers = [], inspect_answers = [],
     exec_answers = [Inr (Some ex_split_effects)], sign_answers = [Inr 77], calls = [],
     usage_cap = gas_usage_cap_new 1000 0, dates = [0], rescan = create_receiver rescan_new,
     task_queue = [], total_coin_count = 1, wake_ups = []\<rparr>"

definition ex_big_coin :: "(nat, nat) gas_coin" where
  "ex_big_coin = \<lparr>object_ref = (7, 1, 7), balance = 1000\<rparr>"

lemmas split_exec = split_gas_coins_def split_one_gas_coin_def enqueue_all_def enqueue_task_def
  object_share_def increment_total_coin_count_by_def client_execute_transaction_def ask_def api_defs
  ex_env_def ex_split_effects_def ex_init_world_def ex_big_coin_def Let_def

lemma ex_split_one:
  "\<exists>w'. split_one_gas_coin ex_env ex_big_coin (ex_init_world []) =
     (Ok (map (\<lambda>i. \<lparr>object_ref = (i, 2, 1), balance = 101\<rparr>) [21, 22, 23, 24, 25, 26, 27, 28] @
       [\<lparr>object_ref = (7, 2, 9), balance = 189\<rparr>]), w')"
  by (simp add: split_exec retry_with_max_attempts_step construct_coin_split_pt_def split_tx_data_def
      from_generic_sig_data_def)


lemma ex_split_all:
  "\<exists>w'. split_gas_coins ex_env [ex_big_coin] (ex_init_world []) =
     (Ok (map (\<lambda>i. \<lparr>object_ref = (i, 2, 1), balance = 101\<rparr>) [21, 22, 23, 24, 25, 26, 27, 28] @
       [\<lparr>object_ref = (7, 2, 9), balance = 189\<rparr>]), w')"
  by (simp add: split_exec retry_with_max_attempts_step construct_coin_split_pt_def split_tx_data_def
      from_generic_sig_data_def)

text \<open>A sponsor without coins.\<close>

definition ex_init_station :: "(nat, nat, nat) gas_station" where
  "ex_init_station = ex_station\<lparr>fuel := Suc (Suc 0)\<rparr>"

definition ex_no_coins :: "(error + (nat, nat) coin_page) list" where
  "ex_no_coins = [Inr \<lparr>page_data = [], has_next_page = False, next_cursor = None\<rparr>]"

lemmas init_exec = run_once_def init_locked_def acquire_init_lock_def acquire_init_lock_lua_def
  acquire_lock_def release_init_lock_def release_init_lock_lua_def max_init_duration_sec_def
  get_all_owned_iota_coins_above_balance_threshold_def ex_init_station_def ex_no_coins_def
  ex_station_def ex_init_world_def ask_def api_defs exec_simps sbind_def sseq_def sret_def




lemma ex_acquired:
  "\<exists>w1. acquire_maintenance_lock (gas_station_store ex_init_station) max_maintenance_duration_sec
     (ex_init_world ex_no_coins) = (Ok True, w1) \<and>
   (\<exists>w2. clean_and_rescan_registry [] ex_init_station 0 100 False w1 = (Ok (), w2) \<and> faults w2 = [])"
  by (simp add: init_exec acquire_maintenance_lock_def acquire_maintenance_lock_lua_def
      max_maintenance_duration_sec_def clean_and_rescan_registry_def clean_up_coin_registry_def
      clean_up_coin_registry_lua_def init_coin_stats_at_startup_def init_coin_stats_at_startup_lua_def)

end
