(* ===== verification/Init_Termination.thy ===== *)
theory Init_Termination
  imports Init_Props
begin

text \<open>
  The queue of coins to split runs empty. A split replaces a coin by pieces whose balances, each less
  one, add up to less than the balance of the coin less one; the sum over the queue is the measure.
\<close>

definition queue_measure :: "('id, 'dg) gas_coin list \<Rightarrow> nat" where
  "queue_measure cs = sum_list (map (\<lambda>c. unat (balance c) - 1) cs)"

lemma queue_measure_simps [simp]:
  "queue_measure [] = 0" "queue_measure (c # cs) = (unat (balance c) - 1) + queue_measure cs"
  "queue_measure (cs @ ds) = queue_measure cs + queue_measure ds"
  by (simp_all add: queue_measure_def)

definition all_large :: "('addr, 'id) coin_split_env \<Rightarrow> ('id, 'dg) gas_coin list \<Rightarrow> bool" where
  "all_large env cs \<longleftrightarrow> list_all (\<lambda>c. \<not> small env c) cs"

lemma enqueue_all_measure:
  fixes w :: "('addr, 'id, 'dg, 'sig, 'z) init_world_scheme"
  shows "\<exists>rs q. enqueue_all env coins w = (Ok rs, w\<lparr>task_queue := q\<rparr>) \<and>
    queue_measure q \<le> queue_measure (task_queue w) + queue_measure coins \<and>
    (all_large env (task_queue w) \<longrightarrow> all_large env q)"
proof -
  have "\<exists>rs q. pmap (enqueue_task env) coins w = (Ok rs, w\<lparr>task_queue := q\<rparr>) \<and>
      queue_measure q \<le> queue_measure (task_queue w) + queue_measure coins \<and>
      (all_large env (task_queue w) \<longrightarrow> all_large env q)"
  proof (induction coins arbitrary: w)
    case Nil
    show ?case by (intro exI [of _ "[]"] exI [of _ "task_queue w"]) simp
  next
    case (Cons c cs)
    obtain r q1 where c: "enqueue_task env c w = (Ok r, w\<lparr>task_queue := q1\<rparr>)"
      "queue_measure q1 \<le> queue_measure (task_queue w) + (unat (balance c) - 1)"
      "all_large env (task_queue w) \<Longrightarrow> all_large env q1"
    proof (cases "small env c")
      case True
      then show ?thesis
        by (intro that [of "Some c" "task_queue w"]) (simp_all add: enqueue_task_def small_def)
    next
      case False
      then show ?thesis
        by (intro that [of None "task_queue w @ [c]"])
          (simp_all add: enqueue_task_def small_def all_large_def)
    qed
    from Cons.IH [of "w\<lparr>task_queue := q1\<rparr>"] obtain rs q where
      "pmap (enqueue_task env) cs (w\<lparr>task_queue := q1\<rparr>) = (Ok rs, w\<lparr>task_queue := q\<rparr>)"
      "queue_measure q \<le> queue_measure q1 + queue_measure cs"
      "all_large env q1 \<Longrightarrow> all_large env q"
      by auto
    with c show ?case by (intro exI [of _ "r # rs"] exI [of _ q]) auto
  qed
  then show ?thesis by (auto simp: enqueue_all_def)
qed

section \<open>One split\<close>

definition split_count :: "('addr, 'id) coin_split_env \<Rightarrow> ('id, 'dg) gas_coin \<Rightarrow> u64" where
  "split_count env coin = min 2000 (balance coin div object_share env)"

text \<open>The amounts of a split, as natural numbers: \<open>g\<close> is the gas cost of an object, \<open>t\<close> the target.\<close>

lemma pieces_lose_value:
  fixes n g t b :: nat
  assumes n: "2 \<le> n" "n * (g + t) \<le> bal" and t: "0 < t" and b: "b = (bal - g * n) div n"
    and len: "len < n" and cost: "cost \<le> g * n"
  shows "b * (n - 1) + b + cost \<le> bal" "0 < b"
    "len * (b - 1) + (bal - b * (n - 1) - cost - 1) < bal - 1"
proof -
  have "n * t \<le> bal - g * n" using n(2) by (simp add: algebra_simps)
  then have "t \<le> b" using n(1) unfolding b by (simp add: less_eq_div_iff_mult_less_eq mult.commute)
  with t show "0 < b" by simp
  have gn: "g * n \<le> bal" using n(2) by (simp add: algebra_simps)
  have "b * n \<le> bal - g * n" unfolding b by (rule div_times_less_eq_dividend)
  moreover obtain m where m: "n = Suc m" "1 \<le> m" using n(1) by (cases n) auto
  ultimately have bm: "b * m + b + g * n \<le> bal" using gn by (simp add: algebra_simps)
  show "b * (n - 1) + b + cost \<le> bal" using bm cost m by simp
  have "len * (b - 1) \<le> m * (b - 1)" using len m by simp
  also have "\<dots> = b * m - m" by (simp add: algebra_simps diff_mult_distrib)
  finally have "len * (b - 1) \<le> b * m - m" .
  moreover have "m \<le> b * m" using \<open>0 < b\<close> by simp
  moreover have "k + (bal - x - cost - 1) < bal - 1"
    if "k \<le> x - m" "m \<le> x" "1 \<le> m" "x + b \<le> bal" "0 < b" for k x
    using that by arith
  ultimately show "len * (b - 1) + (bal - b * (n - 1) - cost - 1) < bal - 1"
    using bm m(2) \<open>0 < b\<close> unfolding m(1) diff_Suc_1 by simp
qed

lemma sum_equal_pieces:
  "queue_measure (map (\<lambda>r. \<lparr>object_ref = r, balance = b\<rparr>) rs) = length rs * (unat b - 1)"
  by (induction rs) simp_all

definition env_ok :: "('addr, 'id) coin_split_env \<Rightarrow> bool" where
  "env_ok env \<longleftrightarrow> 0 < target_init_coin_balance env \<and>
     (unat (gas_cost_per_object env) + unat (target_init_coin_balance env)) * 2 < 2 ^ 64"

lemma share_nat: "env_ok env \<Longrightarrow>
    unat (object_share env) = unat (gas_cost_per_object env) + unat (target_init_coin_balance env)"
  by (auto simp: env_ok_def object_share_def unat_plus_if')

lemma large_share: "env_ok env \<Longrightarrow> \<not> small env coin \<Longrightarrow> unat (object_share env) * 2 < unat (balance coin)"
proof -
  assume "env_ok env" "\<not> small env coin"
  moreover from this have "unat (object_share env * 2) = unat (object_share env) * 2"
    using share_nat [of env] by (subst unat_mult_lem [THEN iffD1]) (simp_all add: env_ok_def)
  ultimately show ?thesis by (simp add: small_def word_le_nat_alt)
qed

lemma split_count_nat:
  assumes "env_ok env" "\<not> small env coin"
  shows "2 \<le> unat (split_count env coin)"
    "unat (split_count env coin) * unat (object_share env) \<le> unat (balance coin)"
proof -
  have s: "unat (object_share env) * 2 < unat (balance coin)" "0 < unat (object_share env)"
    using large_share [OF assms] share_nat [of env] assms(1) by (auto simp: env_ok_def word_less_nat_alt)
  then have "2 \<le> unat (balance coin) div unat (object_share env)"
    by (simp add: less_eq_div_iff_mult_less_eq)
  moreover have n: "unat (split_count env coin) = min 2000 (unat (balance coin) div unat (object_share env))"
    by (simp add: split_count_def min_def unat_div word_le_nat_alt)
  ultimately show "2 \<le> unat (split_count env coin)" by simp
  show "unat (split_count env coin) * unat (object_share env) \<le> unat (balance coin)"
    unfolding n by (metis div_times_less_eq_dividend le_trans min.cobounded2 mult_le_mono1)
qed

text \<open>The amounts of a split on machine integers are those on natural numbers.\<close>

lemma split_amounts:
  fixes env :: "('addr, 'id) coin_split_env" and coin :: "('id, 'dg) gas_coin"
  defines "n \<equiv> split_count env coin" and "g \<equiv> gas_cost_per_object env"
  defines "b \<equiv> (balance coin - g * n) div n"
  assumes env: "env_ok env" and big: "\<not> small env coin"
  shows "2 \<le> unat n" "unat n * (unat g + unat (target_init_coin_balance env)) \<le> unat (balance coin)"
    "0 < unat (target_init_coin_balance env)" "unat (g * n) = unat g * unat n"
    "unat b = (unat (balance coin) - unat g * unat n) div unat n" "unat (n - 1) = unat n - 1"
    "unat (b * (n - 1)) = unat b * (unat n - 1)"
proof -
  show n: "2 \<le> unat n" "unat n * (unat g + unat (target_init_coin_balance env)) \<le> unat (balance coin)"
    using split_count_nat [OF env big] share_nat [OF env] by (simp_all add: n_def g_def)
  show "0 < unat (target_init_coin_balance env)"
    using env by (simp add: env_ok_def word_less_nat_alt)
  have le: "unat g * unat n \<le> unat (balance coin)" using n(2) by (simp add: algebra_simps)
  show gn: "unat (g * n) = unat g * unat n"
    using le_less_trans [OF le unsigned_less] by (subst unat_mult_lem [THEN iffD1]) simp_all
  show b: "unat b = (unat (balance coin) - unat g * unat n) div unat n"
    using le gn by (simp add: b_def unat_div unat_sub word_le_nat_alt)
  show n1: "unat (n - 1) = unat n - 1"
    using n(1) by (subst unat_sub) (simp_all add: word_le_nat_alt)
  have "unat b * (unat n - 1) \<le> unat b * unat n" by simp
  also have "\<dots> \<le> unat (balance coin) - unat g * unat n" unfolding b by (rule div_times_less_eq_dividend)
  also have "\<dots> \<le> unat (balance coin)" by simp
  also have "\<dots> < 2 ^ LENGTH(64)" by (rule unsigned_less)
  finally show "unat (b * (n - 1)) = unat b * (unat n - 1)"
    by (subst unat_mult_lem [THEN iffD1]) (simp_all add: n1)
qed

section \<open>All splits\<close>

text \<open>
  \<open>serves env P\<close>: while \<open>P (Suc k)\<close> holds of the world, the next split is executed as it was asked for,
  at a cost within its budget, and \<open>P k\<close> holds afterwards. The world may know how many splits it
  still answers.
\<close>

definition serves ::
  "('addr, 'id) coin_split_env \<Rightarrow> (nat \<Rightarrow> ('addr, 'id, 'dg, 'sig, 'z) init_world_scheme \<Rightarrow> bool) \<Rightarrow> bool"
where
  "serves env P \<longleftrightarrow>
     (\<forall>k coin w. P (Suc k) w \<and> \<not> small env coin \<longrightarrow>
       (\<exists>coin' effects w1.
          split_loop (split_fuel env) env (split_count env coin)
            (gas_cost_per_object env * split_count env coin) coin w = (Ok (coin', effects), w1) \<and>
          balance coin' = balance coin \<and>
          length (created effects) < unat (split_count env coin) \<and>
          net_gas_usage effects \<le> gas_cost_per_object env * split_count env coin \<and> P k w1)) \<and>
     (\<forall>k w q. P k w \<longrightarrow> P k (w\<lparr>task_queue := q\<rparr>)) \<and>
     (\<forall>k w c. P k w \<longrightarrow> P k (w\<lparr>total_coin_count := c\<rparr>))"

lemma split_one_decreases:
  fixes w :: "('addr, 'id, 'dg, 'sig, 'z) init_world_scheme"
  assumes env: "env_ok env" and big: "\<not> small env coin"
    and serve: "serves env P" "P (Suc k) w" and large: "all_large env (task_queue w)"
  shows "\<exists>result w'. split_one_gas_coin env coin w = (Ok result, w') \<and> P k w' \<and>
    queue_measure (task_queue w') < queue_measure (task_queue w) + (unat (balance coin) - 1) \<and>
    all_large env (task_queue w')"
proof -
  define n g where "n = split_count env coin" and "g = gas_cost_per_object env"
  obtain coin' effects w1 where loop:
    "split_loop (split_fuel env) env n (g * n) coin w = (Ok (coin', effects), w1)"
    "balance coin' = balance coin" "length (created effects) < unat n" "net_gas_usage effects \<le> g * n"
    "P k w1"
    using serve big unfolding serves_def n_def g_def by blast
  note amounts = split_amounts [OF env big, folded n_def g_def]
  define b where "b = (balance coin' - g * n) div n"
  have cost: "unat (net_gas_usage effects) \<le> unat g * unat n"
    using loop(4) amounts(4) by (simp add: word_le_nat_alt)
  have b: "unat b = (unat (balance coin) - unat g * unat n) div unat n"
    "unat (b * (n - 1)) = unat b * (unat n - 1)"
    using amounts(5,7) by (simp_all add: b_def loop(2))
  note pieces = pieces_lose_value [OF amounts(1-3) b(1) loop(3) cost]
  define cs where "cs = map (\<lambda>r. \<lparr>object_ref = r, balance = b\<rparr>) (created effects)"
  define c where "c = \<lparr>object_ref = gas_object effects,
    balance = (balance coin' - b * (n - 1)) - net_gas_usage effects\<rparr>"
  have "unat (balance c) = unat (balance coin) - unat b * (unat n - 1) - unat (net_gas_usage effects)"
    using pieces(1) b(2) by (simp add: c_def loop(2) unat_sub word_le_nat_alt)
  then have less: "queue_measure cs + queue_measure [c] < unat (balance coin) - 1"
    using pieces(3) by (simp add: cs_def sum_equal_pieces)
  obtain rs1 q1 where e1: "enqueue_all env cs w1 = (Ok rs1, w1\<lparr>task_queue := q1\<rparr>)"
    "queue_measure q1 \<le> queue_measure (task_queue w1) + queue_measure cs"
    "all_large env (task_queue w1) \<longrightarrow> all_large env q1"
    using enqueue_all_measure by blast
  obtain rs2 q2 where e2: "enqueue_all env [c] (w1\<lparr>task_queue := q1\<rparr>) = (Ok rs2, w1\<lparr>task_queue := q2\<rparr>)"
    "queue_measure q2 \<le> queue_measure q1 + queue_measure [c]"
    "all_large env q1 \<longrightarrow> all_large env q2"
    using enqueue_all_measure [of env "[c]" "w1\<lparr>task_queue := q1\<rparr>"] by auto
  have share: "object_share env \<noteq> 0" "n \<noteq> 0"
    using share_nat [OF env] amounts(1,3) by (auto simp: unat_eq_0 [symmetric])
  have "split_one_gas_coin env coin w = (Ok (rs1 @ rs2),
      w1\<lparr>task_queue := q2, total_coin_count := total_coin_count w1 + (of_nat (length (rs1 @ rs2)) - 1)\<rparr>)"
    using share loop(1) e1(1) e2(1)
    by (simp add: split_one_gas_coin_def n_def [unfolded split_count_def, symmetric] g_def [symmetric]
        b_def [symmetric] cs_def [symmetric] c_def [symmetric] Let_def increment_total_coin_count_by_def)
  moreover have "P k (w1\<lparr>task_queue := q2, total_coin_count := tc\<rparr>)" for tc
    using serve(1) loop(5) unfolding serves_def by blast
  moreover have "queue_measure q2 < queue_measure (task_queue w) + (unat (balance coin) - 1)"
    using e1(2) e2(2) less keeps_split [OF loop(1)] by simp
  moreover have "all_large env q2"
    using e1(3) e2(3) large keeps_split [OF loop(1)] by simp
  ultimately show ?thesis by (intro exI conjI) (assumption | simp)+
qed

lemma run_tasks_terminates:
  assumes env: "env_ok env" and serve: "serves env P"
  shows "P k w \<Longrightarrow> queue_measure (task_queue w) \<le> k \<Longrightarrow> all_large env (task_queue w) \<Longrightarrow> k < m \<Longrightarrow>
    \<exists>result' w'. run_tasks m env result w = (Ok result', w')"
proof (induction k arbitrary: m result w)
  case 0
  have "task_queue w = []"
  proof (cases "task_queue w")
    case (Cons c cs)
    then have "\<not> small env c" "unat (balance c) \<le> 1" using "0.prems" by (auto simp: all_large_def)
    with large_share [OF env this(1)] share_nat [OF env] env show ?thesis
      by (simp add: env_ok_def word_less_nat_alt)
  qed
  then show ?case using "0.prems"(4) by (cases m) simp_all
next
  case (Suc k)
  then obtain m' where m: "m = Suc m'" "k < m'" by (cases m) auto
  show ?case
  proof (cases "task_queue w")
    case Nil
    with m show ?thesis by simp
  next
    case (Cons c cs)
    let ?w = "w\<lparr>task_queue := cs\<rparr>"
    have "P (Suc k) ?w" using serve Suc.prems(1) unfolding serves_def by blast
    moreover have big: "\<not> small env c" "all_large env (task_queue ?w)"
      using Suc.prems(3) Cons by (simp_all add: all_large_def)
    ultimately obtain coins w1 where step: "split_one_gas_coin env c ?w = (Ok coins, w1)" "P k w1"
      "queue_measure (task_queue w1) < queue_measure cs + (unat (balance c) - 1)"
      "all_large env (task_queue w1)"
      using split_one_decreases [OF env big(1) serve] by fastforce
    have "queue_measure (task_queue w1) \<le> k" using step(3) Suc.prems(2) Cons by simp
    from Suc.IH [OF step(2) this step(4) m(2)] show ?thesis
      using Cons step(1) m(1) by simp
  qed
qed

text \<open>C31: splitting ends: when every split is executed at a cost within its budget, and creates at most the
  coins that were asked for, as many rounds as the balances of the coins add up to are enough to empty
  the queue, and splitting returns.\<close>

theorem splitting_terminates:
  assumes "env_ok env" "serves env P" "P (queue_measure coins) w" "task_queue w = []"
    and "queue_measure coins < split_fuel env"
  shows "\<exists>result w'. split_gas_coins env coins w = (Ok result, w') \<and> task_queue w' = []"
proof -
  obtain rs q where e: "enqueue_all env coins w = (Ok rs, w\<lparr>task_queue := q\<rparr>)"
    "queue_measure q \<le> queue_measure coins" "all_large env q"
    using enqueue_all_measure [of env coins w] assms(4) by (auto simp: all_large_def)
  have "P (queue_measure coins) (w\<lparr>task_queue := q\<rparr>)"
    using assms(2,3) unfolding serves_def by blast
  from run_tasks_terminates [OF assms(1,2) this _ _ assms(5)] e obtain result w' where
    "run_tasks (split_fuel env) env rs (w\<lparr>task_queue := q\<rparr>) = (Ok result, w')"
    by fastforce
  then have "split_gas_coins env coins w = (Ok result, w')"
    using e(1) assms(1) by (auto simp: split_gas_coins_def env_ok_def)
  with split_gas_coins_small(2) [OF this] show ?thesis by blast
qed

definition ex_long_env :: "(nat, nat) coin_split_env" where
  "ex_long_env = ex_env\<lparr>split_fuel := Suc 1000\<rparr>"

definition ex_pair_effects :: "(nat, nat) tx_effects" where
  "ex_pair_effects = \<lparr>gas_object = (7, 2, 9), net_gas_usage = 3, created = [(21, 2, 1)],
     status_ok = True, gas_used = 5\<rparr>"

definition ex_answers :: "nat \<Rightarrow> (nat, nat, nat, nat) init_world \<Rightarrow> bool" where
  "ex_answers k w \<longleftrightarrow> sign_answers w = replicate k (Inr 77) \<and>
     exec_answers w = replicate k (Inr (Some ex_pair_effects))"

lemma ex_long_env_ok: "env_ok ex_long_env"
  by (simp add: env_ok_def ex_long_env_def ex_env_def)

lemma ex_budget_covers:
  assumes "\<not> small ex_long_env coin"
  shows "3 \<le> gas_cost_per_object ex_long_env * split_count ex_long_env coin"
proof -
  have n: "2 \<le> unat (split_count ex_long_env coin)" "unat (split_count ex_long_env coin) \<le> 2000"
    using split_count_nat(1) [OF ex_long_env_ok assms] by (simp_all add: split_count_def min_def word_le_nat_alt)
  then have "unat (10 * split_count ex_long_env coin) = 10 * unat (split_count ex_long_env coin)"
    by (subst unat_mult_lem [THEN iffD1]) simp_all
  with n show ?thesis by (simp add: ex_long_env_def ex_env_def word_le_nat_alt)
qed

lemma split_loop_step:
  "0 < n \<Longrightarrow> split_loop n env sc budget coin w =
     pbind (punwrap (retry_forever (split_fuel env)
              (sign_transaction (split_tx_data env coin sc budget)))) (\<lambda>sig.
     let tx = from_generic_sig_data (split_tx_data env coin sc budget) [sig]
     in pbind (ptry (client_execute_transaction tx 10 None)) (\<lambda>result.
        case result of
          Inr effects \<Rightarrow>
            if status_ok effects then pret (coin, effects)
            else ppanic ''Transaction failed. This should never happen.''
        | Inl e \<Rightarrow>
            pbind (get_latest_gas_objects (split_fuel env) [fst (object_ref coin)]) (\<lambda>latest.
            case latest of
              (i, Some c) # _ \<Rightarrow> split_loop (n - 1) env sc budget c
            | _ \<Rightarrow> ppanic ''called `Option::unwrap()` on a `None` value''))) w"
  by (cases n) simp_all

lemma ex_serves: "serves ex_long_env ex_answers"
proof -
  have "\<exists>w1. split_loop (split_fuel ex_long_env) ex_long_env n b coin w = (Ok (coin, ex_pair_effects), w1) \<and>
      ex_answers k w1" if "ex_answers (Suc k) w" for k n b coin w
    using that
    by (simp add: ex_long_env_def ex_env_def ex_answers_def client_execute_transaction_def ask_def api_defs
        Let_def retry_with_max_attempts_step retry_forever_step split_loop_step) (simp add: ex_pair_effects_def)
  moreover have "length (created ex_pair_effects) < unat (split_count ex_long_env coin)"
    "net_gas_usage ex_pair_effects \<le> gas_cost_per_object ex_long_env * split_count ex_long_env coin"
    if "\<not> small ex_long_env coin" for coin :: "(nat, nat) gas_coin"
    using split_count_nat(1) [OF ex_long_env_ok that] ex_budget_covers [OF that]
    by (simp_all add: ex_pair_effects_def)
  ultimately show ?thesis
    unfolding serves_def by (fastforce simp: ex_answers_def)
qed

theorem splitting_terminates_witness:
  "\<exists>result w'. split_gas_coins ex_long_env [ex_big_coin]
     ((ex_init_world [])\<lparr>sign_answers := replicate 999 (Inr 77),
        exec_answers := replicate 999 (Inr (Some ex_pair_effects))\<rparr>) = (Ok result, w') \<and> task_queue w' = []"
proof -
  have "queue_measure [ex_big_coin] = 999"
    by (simp add: ex_big_coin_def)
  with splitting_terminates [OF ex_long_env_ok ex_serves, of "[ex_big_coin]"
      "(ex_init_world [])\<lparr>sign_answers := replicate 999 (Inr 77),
        exec_answers := replicate 999 (Inr (Some ex_pair_effects))\<rparr>"]
  show ?thesis
    by (simp only: ex_answers_def) (simp add: ex_init_world_def ex_long_env_def)
qed

end
