(* ===== verification/Init_Split.thy ===== *)
theory Init_Split
  imports Init_Termination
begin

text \<open>
  The splitting of the coins as a function. When the node executes the splits that it is asked for, the
  queue of the initializer computes a list of small coins from the effects, in the order in which the
  model runs the tasks; what these coins are worth and the gas that was paid add up to what was split.
\<close>

section \<open>The splits as a function\<close>

text \<open>The coins the initializer writes down after a split with the given effects.\<close>

definition pieces :: "('addr, 'id) coin_split_env \<Rightarrow> ('id, 'dg) gas_coin \<Rightarrow> ('id, 'dg) tx_effects \<Rightarrow>
    ('id, 'dg) gas_coin list"
where
  "pieces env coin e =
     (let n = split_count env coin; b = (balance coin - gas_cost_per_object env * n) div n
      in map (\<lambda>r. \<lparr>object_ref = r, balance = b\<rparr>) (created e) @
         [\<lparr>object_ref = gas_object e, balance = (balance coin - b * (n - 1)) - net_gas_usage e\<rparr>])"

definition small_of :: "('addr, 'id) coin_split_env \<Rightarrow> ('id, 'dg) gas_coin list \<Rightarrow> ('id, 'dg) gas_coin list" where
  "small_of env = filter (small env)"

definition large_of :: "('addr, 'id) coin_split_env \<Rightarrow> ('id, 'dg) gas_coin list \<Rightarrow> ('id, 'dg) gas_coin list" where
  "large_of env = filter (\<lambda>c. \<not> small env c)"

text \<open>
  The small coins that come out of the queue when the splits have the effects \<open>es\<close>, and the gas that
  was paid for them; \<open>honest\<close> says that the effects are those of the splits that were asked for.
\<close>

fun split_results ::
  "('addr, 'id) coin_split_env \<Rightarrow> ('id, 'dg) tx_effects list \<Rightarrow> ('id, 'dg) gas_coin list \<Rightarrow>
     ('id, 'dg) gas_coin list"
where
  "split_results env (e # es) (c # q) =
     small_of env (pieces env c e) @ split_results env es (q @ large_of env (pieces env c e))"
| "split_results env es q = []"

fun gas_paid ::
  "('addr, 'id) coin_split_env \<Rightarrow> ('id, 'dg) tx_effects list \<Rightarrow> ('id, 'dg) gas_coin list \<Rightarrow> int"
where
  "gas_paid env (e # es) (c # q) =
     uint (net_gas_usage e) + gas_paid env es (q @ large_of env (pieces env c e))"
| "gas_paid env es q = 0"

definition honest_split :: "('addr, 'id) coin_split_env \<Rightarrow> ('id, 'dg) gas_coin \<Rightarrow> ('id, 'dg) tx_effects \<Rightarrow> bool" where
  "honest_split env coin e \<longleftrightarrow> status_ok e \<and>
     length (created e) + 1 = unat (split_count env coin) \<and>
     net_gas_usage e \<le> gas_cost_per_object env * split_count env coin"

fun honest ::
  "('addr, 'id) coin_split_env \<Rightarrow> ('id, 'dg) tx_effects list \<Rightarrow> ('id, 'dg) gas_coin list \<Rightarrow> bool"
where
  "honest env (e # es) (c # q) \<longleftrightarrow> honest_split env c e \<and> honest env es (q @ large_of env (pieces env c e))"
| "honest env [] [] \<longleftrightarrow> True"
| "honest env es q \<longleftrightarrow> False"

section \<open>What a split does\<close>

lemma enqueue_all_run:
  "enqueue_all env cs w = (Ok (small_of env cs), w\<lparr>task_queue := task_queue w @ large_of env cs\<rparr>)"
proof -
  have "\<exists>rs. pmap (enqueue_task env) cs w = (Ok rs, w\<lparr>task_queue := task_queue w @ large_of env cs\<rparr>) \<and>
      somes rs = small_of env cs"
  proof (induction cs arbitrary: w)
    case Nil
    show ?case by (simp add: large_of_def small_of_def)
  next
    case (Cons c cs)
    show ?case
    proof (cases "small env c")
      case True
      then show ?thesis using Cons.IH [of w]
        by (auto simp: enqueue_task_def small_def small_of_def large_of_def)
    next
      case False
      then show ?thesis using Cons.IH [of "w\<lparr>task_queue := task_queue w @ [c]\<rparr>"]
        by (auto simp: enqueue_task_def small_def small_of_def large_of_def)
    qed
  qed
  then show ?thesis by (auto simp: enqueue_all_def)
qed

lemma split_one_run:
  assumes "env_ok env" and "\<not> small env coin" and "0 < split_fuel env"
    and "exec_answers w = Inr (Some e) # ea" and "sign_answers w = Inr s # sa" and "status_ok e"
  shows "\<exists>cs n. split_one_gas_coin env coin w = (Ok (small_of env (pieces env coin e)),
    w\<lparr>sign_answers := sa, calls := cs, exec_answers := ea,
      task_queue := task_queue w @ large_of env (pieces env coin e), total_coin_count := n\<rparr>)"
proof -
  let ?n = "split_count env coin" and ?g = "gas_cost_per_object env"
  have share: "object_share env \<noteq> 0" "?n \<noteq> 0"
    using split_count_nat [OF assms(1,2)] share_nat [OF assms(1)] assms(1)
    by (auto simp: env_ok_def word_less_nat_alt)
  obtain cs where loop: "split_loop (split_fuel env) env ?n (?g * ?n) coin w = (Ok (coin, e),
      w\<lparr>sign_answers := sa, calls := cs, exec_answers := ea\<rparr>)"
    using assms(3-6)
    by (auto simp: split_loop_step retry_forever_step client_execute_transaction_def
        retry_with_max_attempts_step ask_def api_defs Let_def)
  define b where "b = (balance coin - ?g * ?n) div ?n"
  define ps where "ps = map (\<lambda>r. \<lparr>object_ref = r, balance = b\<rparr>) (created e)"
  define c where "c = \<lparr>object_ref = gas_object e, balance = (balance coin - b * (?n - 1)) - net_gas_usage e\<rparr>"
  have "split_one_gas_coin env coin w = (Ok (small_of env ps @ small_of env [c]),
      w\<lparr>sign_answers := sa, calls := cs, exec_answers := ea,
        task_queue := (task_queue w @ large_of env ps) @ large_of env [c],
        total_coin_count := total_coin_count w + (of_nat (length (small_of env ps @ small_of env [c])) - 1)\<rparr>)"
    using share loop
    by (simp add: split_one_gas_coin_def split_count_def [symmetric] Let_def enqueue_all_run
        b_def [symmetric] ps_def [symmetric] c_def [symmetric] increment_total_coin_count_by_def)
  moreover have "pieces env coin e = ps @ [c]"
    by (simp add: pieces_def Let_def b_def ps_def c_def)
  ultimately show ?thesis by (auto simp: small_of_def large_of_def)
qed

lemma run_tasks_run:
  "env_ok env \<Longrightarrow> 0 < split_fuel env \<Longrightarrow> honest env es (task_queue w) \<Longrightarrow> all_large env (task_queue w) \<Longrightarrow>
     exec_answers w = map (Inr \<circ> Some) es @ xs \<Longrightarrow> sign_answers w = map Inr sigs @ ss \<Longrightarrow>
     length sigs = length es \<Longrightarrow> length es < m \<Longrightarrow>
     \<exists>cs n. run_tasks m env result w = (Ok (result @ split_results env es (task_queue w)),
       w\<lparr>exec_answers := xs, sign_answers := ss, calls := cs, total_coin_count := n, task_queue := []\<rparr>)"
proof (induction env es "task_queue w" arbitrary: m result w sigs rule: honest.induct)
  case (1 env e es c q)
  obtain m' where m: "m = Suc m'" "length es < m'" using 1(10) by (cases m) auto
  obtain s sigs' where s: "sigs = s # sigs'" "length sigs' = length es" using 1(9) by (cases sigs) auto
  let ?w = "w\<lparr>task_queue := q\<rparr>" and ?ps = "pieces env c e"
  note q = 1(2) [symmetric]
  have big: "\<not> small env c" "all_large env (q @ large_of env ?ps)"
    using 1(6) by (auto simp: q all_large_def large_of_def list_all_iff)
  have ok: "status_ok e" "honest env es (q @ large_of env ?ps)"
    using 1(5) by (simp_all add: q honest_split_def)
  obtain cs n where step: "split_one_gas_coin env c ?w = (Ok (small_of env ?ps),
      ?w\<lparr>sign_answers := map Inr sigs' @ ss, calls := cs, exec_answers := map (Inr \<circ> Some) es @ xs,
        task_queue := task_queue ?w @ large_of env ?ps, total_coin_count := n\<rparr>)"
    using split_one_run [OF 1(3) big(1) 1(4), of ?w e "map (Inr \<circ> Some) es @ xs" s "map Inr sigs' @ ss"]
      1(7,8) s(1) ok(1)
    by auto
  let ?w1 = "w\<lparr>sign_answers := map Inr sigs' @ ss, calls := cs, exec_answers := map (Inr \<circ> Some) es @ xs,
        task_queue := q @ large_of env ?ps, total_coin_count := n\<rparr>"
  have "\<exists>cs n. run_tasks m' env (result @ small_of env ?ps) ?w1 =
      (Ok ((result @ small_of env ?ps) @ split_results env es (task_queue ?w1)),
       ?w1\<lparr>exec_answers := xs, sign_answers := ss, calls := cs, total_coin_count := n, task_queue := []\<rparr>)"
    by (rule 1(1)) (use 1(3,4) ok big s m in simp_all)
  then show ?case
    using step by (simp add: m q)
next
  case (2 env)
  have empty: "task_queue w = []" using 2(1) by (rule sym)
  have rest: "exec_answers w = xs" "sign_answers w = ss" using 2(6-8) by simp_all
  have "w\<lparr>exec_answers := exec_answers w, sign_answers := sign_answers w, task_queue := task_queue w\<rparr> = w"
    by simp
  then have same: "w\<lparr>exec_answers := xs, sign_answers := ss, task_queue := []\<rparr> = w"
    unfolding rest empty .
  have "run_tasks m env result w = (Ok result, w)" using empty 2(9) by (cases m) auto
  then show ?case
    by (intro exI [of _ "calls w"] exI [of _ "total_coin_count w"]) (simp add: same empty)
qed (simp_all add: eq_commute [of "[]"] eq_commute [of "_ # _"])

section \<open>What a split is worth\<close>

lemma bal_sum_nat: "bal_sum cs = int (sum_list (map (\<lambda>c. unat (balance c)) cs))"
  by (induction cs) simp_all

lemma bal_sum_filter: "bal_sum (small_of env cs) + bal_sum (large_of env cs) = bal_sum cs"
  by (induction cs) (simp_all add: small_of_def large_of_def)

lemma large_all [simp]: "all_large env (large_of env cs)"
  by (simp add: all_large_def large_of_def list_all_iff)

lemma all_large_append [simp]: "all_large env (cs @ ds) \<longleftrightarrow> all_large env cs \<and> all_large env ds"
  by (simp add: all_large_def)

lemma pieces_worth:
  assumes env: "env_ok env" and big: "\<not> small env coin" and honest: "honest_split env coin e"
  shows "bal_sum (pieces env coin e) + uint (net_gas_usage e) = uint (balance coin)"
    and "\<forall>c \<in> set (pieces env coin e). 0 < balance c"
proof -
  define n g where "n = split_count env coin" and "g = gas_cost_per_object env"
  define b where "b = (balance coin - g * n) div n"
  note amounts = split_amounts [OF env big, folded n_def g_def, folded b_def]
  have e: "length (created e) + 1 = unat n" "unat (net_gas_usage e) \<le> unat g * unat n"
    using honest amounts(4) by (simp_all add: honest_split_def n_def g_def word_le_nat_alt)
  have len: "length (created e) = unat n - 1" "length (created e) < unat n" using e(1) by simp_all
  note worth = pieces_lose_value [OF amounts(1-3,5) len(2) e(2)]
  define r where "r = balance coin - b * (n - 1) - net_gas_usage e"
  have r: "unat r = unat (balance coin) - unat b * (unat n - 1) - unat (net_gas_usage e)"
    using worth(1) amounts(7) by (simp add: r_def unat_sub word_le_nat_alt)
  have shape: "pieces env coin e = map (\<lambda>ref. \<lparr>object_ref = ref, balance = b\<rparr>) (created e) @
      [\<lparr>object_ref = gas_object e, balance = r\<rparr>]"
    by (simp add: pieces_def Let_def b_def n_def g_def r_def)
  have "sum_list (map (\<lambda>c. unat (balance c)) (pieces env coin e)) = length (created e) * unat b + unat r"
    unfolding shape by (simp add: comp_def sum_list_triv)
  also have "\<dots> = unat (balance coin) - unat (net_gas_usage e)"
    using worth(1) unfolding r len(1) mult.commute [of "unat n - 1"] by linarith
  finally have "sum_list (map (\<lambda>c. unat (balance c)) (pieces env coin e)) + unat (net_gas_usage e) =
      unat (balance coin)"
    using worth(1) by linarith
  then show "bal_sum (pieces env coin e) + uint (net_gas_usage e) = uint (balance coin)"
    unfolding bal_sum_nat uint_nat by linarith
  have "0 < b" using worth(2) by (simp add: word_less_nat_alt)
  moreover have "0 < r" using worth(1,2) by (simp add: word_less_nat_alt r)
  ultimately show "\<forall>c \<in> set (pieces env coin e). 0 < balance c" by (auto simp: shape)
qed

lemma split_results_worth:
  "env_ok env \<Longrightarrow> honest env es q \<Longrightarrow> all_large env q \<Longrightarrow>
     bal_sum (split_results env es q) + gas_paid env es q = bal_sum q \<and>
     (\<forall>c \<in> set (split_results env es q). 0 < balance c) \<and> list_all (small env) (split_results env es q) \<and>
     0 \<le> gas_paid env es q"
proof (induction env es q rule: honest.induct)
  case (1 env e es c q)
  have big: "\<not> small env c" "all_large env (q @ large_of env (pieces env c e))"
    using "1.prems"(3) all_large_append [of env q] large_all by (auto simp: all_large_def)
  have ok: "honest_split env c e" "honest env es (q @ large_of env (pieces env c e))"
    using "1.prems"(2) by simp_all
  note worth = pieces_worth [OF "1.prems"(1) big(1) ok(1)]
  from "1.IH" [OF "1.prems"(1) ok(2) big(2)] worth(1) bal_sum_filter [of env "pieces env c e"] worth(2)
  show ?case by (auto simp: small_of_def list_all_iff)
qed (simp_all add: all_large_def)

text \<open>Coins with a positive balance are no more than they are worth.\<close>

lemma length_le_worth: "\<forall>c \<in> set cs. 0 < balance c \<Longrightarrow> int (length cs) \<le> bal_sum cs"
proof (induction cs)
  case (Cons c cs)
  then have "1 \<le> uint (balance c)" by (simp add: word_less_def)
  with Cons show ?case by simp
qed simp

text \<open>What the pool receives.\<close>

definition init_coins ::
  "('addr, 'id) coin_split_env \<Rightarrow> ('id, 'dg) tx_effects list \<Rightarrow> ('id, 'dg) gas_coin list \<Rightarrow>
     ('id, 'dg) gas_coin list"
where
  "init_coins env es coins = small_of env coins @ split_results env es (large_of env coins)"

lemma init_coins_worth:
  assumes "env_ok env" and "honest env es (large_of env coins)"
  shows "bal_sum (init_coins env es coins) + gas_paid env es (large_of env coins) = bal_sum coins"
    and "list_all (small env) (init_coins env es coins)"
    and "bal_sum (init_coins env es coins) \<le> bal_sum coins"
    and "int (length (init_coins env es coins)) \<le> int (length coins) + bal_sum coins"
proof -
  note worth = split_results_worth [OF assms large_all]
  then show sum: "bal_sum (init_coins env es coins) + gas_paid env es (large_of env coins) = bal_sum coins"
    using bal_sum_filter [of env coins] by (simp add: init_coins_def)
  show "list_all (small env) (init_coins env es coins)"
    using worth by (auto simp: init_coins_def small_of_def list_all_iff)
  show "bal_sum (init_coins env es coins) \<le> bal_sum coins" using worth sum by simp
  have "int (length (split_results env es (large_of env coins))) \<le> bal_sum coins"
    using length_le_worth [of "split_results env es (large_of env coins)"] worth bal_sum_filter [of env coins]
      bal_sum_nonneg [of "small_of env coins"] by (simp del: bal_sum_nonneg)
  moreover have "length (small_of env coins) \<le> length coins" by (simp add: small_of_def)
  ultimately show "int (length (init_coins env es coins)) \<le> int (length coins) + bal_sum coins"
    by (simp add: init_coins_def)
qed

end
