(* ===== verification/Init_Pool.thy ===== *)
theory Init_Pool
  imports Init_Split Redis_Tests
begin

text \<open>
  The initializer as a whole. Against a node that answers, a run of \<open>run_once\<close> is a function of what
  the node answers: the coins it listed, the price and the cost, and the effects of the splits. The pool
  receives exactly the coins this function computes, and the init lock is free afterwards. \<open>served\<close> says
  that the node answers, \<open>outside\<close> and \<open>undisturbed\<close> what requests to Redis leave alone.
\<close>

section \<open>The answers of the node\<close>

definition answers :: "('addr, 'id, 'dg, 'sig, 'z) node_world_scheme \<Rightarrow>
    (error + ('id, 'dg) coin_page) list \<times> (error + u64) list \<times> (error + u64) list \<times>
    (error + ('id, 'dg) tx_effects option) list \<times> (error + 'sig) list"
where
  "answers w = (coin_answers w, price_answers w, inspect_answers w, exec_answers w, sign_answers w)"

lemma in_state_node [simp]:
  "in_state C self t p (w\<lparr>calls := cs\<rparr>) = in_state C self t p w"
  "in_state C self t p (w\<lparr>coin_answers := a1\<rparr>) = in_state C self t p w"
  "in_state C self t p (w\<lparr>price_answers := a2\<rparr>) = in_state C self t p w"
  "in_state C self t p (w\<lparr>inspect_answers := a2\<rparr>) = in_state C self t p w"
  "in_state C self t p (w\<lparr>exec_answers := a3\<rparr>) = in_state C self t p w"
  "in_state C self t p (w\<lparr>sign_answers := a4\<rparr>) = in_state C self t p w"
  "in_state C self t p (w\<lparr>object_answers := a5\<rparr>) = in_state C self t p w"
  for w :: "('addr, 'id, 'dg, 'sig, 'z) node_world_scheme"
  by (simp_all add: in_state_def quiet_def)

lemma in_state_station [simp]:
  "in_state C self t p (w\<lparr>usage_cap := c\<rparr>) = in_state C self t p w"
  "in_state C self t p (w\<lparr>dates := ds\<rparr>) = in_state C self t p w"
  "in_state C self t p (w\<lparr>rescan := r\<rparr>) = in_state C self t p w"
  for w :: "('addr, 'id, 'dg, 'sig, 'z) station_world_scheme"
  by (simp_all add: in_state_def quiet_def)

lemma in_state_init [simp]:
  "in_state C self t p (w\<lparr>task_queue := q\<rparr>) = in_state C self t p w"
  "in_state C self t p (w\<lparr>total_coin_count := n\<rparr>) = in_state C self t p w"
  for w :: "('addr, 'id, 'dg, 'sig, 'z) init_world_scheme"
  by (simp_all add: in_state_def quiet_def)

text \<open>
  What requests to Redis leave alone: the services, the usage cap and the channel of the rescan
  trigger; and, for requests other than adding coins and cleaning up, the mark that says that the
  registry was initialised.
\<close>

definition outside where
  "outside w = (answers w, object_answers w, usage_cap w, dates w, rescan w)"

definition undisturbed ::
  "redis_storage \<Rightarrow> ('addr, 'id, 'dg, 'sig, 'z) station_world_scheme \<Rightarrow>
     ('addr, 'id, 'dg, 'sig, 'z) station_world_scheme \<Rightarrow> bool"
where
  "undisturbed self w w' \<longleftrightarrow> outside w' = outside w \<and> initialized self w' = initialized self w"

lemma undisturbed_refl [simp]: "undisturbed self w w"
  by (simp add: undisturbed_def)

lemma keeps_outside [keeps_rules]:
  "keeps (\<lambda>w. outside w = a) (invoke s)" "keeps (\<lambda>w. outside w = a) (emit m)"
  "keeps (\<lambda>w. outside w = a) utc_now_ms"
  by (intro keeps_rules; simp add: outside_def answers_def)+

lemma keeps_outside_storage:
  "keeps (\<lambda>w. outside w = a) (add_new_coins C self cs)"
  "keeps (\<lambda>w. outside w = a) (clean_up_coin_registry batches self)"
  "keeps (\<lambda>w. outside w = a) (init_coin_stats_at_startup self)"
  unfolding add_new_coins_def clean_up_coin_registry_def init_coin_stats_at_startup_def
    script_manager_defs publish_pool_gauges_def Let_def
  by (intro keeps_rules keeps_outside)+

lemma keeps_undisturbed_invoke:
  assumes "within K s" and "k_initialized (namespace self) \<notin> K"
  shows "keeps (undisturbed self w0) (invoke s)"
proof (rule keepsI)
  fix w assume w: "undisturbed self w0 w"
  have "outside (snd (invoke s w)) = outside w"
    using keeps_outside(1) [of "outside w" s] unfolding keeps_def by blast
  moreover have "keys (snd (invoke s w)) (k_initialized (namespace self)) = keys w (k_initialized (namespace self))"
    using invoke_db [of s w] assms unfolding within_def by (metis insertE singletonD)
  ultimately show "undisturbed self w0 (snd (invoke s w))"
    using w by (simp add: undisturbed_def initialized_def)
qed

lemma keeps_undisturbed_now: "keeps (undisturbed self w0) utc_now_sec"
  unfolding utc_now_sec_def
  by (intro keeps_rules) (simp add: undisturbed_def outside_def answers_def initialized_def)

lemma keeps_undisturbed_locks:
  "keeps (undisturbed self w0) (acquire_init_lock self d)"
  "keeps (undisturbed self w0) (release_init_lock self)"
  "keeps (undisturbed self w0) (acquire_maintenance_lock self d)"
  "keeps (undisturbed self w0) (release_maintenance_lock self)"
proof -
  let ?ns = "namespace self"
  have init: "within {k_init_lock ?ns} (acquire_init_lock_lua ?ns now d')"
    "within {k_init_lock ?ns} (release_init_lock_lua ?ns)"
    "within {k_maintenance ?ns} (acquire_maintenance_lock_lua ?ns now d')"
    "within {k_maintenance ?ns} (release_maintenance_lock_lua ?ns)" for now d'
    by (auto simp: acquire_init_lock_lua_def release_init_lock_lua_def acquire_maintenance_lock_lua_def
        release_maintenance_lock_lua_def acquire_lock_def lock_time_def simp del: sbind_apply sseq_apply
        intro!: within_rules)
  note invokes = init [THEN keeps_undisturbed_invoke [of _ _ self w0]]
  show "keeps (undisturbed self w0) (acquire_init_lock self d)"
    "keeps (undisturbed self w0) (release_init_lock self)"
    "keeps (undisturbed self w0) (acquire_maintenance_lock self d)"
    "keeps (undisturbed self w0) (release_maintenance_lock self)"
    unfolding acquire_init_lock_def release_init_lock_def acquire_maintenance_lock_def
      release_maintenance_lock_def script_manager_defs
    by (intro keeps_rules keeps_undisturbed_now invokes; simp)+
qed

section \<open>Requests that are answered\<close>

lemma wp_ask:
  "get w = Inr a # as \<Longrightarrow> Q a (put as (w\<lparr>calls := calls w @ [c]\<rparr>)) \<Longrightarrow> wp (ask c get put) Q w"
  by (simp add: wp_def ask_def)

lemma wp_retry_forever: "0 < n \<Longrightarrow> wp m Q w \<Longrightarrow> wp (retry_forever n m) Q w"
  by (cases n) (auto simp: wp_def split: prod.splits result.splits)

lemma wp_retry_max: "wp m Q w \<Longrightarrow> wp (retry_with_max_attempts m n) Q w"
  by (cases n) (auto simp: wp_def split: prod.splits result.splits)

lemma wp_ptry: "wp m (\<lambda>a. Q (Inr a)) w \<Longrightarrow> wp (ptry m) Q w"
  by (auto simp: wp_def split: prod.splits result.splits)

text \<open>The pages of a listing: each but the last one says that there is another.\<close>

fun whole_listing :: "('id, 'dg) coin_page list \<Rightarrow> bool" where
  "whole_listing [] \<longleftrightarrow> False"
| "whole_listing [p] \<longleftrightarrow> \<not> has_next_page p"
| "whole_listing (p # ps) \<longleftrightarrow> has_next_page p \<and> whole_listing ps"

definition listed :: "u64 \<Rightarrow> ('id, 'dg) coin_page list \<Rightarrow> ('id, 'dg) gas_coin list" where
  "listed threshold ps = filter (\<lambda>c. threshold \<le> balance c) (concat (map page_data ps))"

lemma wp_owned_loop:
  assumes "whole_listing ps" and "coin_answers w = map Inr ps @ later" and "length ps \<le> n" and "0 < rounds"
    and "\<And>cs. Q (coins @ listed threshold ps) (w\<lparr>calls := cs, coin_answers := later\<rparr>)"
  shows "wp (owned_loop n rounds address threshold cursor coins) Q w"
  using assms
proof (induction ps arbitrary: n cursor coins w rule: whole_listing.induct)
  case 1
  then show ?case by simp
next
  case (2 p)
  then obtain m where n: "n = Suc m" by (cases n) auto
  show ?case
    unfolding n owned_loop.simps(2) [abs_def] wp_pbind api_get_coins_def
    by (rule wp_retry_forever [OF "2.prems"(4)], rule wp_ask, use "2.prems" in simp)
      (use "2.prems" in \<open>simp add: listed_def Let_def\<close>)
next
  case (3 p p' ps)
  then obtain m where n: "n = Suc m" by (cases n) auto
  show ?case
    unfolding n owned_loop.simps(2) [abs_def] wp_pbind api_get_coins_def
    by (rule wp_retry_forever [OF "3.prems"(4)], rule wp_ask, use "3.prems" in simp)
      (use "3.prems" n in \<open>auto simp: listed_def Let_def intro!: "3.IH"\<close>)
qed

lemma wp_stats_loop:
  assumes "whole_listing ps" and "coin_answers w = map Inr ps @ later" and "length ps \<le> n"
    and "\<And>cs a. Q a (w\<lparr>calls := cs, coin_answers := later\<rparr>)"
  shows "wp (stats_loop n address cursor c b) Q w"
  using assms
proof (induction ps arbitrary: n cursor c b w rule: whole_listing.induct)
  case 1
  then show ?case by simp
next
  case (2 p)
  then obtain m where n: "n = Suc m" by (cases n) auto
  show ?case
    unfolding n stats_loop.simps(2) [abs_def] wp_pbind api_get_coins_def
    by (rule wp_retry_max, rule wp_ask, use "2.prems" in simp) (use "2.prems" in \<open>simp add: Let_def\<close>)
next
  case (3 p p' ps)
  then obtain m where n: "n = Suc m" by (cases n) auto
  show ?case
    unfolding n stats_loop.simps(2) [abs_def] wp_pbind api_get_coins_def
    by (rule wp_retry_max, rule wp_ask, use "3.prems" in simp)
      (use "3.prems" n in \<open>auto simp: Let_def intro!: "3.IH"\<close>)
qed

section \<open>Requests to Redis\<close>

lemma wp_pmap [simp]:
  "wp (pmap f []) Q w = Q [] w"
  "wp (pmap f (x # xs)) Q w = wp (f x) (\<lambda>y. wp (pmap f xs) (\<lambda>ys. Q (y # ys))) w"
  by (auto simp: wp_def split: prod.splits result.splits)

lemma wp_release_init:
  fixes w :: "('addr, 'id, 'dg, 'sig, 'z) station_world_scheme"
  assumes "in_state C self t p w"
    and "\<And>w'. in_state C self t (p\<lparr>init_lock := Some 0\<rparr>) w' \<Longrightarrow> undisturbed self w w' \<Longrightarrow> Q () w'"
  shows "wp (release_init_lock self) Q w"
proof (rule wp_also [OF _ keeps_undisturbed_locks(2) undisturbed_refl])
  let ?s = "release_init_lock_lua (namespace self)"
  have w: "quiet t w" "pool_rel C (namespace self) (keys w) p" "pool_inv p"
    using assms(1) by (simp_all add: in_state_def)
  have "?s (keys w) = (Inr (), (keys w)(k_init_lock (namespace self) \<mapsto> RString (show_int 0)))"
    by (simp add: release_init_lock_lua_def redis_set_simp)
  from invoke_quiet_Ok [where s = ?s, OF w(1) this] pool_rel_init_lock [OF w(2), of 0] w(1,3)
  show "wp (release_init_lock self) (\<lambda>_. in_state C self t (p\<lparr>init_lock := Some 0\<rparr>)) w"
    by (simp add: release_init_lock_def script_manager_defs in_state_def wp_def pool_inv_def lock_ok_def)
qed (use assms(2) in simp)

lemma wp_acquire_init_lock:
  fixes w :: "('addr, 'id, 'dg, 'sig, 'z) station_world_scheme"
  defines "l \<equiv> \<lambda>t d p. lock_acquire (t div 1000) (uint d) (init_lock p)"
  assumes "in_state C self t p w" and "test_time C latest t" and "uint d \<le> 100000"
    and "\<And>w'. in_state C self t (p\<lparr>init_lock := snd (l t d p)\<rparr>) w' \<Longrightarrow> undisturbed self w w' \<Longrightarrow>
      Q (lock_free (t div 1000) (init_lock p)) w'"
  shows "wp (acquire_init_lock self d) Q w"
proof (rule wp_also [OF _ keeps_undisturbed_locks(1) undisturbed_refl])
  show "wp (acquire_init_lock self d)
      (\<lambda>b w'. b = fst (l t d p) \<and> in_state C self t (p\<lparr>init_lock := snd (l t d p)\<rparr>) w') w"
    by (rule wp_acquire_init [OF assms(2-4)]) (simp_all add: l_def)
qed (use assms(5) in \<open>auto simp: l_def lock_acquire_def split: if_splits\<close>)

lemma wp_acquire_maintenance_lock:
  fixes w :: "('addr, 'id, 'dg, 'sig, 'z) station_world_scheme"
  defines "l \<equiv> \<lambda>t d p. lock_acquire (t div 1000) (uint d) (maintenance p)"
  assumes "in_state C self t p w" and "test_time C latest t" and "uint d \<le> 100000"
    and "\<And>w'. in_state C self t (p\<lparr>maintenance := snd (l t d p)\<rparr>) w' \<Longrightarrow> undisturbed self w w' \<Longrightarrow>
      Q (lock_free (t div 1000) (maintenance p)) w'"
  shows "wp (acquire_maintenance_lock self d) Q w"
proof (rule wp_also [OF _ keeps_undisturbed_locks(3) undisturbed_refl])
  show "wp (acquire_maintenance_lock self d)
      (\<lambda>b w'. b = fst (l t d p) \<and> in_state C self t (p\<lparr>maintenance := snd (l t d p)\<rparr>) w') w"
    by (rule wp_acquire_maintenance [OF assms(2-4)]) (simp_all add: l_def)
qed (use assms(5) in \<open>auto simp: l_def lock_acquire_def split: if_splits\<close>)

lemma wp_release_maintenance_lock:
  fixes w :: "('addr, 'id, 'dg, 'sig, 'z) station_world_scheme"
  assumes "in_state C self t p w"
    and "\<And>w'. in_state C self t (p\<lparr>maintenance := Some 0\<rparr>) w' \<Longrightarrow> undisturbed self w w' \<Longrightarrow> Q () w'"
  shows "wp (release_maintenance_lock self) Q w"
  by (rule wp_also [where R = "\<lambda>_. in_state C self t (p\<lparr>maintenance := Some 0\<rparr>)",
        OF _ keeps_undisturbed_locks(4) undisturbed_refl], rule wp_release_maintenance [OF assms(1)])
    (use assms(2) in auto)

lemma add_pool_lock: "add_pool cs (p\<lparr>init_lock := l\<rparr>) = (add_pool cs p)\<lparr>init_lock := l\<rparr>"
  by (cases p) (simp add: add_pool_def)

lemma wp_add_chunks:
  fixes w :: "('addr, 'id, 'dg, 'sig, 'z) station_world_scheme"
  assumes "in_state C self t p w" and "codec_ok C"
    and "bal_sum (avail p) + bal_sum (concat css) \<le> 2 ^ 53"
    and "int (length (avail p)) + int (length (concat css)) \<le> 2 ^ 53"
    and "\<And>us w'. in_state C self t (add_pool (concat css) p) w' \<Longrightarrow> outside w' = outside w \<Longrightarrow>
      initialized self w' = (initialized self w \<or> concat css \<noteq> []) \<Longrightarrow> Q us w'"
  shows "wp (pmap (\<lambda>chunk. punwrap (add_new_coins C self chunk)) css) Q w"
  using assms
proof (induction css arbitrary: p w Q)
  case Nil
  then show ?case by simp
next
  case (Cons cs css)
  have sums: "bal_sum (avail p) + bal_sum cs \<le> 2 ^ 53" "int (length (avail p)) + int (length cs) \<le> 2 ^ 53"
    using Cons.prems(3,4) bal_sum_nonneg [of "concat css"] by (simp_all del: bal_sum_nonneg)
  show ?case
    unfolding wp_pmap wp_punwrap
  proof (rule wp_also [OF _ keeps_outside_storage(1) refl])
    show "wp (add_new_coins C self cs) (\<lambda>_ w'. in_state C self t (add_pool cs p) w' \<and>
        initialized self w' = (initialized self w \<or> cs \<noteq> [])) w"
      by (rule wp_add [OF Cons.prems(1,2) sums]) simp
  next
    fix u and w1 :: "('addr, 'id, 'dg, 'sig, 'z) station_world_scheme"
    assume "in_state C self t (add_pool cs p) w1 \<and> initialized self w1 = (initialized self w \<or> cs \<noteq> [])"
      "outside w1 = outside w"
    then show "wp (pmap (\<lambda>chunk. punwrap (add_new_coins C self chunk)) css) (\<lambda>ys. Q (u # ys)) w1"
      by (intro Cons.IH [OF _ Cons.prems(2)])
        (use Cons.prems(3-5) in \<open>auto simp: add_pool_append simp del: concat_eq_Nil_conv\<close>)
  qed
qed

section \<open>A run\<close>

text \<open>What the initializer computes with, when the node answers with this price and this cost.\<close>

definition init_env ::
  "('addr, 'id, 'dg) gas_station \<Rightarrow> 'id \<Rightarrow> u64 \<Rightarrow> u64 \<Rightarrow> u64 \<Rightarrow> ('addr, 'id) coin_split_env"
where
  "init_env st framework_id target price spent =
     \<lparr>target_init_coin_balance = target, gas_cost_per_object = spent div 500 * 2,
      sponsor_address = signer_address st, framework = framework_id, rgp = price,
      split_fuel = fuel st\<rparr>"

text \<open>
  The node answers a run: it lists the coins on \<open>pages\<close>, gives a price and the gas of the calibration,
  signs, and executes the splits with the effects \<open>es\<close>, which are those of the splits that are asked
  for; the target is not too small for the cost.
\<close>

definition node_serves ::
  "('addr, 'id, 'dg) gas_station \<Rightarrow> ('addr, 'id) coin_split_env \<Rightarrow> ('id, 'dg) gas_coin list \<Rightarrow>
     ('id, 'dg) tx_effects list \<Rightarrow> bool"
where
  "node_serves st env coins es \<longleftrightarrow>
     \<not> target_init_coin_balance env * 99 \<le> gas_cost_per_object env \<and> env_ok env \<and>
     honest env es (large_of env coins) \<and> length es < fuel st"

definition fits :: "('id, 'dg) pool \<Rightarrow> ('id, 'dg) gas_coin list \<Rightarrow> bool" where
  "fits p coins \<longleftrightarrow> bal_sum (avail p) + bal_sum coins \<le> 2 ^ 53 \<and>
     int (length (avail p)) + int (length coins) + bal_sum coins \<le> 2 ^ 53"

lemma wp_split_gas_coins:
  fixes w :: "('addr, 'id, 'dg, 'sig, 'z) init_world_scheme"
  assumes "env_ok env" and "honest env es (large_of env coins)" and "length es < split_fuel env"
    and "exec_answers w = map (Inr \<circ> Some) es @ xs" and "sign_answers w = map Inr sigs @ ss"
    and "length sigs = length es" and "task_queue w = []"
    and "\<And>cs n. Q (init_coins env es coins)
      (w\<lparr>exec_answers := xs, sign_answers := ss, calls := cs, total_coin_count := n, task_queue := []\<rparr>)"
  shows "wp (split_gas_coins env coins) Q w"
proof -
  let ?w = "w\<lparr>task_queue := large_of env coins\<rparr>"
  have "\<exists>cs n. run_tasks (split_fuel env) env (small_of env coins) ?w =
      (Ok (small_of env coins @ split_results env es (task_queue ?w)),
       ?w\<lparr>exec_answers := xs, sign_answers := ss, calls := cs, total_coin_count := n, task_queue := []\<rparr>)"
    by (rule run_tasks_run) (use assms(1-6) in simp_all)
  then obtain cs n where "run_tasks (split_fuel env) env (small_of env coins) ?w =
      (Ok (init_coins env es coins),
       w\<lparr>exec_answers := xs, sign_answers := ss, calls := cs, total_coin_count := n, task_queue := []\<rparr>)"
    by (auto simp: init_coins_def)
  moreover have "target_init_coin_balance env \<noteq> 0" using assms(1) by (auto simp: env_ok_def)
  ultimately show ?thesis
    using assms(8) by (simp add: split_gas_coins_def wp_def enqueue_all_run assms(7))
qed

lemma wp_price:
  fixes w :: "('addr, 'id, 'dg, 'sig, 'z) node_world_scheme"
  assumes "0 < n" and "price_answers w = Inr price # as"
    and "\<And>cs. Q price (w\<lparr>calls := cs, price_answers := as\<rparr>)"
  shows "wp (get_reference_gas_price n) Q w"
  unfolding get_reference_gas_price_def api_get_price_def
  by (rule wp_retry_forever [OF assms(1)], rule wp_ask, rule assms(2), rule assms(3))

lemma wp_calibrate:
  fixes w :: "('addr, 'id, 'dg, 'sig, 'z) node_world_scheme"
  assumes "0 < n" and "inspect_answers w = Inr spent # as"
    and "\<And>cs. Q (spent div 500 * 2) (w\<lparr>calls := cs, inspect_answers := as\<rparr>)"
  shows "wp (calibrate_gas_cost_per_object n framework_id coin) Q w"
  unfolding calibrate_gas_cost_per_object_def api_dev_inspect_def wp_pbind
  by (rule wp_retry_forever [OF assms(1)], rule wp_ask, rule assms(2), simp add: assms(3))

text \<open>
  \<open>served \<dots> a b\<close>: the answers \<open>a\<close> serve a run, which leaves \<open>b\<close>. They list the coins on \<open>pages\<close>, then
  give the price, the gas of the calibration, and the signatures and effects of the splits.
\<close>

definition served ::
  "('addr, 'id, 'dg) gas_station \<Rightarrow> 'id \<Rightarrow> u64 \<Rightarrow> u64 \<Rightarrow> u64 \<Rightarrow> run_mode \<Rightarrow>
     ('id, 'dg) coin_page list \<Rightarrow> ('id, 'dg) tx_effects list \<Rightarrow>
     (error + ('id, 'dg) coin_page) list \<times> (error + u64) list \<times> (error + u64) list \<times>
       (error + ('id, 'dg) tx_effects option) list \<times> (error + 'sig) list \<Rightarrow>
     (error + ('id, 'dg) coin_page) list \<times> (error + u64) list \<times> (error + u64) list \<times>
       (error + ('id, 'dg) tx_effects option) list \<times> (error + 'sig) list \<Rightarrow> bool"
where
  "served st framework_id target price spent mode pages es a b \<longleftrightarrow>
     whole_listing pages \<and> length pages \<le> fuel st \<and>
     listed (balance_threshold_of mode target) pages \<noteq> [] \<and>
     node_serves st (init_env st framework_id target price spent)
       (listed (balance_threshold_of mode target) pages) es \<and>
     (\<exists>later ps gs xs sigs ss. length sigs = length es \<and>
       a = (map Inr pages @ later, Inr price # ps, Inr spent # gs, map (Inr \<circ> Some) es @ xs, map Inr sigs @ ss) \<and>
       b = (later, ps, gs, xs, ss))"

text \<open>What a run leaves.\<close>

definition ran where
  "ran C self t p cs b w w' \<longleftrightarrow> in_state C self t (add_pool cs (p\<lparr>init_lock := Some 0\<rparr>)) w' \<and>
     answers w' = b \<and> object_answers w' = object_answers w \<and> usage_cap w' = usage_cap w \<and> dates w' = dates w \<and> rescan w' = rescan w \<and>
     initialized self w' = (initialized self w \<or> cs \<noteq> [])"

lemma wp_init_locked:
  fixes w :: "('addr, 'id, 'dg, 'sig, 'z) init_world_scheme"
    and st :: "('addr, 'id, 'dg) gas_station"
  defines "C \<equiv> codec st" and "self \<equiv> gas_station_store st"
  assumes state: "in_state C self t p w" "codec_ok C"
    and env: "env = init_env st framework_id target price spent"
    and coins: "coins = listed (balance_threshold_of mode target) pages"
    and served: "served st framework_id target price spent mode pages es (answers w) b"
    and fits: "fits p coins"
    and post: "\<And>w'. ran C self t p (init_coins env es coins) b w w' \<Longrightarrow> Q () w'"
  shows "wp (init_locked st framework_id mode target) Q w"
proof -
  obtain later ps gs xs sigs ss where node: "length sigs = length es" "coin_answers w = map Inr pages @ later"
    "price_answers w = Inr price # ps" "inspect_answers w = Inr spent # gs"
    "exec_answers w = map (Inr \<circ> Some) es @ xs" "sign_answers w = map Inr sigs @ ss" "b = (later, ps, gs, xs, ss)"
    using served by (auto simp: served_def answers_def)
  have pages: "whole_listing pages" "length pages \<le> fuel st" "coins \<noteq> []" and serves: "node_serves st env coins es"
    using served by (simp_all add: served_def env coins)
  have fuel: "0 < fuel st" using pages by (cases pages) auto
  have env_parts: "target_init_coin_balance env = target" "gas_cost_per_object env = spent div 500 * 2"
    "split_fuel env = fuel st"
    by (simp_all add: env init_env_def)
  have ok: "\<not> target * 99 \<le> spent div 500 * 2" "env_ok env" "honest env es (large_of env coins)"
    "length es < split_fuel env"
    using serves by (simp_all add: node_serves_def env_parts)
  have sums: "bal_sum (avail p) + bal_sum (init_coins env es coins) \<le> 2 ^ 53"
    "int (length (avail p)) + int (length (init_coins env es coins)) \<le> 2 ^ 53"
    using init_coins_worth(3,4) [OF ok(2,3)] fits by (auto simp: fits_def)
  have split: "wp (split_gas_coins env coins) (\<lambda>result. wp (pseq (add_chunks st result)
      (punwrap (release_init_lock self))) Q) w1"
    if w1: "in_state C self t p w1" "task_queue w1 = []"
      "answers w1 = (later, ps, gs, exec_answers w, sign_answers w)" "object_answers w1 = object_answers w"
      "usage_cap w1 = usage_cap w"
      "dates w1 = dates w" "rescan w1 = rescan w" "initialized self w1 = initialized self w"
    for w1 :: "('addr, 'id, 'dg, 'sig, 'z) init_world_scheme"
  proof (rule wp_split_gas_coins [OF ok(2-4) _ _ node(1) w1(2)])
    fix cs n
    let ?w2 = "w1\<lparr>exec_answers := xs, sign_answers := ss, calls := cs, total_coin_count := n, task_queue := []\<rparr>"
    show "wp (pseq (add_chunks st (init_coins env es coins)) (punwrap (release_init_lock self))) Q ?w2"
      unfolding wp_pseq wp_punwrap add_chunks_def C_def [symmetric] self_def [symmetric]
      by (rule wp_add_chunks [OF _ state(2)], use w1(1) in simp, use sums in \<open>simp add: concat_chunks\<close>,
          use sums in \<open>simp add: concat_chunks\<close>, rule wp_release_init, assumption, rule post)
        (use w1(3-8) node(7) in \<open>auto simp: ran_def concat_chunks add_pool_lock undisturbed_def outside_def
          answers_def initialized_def\<close>)
  qed (use w1(3) node in \<open>simp_all add: answers_def\<close>)
  show ?thesis
    unfolding init_locked_def wp_pbind get_all_owned_iota_coins_above_balance_threshold_def
  proof (rule wp_owned_loop [OF pages(1) node(2) pages(2) fuel], unfold append_Nil coins [symmetric], goal_cases)
    case (1 cs)
    show ?case
      unfolding if_not_P [OF pages(3)] wp_pseq wp_pbind wp_pmodify
      by (rule wp_price [OF fuel], simp add: node, rule wp_calibrate [OF fuel], simp add: node)
        (use ok(1) state(1) in \<open>simp add: env [unfolded init_env_def, symmetric] self_def [symmetric] split
          answers_def initialized_def\<close>)
  qed
qed

lemma wp_run_once:
  fixes w :: "('addr, 'id, 'dg, 'sig, 'z) init_world_scheme"
    and st :: "('addr, 'id, 'dg) gas_station"
  defines "C \<equiv> codec st" and "self \<equiv> gas_station_store st"
  assumes state: "in_state C self t p w" "test_time C (latest_ms st) t"
    and lock: "lock_free (t div 1000) (init_lock p) \<or> ignore_locks"
    and env: "env = init_env st framework_id target price spent"
    and coins: "coins = listed (balance_threshold_of mode target) pages"
    and served: "served st framework_id target price spent mode pages es (answers w) b"
    and fits: "fits p coins"
    and post: "\<And>w'. ran C self t p (init_coins env es coins) b w w' \<Longrightarrow> Q () w'"
  shows "wp (run_once st framework_id mode target ignore_locks) Q w"
  unfolding run_once_def wp_pbind self_def [symmetric]
proof (rule wp_acquire_init_lock [OF state])
  let ?p = "p\<lparr>init_lock := snd (lock_acquire (t div 1000) (uint max_init_duration_sec) (init_lock p))\<rparr>"
  fix w1 :: "('addr, 'id, 'dg, 'sig, 'z) init_world_scheme"
  assume w1: "in_state C self t ?p w1" "undisturbed self w w1"
  have "wp (init_locked st framework_id mode target) Q w1"
    by (rule wp_init_locked [OF _ _ env coins], fold C_def self_def, rule w1(1))
      (use state(2) w1(2) served fits in \<open>auto simp: test_time_def fits_def undisturbed_def outside_def ran_def
        intro!: post\<close>)
  then show "wp (if lock_free (t div 1000) (init_lock p) \<or> ignore_locks then init_locked st framework_id mode target
      else perr (Anyhow init_lock_held_message)) Q w1"
    using lock by simp
qed (simp add: max_init_duration_sec_def)

end
