(* ===== verification/Init_Start.thy ===== *)
theory Init_Start
  imports Init_Pool
begin

text \<open>
  The start of the initializer against a node that answers: the first start fills the pool with what
  the splits left of the sponsor's coins, and a full rescan replaces the pool by it.
\<close>

section \<open>The start\<close>

lemma wp_consistency_check:
  fixes w :: "('addr, 'id, 'dg, 'sig, 'z) init_world_scheme"
  assumes "in_state C (gas_station_store st) t p w" and "whole_listing seen" and "length seen \<le> fuel st"
    and "answers w = (map Inr seen @ later, others)"
    and "\<And>r w'. in_state C (gas_station_store st) t p w' \<Longrightarrow> keys w' = keys w \<Longrightarrow>
      outside w' = ((later, others), object_answers w, usage_cap w, dates w, rescan w) \<Longrightarrow> Q r w'"
  shows "wp (perform_consistency_check st) Q w"
  unfolding perform_consistency_check_def wp_pbind
  by (rule wp_ptry, rule wp_count [OF assms(1)], unfold sum.case wp_pbind,
      rule wp_total_balance [OF assms(1)], rule wp_ptry, unfold get_aggregate_coin_stats_def,
      rule wp_stats_loop [OF assms(2) _ assms(3)])
    (use assms(1,4,5) in \<open>auto simp: answers_def outside_def\<close>)

lemma listed_all [simp]: "listed (balance_threshold_of Init target) pages = concat (map page_data pages)"
  by (simp add: listed_def balance_threshold_of_def)

lemma wp_first_start:
  fixes w :: "('addr, 'id, 'dg, 'sig, 'z) init_world_scheme"
    and st :: "('addr, 'id, 'dg) gas_station"
  defines "C \<equiv> codec st" and "self \<equiv> gas_station_store st"
  assumes "in_state C self t p w" and "test_time C (latest_ms st) t" and "\<not> initialized self w"
    and "lock_free (t div 1000) (init_lock p) \<or> ignore_locks"
    and "whole_listing seen" and "length seen \<le> fuel st" and "answers w = (map Inr seen @ later, others)"
    and "served st framework_id target price spent Init pages es (later, others) b"
    and "env = init_env st framework_id target price spent"
    and "coins = concat (map page_data pages)" and "fits p coins"
    and "\<And>w'. ran C self t p (init_coins env es coins) b w w' \<Longrightarrow> Q () w'"
  shows "wp (initializer_start batches st framework_id target False ignore_locks) Q w"
  unfolding initializer_start_def wp_pseq
proof (rule wp_consistency_check [OF assms(3) [unfolded self_def] assms(7-9)], unfold if_False wp_pbind wp_punwrap,
    fold self_def)
  fix w1 :: "('addr, 'id, 'dg, 'sig, 'z) init_world_scheme"
  assume w1: "in_state C self t p w1" "keys w1 = keys w"
    "outside w1 = ((later, others), object_answers w, usage_cap w, dates w, rescan w)"
  have new: "\<not> initialized self w1" using assms(5) w1(2) by (simp add: initialized_def)
  have "wp (ptry (run_once st framework_id Init target ignore_locks)) (\<lambda>result. wp (case result of
        Inl e \<Rightarrow> ppanic (''Initial coin initialization failed: '' @ error_to_string e)
      | Inr u \<Rightarrow> pret ()) Q) w1"
  proof (rule wp_ptry, rule wp_run_once [OF w1(1) [unfolded C_def self_def] assms(4) [unfolded C_def] assms(6,11) _ _ assms(13)])
    show "coins = listed (balance_threshold_of Init target) pages" using assms(12) by simp
    show "served st framework_id target price spent Init pages es (answers w1) b"
      using assms(10) w1(3) by (simp add: outside_def)
  next
    fix w2 :: "('addr, 'id, 'dg, 'sig, 'z) init_world_scheme"
    assume "ran (codec st) (gas_station_store st) t p (init_coins env es coins) b w1 w2"
    then show "wp (case Inr () of
        Inl e \<Rightarrow> ppanic (''Initial coin initialization failed: '' @ error_to_string e)
      | Inr u \<Rightarrow> pret ()) Q w2"
      using w1(3) new assms(5) by (auto simp: ran_def outside_def C_def self_def intro!: assms(14))
  qed
  note once = this
  show "wp (is_initialized self) (\<lambda>initialized. wp (if initialized then pret ()
      else pbind (ptry (run_once st framework_id Init target ignore_locks)) (\<lambda>result. case result of
        Inl e \<Rightarrow> ppanic (''Initial coin initialization failed: '' @ error_to_string e)
      | Inr u \<Rightarrow> pret ())) Q) w1"
    by (rule wp_is_initialized [OF w1(1)], subst if_not_P [OF new], unfold wp_pbind, rule once)
qed

text \<open>C6: the first start fills the pool. A station whose registry was never initialised lists the coins of
  the sponsor, splits the large ones and adds the result: when the node answers, the start ends, the
  pool has received exactly the coins that the splits left, in order, the init lock is free again, all
  the coins are small, and together with the gas that was paid they are worth what the sponsor had.
  No more was asked of the node than the listings, the price, the cost and the splits.\<close>

theorem first_start_fills_pool:
  fixes w :: "('addr, 'id, 'dg, 'sig, 'z) init_world_scheme"
    and st :: "('addr, 'id, 'dg) gas_station"
  assumes "in_state (codec st) (gas_station_store st) t p w" and "test_time (codec st) (latest_ms st) t"
    and "\<not> initialized (gas_station_store st) w"
    and "lock_free (t div 1000) (init_lock p) \<or> ignore_locks"
    and "whole_listing seen" and "length seen \<le> fuel st" and "answers w = (map Inr seen @ later, others)"
    and "served st framework_id target price spent Init pages es (later, others) b"
    and "env = init_env st framework_id target price spent"
    and "coins = concat (map page_data pages)" and "fits p coins" and "added = init_coins env es coins"
  shows "\<exists>w'. initializer_start batches st framework_id target False ignore_locks w = (Ok (), w') \<and>
      in_state (codec st) (gas_station_store st) t (add_pool added (p\<lparr>init_lock := Some 0\<rparr>)) w' \<and>
      answers w' = b \<and>
      bal_sum added + gas_paid env es (large_of env coins) = bal_sum coins \<and> (\<forall>c \<in> set added. small env c)"
proof -
  have honest: "env_ok env" "honest env es (large_of env coins)"
    using assms(8-10) by (simp_all add: served_def node_serves_def)
  have "wp (initializer_start batches st framework_id target False ignore_locks)
      (\<lambda>_ w'. ran (codec st) (gas_station_store st) t p added b w w') w"
    by (rule wp_first_start [OF assms(1-11)]) (simp add: assms(12))
  then obtain w' where "initializer_start batches st framework_id target False ignore_locks w = (Ok (), w')"
    "ran (codec st) (gas_station_store st) t p added b w w'"
    by (auto simp: wp_def split: prod.splits result.splits)
  then show ?thesis
    using init_coins_worth(1,2) [OF honest] assms(12) by (auto simp: list_all_iff ran_def)
qed

section \<open>A full rescan\<close>

text \<open>Taking the maintenance lock writes one key.\<close>

lemma keeps_confined_acquire:
  assumes "k_maintenance (namespace self) \<in> K"
  shows "keeps (confined K) (acquire_maintenance_lock self d)"
proof -
  have "within K (acquire_maintenance_lock_lua (namespace self) now d')" for now d'
    using assms by (auto simp: acquire_maintenance_lock_lua_def acquire_lock_def lock_time_def
        simp del: sbind_apply sseq_apply intro!: within_rules)
  then show ?thesis
    unfolding acquire_maintenance_lock_def script_manager_defs
    by (intro keeps_rules keeps_confined_invoke keeps_confined_basic)
qed

lemma scan_after_lock:
  assumes "scan_complete ns (db(k_maintenance ns \<mapsto> v)) batches"
    and "confined (insert (k_maintenance ns) (dom db)) w"
  shows "scan_complete ns (keys w) batches"
proof -
  have "dom (keys w) \<subseteq> dom (db(k_maintenance ns \<mapsto> v))"
  proof
    fix k assume "k \<in> dom (keys w)"
    then have "k \<in> insert (k_maintenance ns) (dom db)"
      using assms(2) unfolding confined_def by (metis domIff)
    then show "k \<in> dom (db(k_maintenance ns \<mapsto> v))" by simp
  qed
  with assms(1) show ?thesis unfolding scan_complete_def by blast
qed

lemma wp_acquire_rescan:
  fixes w :: "('addr, 'id, 'dg, 'sig, 'z) station_world_scheme"
  defines "l \<equiv> \<lambda>t p. lock_acquire (t div 1000) (uint max_maintenance_duration_sec) (maintenance p)"
  assumes "in_state C self t p w" and "test_time C latest t"
    and "scan_complete (namespace self) ((keys w)(k_maintenance (namespace self) \<mapsto> v)) batches"
    and "\<And>w'. in_state C self t (p\<lparr>maintenance := snd (l t p)\<rparr>) w' \<Longrightarrow> undisturbed self w w' \<Longrightarrow>
      scan_complete (namespace self) (keys w') batches \<Longrightarrow> Q (lock_free (t div 1000) (maintenance p)) w'"
  shows "wp (acquire_maintenance_lock self max_maintenance_duration_sec) Q w"
proof (rule wp_also [OF _ keeps_confined_acquire])
  show "wp (acquire_maintenance_lock self max_maintenance_duration_sec)
      (\<lambda>b w'. b = lock_free (t div 1000) (maintenance p) \<and>
        in_state C self t (p\<lparr>maintenance := snd (l t p)\<rparr>) w' \<and> undisturbed self w w') w"
    by (rule wp_acquire_maintenance_lock [OF assms(2,3)]) (simp_all add: l_def max_maintenance_duration_sec_def)
  show "confined (insert (k_maintenance (namespace self)) (dom (keys w))) w"
    by (auto simp: confined_def)
qed (use assms(5) scan_after_lock [OF assms(4)] in auto)

text \<open>Cleaning up and starting again with an empty pool.\<close>

lemma wp_clean_and_restart:
  fixes w :: "('addr, 'id, 'dg, 'sig, 'z) station_world_scheme"
  defines "emptied \<equiv> \<lambda>p. empty_pool\<lparr>maintenance := maintenance p, init_lock := init_lock p\<rparr>"
  assumes "in_state C self t p w" and "codec_ok C" and "scan_complete (namespace self) (keys w) batches"
    and "\<And>r w'. in_state C self t (emptied p) w' \<Longrightarrow> outside w' = outside w \<Longrightarrow> Q r w'"
  shows "wp (pseq (clean_up_coin_registry batches self) (init_coin_stats_at_startup self)) Q w"
  unfolding wp_pseq
proof (rule wp_also [OF _ keeps_outside_storage(2) refl])
  have same: "clean_up (\<lambda>_. batches) self = clean_up_coin_registry batches self"
    by (rule ext) (simp add: clean_up_def)
  show "wp (clean_up_coin_registry batches self) (\<lambda>_. fresh_state C self t (emptied p)) w"
    unfolding same [symmetric] emptied_def by (rule wp_clean_up [OF assms(2)]) (use assms(4) in simp_all)
next
  fix u and w1 :: "('addr, 'id, 'dg, 'sig, 'z) station_world_scheme"
  assume w1: "fresh_state C self t (emptied p) w1" "outside w1 = outside w"
  show "wp (init_coin_stats_at_startup self) Q w1"
  proof (rule wp_also [OF _ keeps_outside_storage(3) refl])
    show "wp (init_coin_stats_at_startup self) (\<lambda>_. in_state C self t (emptied p)) w1"
      by (rule wp_init_stats [of t _ C _ "emptied p"]) (use w1(1) assms(3) in \<open>auto simp: fresh_state_def\<close>)
  qed (use assms(5) w1(2) in auto)
qed

text \<open>What a rescan leaves.\<close>

definition rescanned where
  "rescanned C self t cs b w w' \<longleftrightarrow>
     in_state C self t (add_pool cs (empty_pool\<lparr>maintenance := Some 0, init_lock := Some 0\<rparr>)) w' \<and>
     answers w' = b \<and> object_answers w' = object_answers w \<and> usage_cap w' = usage_cap w \<and> dates w' = dates w \<and> rescan w' = rescan w \<and>
     (cs \<noteq> [] \<longrightarrow> initialized self w')"

lemma wp_rescan_start:
  fixes w :: "('addr, 'id, 'dg, 'sig, 'z) init_world_scheme"
    and st :: "('addr, 'id, 'dg) gas_station"
  defines "C \<equiv> codec st" and "self \<equiv> gas_station_store st"
  assumes "in_state C self t p w" and "test_time C (latest_ms st) t"
    and "lock_free (t div 1000) (maintenance p) \<or> ignore_locks"
    and "lock_free (t div 1000) (init_lock p) \<or> ignore_locks"
    and "scan_complete (namespace self) ((keys w)(k_maintenance (namespace self) \<mapsto> v)) batches"
    and "whole_listing seen" and "length seen \<le> fuel st" and "answers w = (map Inr seen @ later, others)"
    and "served st framework_id target price spent Init pages es (later, others) b"
    and "env = init_env st framework_id target price spent"
    and "coins = concat (map page_data pages)" and "fits empty_pool coins" and "added = init_coins env es coins"
    and "\<And>w'. rescanned C self t added b w w' \<Longrightarrow> Q () w'"
  shows "wp (initializer_start batches st framework_id target True ignore_locks) Q w"
proof -
  have codec: "codec_ok C" using assms(4) by (simp add: test_time_def)
  let ?mid = "\<lambda>l w'. in_state C self t (add_pool added (empty_pool\<lparr>maintenance := l, init_lock := Some 0\<rparr>)) w' \<and>
    outside w' = (b, object_answers w, usage_cap w, dates w, rescan w) \<and> (added \<noteq> [] \<longrightarrow> initialized self w')"
  have rescan: "wp (clean_and_rescan_registry batches st framework_id target ignore_locks) (\<lambda>_. ?mid l) w1"
    if w1: "in_state C self t (p\<lparr>maintenance := l\<rparr>) w1" "scan_complete (namespace self) (keys w1) batches"
      "outside w1 = ((later, others), object_answers w, usage_cap w, dates w, rescan w)"
    for l and w1 :: "('addr, 'id, 'dg, 'sig, 'z) init_world_scheme"
    unfolding clean_and_rescan_registry_def wp_pseq self_def [symmetric]
  proof (rule wp_clean_and_restart [OF w1(1) codec w1(2), unfolded wp_pseq])
    let ?p = "empty_pool\<lparr>maintenance := maintenance (p\<lparr>maintenance := l\<rparr>), init_lock := init_lock (p\<lparr>maintenance := l\<rparr>)\<rparr>"
    fix r and w2 :: "('addr, 'id, 'dg, 'sig, 'z) init_world_scheme"
    assume w2: "in_state C self t ?p w2" "outside w2 = outside w1"
    show "wp (run_once st framework_id Init target ignore_locks) (\<lambda>_. wp (pret ()) (\<lambda>_. ?mid l)) w2"
      by (rule wp_run_once [OF w2(1) [unfolded C_def self_def] assms(4) [unfolded C_def] _ assms(12) refl, where b = b])
        (use assms(6,11,13-15) w1(3) w2(2) in \<open>auto simp: fits_def outside_def ran_def C_def self_def\<close>)
  qed
  have "wp (full_rescan batches st framework_id target ignore_locks) Q w1"
    if w1: "in_state C self t p w1" "keys w1 = keys w" "outside w1 = ((later, others), object_answers w, usage_cap w, dates w, rescan w)"
    for w1 :: "('addr, 'id, 'dg, 'sig, 'z) init_world_scheme"
    unfolding full_rescan_def wp_pbind wp_punwrap self_def [symmetric]
  proof (rule wp_acquire_rescan [OF w1(1) assms(4) assms(7) [folded w1(2)]])
    fix w2 :: "('addr, 'id, 'dg, 'sig, 'z) init_world_scheme"
    let ?l = "snd (lock_acquire (t div 1000) (uint max_maintenance_duration_sec) (maintenance p))"
    assume w2: "in_state C self t (p\<lparr>maintenance := ?l\<rparr>) w2" "undisturbed self w1 w2"
      "scan_complete (namespace self) (keys w2) batches"
    have "wp (ptry (clean_and_rescan_registry batches st framework_id target ignore_locks)) (\<lambda>result.
        wp (pseq (ptry (release_maintenance_lock self)) (case result of
            Inl e \<Rightarrow> ppanic (''Full rescan failed: '' @ error_to_string e) | Inr u \<Rightarrow> pret ())) Q) w2"
    proof (rule wp_ptry, rule wp_mono [OF rescan [OF w2(1,3)]])
      fix u and w3 :: "('addr, 'id, 'dg, 'sig, 'z) init_world_scheme"
      assume w3: "?mid ?l w3"
      show "wp (pseq (ptry (release_maintenance_lock self)) (case Inr u of
            Inl e \<Rightarrow> ppanic (''Full rescan failed: '' @ error_to_string e) | Inr u \<Rightarrow> pret ())) Q w3"
        unfolding wp_pseq
        by (intro wp_ptry, rule wp_release_maintenance_lock [OF conjunct1 [OF w3]])
          (use w3 in \<open>auto simp: add_pool_def empty_pool_def rescanned_def undisturbed_def outside_def
            intro!: assms(16)\<close>)
    qed (use w1(3) w2(2) in \<open>simp add: undisturbed_def\<close>)
    then show "wp (if \<not> lock_free (t div 1000) (maintenance p) \<and> \<not> ignore_locks then ppanic maintenance_held_message
        else pbind (ptry (clean_and_rescan_registry batches st framework_id target ignore_locks)) (\<lambda>result.
          pseq (ptry (release_maintenance_lock self)) (case result of
            Inl e \<Rightarrow> ppanic (''Full rescan failed: '' @ error_to_string e) | Inr u \<Rightarrow> pret ()))) Q w2"
      using assms(5) by auto
  qed
  then show ?thesis
    unfolding initializer_start_def wp_pseq
    by (intro wp_consistency_check [OF assms(3) [unfolded self_def] assms(8-10)]) (simp add: self_def)
qed

text \<open>C7: a full rescan rebuilds the pool from the network. Whatever the pool held, a start that asks for a
  full rescan ends, when the node answers, with a pool that holds exactly the coins the splits left of
  the sponsor's coins: no coin of before, no reservation, and both locks free; together with the gas that
  was paid the coins are worth what the sponsor had.\<close>

theorem full_rescan_rebuilds_pool:
  fixes w :: "('addr, 'id, 'dg, 'sig, 'z) init_world_scheme"
    and st :: "('addr, 'id, 'dg) gas_station"
  assumes "in_state (codec st) (gas_station_store st) t p w" and "test_time (codec st) (latest_ms st) t"
    and "lock_free (t div 1000) (maintenance p) \<or> ignore_locks"
    and "lock_free (t div 1000) (init_lock p) \<or> ignore_locks"
    and "scan_complete (namespace (gas_station_store st))
      ((keys w)(k_maintenance (namespace (gas_station_store st)) \<mapsto> v)) batches"
    and "whole_listing seen" and "length seen \<le> fuel st" and "answers w = (map Inr seen @ later, others)"
    and "served st framework_id target price spent Init pages es (later, others) b"
    and "env = init_env st framework_id target price spent"
    and "coins = concat (map page_data pages)" and "fits empty_pool coins" and "added = init_coins env es coins"
  shows "\<exists>w'. initializer_start batches st framework_id target True ignore_locks w = (Ok (), w') \<and>
      in_state (codec st) (gas_station_store st) t
        (add_pool added (empty_pool\<lparr>maintenance := Some 0, init_lock := Some 0\<rparr>)) w' \<and>
      bal_sum added + gas_paid env es (large_of env coins) = bal_sum coins"
proof -
  have honest: "env_ok env" "honest env es (large_of env coins)"
    using assms(9-11) by (simp_all add: served_def node_serves_def)
  have "wp (initializer_start batches st framework_id target True ignore_locks)
      (\<lambda>_ w'. rescanned (codec st) (gas_station_store st) t added b w w') w"
    by (rule wp_rescan_start [OF assms])
  then obtain w' where "initializer_start batches st framework_id target True ignore_locks w = (Ok (), w')"
    "rescanned (codec st) (gas_station_store st) t added b w w'"
    by (auto simp: wp_def split: prod.splits result.splits)
  then show ?thesis using init_coins_worth(1) [OF honest] assms(13) by (auto simp: rescanned_def)
qed

section \<open>Examples\<close>

text \<open>A sponsor with a coin of 1000, which is split into nine, and one of 50.\<close>

definition ex_rich_station :: "(nat, nat, nat) gas_station" where
  "ex_rich_station = ex_station\<lparr>latest_ms := 1000000\<rparr>"

definition ex_rich_coins :: "(nat, nat) gas_coin list" where
  "ex_rich_coins = [\<lparr>object_ref = (8, 1, 8), balance = 50\<rparr>, ex_big_coin]"

definition ex_rich_page :: "(nat, nat) coin_page" where
  "ex_rich_page = \<lparr>page_data = ex_rich_coins, has_next_page = False, next_cursor = None\<rparr>"

definition ex_rich_world :: "(nat, nat, nat, nat) init_world" where
  "ex_rich_world = (ex_init_world [Inr ex_rich_page, Inr ex_rich_page])\<lparr>price_answers := [Inr 1],
     inspect_answers := [Inr 2500]\<rparr>"

definition ex_rich_env :: "(nat, nat) coin_split_env" where
  "ex_rich_env = init_env ex_rich_station 0 100 1 2500"

definition ex_rich_split :: "(nat, nat) gas_coin list" where
  "ex_rich_split = map (\<lambda>i. \<lparr>object_ref = (i, 2, 1), balance = 101\<rparr>) [21, 22, 23, 24, 25, 26, 27, 28] @
     [\<lparr>object_ref = (7, 2, 9), balance = 189\<rparr>]"

definition ex_rich_added :: "(nat, nat) gas_coin list" where
  "ex_rich_added = \<lparr>object_ref = (8, 1, 8), balance = 50\<rparr> # ex_rich_split"

lemmas ex_rich_defs = ex_rich_env_def init_env_def ex_rich_station_def ex_station_def ex_rich_coins_def
  ex_big_coin_def ex_split_effects_def

lemma ex_rich_large:
  "large_of ex_rich_env ex_rich_coins = [ex_big_coin]"
  "small_of ex_rich_env ex_rich_coins = [\<lparr>object_ref = (8, 1, 8), balance = 50\<rparr>]"
  by (simp_all add: ex_rich_defs large_of_def small_of_def small_def object_share_def)

lemma ex_rich_pieces:
  "pieces ex_rich_env ex_big_coin ex_split_effects = ex_rich_split"
  by (simp add: ex_rich_defs pieces_def split_count_def object_share_def Let_def ex_rich_split_def)

lemma ex_rich_small:
  "small_of ex_rich_env ex_rich_split = ex_rich_split"
  "large_of ex_rich_env ex_rich_split = []"
  by (simp_all add: ex_rich_defs large_of_def small_of_def small_def object_share_def ex_rich_split_def)

lemma ex_rich_init: "init_coins ex_rich_env [ex_split_effects] ex_rich_coins = ex_rich_added"
  by (simp add: init_coins_def ex_rich_large ex_rich_pieces ex_rich_small) (simp add: ex_rich_added_def)

lemma ex_rich_served:
  "served ex_rich_station 0 100 1 2500 Init [ex_rich_page] [ex_split_effects]
     ([Inr ex_rich_page], [Inr 1], [Inr 2500], [Inr (Some ex_split_effects)], [Inr (77 :: nat)])
     ([], [], [], [], [])"
proof -
  have "honest ex_rich_env [ex_split_effects] [ex_big_coin]"
    by (simp add: ex_rich_pieces ex_rich_small honest_split_def)
      (simp add: ex_rich_env_def init_env_def ex_rich_station_def ex_station_def ex_big_coin_def
        ex_split_effects_def split_count_def object_share_def)
  moreover have "env_ok ex_rich_env" "\<not> 100 * 99 \<le> (2500 :: u64) div 500 * 2"
    by (simp_all add: ex_rich_defs env_ok_def)
  ultimately show ?thesis
    unfolding served_def node_serves_def ex_rich_env_def [symmetric]
    by (auto simp: ex_rich_page_def ex_rich_large intro!: exI [of _ "[77]"])
      (simp_all add: ex_rich_defs)
qed

lemma ex_rich_state:
  "in_state (codec ex_rich_station) (gas_station_store ex_rich_station) 1000 empty_pool ex_rich_world"
  "test_time (codec ex_rich_station) (latest_ms ex_rich_station) 1000"
  "answers ex_rich_world = (map Inr [ex_rich_page] @ [Inr ex_rich_page], [Inr 1], [Inr 2500],
     [Inr (Some ex_split_effects)], [Inr 77])"
  using ex_world_rel pool_inv_empty
  by (simp_all add: in_state_def quiet_def ex_rich_station_def ex_station_def ex_rich_world_def ex_init_world_def
      test_time_def nat_codec_ok answers_def)

lemma ex_rich_fits: "fits empty_pool ex_rich_coins"
  by (simp add: fits_def ex_rich_coins_def ex_big_coin_def)

theorem first_start_fills_pool_witness:
  "\<exists>w'. initializer_start [] ex_rich_station 0 100 False False ex_rich_world = (Ok (), w') \<and>
     in_state nat_codec ex_self 1000 (add_pool ex_rich_added (empty_pool\<lparr>init_lock := Some 0\<rparr>)) w'"
proof -
  have new: "\<not> initialized (gas_station_store ex_rich_station) ex_rich_world"
    by (simp add: initialized_def ex_rich_station_def ex_station_def ex_rich_world_def ex_init_world_def
        ex_world_def ex_self_def empty_keys_def)
  have free: "lock_free (1000 div 1000) (init_lock empty_pool) \<or> False"
    by (simp add: lock_free_def)
  have coins: "ex_rich_coins = concat (map page_data [ex_rich_page])"
    by (simp add: ex_rich_page_def)
  have page: "whole_listing [ex_rich_page]" "length [ex_rich_page] \<le> fuel ex_rich_station"
    by (simp_all add: ex_rich_page_def ex_rich_station_def ex_station_def)
  from first_start_fills_pool [OF ex_rich_state(1,2) new free page ex_rich_state(3) ex_rich_served
      ex_rich_env_def coins ex_rich_fits ex_rich_init [symmetric], of "[]"]
  show ?thesis by (auto simp: ex_rich_station_def ex_station_def)
qed

theorem full_rescan_rebuilds_pool_witness:
  "\<exists>w'. initializer_start [map (nkey ''n:registry'')
       [''available_coin_total_balance'', ''available_coin_count'', ''maintenance_lock'']]
       ex_rich_station 0 100 True False ex_rich_world = (Ok (), w') \<and>
     in_state nat_codec ex_self 1000
       (add_pool ex_rich_added (empty_pool\<lparr>maintenance := Some 0, init_lock := Some 0\<rparr>)) w'"
proof -
  have free: "lock_free (1000 div 1000) (maintenance empty_pool) \<or> False"
    "lock_free (1000 div 1000) (init_lock empty_pool) \<or> False"
    by (simp_all add: lock_free_def)
  have scan: "scan_complete (namespace (gas_station_store ex_rich_station))
      ((keys ex_rich_world)(k_maintenance (namespace (gas_station_store ex_rich_station)) \<mapsto> RString ''0''))
      [map (nkey ''n:registry'') [''available_coin_total_balance'', ''available_coin_count'', ''maintenance_lock'']]"
    by (auto simp: scan_complete_def ex_rich_station_def ex_station_def ex_rich_world_def ex_init_world_def
        ex_world_def ex_self_def empty_keys_def nkey_def split: if_splits)
  have coins: "ex_rich_coins = concat (map page_data [ex_rich_page])"
    by (simp add: ex_rich_page_def)
  have page: "whole_listing [ex_rich_page]" "length [ex_rich_page] \<le> fuel ex_rich_station"
    by (simp_all add: ex_rich_page_def ex_rich_station_def ex_station_def)
  from full_rescan_rebuilds_pool [OF ex_rich_state(1,2) free scan page ex_rich_state(3) ex_rich_served
      ex_rich_env_def coins ex_rich_fits ex_rich_init [symmetric]]
  show ?thesis by (auto simp: ex_rich_station_def ex_station_def)
qed

end
