(* ===== verification/Station_Kit.thy ===== *)
theory Station_Kit
  imports Init_Start Command Storage_Tests
begin

text \<open>
  The environment of the tests that run a gas station: \<open>src/src/test_env.rs\<close>. The local network is a
  node whose answers are part of the world; \<open>cluster\<close> says which answers a network gives that was
  started with certain gas coins. The rules step over the calls of the station.
\<close>

section \<open>The test environment\<close>

record ('addr, 'id, 'dg, 'sig) test_cluster =
  cl_codec :: "('id, 'dg) codec"
  cl_latest :: int
  cl_show_address :: "'addr \<Rightarrow> string"
  cl_fuel :: nat
  cl_sponsor :: 'addr
  cl_storage :: redis_storage
  cl_framework :: 'id
  cl_user :: 'addr
  cl_transfer :: "'id tx_kind"
  cl_user_sig :: 'sig

definition cluster_station ::
  "('addr, 'id, 'dg, 'sig) test_cluster \<Rightarrow> u64 \<Rightarrow> u64 option \<Rightarrow> ('addr, 'id, 'dg) gas_station"
where
  "cluster_station E target max_budget =
     gas_station_new (cl_codec E) (cl_latest E) (cl_show_address E) (cl_fuel E) (cl_sponsor E) (cl_storage E)
       (case max_budget of None \<Rightarrow> default_max_gas_budget | Some b \<Rightarrow> b) target"

definition start_gas_station ::
  "('addr, 'id, 'dg, 'sig) test_cluster \<Rightarrow> u64 \<Rightarrow> u64 option \<Rightarrow>
     (('addr, 'id, 'dg, 'sig, 'z) init_world_scheme, ('addr, 'id, 'dg) gas_station_container) prog"
where
  "start_gas_station E target max_budget =
     pbind (connect_storage_for_testing_with_config True (cl_storage E)) (\<lambda>storage.
     let station = (cluster_station E target max_budget)\<lparr>gas_station_store := storage\<rparr>
     in pseq (pmodify (\<lambda>w. w\<lparr>rescan := create_receiver rescan_new\<rparr>)) (
        pseq (initializer_start [] station (cl_framework E) target False False) (
        container_new station default_daily_gas_usage_cap)))"

text \<open>
  A transfer of one of the user's objects, with the coins of the sponsor as payment; the price and the
  budget are those of the network's transaction builder.
\<close>

definition create_test_transaction ::
  "('addr, 'id, 'dg, 'sig) test_cluster \<Rightarrow> u64 \<Rightarrow> u64 \<Rightarrow> 'addr \<Rightarrow> ('id, 'dg) object_ref list \<Rightarrow>
     ('addr, 'id, 'dg) tx_data \<times> 'sig"
where
  "create_test_transaction E price budget sponsor gas_coins =
     (let tx_data = \<lparr>tx_sender = cl_user E, gas_owner = cl_user E, payment = [hd gas_coins], gas_price = price,
            gas_budget = budget, tx_kind = cl_transfer E\<rparr>;
          tx_data = tx_data\<lparr>payment := gas_coins\<rparr>;
          tx_data = tx_data\<lparr>gas_owner := sponsor\<rparr>
      in (tx_data, cl_user_sig E))"

section \<open>The network\<close>

definition cluster_env ::
  "('addr, 'id, 'dg, 'sig) test_cluster \<Rightarrow> u64 \<Rightarrow> u64 \<Rightarrow> u64 \<Rightarrow> ('addr, 'id) coin_split_env"
where
  "cluster_env E target price spent =
     \<lparr>target_init_coin_balance = target, gas_cost_per_object = spent div 500 * 2,
      sponsor_address = cl_sponsor E, framework = cl_framework E, rgp = price, split_fuel = cl_fuel E\<rparr>"

text \<open>
  \<open>cluster E coins target t \<dots> b w\<close>: Redis has no key of the sponsor yet, the sponsor owns the coins,
  listed twice at the start, and the network answers the initializer. After the start the answers \<open>b\<close>
  are left.
\<close>

definition cluster where
  "cluster E coins target t price spent es b w \<longleftrightarrow>
     quiet t w \<and> test_start (cl_codec E) (cl_latest E) t \<and> fresh_namespace (cl_storage E) w \<and>
     (\<exists>seen pages later others.
        whole_listing seen \<and> length seen \<le> cl_fuel E \<and> answers w = (map Inr seen @ later, others) \<and>
        concat (map page_data pages) = coins \<and> fits empty_pool coins \<and>
        served (cluster_station E target None) (cl_framework E) target price spent Init pages es (later, others) b)"

lemma station_same [simp]:
  "init_env (st\<lparr>gas_station_store := s\<rparr>) f t p g = init_env st f t p g"
  "init_env (cluster_station E t' m) (cl_framework E) t p g = cluster_env E t p g"
  "codec (cluster_station E t' m) = cl_codec E" "latest_ms (cluster_station E t' m) = cl_latest E"
  "gas_station_store (cluster_station E t' m) = cl_storage E" "fuel (cluster_station E t' m) = cl_fuel E"
  "signer_address (cluster_station E t' m) = cl_sponsor E"
  "show_address (cluster_station E t' m) = cl_show_address E"
  "target_init_balance (cluster_station E t' m) = t'"
  "(cluster_station E t' m)\<lparr>gas_station_store := cl_storage E\<rparr> = cluster_station E t' m"
  by (simp_all add: init_env_def cluster_env_def cluster_station_def gas_station_new_def)

lemma served_same:
  "served (cluster_station E t' m) f t p g mode pages es a b \<Longrightarrow>
     served (cluster_station E t' m') f t p g mode pages es a b"
  by (simp add: init_env_def cluster_station_def gas_station_new_def served_def node_serves_def)

lemma keeps_outside_connect: "keeps (\<lambda>w. outside w = a) (connect_storage_for_testing_with_config first self)"
  unfolding connect_storage_for_testing_with_config_def connect_storage_def check_health_def flush_db_def
  by (intro keeps_rules keeps_outside keeps_outside_storage)

lemma wp_connect_outside:
  fixes w :: "('addr, 'id, 'dg, 'sig, 'z) station_world_scheme"
  assumes "quiet t w" and "codec_ok C" and "fresh_namespace self w"
    and "\<And>w'. in_state C self t empty_pool w' \<Longrightarrow> \<not> initialized self w' \<Longrightarrow> outside w' = outside w \<Longrightarrow> Q self w'"
  shows "wp (connect_storage_for_testing_with_config first self) Q w"
proof (rule wp_also [OF _ keeps_outside_connect refl])
  show "wp (connect_storage_for_testing_with_config first self)
      (\<lambda>s w'. s = self \<and> in_state C self t empty_pool w' \<and> \<not> initialized self w') w"
    by (rule wp_connect [OF assms(1-3)]) simp
qed (use assms(4) in auto)

text \<open>The station after the start: a pool with the coins, no usage booked, and the answers that are left.\<close>

definition station_ready where
  "station_ready d w0 b w \<longleftrightarrow>
     answers w = b \<and> object_answers w = object_answers w0 \<and>
     usage_cap w = gas_usage_cap_new default_daily_gas_usage_cap d \<and> dates w = [d]"

lemma wp_start_gas_station:
  fixes w :: "('addr, 'id, 'dg, 'sig, 'z) init_world_scheme"
  assumes "cluster E coins target t price spent es b w" and "dates w = [d]"
    and "\<And>w'. env_ok (cluster_env E target price spent) \<Longrightarrow>
      honest (cluster_env E target price spent) es
        (large_of (cluster_env E target price spent) coins) \<Longrightarrow>
      in_state (cl_codec E) (cl_storage E) t
        (add_pool (init_coins (cluster_env E target price spent) es coins)
          (empty_pool\<lparr>init_lock := Some 0\<rparr>)) w' \<Longrightarrow>
      station_ready d w b w' \<Longrightarrow>
      Q \<lparr>container_inner = cluster_station E target m, cancel_sender = True\<rparr> w'"
  shows "wp (start_gas_station E target m) Q w"
proof -
  obtain seen pages later others where w: "quiet t w" "test_start (cl_codec E) (cl_latest E) t"
    "fresh_namespace (cl_storage E) w" "whole_listing seen" "length seen \<le> cl_fuel E"
    "answers w = (map Inr seen @ later, others)" "concat (map page_data pages) = coins" "fits empty_pool coins"
    "served (cluster_station E target None) (cl_framework E) target price spent Init pages es (later, others) b"
    using assms(1) by (auto simp: cluster_def)
  let ?env = "cluster_env E target price spent"
  have honest: "env_ok ?env" "honest ?env es (large_of ?env coins)"
    using w(9) unfolding served_def node_serves_def station_same listed_all w(7) by simp_all
  show ?thesis
    unfolding start_gas_station_def wp_pbind Let_def wp_pseq wp_pmodify
  proof (rule wp_connect_outside [OF w(1) test_startD(1) [OF w(2)] w(3)], unfold station_same)
    fix w1 :: "('addr, 'id, 'dg, 'sig, 'z) init_world_scheme"
    assume w1: "in_state (cl_codec E) (cl_storage E) t empty_pool w1" "\<not> initialized (cl_storage E) w1"
      "outside w1 = outside w"
    let ?w1 = "w1\<lparr>rescan := create_receiver rescan_new\<rparr>"
    show "wp (initializer_start [] (cluster_station E target m) (cl_framework E) target False False)
        (\<lambda>_. wp (container_new (cluster_station E target m) default_daily_gas_usage_cap) Q) ?w1"
    proof (rule wp_first_start [where seen = seen and later = later and others = others and b = b and
          pages = pages and es = es and price = price and spent = spent and p = empty_pool and t = t,
          OF _ _ _ _ _ _ _ served_same [OF w(9)] refl w(7) [symmetric]], unfold station_same)
      fix w2 :: "('addr, 'id, 'dg, 'sig, 'z) init_world_scheme"
      assume "ran (cl_codec E) (cl_storage E) t empty_pool (init_coins (cluster_env E target price spent) es coins) b ?w1 w2"
      then show "wp (container_new (cluster_station E target m) default_daily_gas_usage_cap) Q w2"
        using w1(3) assms(2) honest w(7)
        by (auto simp: container_new_def today_def ran_def outside_def station_ready_def answers_def wp_def
            intro!: assms(3))
    qed (use w w1 test_startD(2) [OF w(2)] in \<open>auto simp: initialized_def lock_free_def outside_def answers_def\<close>)
  qed
qed

section \<open>Calls of the station\<close>

lemma wp_ptry_pbind:
  "wp (ptry (pbind m f)) Q w =
     wp (ptry m) (\<lambda>r w. case r of Inl e \<Rightarrow> Q (Inl e) w | Inr a \<Rightarrow> wp (ptry (f a)) Q w) w"
  by (auto simp: wp_def split: prod.splits result.splits)

lemma wp_ptry_pseq:
  "wp (ptry (pseq m n)) Q w =
     wp (ptry m) (\<lambda>r w. case r of Inl e \<Rightarrow> Q (Inl e) w | Inr a \<Rightarrow> wp (ptry n) Q w) w"
  unfolding pseq_def by (rule wp_ptry_pbind)

lemma wp_ptry_basic [simp]:
  "wp (ptry (pret a)) Q w = Q (Inr a) w" "wp (ptry (perr e)) Q w = Q (Inl e) w"
  "wp (ptry (plift (Ok a))) Q w = Q (Inr a) w" "wp (ptry (plift (Err e))) Q w = Q (Inl e) w"
  by (simp_all add: wp_def)

definition budget_left :: "('addr, 'id, 'dg, 'sig, 'z) station_world_scheme \<Rightarrow> bool" where
  "budget_left w \<longleftrightarrow> (\<exists>d. dates w = [d] \<and> check_usage d (usage_cap w) = (Ok (), usage_cap w))"

lemma budget_left_new:
  "usage_cap w = gas_usage_cap_new default_daily_gas_usage_cap d \<Longrightarrow> dates w = [d] \<Longrightarrow> budget_left w"
  by (simp add: budget_left_def gas_usage_cap_new_def check_usage_def reset_date_maybe_def Let_def
      default_daily_gas_usage_cap_def nanos_per_iota_def)

lemma budget_left_outside: "outside w' = outside w \<Longrightarrow> budget_left w' = budget_left w"
  by (simp add: budget_left_def outside_def)

lemma wp_check_usage: "budget_left w \<Longrightarrow> Q () w \<Longrightarrow> wp station_check_usage Q w"
  by (auto simp: budget_left_def station_check_usage_def today_def wp_def)

lemma keeps_outside_reserve: "keeps (\<lambda>w. outside w = a) (reserve_gas_coins C latest self b d)"
  unfolding reserve_gas_coins_def script_manager_defs publish_pool_gauges_def Let_def
  by (intro keeps_rules) (simp_all add: outside_def answers_def)

lemma wp_station_reserve:
  fixes w :: "('addr, 'id, 'dg, 'sig, 'z) station_world_scheme"
  assumes "in_state (codec st) (gas_station_store st) t p w" and "test_time (codec st) (latest_ms st) t"
    and "budget_left w" and "uint b \<le> 2 ^ 52" and "ms \<le> 100000" and "b \<noteq> 0" and "maintenance p = None"
    and "next_id p < 2 ^ 63 - 1" and "cut (uint b) (avail p) = Some n"
    and "\<And>w'. in_state (codec st) (gas_station_store st) t (reserve_pool n (t + int ms) p) w' \<Longrightarrow>
      outside w' = outside w \<Longrightarrow>
      Q (signer_address st, of_nat (Suc (next_id p)), map object_ref (take n (avail p))) w'"
  shows "wp (reserve_gas st b ms) Q w"
proof -
  have ms: "uint (of_nat ms :: u64) = int ms"
    using assms(5) by (simp add: uint_nat unat_of_nat take_bit_nat_eq_self)
  show ?thesis
    unfolding reserve_gas_def wp_pseq wp_pbind
  proof (rule wp_check_usage [OF assms(3)], rule wp_also [OF _ keeps_outside_reserve refl])
    show "wp (reserve_gas_coins (codec st) (latest_ms st) (gas_station_store st) b (of_nat ms))
        (\<lambda>r w'. r = (of_nat (Suc (next_id p)), take n (avail p)) \<and>
          in_state (codec st) (gas_station_store st) t (reserve_pool n (t + int ms) p) w') w"
      by (rule wp_reserve [OF assms(1,2,4) _ assms(6-9)]) (use assms(5) in \<open>simp_all add: ms\<close>)
  qed (use assms(10) in \<open>auto simp: wp_def in_state_def quiet_def outside_def answers_def\<close>)
qed

lemma wp_station_refuses:
  fixes w :: "('addr, 'id, 'dg, 'sig, 'z) station_world_scheme"
  assumes "in_state (codec st) (gas_station_store st) t p w" and "test_time (codec st) (latest_ms st) t"
    and "budget_left w" and "uint b \<le> 2 ^ 52" and "ms \<le> 100000" and "cut (uint b) (avail p) = None"
    and "\<And>e w'. in_state (codec st) (gas_station_store st) t p w' \<Longrightarrow> outside w' = outside w \<Longrightarrow> Q (Inl e) w'"
  shows "wp (ptry (reserve_gas st b ms)) Q w"
proof -
  have ms: "uint (of_nat ms :: u64) = int ms"
    using assms(5) by (simp add: uint_nat unat_of_nat take_bit_nat_eq_self)
  show ?thesis
    unfolding reserve_gas_def wp_ptry_pseq wp_ptry_pbind
  proof (rule wp_ptry, rule wp_check_usage [OF assms(3)], unfold sum.case,
      rule wp_also [OF _ keeps_ptry [OF keeps_outside_reserve] refl])
    show "wp (ptry (reserve_gas_coins (codec st) (latest_ms st) (gas_station_store st) b (of_nat ms)))
        (\<lambda>r w'. isl r \<and> in_state (codec st) (gas_station_store st) t p w') w"
      by (rule wp_reserve_refused [OF assms(1,2,4)]) (use assms(5,6) in \<open>simp_all add: ms\<close>)
  qed (use assms(7) in \<open>auto simp: isl_def\<close>)
qed

lemma wp_query_count:
  "in_state C (gas_station_store st) t p w \<Longrightarrow> Q (of_nat (length (avail p))) w \<Longrightarrow>
     wp (query_pool_available_coin_count st) Q w"
  unfolding query_pool_available_coin_count_def wp_punwrap by (rule wp_count)

section \<open>Looking up coins\<close>

text \<open>What the node says of a coin.\<close>

definition shown :: "('id, 'dg) gas_coin \<Rightarrow> ('id, 'dg) object_response" where
  "shown c = Some \<lparr>data_ref = object_ref c, move_object = Some (True, Some (balance c))\<rparr>"

lemma wp_latest_one:
  fixes w :: "('addr, 'id, 'dg, 'sig, 'z) node_world_scheme"
  assumes "0 < n" and "object_answers w = Inr [shown c] # later"
    and "\<And>cs. Q [(i, Some c)] (w\<lparr>calls := cs, object_answers := later\<rparr>)"
  shows "wp (get_latest_gas_objects n [i]) Q w"
proof -
  have one: "chunks 50 [i] = [[i]]" by (simp add: chunks.simps)
  show ?thesis
    unfolding get_latest_gas_objects_def wp_pbind one wp_pmap get_chunk_def api_multi_get_def
    by (rule wp_retry_forever [OF assms(1)], unfold wp_pbind, rule wp_ask [where get = object_answers, OF assms(2)])
      (use assms(3) in \<open>cases c; simp add: collect_map_def try_get_iota_coin_balance_def shown_def\<close>)
qed

lemma present_one [simp]: "present_values [(i, Some c)] = [c]"
  by (simp add: present_values_def List.map_filter_simps)

lemma keeps_outside_ready: "keeps (\<lambda>w. outside w = a) (ready_for_execution self rid)"
  unfolding ready_for_execution_def script_manager_defs
  by (intro keeps_rules) (simp_all add: outside_def answers_def)

lemma wp_ready_outside:
  fixes w :: "('addr, 'id, 'dg, 'sig, 'z) station_world_scheme"
  assumes "in_state C self t p w" and "reserved p (unat rid) = Some ids"
    and "\<And>w'. in_state C self t (ready_pool (unat rid) p) w' \<Longrightarrow> outside w' = outside w \<Longrightarrow> Q () w'"
  shows "wp (ready_for_execution self rid) Q w"
  by (rule wp_also [where R = "\<lambda>_. in_state C self t (ready_pool (unat rid) p)", OF _ keeps_outside_ready refl],
      rule wp_ready [OF assms(1,2)]) (use assms(3) in auto)

lemma wp_ready_gone:
  fixes w :: "('addr, 'id, 'dg, 'sig, 'z) station_world_scheme"
  assumes "in_state C self t p w" and "reserved p (unat rid) = None"
    and "\<And>e w'. in_state C self t p w' \<Longrightarrow> outside w' = outside w \<Longrightarrow> Q (Inl e) w'"
  shows "wp (ptry (ready_for_execution self rid)) Q w"
proof -
  have w: "quiet t w" "pool_rel C (namespace self) (keys w) p" "pool_inv p"
    using assms(1) by (simp_all add: in_state_def)
  have "ready_for_execution self rid w = (Err (Foreign (''Reservation no longer exist: '' @ show_nat (unat rid))),
      w\<lparr>events := events w @ [Inc ''num_ready_for_execution_requests'']\<rparr>)"
    using ready_run [OF w(2,3,1), of rid] assms(2) by simp
  then show ?thesis
    by (rule wp_ptry_failed, intro assms(3))
      (use w in \<open>auto simp: in_state_def quiet_def outside_def answers_def\<close>)
qed

section \<open>Executing\<close>

lemma in_state_events [simp]:
  "in_state C self t p (w\<lparr>events := es\<rparr>) = in_state C self t p w" for w :: "'z world_scheme"
  by (simp add: in_state_def quiet_def)

lemma wp_emit [simp]: "wp (emit m) Q w = Q () (w\<lparr>events := events w @ [m]\<rparr>)"
  by (simp add: wp_def)

lemma wp_ptry_emit [simp]: "wp (ptry (emit m)) Q w = Q (Inr ()) (w\<lparr>events := events w @ [m]\<rparr>)"
  by (simp add: wp_def)

lemma wp_ptry_ptry: "wp (ptry (ptry m)) Q w = wp (ptry m) (\<lambda>r. Q (Inr r)) w"
  by (auto simp: wp_def split: prod.splits result.splits)

lemma wp_sign:
  fixes w :: "('addr, 'id, 'dg, 'sig, 'z) node_world_scheme"
  assumes "sign_answers w = Inr s # ss"
    and "\<And>cs. Q s (w\<lparr>calls := cs, sign_answers := ss\<rparr>)"
  shows "wp (sign_transaction d) Q w"
  unfolding sign_transaction_def by (rule wp_ask [where get = sign_answers, OF assms(1)]) (rule assms(2))

lemma wp_execute_block:
  fixes w :: "('addr, 'id, 'dg, 'sig, 'z) node_world_scheme"
  assumes "exec_answers w = Inr (Some e) # xs"
    and "\<And>cs. Q e (w\<lparr>calls := cs, exec_answers := xs\<rparr>)"
  shows "wp (client_execute_transaction tx n rt) Q w"
  unfolding client_execute_transaction_def api_execute_def Let_def
  by (rule wp_retry_max, unfold wp_pbind, rule wp_ask [where get = exec_answers, OF assms(1)])
    (simp add: assms(2))

text \<open>Three further attempts, all of which fail.\<close>

lemma execute_block_fails:
  fixes w :: "('addr, 'id, 'dg, 'sig, 'z) node_world_scheme"
  assumes "exec_answers w = map Inl [e0, e1, e2, e3] @ xs"
  shows "\<exists>cs. client_execute_transaction tx 3 rt w = (Err e3, w\<lparr>calls := cs, exec_answers := xs\<rparr>)"
  using assms
  by (simp add: client_execute_transaction_def api_execute_def ask_def Let_def retry_with_max_attempts_step
      eval_nat_numeral) blast

lemma wp_update_usage:
  fixes w :: "('addr, 'id, 'dg, 'sig, 'z) station_world_scheme"
  assumes "dates w = [d]" and "\<And>u c. Q u (w\<lparr>usage_cap := c\<rparr>)"
  shows "wp (station_update_usage n) Q w"
  using assms by (simp add: station_update_usage_def today_def wp_def split: prod.splits)

lemma fits_sums:
  assumes "fits p [c]"
  shows "bal_sum (avail p) + uint (balance c) \<le> 2 ^ 53" "int (length (avail p)) + 1 \<le> 2 ^ 53"
proof -
  have "int (length (avail p)) + 1 + uint (balance c) \<le> 2 ^ 53" using assms by (simp add: fits_def)
  moreover have "0 \<le> uint (balance c)" by simp
  ultimately show "int (length (avail p)) + 1 \<le> 2 ^ 53" by linarith
  show "bal_sum (avail p) + uint (balance c) \<le> 2 ^ 53" using assms by (simp add: fits_def)
qed

text \<open>Coins that are not oversized go back to the pool.\<close>

lemma wp_settle:
  fixes w :: "('addr, 'id, 'dg, 'sig, 'z) station_world_scheme"
  assumes "in_state (codec st) (gas_station_store st) t p w" and "codec_ok (codec st)" and "0 < fuel st"
    and "\<not> oversized st c" and "fits p [c]"
    and "\<And>w'. in_state (codec st) (gas_station_store st) t (add_pool [c] p) w' \<Longrightarrow> outside w' = outside w \<Longrightarrow> Q () w'"
  shows "wp (settle st sponsor 1 [c]) Q w"
proof -
  note sums = fits_sums [OF assms(5)]
  have "wp (release_gas_coins st [c]) Q w"
    unfolding release_gas_coins_def wp_punwrap
  proof (rule wp_retry_forever [OF assms(3)], rule wp_also [OF _ keeps_outside_storage(1) refl])
    show "wp (add_new_coins (codec st) (gas_station_store st) [c])
        (\<lambda>_. in_state (codec st) (gas_station_store st) t (add_pool [c] p)) w"
      by (rule wp_add [OF assms(1,2)]) (use sums in simp_all)
  qed (use assms(6) in auto)
  then show ?thesis
    using assms(4) by (simp add: settle_def Let_def pwhen_def wp_basic [abs_def])
qed

lemma fits_ready: "fits p cs \<Longrightarrow> fits (ready_pool i p) cs"
  by (simp add: fits_def)

text \<open>A transaction that pays with one coin of a reservation and succeeds.\<close>

lemma wp_execute_ok:
  fixes w :: "('addr, 'id, 'dg, 'sig, 'z) station_world_scheme"
  assumes state: "in_state (codec st) (gas_station_store st) t p w" "codec_ok (codec st)" "0 < fuel st"
    and tx: "gas_owner d = signer_address st" "check_transaction_validity d = Ok ()" "payment d = [object_ref c]"
    and lent: "reserved p (unat rid) = Some ids"
    and node: "object_answers w = Inr [shown c] # os" "sign_answers w = Inr s # ss"
      "exec_answers w = Inr (Some e) # xs" "dates w = [day]"
    and new: "new = \<lparr>object_ref = gas_object e, balance = balance c - net_gas_usage e\<rparr>"
      "\<not> oversized st new" "fits p [new]"
    and post: "\<And>w'. in_state (codec st) (gas_station_store st) t (add_pool [new] (ready_pool (unat rid) p)) w' \<Longrightarrow>
      Q e w'"
  shows "wp (execute_transaction st rid d usig rt) Q w"
proof -
  have impl: "wp (execute_transaction_impl st d usig rt) R w1"
    if "in_state (codec st) (gas_station_store st) t q w1" "sign_answers w1 = Inr s # ss"
      "exec_answers w1 = Inr (Some e) # xs" "dates w1 = [day]"
      "\<And>w2. in_state (codec st) (gas_station_store st) t q w2 \<Longrightarrow> R e w2"
    for q R and w1 :: "('addr, 'id, 'dg, 'sig, 'z) station_world_scheme"
    unfolding execute_transaction_impl_def wp_pbind wp_pseq
    by (rule wp_retry_max, rule wp_sign [OF that(2)], unfold wp_emit,
        rule wp_execute_block [where e = e and xs = xs], simp add: that(3),
        rule wp_update_usage [where d = day]) (simp_all add: that)
  have gas_owner: "signer_address st \<noteq> gas_owner d \<longleftrightarrow> False" using tx(1) by simp
  show ?thesis
    unfolding execute_transaction_def gas_owner if_False Let_def wp_pseq wp_pbind tx(2,3) list.map
      get_total_gas_coin_balance_def
  proof (rule wp_ran [where m = "plift (Ok ())"], simp, rule wp_ready_outside [OF state(1) lent],
      rule wp_latest_one [OF state(3)])
    fix w1 :: "('addr, 'id, 'dg, 'sig, 'z) station_world_scheme"
    assume "in_state (codec st) (gas_station_store st) t (ready_pool (unat rid) p) w1" "outside w1 = outside w"
    then show "object_answers w1 = Inr [shown c] # os" using node(1) by (simp add: outside_def)
  next
    fix cs and w1 :: "('addr, 'id, 'dg, 'sig, 'z) station_world_scheme"
    let ?w1 = "w1\<lparr>calls := cs, object_answers := os\<rparr>"
    assume w1: "in_state (codec st) (gas_station_store st) t (ready_pool (unat rid) p) w1" "outside w1 = outside w"
    have out: "sign_answers ?w1 = Inr s # ss" "exec_answers ?w1 = Inr (Some e) # xs" "dates ?w1 = [day]"
      using w1(2) node by (simp_all add: outside_def answers_def)
    have "wp (ptry (execute_transaction_impl st d usig rt)) (\<lambda>response. wp (updated_coins st [fst (object_ref c)]
        (balance c) response) (\<lambda>coins. wp (settle st (gas_owner d) 1 coins)
        (\<lambda>_. wp (case response of Inr effects \<Rightarrow> pret effects | Inl e \<Rightarrow> perr e) Q))) ?w1"
    proof (rule wp_ptry, rule impl [OF _ out])
      show "in_state (codec st) (gas_station_store st) t (ready_pool (unat rid) p) ?w1" using w1(1) by simp
    next
      fix w2 :: "('addr, 'id, 'dg, 'sig, 'z) station_world_scheme"
      assume w2: "in_state (codec st) (gas_station_store st) t (ready_pool (unat rid) p) w2"
      show "wp (updated_coins st [fst (object_ref c)] (balance c) (Inr e)) (\<lambda>coins. wp (settle st (gas_owner d) 1 coins)
          (\<lambda>_. wp (case Inr e of Inr effects \<Rightarrow> pret effects | Inl e \<Rightarrow> perr e) Q)) w2"
        unfolding updated_coins_def sum.case Let_def wp_pseq wp_emit wp_basic new(1) [symmetric]
        by (rule wp_settle [where t = t and p = "ready_pool (unat rid) p", OF _ state(2,3) new(2) fits_ready [OF new(3)]])
          (simp_all add: w2 post)
    qed
    then show "wp (pret (sum_list (map balance (present_values [(fst (object_ref c), Some c)]))))
        (\<lambda>total. wp (ptry (execute_transaction_impl st d usig rt)) (\<lambda>response. wp (updated_coins st
          [fst (object_ref c)] total response) (\<lambda>coins. wp (settle st (gas_owner d) (length [object_ref c]) coins)
          (\<lambda>_. wp (case response of Inr effects \<Rightarrow> pret effects | Inl e \<Rightarrow> perr e) Q)))) ?w1"
      by simp
  qed
qed

text \<open>One that every attempt of the node refuses: the coin goes back as it is.\<close>

lemma wp_execute_refused:
  fixes w :: "('addr, 'id, 'dg, 'sig, 'z) station_world_scheme"
  assumes state: "in_state (codec st) (gas_station_store st) t p w" "codec_ok (codec st)" "0 < fuel st"
    and tx: "gas_owner d = signer_address st" "check_transaction_validity d = Ok ()" "payment d = [object_ref c]"
    and lent: "reserved p (unat rid) = Some ids"
    and node: "object_answers w = Inr [shown c] # Inr [shown c] # os" "sign_answers w = Inr s # ss"
      "exec_answers w = map Inl [e0, e1, e2, e3] @ xs"
    and returned: "\<not> oversized st c" "fits p [c]"
    and post: "\<And>w'. in_state (codec st) (gas_station_store st) t (add_pool [c] (ready_pool (unat rid) p)) w' \<Longrightarrow>
      Q (Inl e3) w'"
  shows "wp (ptry (execute_transaction st rid d usig rt)) Q w"
proof -
  have impl: "wp (ptry (execute_transaction_impl st d usig rt)) R w1"
    if "in_state (codec st) (gas_station_store st) t q w1" "sign_answers w1 = Inr s # ss"
      "exec_answers w1 = map Inl [e0, e1, e2, e3] @ xs" "object_answers w1 = oa"
      "\<And>w2. in_state (codec st) (gas_station_store st) t q w2 \<Longrightarrow> object_answers w2 = oa \<Longrightarrow> R (Inl e3) w2"
    for q R oa and w1 :: "('addr, 'id, 'dg, 'sig, 'z) station_world_scheme"
  proof -
    have exec: "wp (ptry (client_execute_transaction tx 3 rt)) S w2"
      if "exec_answers w2 = map Inl [e0, e1, e2, e3] @ xs"
        "\<And>cs. S (Inl e3) (w2\<lparr>calls := cs, exec_answers := xs\<rparr>)" for tx S
      and w2 :: "('addr, 'id, 'dg, 'sig, 'z) station_world_scheme"
      using execute_block_fails [OF that(1), of tx rt] that(2) by (auto intro: wp_ptry_failed)
    show ?thesis
      unfolding execute_transaction_impl_def wp_ptry_pbind
      by (rule wp_ptry, rule wp_retry_max, rule wp_sign [OF that(2)], unfold sum.case wp_ptry_pseq wp_ptry_pbind
          wp_ptry_emit, rule exec, simp add: that(3)) (simp add: that(1,4,5))
  qed
  have owner: "signer_address st \<noteq> gas_owner d \<longleftrightarrow> False" using tx(1) by simp
  show ?thesis
    unfolding execute_transaction_def owner if_False Let_def wp_ptry_pseq wp_ptry_pbind wp_ptry_basic tx(2,3) list.map
      get_total_gas_coin_balance_def sum.case wp_ptry_ptry
  proof (rule wp_ptry, rule wp_ready_outside [OF state(1) lent], unfold sum.case,
      rule wp_ptry, rule wp_latest_one [where c = c and later = "Inr [shown c] # os", OF state(3)], goal_cases)
    case (1 w1)
    then show ?case using node(1) by (simp add: outside_def)
  next
    case (2 w1 cs)
    let ?w1 = "w1\<lparr>calls := cs, object_answers := Inr [shown c] # os\<rparr>"
    have out: "sign_answers ?w1 = Inr s # ss" "exec_answers ?w1 = map Inl [e0, e1, e2, e3] @ xs"
      "object_answers ?w1 = Inr [shown c] # os"
      using 2(2) node by (simp_all add: outside_def answers_def)
    show ?case
      unfolding sum.case present_one
    proof (rule impl [where q = "ready_pool (unat rid) p", OF _ out], goal_cases)
      case 1
      show ?case using 2(1) by simp
    next
      case (2 w2)
      show ?case
        unfolding updated_coins_def sum.case
      proof (rule wp_ptry, unfold wp_pbind, rule wp_latest_one [where c = c and later = os, OF state(3)], rule 2(2),
          unfold present_one wp_basic sum.case list.size One_nat_def [symmetric] add_0_left, goal_cases)
        case (1 cs)
        show ?case
          by (rule wp_ptry, rule wp_settle [where t = t and p = "ready_pool (unat rid) p",
                OF _ state(2,3) returned(1) fits_ready [OF returned(2)]])
            (use 2(1) post in simp_all)
      qed
    qed
  qed
qed

section \<open>Expiry\<close>

lemma keeps_outside_expire: "keeps (\<lambda>w. outside w = a) (expire_coins C self)"
  unfolding expire_coins_def script_manager_defs Let_def
  by (intro keeps_rules) (simp_all add: outside_def answers_def)

text \<open>The task that returns expired coins finds one reservation of one coin.\<close>

lemma wp_unlock_one:
  fixes w :: "('addr, 'id, 'dg, 'sig, 'z) station_world_scheme"
  assumes state: "in_state (codec st) (gas_station_store st) t p w" "test_time (codec st) (latest_ms st) t"
    "0 < fuel st" "no_empty_loan p"
    and due: "{i. expired_at t p i \<and> reserved p i \<noteq> None} = {k}" "reserved p k = Some [fst (object_ref c)]"
    and node: "object_answers w = Inr [shown c] # os" and returned: "fits p [c]"
    and post: "\<And>w'. in_state (codec st) (gas_station_store st) t (add_pool [c] (expire_pool t p)) w' \<Longrightarrow>
      object_answers w' = os \<Longrightarrow> usage_cap w' = usage_cap w \<Longrightarrow> dates w' = dates w \<Longrightarrow>
      exec_answers w' = exec_answers w \<Longrightarrow> sign_answers w' = sign_answers w \<Longrightarrow> Q () w'"
  shows "wp (coin_unlock_round st) Q w"
proof -
  let ?e = "expire_pool t p"
  have expire: "wp (expire_coins (codec st) (gas_station_store st))
      (\<lambda>ids w'. ids = [fst (object_ref c)] \<and> in_state (codec st) (gas_station_store st) t ?e w') w"
    by (rule wp_expire_one [OF state(1,2,4) due]) simp
  show ?thesis
    unfolding coin_unlock_round_def wp_pbind
  proof (rule wp_ptry, rule wp_also [OF expire keeps_outside_expire refl], goal_cases)
    case (1 ids w1)
    then have ids: "ids = [fst (object_ref c)]"
      and w1: "in_state (codec st) (gas_station_store st) t ?e w1" "outside w1 = outside w"
      by simp_all
    have codec: "codec_ok (codec st)" using state(2) by (simp add: test_time_def)
    have sums: "bal_sum (avail ?e) + bal_sum [c] \<le> 2 ^ 53" "int (length (avail ?e)) + int (length [c]) \<le> 2 ^ 53"
      using fits_sums [OF returned] by simp_all
    have nodes: "object_answers w1 = Inr [shown c] # os" using w1(2) node by (simp add: outside_def)
    have "wp (pbind (get_latest_gas_objects (fuel st) ids) (\<lambda>latest. release_gas_coins st (present_values latest))) Q w1"
      unfolding wp_pbind ids
    proof (rule wp_latest_one [where c = c and later = os, OF state(3) nodes], unfold present_one
        release_gas_coins_def wp_punwrap, rule wp_retry_forever [OF state(3)],
        rule wp_also [where R = "\<lambda>_. in_state (codec st) (gas_station_store st) t (add_pool [c] ?e)",
          OF _ keeps_outside_storage(1) refl], goal_cases)
      case (1 cs)
      show ?case
        by (rule wp_add [where p = ?e and t = t, OF _ codec sums]) (use w1 in simp_all)
    next
      case (2 cs u w2)
      then show ?case using w1(2) by (cases u) (auto simp: outside_def answers_def intro!: post)
    qed
    then show ?case using ids by (simp add: pwhen_def)
  qed
qed

end
