(* ===== verification/Station_Tests.thy ===== *)
theory Station_Tests
  imports Station_Kit
begin

text \<open>
  The tests of \<open>src/src/gas_station/mod.rs\<close>, run on the model against a local network: reserving,
  a sponsored transaction from the reservation to the return of the coin, a transaction the network
  refuses, and the expiry of a reservation. The task that returns expired coins runs while the test
  sleeps. The two tests that are marked \<open>ignore\<close> are left out: they ask for a comparison of the payment
  with the reservation, which the code does not make.
\<close>

section \<open>The tests\<close>

definition test_station_reserve_gas where
  "test_station_reserve_gas E =
     pbind (start_gas_station E nanos_per_iota None) (\<lambda>container.
     let station = get_gas_station_arc container in
     pbind (punwrap (reserve_gas station (nanos_per_iota * 3) 10000)) (\<lambda>(sponsor1, res_id1, gas_coins).
     pseq (assert (length gas_coins = 3)) (
     pseq (check (query_pool_available_coin_count station) (\<lambda>n. n = 7)) (
     pbind (punwrap (reserve_gas station (nanos_per_iota * 7) 10000)) (\<lambda>(sponsor2, res_id2, gas_coins). in_order
       [assert (length gas_coins = 7),
        assert (sponsor1 = sponsor2),
        check (query_pool_available_coin_count station) (\<lambda>n. n = 0),
        check (ptry (reserve_gas station 1 10000)) isl])))))"

definition test_e2e_gas_station_flow where
  "test_e2e_gas_station_flow E price budget =
     pbind (start_gas_station E nanos_per_iota None) (\<lambda>container.
     let station = get_gas_station_arc container in
     pseq (check (ptry (reserve_gas station (nanos_per_iota + 1) 10000)) isl) (
     pbind (punwrap (reserve_gas station nanos_per_iota 10000)) (\<lambda>(sponsor, reservation_id, gas_coins).
     pseq (assert (length gas_coins = 1)) (
     pseq (check (query_pool_available_coin_count station) (\<lambda>n. n = 0)) (
     pseq (check (ptry (reserve_gas station 1 10000)) isl) (
     let (tx_data, usig) = create_test_transaction E price budget sponsor gas_coins in
     pbind (punwrap (execute_transaction station reservation_id tx_data usig None)) (\<lambda>effects. in_order
       [assert (status_ok effects),
        check (query_pool_available_coin_count station) (\<lambda>n. n = 1)])))))))"

definition test_invalid_transaction where
  "test_invalid_transaction E sender usig =
     pbind (start_gas_station E nanos_per_iota None) (\<lambda>container.
     let station = get_gas_station_arc container in
     pbind (punwrap (reserve_gas station nanos_per_iota 10000)) (\<lambda>(sponsor, reservation_id, gas_coins).
     let tx_data = \<lparr>tx_sender = sender, gas_owner = sponsor, payment = gas_coins, gas_price = 1,
           gas_budget = 1, tx_kind = ProgrammableTransaction [] []\<rparr> in
     in_order
       [check (ptry (execute_transaction station reservation_id tx_data usig None)) isl,
        check (query_pool_available_coin_count station) (\<lambda>n. n = 1)]))"

definition test_station_coin_expiration where
  "test_station_coin_expiration E price budget =
     pbind (start_gas_station E nanos_per_iota None) (\<lambda>container.
     let station = get_gas_station_arc container in
     pbind (punwrap (reserve_gas station nanos_per_iota 1000)) (\<lambda>(sponsor, reservation_id, gas_coins).
     pseq (assert (length gas_coins = 1)) (
     pseq (check (query_pool_available_coin_count station) (\<lambda>n. n = 0)) (
     pseq (check (ptry (reserve_gas station 1 1000)) isl) (
     pseq (pseq (sleep 5000) (coin_unlock_round station)) (
     pseq (check (query_pool_available_coin_count station) (\<lambda>n. n = 1)) (
     let (tx_data, usig) = create_test_transaction E price budget sponsor gas_coins in
     pseq (check (ptry (execute_transaction station reservation_id tx_data usig None)) isl)
       (pseq (punwrap (reserve_gas station 1 1000)) (pret ())))))))))"

subsection \<open>Requests to reserve\<close>

record spec =
  spec_gas_budget :: u64
  spec_is_ok :: bool

definition spec_new :: "u64 \<Rightarrow> bool \<Rightarrow> spec" where
  "spec_new b ok = \<lparr>spec_gas_budget = b, spec_is_ok = ok\<rparr>"

definition run_test_for_max_gas_budget where
  "run_test_for_max_gas_budget E max_budget =
     (let test_set = [spec_new max_budget True, spec_new (max_budget - 1) True,
            spec_new (max_budget + 1) False, spec_new 0 False]
      in pbind (start_gas_station E nanos_per_iota (Some max_budget)) (\<lambda>container.
         let station = get_gas_station_arc container in
         for_loop test_set () (\<lambda>spec _.
           let request = \<lparr>rg_gas_budget = spec_gas_budget spec, rg_reserve_duration_secs = 10\<rparr>;
               result = check_reserve_gas_request_validity station request
           in assert (is_ok result = spec_is_ok spec))))"

definition with_default_max_gas_budget where
  "with_default_max_gas_budget E = run_test_for_max_gas_budget E default_max_gas_budget"

definition with_lower_max_gas_budget where
  "with_lower_max_gas_budget E = run_test_for_max_gas_budget E (default_max_gas_budget - 1000)"

definition with_larger_gas_budget where
  "with_larger_gas_budget E = run_test_for_max_gas_budget E (default_max_gas_budget + 1000)"

section \<open>Coins of one IOTA\<close>

lemma nanos: "uint nanos_per_iota = 1000000000" "nanos_per_iota = 1000000000"
  by (simp_all add: nanos_per_iota_def)

lemma taken_uniform:
  "uniform u cs \<Longrightarrow> 0 < uint u \<Longrightarrow> k \<le> length cs \<Longrightarrow> k \<le> m \<Longrightarrow> taken (int k * uint u) m cs = k"
proof (induction cs arbitrary: k m)
  case Nil
  then show ?case by simp
next
  case (Cons c cs)
  show ?case
  proof (cases k)
    case 0
    then show ?thesis by simp
  next
    case (Suc j)
    have pos: "0 < int k * uint u" using Cons.prems(2) Suc by simp
    have "taken (int j * uint u) (m - 1) cs = j"
      by (rule Cons.IH) (use Cons.prems Suc in auto)
    moreover have "int k * uint u - uint u = int j * uint u" by (simp add: Suc algebra_simps)
    ultimately show ?thesis using Cons.prems pos Suc by simp
  qed
qed

lemma cut_uniform:
  assumes "uniform u cs" "0 < uint u" "k \<le> length cs" "k \<le> 256"
  shows "cut (int k * uint u) cs = Some k"
proof -
  have "bal_sum (take k cs) = int k * uint u"
    using uniform_sum [OF uniform_sub(2) [OF assms(1)], of k] assms(3) by simp
  then show ?thesis
    using taken_uniform [OF assms(1-3)] assms(4) by (simp add: cut_def max_gas_per_query_def Let_def)
qed

lemma cut_too_much: "bal_sum cs < b \<Longrightarrow> cut b cs = None"
  using bal_sum_take_le [of "taken b max_gas_per_query cs" cs] by (simp add: cut_def Let_def)

lemma cut_first: "0 < balance c \<Longrightarrow> cut 1 (c # cs) = Some 1"
proof -
  assume "0 < balance c"
  then have "1 \<le> uint (balance c)" by (simp add: word_less_def)
  then show ?thesis by (cases cs) (simp_all add: cut_def max_gas_per_query_def)
qed

text \<open>The initializer leaves coins of the target balance alone.\<close>

lemma target_coins_small:
  assumes "env_ok env" and "uniform (target_init_coin_balance env) coins"
  shows "large_of env coins = []" "small_of env coins = coins"
proof -
  have share: "unat (object_share env * 2) = unat (object_share env) * 2"
    using assms(1) share_nat [OF assms(1)] by (subst unat_mult_lem [THEN iffD1]) (simp_all add: env_ok_def)
  have "small env c" if "c \<in> set coins" for c
    using that assms(2) share share_nat [OF assms(1)] by (simp add: small_def uniform_def word_le_nat_alt)
  then show "large_of env coins = []" "small_of env coins = coins"
    by (simp_all add: large_of_def small_of_def)
qed

lemma target_coins_kept:
  assumes "env_ok env" and "uniform (target_init_coin_balance env) coins"
    and "honest env es (large_of env coins)"
  shows "init_coins env es coins = coins" "es = []"
  using assms(3) target_coins_small [OF assms(1,2)] by (cases es; simp add: init_coins_def)+

section \<open>A station that runs\<close>

text \<open>The pool of the station is \<open>p\<close>, its budget for today is not used up, and these answers are left.\<close>

definition running where
  "running E t p xs ss os w \<longleftrightarrow>
     in_state (cl_codec E) (cl_storage E) t p w \<and> test_time (cl_codec E) (cl_latest E) t \<and> 0 < cl_fuel E \<and>
     budget_left w \<and> exec_answers w = xs \<and> sign_answers w = ss \<and> object_answers w = os"

lemma running_outside:
  "running E t p xs ss os w \<Longrightarrow> in_state (cl_codec E) (cl_storage E) t q w' \<Longrightarrow> outside w' = outside w \<Longrightarrow>
     running E t q xs ss os w'"
  using budget_left_outside [of w' w] by (simp add: running_def outside_def answers_def)

text \<open>The network of these tests: coins of one IOTA, which need no split.\<close>

definition local_network where
  "local_network E coins t xs ss os w \<longleftrightarrow> uniform nanos_per_iota coins \<and> object_answers w = os \<and>
     (\<exists>d. dates w = [d]) \<and>
     (\<exists>price spent es a b c. cluster E coins nanos_per_iota t price spent es (a, b, c, xs, ss) w)"

definition started where
  "started coins = add_pool coins (empty_pool\<lparr>init_lock := Some 0\<rparr>)"

lemma started_fields [simp]:
  "avail (started coins) = coins" "next_id (started coins) = 0" "maintenance (started coins) = None"
  "reserved (started coins) = Map.empty" "pool.expiry (started coins) = Map.empty"
  by (simp_all add: started_def)

lemma wp_start:
  fixes w :: "('addr, 'id, 'dg, 'sig, 'z) init_world_scheme"
  assumes "local_network E coins t xs ss os w"
    and "\<And>w' :: ('addr, 'id, 'dg, 'sig, 'z) init_world_scheme. running E t (started coins) xs ss os w' \<Longrightarrow>
      Q \<lparr>container_inner = cluster_station E nanos_per_iota m, cancel_sender = True\<rparr> w'"
  shows "wp (start_gas_station E nanos_per_iota m) Q w"
proof -
  obtain d price spent es a b c where net: "dates w = [d]"
    "cluster E coins nanos_per_iota t price spent es (a, b, c, xs, ss) w"
    "uniform nanos_per_iota coins" "object_answers w = os"
    using assms(1) by (auto simp: local_network_def)
  have time: "test_time (cl_codec E) (cl_latest E) t" using net(2) test_startD(2) by (auto simp: cluster_def)
  have fuel: "0 < cl_fuel E"
    using net(2) by (auto simp: cluster_def served_def node_serves_def cluster_station_def gas_station_new_def)
  show ?thesis
  proof (rule wp_start_gas_station [OF net(2,1)])
    fix w' :: "('addr, 'id, 'dg, 'sig, 'z) init_world_scheme"
    let ?env = "cluster_env E nanos_per_iota price spent"
    assume w': "env_ok ?env" "honest ?env es (large_of ?env coins)"
      "in_state (cl_codec E) (cl_storage E) t
        (add_pool (init_coins ?env es coins) (empty_pool\<lparr>init_lock := Some 0\<rparr>)) w'"
      "station_ready d w (a, b, c, xs, ss) w'"
    have "target_init_coin_balance ?env = nanos_per_iota" by (simp add: cluster_env_def)
    then have kept: "init_coins ?env es coins = coins"
      using net(3) by (intro target_coins_kept [OF w'(1) _ w'(2)]) simp
    have "running E t (started coins) xs ss os w'"
      using w'(3,4) net(4) time fuel
      by (simp add: running_def started_def kept station_ready_def answers_def budget_left_new)
    then show "Q \<lparr>container_inner = cluster_station E nanos_per_iota m, cancel_sender = True\<rparr> w'"
      by (rule assms(2))
  qed
qed

lemma wp_reserve_running:
  fixes w :: "('addr, 'id, 'dg, 'sig, 'z) init_world_scheme"
  assumes "running E t p xs ss os w" and "cut (uint b) (avail p) = Some n"
    and "uint b \<le> 2 ^ 52" and "ms \<le> 100000" and "b \<noteq> 0" and "maintenance p = None" and "next_id p < 2 ^ 63 - 1"
    and "\<And>w' :: ('addr, 'id, 'dg, 'sig, 'z) init_world_scheme.
      running E t (reserve_pool n (t + int ms) p) xs ss os w' \<Longrightarrow>
      Q (cl_sponsor E, of_nat (Suc (next_id p)), map object_ref (take n (avail p))) w'"
  shows "wp (reserve_gas (cluster_station E target m) b ms) Q w"
proof (rule wp_station_reserve [where t = t and p = p and n = n], unfold station_same)
  fix w' :: "('addr, 'id, 'dg, 'sig, 'z) init_world_scheme"
  assume "in_state (cl_codec E) (cl_storage E) t (reserve_pool n (t + int ms) p) w'" "outside w' = outside w"
  then show "Q (cl_sponsor E, of_nat (Suc (next_id p)), map object_ref (take n (avail p))) w'"
    by (rule assms(8) [OF running_outside [OF assms(1)]])
qed (use assms(1-7) in \<open>simp_all add: running_def\<close>)

lemma wp_refused_running:
  fixes w :: "('addr, 'id, 'dg, 'sig, 'z) init_world_scheme"
  assumes "running E t p xs ss os w" and "cut (uint b) (avail p) = None"
    and "uint b \<le> 2 ^ 52" and "ms \<le> 100000"
    and "\<And>e (w' :: ('addr, 'id, 'dg, 'sig, 'z) init_world_scheme). running E t p xs ss os w' \<Longrightarrow> Q (Inl e) w'"
  shows "wp (ptry (reserve_gas (cluster_station E target m) b ms)) Q w"
proof (rule wp_station_refuses [where t = t and p = p], unfold station_same)
  fix e and w' :: "('addr, 'id, 'dg, 'sig, 'z) init_world_scheme"
  assume "in_state (cl_codec E) (cl_storage E) t p w'" "outside w' = outside w"
  then show "Q (Inl e) w'" by (rule assms(5) [OF running_outside [OF assms(1)]])
qed (use assms(1-4) in \<open>simp_all add: running_def\<close>)

lemma wp_count_running:
  fixes w :: "('addr, 'id, 'dg, 'sig, 'z) init_world_scheme"
  shows "running E t p xs ss os w \<Longrightarrow> Q (of_nat (length (avail p))) w \<Longrightarrow>
    wp (query_pool_available_coin_count (cluster_station E target m)) Q w"
  by (rule wp_query_count [where t = t and p = p]) (auto simp: running_def)

lemma wp_execute_gone:
  fixes w :: "('addr, 'id, 'dg, 'sig, 'z) init_world_scheme"
  assumes "running E t p xs ss os w" and "gas_owner d = cl_sponsor E" and "check_transaction_validity d = Ok ()"
    and "reserved p (unat rid) = None"
    and "\<And>e (w' :: ('addr, 'id, 'dg, 'sig, 'z) init_world_scheme). running E t p xs ss os w' \<Longrightarrow> Q (Inl e) w'"
  shows "wp (ptry (execute_transaction (cluster_station E target m) rid d usig rt)) Q w"
proof -
  have owner: "cl_sponsor E \<noteq> gas_owner d \<longleftrightarrow> False" using assms(2) by simp
  have state: "in_state (cl_codec E) (cl_storage E) t p w" using assms(1) by (simp add: running_def)
  show ?thesis
    unfolding execute_transaction_def station_same owner if_False Let_def wp_ptry_pseq assms(3) wp_ptry_basic sum.case
    by (rule wp_ready_gone [OF state assms(4)], unfold sum.case, rule assms(5), rule running_outside [OF assms(1)])
qed

lemma wp_sleep_running:
  fixes w :: "('addr, 'id, 'dg, 'sig, 'z) init_world_scheme"
  assumes "running E t p xs ss os w" and "test_time (cl_codec E) (cl_latest E) (t + d)"
    and "\<And>w' :: ('addr, 'id, 'dg, 'sig, 'z) init_world_scheme. running E (t + d) p xs ss os w' \<Longrightarrow> Q () w'"
  shows "wp (sleep d) Q w"
  using assms by (simp add: sleep_def running_def in_state_def quiet_def budget_left_def)

lemma wp_unlock_running:
  fixes w :: "('addr, 'id, 'dg, 'sig, 'z) init_world_scheme"
  assumes "running E t p xs ss (Inr [shown c] # os) w" and "no_empty_loan p"
    and "{i. expired_at t p i \<and> reserved p i \<noteq> None} = {k}" and "reserved p k = Some [fst (object_ref c)]"
    and "fits p [c]"
    and "\<And>w' :: ('addr, 'id, 'dg, 'sig, 'z) init_world_scheme.
      running E t (add_pool [c] (expire_pool t p)) xs ss os w' \<Longrightarrow> Q () w'"
  shows "wp (coin_unlock_round (cluster_station E target m)) Q w"
proof (rule wp_unlock_one [where t = t and p = p and k = k and c = c and os = os], unfold station_same)
  fix w' :: "('addr, 'id, 'dg, 'sig, 'z) init_world_scheme"
  assume "in_state (cl_codec E) (cl_storage E) t (add_pool [c] (expire_pool t p)) w'" "object_answers w' = os"
    "usage_cap w' = usage_cap w" "dates w' = dates w" "exec_answers w' = exec_answers w"
    "sign_answers w' = sign_answers w"
  then show "Q () w'" using assms(1) by (intro assms(6)) (simp add: running_def budget_left_def)
qed (use assms(1-5) in \<open>simp_all add: running_def\<close>)

lemma wp_execute_running:
  fixes w :: "('addr, 'id, 'dg, 'sig, 'z) init_world_scheme"
  assumes "running E t p (Inr (Some e) # xs) (Inr s # ss) (Inr [shown c] # os) w"
    and "gas_owner d = cl_sponsor E" and "check_transaction_validity d = Ok ()" and "payment d = [object_ref c]"
    and "reserved p (unat rid) = Some ids"
    and "new = \<lparr>object_ref = gas_object e, balance = balance c - net_gas_usage e\<rparr>"
    and "balance new \<le> 200 * target" and "fits p [new]"
    and "\<And>w' :: ('addr, 'id, 'dg, 'sig, 'z) init_world_scheme.
      in_state (cl_codec E) (cl_storage E) t (add_pool [new] (ready_pool (unat rid) p)) w' \<Longrightarrow> Q e w'"
  shows "wp (execute_transaction (cluster_station E target m) rid d usig rt) Q w"
proof -
  obtain day where "dates w = [day]" using assms(1) by (auto simp: running_def budget_left_def)
  with assms show ?thesis
    by (intro wp_execute_ok [where c = c and ids = ids and os = os and s = s and ss = ss and xs = xs and day = day and
          new = new and t = t and p = p])
      (simp_all add: running_def test_time_def oversized_def new_coin_balance_factor_threshold_def)
qed

lemma wp_invalid_running:
  fixes w :: "('addr, 'id, 'dg, 'sig, 'z) init_world_scheme"
  assumes "running E t p (map Inl [e0, e1, e2, e3] @ xs) (Inr s # ss) (Inr [shown c] # Inr [shown c] # os) w"
    and "gas_owner d = cl_sponsor E" and "check_transaction_validity d = Ok ()" and "payment d = [object_ref c]"
    and "reserved p (unat rid) = Some ids" and "balance c \<le> 200 * target" and "fits p [c]"
    and "\<And>w' :: ('addr, 'id, 'dg, 'sig, 'z) init_world_scheme.
      in_state (cl_codec E) (cl_storage E) t (add_pool [c] (ready_pool (unat rid) p)) w' \<Longrightarrow> Q (Inl e3) w'"
  shows "wp (ptry (execute_transaction (cluster_station E target m) rid d usig rt)) Q w"
  using assms
  by (intro wp_execute_refused [where c = c and ids = ids and os = os and s = s and ss = ss and xs = xs and t = t and
        p = p and ?e0.0 = e0 and ?e1.0 = e1 and ?e2.0 = e2 and ?e3.0 = e3])
    (simp_all add: running_def test_time_def oversized_def new_coin_balance_factor_threshold_def)

section \<open>They pass\<close>

lemma reserve_test_passes:
  assumes "local_network E coins t xs ss os w" and "length coins = 10"
  shows "passes (test_station_reserve_gas E) w"
proof -
  have u: "uniform nanos_per_iota coins" using assms(1) by (simp add: local_network_def)
  have cuts: "cut (uint (nanos_per_iota * 3)) coins = Some 3"
    "cut (uint (nanos_per_iota * 7)) (drop 3 coins) = Some 7"
    using cut_uniform [OF u, of 3] cut_uniform [OF uniform_sub(1) [OF u], of 7 3] assms(2)
    by (simp_all add: nanos)
  show ?thesis
    unfolding passes_wp test_station_reserve_gas_def wp_pbind wp_pseq wp_punwrap Let_def
    apply (rule wp_start [OF assms(1)], unfold get_gas_station_arc_def gas_station_container.simps wp_pbind wp_punwrap)
    apply (rule wp_reserve_running, assumption, simp add: cuts, simp add: nanos, simp, simp add: nanos, simp, simp)
    apply (unfold prod.case wp_pseq wp_pbind wp_punwrap wp_assert wp_check, rule conjI, simp add: assms(2))
    apply (rule wp_count_running, assumption, rule conjI, simp add: assms(2))
    apply (rule wp_reserve_running, assumption, simp add: cuts, simp add: nanos, simp, simp add: nanos, simp, simp)
    apply (unfold prod.case wp_in_order wp_assert wp_check, rule conjI, simp add: assms(2), rule conjI, rule refl)
    apply (rule wp_count_running, assumption, rule conjI, simp add: assms(2))
    apply (rule wp_refused_running, assumption, simp add: assms(2) cut_def, simp, simp, simp)
    done
qed

text \<open>One coin, which a transaction spends.\<close>

definition transfers where
  "transfers E \<longleftrightarrow> (\<forall>cmd \<in> set (iter_commands (cl_transfer E)). GasCoin \<notin> set (checked_args cmd))"

lemma transfer_valid:
  assumes "transfers E" and "create_test_transaction E price budget sponsor coins = (d, usig)"
  shows "check_transaction_validity d = Ok ()" "gas_owner d = sponsor" "payment d = coins"
  using assms
  by (auto simp: create_test_transaction_def check_transaction_validity_def transfers_def Let_def list_ex_iff)

lemma e2e_test_passes:
  assumes "local_network E [c] t (Inr (Some e) # xs) (Inr s # ss) (Inr [shown c] # os) w" and "transfers E"
    and "status_ok e" and "nanos_per_iota - net_gas_usage e \<le> 200 * nanos_per_iota"
  shows "passes (test_e2e_gas_station_flow E price budget) w"
proof -
  have c: "balance c = nanos_per_iota" using assms(1) by (simp add: local_network_def)
  obtain d usig where d: "create_test_transaction E price budget (cl_sponsor E) [object_ref c] = (d, usig)"
    by fastforce
  note valid = transfer_valid [OF assms(2) d]
  let ?new = "\<lparr>object_ref = gas_object e, balance = balance c - net_gas_usage e\<rparr>"
  have worth: "uint (nanos_per_iota - net_gas_usage e) \<le> 200000000000"
    using assms(4) by (simp add: word_le_def nanos_per_iota_def)
  have cuts: "cut (uint (nanos_per_iota + 1)) [c] = None" "cut (uint nanos_per_iota) [c] = Some 1"
    using cut_uniform [of nanos_per_iota "[c]" 1] c by (simp_all add: nanos cut_too_much)
  show ?thesis
    unfolding passes_wp test_e2e_gas_station_flow_def wp_pbind wp_pseq wp_punwrap Let_def
    apply (rule wp_start [OF assms(1)], unfold get_gas_station_arc_def gas_station_container.simps wp_pseq wp_pbind
        wp_punwrap wp_check)
    apply (rule wp_refused_running, assumption, simp add: cuts, simp add: nanos, simp, rule conjI, simp)
    apply (rule wp_reserve_running, assumption, simp add: cuts, simp add: nanos, simp, simp add: nanos, simp, simp)
    apply (unfold prod.case wp_pseq wp_assert wp_check, rule conjI, simp)
    apply (rule wp_count_running, assumption, rule conjI, simp)
    apply (rule wp_refused_running, assumption, simp add: cut_def, simp, simp, rule conjI, simp)
    apply (simp only: started_fields list.map take_Suc_Cons take_0 One_nat_def [symmetric] d prod.case wp_pbind wp_punwrap)
    apply (simp add: d del: wp_in_order)
    apply (rule wp_execute_running [where new = ?new], assumption)
    using worth assms(3,4) c
    apply (simp_all add: valid fits_def nanos)
    apply (rule wp_query_count [where t = t and p = "add_pool [?new] (ready_pool (Suc 0) (reserve_pool (Suc 0) (t + 10000) (started [c])))"], simp_all)
    done
qed

lemma invalid_test_passes:
  assumes "local_network E [c] t (map Inl [e0, e1, e2, e3] @ xs) (Inr s # ss) (Inr [shown c] # Inr [shown c] # os) w"
  shows "passes (test_invalid_transaction E sender usig) w"
proof -
  have c: "balance c = nanos_per_iota" using assms(1) by (simp add: local_network_def)
  have cuts: "cut (uint nanos_per_iota) [c] = Some 1"
    using cut_uniform [of nanos_per_iota "[c]" 1] c by (simp add: nanos)
  have valid: "check_transaction_validity (\<lparr>tx_sender = sender, gas_owner = g, payment = p, gas_price = 1,
      gas_budget = 1, tx_kind = ProgrammableTransaction [] []\<rparr>) = Ok ()" for g and p :: "('b, 'c) object_ref list"
    by (simp add: check_transaction_validity_def)
  show ?thesis
    unfolding passes_wp test_invalid_transaction_def wp_pbind wp_pseq wp_punwrap Let_def
    apply (rule wp_start [OF assms(1)], unfold get_gas_station_arc_def gas_station_container.simps wp_pseq wp_pbind
        wp_punwrap wp_check)
    apply (rule wp_reserve_running, assumption, simp add: cuts, simp add: nanos, simp, simp add: nanos, simp, simp)
    apply (unfold prod.case wp_in_order wp_check)
    apply (rule wp_invalid_running [where c = c], assumption, simp, simp add: valid, simp, simp, simp add: c nanos,
        simp add: fits_def c nanos, rule conjI, simp)
    apply (rule wp_query_count [where t = t and p = "add_pool [c] (ready_pool (Suc 0) (reserve_pool (Suc 0) (t + 10000) (started [c])))"], simp_all)
    done
qed

lemma coin_expiration_test_passes:
  assumes "local_network E [c] t xs ss (Inr [shown c] # os) w" and "transfers E"
  shows "passes (test_station_coin_expiration E price budget) w"
proof -
  have c: "balance c = nanos_per_iota" using assms(1) by (simp add: local_network_def)
  have later: "test_time (cl_codec E) (cl_latest E) (t + 5000)"
    using assms(1) by (auto simp: local_network_def cluster_def intro: test_startD(3))
  obtain d usig where d: "create_test_transaction E price budget (cl_sponsor E) [object_ref c] = (d, usig)"
    by fastforce
  note valid = transfer_valid [OF assms(2) d]
  have cuts: "cut (uint nanos_per_iota) [c] = Some 1" "cut 1 [c] = Some 1"
    using cut_uniform [of nanos_per_iota "[c]" 1] c cut_first [of c "[]"] by (simp_all add: nanos)
  have early: "1000 \<le> t"
    using assms(1) by (auto simp: local_network_def cluster_def test_start_def test_time_def)
  let ?lent = "reserve_pool 1 (t + 1000) (started [c])"
  let ?freed = "add_pool [c] (expire_pool (t + 5000) ?lent)"
  have due: "{i. expired_at (t + 5000) ?lent i \<and> reserved ?lent i \<noteq> None} = {1}"
    using early by (auto simp: expired_at_def split: if_splits)
  have loan: "no_empty_loan ?lent" "reserved ?lent 1 = Some [fst (object_ref c)]"
    by (simp_all add: no_empty_loan_def coin_id_def)
  show ?thesis
    unfolding passes_wp test_station_coin_expiration_def wp_pbind wp_pseq wp_punwrap Let_def
    apply (rule wp_start [OF assms(1)], unfold get_gas_station_arc_def gas_station_container.simps wp_pseq wp_pbind
        wp_punwrap wp_check)
    apply (rule wp_reserve_running, assumption, simp add: cuts, simp add: nanos, simp, simp add: nanos, simp, simp)
    apply (unfold prod.case wp_pseq wp_assert wp_check, rule conjI, simp)
    apply (rule wp_count_running, assumption, rule conjI, simp)
    apply (rule wp_refused_running, assumption, simp add: cut_def, simp, simp, rule conjI, simp)
    apply (rule wp_sleep_running, assumption, rule later)
    apply (rule wp_unlock_running [where k = 1 and c = c], assumption, use loan in simp, use due in simp,
        use loan in simp, simp add: fits_def c nanos)
    apply (rule wp_count_running, assumption, rule conjI, simp)
    apply (simp only: started_fields list.map take_Suc_Cons take_0 d prod.case wp_pseq wp_check wp_punwrap)
    apply (rule wp_execute_gone, assumption, simp add: valid, simp add: valid)
     apply (use early in \<open>simp add: expired_at_def\<close>)
    apply (rule conjI, simp)
    apply (rule wp_reserve_running, assumption, simp add: cuts, simp, simp, simp, simp, simp)
    apply simp
    done
qed

section \<open>All of them\<close>

lemma validity_test_passes:
  assumes "local_network E coins t xs ss os w" and "max_budget \<noteq> 0" and "max_budget + 1 \<noteq> 0"
    and "max_budget - 1 \<noteq> 0"
  shows "passes (run_test_for_max_gas_budget E max_budget) w"
proof -
  have order: "max_budget - 1 \<le> max_budget" "max_budget < max_budget + 1"
    using unatSuc [of "max_budget - 1"] unatSuc [of max_budget] assms(2,3)
    by (simp_all add: word_le_nat_alt word_less_nat_alt add.commute)
  show ?thesis
    unfolding passes_wp run_test_for_max_gas_budget_def Let_def wp_pbind
    by (rule wp_start [OF assms(1)])
      (use assms(2-4) order in \<open>simp add: get_gas_station_arc_def check_reserve_gas_request_validity_def
        cluster_station_def gas_station_new_def spec_new_def reserve_gas_max_duration_s_def not_less\<close>)
qed

lemma validity_tests_pass:
  assumes "local_network E coins t xs ss os w"
  shows "passes (with_default_max_gas_budget E) w" "passes (with_lower_max_gas_budget E) w"
    "passes (with_larger_gas_budget E) w"
  unfolding with_default_max_gas_budget_def with_lower_max_gas_budget_def with_larger_gas_budget_def
  by (rule validity_test_passes [OF assms]; simp add: default_max_gas_budget_def nanos_per_iota_def)+

text \<open>C39: the station passes its tests. On a local network that lists the sponsor's coins of one IOTA and
  answers the requests, from the start of the initializer to the calls of the station: coins are lent up
  to the last one and no further; a transaction with a lent coin is signed and executed and its coin comes
  back; a transaction the network refuses gives the coin back as it was; and an expired reservation is
  returned by the background task, after which its transaction is refused and the coin is lent again.
  Requests are checked against three values of the largest budget.\<close>

theorem station_passes_its_tests:
  fixes w1 :: "('addr, 'id, 'dg, 'sig, 'z) init_world_scheme"
  assumes "local_network E ten t xs1 ss1 os1 w1" and "length ten = 10" and "transfers E"
    and "local_network E [c] t (Inr (Some e) # xs2) (Inr s # ss2) (Inr [shown c] # os2) w2"
    and "status_ok e" and "nanos_per_iota - net_gas_usage e \<le> 200 * nanos_per_iota"
    and "local_network E [c] t (map Inl [e0, e1, e2, e3] @ xs3) (Inr s # ss3) (Inr [shown c] # Inr [shown c] # os3) w3"
    and "local_network E [c] t xs4 ss4 (Inr [shown c] # os4) w4"
  shows "passes (test_station_reserve_gas E) w1 \<and> passes (test_e2e_gas_station_flow E price budget) w2 \<and>
    passes (test_invalid_transaction E sender usig) w3 \<and>
    passes (test_station_coin_expiration E price budget) w4 \<and>
    passes (with_default_max_gas_budget E) w1 \<and> passes (with_lower_max_gas_budget E) w1 \<and>
    passes (with_larger_gas_budget E) w1"
  by (intro conjI reserve_test_passes [OF assms(1,2)] e2e_test_passes [OF assms(4,3,5,6)]
      invalid_test_passes [OF assms(7)] coin_expiration_test_passes [OF assms(8,3)] validity_tests_pass [OF assms(1)])

section \<open>A network\<close>

definition ex_cluster :: "(nat, nat, nat, nat) test_cluster" where
  "ex_cluster = \<lparr>cl_codec = nat_codec, cl_latest = 2000000, cl_show_address = show_nat, cl_fuel = 2,
     cl_sponsor = 2, cl_storage = ex_self, cl_framework = 0, cl_user = 1,
     cl_transfer = ProgrammableTransaction [] [TransferObjects [Input 0] (Input 1)], cl_user_sig = 78\<rparr>"

definition ex_iota :: "nat \<Rightarrow> (nat, nat) gas_coin" where
  "ex_iota i = \<lparr>object_ref = (i, 1, i), balance = nanos_per_iota\<rparr>"

definition ex_net ::
  "(nat, nat) gas_coin list \<Rightarrow> (error + (nat, nat) tx_effects option) list \<Rightarrow>
     (error + (nat, nat) object_response list) list \<Rightarrow> (nat, nat, nat, nat) init_world"
where
  "ex_net coins xs os =
     (let page = Inr \<lparr>page_data = coins, has_next_page = False, next_cursor = None\<rparr>
      in (ex_init_world [page, page])\<lparr>keys := Map.empty, clock := [1000000], price_answers := [Inr 1],
           object_answers := os, inspect_answers := [Inr 2500], exec_answers := xs, sign_answers := [Inr 77]\<rparr>)"

lemma ex_net_local:
  assumes "uniform nanos_per_iota coins" and "coins \<noteq> []" and "length coins \<le> 10"
  shows "local_network ex_cluster coins 1000000 xs [Inr 77] os (ex_net coins xs os)"
proof -
  let ?page = "\<lparr>page_data = coins, has_next_page = False, next_cursor = None\<rparr>"
  let ?env = "cluster_env ex_cluster nanos_per_iota 1 2500"
  have env: "env_ok ?env" by (simp add: cluster_env_def env_ok_def nanos_per_iota_def ex_cluster_def)
  have "large_of ?env coins = []"
    by (rule target_coins_small(1) [OF env]) (use assms(1) in \<open>simp add: cluster_env_def\<close>)
  then have serves: "node_serves (cluster_station ex_cluster nanos_per_iota None) ?env coins []"
    using env by (simp add: node_serves_def) (simp add: cluster_env_def nanos_per_iota_def ex_cluster_def)
  have served: "served (cluster_station ex_cluster nanos_per_iota None) (cl_framework ex_cluster) nanos_per_iota 1 2500
      Init [?page] [] ([Inr ?page], [Inr 1], [Inr 2500], xs, [Inr 77]) ([], [], [], xs, [Inr 77])"
    using serves assms(2) unfolding served_def station_same by (simp add: ex_cluster_def)
  have "bal_sum coins = 1000000000 * int (length coins)"
    using uniform_sum [OF assms(1)] by (simp add: nanos)
  then have fits: "fits empty_pool coins" using assms(3) by (simp add: fits_def)
  have "cluster ex_cluster coins nanos_per_iota 1000000 1 2500 [] ([], [], [], xs, [Inr 77]) (ex_net coins xs os)"
    unfolding cluster_def
    by (intro conjI exI [of _ "[?page]"] exI [of _ "[Inr ?page]"] exI [of _ "([Inr 1], [Inr 2500], xs, [Inr 77])"])
      (use served fits in \<open>auto simp: ex_net_def ex_init_world_def answers_def quiet_def test_start_def test_time_def
        nat_codec_ok fresh_namespace_def Let_def ex_cluster_def\<close>)
  moreover have "\<exists>d. dates (ex_net coins xs os) = [d]" "object_answers (ex_net coins xs os) = os"
    by (simp_all add: ex_net_def ex_init_world_def Let_def)
  ultimately show ?thesis
    using assms(1) unfolding local_network_def by blast
qed

theorem station_passes_its_tests_witness:
  "passes (test_station_reserve_gas ex_cluster) (ex_net (map ex_iota [0..<10]) [] []) \<and>
   passes (test_e2e_gas_station_flow ex_cluster 1000 10000000)
     (ex_net [ex_iota 7] [Inr (Some ex_effects)] [Inr [shown (ex_iota 7)]])"
proof -
  have ten: "local_network ex_cluster (map ex_iota [0..<10]) 1000000 [] [Inr 77] [] (ex_net (map ex_iota [0..<10]) [] [])"
    by (rule ex_net_local) (simp_all add: uniform_def ex_iota_def)
  have one: "local_network ex_cluster [ex_iota 7] 1000000 xs [Inr 77] os (ex_net [ex_iota 7] xs os)" for xs os
    by (rule ex_net_local) (simp_all add: ex_iota_def)
  have ok: "transfers ex_cluster" "status_ok ex_effects"
    "nanos_per_iota - net_gas_usage ex_effects \<le> 200 * nanos_per_iota"
    by (simp_all add: transfers_def ex_cluster_def ex_effects_def nanos_per_iota_def)
  let ?e = "Foreign ''refused''"
  from station_passes_its_tests [OF ten _ ok(1) one ok(2,3)
      one [of "map Inl [?e, ?e, ?e, ?e] @ []" "Inr [shown (ex_iota 7)] # Inr [shown (ex_iota 7)] # []"] one]
  show ?thesis by simp
qed

end
