(* ===== verification/Config_File.thy ===== *)
theory Config_File
  imports Access_Wellformed Config
begin

text \<open>
  Writing the configuration, \<open>src/src/config/mod.rs\<close>, and its round trip: the file that is written for
  a configuration reads back as this configuration. \<open>print_keypair\<close> is the text of a key pair.
\<close>

section \<open>Writing\<close>

definition ser_storage_config :: "gas_station_storage_config \<Rightarrow> json" where
  "ser_storage_config c =
     (case c of Redis url \<Rightarrow> JObject [(''redis'', JObject [(''redis_url'', JString url)])])"

definition ser_signer_config :: "(string \<Rightarrow> string) \<Rightarrow> tx_signer_config \<Rightarrow> json" where
  "ser_signer_config print_keypair c =
     (case c of
        Local keypair \<Rightarrow> JObject [(''local'', JObject [(''keypair'', JString (print_keypair keypair))])]
      | Sidecar url \<Rightarrow> JObject [(''sidecar'', JObject [(''sidecar_url'', JString url)])])"

definition ser_coin_init_config :: "coin_init_config \<Rightarrow> json" where
  "ser_coin_init_config c = JObject
     [(''target-init-balance'', ser_u64 (target_init_balance_cfg c)),
      (''refresh-interval-sec'', ser_u64 (refresh_interval_sec c))]"

definition ser_pair :: "string \<times> string \<Rightarrow> json" where
  "ser_pair p = JArray [JString (fst p), JString (snd p)]"

definition ser_config ::
  "('addr, 'eng) access_lib \<Rightarrow> (string \<Rightarrow> string) \<Rightarrow> ('addr, 'dg, 'eng) gas_station_config \<Rightarrow> json"
where
  "ser_config L print_keypair c = JObject
     ([(''signer-config'', ser_signer_config print_keypair (signer_config c)),
       (''rpc-host-ip'', JString (display_ipv4 (rpc_host_ip c))),
       (''rpc-port'', JNumber (int (rpc_port c))),
       (''metrics-port'', JNumber (int (metrics_port c))),
       (''storage-config'', ser_storage_config (storage_config c)),
       (''fullnode-url'', JString (fullnode_url c))] @
      ser_optional ser_pair ''fullnode-basic-auth'' (fullnode_basic_auth c) @
      ser_optional ser_coin_init_config ''coin-init-config'' (coin_init_config c) @
      [(''daily-gas-usage-cap'', ser_u64 (daily_gas_usage_cap c)),
       (''max-gas-budget'', ser_u64 (max_gas_budget_cfg c)),
       (''access-controller'', ser_controller L (access_controller_cfg c))])"

section \<open>Reading back\<close>

lemma octet_text: "n < 256 \<Longrightarrow> parse_octet (show_nat n) = Some n"
proof -
  assume n: "n < 256"
  consider "n < 10" | "10 \<le> n" "n < 100" | "100 \<le> n" by linarith
  then have "length (show_nat n) \<le> 3 \<and> (1 < length (show_nat n) \<longrightarrow> hd (show_nat n) \<noteq> CHR ''0'')"
  proof cases
    case 1
    then show ?thesis by (simp add: show_nat_less)
  next
    case 2
    then have ten: "n div 10 < 10" "n div 10 \<noteq> 0" by (simp_all add: div_eq_0_iff)
    have "show_nat n = [digit_char (n div 10), digit_char (n mod 10)]"
      using 2 ten(1) by (subst show_nat_more) (simp_all add: show_nat_less)
    with ten show ?thesis using less_10_cases [of "n div 10"] by (auto simp: digit_char_def)
  next
    case 3
    have front: "show_nat (n div 10) = [digit_char (n div 10 div 10), digit_char (n div 10 mod 10)]"
      using 3 n by (subst show_nat_more) (simp_all add: show_nat_less)
    have "show_nat n = [digit_char (n div 10 div 10), digit_char (n div 10 mod 10), digit_char (n mod 10)]"
      using 3 by (subst show_nat_more) (simp_all add: front)
    moreover have "n div 10 div 10 = n div 100" by (simp add: div_mult2_eq [symmetric])
    moreover have "n div 100 < 3" "n div 100 \<noteq> 0"
      using n 3 by (simp_all add: div_less_iff_less_mult div_eq_0_iff)
    ultimately have "\<exists>d b c. show_nat n = [digit_char d, b, c] \<and> d < 3 \<and> d \<noteq> 0"
      by (intro exI [of _ "n div 100"]) auto
    moreover have "d = 1 \<or> d = 2" if "d < 3" "d \<noteq> 0" for d :: nat using that by linarith
    ultimately show ?thesis by (fastforce simp: digit_char_def)
  qed
  then show ?thesis using n by (auto simp: parse_octet_def)
qed

definition ipv4_ok :: "ipv4_addr \<Rightarrow> bool" where
  "ipv4_ok a \<longleftrightarrow> (case a of (b, c, d, e) \<Rightarrow> b < 256 \<and> c < 256 \<and> d < 256 \<and> e < 256)"

lemma ipv4_text: "ipv4_ok a \<Longrightarrow> de_ipv4 (JString (display_ipv4 a)) = Ok a"
proof -
  assume "ipv4_ok a"
  moreover obtain b c d e where a: "a = (b, c, d, e)" by (cases a)
  moreover have "split_on CHR ''.'' (join_with ''.'' (map show_nat [b, c, d, e])) = map show_nat [b, c, d, e]"
    by (rule split_on_join) (use not_digit_notin_show_nat [of "CHR ''.''"] in \<open>auto simp: is_digit_def\<close>)
  ultimately show ?thesis
    by (simp add: de_ipv4_def display_ipv4_def parse_ipv4_def ipv4_ok_def octet_text del: join_with.simps)
qed

interpretation storage_config_json: json_codec ser_storage_config de_storage_config "\<lambda>c. True"
  by unfold_locales (auto simp: ser_storage_config_def de_alias_def split: gas_station_storage_config.splits)

interpretation coin_init_json: json_codec ser_coin_init_config de_coin_init_config "\<lambda>c. True"
  by unfold_locales (auto simp: ser_coin_init_config_def de_field_def)

interpretation pair_json: json_codec ser_pair de_pair "\<lambda>p. True"
  by unfold_locales (auto simp: ser_pair_def)

lemma signer_config_roundtrip:
  "(\<And>k. parse_keypair (print_keypair k) = Some k) \<Longrightarrow>
     de_signer_config parse_keypair (ser_signer_config print_keypair c) = Ok c"
  by (cases c) (simp_all add: ser_signer_config_def de_field_def de_alias_def)

definition config_ok :: "('addr, 'eng) access_lib \<Rightarrow> ('addr, 'dg, 'eng) gas_station_config \<Rightarrow> bool" where
  "config_ok L c \<longleftrightarrow> ipv4_ok (rpc_host_ip c) \<and> rpc_port c < 2 ^ 16 \<and> metrics_port c < 2 ^ 16 \<and>
     list_all (rule_ok L) (rules (access_controller_cfg c)) \<and>
     confirmation_requests (access_controller_cfg c) = Map.empty"

lemma map_of_optional:
  "map_of (ser_optional ser k v @ fs) k' = (if k' = k \<and> v \<noteq> None then map_option ser v else map_of fs k')"
  by (auto simp: ser_optional_def split: option.splits)

lemma written_config_reads:
  assumes "config_ok L c" and "\<And>k. parse_keypair (print_keypair k) = Some k"
  shows "de_config L parse_keypair (ser_config L print_keypair c) = Ok c"
proof -
  let ?rest = "[(''daily-gas-usage-cap'', ser_u64 (daily_gas_usage_cap c)),
       (''max-gas-budget'', ser_u64 (max_gas_budget_cfg c)),
       (''access-controller'', ser_controller L (access_controller_cfg c))]"
  have opt: "de_optional de_coin_init_config ''coin-init-config''
      (ser_optional ser_coin_init_config ''coin-init-config'' v @ ?rest) = Ok v"
    "de_optional de_pair ''fullnode-basic-auth''
      (ser_optional ser_pair ''fullnode-basic-auth'' u @
       ser_optional ser_coin_init_config ''coin-init-config'' v @ ?rest) = Ok u" for v u
    by (rule coin_init_json.optional_roundtrip pair_json.optional_roundtrip;
        simp add: ser_optional_def split: option.splits)+
  have skip: "de_optional de k ((k', j) # fs) = de_optional de k fs" if "k \<noteq> k'" for de k k' j fs
    using that by (simp add: de_optional_def)
  have ctl: "de_controller L (ser_controller L (access_controller_cfg c)) = Ok (access_controller_cfg c)"
    using assms(1) by (intro controller_reads_back) (simp_all add: config_ok_def)
  have signer: "de_signer_config parse_keypair (ser_signer_config print_keypair s) = Ok s" for s
    by (rule signer_config_roundtrip) (rule assms(2))
  have sto: "de_storage_config (ser_storage_config (storage_config c)) = Ok (storage_config c)"
    by (rule storage_config_json.roundtrip) simp
  show ?thesis
    using assms(1) opt ctl sto signer ipv4_text [of "rpc_host_ip c"]
    by (simp add: ser_config_def config_ok_def de_field_def de_default_def skip map_of_optional
        coin_init_json.optional_other del: map_of_append)
qed

section \<open>What is read\<close>

lemma octet_read: "parse_octet s = Some n \<Longrightarrow> n < 256"
  by (auto simp: parse_octet_def split: if_splits option.splits)

lemma ipv4_read: "de_ipv4 j = Ok a \<Longrightarrow> ipv4_ok a"
  by (cases j)
    (auto simp: de_ipv4_def parse_ipv4_def ipv4_ok_def dest: octet_read
      split: option.splits list.splits)

lemma port_read: "de_uint 16 j = Ok n \<Longrightarrow> n < 65536"
  by (cases j) (auto split: if_splits)

lemma config_read:
  assumes "config_lib_ok L" and "de_config L parse_keypair j = Ok c"
  shows "config_ok L c"
proof -
  obtain fs where j: "j = JObject fs" using assms(2) by (cases j) auto
  have ctl: "list_all (rule_ok L) (rules k) \<and> confirmation_requests k = Map.empty"
    if "de_default (de_controller L) default_controller ''access-controller'' fs = Ok k" for k
    using that controller_read [OF assms(1)]
    by (auto simp: de_default_def default_controller_def controller_new_def split: option.splits)
  have field: "\<exists>v. map_of fs k = Some v \<and> de v = Ok a" if "de_field de k fs = Ok a"
    for de :: "json \<Rightarrow> 'x result" and k a
    using that by (auto simp: de_field_def split: option.splits)
  show ?thesis
    using assms(2) by (auto simp: j config_ok_def dest!: field ctl intro: ipv4_read port_read)
qed

text \<open>
  C33: Every configuration that is read from a file is well formed: the address and the ports are in
  range, the rules of the access controller satisfy their conditions and no request is pending. The
  file that is written for it reads back as the same configuration.
\<close>

theorem configuration_round_trip:
  assumes "config_lib_ok L" and "\<And>k. parse_keypair (print_keypair k) = Some k"
    and "de_config L parse_keypair j = Ok c"
  shows "config_ok L c \<and> de_config L parse_keypair (ser_config L print_keypair c) = Ok c"
proof
  show ok: "config_ok L c" by (rule config_read [OF assms(1,3)])
  show "de_config L parse_keypair (ser_config L print_keypair c) = Ok c"
    by (rule written_config_reads [OF ok]) (rule assms(2))
qed

definition sample_configuration_file :: json where
  "sample_configuration_file = JObject
     [(''signer-config'', JObject [(''local'', JObject [(''keypair'', JString ''key'')])]),
      (''rpc-host-ip'', JString ''0.0.0.0''), (''rpc-port'', JNumber 9527),
      (''metrics-port'', JNumber 9184),
      (''storage-config'', JObject [(''redis'', JObject [(''redis_url'', JString ''redis://127.0.0.1'')])]),
      (''fullnode-url'', JString ''http://localhost:9000''),
      (''coin-init-config'', JObject
         [(''target-init-balance'', JNumber 100000000), (''refresh-interval-sec'', JNumber 86400)]),
      (''daily-gas-usage-cap'', JNumber 1500000000000),
      (''access-controller'', sample_file)]"

definition sample_configuration :: "(nat, nat, unit) gas_station_config" where
  "sample_configuration = \<lparr>signer_config = Local ''key'', rpc_host_ip = (0, 0, 0, 0), rpc_port = 9527,
     metrics_port = 9184, storage_config = Redis ''redis://127.0.0.1'',
     fullnode_url = ''http://localhost:9000'', fullnode_basic_auth = None,
     coin_init_config = Some \<lparr>target_init_balance_cfg = 100000000, refresh_interval_sec = 86400\<rparr>,
     daily_gas_usage_cap = 1500000000000, max_gas_budget_cfg = default_max_gas_budget,
     access_controller_cfg = sample_read\<rparr>"

lemma sample_configuration_reads: "de_config url_lib Some sample_configuration_file = Ok sample_configuration"
  using sample_file_reads ipv4_text [of "(0, 0, 0, 0)"]
  by (simp add: sample_configuration_file_def sample_configuration_def de_field_def de_default_def de_optional_def
      de_alias_def de_u64_def display_ipv4_def ipv4_ok_def show_nat.simps digit_char_def
      del: de_controller.simps)

theorem configuration_round_trip_witness:
  "config_ok url_lib sample_configuration \<and>
     de_config url_lib Some (ser_config url_lib id sample_configuration) = Ok sample_configuration"
proof -
  have "config_lib_ok url_lib"
    using sample_ok by (simp add: config_lib_ok_def url_lib_def sample_lib_def)
  then show ?thesis
    by (rule configuration_round_trip [where L = url_lib, OF _ _ sample_configuration_reads]) simp_all
qed

end
