(* ===== verification/Rpc_Kit.thy ===== *)
theory Rpc_Kit
  imports Station_Tests Rpc_Props Config_File
begin

text \<open>
  The environment of the tests that run an RPC server: \<open>src/src/test_env.rs\<close>. The server is the one of
  \<open>Rpc_Server\<close> on the station of \<open>Station_Kit\<close>; the client is the one of \<open>Rpc_Client\<close>, and a request
  goes to the server without a network between them. The rules step over the calls of the client.
\<close>

section \<open>Starting a server\<close>

text \<open>
  What a server takes from elsewhere: the libraries, what a header may hold, how a reply prints, the free
  port that was found, and the Redis of the tracker.
\<close>

record ('addr, 'id, 'dg, 'sig, 'eng) test_env =
  te_cluster :: "('addr, 'id, 'dg, 'sig) test_cluster"
  te_libs :: "('addr, 'id, 'dg, 'sig, 'eng) server_state"
  te_header_ok :: "string \<Rightarrow> bool"
  te_http :: http_stack
  te_port :: nat
  te_redis :: lua_redis

type_synonym ('addr, 'id, 'dg, 'sig, 'eng) test_server =
  "('addr, 'id, 'dg) gas_station_container \<times> gas_station_server \<times> ('addr, 'id, 'dg, 'sig, 'eng) server_state"

definition start_rpc_server ::
  "('addr, 'id, 'dg, 'sig, 'eng) test_env \<Rightarrow> string option \<Rightarrow> ('addr, 'dg, 'eng) access_controller \<Rightarrow> u64 \<Rightarrow>
     (('addr, 'id, 'dg, 'sig, 'eng, 'z) rpc_world_scheme, ('addr, 'id, 'dg, 'sig, 'eng) test_server) prog"
where
  "start_rpc_server T env c target =
     pbind (start_gas_station (te_cluster T) target None) (\<lambda>container.
     let station = get_gas_station_arc container;
         tracker = connect_stats_storage (te_redis T) (show_address station (signer_address station));
         (server, state, warnings) = gas_station_server_new (te_libs T) env station tracker (te_port T)
     in pseq (install_controller c) (pret (container, server, state)))"

definition some_secret :: "string option" where
  "some_secret = Some ''some secret''"

definition start_rpc_server_for_testing where
  "start_rpc_server_for_testing T target = start_rpc_server T some_secret default_controller target"

definition start_rpc_server_for_testing_no_auth where
  "start_rpc_server_for_testing_no_auth T target = start_rpc_server T None default_controller target"

definition start_rpc_server_for_testing_empty_auth where
  "start_rpc_server_for_testing_empty_auth T target = start_rpc_server T (Some []) default_controller target"

definition start_rpc_server_for_testing_with_access_controller where
  "start_rpc_server_for_testing_with_access_controller T target c = start_rpc_server T some_secret c target"

text \<open>The client of a server in a process with this environment, and its way to the server.\<close>

definition client_in :: "('addr, 'id, 'dg, 'sig, 'eng) test_env \<Rightarrow> string option \<Rightarrow> gas_station_server \<Rightarrow> rpc_client"
where
  "client_in T env server = get_local_client env (te_header_ok T) server"

definition send_to where
  "send_to T server state = deliver (te_http T) (server_address (client_in T None server)) state"

text \<open>The counters of the tracker, as a test reads and removes them with a connection of its own.\<close>

definition remove_redis_key :: "string \<Rightarrow> (('addr, 'id, 'dg, 'sig, 'eng, 'z) rpc_world_scheme, unit) prog" where
  "remove_redis_key k = pmodify (\<lambda>w. w\<lparr>tracker_keys := (tracker_keys w)(k := None)\<rparr>)"

definition fetch_redis_val ::
  "string \<Rightarrow> (('addr, 'id, 'dg, 'sig, 'eng, 'z) rpc_world_scheme, int) prog"
where
  "fetch_redis_val k =
     pbind utc_now_ms (\<lambda>now. pbind (pget tracker_keys) (\<lambda>db.
     case live now db k of
       None \<Rightarrow> ppanic ''Response was of incompatible type''
     | Some (v, t) \<Rightarrow> (case read_int v of
         None \<Rightarrow> ppanic ''Response was of incompatible type'' | Some i \<Rightarrow> pret i)))"

section \<open>What the station leaves alone\<close>

text \<open>The part of the world that belongs to the access controller and the server.\<close>

definition server_part :: "('addr, 'id, 'dg, 'sig, 'z) init_world_scheme \<Rightarrow> 'z" where
  "server_part w = init_world.more w"

named_theorems keeps_server \<open>station calls keep what belongs to the server\<close>

lemma server_part_simps [simp]:
  "server_part (w\<lparr>keys := db\<rparr>) = server_part w" "server_part (w\<lparr>clock := ts\<rparr>) = server_part w"
  "server_part (w\<lparr>faults := fs\<rparr>) = server_part w" "server_part (w\<lparr>events := es\<rparr>) = server_part w"
  "server_part (w\<lparr>dates := ds\<rparr>) = server_part w" "server_part (w\<lparr>usage_cap := u\<rparr>) = server_part w"
  by (simp_all add: server_part_def)

lemma keeps_server_basic [keeps_server]:
  "keeps (\<lambda>w. server_part w = a) (invoke s)" "keeps (\<lambda>w. server_part w = a) (emit m)"
  "keeps (\<lambda>w. server_part w = a) utc_now_ms" "keeps (\<lambda>w. server_part w = a) today"
  "keeps (\<lambda>w. server_part w = a) station_check_usage" "keeps (\<lambda>w. server_part w = a) (station_update_usage n)"
  "keeps (\<lambda>w. server_part w = a) station_trigger_rescan"
  unfolding station_trigger_rescan_def by (intro keeps_rules; simp add: server_part_def keeps_def)+

lemma keeps_server_api [keeps_server]:
  "keeps (\<lambda>w. server_part w = a) (api_multi_get ids)"
  "keeps (\<lambda>w. server_part w = a) (api_execute tx rt)"
  "keeps (\<lambda>w. server_part w = a) (sign_transaction d)"
  unfolding api_defs by (rule keeps_ask; simp add: server_part_def)+

lemma keeps_server_storage [keeps_server]:
  "keeps (\<lambda>w. server_part w = a) (reserve_gas_coins C latest self b d)"
  "keeps (\<lambda>w. server_part w = a) (ready_for_execution self rid)"
  "keeps (\<lambda>w. server_part w = a) (add_new_coins C self coins)"
  unfolding reserve_gas_coins_def ready_for_execution_def add_new_coins_def script_manager_defs
    publish_pool_gauges_def Let_def
  by ((intro keeps_rules keeps_server; simp)+)

lemma keeps_server_latest [keeps_server]: "keeps (\<lambda>w. server_part w = a) (get_latest_gas_objects n ids)"
  unfolding get_latest_gas_objects_def get_chunk_def by (intro keeps_rules keeps_server)

lemma keeps_server_reserve: "keeps (\<lambda>w. server_part w = a) (reserve_gas st b ms)"
  unfolding reserve_gas_def by (intro keeps_rules keeps_server; simp)

lemma keeps_server_execute: "keeps (\<lambda>w. server_part w = a) (execute_transaction st rid d sig rt)"
  unfolding execute_transaction_def execute_transaction_impl_def client_execute_transaction_def
    updated_coins_def settle_def release_gas_coins_def get_total_gas_coin_balance_def Let_def
  by (intro keeps_rules keeps_server; simp)

lemma keeps_server_health: "keeps (\<lambda>w. server_part w = a) (Gas_Station_Core.debug_check_health st d)"
  unfolding Gas_Station_Core.debug_check_health_def Let_def
  by (intro keeps_rules keeps_server keeps_server_reserve; simp)

text \<open>The whole start as well.\<close>

lemma keeps_server_init_updates [keeps_server]:
  "keeps (\<lambda>w. server_part w = a) (pmodify (\<lambda>w. w\<lparr>task_queue := f w, total_coin_count := g w\<rparr>))"
  "keeps (\<lambda>w. server_part w = a) (pmodify (\<lambda>w. w\<lparr>task_queue := f w\<rparr>))"
  "keeps (\<lambda>w. server_part w = a) (increment_total_coin_count_by d)"
  "keeps (\<lambda>w. server_part w = a) (api_get_coins addr c)" "keeps (\<lambda>w. server_part w = a) api_get_price"
  "keeps (\<lambda>w. server_part w = a) (api_dev_inspect cmds)"
  unfolding increment_total_coin_count_by_def api_defs
  by ((rule keeps_pmodify keeps_ask; simp add: server_part_def)+)

lemma keeps_server_locks [keeps_server]:
  "keeps (\<lambda>w. server_part w = a) (acquire_init_lock self d)"
  "keeps (\<lambda>w. server_part w = a) (release_init_lock self)"
  "keeps (\<lambda>w. server_part w = a) (acquire_maintenance_lock self d)"
  "keeps (\<lambda>w. server_part w = a) (release_maintenance_lock self)"
  "keeps (\<lambda>w. server_part w = a) (is_initialized self)"
  "keeps (\<lambda>w. server_part w = a) (get_available_coin_count self)"
  "keeps (\<lambda>w. server_part w = a) (get_available_coin_total_balance self)"
  "keeps (\<lambda>w. server_part w = a) (clean_up_coin_registry batches self)"
  "keeps (\<lambda>w. server_part w = a) (init_coin_stats_at_startup self)"
  unfolding acquire_init_lock_def release_init_lock_def acquire_maintenance_lock_def
    release_maintenance_lock_def is_initialized_def get_available_coin_count_def
    get_available_coin_total_balance_def clean_up_coin_registry_def init_coin_stats_at_startup_def
    script_manager_defs publish_pool_gauges_def utc_now_sec_def Let_def
  by ((intro keeps_rules keeps_server; simp)+)

lemma keeps_apply: "(\<And>w. m w = n w) \<Longrightarrow> keeps P n \<Longrightarrow> keeps P m"
  by (simp add: keeps_def)

lemma keeps_server_owned [keeps_server]: "keeps (\<lambda>w. server_part w = a) (owned_loop n f addr b c cs)"
proof (induction n arbitrary: c cs)
  case 0
  then show ?case by (simp add: keeps_def)
next
  case (Suc n)
  show ?case
    by (rule keeps_apply, rule owned_loop.simps(2), unfold Let_def, intro keeps_rules keeps_server Suc)
qed

lemma keeps_server_stats [keeps_server]: "keeps (\<lambda>w. server_part w = a) (stats_loop n addr c k b)"
proof (induction n arbitrary: c k b)
  case 0
  then show ?case by (simp add: keeps_def)
next
  case (Suc n)
  show ?case
    by (rule keeps_apply, rule stats_loop.simps(2), unfold Let_def, intro keeps_rules keeps_server Suc)
qed

lemma keeps_case_list [keeps_rules]:
  "keeps P m \<Longrightarrow> (\<And>x xs. keeps P (g x xs)) \<Longrightarrow> keeps P (case l of [] \<Rightarrow> m | x # xs \<Rightarrow> g x xs)"
  by (cases l) simp_all

lemma keeps_server_split [keeps_server]: "keeps (\<lambda>w. server_part w = a) (split_loop n env k b coin)"
proof (induction n arbitrary: coin)
  case 0
  then show ?case by (simp add: keeps_def)
next
  case (Suc n)
  show ?case
    by (rule keeps_apply, rule split_loop.simps(2), unfold Let_def client_execute_transaction_def,
        intro keeps_rules keeps_server Suc; simp)
qed

lemma keeps_server_enqueue [keeps_server]: "keeps (\<lambda>w. server_part w = a) (enqueue_all env cs)"
  unfolding enqueue_all_def enqueue_task_def by (intro keeps_rules keeps_server; simp add: server_part_def)

lemma keeps_server_tasks [keeps_server]:
  "keeps (\<lambda>w :: ('addr, 'id, 'dg, 'sig, 'z) init_world_scheme. server_part w = a) (run_tasks n env res)"
proof (induction n arbitrary: res)
  case 0
  then show ?case by (simp add: keeps_def)
next
  case (Suc n)
  have step: "keeps (\<lambda>w :: ('addr, 'id, 'dg, 'sig, 'z) init_world_scheme. server_part w = a)
      (pbind (punwrap (split_one_gas_coin env coin)) (\<lambda>coins. run_tasks n env (res @ coins)))" for coin
    unfolding split_one_gas_coin_def Let_def by (intro keeps_rules keeps_server Suc)
  show ?case
  proof (rule keepsI)
    fix w :: "('addr, 'id, 'dg, 'sig, 'z) init_world_scheme" assume w: "server_part w = a"
    show "server_part (snd (run_tasks (Suc n) env res w)) = a"
    proof (cases "task_queue w")
      case Nil
      then show ?thesis using w by simp
    next
      case (Cons coin rest)
      moreover have "server_part (w\<lparr>task_queue := rest\<rparr>) = a" using w by (simp add: server_part_def)
      ultimately show ?thesis using step [of coin] by (simp add: keeps_def del: pbind_apply)
    qed
  qed
qed

lemma keeps_server_start [keeps_server]:
  "keeps (\<lambda>w. server_part w = a) (start_gas_station E target m)"
proof -
  have run: "keeps (\<lambda>w. server_part w = a) (run_once st f mode target ig)" for st f mode ig
    unfolding run_once_def init_locked_def split_gas_coins_def add_chunks_def get_reference_gas_price_def
      get_all_owned_iota_coins_above_balance_threshold_def calibrate_gas_cost_per_object_def Let_def
    by (intro keeps_rules keeps_server)
  show ?thesis
    unfolding start_gas_station_def connect_storage_for_testing_with_config_def connect_storage_def
      check_health_def flush_db_def initializer_start_def perform_consistency_check_def full_rescan_def
      clean_and_rescan_registry_def get_aggregate_coin_stats_def container_new_def Let_def
    by (intro keeps_rules keeps_server run; simp add: server_part_def)
qed

section \<open>A server that runs\<close>

definition serving where
  "serving T t p xs ss os c db w \<longleftrightarrow>
     running (te_cluster T) t p xs ss os w \<and> controller w = c \<and> tracker_keys w = db"

lemma server_part_fields:
  fixes w w' :: "('addr, 'id, 'dg, 'sig, 'eng, 'z) rpc_world_scheme"
  assumes "server_part w' = server_part w"
  shows "controller w' = controller w" "tracker_keys w' = tracker_keys w" "config_file w' = config_file w"
  using assms by (cases w; cases w'; simp add: server_part_def)+

lemma serving_part:
  fixes w w' :: "('addr, 'id, 'dg, 'sig, 'eng, 'z) rpc_world_scheme"
  shows "serving T t p xs ss os c db w \<Longrightarrow> running (te_cluster T) t q xs' ss' os' w' \<Longrightarrow>
    server_part w' = server_part w \<Longrightarrow> serving T t q xs' ss' os' c db w'"
  using server_part_fields [of w' w] by (simp add: serving_def)

lemma running_server [simp]:
  fixes w :: "('addr, 'id, 'dg, 'sig, 'eng, 'z) access_world_scheme"
  shows "running E t p xs ss os (w\<lparr>controller := c\<rparr>) = running E t p xs ss os w"
    "running E t p xs ss os (w\<lparr>tracker_keys := db\<rparr>) = running E t p xs ss os w"
  by (simp_all add: running_def in_state_def quiet_def budget_left_def)

lemma running_config [simp]:
  fixes w :: "('addr, 'id, 'dg, 'sig, 'eng, 'z) rpc_world_scheme"
  shows "running E t p xs ss os (w\<lparr>config_file := f\<rparr>) = running E t p xs ss os w"
  by (simp add: running_def in_state_def quiet_def budget_left_def)

lemma running_events [simp]:
  fixes w :: "('addr, 'id, 'dg, 'sig, 'z) init_world_scheme"
  shows "running E t p xs ss os (w\<lparr>events := es\<rparr>) = running E t p xs ss os w"
  by (simp add: running_def budget_left_def)

lemma serving_events [simp]:
  fixes w :: "('addr, 'id, 'dg, 'sig, 'eng, 'z) rpc_world_scheme"
  shows "serving T t p xs ss os c db (w\<lparr>events := es\<rparr>) = serving T t p xs ss os c db w"
  by (simp add: serving_def)

lemma serving_config [simp]:
  fixes w :: "('addr, 'id, 'dg, 'sig, 'eng, 'z) rpc_world_scheme"
  shows "serving T t p xs ss os c db (w\<lparr>config_file := f\<rparr>) = serving T t p xs ss os c db w"
  by (simp add: serving_def)

abbreviation state_of ::
  "('addr, 'id, 'dg, 'sig, 'eng) test_env \<Rightarrow> string option \<Rightarrow> ('addr, 'id, 'dg, 'sig, 'eng) server_state"
where
  "state_of T env \<equiv> server_state_new (te_libs T) env (cluster_station (te_cluster T) nanos_per_iota None)
     (connect_stats_storage (te_redis T) (cl_show_address (te_cluster T) (cl_sponsor (te_cluster T))))"

abbreviation served_by ::
  "('addr, 'id, 'dg, 'sig, 'eng) test_env \<Rightarrow> string option \<Rightarrow> ('addr, 'id, 'dg, 'sig, 'eng) test_server"
where
  "served_by T env \<equiv> (\<lparr>container_inner = cluster_station (te_cluster T) nanos_per_iota None, cancel_sender = True\<rparr>,
     \<lparr>srv_rpc_port = te_port T\<rparr>, state_of T env)"

lemma wp_start_server:
  fixes w :: "('addr, 'id, 'dg, 'sig, 'eng, 'z) rpc_world_scheme"
  assumes "local_network (te_cluster T) coins t xs ss os w"
    and "\<And>w' :: ('addr, 'id, 'dg, 'sig, 'eng, 'z) rpc_world_scheme.
      serving T t (started coins) xs ss os c (tracker_keys w) w' \<Longrightarrow> Q (served_by T env) w'"
  shows "wp (start_rpc_server T env c nanos_per_iota) Q w"
  unfolding start_rpc_server_def wp_pbind
proof (rule wp_also [where R = "\<lambda>container v. container =
      \<lparr>container_inner = cluster_station (te_cluster T) nanos_per_iota None, cancel_sender = True\<rparr> \<and>
      running (te_cluster T) t (started coins) xs ss os v", OF _ keeps_server_start refl], goal_cases)
  case 1
  show ?case by (rule wp_start [OF assms(1)]) simp
next
  case (2 container v)
  then have "serving T t (started coins) xs ss os c (tracker_keys w) (v\<lparr>controller := c\<rparr>)"
    using server_part_fields(2) [of v w] by (simp add: serving_def)
  from assms(2) [OF this] 2(1) show ?case
    by (simp add: gas_station_server_new_def install_controller_def get_gas_station_arc_def Let_def)
qed

section \<open>Calls of the client\<close>

text \<open>A call of the client of a server, in a process with this environment.\<close>

definition call_reserve where
  "call_reserve T env S b secs = (case S of (container, server, state) \<Rightarrow>
     client_reserve_gas (addr_lib (server_access_lib state)) (server_wire_lib state)
       (send_to T server state) (client_in T env server) b secs)"

definition call_execute where
  "call_execute T env S rid d usig rt hs = (case S of (container, server, state) \<Rightarrow>
     client_execute_tx (server_wire_lib state) (send_to T server state) (client_in T env server) rid d usig rt hs)"

definition call_health where
  "call_health T env S = (case S of (container, server, state) \<Rightarrow>
     client_health (send_to T server state) (client_in T env server))"

definition call_debug_health where
  "call_debug_health T env S = (case S of (container, server, state) \<Rightarrow>
     client_debug_health_check (send_to T server state) (client_in T env server))"

definition call_reload where
  "call_reload T env S = (case S of (container, server, state) \<Rightarrow>
     client_reload_access_controller (send_to T server state) (client_in T env server))"

text \<open>The libraries keep what is sent, and the secrets of the tests may be sent in a header.\<close>

definition env_fits :: "('addr, 'id, 'dg, 'sig, 'eng) test_env \<Rightarrow> bool" where
  "env_fits T \<longleftrightarrow> addr_codec_ok (addr_lib (server_access_lib (te_libs T))) \<and> wire_lib_ok (server_wire_lib (te_libs T)) \<and>
     bearer_ok (server_wire_lib (te_libs T)) \<and> stack_ok (te_http T) \<and> lua_redis_ok (te_redis T) \<and>
     te_header_ok T ''Bearer some secret'' \<and> te_header_ok T ''Bearer b''"

definition env_known :: "string option \<Rightarrow> bool" where
  "env_known env \<longleftrightarrow> env \<in> {None, Some [], some_secret, Some ''b''}"

lemma state_simps [simp]:
  "server_access_lib (state_of T env) = server_access_lib (te_libs T)"
  "server_wire_lib (state_of T env) = server_wire_lib (te_libs T)"
  "server_tx_lib (state_of T env) = server_tx_lib (te_libs T)"
  "server_station (state_of T env) = cluster_station (te_cluster T) nanos_per_iota None"
  "secret (state_of T env) = read_auth_env env"
  by (simp_all add: server_state_new_def)

lemma client_address: "server_address (client_in T env server) = server_address (client_in T None server)"
  by (simp add: client_in_def get_local_client_def client_new_def)

lemma client_token:
  "env_fits T \<Longrightarrow> env_known env \<Longrightarrow> auth_header (client_in T env server) = Ok (read_auth_env env)"
  by (auto simp: env_fits_def env_known_def some_secret_def auth_header_def client_in_def get_local_client_def
      client_new_def read_auth_env_def)

lemma own_token: "token_ok (state_of T env) (read_auth_env env)"
  by (simp add: token_ok_def split: option.splits)

lemma known_plain: "env_known env \<Longrightarrow> pred_option plain_token (read_auth_env env)"
  by (auto simp: env_known_def some_secret_def read_auth_env_def plain_token_def)

lemma token_sent:
  "env_fits T \<Longrightarrow> env_known env \<Longrightarrow>
     bearer_token (server_wire_lib (te_libs T)) (insert_auth (read_auth_env env) [] @ own_headers (te_http T) body) =
       read_auth_env env"
  by (rule plain_token_arrives) (simp_all add: env_fits_def known_plain)

lemma token_accepted:
  assumes "env_fits T" "env_known env"
  shows "token_ok (state_of T env)
    (bearer_token (server_wire_lib (te_libs T)) (insert_auth (read_auth_env env) hs @ own_headers (te_http T) body))"
proof (cases "read_auth_env env")
  case (Some t)
  with assms known_plain [OF assms(2)] have "bearer_token (server_wire_lib (te_libs T))
      (insert_auth (read_auth_env env) hs @ own_headers (te_http T) body) = Some t"
    by (intro token_arrives) (simp_all add: env_fits_def)
  with Some show ?thesis by (simp add: token_ok_def)
qed (simp add: token_ok_def)

lemma wp_spawned: "wp m Q w \<Longrightarrow> wp (spawned abort fallback m) Q w"
  by (auto simp: wp_def spawned_def split: prod.splits result.splits)

subsection \<open>Reserving gas\<close>

definition reserve_answer ::
  "('addr, 'id, 'dg) reserve_gas_response \<Rightarrow> ('w, 'addr \<times> reservation_id \<times> ('id, 'dg) object_ref list) prog"
where
  "reserve_answer response = (case rgr_result response of
     Some r \<Rightarrow> pret (rr_sponsor_address r, rr_reservation_id r, rr_gas_coins r)
   | None \<Rightarrow> perr (Anyhow (case rgr_error response of Some e \<Rightarrow> e | None \<Rightarrow> ''Unknown error'')))"

lemma reserve_call:
  assumes "addr_codec_ok (addr_lib (server_access_lib server))" "wire_lib_ok (server_wire_lib server)"
    and "bearer_ok (server_wire_lib server)" "stack_ok K"
    and "auth_header client = Ok token" "pred_option plain_token token"
  shows "client_reserve_gas (addr_lib (server_access_lib server)) (server_wire_lib server)
      (deliver K (server_address client) server) client budget secs =
    pbind (server_reserve_gas server token \<lparr>rg_gas_budget = budget, rg_reserve_duration_secs = secs\<rparr>)
      (\<lambda>(status, response). reserve_answer response)"
  using client_reserve_run [OF assms] unfolding reserve_answer_def by blast

lemma answers_of_reserve [simp]:
  "wp (ptry (reserve_answer (reserve_response_ok s i cs))) Q w = Q (Inr (s, i, cs)) w"
  "wp (ptry (reserve_answer (reserve_response_err e))) Q w = Q (Inl (Anyhow (error_to_string e))) w"
  by (simp_all add: reserve_answer_def reserve_response_ok_def reserve_response_err_def)

lemma request_valid:
  assumes "b \<noteq> 0" "b \<le> default_max_gas_budget" "secs \<noteq> 0" "secs \<le> 100"
  shows "check_reserve_gas_request_validity (cluster_station E target None)
    \<lparr>rg_gas_budget = b, rg_reserve_duration_secs = secs\<rparr> = Ok ()"
proof -
  have "secs \<le> 600" using assms(4) by (simp add: word_le_nat_alt)
  with assms show ?thesis
    by (simp add: check_reserve_gas_request_validity_def cluster_station_def gas_station_new_def
        reserve_gas_max_duration_s_def not_less)
qed

text \<open>The server does what the station does, and the client gets its answer.\<close>

lemma wp_ptry_reserve:
  fixes w :: "('addr, 'id, 'dg, 'sig, 'eng, 'z) rpc_world_scheme"
  assumes "env_fits T" "env_known env" "serving T t p xs ss os c db w"
    and "b \<noteq> 0" "b \<le> default_max_gas_budget" "secs \<noteq> 0" "secs \<le> 100"
    and "\<And>v :: ('addr, 'id, 'dg, 'sig, 'eng, 'z) rpc_world_scheme.
      serving T t p xs ss os c db v \<Longrightarrow>
      wp (ptry (reserve_gas (cluster_station (te_cluster T) nanos_per_iota None) b (unat secs * 1000)))
        (\<lambda>r v'. case r of Inr x \<Rightarrow> R (Inr x) v' | Inl e \<Rightarrow> \<forall>e'. R (Inl e') v') v"
    and "\<And>r es (v' :: ('addr, 'id, 'dg, 'sig, 'eng, 'z) rpc_world_scheme).
      R r v' \<Longrightarrow> server_part v' = server_part w \<Longrightarrow> Q r (v'\<lparr>events := es\<rparr>)"
  shows "wp (ptry (call_reserve T env (served_by T env) b secs)) Q w"
proof -
  let ?st = "cluster_station (te_cluster T) nanos_per_iota None"
  have codecs: "addr_codec_ok (addr_lib (server_access_lib (state_of T env)))"
    "wire_lib_ok (server_wire_lib (state_of T env))" "bearer_ok (server_wire_lib (state_of T env))" "stack_ok (te_http T)"
    using assms(1) by (simp_all add: env_fits_def)
  note call = reserve_call [OF codecs client_token [OF assms(1,2)] known_plain [OF assms(2)]]
  have impl: "wp (reserve_gas_impl ?st b secs)
      (\<lambda>(status, response). wp (ptry (reserve_answer response)) Q) (w\<lparr>events := es\<rparr>)" for es
  proof -
    have "serving T t p xs ss os c db (w\<lparr>events := es\<rparr>)" "server_part (w\<lparr>events := es\<rparr>) = server_part w"
      using assms(3) by simp_all
    note start = this
    show ?thesis
      unfolding reserve_gas_impl_def wp_pbind
    proof (rule wp_also [OF assms(8) [OF start(1)] keeps_ptry [OF keeps_server_reserve] start(2)], goal_cases)
      case (1 r v')
      then show ?case using assms(9) by (cases r) auto
    qed
  qed
  have "wp (server_reserve_gas (state_of T env) (read_auth_env env)
      \<lparr>rg_gas_budget = b, rg_reserve_duration_secs = secs\<rparr>)
    (\<lambda>(status, response). wp (ptry (reserve_answer response)) Q) w"
    unfolding server_reserve_gas_def state_simps request_valid [OF assms(4-7)] result.case wp_pseq wp_emit
      reserve_gas_request.simps
    using own_token [of T env] impl by (simp add: wp_spawned)
  then show ?thesis
    unfolding call_reserve_def prod.case send_to_def client_address [of T env, symmetric] call wp_ptry_pbind
    by (intro wp_ptry) (simp add: split_def)
qed

lemma wp_plift_ok [simp]: "wp (plift (Ok a)) Q w = Q a w"
  by (simp add: wp_plift)

lemma wp_of_ptry: "wp (ptry m) (\<lambda>r w. case r of Inl e \<Rightarrow> False | Inr a \<Rightarrow> Q a w) w \<Longrightarrow> wp m Q w"
  by (auto simp: wp_def split: prod.splits result.splits)

lemma iota_budget: "b \<le> default_max_gas_budget \<Longrightarrow> uint b \<le> 2 ^ 52"
  by (simp add: word_le_def default_max_gas_budget_def nanos_per_iota_def)

lemma wp_call_reserve:
  fixes w :: "('addr, 'id, 'dg, 'sig, 'eng, 'z) rpc_world_scheme"
  assumes "env_fits T" "env_known env" "serving T t p xs ss os c db w"
    and "b \<noteq> 0" "b \<le> default_max_gas_budget" "secs \<noteq> 0" "secs \<le> 100"
    and "cut (uint b) (avail p) = Some n" "maintenance p = None" "next_id p < 2 ^ 63 - 1"
    and "\<And>w' :: ('addr, 'id, 'dg, 'sig, 'eng, 'z) rpc_world_scheme.
      serving T t (reserve_pool n (t + int (unat secs * 1000)) p) xs ss os c db w' \<Longrightarrow>
      Q (cl_sponsor (te_cluster T), of_nat (Suc (next_id p)), map object_ref (take n (avail p))) w'"
  shows "wp (call_reserve T env (served_by T env) b secs) Q w"
proof (rule wp_of_ptry, rule wp_ptry_reserve [OF assms(1-7),
      where R = "\<lambda>r v'. r = Inr (cl_sponsor (te_cluster T), of_nat (Suc (next_id p)), map object_ref (take n (avail p))) \<and>
        running (te_cluster T) t (reserve_pool n (t + int (unat secs * 1000)) p) xs ss os v'"], goal_cases)
  case (1 v)
  have "unat secs * 1000 \<le> 100000" using assms(7) by (simp add: word_le_nat_alt)
  with 1 show ?case
    by (intro wp_ptry wp_reserve_running [OF _ assms(8) iota_budget [OF assms(5)] _ assms(4,9,10)])
      (simp_all add: serving_def)
next
  case (2 r es v')
  then have "serving T t (reserve_pool n (t + int (unat secs * 1000)) p) xs ss os c db (v'\<lparr>events := es\<rparr>)"
    using serving_part [OF assms(3)] by simp
  from assms(11) [OF this] 2(1) show ?case by simp
qed

lemma wp_call_reserve_refused:
  fixes w :: "('addr, 'id, 'dg, 'sig, 'eng, 'z) rpc_world_scheme"
  assumes "env_fits T" "env_known env" "serving T t p xs ss os c db w"
    and "b \<noteq> 0" "b \<le> default_max_gas_budget" "secs \<noteq> 0" "secs \<le> 100"
    and "cut (uint b) (avail p) = None"
    and "\<And>e (w' :: ('addr, 'id, 'dg, 'sig, 'eng, 'z) rpc_world_scheme).
      serving T t p xs ss os c db w' \<Longrightarrow> Q (Inl e) w'"
  shows "wp (ptry (call_reserve T env (served_by T env) b secs)) Q w"
proof (rule wp_ptry_reserve [OF assms(1-7),
      where R = "\<lambda>r v'. isl r \<and> running (te_cluster T) t p xs ss os v'"], goal_cases)
  case (1 v)
  have "unat secs * 1000 \<le> 100000" using assms(7) by (simp add: word_le_nat_alt)
  with 1 show ?case
    by (intro wp_refused_running [OF _ assms(8) iota_budget [OF assms(5)]]) (simp_all add: serving_def)
next
  case (2 r es v')
  then show ?case
    by (cases r) (auto intro!: assms(9) serving_part [OF assms(3)])
qed

text \<open>A client with another secret changes nothing.\<close>

lemma wp_call_reserve_unauthorized:
  fixes w :: "('addr, 'id, 'dg, 'sig, 'eng, 'z) rpc_world_scheme"
  assumes "env_fits T" "env_known env'" "read_auth_env env \<noteq> None" "read_auth_env env' \<noteq> read_auth_env env"
    and "\<And>e. Q (Inl e) w"
  shows "wp (ptry (call_reserve T env' (served_by T env) b secs)) Q w"
proof -
  have codecs: "addr_codec_ok (addr_lib (server_access_lib (state_of T env)))"
    "wire_lib_ok (server_wire_lib (state_of T env))" "bearer_ok (server_wire_lib (state_of T env))" "stack_ok (te_http T)"
    using assms(1) by (simp_all add: env_fits_def)
  note call = reserve_call [OF codecs client_token [OF assms(1,2)] known_plain [OF assms(2)]]
  have "\<not> token_ok (state_of T env) (read_auth_env env')"
    using assms(3,4) by (auto simp: token_ok_def)
  then show ?thesis
    unfolding call_reserve_def prod.case send_to_def client_address [of T env', symmetric] call wp_ptry_pbind
    by (intro wp_ptry) (simp add: server_reserve_gas_def assms(5))
qed

section \<open>Executing a transaction\<close>

definition execute_answer :: "('id, 'dg) execute_tx_response \<Rightarrow> ('w, ('id, 'dg) tx_effects) prog" where
  "execute_answer response = (case etr_effects response of
     Some effects \<Rightarrow> pret effects
   | None \<Rightarrow> perr (Anyhow (case etr_error response of Some e \<Rightarrow> e | None \<Rightarrow> ''Unknown error'')))"

lemma answers_of_execute [simp]:
  "wp (ptry (execute_answer (execute_response_ok e))) Q w = Q (Inr e) w"
  "wp (ptry (execute_answer (execute_response_err x))) Q w = Q (Inl (Anyhow (error_to_string x))) w"
  by (simp_all add: execute_answer_def execute_response_ok_def execute_response_err_def)

text \<open>The server reads the transaction that the client was given, and gives it to the access controller.\<close>

definition readable :: "('addr, 'id, 'dg, 'sig, 'eng) test_env \<Rightarrow> ('addr, 'id, 'dg) tx_data \<Rightarrow> 'sig \<Rightarrow> bool" where
  "readable T d usig \<longleftrightarrow> wire_bcs_ok (server_wire_lib (te_libs T)) d usig \<and>
     tx_json (server_tx_lib (te_libs T)) d \<noteq> None"

definition tracker_of where
  "tracker_of T = connect_stats_storage (te_redis T) (cl_show_address (te_cluster T) (cl_sponsor (te_cluster T)))"

lemma state_tracker [simp]: "server_tracker (state_of T env) = tracker_of T"
  by (simp add: server_state_new_def tracker_of_def)

lemma wp_ptry_execute:
  fixes w :: "('addr, 'id, 'dg, 'sig, 'eng, 'z) rpc_world_scheme"
  assumes "env_fits T" "env_known env" "readable T d usig"
    and "\<And>es ctx. ctx_stats_tracker ctx = tracker_of T \<Longrightarrow> transaction_budget ctx = gas_budget d \<Longrightarrow>
      transaction_digest ctx = tx_digest (server_tx_lib (te_libs T)) d \<Longrightarrow>
      ctx_reservation_id ctx = rid \<Longrightarrow>
      wp (execute_tx_impl (state_of T env) d usig ctx)
        (\<lambda>(status, response). wp (ptry (execute_answer response)) Q) (w\<lparr>events := es\<rparr>)"
  shows "wp (ptry (call_execute T env (served_by T env) rid d usig rt hs)) Q w"
proof -
  let ?S = "state_of T env" and ?hs = "case hs of None \<Rightarrow> [] | Some h \<Rightarrow> h"
  let ?W = "server_wire_lib ?S"
  define payload where "payload = \<lparr>et_reservation_id = rid, et_tx_bytes = base64_encode ?W (tx_to_bcs ?W d),
      et_user_sig = base64_encode ?W (sig_to_bytes ?W usig), et_request_type = rt\<rparr>"
  have ok: "wire_lib_ok ?W" "wire_bcs_ok ?W d usig"
    using assms(1,3) by (simp_all add: env_fits_def readable_def)
  define sent where "sent = insert_auth (read_auth_env env) ?hs @ own_headers (te_http T) (ser_execute_request payload)"
  note call = client_execute_run [OF ok(1) client_token [OF assms(1,2)] payload_def sent_def]
  have converted: "convert_tx_and_sig ?W (et_tx_bytes payload) (et_user_sig payload) = Ok (d, usig)"
    using request_converted [OF ok(2)] by (simp add: payload_def)
  have eq: "client_execute_tx ?W (deliver (te_http T) (server_address (client_in T env server)) ?S)
      (client_in T env server) rid d usig rt hs = pbind (server_execute_tx ?S sent (bearer_token ?W sent) payload)
      (\<lambda>(status, response). execute_answer response)" for server
    using call unfolding execute_answer_def by blast
  obtain ctx where ctx: "context_new (server_tx_lib ?S) d (server_tracker ?S) (et_reservation_id payload)
      (et_tx_bytes payload) (et_user_sig payload) (et_request_type payload) sent = Ok ctx"
    "ctx_stats_tracker ctx = tracker_of T" "transaction_budget ctx = gas_budget d"
    "transaction_digest ctx = tx_digest (server_tx_lib (te_libs T)) d" "ctx_reservation_id ctx = rid"
    using assms(3) by (auto simp: readable_def context_new_def payload_def Let_def)
  have "wp (server_execute_tx ?S sent (bearer_token ?W sent) payload)
      (\<lambda>(status, response). wp (ptry (execute_answer response)) Q) w"
    unfolding server_execute_tx_def converted result.case prod.case wp_pseq wp_emit wp_pbind ctx(1)
    using token_accepted [OF assms(1,2)] ctx(2-5) assms(4) by (simp add: wp_spawned sent_def)
  then show ?thesis
    unfolding call_execute_def prod.case send_to_def client_address [of T env, symmetric] eq wp_ptry_pbind
    by (intro wp_ptry) (simp add: split_def)
qed

subsection \<open>Decisions without a rule\<close>

lemma wp_confirm_nothing:
  fixes w :: "('addr, 'id, 'dg, 'sig, 'eng, 'z) rpc_world_scheme"
  assumes "confirmation_requests (controller w) = Map.empty" and "Q () w"
  shows "wp (confirm_quietly state res ctx) Q w"
proof -
  have "pending_set (result_digest res) None w = w"
    using assms(1) by (cases w) (simp add: pending_set_def)
  then show ?thesis
    using confirm_none [of w res] assms by (simp add: confirm_quietly_def wp_def)
qed

lemma wp_verdict:
  fixes w :: "('addr, 'id, 'dg, 'sig, 'eng, 'z) rpc_world_scheme"
  assumes "rules (controller w) = []"
    and "access_policy (controller w) = DenyAll \<Longrightarrow> (\<And>es. Q (Some (FORBIDDEN,
      execute_response_err (Anyhow ''Access denied by access controller''))) (w\<lparr>events := es\<rparr>))"
    and "access_policy (controller w) \<noteq> DenyAll \<Longrightarrow> (\<And>es. Q None (w\<lparr>events := es\<rparr>))"
  shows "wp (access_verdict state ctx) Q w"
  using check_access_alone [of w "server_access_lib state" ctx] assms
  by (cases "access_policy (controller w)") (simp_all add: access_verdict_def wp_def)

lemma wp_impl_denied:
  fixes w :: "('addr, 'id, 'dg, 'sig, 'eng, 'z) rpc_world_scheme"
  assumes "serving T t p xs ss os (controller_new DenyAll []) db w"
    and "\<And>x (w' :: ('addr, 'id, 'dg, 'sig, 'eng, 'z) rpc_world_scheme).
      serving T t p xs ss os (controller_new DenyAll []) db w' \<Longrightarrow> Q (FORBIDDEN, execute_response_err x) w'"
  shows "wp (execute_tx_impl (state_of T env) d usig ctx) Q w"
proof -
  have c: "controller w = controller_new DenyAll []" using assms(1) by (simp add: serving_def)
  show ?thesis
    unfolding execute_tx_impl_def Let_def wp_pbind
    by (rule wp_verdict) (use assms c in \<open>simp_all add: controller_new_def wp_confirm_nothing\<close>)
qed

lemma wp_impl_allowed:
  fixes w :: "('addr, 'id, 'dg, 'sig, 'eng, 'z) rpc_world_scheme"
  assumes "serving T t p (Inr (Some e) # xs) (Inr s # ss) (Inr [shown c] # os) (controller_new policy []) db w"
    and "policy \<noteq> DenyAll"
    and "gas_owner d = cl_sponsor (te_cluster T)" "check_transaction_validity d = Ok ()" "payment d = [object_ref c]"
    and "reserved p (unat (ctx_reservation_id ctx)) = Some ids"
    and new: "new = \<lparr>object_ref = gas_object e, balance = balance c - net_gas_usage e\<rparr>"
      "balance new \<le> 200 * nanos_per_iota" "fits p [new]"
    and "\<And>w' :: ('addr, 'id, 'dg, 'sig, 'eng, 'z) rpc_world_scheme. Q (OK, execute_response_ok e) w'"
  shows "wp (execute_tx_impl (state_of T env) d usig ctx) Q w"
proof -
  have c: "controller w = controller_new policy []" using assms(1) by (simp add: serving_def)
  have run: "wp (execute_transaction (cluster_station (te_cluster T) nanos_per_iota None)
      (ctx_reservation_id ctx) d usig (ctx_request_type ctx))
      (\<lambda>r v. r = e \<and> server_part v = server_part w) (w\<lparr>events := es\<rparr>)" for es
  proof (rule wp_also [OF _ keeps_server_execute refl])
    have r: "running (te_cluster T) t p (Inr (Some e) # xs) (Inr s # ss) (Inr [shown c] # os) (w\<lparr>events := es\<rparr>)"
      using assms(1) by (simp add: serving_def)
    show "wp (execute_transaction (cluster_station (te_cluster T) nanos_per_iota None)
      (ctx_reservation_id ctx) d usig (ctx_request_type ctx)) (\<lambda>r v. r = e) (w\<lparr>events := es\<rparr>)"
      by (rule wp_execute_running [OF r assms(3-6) new]) simp
  qed simp
  show ?thesis
    unfolding execute_tx_impl_def Let_def wp_pbind
  proof (rule wp_verdict, goal_cases)
    case 1
    then show ?case by (simp add: c controller_new_def)
  next
    case (2 es)
    then show ?case using assms(2) by (simp add: c controller_new_def)
  next
    case (3 es)
    show ?case
      unfolding option.case wp_pbind state_simps
    proof (rule wp_ptry, rule wp_mono [OF run], goal_cases)
      case (1 r v)
      then have "controller v = controller_new policy []" using c server_part_fields(1) [of v w] by simp
      then show ?case using 1 assms(10) by (simp add: wp_confirm_nothing controller_new_def)
    qed
  qed
qed

section \<open>Health and reload\<close>

lemma address_text: "server_address (client_in T env server) = ''http://localhost:'' @ show_nat (srv_rpc_port server)"
  by (simp add: client_in_def get_local_client_def client_new_def)

lemma wp_call_health: "Q () w \<Longrightarrow> wp (call_health T env (served_by T env)) Q w"
  by (simp add: call_health_def client_health_def send_to_def deliver_def plain_request_def client_address [of T env]
      rpc_serve_def routes_def health_def reply_of_def expect_ok_def Let_def)

lemma wp_call_debug_health:
  fixes w :: "('addr, 'id, 'dg, 'sig, 'eng, 'z) rpc_world_scheme"
  assumes "env_fits T" "env_known env" "serving T t p xs (Inr s # ss) os c db w"
    and "cut (uint (nanos_per_iota div 10)) (avail p) = Some n" "maintenance p = None" "next_id p < 2 ^ 63 - 1"
    and "\<And>w' :: ('addr, 'id, 'dg, 'sig, 'eng, 'z) rpc_world_scheme. Q () w'"
  shows "wp (call_debug_health T env (served_by T env)) Q w"
proof -
  have r: "running (te_cluster T) t p xs (Inr s # ss) os w" using assms(3) by (simp add: serving_def)
  have "wp (Gas_Station_Core.debug_check_health (server_station (state_of T env)) a) (\<lambda>_ _. True) w" for a
    unfolding Gas_Station_Core.debug_check_health_def Let_def wp_pbind state_simps
  proof (rule wp_reserve_running [OF r assms(4)], goal_cases)
    case (6 w')
    then have "sign_answers w' = Inr s # ss" by (simp add: running_def)
    then show ?case by (simp add: wp_sign)
  qed (use assms(3,5,6) in \<open>simp_all add: serving_def nanos_per_iota_def\<close>)
  then have run: "\<exists>v. Gas_Station_Core.debug_check_health (server_station (state_of T env)) a w = (Ok (), v)" for a
    by (fastforce simp: wp_def split: prod.splits result.splits)
  show ?thesis
    using run [of "default_address (state_of T env)"] own_token [of T env] client_token [OF assms(1,2)] assms(7)
    by (auto simp: call_debug_health_def client_debug_health_check_def send_to_def deliver_def plain_request_def
        client_address [of T env] rpc_serve_def routes_def request_token_def token_sent [OF assms(1,2)] Rpc_Server.debug_health_check_def reply_of_def
        expect_ok_def Let_def wp_def split: prod.splits)
qed

text \<open>The file with a configuration, and the keypair it is written with.\<close>

lemma wp_call_reload:
  fixes w :: "('addr, 'id, 'dg, 'sig, 'eng, 'z) rpc_world_scheme"
  assumes "env_fits T" "env_known env" "serving T t p xs ss os c db w"
    and "config_file w = Inr (ser_config (server_access_lib (te_libs T)) print_keypair cfg)"
    and "config_ok (server_access_lib (te_libs T)) cfg" "rules (access_controller_cfg cfg) = []"
    and "\<And>k. read_keypair (te_libs T) (print_keypair k) = Some k"
    and "\<And>w' :: ('addr, 'id, 'dg, 'sig, 'eng, 'z) rpc_world_scheme.
      serving T t p xs ss os (access_controller_cfg cfg) db w' \<Longrightarrow> Q () w'"
  shows "wp (call_reload T env (served_by T env)) Q w"
proof -
  have "read_keypair (state_of T env) = read_keypair (te_libs T)" by (simp add: server_state_new_def)
  moreover have "de_config (server_access_lib (te_libs T)) (read_keypair (te_libs T))
      (ser_config (server_access_lib (te_libs T)) print_keypair cfg) = Ok cfg"
    by (rule written_config_reads [OF assms(5)]) (rule assms(7))
  ultimately have load: "load_config (state_of T env) w = (Ok cfg, w)"
    using assms(4) by (simp add: load_config_def)
  have init: "controller_initialize L (access_controller_cfg cfg) w = (Ok (Ok (), access_controller_cfg cfg), w)" for L
    using assms(6) by (simp add: controller_initialize_def)
  let ?w = "w\<lparr>controller := access_controller_cfg cfg\<rparr>"
  have "reload_access_controller (state_of T env) (read_auth_env env) w = (Ok (OK, station_response_ok ''success''), ?w)"
    using own_token [of T env] load init by (simp add: reload_access_controller_def install_controller_def)
  moreover have "serving T t p xs ss os (access_controller_cfg cfg) db ?w" using assms(3) by (simp add: serving_def)
  ultimately show ?thesis
    using client_token [OF assms(1,2)] assms(8)
    by (simp add: call_reload_def client_reload_access_controller_def send_to_def deliver_def plain_request_def
        client_address [of T env] rpc_serve_def routes_def request_token_def token_sent [OF assms(1,2)] reply_of_def
        Let_def wp_def)
qed

section \<open>Rules with a gas limit\<close>

text \<open>A counter that was just written can be read.\<close>

lemma live_booked: "0 < ttl \<Longrightarrow> \<exists>e. live now (booked_at now ttl k i db) k = Some (show_int i, e)"
  using live_not_expired [of now db k]
  by (auto simp: booked_at_def live_def expiry_def split: option.splits)

text \<open>A transaction that is denied after a rule has booked a claim: the claim is given back.\<close>

lemma wp_impl_claim:
  fixes T :: "('addr, 'id, 'dg, 'sig, 'eng) test_env" and w :: "('addr, 'id, 'dg, 'sig, 'eng, 'z) rpc_world_scheme"
  defines "L \<equiv> server_access_lib (te_libs T)"
  assumes check: "check_access L ctx w = (Ok decision.Deny, pending_set (transaction_digest ctx) (Some [req])
      (book L (tracker_of T) t req (c + uint (req_gas_usage req)) w))"
    and digest: "transaction_digest ctx = tx_digest (server_tx_lib (te_libs T)) d" "ctx_stats_tracker ctx = tracker_of T"
    and book: "can_book L (tracker_of T) t req c (uint (req_gas_usage req)) w"
    and post: "\<And>x e (w' :: ('addr, 'id, 'dg, 'sig, 'eng, 'z) rpc_world_scheme).
      live t (tracker_keys w') (claim_key L (tracker_of T) req) = Some (show_int c, e) \<Longrightarrow> clock w' = [t] \<Longrightarrow>
      Q (FORBIDDEN, execute_response_err x) w'"
  shows "wp (execute_tx_impl (state_of T env) d usig ctx) Q w"
proof -
  let ?tr = "tracker_of T" and ?b = "uint (req_gas_usage req)" and ?dg = "transaction_digest ctx"
  let ?w1 = "pending_set ?dg (Some [req]) (book L ?tr t req (c + ?b) w)"
  let ?w2 = "?w1\<lparr>events := events ?w1 @ [Inc ''num_failed_execute_tx_requests'']\<rparr>"
  let ?x = "Anyhow ''Access denied by access controller''"
  have verdict: "access_verdict (state_of T env) ctx w = (Ok (Some (FORBIDDEN, execute_response_err ?x)), ?w2)"
    using check by (simp add: access_verdict_def L_def)
  have "can_book L ?tr t req (c + ?b) (- ?b) ?w1"
    by (rule can_book_after [OF book]) (use book in \<open>auto simp: can_book_def\<close>)
  then have "can_book L ?tr t req (c + ?b) (- given_back None (req_gas_usage req)) ?w2"
    by (simp add: can_book_def quiet_at_def given_back_def)
  from confirm_one [OF _ this, of ?dg] obtain w3 where w3:
    "confirm_transaction L (execution_result_new ?dg) ?tr ?w2 = (Ok (), w3)"
    "w3 = book L ?tr t req c (pending_set ?dg None ?w2)"
    by (simp add: pending_set_def execution_result_new_def given_back_def)
  have ttl: "0 < req_ttl req" and clock: "clock w = [t]"
    using book by (simp_all add: can_book_def window_ok_def quiet_at_def)
  obtain e where e: "live t (tracker_keys w3) (claim_key L ?tr req) = Some (show_int c, e)"
    using live_booked [OF ttl] unfolding w3(2) by (fastforce simp: book_def)
  have "clock w3 = [t]" unfolding w3(2) using clock by (simp add: book_def pending_set_def)
  from post [OF e this] have "Q (FORBIDDEN, execute_response_err ?x) w3" .
  then show ?thesis
    using verdict w3(1) by (simp add: execute_tx_impl_def Let_def confirm_quietly_def digest L_def wp_def)
qed

end
