(* ===== verification/Rpc_Tests.thy ===== *)
theory Rpc_Tests
  imports Rpc_Kit Access_Tests
begin

text \<open>
  The tests of \<open>src/src/rpc/mod.rs\<close>, run on the model: a client, a server, the access controller with its
  counters, and the station with its pool and its network. A test runs in a process whose environment
  has the secret its server was started with.
\<close>

section \<open>The tests\<close>

text \<open>The flow that several tests share, for a kind of request.\<close>

definition rpc_flow where
  "rpc_flow T price budget rt =
     pbind (start_rpc_server_for_testing T nanos_per_iota) (\<lambda>server.
     pseq (punwrap (call_health T some_secret server)) (
     pbind (punwrap (call_reserve T some_secret server nanos_per_iota 10)) (\<lambda>(sponsor, reservation_id, gas_coins).
     pseq (assert (length gas_coins = 1)) (
     pseq (check (ptry (call_reserve T some_secret server (nanos_per_iota * 10) 10)) isl) (
     let (tx_data, usig) = create_test_transaction (te_cluster T) price budget sponsor gas_coins in
     pbind (punwrap (call_execute T some_secret server reservation_id tx_data usig rt None)) (\<lambda>effects.
     assert (status_ok effects)))))))"

definition test_basic_rpc_flow where
  "test_basic_rpc_flow T price budget = rpc_flow T price budget None"

definition test_explicit_wait_for_effects_cert where
  "test_explicit_wait_for_effects_cert T price budget = rpc_flow T price budget (Some WaitForEffectsCert)"

definition test_wait_for_local_execution where
  "test_wait_for_local_execution T price budget = rpc_flow T price budget (Some WaitForLocalExecution)"

definition test_invalid_auth where
  "test_invalid_auth T =
     pbind (start_rpc_server_for_testing T nanos_per_iota) (\<lambda>server.
     pseq (punwrap (call_health T some_secret server)) (
     pbind (punwrap (call_reserve T some_secret server nanos_per_iota 10)) (\<lambda>(sponsor, res_id, gas_coins).
     pseq (assert (length gas_coins = 1))
       (check (ptry (call_reserve T (Some ''b'') server nanos_per_iota 10)) isl))))"

definition test_no_auth where
  "test_no_auth T =
     pbind (start_rpc_server_for_testing_no_auth T nanos_per_iota) (\<lambda>server.
     pseq (punwrap (call_health T None server)) (
     pbind (punwrap (call_reserve T None server nanos_per_iota 10)) (\<lambda>(sponsor, res_id, gas_coins).
     pseq (assert (length gas_coins = 1))
       (check (ptry (call_reserve T None server nanos_per_iota 10)) (\<lambda>r. \<not> isl r)))))"

definition test_empty_auth where
  "test_empty_auth T =
     pbind (start_rpc_server_for_testing_empty_auth T nanos_per_iota) (\<lambda>server.
     pseq (punwrap (call_health T (Some []) server)) (
     pbind (punwrap (call_reserve T (Some []) server nanos_per_iota 10)) (\<lambda>(sponsor, res_id, gas_coins).
     pseq (assert (length gas_coins = 1))
       (check (ptry (call_reserve T (Some []) server nanos_per_iota 10)) (\<lambda>r. \<not> isl r)))))"

definition test_access_denied_from_controller where
  "test_access_denied_from_controller T price budget =
     pbind (start_rpc_server_for_testing_with_access_controller T nanos_per_iota (controller_new DenyAll [])) (\<lambda>server.
     pseq (punwrap (call_health T some_secret server)) (
     pbind (punwrap (call_reserve T some_secret server nanos_per_iota 10)) (\<lambda>(sponsor, reservation_id, gas_coins).
     pseq (assert (length gas_coins = 1)) (
     pseq (check (ptry (call_reserve T some_secret server (nanos_per_iota * 10) 10)) isl) (
     let (tx_data, usig) = create_test_transaction (te_cluster T) price budget sponsor gas_coins in
     check (ptry (call_execute T some_secret server reservation_id tx_data usig None None)) isl)))))"

text \<open>\<open>save\<close> writes the configuration to the file from which the server reads it.\<close>

definition save_config ::
  "('addr, 'id, 'dg, 'sig, 'eng) test_env \<Rightarrow> (string \<Rightarrow> string) \<Rightarrow> ('addr, 'dg, 'eng) gas_station_config \<Rightarrow>
     (('addr, 'id, 'dg, 'sig, 'eng, 'z) rpc_world_scheme, unit) prog"
where
  "save_config T print_keypair cfg =
     pmodify (\<lambda>w. w\<lparr>config_file := Inr (ser_config (server_access_lib (te_libs T)) print_keypair cfg)\<rparr>)"

definition remove_config_file :: "(('addr, 'id, 'dg, 'sig, 'eng, 'z) rpc_world_scheme, unit) prog" where
  "remove_config_file = pmodify (\<lambda>w. w\<lparr>config_file := Inl (Foreign ''No such file or directory'')\<rparr>)"

definition test_access_allow_after_ac_reload where
  "test_access_allow_after_ac_reload T print_keypair keypair price budget =
     (let reservation_time_secs = 5 in
     pbind (start_rpc_server_for_testing_with_access_controller T nanos_per_iota (controller_new DenyAll [])) (\<lambda>server.
     pseq (punwrap (call_health T some_secret server)) (
     pbind (punwrap (call_reserve T some_secret server nanos_per_iota reservation_time_secs))
       (\<lambda>(sponsor, reservation_id, gas_coins).
     pseq (assert (length gas_coins = 1)) (
     let (tx_data, usig) = create_test_transaction (te_cluster T) price budget sponsor gas_coins in
     pseq (check (ptry (call_execute T some_secret server reservation_id tx_data usig None None)) isl) (
     let gas_station_config = (default_config keypair)\<lparr>access_controller_cfg := controller_new AllowAll []\<rparr> in
     pseq (save_config T print_keypair gas_station_config) (
     pseq (punwrap (call_reload T some_secret server)) (
     pbind (punwrap (call_reserve T some_secret server nanos_per_iota reservation_time_secs))
       (\<lambda>(sponsor, reservation_id, gas_coins).
     let (tx_data, usig) = create_test_transaction (te_cluster T) price budget sponsor gas_coins in
     pseq (check (ptry (call_execute T some_secret server reservation_id tx_data usig None None)) (\<lambda>r. \<not> isl r))
       remove_config_file))))))))) "

definition limit_rule :: "('addr, 'eng) access_rule" where
  "limit_rule = build (build_deny (build_gas_limit
     (value_aggregate_new 60000000000 (GreaterThanOrEqual 10000)) builder_new))"

definition test_access_denied_from_controller_gas_usage where
  "test_access_denied_from_controller_gas_usage T price budget =
     (let rules = [limit_rule] in
     pbind (start_rpc_server_for_testing_with_access_controller T nanos_per_iota (controller_new AllowAll rules))
       (\<lambda>server.
     pseq (punwrap (call_health T some_secret server)) (
     pbind (punwrap (call_reserve T some_secret server nanos_per_iota 10)) (\<lambda>(sponsor, reservation_id, gas_coins).
     pseq (assert (length gas_coins = 1)) (
     pseq (check (ptry (call_reserve T some_secret server (nanos_per_iota * 10) 10)) isl) (
     let (tx_data, usig) = create_test_transaction (te_cluster T) price budget sponsor gas_coins in
     check (ptry (call_execute T some_secret server reservation_id tx_data usig None None)) isl))))))"

definition gas_usage_rule :: "('addr, 'eng) access_rule" where
  "gas_usage_rule = build (build_allow (build_gas_limit
     (value_aggregate_new 120000000000 (LessThanOrEqual 3333)) builder_new))"

definition test_access_denied_from_controller_by_another_rule where
  "test_access_denied_from_controller_by_another_rule T default_ctx price budget =
     (let rule_gas_usage = gas_usage_rule;
          rule_allow_any = build (build_deny builder_new);
          rules = [rule_gas_usage, rule_allow_any] in
     pbind (start_rpc_server_for_testing_with_access_controller T nanos_per_iota (controller_new DenyAll rules))
       (\<lambda>server.
     pbind (punwrap (plift (get_rule_meta (server_access_lib (te_libs T)) rule_gas_usage default_ctx))) (\<lambda>rule_meta.
     let signer_address = signer_address (container_inner (fst server));
         rule_key = get_redis_aggr_key (server_access_lib (te_libs T)) gas_usage_name Sum rule_meta;
         redis_key = cl_show_address (te_cluster T) signer_address @ '':tracker:'' @ rule_key in
     pseq (remove_redis_key redis_key) (
     pbind (punwrap (call_reserve T some_secret server nanos_per_iota 10)) (\<lambda>(sponsor, reservation_id, gas_coins).
     let (tx_data, usig) = create_test_transaction (te_cluster T) price budget sponsor gas_coins in
     pseq (check (ptry (call_execute T some_secret server reservation_id tx_data usig None None)) isl) (
     pbind (fetch_redis_val redis_key) (\<lambda>value. assert (value = 0))))))))"

definition test_debug_health_check where
  "test_debug_health_check T =
     pbind (start_rpc_server_for_testing T nanos_per_iota) (\<lambda>server.
     punwrap (call_debug_health T some_secret server))"

section \<open>They pass\<close>

lemma known_env [simp]: "env_known some_secret" "env_known None" "env_known (Some [])" "env_known (Some ''b'')"
  by (simp_all add: env_known_def)

lemma test_budget [simp]:
  "nanos_per_iota \<noteq> 0" "nanos_per_iota \<le> default_max_gas_budget" "nanos_per_iota * 10 \<noteq> 0"
  "nanos_per_iota * 10 \<le> default_max_gas_budget"
  by (simp_all add: default_max_gas_budget_def nanos_per_iota_def)

lemma cut_iota:
  "uniform nanos_per_iota (c # cs) \<Longrightarrow> cut (uint nanos_per_iota) (c # cs) = Some 1"
  using cut_uniform [of nanos_per_iota "c # cs" 1] by (simp add: nanos)

lemma cut_too_many: "uniform nanos_per_iota cs \<Longrightarrow> length cs < k \<Longrightarrow> cut (int k * 1000000000) cs = None"
  using uniform_sum [of nanos_per_iota cs] by (intro cut_too_much) (simp add: nanos)

lemma health_tests_pass:
  assumes "local_network (te_cluster T) (c # cs) t xs (Inr s # ss) os w" "env_fits T"
  shows "passes (test_debug_health_check T) w"
proof -
  have "uniform nanos_per_iota (c # cs)" using assms(1) by (simp add: local_network_def)
  then have "balance c = nanos_per_iota" by simp
  then have cut: "cut (uint (nanos_per_iota div 10)) (c # cs) = Some 1"
    by (cases cs) (simp_all add: cut_def max_gas_per_query_def nanos_per_iota_def)
  show ?thesis
    unfolding passes_wp test_debug_health_check_def start_rpc_server_for_testing_def wp_pbind wp_punwrap
    apply (rule wp_start_server [OF assms(1)])
    apply (rule wp_call_debug_health [OF assms(2)], simp, assumption)
    apply (simp add: cut, simp, simp, simp)
    done
qed

lemma uniform_network: "local_network E coins t xs ss os w \<Longrightarrow> uniform nanos_per_iota coins"
  by (simp add: local_network_def)

lemma budget_10: "uint (nanos_per_iota * 10) = 10000000000"
  by (simp add: nanos_per_iota_def)

text \<open>Authorization.\<close>

lemma auth_test_passes:
  assumes "local_network (te_cluster T) (c # cs) t xs ss os w" "env_fits T"
  shows "passes (test_invalid_auth T) w"
proof -
  note cut = cut_iota [OF uniform_network [OF assms(1)]]
  have secrets: "read_auth_env some_secret \<noteq> None" "read_auth_env (Some ''b'') \<noteq> read_auth_env some_secret"
    by (simp_all add: read_auth_env_def some_secret_def)
  show ?thesis
    unfolding passes_wp test_invalid_auth_def start_rpc_server_for_testing_def wp_pbind wp_punwrap wp_pseq wp_check
    apply (rule wp_start_server [OF assms(1)], rule wp_call_health)
    apply (rule wp_call_reserve [OF assms(2)], simp, assumption, simp, simp, simp, simp, simp add: cut, simp, simp)
    apply (unfold prod.case wp_pseq wp_assert wp_check, rule conjI, simp)
    apply (rule wp_call_reserve_unauthorized [OF assms(2) _ secrets], simp, simp)
    done
qed

lemma open_tests_pass:
  assumes "local_network (te_cluster T) (c # d # cs) t xs ss os w" "env_fits T"
  shows "passes (test_no_auth T) w" "passes (test_empty_auth T) w"
proof -
  have u: "uniform nanos_per_iota (c # d # cs)" by (rule uniform_network [OF assms(1)])
  have cuts: "cut (uint nanos_per_iota) (c # d # cs) = Some 1" "cut (uint nanos_per_iota) (d # cs) = Some 1"
    using cut_iota [OF u] cut_iota [of d cs] u by simp_all
  show "passes (test_no_auth T) w"
    unfolding passes_wp test_no_auth_def start_rpc_server_for_testing_no_auth_def wp_pbind wp_punwrap wp_pseq
    apply (rule wp_start_server [OF assms(1)], rule wp_call_health)
    apply (rule wp_call_reserve [OF assms(2)], simp, assumption, simp, simp, simp, simp, simp add: cuts, simp, simp)
    apply (unfold prod.case wp_pseq wp_assert wp_check, rule conjI, simp)
    apply (rule wp_ptry, rule wp_call_reserve [OF assms(2)], simp, assumption, simp, simp, simp, simp, simp add: cuts,
        simp, simp, simp)
    done
  show "passes (test_empty_auth T) w"
    unfolding passes_wp test_empty_auth_def start_rpc_server_for_testing_empty_auth_def wp_pbind wp_punwrap wp_pseq
    apply (rule wp_start_server [OF assms(1)], rule wp_call_health)
    apply (rule wp_call_reserve [OF assms(2)], simp, assumption, simp, simp, simp, simp, simp add: cuts, simp, simp)
    apply (unfold prod.case wp_pseq wp_assert wp_check, rule conjI, simp)
    apply (rule wp_ptry, rule wp_call_reserve [OF assms(2)], simp, assumption, simp, simp, simp, simp, simp add: cuts,
        simp, simp, simp)
    done
qed

text \<open>The transaction of a test, and what the network makes of it.\<close>

definition pays where
  "pays T price budget c \<longleftrightarrow> (case create_test_transaction (te_cluster T) price budget
     (cl_sponsor (te_cluster T)) [object_ref c] of (d, usig) \<Rightarrow> readable T d usig)"

definition leaves :: "('id, 'dg) tx_effects \<Rightarrow> bool" where
  "leaves e \<longleftrightarrow> status_ok e \<and> nanos_per_iota - net_gas_usage e \<le> 200 * nanos_per_iota"

lemma small_coins:
  assumes "leaves e" "length (avail p) \<le> 100"
    and "uniform nanos_per_iota (avail p)"
  shows "fits p [\<lparr>object_ref = i, balance = nanos_per_iota - net_gas_usage e\<rparr>]"
proof -
  have "bal_sum (avail p) = 1000000000 * int (length (avail p))"
    using uniform_sum [OF assms(3)] by (simp add: nanos)
  moreover have "uint (nanos_per_iota - net_gas_usage e) \<le> 200000000000"
    using assms(1) by (simp add: leaves_def word_le_def nanos_per_iota_def)
  ultimately show ?thesis using assms(2) by (simp add: fits_def)
qed

lemma flow_passes:
  assumes "local_network (te_cluster T) (c # cs) t (Inr (Some e) # xs) (Inr s # ss) (Inr [shown c] # os) w" "env_fits T"
    and "length cs = 9" "transfers (te_cluster T)" "pays T price budget c" "leaves e"
  shows "passes (rpc_flow T price budget rt) w"
proof -
  have u: "uniform nanos_per_iota (c # cs)" by (rule uniform_network [OF assms(1)])
  have cuts: "cut (uint nanos_per_iota) (c # cs) = Some 1" "cut (uint (nanos_per_iota * 10)) cs = None"
    using cut_iota [OF u] cut_too_many [of cs 10] u assms(3) by (simp_all add: budget_10)
  obtain d usig where d: "create_test_transaction (te_cluster T) price budget (cl_sponsor (te_cluster T)) [object_ref c] = (d, usig)"
    by fastforce
  have readable: "readable T d usig" using assms(5) by (simp add: pays_def d)
  note valid = transfer_valid [OF assms(4) d]
  let ?new = "\<lparr>object_ref = gas_object e, balance = balance c - net_gas_usage e\<rparr>"
  have fit: "fits (reserve_pool (Suc 0) (t + 10000) (started (c # cs))) [?new]"
    using small_coins [OF assms(6), of "reserve_pool (Suc 0) (t + 10000) (started (c # cs))"] u assms(3) by simp
  show ?thesis
    unfolding passes_wp rpc_flow_def start_rpc_server_for_testing_def wp_pbind wp_punwrap wp_pseq
    apply (rule wp_start_server [OF assms(1)], rule wp_call_health)
    apply (rule wp_call_reserve [OF assms(2)], simp, assumption, simp, simp, simp, simp, simp add: cuts, simp, simp)
    apply (unfold prod.case wp_pseq wp_assert wp_check, rule conjI, simp)
    apply (rule wp_call_reserve_refused [OF assms(2)], simp, assumption, simp, simp, simp, simp, simp add: cuts,
        rule conjI, simp)
    apply (simp only: started_fields list.map take_Suc_Cons take_0 One_nat_def [symmetric] d prod.case wp_pbind
        wp_punwrap Let_def)
    apply (simp add: d del: wp_in_order)
    apply (rule wp_of_ptry, rule wp_ptry_execute [OF assms(2) _ readable], simp)
    apply (rule wp_impl_allowed [where new = ?new and policy = default_policy and t = t and e = e and c = c])
    apply (unfold default_controller_def serving_events, assumption)
    using assms(6) u fit
    apply (simp_all add: leaves_def valid default_policy_def)
    done
qed

text \<open>A controller that denies everything, and one that is exchanged.\<close>

lemma denied_test_passes:
  assumes "local_network (te_cluster T) (c # cs) t xs ss os w" "env_fits T" "length cs = 9" "pays T price budget c"
  shows "passes (test_access_denied_from_controller T price budget) w"
proof -
  have u: "uniform nanos_per_iota (c # cs)" by (rule uniform_network [OF assms(1)])
  have cuts: "cut (uint nanos_per_iota) (c # cs) = Some 1" "cut (uint (nanos_per_iota * 10)) cs = None"
    using cut_iota [OF u] cut_too_many [of cs 10] u assms(3) by (simp_all add: budget_10)
  obtain d usig where d: "create_test_transaction (te_cluster T) price budget (cl_sponsor (te_cluster T)) [object_ref c] = (d, usig)"
    by fastforce
  have readable: "readable T d usig" using assms(4) by (simp add: pays_def d)
  show ?thesis
    unfolding passes_wp test_access_denied_from_controller_def
      start_rpc_server_for_testing_with_access_controller_def wp_pbind wp_punwrap wp_pseq
    apply (rule wp_start_server [OF assms(1)], rule wp_call_health)
    apply (rule wp_call_reserve [OF assms(2)], simp, assumption, simp, simp, simp, simp, simp add: cuts, simp, simp)
    apply (unfold prod.case wp_pseq wp_assert wp_check, rule conjI, simp)
    apply (rule wp_call_reserve_refused [OF assms(2)], simp, assumption, simp, simp, simp, simp, simp add: cuts,
        rule conjI, simp)
    apply (simp only: started_fields list.map take_Suc_Cons take_0 One_nat_def [symmetric] d prod.case wp_check Let_def)
    apply (simp add: d)
    apply (rule wp_ptry_execute [OF assms(2) _ readable], simp)
    apply (rule wp_impl_denied [where t = t], unfold serving_events, assumption)
    apply simp
    done
qed

lemma default_config_ok:
  "config_ok L ((default_config keypair)\<lparr>access_controller_cfg := controller_new AllowAll []\<rparr>)"
  by (simp add: config_ok_def default_config_def ipv4_ok_def localhost_def default_rpc_port_def
      default_metrics_port_def controller_new_def)

lemma configured: "access_controller_cfg (cfg\<lparr>access_controller_cfg := c\<rparr>) = c"
  by simp

lemma reload_test_passes:
  assumes "local_network (te_cluster T) (c # c' # cs) t (Inr (Some e) # xs) (Inr s # ss) (Inr [shown c'] # os) w"
    and "env_fits T" "length cs = 8" "transfers (te_cluster T)" "pays T price budget c" "pays T price budget c'" "leaves e"
    and "\<And>k. read_keypair (te_libs T) (print_keypair k) = Some k"
  shows "passes (test_access_allow_after_ac_reload T print_keypair keypair price budget) w"
proof -
  have u: "uniform nanos_per_iota (c # c' # cs)" by (rule uniform_network [OF assms(1)])
  have cuts: "cut (uint nanos_per_iota) (c # c' # cs) = Some 1" "cut (uint nanos_per_iota) (c' # cs) = Some 1"
    using cut_iota [OF u] cut_iota [of c' cs] u by simp_all
  obtain d usig where d: "create_test_transaction (te_cluster T) price budget (cl_sponsor (te_cluster T)) [object_ref c] = (d, usig)"
    by fastforce
  obtain d' usig' where d': "create_test_transaction (te_cluster T) price budget (cl_sponsor (te_cluster T)) [object_ref c'] = (d', usig')"
    by fastforce
  have readable: "readable T d usig" "readable T d' usig'" using assms(5,6) by (simp_all add: pays_def d d')
  note valid = transfer_valid [OF assms(4) d']
  let ?new = "\<lparr>object_ref = gas_object e, balance = balance c' - net_gas_usage e\<rparr>"
  let ?p = "reserve_pool (Suc 0) (t + 5000) (reserve_pool (Suc 0) (t + 5000) (started (c # c' # cs)))"
  have fit: "fits ?p [?new]" using small_coins [OF assms(7), of ?p] u assms(3) by simp
  show ?thesis
    unfolding passes_wp test_access_allow_after_ac_reload_def Let_def
      start_rpc_server_for_testing_with_access_controller_def wp_pbind wp_punwrap wp_pseq
    apply (rule wp_start_server [OF assms(1)], rule wp_call_health)
    apply (rule wp_call_reserve [OF assms(2)], simp, assumption, simp, simp, simp, simp, simp add: cuts, simp, simp)
    apply (unfold prod.case wp_pseq wp_assert wp_check, rule conjI, simp)
    apply (simp add: d del: wp_in_order)
    apply (rule wp_ptry_execute [OF assms(2) _ readable(1)], simp)
    apply (rule wp_impl_denied [where t = t], unfold serving_events, assumption)
    apply (simp add: save_config_def del: wp_in_order)
    apply (rule wp_call_reload [OF assms(2) _ _ _ default_config_ok, where t = t])
    apply (simp, unfold serving_config, assumption, simp, simp add: controller_new_def, rule assms(8))
    apply (unfold configured wp_pbind wp_punwrap)
    apply (rule wp_call_reserve [OF assms(2)], simp, assumption, simp, simp, simp, simp, simp add: cuts, simp, simp)
    apply (simp add: d' remove_config_file_def del: wp_in_order)
    apply (rule wp_ptry_execute [OF assms(2) _ readable(2)], simp)
    apply (rule wp_impl_allowed [where new = ?new and policy = AllowAll and t = t and e = e and c = c'])
    apply (unfold serving_events, assumption)
    using assms(7) u fit
    apply (simp_all add: leaves_def valid)
    done
qed

text \<open>Rules with a gas limit.\<close>

lemma claim_books:
  fixes w :: "('addr, 'id, 'dg, 'sig, 'eng, 'z) rpc_world_scheme"
  assumes "serving T t p xs ss os c db w" "env_fits T" "uint (req_gas_usage req) \<le> 2 ^ 53"
    and "0 < req_ttl req" "req_ttl req \<le> 1000" "db (claim_key L (tracker_of T) req) = None"
  shows "can_book L (tracker_of T) t req 0 (uint (req_gas_usage req)) w"
  using assms
  by (simp add: can_book_def serving_def running_def in_state_def quiet_def quiet_at_def test_time_def window_ok_def
      env_fits_def tracker_of_def connect_stats_storage_def tracker_new_def counter_def live_def)

lemmas rule_exec = builder_defs value_aggregate_new_def limit_rule_def gas_usage_rule_def

lemma rule_facts:
  "rule_gas_usage limit_rule = Some \<lparr>window = 60000000000, aggr_value = GreaterThanOrEqual 10000, count_bys = []\<rparr>"
  "rule_action limit_rule = action.Deny" "rule_verdict L limit_rule ctx = Ok True"
  "rule_gas_usage gas_usage_rule = Some \<lparr>window = 120000000000, aggr_value = LessThanOrEqual 3333, count_bys = []\<rparr>"
  "rule_action gas_usage_rule = action.Allow" "rule_verdict L gas_usage_rule ctx = Ok True"
  by (simp_all add: rule_exec rule_verdict_def static_match_def rego_verdict_def)

lemma claim_facts:
  "req_gas_usage (claim_of L r g ctx) = transaction_budget ctx"
  "req_ttl (claim_of L r \<lparr>window = 60000000000, aggr_value = n, count_bys = []\<rparr> ctx) = 60"
  "req_ttl (claim_of L r \<lparr>window = 120000000000, aggr_value = n, count_bys = []\<rparr> ctx) = 120"
  "claim_of L r \<lparr>window = x, aggr_value = n, count_bys = []\<rparr> ctx =
     claim_of L r \<lparr>window = x, aggr_value = n, count_bys = []\<rparr> (ctx\<lparr>transaction_budget := transaction_budget ctx\<rparr>)"
  by (simp_all add: claim_exec)

text \<open>The claim is above the limit, and the only rule denies.\<close>

lemma check_limit_rule:
  fixes w :: "('addr, 'id, 'dg, 'sig, 'eng, 'z) rpc_world_scheme"
  assumes "serving T t p xs ss os (controller_new AllowAll [limit_rule]) db w" "env_fits T"
    and "ctx_stats_tracker ctx = tracker_of T" "10000 \<le> transaction_budget ctx" "uint (transaction_budget ctx) \<le> 2 ^ 53"
    and "\<And>k. db k = None"
  shows "\<exists>req. check_access L ctx w = (Ok decision.Deny, pending_set (transaction_digest ctx) (Some [req])
      (book L (tracker_of T) t req (0 + uint (req_gas_usage req)) w)) \<and>
    can_book L (tracker_of T) t req 0 (uint (req_gas_usage req)) w"
proof -
  let ?g = "\<lparr>window = 60000000000, aggr_value = GreaterThanOrEqual 10000, count_bys = []\<rparr>"
  let ?req = "claim_of L limit_rule ?g ctx"
  have c: "controller w = controller_new AllowAll [limit_rule]" using assms(1) by (simp add: serving_def)
  have book: "can_book L (tracker_of T) t ?req 0 (uint (req_gas_usage ?req)) w"
    by (rule claim_books [OF assms(1,2)]) (use assms(5,6) in \<open>simp_all add: claim_facts(1,2)\<close>)
  then have "can_book L (ctx_stats_tracker ctx) t ?req 0 (uint (transaction_budget ctx)) w"
    by (simp add: claim_facts(1) assms(3))
  from check_limited [OF _ _ rule_facts(1) _ rule_facts(3) this] have
    "check_access L ctx w = (Ok (limited_decision (controller w) limit_rule
       (number_matches (GreaterThanOrEqual 10000) (word_of_int (0 + uint (transaction_budget ctx)) :: u64))),
     pending_set (transaction_digest ctx) (Some [?req])
       (book L (ctx_stats_tracker ctx) t ?req (0 + uint (transaction_budget ctx)) w))"
    by (simp add: c controller_new_def rule_facts(2) ucast_id)
  then show ?thesis
    using book assms(3,4) by (intro exI [of _ ?req])
      (simp add: limited_decision_def rule_facts(2) decision_of_action_def claim_facts(1) ucast_id)
qed

text \<open>The claim is above the limit of the first rule, which does not apply, and the second one denies.\<close>

lemma check_two_rules:
  fixes w :: "('addr, 'id, 'dg, 'sig, 'eng, 'z) rpc_world_scheme"
  assumes "serving T t p xs ss os (controller_new DenyAll [gas_usage_rule, build (build_deny builder_new)]) db w"
    and "env_fits T" "ctx_stats_tracker ctx = tracker_of T" "3333 < transaction_budget ctx"
    and "uint (transaction_budget ctx) \<le> 2 ^ 53"
    and req: "req = claim_of L gas_usage_rule
      \<lparr>window = 120000000000, aggr_value = LessThanOrEqual 3333, count_bys = []\<rparr> ctx"
    and "db (claim_key L (tracker_of T) req) = None"
  shows "check_access L ctx w = (Ok decision.Deny, pending_set (transaction_digest ctx) (Some [req])
      (book L (tracker_of T) t req (0 + uint (req_gas_usage req)) w)) \<and>
    can_book L (tracker_of T) t req 0 (uint (req_gas_usage req)) w"
proof -
  let ?r2 = "build (build_deny builder_new) :: ('addr, 'eng) access_rule"
  have c: "controller w = controller_new DenyAll [gas_usage_rule, ?r2]" using assms(1) by (simp add: serving_def)
  have book: "can_book L (tracker_of T) t req 0 (uint (req_gas_usage req)) w"
    by (rule claim_books [OF assms(1,2)]) (use assms(5,7) in \<open>simp_all add: req claim_facts(1,3)\<close>)
  then have book': "can_book L (ctx_stats_tracker ctx) t req 0 (uint (transaction_budget ctx)) w"
    by (simp add: req claim_facts(1) assms(3))
  obtain rep where rep: "rule_matches L gas_usage_rule ctx = Ok rep" "rr_is_matched rep"
    by (rule matched_report [OF rule_facts(6)])
  let ?w1 = "pending_set (transaction_digest ctx) (Some [req]) (book L (tracker_of T) t req (0 + uint (transaction_budget ctx)) w)"
  from check_rule_limit [OF rule_facts(4) _ rep book' [unfolded req]] obtain rep1 where
    one: "check_rule L ctx gas_usage_rule w = (Ok (None, rep1), ?w1)"
    using assms(3,4) by (auto simp: rule_facts(5) req not_le)
  have "rule_verdict L ?r2 ctx = Ok True"
    by (simp add: rule_exec rule_verdict_def static_match_def rego_verdict_def)
  then obtain rep' where rep': "rule_matches L ?r2 ctx = Ok rep'" "rr_is_matched rep'" by (rule matched_report)
  have "decides_alone ?r2" "rule_action ?r2 = action.Deny" by (simp_all add: rule_exec decides_alone_def)
  from check_rule_alone [OF rep' this(1), of ?w1] this(2) obtain rep2 where
    two: "check_rule L ctx ?r2 ?w1 = (Ok (Some decision.Deny, rep2), ?w1)"
    by (auto simp: decision_of_action_def)
  have "check_access L ctx w = (Ok decision.Deny, ?w1)"
    using one two by (simp add: check_access_def c controller_new_def is_disabled_def Let_def)
  then show ?thesis using book by (simp add: req claim_facts(1))
qed

lemma wp_not: "wp m (\<lambda>a w. \<not> Q a w) w \<Longrightarrow> \<not> wp m Q w"
  by (auto simp: wp_def split: prod.splits result.splits)

lemma cut_ten: "uniform nanos_per_iota cs \<Longrightarrow> 10 \<le> length cs \<Longrightarrow> cut (uint (nanos_per_iota * 10)) cs = Some 10"
  using cut_uniform [of nanos_per_iota cs 10] by (simp add: nanos budget_10)

text \<open>
  With ten coins the test of the limit passes. The test starts with 60 of them, of which ten can still be
  lent when one is lent out: its assertion that they cannot fails.
\<close>

lemma gas_usage_rpc_test_passes:
  assumes "local_network (te_cluster T) (c # cs) t xs ss os w" "env_fits T" "length cs = 9" "pays T price budget c"
    and "tracker_keys w = Map.empty" "10000 \<le> budget" "uint budget \<le> 2 ^ 53"
  shows "passes (test_access_denied_from_controller_gas_usage T price budget) w"
proof -
  have u: "uniform nanos_per_iota (c # cs)" by (rule uniform_network [OF assms(1)])
  have cuts: "cut (uint nanos_per_iota) (c # cs) = Some 1" "cut (uint (nanos_per_iota * 10)) cs = None"
    using cut_iota [OF u] cut_too_many [of cs 10] u assms(3) by (simp_all add: budget_10)
  obtain d usig where d: "create_test_transaction (te_cluster T) price budget (cl_sponsor (te_cluster T)) [object_ref c] = (d, usig)"
    by fastforce
  have readable: "readable T d usig" "gas_budget d = budget"
    using assms(4) d by (auto simp: pays_def create_test_transaction_def Let_def)
  show ?thesis
    unfolding passes_wp test_access_denied_from_controller_gas_usage_def Let_def
      start_rpc_server_for_testing_with_access_controller_def wp_pbind wp_punwrap wp_pseq
    apply (rule wp_start_server [OF assms(1)], rule wp_call_health)
    apply (rule wp_call_reserve [OF assms(2)], simp, assumption, simp, simp, simp, simp, simp add: cuts, simp, simp)
    apply (unfold prod.case wp_pseq wp_assert wp_check, rule conjI, simp)
    apply (rule wp_call_reserve_refused [OF assms(2)], simp, assumption, simp, simp, simp, simp, simp add: cuts,
        rule conjI, simp)
    apply (simp add: d)
    apply (rule wp_ptry_execute [OF assms(2) _ readable(1)], simp)
    subgoal premises prems for w1 w2 w3 es ctx
    proof -
      have "serving T t (reserve_pool (Suc 0) (t + 10000) (started (c # cs))) xs ss os
          (controller_new AllowAll [limit_rule]) (tracker_keys w) (w3\<lparr>events := es\<rparr>)"
        using prems by simp
      from check_limit_rule [OF this assms(2) prems(4)] obtain req where
        "check_access (server_access_lib (te_libs T)) ctx (w3\<lparr>events := es\<rparr>) = (Ok decision.Deny,
           pending_set (transaction_digest ctx) (Some [req]) (book (server_access_lib (te_libs T)) (tracker_of T) t req
             (0 + uint (req_gas_usage req)) (w3\<lparr>events := es\<rparr>)))"
        "can_book (server_access_lib (te_libs T)) (tracker_of T) t req 0 (uint (req_gas_usage req)) (w3\<lparr>events := es\<rparr>)"
        using prems readable(2) assms(5-7) by fastforce
      then show ?thesis
        by (rule wp_impl_claim [OF _ prems(6,4)]) simp
    qed
    done
qed

lemma gas_usage_rpc_test_fails:
  assumes "local_network (te_cluster T) (c # cs) t xs ss os w" "env_fits T" "10 \<le> length cs"
  shows "\<not> passes (test_access_denied_from_controller_gas_usage T price budget) w"
proof -
  have u: "uniform nanos_per_iota (c # cs)" by (rule uniform_network [OF assms(1)])
  have cuts: "cut (uint nanos_per_iota) (c # cs) = Some 1" "cut (uint (nanos_per_iota * 10)) cs = Some 10"
    using cut_iota [OF u] cut_ten [of cs] u assms(3) by simp_all
  show ?thesis
    unfolding passes_wp test_access_denied_from_controller_gas_usage_def Let_def
      start_rpc_server_for_testing_with_access_controller_def wp_pbind wp_punwrap wp_pseq
    apply (rule wp_not, rule wp_start_server [OF assms(1)], rule wp_not, rule wp_call_health)
    apply (rule wp_not, rule wp_call_reserve [OF assms(2)], simp, assumption, simp, simp, simp, simp, simp add: cuts,
        simp, simp)
    apply (unfold prod.case wp_pseq wp_assert wp_check de_Morgan_conj not_not, rule disjI2)
    apply (rule wp_not, rule wp_ptry, rule wp_call_reserve [OF assms(2)], simp, assumption, simp, simp, simp, simp,
        simp add: cuts, simp, simp, simp)
    done
qed

lemma wp_fetch:
  fixes w :: "('addr, 'id, 'dg, 'sig, 'eng, 'z) rpc_world_scheme"
  shows "clock w = [t] \<Longrightarrow> live t (tracker_keys w) k = Some (v, e) \<Longrightarrow> read_int v = Some i \<Longrightarrow> Q i w \<Longrightarrow>
    wp (fetch_redis_val k) Q w"
  by (simp add: fetch_redis_val_def utc_now_ms_def wp_def)

lemma another_rule_test_passes:
  assumes "local_network (te_cluster T) (c # cs) t xs ss os w" "env_fits T" "pays T price budget c"
    and "3333 < budget" "uint budget \<le> 2 ^ 53"
  shows "passes (test_access_denied_from_controller_by_another_rule T ctx0 price budget) w"
proof -
  let ?L = "server_access_lib (te_libs T)"
  let ?g = "\<lparr>window = 120000000000, aggr_value = LessThanOrEqual 3333, count_bys = []\<rparr>"
  have cut: "cut (uint nanos_per_iota) (c # cs) = Some 1"
    by (rule cut_iota [OF uniform_network [OF assms(1)]])
  obtain d usig where d: "create_test_transaction (te_cluster T) price budget (cl_sponsor (te_cluster T)) [object_ref c] = (d, usig)"
    by fastforce
  have readable: "readable T d usig" "gas_budget d = budget"
    using assms(3) d by (auto simp: pays_def create_test_transaction_def Let_def)
  define k where "k = cl_show_address (te_cluster T) (cl_sponsor (te_cluster T)) @ '':tracker:'' @
    get_redis_aggr_key ?L gas_usage_name Sum (rule_fields ?L gas_usage_rule)"
  have meta: "get_rule_meta ?L gas_usage_rule ctx0 = Ok (rule_fields ?L gas_usage_rule)"
    by (simp add: get_rule_meta_def ser_access_rule_def rule_facts(4) rule_meta_with_counts_def)
  have key: "claim_key ?L (tracker_of T) (claim_of ?L gas_usage_rule ?g ctx) = k" for ctx :: "('a, 'c) transaction_context"
    by (simp add: claim_key_def aggr_key_def claim_of_def rule_meta_with_counts_def gas_usage_aggregate_def
        with_window_def with_aggr_type_def with_name_def tracker_of_def connect_stats_storage_def tracker_new_def
        get_tracker_namespace_def k_def nkey_def)
  show ?thesis
    unfolding passes_wp test_access_denied_from_controller_by_another_rule_def Let_def
      start_rpc_server_for_testing_with_access_controller_def wp_pbind wp_punwrap wp_pseq meta
    apply (rule wp_start_server [OF assms(1)])
    apply (simp only: fst_conv gas_station_container.simps station_same k_def [symmetric] wp_plift_ok wp_pbind
        wp_punwrap wp_pseq remove_redis_key_def wp_pmodify)
    subgoal premises prems for w1
    proof -
      have s: "serving T t (started (c # cs)) xs ss os (controller_new DenyAll [gas_usage_rule, build (build_deny builder_new)])
          ((tracker_keys w)(k := None)) (w1\<lparr>tracker_keys := (tracker_keys w1)(k := None)\<rparr>)"
        using prems by (simp add: serving_def)
      show ?thesis
        apply (rule wp_call_reserve [OF assms(2) _ s], simp, simp, simp, simp, simp, simp add: cut, simp, simp)
        apply (simp add: d)
        apply (rule wp_ptry_execute [OF assms(2) _ readable(1)], simp)
        subgoal premises prems for w2 es ctx
        proof -
          let ?req = "claim_of ?L gas_usage_rule ?g ctx" and ?w = "w2\<lparr>events := es\<rparr>"
          have run: "check_access ?L ctx ?w = (Ok decision.Deny, pending_set (transaction_digest ctx) (Some [?req])
              (book ?L (tracker_of T) t ?req (0 + uint (req_gas_usage ?req)) ?w)) \<and>
            can_book ?L (tracker_of T) t ?req 0 (uint (req_gas_usage ?req)) ?w"
            by (rule check_two_rules [where p = "reserve_pool (Suc 0) (t + 10000) (started (c # cs))" and xs = xs and ss = ss and
                os = os and db = "(tracker_keys w)(k := None)"])
              (use prems readable(2) assms(2,4,5) key in \<open>simp_all\<close>)
          show ?thesis
          proof (rule wp_impl_claim [OF run [THEN conjunct1] prems(4,2) run [THEN conjunct2]], goal_cases)
            case (1 x e w3)
            have "wp (fetch_redis_val k) (\<lambda>i. wp (assert (i = 0)) (\<lambda>_ _. True)) w3"
              by (rule wp_fetch [OF 1(2) 1(1) [unfolded key]]) simp_all
            then show ?case by simp
          qed
        qed
        done
    qed
    done
qed
lemma local_network_example:
  fixes w :: "(nat, nat, nat, nat, 'z) init_world_scheme" and coins :: "(nat, nat) gas_coin list"
  defines "page \<equiv> \<lparr>page_data = coins, has_next_page = False, next_cursor = None\<rparr>"
  assumes "uniform nanos_per_iota coins" and "coins \<noteq> []" and "length coins \<le> 100"
    and "quiet 1000000 w" "keys w = Map.empty" "object_answers w = os" "dates w = [d]"
    and "answers w = ([Inr page, Inr page], [Inr 1], [Inr 2500], xs, [Inr 77])"
  shows "local_network ex_cluster coins 1000000 xs [Inr 77] os w"
proof -
  let ?env = "cluster_env ex_cluster nanos_per_iota 1 2500"
  have env: "env_ok ?env" by (simp add: cluster_env_def env_ok_def nanos_per_iota_def ex_cluster_def)
  have "large_of ?env coins = []"
    by (rule target_coins_small(1) [OF env]) (use assms(2) in \<open>simp add: cluster_env_def\<close>)
  then have serves: "node_serves (cluster_station ex_cluster nanos_per_iota None) ?env coins []"
    using env by (simp add: node_serves_def) (simp add: cluster_env_def nanos_per_iota_def ex_cluster_def)
  have served: "served (cluster_station ex_cluster nanos_per_iota None) (cl_framework ex_cluster) nanos_per_iota 1 2500
      Init [page] [] ([Inr page], [Inr 1], [Inr 2500], xs, [Inr 77]) ([], [], [], xs, [Inr 77])"
    using serves assms(3) unfolding served_def station_same by (simp add: ex_cluster_def page_def)
  have "bal_sum coins = 1000000000 * int (length coins)"
    using uniform_sum [OF assms(2)] by (simp add: nanos)
  then have fits: "fits empty_pool coins" using assms(4) by (simp add: fits_def)
  have "cluster ex_cluster coins nanos_per_iota 1000000 1 2500 [] ([], [], [], xs, [Inr 77]) w"
    unfolding cluster_def
    by (intro conjI exI [of _ "[page]"] exI [of _ "[Inr page]"] exI [of _ "([Inr 1], [Inr 2500], xs, [Inr 77])"])
      (use served fits assms(5,6,9) in \<open>auto simp: test_start_def test_time_def nat_codec_ok fresh_namespace_def
        ex_cluster_def page_def\<close>)
  moreover have "\<exists>d. dates w = [d]" using assms(8) by blast
  ultimately show ?thesis
    using assms(2,7) unfolding local_network_def by blast
qed

section \<open>All of them\<close>

text \<open>C40: the server passes its tests, with one exception. A client reserves coins and has a transaction
  executed, whatever it asks to wait for; a wrong secret is refused, while a server without a secret is
  open; a controller that denies everything denies, and after a reload the new one decides; a rule with a
  gas limit denies what exceeds it, and a claim that a later rule denies is given back in full. The test of
  the gas limit passes with ten coins but not with the 60 it is started with, of which ten more can be lent
  although the test asserts that they cannot.\<close>

theorem server_passes_its_tests:
  fixes w1 :: "('addr, 'id, 'dg, 'sig, 'eng, 'z) rpc_world_scheme"
  assumes "local_network (te_cluster T) (c # c' # cs) t (Inr (Some e) # xs1) (Inr s # ss1) (Inr [shown c] # os1) w1"
    and "local_network (te_cluster T) (c # c' # cs) t (Inr (Some e) # xs2) (Inr s # ss2) (Inr [shown c'] # os2) w2"
    and "local_network (te_cluster T) (c # sixty) t xs3 ss3 os3 w3"
    and "length cs = 8" "length sixty = 59" "tracker_keys w1 = Map.empty"
    and "env_fits T" "transfers (te_cluster T)" "pays T price budget c" "pays T price budget c'" "leaves e"
    and "10000 \<le> budget" "uint budget \<le> 2 ^ 53" "\<And>k. read_keypair (te_libs T) (print_keypair k) = Some k"
  shows "passes (test_basic_rpc_flow T price budget) w1 \<and>
    passes (test_explicit_wait_for_effects_cert T price budget) w1 \<and>
    passes (test_wait_for_local_execution T price budget) w1 \<and>
    passes (test_debug_health_check T) w1 \<and>
    passes (test_invalid_auth T) w1 \<and> passes (test_no_auth T) w1 \<and> passes (test_empty_auth T) w1 \<and>
    passes (test_access_denied_from_controller T price budget) w1 \<and>
    passes (test_access_allow_after_ac_reload T print_keypair keypair price budget) w2 \<and>
    passes (test_access_denied_from_controller_by_another_rule T ctx0 price budget) w3 \<and>
    passes (test_access_denied_from_controller_gas_usage T price budget) w1 \<and>
    \<not> passes (test_access_denied_from_controller_gas_usage T price budget) w3"
proof -
  have nine: "length (c' # cs) = 9" "10 \<le> length sixty" using assms(4,5) by simp_all
  have "3333 < budget" using assms(12) by (simp add: word_le_nat_alt word_less_nat_alt)
  note another = another_rule_test_passes [OF assms(3,7,9) this assms(13)]
  show ?thesis
    unfolding test_basic_rpc_flow_def test_explicit_wait_for_effects_cert_def test_wait_for_local_execution_def
    by (intro conjI flow_passes [OF assms(1,7) nine(1) assms(8,9,11)] health_tests_pass [OF assms(1,7)]
        auth_test_passes [OF assms(1,7)] open_tests_pass [OF assms(1,7)]
        denied_test_passes [OF assms(1,7) nine(1) assms(9)]
        reload_test_passes [OF assms(2,7,4,8-11,14)] another
        gas_usage_rpc_test_passes [OF assms(1,7) nine(1) assms(9,6,12,13)]
        gas_usage_rpc_test_fails [OF assms(3,7) nine(2)])
qed

section \<open>A server\<close>

text \<open>A transaction of the test is known by its first coin.\<close>

definition ex_test_tx :: "nat \<Rightarrow> (nat, nat, nat) tx_data" where
  "ex_test_tx i = fst (create_test_transaction ex_cluster 1000 10000000 2 [object_ref (ex_iota i)])"

definition ex_wire :: "(nat, nat, nat, nat) wire_lib" where
  "ex_wire = sample_wire\<lparr>tx_to_bcs := (\<lambda>d. show_nat (fst (hd (payment d)))),
     tx_from_bcs := (\<lambda>b. case read_nat b of Some i \<Rightarrow> Inr (ex_test_tx i) | None \<Rightarrow> Inl (Anyhow ''invalid''))\<rparr>"

definition ex_test_env :: "(nat, nat, nat, nat, unit) test_env" where
  "ex_test_env = \<lparr>te_cluster = ex_cluster, te_libs = (sample_server None)\<lparr>server_wire_lib := ex_wire\<rparr>,
     te_header_ok = (\<lambda>h. True), te_http = sample_stack, te_port = 9527, te_redis = sample_redis\<rparr>"

definition ex_rpc_net ::
  "(nat, nat) gas_coin list \<Rightarrow> nat \<Rightarrow> (nat, nat, nat, nat, unit) rpc_world"
where
  "ex_rpc_net coins i =
     (let page = Inr \<lparr>page_data = coins, has_next_page = False, next_cursor = None\<rparr>
      in (sample_rpc_world default_controller)\<lparr>clock := [1000000], coin_answers := [page, page],
           price_answers := [Inr 1], object_answers := [Inr [shown (ex_iota i)]], inspect_answers := [Inr 2500],
           exec_answers := [Inr (Some ex_effects)], sign_answers := [Inr 77]\<rparr>)"

lemma ex_rpc_net_local:
  "uniform nanos_per_iota coins \<Longrightarrow> coins \<noteq> [] \<Longrightarrow> length coins \<le> 100 \<Longrightarrow>
     local_network ex_cluster coins 1000000 [Inr (Some ex_effects)] [Inr 77] [Inr [shown (ex_iota i)]] (ex_rpc_net coins i)"
  by (rule local_network_example [where d = 0])
    (simp_all add: ex_rpc_net_def sample_rpc_world_def quiet_def answers_def Let_def)

lemma ex_pays: "pays ex_test_env 1000 10000000 (ex_iota i)"
  by (simp add: pays_def create_test_transaction_def readable_def ex_test_env_def wire_bcs_ok_def ex_wire_def
      sample_wire_def sample_server_def ex_test_tx_def ex_iota_def ex_cluster_def)

theorem server_passes_its_tests_witness:
  "passes (test_basic_rpc_flow ex_test_env 1000 10000000) (ex_rpc_net (map ex_iota [0..<10]) 0) \<and>
   \<not> passes (test_access_denied_from_controller_gas_usage ex_test_env 1000 10000000) (ex_rpc_net (map ex_iota [0..<60]) 0)"
proof -
  have coins: "uniform nanos_per_iota (map ex_iota ns)" for ns by (simp add: uniform_def ex_iota_def)
  have ten: "map ex_iota [0..<10] = ex_iota 0 # ex_iota 1 # map ex_iota [2..<10]"
    by (simp add: upt_conv_Cons numeral_2_eq_2 [symmetric] numeral_3_eq_3 [symmetric])
  have sixty: "map ex_iota [0..<60] = ex_iota 0 # map ex_iota [1..<60]"
    by (simp add: upt_conv_Cons [of 0])
  have E: "te_cluster ex_test_env = ex_cluster" by (simp add: ex_test_env_def)
  have net: "local_network (te_cluster ex_test_env) (ex_iota 0 # ex_iota 1 # map ex_iota [2..<10]) 1000000
      [Inr (Some ex_effects)] [Inr 77] [Inr [shown (ex_iota i)]] (ex_rpc_net (map ex_iota [0..<10]) i)" for i
    unfolding E ten [symmetric] by (rule ex_rpc_net_local [OF coins]) simp_all
  have net60: "local_network (te_cluster ex_test_env) (ex_iota 0 # map ex_iota [1..<60]) 1000000
      [Inr (Some ex_effects)] [Inr 77] [Inr [shown (ex_iota 0)]] (ex_rpc_net (map ex_iota [0..<60]) 0)"
    unfolding E sixty [symmetric] by (rule ex_rpc_net_local [OF coins]) simp_all
  have fits: "env_fits ex_test_env"
    using sample_wire_ok(1) sample_bearer_ok by (simp add: env_fits_def ex_test_env_def sample_server_def
        sample_lib_def sample_ok ex_wire_def wire_lib_ok_def bearer_ok_def)
  have ok: "transfers (te_cluster ex_test_env)" "leaves ex_effects" "tracker_keys (ex_rpc_net cs i) = Map.empty"
    "read_keypair (te_libs ex_test_env) k = Some k" for cs i k
    by (simp_all add: E transfers_def ex_cluster_def leaves_def ex_effects_def nanos_per_iota_def ex_rpc_net_def
        sample_rpc_world_def ex_test_env_def sample_server_def Let_def)
  have sizes: "length (map ex_iota [2..<10]) = 8" "length (map ex_iota [1..<60]) = 59"
      "(10000 :: 64 word) \<le> 10000000" "uint (10000000 :: 64 word) \<le> 2 ^ 53"
    by simp_all
  from server_passes_its_tests [where print_keypair = "\<lambda>k. k", OF net [of 0] net [of 1] net60 sizes(1,2) ok(3) fits
      ok(1) ex_pays ex_pays ok(2) sizes(3,4) ok(4)] show ?thesis
    by blast
qed

end
