(* ===== verification/Service_Tests.thy ===== *)
theory Service_Tests
  imports Config_File Access_Tests Storage_Kit
begin

text \<open>
  The tests of smaller parts: reading a configuration (\<open>src/src/config/mod.rs\<close>), the sources of a policy
  (\<open>src/src/access_controller/predicates/source.rs\<close>) and the counters of the tracker
  (\<open>src/src/tracker/stats_tracker_storage/redis/mod.rs\<close>).
\<close>

section \<open>Reading a configuration\<close>

text \<open>The YAML texts of the tests as the values they denote.\<close>

definition config_yaml :: "string \<Rightarrow> string \<Rightarrow> json" where
  "config_yaml sidecar_url_name redis_url_name = JObject
     [(''signer-config'', JObject [(''sidecar'', JObject [(sidecar_url_name, JString ''http://localhost:3000'')])]),
      (''rpc-host-ip'', JString ''0.0.0.0''), (''rpc-port'', JNumber 9527), (''metrics-port'', JNumber 9184),
      (''storage-config'', JObject [(''redis'', JObject [(redis_url_name, JString ''redis://localhost:6379'')])]),
      (''fullnode-url'', JString ''https://api.devnet.iota.cafe''),
      (''daily-gas-usage-cap'', JNumber 1500000000000), (''max-gas-budget'', JNumber 2000000000)]"

definition urls_read :: "('addr, 'dg, 'eng) gas_station_config result \<Rightarrow> bool" where
  "urls_read r \<longleftrightarrow> (case r of
     Ok config \<Rightarrow> signer_config config = Sidecar ''http://localhost:3000'' \<and>
       storage_config config = Redis ''redis://localhost:6379''
   | _ \<Rightarrow> False)"

definition test_deserialize_config_urls_kebab_case ::
  "('addr, 'eng) access_lib \<Rightarrow> (string \<Rightarrow> string option) \<Rightarrow> 'dg itself \<Rightarrow> bool"
where
  "test_deserialize_config_urls_kebab_case L parse_keypair (T :: 'dg itself) =
     urls_read (de_config L parse_keypair (config_yaml ''sidecar-url'' ''redis-url'') ::
       ('addr, 'dg, 'eng) gas_station_config result)"

definition test_deserialize_config_urls_camel_case ::
  "('addr, 'eng) access_lib \<Rightarrow> (string \<Rightarrow> string option) \<Rightarrow> 'dg itself \<Rightarrow> bool"
where
  "test_deserialize_config_urls_camel_case L parse_keypair (T :: 'dg itself) =
     urls_read (de_config L parse_keypair (config_yaml ''sidecar_url'' ''redis_url'') ::
       ('addr, 'dg, 'eng) gas_station_config result)"

lemma any_address: "de_ipv4 (JString ''0.0.0.0'') = Ok (0, 0, 0, 0)"
  using ipv4_text [of "(0, 0, 0, 0)"] by (simp add: ipv4_ok_def display_ipv4_def show_nat_less digit_char_def)

lemma config_tests_pass:
  "test_deserialize_config_urls_kebab_case L parse_keypair T"
  "test_deserialize_config_urls_camel_case L parse_keypair T"
  by (simp_all add: test_deserialize_config_urls_kebab_case_def test_deserialize_config_urls_camel_case_def
      config_yaml_def urls_read_def de_field_def de_alias_def de_optional_def de_default_def de_u64_def any_address)

section \<open>Sources of a policy\<close>

definition test_rego_rule_name :: string where "test_rego_rule_name = ''data.test.some_match''"
definition test_rego_file_path :: string where
  "test_rego_file_path = ''./src/access_controller/predicates/test_files/sample_expression.rego''"
definition test_rego_redis_key :: string where "test_rego_redis_key = ''test_key''"
definition test_rego_http_url :: string where
  "test_rego_http_url = ''http://localhost:8080/sample_expression.rego''"
definition test_rego_redis_url :: string where "test_rego_redis_url = ''redis://localhost:6379''"

text \<open>A file, a server or Redis that holds the content.\<close>

definition holds_content :: "string \<Rightarrow> source_answer" where
  "holds_content content =
     \<lparr>open_error = None, connect_error = None, bad_status = None, source_bytes = Inr content\<rparr>"

definition test_source_location :: bool where
  "test_source_location \<longleftrightarrow>
     (let file_location = new_file test_rego_file_path test_rego_rule_name;
          redis_location = new_redis test_rego_redis_url test_rego_redis_key test_rego_rule_name;
          http_location = new_http test_rego_http_url test_rego_rule_name
      in get_rego_rule_path file_location = test_rego_rule_name \<and>
         get_rego_rule_path redis_location = test_rego_rule_name \<and>
         get_rego_rule_path http_location = test_rego_rule_name)"

definition test_source_location_file :: "string \<Rightarrow> string \<Rightarrow> bool" where
  "test_source_location_file current_dir content \<longleftrightarrow>
     (let file_location = new_file (current_dir @ ''/'' @ test_rego_file_path) test_rego_rule_name
      in fetch_string file_location (holds_content content) = Ok content)"

definition test_source_location_http :: "string \<Rightarrow> bool" where
  "test_source_location_http content \<longleftrightarrow>
     (let http_location = new_http test_rego_http_url test_rego_rule_name
      in fetch_string http_location (holds_content content) = Ok content)"

definition test_source_location_redis :: "string \<Rightarrow> bool" where
  "test_source_location_redis content \<longleftrightarrow>
     (let redis_location = new_redis test_rego_redis_url test_rego_redis_key test_rego_rule_name
      in fetch_string redis_location (holds_content content) = Ok content)"

definition test_source_with_data :: "string \<Rightarrow> bool" where
  "test_source_with_data content \<longleftrightarrow>
     (let file_location = new_file test_rego_file_path test_rego_rule_name
      in case source_fetch (source_new file_location) (holds_content content) of
           Ok s \<Rightarrow> get_data_string s = Some content
         | _ \<Rightarrow> False)"

text \<open>The policy of the tests is a text of ASCII characters.\<close>

lemma source_tests_pass:
  assumes "\<forall>c \<in> set content. (of_char c :: nat) < 128"
  shows "test_source_location" "test_source_location_file dir content" "test_source_location_http content"
    "test_source_location_redis content" "test_source_with_data content"
  using utf8_lossy_ascii [OF assms]
  by (simp_all add: test_source_location_def test_source_location_file_def test_source_location_http_def
      test_source_location_redis_def test_source_with_data_def holds_content_def new_file_def new_redis_def
      new_http_def source_fetch_def source_new_def get_data_string_def Let_def)

section \<open>Counters of the tracker\<close>

definition new_localhost :: "lua_redis \<Rightarrow> stats_tracker" where
  "new_localhost E = tracker_new E ''test''"

definition test_update_aggr ::
  "('addr, 'eng) access_lib \<Rightarrow> lua_redis \<Rightarrow>
     (('addr, 'id, 'dg, 'sig, 'eng, 'z) access_world_scheme, unit) prog"
where
  "test_update_aggr L E =
     (let storage = new_localhost E;
          window_size = 2000000000;
          aggregate = \<lparr>aggr_name = ''gas_usage'', aggr_window = window_size, aggr_type = Sum\<rparr>;
          key_meta = [(''sender_address'', JString ''0x1234567890abcdef'')]
      in pbind (punwrap (storage_update_aggr L storage key_meta aggregate 1)) (\<lambda>result.
         pseq (assert (result = 1)) (
         pbind (punwrap (storage_update_aggr L storage key_meta aggregate 2)) (\<lambda>result.
         pseq (assert (result = 3)) (
         pseq (sleep 3000) (
         pbind (punwrap (storage_update_aggr L storage key_meta aggregate 2)) (\<lambda>result.
         assert (result = 2))))))))"

definition books :: "int \<Rightarrow> int \<Rightarrow> string \<Rightarrow> int \<Rightarrow> int option \<Rightarrow>
    ('addr, 'id, 'dg, 'sig, 'eng, 'z) access_world_scheme \<Rightarrow> bool" where
  "books now ttl k c e w \<longleftrightarrow> quiet_at now w \<and> counter now (tracker_keys w) k = Some c \<and>
     expiry now ttl (tracker_keys w) k = e"

lemma wp_update_aggr:
  fixes w :: "('addr, 'id, 'dg, 'sig, 'eng, 'z) access_world_scheme"
  assumes "lua_redis_ok (tracker_redis tr)" "window_ok now (claim_ttl a)"
    and "books now (claim_ttl a) (aggr_key L tr a meta) c e w"
    and "\<bar>sint v\<bar> \<le> 2 ^ 53" "\<bar>c\<bar> \<le> 2 ^ 53" "\<bar>c + sint v\<bar> \<le> 2 ^ 53"
    and "\<And>w' :: ('addr, 'id, 'dg, 'sig, 'eng, 'z) access_world_scheme.
      books now (claim_ttl a) (aggr_key L tr a meta) (c + sint v) e w' \<Longrightarrow>
      tracker_keys w' = (tracker_keys w)(aggr_key L tr a meta \<mapsto> (show_int (c + sint v), e)) \<Longrightarrow>
      Q (word_of_int (c + sint v)) w'"
  shows "wp (storage_update_aggr L tr meta a v) Q w"
proof -
  let ?k = "aggr_key L tr a meta" and ?ttl = "claim_ttl a"
  let ?db = "booked_at now ?ttl ?k (c + sint v) (tracker_keys w)"
  have e: "expiry now ?ttl (tracker_keys w) ?k = e" and ttl: "0 < ?ttl" and q: "quiet_at now w"
    using assms(2,3) by (simp_all add: books_def window_ok_def)
  have run: "storage_update_aggr L tr meta a v w = (Ok (word_of_int (c + sint v)), w\<lparr>tracker_keys := ?db\<rparr>)"
    using update_books [OF assms(1,2) q _ assms(4-6)] assms(3) by (simp add: stats_update_aggr_def books_def)
  have "expiry now ?ttl ?db ?k = e"
    using e ttl live_not_expired [of now "tracker_keys w" ?k]
    by (auto simp: expiry_def booked_at_def live_def split: option.splits)
  then have "books now ?ttl ?k (c + sint v) e (w\<lparr>tracker_keys := ?db\<rparr>)"
    using q counter_booked [OF ttl] by (simp add: books_def quiet_at_def)
  then show ?thesis
    by (intro wp_ran [where m = "storage_update_aggr L tr meta a v", OF run] assms(7))
      (simp_all add: booked_at_def e)
qed

lemma update_aggr_test_passes:
  fixes w :: "('addr, 'id, 'dg, 'sig, 'eng, 'z) access_world_scheme"
  assumes "lua_redis_ok E" "quiet_at now w" "0 \<le> now" "now < 2 ^ 62"
    and "\<And>k. tracker_keys w (nkey ''test:tracker'' k) = None"
  shows "passes (test_update_aggr L E) w"
proof -
  define a where "a = \<lparr>aggr_name = ''gas_usage'', aggr_window = 2000000000, aggr_type = Sum\<rparr>"
  define meta where "meta = [(''sender_address'', JString ''0x1234567890abcdef'')]"
  define tr where "tr = new_localhost E"
  let ?k = "aggr_key L tr a meta"
  have redis: "lua_redis_ok (tracker_redis tr)" using assms(1) by (simp add: tr_def new_localhost_def tracker_new_def)
  have ttl: "claim_ttl a = 2" by (simp add: claim_ttl_def a_def as_secs_def)
  have window: "window_ok now (claim_ttl a)" "window_ok (now + 3000) (claim_ttl a)"
    using assms(3,4) by (simp_all add: window_ok_def ttl)
  have "tracker_keys w ?k = None"
    using assms(5) by (simp add: aggr_key_def tr_def new_localhost_def tracker_new_def get_tracker_namespace_def)
  then have start: "books now (claim_ttl a) ?k 0 (Some (now + 2000)) w"
    using assms(2) by (simp add: books_def counter_def expiry_def live_def ttl)
  have later: "wp (sleep 3000) Q w'"
    if "books now (claim_ttl a) ?k 3 (Some (now + 2000)) w'"
      "tracker_keys w' = db(?k \<mapsto> (show_int 3, Some (now + 2000)))"
      "\<And>w'' :: ('addr, 'id, 'dg, 'sig, 'eng, 'z) access_world_scheme.
        books (now + 3000) (claim_ttl a) ?k 0 (Some (now + 5000)) w'' \<Longrightarrow> Q () w''"
    for w' :: "('addr, 'id, 'dg, 'sig, 'eng, 'z) access_world_scheme" and Q db
    unfolding sleep_def wp_pmodify
    by (rule that(3))
      (use that(1,2) in \<open>simp add: books_def quiet_at_def counter_def expiry_def live_def ttl\<close>)
  show ?thesis
    unfolding passes_wp test_update_aggr_def Let_def wp_pbind wp_pseq wp_punwrap
      a_def [symmetric] meta_def [symmetric] tr_def [symmetric]
    apply (rule wp_update_aggr [OF redis window(1) start], simp, simp, simp)
    apply (unfold wp_assert, rule conjI, simp)
    apply (rule wp_update_aggr [OF redis window(1)], assumption, simp, simp, simp)
    apply (rule conjI, simp)
    apply (rule later, simp, simp)
    apply (rule wp_update_aggr [OF redis window(2)], assumption, simp, simp, simp, simp)
    done
qed

end
