(* ===== verification/Bcs_Decoder.thy ===== *)
theory Bcs_Decoder
  imports Prelude
begin

text \<open>
  The extension \<open>bcs.decode_typed\<close> of the Rego engine,
  \<open>src/src/access_controller/predicates/rego_expression/bcs_decoder.rs\<close>: it takes an array of bytes and
  the name of a type and decodes the bytes. Values of the engine are modelled as far as the code
  looks at them. The decoders of the \<open>bcs\<close> crate and of the node's SDK are an argument, \<open>bcs_lib\<close>.
\<close>

datatype rego_val =
    VNumber int
  | VString string
  | VArray "rego_val list"
  | VOther string

datatype bcs_data_type =
    String
  | U8
  | U16
  | U32
  | U64
  | Bool
  | Address
  | VectorAddress
  | VectorString
  | VectorU8
  | VectorU16
  | VectorU32
  | VectorU64
  | VectorBool

text \<open>
  \<open>from_bcs_uint\<close> and \<open>from_bcs_uints\<close> take the width in bits; \<open>sdk_address\<close> decodes an address and
  converts it; \<open>show_value\<close> is the \<open>Debug\<close> text of a value.
\<close>

record bcs_lib =
  from_bcs_string :: "nat list \<Rightarrow> error + string"
  from_bcs_uint :: "nat \<Rightarrow> nat list \<Rightarrow> error + nat"
  from_bcs_strings :: "nat list \<Rightarrow> error + string list"
  from_bcs_uints :: "nat \<Rightarrow> nat list \<Rightarrow> error + nat list"
  sdk_bool :: "nat list \<Rightarrow> error + rego_val"
  sdk_bools :: "nat list \<Rightarrow> error + rego_val"
  sdk_addresses :: "nat list \<Rightarrow> error + rego_val"
  sdk_address :: "nat list \<Rightarrow> error + (error + string)"
  show_value :: "rego_val \<Rightarrow> string"

definition display_bcs_type :: "bcs_data_type \<Rightarrow> string" where
  "display_bcs_type t = (case t of
     String \<Rightarrow> ''string'' | U8 \<Rightarrow> ''u8'' | U16 \<Rightarrow> ''u16'' | U32 \<Rightarrow> ''u32'' | U64 \<Rightarrow> ''u64''
   | Bool \<Rightarrow> ''bool'' | Address \<Rightarrow> ''address'' | VectorAddress \<Rightarrow> ''vector_address''
   | VectorString \<Rightarrow> ''vector_string'' | VectorU8 \<Rightarrow> ''vector_u8'' | VectorU16 \<Rightarrow> ''vector_u16''
   | VectorU32 \<Rightarrow> ''vector_u32'' | VectorU64 \<Rightarrow> ''vector_u64'' | VectorBool \<Rightarrow> ''vector_bool'')"

definition bcs_type_of_str :: "string \<Rightarrow> bcs_data_type result" where
  "bcs_type_of_str value =
     (if value = ''string'' then Ok String
      else if value = ''u8'' then Ok U8
      else if value = ''u16'' then Ok U16
      else if value = ''u32'' then Ok U32
      else if value = ''u64'' then Ok U64
      else if value = ''bool'' then Ok Bool
      else if value = ''vector_string'' then Ok VectorString
      else if value = ''vector_u8'' then Ok VectorU8
      else if value = ''vector_u16'' then Ok VectorU16
      else if value = ''vector_u32'' then Ok VectorU32
      else if value = ''vector_u64'' then Ok VectorU64
      else if value = ''vector_bool'' then Ok VectorBool
      else if value = ''vector_address'' then Ok VectorAddress
      else if value = ''address'' then Ok Address
      else Err (Anyhow (''Unsupported BCS data type: '' @ value)))"

fun map_err :: "(error \<Rightarrow> error) \<Rightarrow> 'a result \<Rightarrow> 'a result" where
  "map_err f (Err e) = Err (f e)"
| "map_err f r = r"

definition bcs_type_of_value :: "bcs_lib \<Rightarrow> rego_val \<Rightarrow> bcs_data_type result" where
  "bcs_type_of_value L v =
     (case v of
        VString s \<Rightarrow>
          map_err (\<lambda>e. Anyhow (''Failed to convert string to BCS data type: '' @ error_to_string e))
            (bcs_type_of_str s)
      | _ \<Rightarrow> Err (Anyhow (''Expected a string value for BCS data type, got: '' @ show_value L v)))"

text \<open>The result of a decoder; \<open>what\<close> is the message its error gets, if it gets one.\<close>

fun decoded :: "string \<Rightarrow> error + 'a \<Rightarrow> 'a result" where
  "decoded what (Inl e) = Err (Anyhow (what @ error_to_string e))"
| "decoded what (Inr a) = Ok a"

fun plain :: "error + 'a \<Rightarrow> 'a result" where
  "plain (Inl e) = Err e"
| "plain (Inr a) = Ok a"

definition numbers :: "nat list \<Rightarrow> rego_val" where
  "numbers ns = VArray (map (\<lambda>n. VNumber (int n)) ns)"

definition bcs_decode_bytes :: "bcs_lib \<Rightarrow> nat list \<Rightarrow> bcs_data_type \<Rightarrow> rego_val result" where
  "bcs_decode_bytes L bytes t = (case t of
     String \<Rightarrow>
       rbind (decoded ''Failed to decode string: '' (from_bcs_string L bytes)) (\<lambda>s. Ok (VString s))
   | U8 \<Rightarrow>
       rbind (decoded ''Failed to decode u8: '' (from_bcs_uint L 8 bytes)) (\<lambda>n. Ok (VNumber (int n)))
   | U16 \<Rightarrow>
       rbind (decoded ''Failed to decode u16: '' (from_bcs_uint L 16 bytes)) (\<lambda>n. Ok (VNumber (int n)))
   | U32 \<Rightarrow>
       rbind (decoded ''Failed to decode u32: '' (from_bcs_uint L 32 bytes)) (\<lambda>n. Ok (VNumber (int n)))
   | U64 \<Rightarrow>
       rbind (decoded ''Failed to decode u64: '' (from_bcs_uint L 64 bytes)) (\<lambda>n. Ok (VNumber (int n)))
   | Bool \<Rightarrow> plain (sdk_bool L bytes)
   | Address \<Rightarrow>
       rbind (plain (sdk_address L bytes)) (\<lambda>decoded_address.
       rbind (decoded ''Failed to convert to Iota address: '' decoded_address) (\<lambda>a. Ok (VString a)))
   | VectorAddress \<Rightarrow> plain (sdk_addresses L bytes)
   | VectorBool \<Rightarrow> plain (sdk_bools L bytes)
   | VectorString \<Rightarrow>
       rbind (decoded ''Failed to decode vector of strings: '' (from_bcs_strings L bytes)) (\<lambda>ss.
       Ok (VArray (map VString ss)))
   | VectorU8 \<Rightarrow>
       rbind (decoded ''Failed to decode vector of u8: '' (from_bcs_uints L 8 bytes)) (\<lambda>ns. Ok (numbers ns))
   | VectorU16 \<Rightarrow>
       rbind (decoded ''Failed to decode vector of u16: '' (from_bcs_uints L 16 bytes)) (\<lambda>ns. Ok (numbers ns))
   | VectorU32 \<Rightarrow>
       rbind (decoded ''Failed to decode vector of u32: '' (from_bcs_uints L 32 bytes)) (\<lambda>ns. Ok (numbers ns))
   | VectorU64 \<Rightarrow>
       rbind (decoded ''Failed to decode vector of u64: '' (from_bcs_uints L 64 bytes)) (\<lambda>ns. Ok (numbers ns)))"

fun as_u8 :: "rego_val \<Rightarrow> nat result" where
  "as_u8 (VNumber i) = (if 0 \<le> i \<and> i < 256 then Ok (nat i) else Err (Foreign ''not a u8''))"
| "as_u8 v = Err (Foreign ''not a number'')"

fun as_array :: "rego_val \<Rightarrow> rego_val list result" where
  "as_array (VArray vs) = Ok vs"
| "as_array v = Err (Foreign ''not an array'')"

definition bcs_decode_typed :: "bcs_lib \<Rightarrow> rego_val list \<Rightarrow> rego_val result" where
  "bcs_decode_typed L args =
     (if length args \<noteq> 2
      then Err (Anyhow (''bcs.decode_typed expects 2 arguments, got '' @ show_nat (length args)))
      else
        rbind (map_err (\<lambda>e. Anyhow (''Unsupported BCS data type: '' @ error_to_string e))
                 (bcs_type_of_value L (args ! 1))) (\<lambda>data_type.
        rbind (with_context ''First argument must be an array of bytes'' (as_array (args ! 0))) (\<lambda>data_array.
        rbind (map_result (\<lambda>item. with_context ''Array items must be u8 values'' (as_u8 item)) data_array)
          (\<lambda>data_bytes.
        with_context ''Failed to decode value'' (bcs_decode_bytes L data_bytes data_type)))))"

text \<open>Every type has a name that the extension accepts, and a wrong name is reported with its text.\<close>

lemma bcs_type_names: "bcs_type_of_str (display_bcs_type t) = Ok t"
  by (cases t) (simp_all add: bcs_type_of_str_def display_bcs_type_def)

lemma bytes_accepted:
  "\<forall>b \<in> set bs. b < 256 \<Longrightarrow>
     bcs_decode_typed L [VArray (map (\<lambda>b. VNumber (int b)) bs), VString (display_bcs_type t)] =
     with_context ''Failed to decode value'' (bcs_decode_bytes L bs t)"
proof -
  assume "\<forall>b \<in> set bs. b < 256"
  then have "map_result (\<lambda>item. with_context ''Array items must be u8 values'' (as_u8 item))
      (map (\<lambda>b. VNumber (int b)) bs) = Ok (map (\<lambda>b. b) bs)"
    by (intro map_result_map) simp
  then show ?thesis
    by (simp add: bcs_decode_typed_def bcs_type_of_value_def bcs_type_names)
qed

lemma bytes_out_of_range:
  "bcs_decode_typed L [VArray [VNumber 256], VString (display_bcs_type t)] =
     Err (Context ''Array items must be u8 values'' (Foreign ''not a u8''))"
  by (simp add: bcs_decode_typed_def bcs_type_of_value_def bcs_type_names)

end
