(* ===== verification/Metrics.thy ===== *)
theory Metrics
  imports Prelude
begin

text \<open>
  The metrics the server registers, \<open>src/src/metrics.rs\<close>. A registry is the list of the names it
  holds; registering a name it has is an error, and every registration is unwrapped, so it is a
  panic. A histogram of \<open>iota_metrics\<close> registers several names, \<open>histogram_names\<close>. The models of the
  other components count a metric by the name of its field.
\<close>

datatype metric_kind = IntCounter | IntCounterVec string | IntGaugeVec string | Histogram

record metric_def =
  metric_kind :: metric_kind
  metric_name :: string
  metric_help :: string

definition counter_def :: "string \<Rightarrow> string \<Rightarrow> metric_def" where
  "counter_def name help = \<lparr>metric_kind = IntCounter, metric_name = name, metric_help = help\<rparr>"

definition counter_vec_def :: "string \<Rightarrow> string \<Rightarrow> metric_def" where
  "counter_vec_def name help =
     \<lparr>metric_kind = IntCounterVec ''sponsor'', metric_name = name, metric_help = help\<rparr>"

definition gauge_vec_def :: "string \<Rightarrow> string \<Rightarrow> metric_def" where
  "gauge_vec_def name help =
     \<lparr>metric_kind = IntGaugeVec ''sponsor'', metric_name = name, metric_help = help\<rparr>"

definition histogram_def :: "string \<Rightarrow> string \<Rightarrow> metric_def" where
  "histogram_def name help = \<lparr>metric_kind = Histogram, metric_name = name, metric_help = help\<rparr>"

definition rpc_metrics :: "metric_def list" where
  "rpc_metrics = [
     counter_def ''num_reserve_gas_requests'' ''Total number of reserve_gas RPC requests received'',
     counter_def ''num_authorized_reserve_gas_requests''
       ''Total number of reserve_gas RPC requests that provided the correct auth token'',
     counter_def ''num_successful_reserve_gas_requests''
       ''Total number of reserve_gas RPC requests that were successful'',
     counter_def ''num_failed_reserve_gas_requests''
       ''Total number of reserve_gas RPC requests that failed'',
     histogram_def ''target_gas_budget_per_request''
       ''Target gas budget value in the reserve_gas RPC request'',
     histogram_def ''reserve_duration_per_request''
       ''Reserve duration value in the reserve_gas RPC request'',
     counter_def ''num_execute_tx_requests'' ''Total number of execute_tx RPC requests received'',
     counter_def ''num_authorized_execute_tx_requests''
       ''Total number of execute_tx RPC requests that provided the correct auth token'',
     counter_def ''num_successful_execute_tx_requests''
       ''Total number of execute_tx RPC requests that were successful'',
     counter_def ''num_failed_execute_tx_requests''
       ''Total number of execute_tx RPC requests that failed'',
     counter_def ''num_allowed_execute_tx_requests''
       ''Total number execute_tx RPC requests allowed by the Access Controller'',
     counter_def ''num_blocked_execute_tx_requests''
       ''Total number execute_tx RPC requests blocked by the Access Controller'']"

definition core_metrics :: "metric_def list" where
  "core_metrics = [
     histogram_def ''reserved_gas_coin_count_per_request''
       ''Number of gas coins reserved in each reserve_gas RPC request'',
     counter_vec_def ''num_expired_gas_coins''
       ''Total number of gas coins that are put back due to reservation expiration'',
     counter_vec_def ''num_smashed_gas_coins''
       ''Total number of gas coins that are smashed (i.e. deleted) during transaction execution'',
     histogram_def ''reserve_gas_latency'' ''Latency of gas reservation, in milliseconds'',
     histogram_def ''transaction_signing_latency'' ''Latency of transaction signing, in milliseconds'',
     histogram_def ''transaction_execution_latency''
       ''Latency of transaction execution, in milliseconds'',
     counter_def ''num_gas_station_invariant_violations''
       ''Total number of invariant violations in the Gas Station core'',
     gauge_vec_def ''daily_gas_usage'' ''Current daily gas usage'',
     counter_vec_def ''oversized_gas_coins_count'' ''Total number of oversized gas coins'',
     histogram_def ''gas_usage_per_transaction'' ''Gas usage per transaction'',
     histogram_def ''reserved_gas_real_gas_usage_delta'' ''Reserved gas vs real gas usage delta'']"

definition storage_metrics :: "metric_def list" where
  "storage_metrics = [
     gauge_vec_def ''gas_station_available_gas_coin_count''
       ''Current number of available gas coins for reservation'',
     gauge_vec_def ''gas_station_available_gas_total_balance''
       ''Current total balance of available gas coins for reservation'',
     counter_def ''num_reserve_gas_coins_requests''
       ''Total number of reserve_gas_coins requests received'',
     counter_def ''num_successful_reserve_gas_coins_requests''
       ''Total number of reserve_gas_coins requests that were successful'',
     counter_def ''num_ready_for_execution_requests''
       ''Total number of ready_for_execution requests received'',
     counter_def ''num_successful_ready_for_execution_requests''
       ''Total number of ready_for_execution requests that were successful'',
     counter_def ''num_add_new_coins_requests'' ''Total number of add_new_coins requests received'',
     counter_def ''num_successful_add_new_coins_requests''
       ''Total number of add_new_coins requests that were successful'',
     counter_def ''num_expire_coins_requests'' ''Total number of expire_coins requests received'',
     counter_def ''num_successful_expire_coins_requests''
       ''Total number of expire_coins requests that were successful'']"

section \<open>Registering\<close>

definition names_of :: "(string \<Rightarrow> string list) \<Rightarrow> metric_def \<Rightarrow> string list" where
  "names_of histogram_names m =
     (case metric_kind m of Histogram \<Rightarrow> histogram_names (metric_name m) | _ \<Rightarrow> [metric_name m])"

definition register_metric ::
  "(string \<Rightarrow> string list) \<Rightarrow> metric_def \<Rightarrow> string list \<Rightarrow> string list result"
where
  "register_metric histogram_names m registry =
     (if list_ex (\<lambda>n. List.member registry n) (names_of histogram_names m)
      then Panic ''AlreadyReg'' else Ok (registry @ names_of histogram_names m))"

fun register_all ::
  "(string \<Rightarrow> string list) \<Rightarrow> metric_def list \<Rightarrow> string list \<Rightarrow> string list result"
where
  "register_all histogram_names [] registry = Ok registry"
| "register_all histogram_names (m # ms) registry =
     rbind (register_metric histogram_names m registry) (register_all histogram_names ms)"

definition rpc_metrics_new where
  "rpc_metrics_new histogram_names = register_all histogram_names rpc_metrics"

definition core_metrics_new where
  "core_metrics_new histogram_names = register_all histogram_names core_metrics"

definition storage_metrics_new where
  "storage_metrics_new histogram_names = register_all histogram_names storage_metrics"

text \<open>
  \<open>invariant_violation\<close>: a panic in a debug build, else the message is logged and the counter grows.
\<close>

definition invariant_violation :: "bool \<Rightarrow> string \<Rightarrow> nat \<Rightarrow> nat result" where
  "invariant_violation debug_assertions msg violations =
     (if debug_assertions then Panic (''Invariant violation: '' @ msg) else Ok (violations + 1))"

lemma register_all_ok:
  "distinct (registry @ concat (map (names_of h) ms)) \<Longrightarrow>
     register_all h ms registry = Ok (registry @ concat (map (names_of h) ms))"
proof (induction ms arbitrary: registry)
  case Nil
  then show ?case by simp
next
  case (Cons m ms)
  then have "register_metric h m registry = Ok (registry @ names_of h m)"
    by (auto simp: register_metric_def list_ex_iff)
  moreover have "register_all h ms (registry @ names_of h m) =
      Ok ((registry @ names_of h m) @ concat (map (names_of h) ms))"
    using Cons.prems by (intro Cons.IH) simp
  ultimately show ?case by simp
qed

end
