(* ===== verification/Load_Test.thy ===== *)
theory Load_Test
  imports Rpc_Client Consistency_Check
begin

text \<open>
  The load generators, \<open>src/src/benchmarks/mod.rs\<close> and \<open>src/src/benchmarks/kms_stress.rs\<close>. Their tasks
  share counters, which each of them updates in one step; the order of these steps is a list. Random
  budgets, the key of a client and the time that passed are arguments.
\<close>

section \<open>Statistics of the benchmark\<close>

datatype benchmark_mode = ReserveOnly | ReserveAndExecute

record benchmark_stats =
  num_requests :: u64
  total_latency :: "128 word"
  num_errors :: u64

definition default_stats :: benchmark_stats where
  "default_stats = \<lparr>num_requests = 0, total_latency = 0, num_errors = 0\<rparr>"

definition update_success :: "128 word \<Rightarrow> benchmark_stats \<Rightarrow> benchmark_stats" where
  "update_success latency s =
     s\<lparr>num_requests := num_requests s + 1, total_latency := total_latency s + latency\<rparr>"

definition update_error :: "benchmark_stats \<Rightarrow> benchmark_stats" where
  "update_error s = s\<lparr>num_requests := num_requests s + 1, num_errors := num_errors s + 1\<rparr>"

text \<open>What a round of a client does to the statistics.\<close>

datatype round_outcome = RoundFailed | RoundSucceeded "128 word"

fun apply_outcome :: "round_outcome \<Rightarrow> benchmark_stats \<Rightarrow> benchmark_stats" where
  "apply_outcome RoundFailed = update_error"
| "apply_outcome (RoundSucceeded latency) = update_success latency"

text \<open>Updates commute, so the statistics do not depend on how the clients interleave.\<close>

lemma outcomes_commute:
  "apply_outcome a (apply_outcome b s) = apply_outcome b (apply_outcome a s)"
  by (cases a; cases b) (simp_all add: update_success_def update_error_def)

lemma outcome_first:
  "fold apply_outcome (xs @ a # ys) s = fold apply_outcome (a # xs @ ys) s"
proof -
  have "fold apply_outcome xs (apply_outcome a s) = apply_outcome a (fold apply_outcome xs s)" for s
    by (induction xs arbitrary: s) (simp, metis fold_simps(2) outcomes_commute)
  then show ?thesis by simp
qed

lemma stats_of_outcomes:
  "num_requests (fold apply_outcome os s) = num_requests s + of_nat (length os)"
  "num_errors (fold apply_outcome os s) =
     num_errors s + of_nat (length (filter (\<lambda>oc. oc = RoundFailed) os))"
proof (induction os arbitrary: s)
  case (Cons oc os)
  { case 1 show ?case
      by (cases oc) (simp_all add: Cons.IH update_success_def update_error_def algebra_simps) }
  { case 2 show ?case
      by (cases oc) (simp_all add: Cons.IH update_success_def update_error_def algebra_simps) }
qed simp_all

section \<open>A client of the benchmark\<close>

text \<open>
  What a client has: its address and its key, which signs, the price constant of the node's
  configuration, and a clock for the latency of a round in milliseconds.
\<close>

record ('w, 'addr, 'id, 'dg, 'sig) benchmark_client =
  bench_sender :: 'addr
  bench_sign :: "('addr, 'id, 'dg) tx_data \<Rightarrow> 'sig"
  validator_gas_price :: u64
  elapsed_millis :: "('w, 128 word) prog"

text \<open>One round: reserve, and unless only reservations are wanted execute an empty transaction.\<close>

definition benchmark_round ::
  "'addr addr_codec \<Rightarrow> ('addr, 'id, 'dg, 'sig) wire_lib \<Rightarrow> 'w transport \<Rightarrow> rpc_client \<Rightarrow>
     ('w, 'addr, 'id, 'dg, 'sig) benchmark_client \<Rightarrow> benchmark_mode \<Rightarrow> u64 \<Rightarrow> u64 \<Rightarrow>
     ('w, round_outcome) prog"
where
  "benchmark_round A W send client self mode reserve_duration_sec budget =
     pbind (ptry (client_reserve_gas A W send client budget reserve_duration_sec)) (\<lambda>result.
     case result of
       Inl err \<Rightarrow> pret RoundFailed
     | Inr (sponsor, rid, gas_coins) \<Rightarrow>
         if mode \<noteq> ReserveAndExecute then pbind (elapsed_millis self) (\<lambda>l. pret (RoundSucceeded l))
         else
           let d = \<lparr>tx_sender = bench_sender self, gas_owner = sponsor, payment = gas_coins,
                 gas_price = validator_gas_price self, gas_budget = budget,
                 tx_kind = ProgrammableTransaction [] []\<rparr>;
               sig = bench_sign self d
           in pbind (ptry (client_execute_tx W send client rid d sig None None)) (\<lambda>result.
              case result of
                Inl err \<Rightarrow> pret RoundFailed
              | Inr effects \<Rightarrow> pbind (elapsed_millis self) (\<lambda>l. pret (RoundSucceeded l))))"

text \<open>The rounds for the given budgets, one after the other.\<close>

fun benchmark_rounds ::
  "(u64 \<Rightarrow> ('w, round_outcome) prog) \<Rightarrow> u64 list \<Rightarrow> ('w, round_outcome list) prog"
where
  "benchmark_rounds one [] = pret []"
| "benchmark_rounds one (budget # budgets) =
     pbind (one budget) (\<lambda>oc. pbind (benchmark_rounds one budgets) (\<lambda>ocs. pret (oc # ocs)))"

text \<open>
  The line printed every second: requests, errors and the average latency of the successful
  requests since the last line. It divides by their number unless there were no requests at all.
\<close>

definition average_latency :: "benchmark_stats \<Rightarrow> benchmark_stats \<Rightarrow> (u64 \<times> u64 \<times> 128 word) result" where
  "average_latency cur prev =
     (let request_per_second = num_requests cur - num_requests prev;
          errors = num_errors cur - num_errors prev
      in if request_per_second = 0 then Ok (request_per_second, errors, 0)
         else if request_per_second - errors = 0 then Panic ''attempt to divide by zero''
         else Ok (request_per_second, errors,
                (total_latency cur - total_latency prev) div ucast (request_per_second - errors)))"

definition stats_line :: "u64 \<times> u64 \<times> 128 word \<Rightarrow> string" where
  "stats_line r = (case r of (requests, errors, latency) \<Rightarrow>
     ''Requests per second: '' @ show_nat (unat requests) @ '', errors per second: '' @
     show_nat (unat errors) @ '', average latency: '' @ show_nat (unat latency) @ ''ms'')"

text \<open>The task that prints, on what it reads second by second.\<close>

fun print_stats :: "benchmark_stats \<Rightarrow> benchmark_stats list \<Rightarrow> string list result" where
  "print_stats prev [] = Ok []"
| "print_stats prev (cur # rest) =
     rbind (average_latency cur prev) (\<lambda>line.
     rbind (print_stats cur rest) (\<lambda>lines. Ok (stats_line line # lines)))"

text \<open>A second in which every request failed ends the benchmark.\<close>

lemma second_of_outcomes:
  assumes "0 < length os" "length os < 2 ^ 64"
  shows "average_latency (fold apply_outcome os s) s = Panic ''attempt to divide by zero'' \<longleftrightarrow>
    (\<forall>oc \<in> set os. oc = RoundFailed)"
proof -
  let ?e = "length (filter (\<lambda>oc. oc = RoundFailed) os)"
  have e: "?e \<le> length os" "?e = length os \<longleftrightarrow> (\<forall>oc \<in> set os. oc = RoundFailed)"
    by (auto simp: filter_id_conv dest: length_filter_less)
  have word: "(of_nat m :: u64) = of_nat n \<longleftrightarrow> m = n" if "m < 2 ^ 64" "n < 2 ^ 64" for m n
  proof -
    have "unat (of_nat k :: u64) = k" if "k < 2 ^ 64" for k using that by (simp add: unat_of_nat)
    with that show ?thesis by metis
  qed
  have some: "(of_nat (length os) :: u64) \<noteq> 0"
    using word [of "length os" 0] assms by simp
  have same: "(of_nat (length os) :: u64) = of_nat ?e \<longleftrightarrow> length os = ?e"
    using word [of "length os" ?e] assms e(1) by simp
  have "average_latency (fold apply_outcome os s) s = Panic ''attempt to divide by zero'' \<longleftrightarrow>
      (of_nat (length os) :: u64) - of_nat ?e = 0"
    using some by (simp add: average_latency_def stats_of_outcomes Let_def)
  also have "\<dots> \<longleftrightarrow> ?e = length os" using same by auto
  finally show ?thesis using e(2) by simp
qed

section \<open>The stress test of the signer\<close>

record kms_counters =
  success_counter :: u64
  failure_counter :: u64

text \<open>A worker counts the answer of every request it makes until it sees the stop flag.\<close>

fun count_answer :: "error + 'sig \<Rightarrow> kms_counters \<Rightarrow> kms_counters" where
  "count_answer (Inr sig) c = c\<lparr>success_counter := success_counter c + 1\<rparr>"
| "count_answer (Inl e) c = c\<lparr>failure_counter := failure_counter c + 1\<rparr>"

text \<open>\<open>flags\<close> are the readings of the stop flag.\<close>

fun kms_worker ::
  "('w, 'sig) prog \<Rightarrow> bool list \<Rightarrow> kms_counters \<Rightarrow> ('w, kms_counters) prog"
where
  "kms_worker sign [] c = pret c"
| "kms_worker sign (stop # flags) c =
     (if stop then pret c
      else pbind (ptry sign) (\<lambda>r. kms_worker sign flags (count_answer r c)))"

definition kms_test_tx ::
  "'addr \<Rightarrow> ('id, 'dg) object_ref \<Rightarrow> ('addr, 'id, 'dg) tx_data"
where
  "kms_test_tx zero random_ref =
     \<lparr>tx_sender = zero, gas_owner = zero, payment = [random_ref], gas_price = 1000, gas_budget = 1000,
      tx_kind = ProgrammableTransaction [] []\<rparr>"

text \<open>\<open>elapsed\<close> is the time in seconds, a positive \<open>f64\<close>.\<close>

definition kms_report :: "kms_counters \<Rightarrow> f64 \<Rightarrow> string list" where
  "kms_report c elapsed =
     (let total_calls = success_counter c + failure_counter c;
          throughput = near (f64_of_u64 (success_counter c) * snd elapsed) (fst elapsed)
      in [''Total calls completed: '' @ show_u64 total_calls,
          '' - Successful: '' @ show_u64 (success_counter c),
          '' - Failed: '' @ show_u64 (failure_counter c),
          ''Elapsed time: '' @ format_fixed2 elapsed @ '' seconds'',
          ''Throughput: '' @ format_fixed2 throughput @ '' successful calls/second''])"

text \<open>No request is lost: a worker that read the flag \<open>n\<close> times as unset counts \<open>n\<close> answers.\<close>

lemma kms_worker_counts:
  fixes sign :: "('w, 'sig) prog"
  shows "kms_worker sign (replicate n False @ [True]) c w = (Ok c', w') \<Longrightarrow>
     success_counter c' + failure_counter c' = success_counter c + failure_counter c + of_nat n"
proof (induction n arbitrary: c w)
  case (Suc n)
  then obtain r :: "error + 'sig" and w1 where run: "kms_worker sign (replicate n False @ [True]) (count_answer r c) w1 = (Ok c', w')"
    using that by (cases "sign w") (cases "fst (sign w)", auto simp del: count_answer.simps)
  from Suc.IH [OF run] show ?case by (cases r) (simp_all add: algebra_simps)
qed simp

end
