(* ===== verification/Tool.thy ===== *)
theory Tool
  imports Load_Test
begin

text \<open>
  The command line tool, \<open>src/src/bin/tool.rs\<close>, and the log message of a transaction, \<open>src/src/logging.rs\<close>. Printing to
  the terminal is the list of lines of an outcome; \<open>Exit\<close> is \<open>std::process::exit\<close>.
\<close>

datatype outcome = Exit nat "string list" | Finished "string list"

section \<open>The sample configuration\<close>

datatype network = LocalNet | Devnet | Testnet | Mainnet

definition default_network :: network where
  "default_network = Testnet"

text \<open>The URLs of the public networks are constants of the SDK.\<close>

record network_urls =
  devnet_url :: string
  testnet_url :: string
  mainnet_url :: string

definition get_fullnode_url :: "network_urls \<Rightarrow> network \<Rightarrow> bool \<Rightarrow> string" where
  "get_fullnode_url U n is_docker_compose =
     (case n of
        LocalNet \<Rightarrow> if is_docker_compose then ''http://host.docker.internal:9000''
                    else ''http://localhost:9000''
      | Devnet \<Rightarrow> devnet_url U
      | Testnet \<Rightarrow> testnet_url U
      | Mainnet \<Rightarrow> mainnet_url U)"

definition is_whitespace :: "char \<Rightarrow> bool" where
  "is_whitespace c \<longleftrightarrow> c \<in> {CHR '' '', CHR 0x09, CHR 0x0A, CHR 0x0B, CHR 0x0C, CHR 0x0D}"

definition flush_warning :: string where
  "flush_warning = ''# If you change this, you need to flush the Redis database''"

text \<open>A warning with the same indentation goes before every line that has one of the options.\<close>

fun add_redis_flush_warning :: "string list \<Rightarrow> string list \<Rightarrow> string list" where
  "add_redis_flush_warning [] options = []"
| "add_redis_flush_warning (line # rest) options =
     (if list_ex (\<lambda>opt. str_contains opt line) options
      then [replicate (length (takeWhile is_whitespace line)) (CHR '' '') @ flush_warning]
      else []) @ line # add_redis_flush_warning rest options"

definition options_required_flush :: "string list" where
  "options_required_flush = [''target-init-balance:'', ''fullnode-url:'']"

definition sample_config ::
  "network_urls \<Rightarrow> string \<Rightarrow> bool \<Rightarrow> bool \<Rightarrow> network \<Rightarrow> ('addr, 'dg, 'eng) gas_station_config"
where
  "sample_config U keypair with_sidecar_signer docker_compose n =
     (default_config keypair)
       \<lparr>signer_config := (if with_sidecar_signer then Sidecar ''http://localhost:3000'' else Local keypair),
        storage_config := Redis (if docker_compose then ''redis://redis:6379'' else ''redis://127.0.0.1''),
        fullnode_url := get_fullnode_url U n docker_compose\<rparr>"

text \<open>
  \<open>yaml_lines\<close> prints a configuration; the result is the file that is written, if one is, and the
  outcome.
\<close>

definition generate_sample_config ::
  "(('addr, 'dg, 'eng) gas_station_config \<Rightarrow> string list) \<Rightarrow> network_urls \<Rightarrow> string \<Rightarrow> string \<Rightarrow>
     bool \<Rightarrow> bool \<Rightarrow> bool \<Rightarrow> network \<Rightarrow> bool \<Rightarrow> string option \<times> outcome"
where
  "generate_sample_config yaml_lines U keypair address_text with_sidecar_signer docker_compose force n
     file_exists =
     (if file_exists \<and> \<not> force
      then (None, Exit 1 [''Config file already exists. Use --force (-f) to overwrite.''])
      else
        (Some (join_with [CHR 0x0A] (add_redis_flush_warning
            (yaml_lines (sample_config U keypair with_sidecar_signer docker_compose n))
            options_required_flush)),
         Finished (if with_sidecar_signer then []
           else [''Generated a new IOTA address. If you plan to use it, please make sure it has enough funds: '' @
                   [CHR 39] @ address_text @ [CHR 39]])))"

section \<open>Asking a server\<close>

datatype cli_command =
    CheckStationHealth
  | CheckStationEndToEndHealth
  | GetStationVersion

text \<open>\<open>unwrap\<close> on a failed request is a panic.\<close>

definition run_cli :: "'w transport \<Rightarrow> rpc_client \<Rightarrow> cli_command \<Rightarrow> ('w, outcome) prog" where
  "run_cli send client c =
     (case c of
        CheckStationHealth \<Rightarrow>
          pseq (punwrap (client_health send client)) (pret (Finished [''Station server is healthy'']))
      | CheckStationEndToEndHealth \<Rightarrow>
          pbind (ptry (client_debug_health_check send client)) (\<lambda>r.
          case r of
            Inl e \<Rightarrow> pret (Exit 1 [''Station server is not healthy: '' @ error_to_string e])
          | Inr u \<Rightarrow> pret (Finished [''Station server is healthy'']))
      | GetStationVersion \<Rightarrow>
          pbind (punwrap (client_version send client)) (\<lambda>v.
          pret (Finished [''Station server version: '' @ v])))"

section \<open>The commands\<close>

datatype tool_command =
    Benchmark string u64 u64 benchmark_mode
  | StressKMS string nat
  | GenerateSampleConfig string bool bool bool network
  | ConvertKeyConfig string
  | CLI string cli_command

definition default_reserve_duration_sec :: u64 where "default_reserve_duration_sec = 20"
definition default_num_clients :: u64 where "default_num_clients = 100"
definition default_benchmark_mode :: benchmark_mode where "default_benchmark_mode = ReserveOnly"
definition default_num_tasks :: nat where "default_num_tasks = 300"

text \<open>
  What a command runs in: the load generators, the printer of a configuration, a fresh key with the
  text of its address, the conversions of a key, the files that exist, a client for a URL.
\<close>

record ('w, 'addr, 'dg, 'eng) tool_env =
  release_build :: bool
  run_benchmark :: "string \<Rightarrow> u64 \<Rightarrow> u64 \<Rightarrow> benchmark_mode \<Rightarrow> ('w, string list) prog"
  run_kms_stress_test :: "string \<Rightarrow> nat \<Rightarrow> ('w, string list) prog"
  print_yaml :: "('addr, 'dg, 'eng) gas_station_config \<Rightarrow> string list"
  tool_urls :: network_urls
  fresh_key :: "string \<times> string"
  decode_key :: "string \<Rightarrow> string option"
  encode_key_base64 :: "string \<Rightarrow> string"
  path_exists :: "string \<Rightarrow> bool"
  tool_send :: "'w transport"
  tool_client :: "string \<Rightarrow> rpc_client"

text \<open>The result is the file that is written, if one is, and the outcome.\<close>

definition tool_execute ::
  "('w, 'addr, 'dg, 'eng) tool_env \<Rightarrow> tool_command \<Rightarrow> ('w, (string \<times> string) option \<times> outcome) prog"
where
  "tool_execute E self =
     (case self of
        Benchmark gas_station_url reserve_duration_sec num_clients mode \<Rightarrow>
          if \<not> release_build E then ppanic ''Benchmark should only run in release build''
          else pbind (run_benchmark E gas_station_url reserve_duration_sec num_clients mode)
                 (\<lambda>lines. pret (None, Finished lines))
      | StressKMS kms_url num_tasks \<Rightarrow>
          pbind (run_kms_stress_test E kms_url num_tasks) (\<lambda>lines. pret (None, Finished lines))
      | GenerateSampleConfig config_path with_sidecar_signer docker_compose force n \<Rightarrow>
          (case generate_sample_config (print_yaml E) (tool_urls E) (fst (fresh_key E)) (snd (fresh_key E))
                  with_sidecar_signer docker_compose force n (path_exists E config_path) of
             (file, outcome) \<Rightarrow> pret (map_option (\<lambda>text. (config_path, text)) file, outcome))
      | ConvertKeyConfig key \<Rightarrow>
          (case decode_key E key of
             None \<Rightarrow> ppanic ''called `Result::unwrap()` on an `Err` value''
           | Some k \<Rightarrow> pret (None, Finished [encode_key_base64 E k]))
      | CLI url c \<Rightarrow> pbind (run_cli (tool_send E) (tool_client E url) c) (\<lambda>r. pret (None, r)))"

text \<open>An existing file is only overwritten with \<open>--force\<close>, and only this command writes one.\<close>

lemma tool_overwrites_only_forced:
  assumes "tool_execute E c w = (Ok (Some (path, text), outcome), w')"
  shows "\<exists>sidecar docker force n. c = GenerateSampleConfig path sidecar docker force n \<and>
    (path_exists E path \<longrightarrow> force)"
  using assms
  by (cases c) (auto simp: tool_execute_def generate_sample_config_def split: if_splits option.splits result.splits prod.splits)

section \<open>The log message\<close>

record 'd tx_log_message =
  log_timestamp :: int
  log_level :: string
  log_host :: string
  log_message :: string
  log_details :: 'd

definition tx_log_message_new :: "int \<Rightarrow> string \<Rightarrow> 'd \<Rightarrow> 'd tx_log_message" where
  "tx_log_message_new timestamp hostname effects =
     \<lparr>log_timestamp = timestamp, log_level = ''trace'', log_host = hostname,
      log_message = ''transaction data'', log_details = effects\<rparr>"

definition display_tx_log_message ::
  "(json \<Rightarrow> string) \<Rightarrow> ('d \<Rightarrow> json) \<Rightarrow> 'd tx_log_message \<Rightarrow> string"
where
  "display_tx_log_message print ser_details m =
     print (JObject [(''timestamp'', JNumber (log_timestamp m)), (''level'', JString (log_level m)),
       (''host'', JString (log_host m)), (''message'', JString (log_message m)),
       (''details'', ser_details (log_details m))])"

end
