(* ===== verification/Spec2Isabelle.thy ===== *)
theory Spec2Isabelle
  imports Rpc_Props Isolation Storage_Loops Migration_Tests Lock_Exclusion Config_Tests Access_Wellformed Rpc_Tests Service_Tests Bcs_Decoder Metrics Tool
begin

text \<open>
  A model of the IOTA gas station in Isabelle/HOL, with the theorems that make it correct.

  \<^bold>\<open>The program.\<close> The gas station sponsors transactions. It owns a pool of gas coins, lends some of
  them to a client (a reservation, with a time after which it expires), and later executes the
  client's transaction with those coins as payment: it checks the transaction, signs it as the
  sponsor, sends it to a node of the network and puts the coins that are left back into the pool.
  The pool is kept in Redis and changed by Lua scripts. An initializer fills the pool by splitting
  the sponsor's large coins, an access controller decides which transactions are sponsored and
  limits the gas of a client within a window of time, and an RPC server offers all of this.

  \<^bold>\<open>Shape of the model.\<close> Pure Rust functions are HOL functions. Asynchronous ones are programs
  (\<open>prog\<close> in \<open>Effects\<close>): functions from a world to a result and a world, where a result is a value,
  an \<open>anyhow\<close> error, a panic, or \<open>Hang\<close> for code that does not return. The world is a chain of
  records, each extending the one before: Redis keys, clock, faults of the network and metrics
  (\<open>world\<close>); the answers of the node and the signer and the requests made (\<open>node_world\<close>); the usage
  cap and the rescan trigger (\<open>station_world\<close>); the queue of the initializer (\<open>init_world\<close>); the
  counters of the tracker, hooks and the access controller (\<open>access_world\<close>); the configuration file
  (\<open>rpc_world\<close>). Programs are polymorphic in what a later record adds. What a service answers is an
  arbitrary list in the world, so the theorems hold for every behaviour of the node, the signer and
  the hooks. A request to Redis may be lost before it arrives, or its reply may be lost afterwards.

  \<^bold>\<open>Parts.\<close>

  \<^item> \<open>Prelude\<close>, \<open>Json\<close>: machine integers (\<open>u64\<close> is a 64 bit word read by \<open>unat\<close> or \<open>uint\<close>, \<open>i64\<close> one read by
    \<open>sint\<close>), results, decimal texts, JSON values, and the locale \<open>json_codec\<close> of what is written and
    read back. \<open>Effects\<close>: programs, \<open>src/src/errors.rs\<close>, and the rules of \<open>keeps\<close> that show which part of
    the world a program leaves alone.
  \<^item> The pool: \<open>Lua_Num\<close> (Lua numbers are doubles: sums are rounded to 53 bits), \<open>Redis_Store\<close> (the Redis
    commands), \<open>Gas_Types\<close> (\<open>types.rs\<close>), \<open>Pool_Scripts\<close> (the scripts of \<open>storage/redis/lua_scripts\<close>),
    \<open>Redis_Storage\<close> (\<open>storage/mod.rs\<close>, \<open>storage/redis/mod.rs\<close>), \<open>Migration\<close> (\<open>storage/redis/migration.rs\<close>).
    \<open>Pool_Spec\<close> says what the pool promises without keys and texts, \<open>Pool_Refine\<close> that the scripts
    implement it, \<open>Pool_Effects\<close> what holds without the bounds of the exact range, with the locale
    \<open>timed_lock\<close> of the two locks; \<open>Pool_Storage\<close> has the properties of single requests; \<open>Pool_System\<close>
    those of all sequences of requests, and \<open>Pool_Client\<close> the locale \<open>coin_store\<close> through which clients
    use the pool, interpreted on \<open>RedisStorage\<close>. \<open>Isolation\<close> puts several stations on one Redis, and
    \<open>Lock_Exclusion\<close> lets them compete for the two locks.
  \<^item> The station: \<open>Transactions\<close> (what the station looks at in a transaction), \<open>Iota_Client\<close>
    (\<open>iota_client.rs\<close>), \<open>Usage_Cap\<close>, \<open>Rescan_Trigger\<close> and \<open>Gas_Station_Core\<close> (\<open>gas_station\<close>);
    properties in \<open>Station_Props\<close>.
  \<^item> The initializer: \<open>Consistency_Check\<close> (\<open>consistency_check.rs\<close>), \<open>Initializer\<close>
    (\<open>gas_station_initializer.rs\<close>); properties in \<open>Init_Props\<close>, and in \<open>Init_Termination\<close> that the queue
    of coins to split runs empty. \<open>Init_Split\<close> says as a function of the coins and the effects what the
    splits leave, \<open>Init_Pool\<close> steps over a run on a node that answers, and \<open>Init_Start\<close> composes node,
    splits, storage and locks to what a whole start does to the pool.
  \<^item> The access controller (\<open>access_controller\<close>): \<open>Access_Predicates\<close> (numbers, addresses, aggregates),
    \<open>Access_Config\<close> (policy sources, Rego), \<open>Bcs_Decoder\<close>, \<open>Access_Rules\<close> (hooks, actions, rules and their
    form in the configuration), \<open>Tracker\<close> (\<open>tracker\<close>: the counters of gas usage), \<open>Access_Match\<close>
    (contexts, predicates, reports, limits), \<open>Access_Controller\<close> (checking and confirming). Lemmas in
    \<open>Access_Claims\<close>, properties in \<open>Access_Props\<close> and \<open>Access_Limits\<close>; \<open>Access_Wellformed\<close> shows that every
    controller read from a file is one that is written and read back unchanged.
  \<^item> The server: \<open>Config\<close> (\<open>config\<close>), \<open>Rpc_Types\<close>, \<open>Rpc_Server\<close> and \<open>Rpc_Client\<close> (\<open>rpc\<close>, \<open>tx_signer.rs\<close>),
    \<open>Command\<close> (\<open>command.rs\<close>, the whole start), \<open>Metrics\<close>, \<open>Load_Test\<close> (\<open>benchmarks\<close>), \<open>Tool\<close>
    (\<open>bin/tool.rs\<close>, \<open>logging.rs\<close>); properties in \<open>Rpc_Props\<close>.
  \<^item> The tests of the repository, as programs of the model with the assertions of the code:
    \<open>Unit_Tests\<close> says what it means that a test passes and has the rules of a calculus of weakest
    preconditions; \<open>Access_Tests\<close>, \<open>Hook_Tests\<close> and \<open>Config_Tests\<close> run the tests of the access
    controller, \<open>Storage_Kit\<close> (a rule for every storage call), \<open>Storage_Tests\<close> and \<open>Storage_Loops\<close> those of
    the storage, \<open>Redis_Tests\<close> and \<open>Migration_Tests\<close> those of \<open>storage/redis\<close>. \<open>Station_Kit\<close> starts a
    station as \<open>test_env.rs\<close> does, on a local network that is a list of answers, and has a rule for every
    call of it; \<open>Station_Tests\<close> runs the tests of \<open>gas_station/mod.rs\<close>. \<open>Rpc_Kit\<close> puts a server and a
    client on that station, with a rule for every call of the client, and \<open>Rpc_Tests\<close> runs the tests of
    \<open>rpc/mod.rs\<close>; \<open>Config_File\<close> writes a configuration and shows that it reads back, and
    \<open>Service_Tests\<close> has the tests of \<open>config/mod.rs\<close>, of the policy sources and of the tracker.

  \<^bold>\<open>What is shown.\<close> About the pool: no coin is lent to two reservations unless it was added in
  between, a reservation is consumed once, each request does exactly what its specification says,
  the migration moves a whole pool. About the station: only checked transactions with the sponsor as
  payer reach the signer, and the coins come back exactly once or wait for a rescan. About the
  initializer: locks are released on every way out, splits conserve the balance and leave coins below
  the threshold from which a refresh would split them again; a first start fills the pool with exactly
  the coins the splits left, worth what the sponsor had less the gas paid, and a full rescan puts them
  in the place of whatever the pool held. About access: a check is the first rule
  that matches; the gas limit of a controller with one rule holds under every interleaving of checks,
  repeated ones too, and confirmations of a client within a window, where a repeated check leaves its
  first booking on the counter; rejected requests do not touch the station, clients get what the
  server answers, and a configuration that is read and written reads the same. About several stations:
  a call of one leaves the pool of another alone, and a lock that is held until its time is over is
  held by one station. The tests of the storage, of the migration, of the station and of the
  server pass (but for one assertion of the last, which the model refutes) for every clock, every
  earlier content of the keys of other stations and every order of SCAN that their statements allow;
  those of the access controller and of the configuration pass too, as lemmas. Facts of single functions that are not among the properties (what a split
  leaves, that a reload forgets claims) are lemmas of the same theories. The errors of the code that
  the model shows are theorems as well (a lost reply adds coins twice, a second rule overwrites a
  claim, a late confirmation makes a counter negative, a station can release the lock of another).

  \<^bold>\<open>Bounds and fuel.\<close> Loops of the code that may not end, because a service never answers, take a
  number of rounds (\<open>fuel\<close>) and give \<open>Hang\<close> when it is used up; the theorems on termination say how
  many rounds are enough. Statements on exact sums assume at most \<open>2 ^ 53\<close>, the range in which Lua
  numbers are exact, and texts of numbers that a script passes to Redis are exact below \<open>10 ^ 17\<close>.
  Release builds wrap and the model wraps with them.

  \<^bold>\<open>Assumptions on code that is not here.\<close> Operations of other crates are arguments: texts of ids and
  digests (\<open>codec\<close>, \<open>codec_ok\<close>: what is printed parses to the same value and has no separator), of
  addresses (\<open>addr_codec_ok\<close>) and durations, base64, BCS and JSON of the types of the node
  (\<open>wire_lib_ok\<close>, \<open>wire_bcs_ok\<close>), URLs, header names, the Rego engine, the hash, the order in which SCAN
  hands out keys. A request of the client carries a map of headers, into which the secret goes as
  \<open>authorization\<close>, and the server takes its token from the headers that arrive. That a plain token
  arrives as it was sent is \<open>bearer_ok\<close>, that the HTTP library adds no such header is \<open>stack_ok\<close>; a
  token is plain (\<open>plain_token\<close>) when it is printable without blanks at its ends. The hypotheses on them are their documented round trips, and each theorem that uses
  them has an instance.

  \<^bold>\<open>Not modelled.\<close> \<open>main.rs\<close> and the argument parser; telemetry and log lines; the socket of the server and
  the scheduling of tasks (a check of the access controller and a split of a coin run as one step;
  requests to Redis, and calls of the usage cap, interleave); the sequence form that derived readers
  of structs also accept; random choices of the benchmark clients; the example servers under
  \<open>examples\<close>. Of the tests: those of the initializer, the two of the station that are marked
  \<open>ignore\<close>, those that need the Rego engine or the BCS decoder, and the test of invalid actions.
\<close>

end
